(* ===== verification/Prelude.thy ===== *)
theory Prelude
  imports Main "HOL-Library.Word" "HOL-Library.Multiset"
begin

text \<open>
  The shared base of the development: the fixed-width integer types of the C code
  (\<^verbatim>\<open>uint8_t\<close>, \<^verbatim>\<open>uint16_t\<close>, \<^verbatim>\<open>uint32_t\<close>, \<^verbatim>\<open>uint64_t\<close>), the limit macros of \<^verbatim>\<open>stdint.h\<close>, the
  collections of rewrite rules that carry word arithmetic over to the natural numbers,
  and two interfaces that the source implements again in almost every component:
  saturating addition and saturating multiplication. Each component proves once that its
  own copy meets the interface (an interpretation) and then uses the facts of the locale.
\<close>

section \<open>Machine integers\<close>

type_synonym u8 = "8 word"
type_synonym u16 = "16 word"
type_synonym u32 = "32 word"
type_synonym u64 = "64 word"

abbreviation UINT32_MAX :: u32 where
  "UINT32_MAX \<equiv> 4294967295"

abbreviation UINT64_MAX :: u64 where
  "UINT64_MAX \<equiv> 18446744073709551615"

text \<open>Widening \<^verbatim>\<open>(uint64_t)x\<close> and narrowing \<^verbatim>\<open>(uint32_t)x\<close>.\<close>

abbreviation u64_of :: "u32 \<Rightarrow> u64" where
  "u64_of x \<equiv> ucast x"

abbreviation u32_of :: "u64 \<Rightarrow> u32" where
  "u32_of x \<equiv> ucast x"

named_theorems to_nat "rules that turn word comparisons and total word operations into facts on nat"

lemma unat_lt2p: "unat (x :: 'a::len word) < 2 ^ LENGTH('a)"
  by (rule unsigned_less)

lemma unat_le_max [simp]: "unat (x :: 'a::len word) \<le> 2 ^ LENGTH('a) - Suc 0"
  using unat_lt2p [of x] by linarith

lemma unat_word_max: "unat (- 1 :: 'a::len word) = 2 ^ LENGTH('a) - 1"
  by (simp add: unsigned_minus_1_eq_mask mask_eq_exp_minus_1)

lemma unat_lt_u32: "unat (x :: u32) < 4294967296"
  using unat_lt2p [of x] by simp

lemma unat_lt_u64: "unat (x :: u64) < 18446744073709551616"
  using unat_lt2p [of x] by simp

lemma unat_le_u32 [simp]: "unat (x :: u32) \<le> 4294967295"
  using unat_lt_u32 [of x] by linarith

lemma unat_le_u64 [simp]: "unat (x :: u64) \<le> 18446744073709551615"
  using unat_lt_u64 [of x] by linarith

lemma le_UINT32_MAX [simp]: "x \<le> UINT32_MAX"
  by (simp add: word_le_nat_alt)

lemma le_UINT64_MAX [simp]: "x \<le> UINT64_MAX"
  by (simp add: word_le_nat_alt)

lemma unat_u64_of [simp]: "unat (u64_of x) = unat x"
proof -
  have "unat x < 18446744073709551616" using unat_lt_u32 [of x] by linarith
  then show ?thesis by (simp add: unsigned_ucast_eq take_bit_nat_eq_self_iff)
qed

lemma unat_u32_of: "unat (u32_of x) = unat x mod 4294967296"
  by (simp add: unsigned_ucast_eq take_bit_eq_mod)

lemma unat_u32_of_small: "unat x \<le> 4294967295 \<Longrightarrow> unat (u32_of x) = unat x"
  by (simp add: unat_u32_of)

lemma u32_of_u64_of [simp]: "u32_of (u64_of x) = x"
  using unat_lt_u32 [of x] by (simp add: word_unat_eq_iff unat_u32_of)

lemma unat_min: "unat (min a b) = min (unat a) (unat b)"
  by (simp add: min_def word_le_nat_alt)

lemma unat_max: "unat (max a b) = max (unat a) (unat b)"
  by (simp add: max_def word_le_nat_alt)

lemma word_eq_nat: "a = b \<longleftrightarrow> unat a = unat b"
  by (rule word_unat_eq_iff)

lemma word_zero_nat: "a = 0 \<longleftrightarrow> unat a = 0"
  by (simp add: unat_eq_zero)

lemmas to_nat_basic [to_nat] =
  word_le_nat_alt word_less_nat_alt unat_div_distrib unat_mod_distrib unat_min unat_max

text \<open>Operations that are exact when the mathematical result is representable.\<close>

lemma unat_add_exact:
  fixes a b :: "'a::len word"
  shows "unat a + unat b < 2 ^ LENGTH('a) \<Longrightarrow> unat (a + b) = unat a + unat b"
  by (simp add: unat_add_lem [symmetric])

lemma unat_mult_exact:
  fixes a b :: "'a::len word"
  shows "unat a * unat b < 2 ^ LENGTH('a) \<Longrightarrow> unat (a * b) = unat a * unat b"
  by (simp add: unat_mult_lem [symmetric])

lemma unat_diff_exact:
  fixes a b :: "'a::len word"
  shows "unat b \<le> unat a \<Longrightarrow> unat (a - b) = unat a - unat b"
  by (simp add: unat_sub_if')

lemma unat_inc_exact:
  fixes a :: "'a::len word"
  shows "unat a + 1 < 2 ^ LENGTH('a) \<Longrightarrow> unat (a + 1) = unat a + 1"
  using unat_add_exact [of a 1] by simp

lemma unat_inc_neq_max:
  fixes a :: "'a::len word"
  assumes "a \<noteq> - 1"
  shows "unat (a + 1) = unat a + 1"
  by (metis assms Suc_eq_plus1 add.commute add_neg_numeral_special(7) add_right_cancel unatSuc)

text \<open>The product of two 32-bit values always fits in 64 bits.\<close>

lemma mult_u32_bound: "unat (a :: u32) * unat (b :: u32) < 18446744073709551616"
proof -
  have "unat a * unat b \<le> 4294967295 * 4294967295"
    by (intro mult_le_mono) simp_all
  then show ?thesis by linarith
qed

lemma unat_mult_u64_of [simp]: "unat (u64_of a * u64_of b) = unat a * unat b"
  using mult_u32_bound [of a b] by (subst unat_mult_exact) simp_all

text \<open>A 32-bit value shifted left by 16 bits, as the fixed-point code does, fits in 64 bits.\<close>

lemma unat_push_bit_exact:
  fixes a :: "'a::len word"
  assumes "unat a * 2 ^ n < 2 ^ LENGTH('a)"
  shows "unat (push_bit n a) = unat a * 2 ^ n"
proof -
  have "unat (push_bit n a) = take_bit LENGTH('a) (push_bit n (unat a))"
    by (simp add: unsigned_push_bit_eq)
  also have "\<dots> = unat a * 2 ^ n"
    using assms by (simp add: push_bit_eq_mult take_bit_nat_eq_self_iff)
  finally show ?thesis .
qed

lemma unat_drop_bit: "unat (drop_bit n a) = unat a div 2 ^ n"
  by (subst unat_drop_bit_eq) (rule drop_bit_eq_div)

section \<open>Rounding\<close>

text \<open>How the source multiplies without a wider type: split one factor by the divisor first.\<close>

lemma mult_split_div: "(v::nat) * m = v div d * m * d + v mod d * m"
proof -
  have "(v div d * d + v mod d) * m = v div d * m * d + v mod d * m"
    by (simp only: distrib_right distrib_left ac_simps)
  then show ?thesis by simp
qed

text \<open>Integer division rounded up, the reference for the ceiling computations of the source.\<close>

definition ceil_div :: "nat \<Rightarrow> nat \<Rightarrow> nat" where
  "ceil_div n d = n div d + (if n mod d = 0 then 0 else 1)"

lemma ceil_div_ge: "0 < d \<Longrightarrow> n \<le> ceil_div n d * d"
proof -
  assume "0 < d"
  then have "n mod d \<le> (if n mod d = 0 then 0 else d)" by (simp add: less_imp_le)
  then have "n div d * d + n mod d \<le> n div d * d + (if n mod d = 0 then 0 else d)"
    by (rule add_left_mono)
  also have "\<dots> = ceil_div n d * d" by (simp add: ceil_div_def add_mult_distrib)
  finally show ?thesis by simp
qed

lemma ceil_div_least: "0 < d \<Longrightarrow> n \<le> k * d \<Longrightarrow> ceil_div n d \<le> k"
proof -
  assume d: "0 < d" and le: "n \<le> k * d"
  have "n div d \<le> k" using div_le_mono [OF le, of d] d by simp
  moreover have "n div d \<noteq> k" if "n mod d \<noteq> 0"
  proof
    assume "n div d = k"
    then have "n = k * d + n mod d" by (metis div_mult_mod_eq)
    with le that show False by simp
  qed
  ultimately show ?thesis by (auto simp: ceil_div_def)
qed

lemma ceil_div_add_mult: "0 < d \<Longrightarrow> ceil_div (q * d + r) d = q + ceil_div r d"
  by (simp add: ceil_div_def)

lemma ceil_div_le_self: "ceil_div n d \<le> n \<or> d = 0"
proof (cases "d = 0")
  case False
  then have "n \<le> n * d" by simp
  then show ?thesis using ceil_div_least [of d n n] False by simp
qed simp

lemma ceil_div_eq_0_iff: "0 < d \<Longrightarrow> ceil_div n d = 0 \<longleftrightarrow> n = 0"
  by (auto simp: ceil_div_def split: if_splits) (metis mod_if mod_less_eq_dividend neq0_conv div_eq_0_iff)

lemma ceil_div_mono: "m \<le> n \<Longrightarrow> ceil_div m d \<le> ceil_div n d"
proof (cases "d = 0")
  case True
  then show "m \<le> n \<Longrightarrow> ceil_div m d \<le> ceil_div n d" by (auto simp: ceil_div_def)
next
  case False
  assume "m \<le> n"
  with ceil_div_ge [of d n] False show ?thesis
    by (intro ceil_div_least) auto
qed

section \<open>Saturating arithmetic as an interface\<close>

locale saturating_add =
  fixes sat :: "'a::len word \<Rightarrow> 'a word \<Rightarrow> 'a word"
  assumes unat_sat: "unat (sat a b) = min (2 ^ LENGTH('a) - 1) (unat a + unat b)"
begin

lemma sat_exact: "unat a + unat b < 2 ^ LENGTH('a) \<Longrightarrow> unat (sat a b) = unat a + unat b"
  by (simp add: unat_sat)

lemma sat_ge_left: "a \<le> sat a b"
  by (auto simp: word_le_nat_alt unat_sat)

lemma sat_ge_right: "b \<le> sat a b"
  by (auto simp: word_le_nat_alt unat_sat)

lemma sat_commute: "sat a b = sat b a"
  by (simp add: word_unat_eq_iff unat_sat add.commute)

lemma sat_mono: "a \<le> c \<Longrightarrow> b \<le> d \<Longrightarrow> sat a b \<le> sat c d"
  by (auto simp: word_le_nat_alt unat_sat)

lemma sat_zero_right: "sat a 0 = a"
  by (simp add: word_unat_eq_iff unat_sat min_absorb2)

lemma sat_le_sum: "unat (sat a b) \<le> unat a + unat b"
  by (simp add: unat_sat)

end

locale saturating_mul =
  fixes sat :: "'a::len word \<Rightarrow> 'a word \<Rightarrow> 'a word"
  assumes unat_sat: "unat (sat a b) = min (2 ^ LENGTH('a) - 1) (unat a * unat b)"
begin

lemma sat_exact: "unat a * unat b < 2 ^ LENGTH('a) \<Longrightarrow> unat (sat a b) = unat a * unat b"
  by (simp add: unat_sat)

lemma sat_commute: "sat a b = sat b a"
  by (simp add: word_unat_eq_iff unat_sat mult.commute)

lemma sat_mono: "a \<le> c \<Longrightarrow> b \<le> d \<Longrightarrow> sat a b \<le> sat c d"
  by (auto simp: word_le_nat_alt unat_sat intro: min.coboundedI2 mult_le_mono)

lemma sat_pos: "a \<noteq> 0 \<Longrightarrow> b \<noteq> 0 \<Longrightarrow> a \<le> sat a b"
  by (auto simp: word_le_nat_alt unat_sat word_zero_nat)

end

text \<open>
  The two shapes in which the source writes these operations, proved to saturate once for
  every word length: the guard \<^verbatim>\<open>right > MAX - left\<close> (or \<^verbatim>\<open>MAX - left < right\<close>) for sums and
  \<^verbatim>\<open>left > MAX / right\<close> for products.
\<close>

lemma unat_add_guarded:
  fixes a b :: "'a::len word"
  shows "unat (if b > - 1 - a then - 1 else a + b) = min (2 ^ LENGTH('a) - 1) (unat a + unat b)"
proof -
  have m: "unat (- 1 :: 'a word) = 2 ^ LENGTH('a) - 1" by (rule unat_word_max)
  have "unat (- 1 - a) = 2 ^ LENGTH('a) - 1 - unat a"
    by (subst unat_diff_exact) (simp_all add: m)
  then have guard: "b > - 1 - a \<longleftrightarrow> 2 ^ LENGTH('a) \<le> unat a + unat b"
    using unat_lt2p [of a] unfolding word_less_nat_alt by linarith
  show ?thesis
  proof (cases "2 ^ LENGTH('a) \<le> unat a + unat b")
    case True
    then show ?thesis using guard m by simp
  next
    case False
    then have "unat (a + b) = unat a + unat b" by (intro unat_add_exact) simp
    then show ?thesis using False guard by auto
  qed
qed

lemma unat_mult_guarded:
  fixes a b :: "'a::len word"
  shows "unat (if a = 0 \<or> b = 0 then 0 else if a > - 1 div b then - 1 else a * b)
    = min (2 ^ LENGTH('a) - 1) (unat a * unat b)"
proof (cases "a = 0 \<or> b = 0")
  case False
  then have pos: "0 < unat a" "0 < unat b" by (simp_all add: word_zero_nat)
  have m: "unat (- 1 :: 'a word) = 2 ^ LENGTH('a) - 1" by (rule unat_word_max)
  have "a > - 1 div b \<longleftrightarrow> 2 ^ LENGTH('a) - 1 < unat a * unat b"
    using pos m by (simp add: word_less_nat_alt unat_div_distrib div_less_iff_less_mult)
  moreover have "unat (a * b) = unat a * unat b" if "\<not> 2 ^ LENGTH('a) - 1 < unat a * unat b"
  proof -
    have "0 < (2::nat) ^ LENGTH('a)" by simp
    with that have "unat a * unat b < 2 ^ LENGTH('a)" by linarith
    then show ?thesis by (rule unat_mult_exact)
  qed
  ultimately show ?thesis using False m by auto
qed auto

lemma UINT32_MAX_eq: "UINT32_MAX = - 1"
  by simp

lemma UINT64_MAX_eq: "UINT64_MAX = - 1"
  by simp

lemma unat_add_guarded_u32:
  "unat (if b > UINT32_MAX - a then UINT32_MAX else a + b) = min 4294967295 (unat a + unat b)"
  unfolding UINT32_MAX_eq unat_add_guarded by simp

lemma unat_add_guarded_u64:
  "unat (if b > UINT64_MAX - a then UINT64_MAX else a + b)
    = min 18446744073709551615 (unat a + unat b)"
  unfolding UINT64_MAX_eq unat_add_guarded by simp

lemma unat_mult_guarded_u64:
  "unat (if a = 0 \<or> b = 0 then 0 else if a > UINT64_MAX div b then UINT64_MAX else a * b)
    = min 18446744073709551615 (unat a * unat b)"
  unfolding UINT64_MAX_eq unat_mult_guarded by simp

text \<open>A counter that stops at its maximum, \<^verbatim>\<open>if (x != MAX) x++\<close>.\<close>

lemma unat_inc_guarded:
  fixes x :: "'a::len word"
  shows "unat (if x \<noteq> - 1 then x + 1 else x) = min (2 ^ LENGTH('a) - 1) (unat x + 1)"
proof (cases "x = - 1")
  case True
  then show ?thesis by (simp add: unat_word_max)
next
  case False
  then have "unat (x + 1) = unat x + 1" by (rule unat_inc_neq_max)
  moreover from this have "unat x + 1 < 2 ^ LENGTH('a)" using unat_lt2p [of "x + 1"] by simp
  ultimately show ?thesis using False by simp
qed

lemma unat_inc_guarded_u32:
  "unat (if x \<noteq> UINT32_MAX then x + 1 else x) = min 4294967295 (unat x + 1)"
  unfolding UINT32_MAX_eq unat_inc_guarded by simp

lemma unat_inc_guarded_u64:
  "unat (if x \<noteq> UINT64_MAX then x + 1 else x) = min 18446744073709551615 (unat x + 1)"
  unfolding UINT64_MAX_eq unat_inc_guarded by simp

text \<open>Addition that stops at a limit, the guard written without a wider type.\<close>

lemma unat_capped_add_u32:
  fixes a b l :: u32
  shows "unat (if a \<ge> l \<or> b > l - a then l else a + b) = min (unat l) (unat a + unat b)"
proof (cases "a \<ge> l")
  case False
  then have s: "unat (l - a) = unat l - unat a" "unat a < unat l"
    by (simp_all add: word_le_nat_alt unat_sub)
  show ?thesis
  proof (cases "b > l - a")
    case True
    then show ?thesis using s by (simp add: word_less_nat_alt min_def)
  next
    case b: False
    then have "unat a + unat b \<le> unat l" using s by (simp add: word_less_nat_alt)
    moreover from this have "unat (a + b) = unat a + unat b"
      using unat_lt_u32 [of l] by (intro unat_add_exact) simp
    ultimately show ?thesis using False b by simp
  qed
qed (simp add: word_le_nat_alt min_def)

end
