(* ===== verification/Cc_Core.thy ===== *)
theory Cc_Core
  imports Prelude
begin

text \<open>
  The transport-neutral congestion-control boundary: \<^verbatim>\<open>src/cc/cc.h\<close> (the observation,
  policy and operation-table structs) and \<^verbatim>\<open>src/cc/cc.c\<close> (the five checked entry points).
  In this boundary a pointer that the code compares with \<^verbatim>\<open>NULL\<close> is an \<^typ>\<open>'a option\<close>;
  a controller callback maps the caller-owned state and the policy to a return code, a new
  state and a new policy. The interface \<open>cc_controller\<close> states what a controller promises
  to the boundary; every controller of the development is an interpretation of it.
\<close>

unbundle bit_operations_syntax

section \<open>Observations and policy\<close>

record tcp_shift_cc_transport =
  mss_bytes :: u32
  inflight_bytes :: u32
  send_window_bytes :: u32
  cwnd_limit_bytes :: u32

record tcp_shift_cc_init_config =
  initial_cwnd_bytes :: u32
  initial_ssthresh_bytes :: u32
  init_min_cwnd_bytes :: u32

definition TCP_SHIFT_CC_RATE_SAMPLE_VALID :: u32 where
  "TCP_SHIFT_CC_RATE_SAMPLE_VALID = 1"

definition TCP_SHIFT_CC_RATE_SAMPLE_APP_LIMITED :: u32 where
  "TCP_SHIFT_CC_RATE_SAMPLE_APP_LIMITED = 2"

definition TCP_SHIFT_CC_RATE_SAMPLE_RETRANSMITTED :: u32 where
  "TCP_SHIFT_CC_RATE_SAMPLE_RETRANSMITTED = 4"

definition TCP_SHIFT_CC_RATE_SAMPLE_RTT_VALID :: u32 where
  "TCP_SHIFT_CC_RATE_SAMPLE_RTT_VALID = 8"

lemmas rate_sample_flag_defs =
  TCP_SHIFT_CC_RATE_SAMPLE_VALID_def TCP_SHIFT_CC_RATE_SAMPLE_APP_LIMITED_def
  TCP_SHIFT_CC_RATE_SAMPLE_RETRANSMITTED_def TCP_SHIFT_CC_RATE_SAMPLE_RTT_VALID_def

record tcp_shift_cc_rate_sample =
  delivery_rate_bytes_per_sec :: u64
  interval_ns :: u64
  send_interval_ns :: u64
  ack_interval_ns :: u64
  rtt_ns :: u64
  prior_delivered_bytes :: u64
  delivered_total_bytes :: u64
  delivered_bytes :: u32
  prior_inflight_bytes :: u32
  flags :: u32

record tcp_shift_cc_ack =
  acked_bytes :: u32
  ack_time_ns :: u64
  smoothed_rtt_ns :: u64
  ack_rate :: tcp_shift_cc_rate_sample

record tcp_shift_cc_loss =
  lost_bytes :: u32

record tcp_shift_cc_policy =
  cwnd_bytes :: u32
  ssthresh_bytes :: u32
  pacing_rate_bytes_per_sec :: u64

text \<open>The test \<^verbatim>\<open>(sample->flags & FLAG) != 0U\<close>.\<close>

definition has_flag :: "tcp_shift_cc_rate_sample \<Rightarrow> u32 \<Rightarrow> bool" where
  "has_flag sample flag \<longleftrightarrow> flags sample AND flag \<noteq> 0"

section \<open>Controllers and handles\<close>

type_synonym 's cc_result = "int \<times> 's \<times> tcp_shift_cc_policy"

record 's tcp_shift_cc_ops =
  ops_name :: "string option"
  ops_state_size :: nat
  ops_init :: "('s \<Rightarrow> tcp_shift_cc_transport \<Rightarrow> tcp_shift_cc_init_config
    \<Rightarrow> tcp_shift_cc_policy \<Rightarrow> 's cc_result) option"
  ops_on_ack :: "('s \<Rightarrow> tcp_shift_cc_transport \<Rightarrow> tcp_shift_cc_ack
    \<Rightarrow> tcp_shift_cc_policy \<Rightarrow> 's cc_result) option"
  ops_on_loss :: "('s \<Rightarrow> tcp_shift_cc_transport \<Rightarrow> tcp_shift_cc_loss
    \<Rightarrow> tcp_shift_cc_policy \<Rightarrow> 's cc_result) option"
  ops_on_ecn :: "('s \<Rightarrow> tcp_shift_cc_transport
    \<Rightarrow> tcp_shift_cc_policy \<Rightarrow> 's cc_result) option"
  ops_on_timeout :: "('s \<Rightarrow> tcp_shift_cc_transport
    \<Rightarrow> tcp_shift_cc_policy \<Rightarrow> 's cc_result) option"

text \<open>
  The handle owns the controller state while it is bound, so the state behind the opaque
  pointer is a component of the handle.
\<close>

record 's tcp_shift_cc =
  cc_ops :: "'s tcp_shift_cc_ops option"
  cc_state :: "'s option"

type_synonym 's cc_call = "int \<times> 's tcp_shift_cc option \<times> tcp_shift_cc_policy option"

definition tcp_shift_cc_valid_transport :: "tcp_shift_cc_transport option \<Rightarrow> bool" where
  "tcp_shift_cc_valid_transport transport =
    (case transport of
       None \<Rightarrow> False
     | Some t \<Rightarrow> mss_bytes t \<noteq> 0 \<and> cwnd_limit_bytes t \<ge> mss_bytes t)"

definition tcp_shift_cc_valid ::
    "'s tcp_shift_cc option \<Rightarrow> tcp_shift_cc_policy option \<Rightarrow> bool" where
  "tcp_shift_cc_valid cc policy =
    (case cc of
       None \<Rightarrow> False
     | Some h \<Rightarrow> cc_ops h \<noteq> None \<and> cc_state h \<noteq> None \<and> policy \<noteq> None)"

text \<open>The operation table is accepted when it names itself and has its four mandatory callbacks.\<close>

definition cc_ops_complete :: "'s tcp_shift_cc_ops \<Rightarrow> bool" where
  "cc_ops_complete ops \<longleftrightarrow>
     ops_name ops \<noteq> None \<and> ops_state_size ops \<noteq> 0 \<and> ops_init ops \<noteq> None \<and>
     ops_on_ack ops \<noteq> None \<and> ops_on_loss ops \<noteq> None \<and> ops_on_timeout ops \<noteq> None"

definition tcp_shift_cc_init ::
    "'s tcp_shift_cc option \<Rightarrow> 's tcp_shift_cc_ops option \<Rightarrow> 's option \<Rightarrow> nat
      \<Rightarrow> tcp_shift_cc_transport option \<Rightarrow> tcp_shift_cc_init_config option
      \<Rightarrow> tcp_shift_cc_policy option \<Rightarrow> 's cc_call" where
  "tcp_shift_cc_init cc ops state state_size transport init policy =
    (case cc of
       None \<Rightarrow> (-1, None, policy)
     | Some h \<Rightarrow>
         let cleared = h\<lparr>cc_ops := None, cc_state := None\<rparr> in
         (case (ops, state, init, policy, transport) of
            (Some ops', Some s, Some i, Some p, Some t) \<Rightarrow>
              if \<not> tcp_shift_cc_valid_transport (Some t) \<or> ops_name ops' = None \<or>
                 ops_state_size ops' = 0 \<or> state_size < ops_state_size ops' \<or>
                 ops_init ops' = None \<or> ops_on_ack ops' = None \<or> ops_on_loss ops' = None \<or>
                 ops_on_timeout ops' = None
              then (-1, Some cleared, policy)
              else
                (let p0 = p\<lparr>cwnd_bytes := 0, ssthresh_bytes := 0,
                             pacing_rate_bytes_per_sec := 0\<rparr>;
                     (result, s', p') = the (ops_init ops') s t i p0
                 in if result \<noteq> 0 then (result, Some cleared, Some p')
                    else (0, Some (cleared\<lparr>cc_ops := Some ops', cc_state := Some s'\<rparr>), Some p'))
          | _ \<Rightarrow> (-1, Some cleared, policy)))"

text \<open>A call through a bound handle: the callback runs on the handle's state and its result is stored.\<close>

definition cc_dispatch ::
    "'s tcp_shift_cc \<Rightarrow> tcp_shift_cc_policy option
      \<Rightarrow> ('s \<Rightarrow> tcp_shift_cc_policy \<Rightarrow> 's cc_result) \<Rightarrow> 's cc_call" where
  "cc_dispatch h policy f =
    (let (result, s', p') = f (the (cc_state h)) (the policy)
     in (result, Some (h\<lparr>cc_state := Some s'\<rparr>), Some p'))"

definition tcp_shift_cc_on_ack ::
    "'s tcp_shift_cc option \<Rightarrow> tcp_shift_cc_transport option \<Rightarrow> tcp_shift_cc_ack option
      \<Rightarrow> tcp_shift_cc_policy option \<Rightarrow> 's cc_call" where
  "tcp_shift_cc_on_ack cc transport ack policy =
    (if \<not> tcp_shift_cc_valid cc policy \<or> \<not> tcp_shift_cc_valid_transport transport \<or>
        ack = None \<or> acked_bytes (the ack) = 0
     then (-1, cc, policy)
     else cc_dispatch (the cc) policy
            (\<lambda>s p. the (ops_on_ack (the (cc_ops (the cc)))) s (the transport) (the ack) p))"

definition tcp_shift_cc_on_loss ::
    "'s tcp_shift_cc option \<Rightarrow> tcp_shift_cc_transport option \<Rightarrow> tcp_shift_cc_loss option
      \<Rightarrow> tcp_shift_cc_policy option \<Rightarrow> 's cc_call" where
  "tcp_shift_cc_on_loss cc transport loss policy =
    (if \<not> tcp_shift_cc_valid cc policy \<or> \<not> tcp_shift_cc_valid_transport transport \<or>
        loss = None \<or> lost_bytes (the loss) = 0
     then (-1, cc, policy)
     else cc_dispatch (the cc) policy
            (\<lambda>s p. the (ops_on_loss (the (cc_ops (the cc)))) s (the transport) (the loss) p))"

definition tcp_shift_cc_on_ecn ::
    "'s tcp_shift_cc option \<Rightarrow> tcp_shift_cc_transport option
      \<Rightarrow> tcp_shift_cc_policy option \<Rightarrow> 's cc_call" where
  "tcp_shift_cc_on_ecn cc transport policy =
    (if \<not> tcp_shift_cc_valid cc policy \<or> \<not> tcp_shift_cc_valid_transport transport \<or>
        ops_on_ecn (the (cc_ops (the cc))) = None
     then (-1, cc, policy)
     else cc_dispatch (the cc) policy
            (\<lambda>s p. the (ops_on_ecn (the (cc_ops (the cc)))) s (the transport) p))"

definition tcp_shift_cc_on_timeout ::
    "'s tcp_shift_cc option \<Rightarrow> tcp_shift_cc_transport option
      \<Rightarrow> tcp_shift_cc_policy option \<Rightarrow> 's cc_call" where
  "tcp_shift_cc_on_timeout cc transport policy =
    (if \<not> tcp_shift_cc_valid cc policy \<or> \<not> tcp_shift_cc_valid_transport transport
     then (-1, cc, policy)
     else cc_dispatch (the cc) policy
            (\<lambda>s p. the (ops_on_timeout (the (cc_ops (the cc)))) s (the transport) p))"

section \<open>Runs of a bound controller\<close>

text \<open>What the transport reports to the boundary, in the order the events arrive.\<close>

datatype cc_event =
    Ack_Event tcp_shift_cc_transport tcp_shift_cc_ack
  | Loss_Event tcp_shift_cc_transport tcp_shift_cc_loss
  | Ecn_Event tcp_shift_cc_transport
  | Timeout_Event tcp_shift_cc_transport

fun event_transport :: "cc_event \<Rightarrow> tcp_shift_cc_transport" where
  "event_transport (Ack_Event t a) = t"
| "event_transport (Loss_Event t l) = t"
| "event_transport (Ecn_Event t) = t"
| "event_transport (Timeout_Event t) = t"

fun cc_step :: "'s tcp_shift_cc \<Rightarrow> tcp_shift_cc_policy \<Rightarrow> cc_event \<Rightarrow> 's cc_call" where
  "cc_step h p (Ack_Event t a) = tcp_shift_cc_on_ack (Some h) (Some t) (Some a) (Some p)"
| "cc_step h p (Loss_Event t l) = tcp_shift_cc_on_loss (Some h) (Some t) (Some l) (Some p)"
| "cc_step h p (Ecn_Event t) = tcp_shift_cc_on_ecn (Some h) (Some t) (Some p)"
| "cc_step h p (Timeout_Event t) = tcp_shift_cc_on_timeout (Some h) (Some t) (Some p)"

fun cc_run :: "'s tcp_shift_cc \<Rightarrow> tcp_shift_cc_policy \<Rightarrow> cc_event list
    \<Rightarrow> 's tcp_shift_cc \<times> tcp_shift_cc_policy" where
  "cc_run h p [] = (h, p)"
| "cc_run h p (e # es) =
     (case cc_step h p e of (rc, h', p') \<Rightarrow> cc_run (the h') (the p') es)"

text \<open>
  A published window the transport can represent: at least one byte and never above the
  representable limit, for the congestion window and for the slow-start threshold.
\<close>

definition policy_in_range :: "u32 \<Rightarrow> tcp_shift_cc_policy \<Rightarrow> bool" where
  "policy_in_range limit p \<longleftrightarrow>
     0 < cwnd_bytes p \<and> cwnd_bytes p \<le> limit \<and> 0 < ssthresh_bytes p \<and> ssthresh_bytes p \<le> limit"

abbreviation valid_transport :: "tcp_shift_cc_transport \<Rightarrow> bool" where
  "valid_transport t \<equiv> tcp_shift_cc_valid_transport (Some t)"

lemma valid_transport_iff:
  "valid_transport t \<longleftrightarrow> 0 < mss_bytes t \<and> mss_bytes t \<le> cwnd_limit_bytes t"
  by (simp add: tcp_shift_cc_valid_transport_def word_gt_0)

text \<open>
  What one handler call promises: the state stays within the invariant, and either the call
  is accepted and the published policy is representable, or it is refused with a nonzero
  code and the policy is left alone.
\<close>

definition cc_step_ok ::
    "('s \<Rightarrow> bool) \<Rightarrow> u32 \<Rightarrow> tcp_shift_cc_policy \<Rightarrow> 's cc_result \<Rightarrow> bool" where
  "cc_step_ok good limit p r \<longleftrightarrow>
    (case r of (rc, s', p') \<Rightarrow>
       good s' \<and> (if rc = 0 then policy_in_range limit p' else p' = p))"

text \<open>
  The contract between a controller and the boundary. The invariant is indexed by the
  transport's representable limit.
\<close>

locale cc_controller =
  fixes ops :: "'s tcp_shift_cc_ops"
    and inv :: "u32 \<Rightarrow> 's \<Rightarrow> bool"
  assumes complete: "cc_ops_complete ops"
    and init_law: "valid_transport t \<Longrightarrow> the (ops_init ops) s t i p = (0, s', p') \<Longrightarrow>
      inv (cwnd_limit_bytes t) s' \<and> policy_in_range (cwnd_limit_bytes t) p'"
    and ack_law: "valid_transport t \<Longrightarrow> inv (cwnd_limit_bytes t) s \<Longrightarrow> acked_bytes a \<noteq> 0 \<Longrightarrow>
      cc_step_ok (inv (cwnd_limit_bytes t)) (cwnd_limit_bytes t) p (the (ops_on_ack ops) s t a p)"
    and loss_law: "valid_transport t \<Longrightarrow> inv (cwnd_limit_bytes t) s \<Longrightarrow> lost_bytes l \<noteq> 0 \<Longrightarrow>
      cc_step_ok (inv (cwnd_limit_bytes t)) (cwnd_limit_bytes t) p (the (ops_on_loss ops) s t l p)"
    and ecn_law: "valid_transport t \<Longrightarrow> inv (cwnd_limit_bytes t) s \<Longrightarrow>
      ops_on_ecn ops = Some f \<Longrightarrow>
      cc_step_ok (inv (cwnd_limit_bytes t)) (cwnd_limit_bytes t) p (f s t p)"
    and timeout_law: "valid_transport t \<Longrightarrow> inv (cwnd_limit_bytes t) s \<Longrightarrow>
      cc_step_ok (inv (cwnd_limit_bytes t)) (cwnd_limit_bytes t) p (the (ops_on_timeout ops) s t p)"
begin

definition bound :: "u32 \<Rightarrow> 's tcp_shift_cc \<Rightarrow> bool" where
  "bound limit h \<longleftrightarrow> cc_ops h = Some ops \<and> (\<exists>s. cc_state h = Some s \<and> inv limit s)"

lemma init_bound:
  assumes "tcp_shift_cc_init (Some h) (Some ops) (Some s) n (Some t) (Some i) (Some p)
    = (0, h', p')"
  shows "\<exists>g q. h' = Some g \<and> p' = Some q \<and> bound (cwnd_limit_bytes t) g \<and>
    policy_in_range (cwnd_limit_bytes t) q"
  using assms init_law
  by (fastforce simp: tcp_shift_cc_init_def bound_def Let_def split: if_splits prod.splits)

lemma dispatch_bound:
  assumes "cc_ops h = Some ops" and "cc_state h = Some s" and "policy_in_range limit p"
    and "cc_step_ok (inv limit) limit p (f s p)"
  shows "\<exists>rc g q. cc_dispatch h (Some p) f = (rc, Some g, Some q) \<and> bound limit g \<and>
    policy_in_range limit q"
  using assms
  by (cases "f s p") (auto simp: cc_dispatch_def cc_step_ok_def bound_def split: if_splits)

lemma step_bound:
  assumes "bound limit h" and "policy_in_range limit p"
    and "cwnd_limit_bytes (event_transport e) = limit"
  shows "\<exists>rc g q. cc_step h p e = (rc, Some g, Some q) \<and> bound limit g \<and>
    policy_in_range limit q"
proof -
  obtain s where s: "cc_ops h = Some ops" "cc_state h = Some s" "inv limit s"
    using assms(1) by (auto simp: bound_def)
  note boundary = tcp_shift_cc_on_ack_def tcp_shift_cc_on_loss_def tcp_shift_cc_on_ecn_def
    tcp_shift_cc_on_timeout_def tcp_shift_cc_valid_def
  show ?thesis
  proof (cases e)
    case (Ack_Event t a)
    then show ?thesis using assms s dispatch_bound [OF s(1,2) assms(2)] ack_law [of t s a p]
      by (auto simp: boundary)
  next
    case (Loss_Event t l)
    then show ?thesis using assms s dispatch_bound [OF s(1,2) assms(2)] loss_law [of t s l p]
      by (auto simp: boundary)
  next
    case (Ecn_Event t)
    then show ?thesis using assms s dispatch_bound [OF s(1,2) assms(2)]
        ecn_law [of t s "the (ops_on_ecn ops)" p]
      by (auto simp: boundary)
  next
    case (Timeout_Event t)
    then show ?thesis using assms s dispatch_bound [OF s(1,2) assms(2)] timeout_law [of t s p]
      by (auto simp: boundary)
  qed
qed

theorem run_in_range:
  assumes "bound limit h" and "policy_in_range limit p"
    and "\<And>e. e \<in> set es \<Longrightarrow> cwnd_limit_bytes (event_transport e) = limit"
    and "cc_run h p es = (h', p')"
  shows "bound limit h' \<and> policy_in_range limit p'"
  using assms
proof (induction es arbitrary: h p)
  case Nil
  then show ?case by simp
next
  case (Cons e es)
  obtain rc g q where step: "cc_step h p e = (rc, Some g, Some q)"
    and ok: "bound limit g" "policy_in_range limit q"
    using step_bound [OF Cons.prems(1,2), of e] Cons.prems(3) by auto
  from Cons.prems(4) step have "cc_run g q es = (h', p')" by simp
  with ok Cons.prems(3) show ?case by (intro Cons.IH) auto
qed

theorem init_run_in_range:
  assumes "tcp_shift_cc_init (Some h) (Some ops) (Some s) n (Some t) (Some i) (Some p)
      = (0, Some g, Some q)"
    and "\<And>e. e \<in> set es \<Longrightarrow> cwnd_limit_bytes (event_transport e) = cwnd_limit_bytes t"
    and "cc_run g q es = (h', p')"
  shows "policy_in_range (cwnd_limit_bytes t) p'"
  using init_bound [OF assms(1)] run_in_range [OF _ _ assms(2,3)] by auto

end

text \<open>The refusals of the boundary, for any controller.\<close>

lemma cc_init_rejects_unbound:
  assumes "tcp_shift_cc_init (Some h) ops s n t i p = (rc, Some h', p')" and "rc \<noteq> 0"
  shows "cc_ops h' = None \<and> cc_state h' = None"
  using assms
  by (auto simp: tcp_shift_cc_init_def Let_def split: option.splits if_splits prod.splits)

lemma cc_unbound_refuses:
  assumes "cc_ops h = None \<or> cc_state h = None"
  shows "cc_step h p e = (-1, Some h, Some p)"
  using assms
  by (cases e) (auto simp: tcp_shift_cc_on_ack_def tcp_shift_cc_on_loss_def tcp_shift_cc_on_ecn_def
      tcp_shift_cc_on_timeout_def tcp_shift_cc_valid_def)

section \<open>Example values\<close>

text \<open>Concrete inputs on which the controllers' theorems are applied.\<close>

definition demo_transport :: tcp_shift_cc_transport where
  "demo_transport = \<lparr>mss_bytes = 1000, inflight_bytes = 8000, send_window_bytes = 100000,
    cwnd_limit_bytes = 50000\<rparr>"

definition demo_policy :: tcp_shift_cc_policy where
  "demo_policy = \<lparr>cwnd_bytes = 10000, ssthresh_bytes = 9000, pacing_rate_bytes_per_sec = 0\<rparr>"

definition demo_ack :: "u32 \<Rightarrow> tcp_shift_cc_ack" where
  "demo_ack n = \<lparr>acked_bytes = n, ack_time_ns = 1000000000, smoothed_rtt_ns = 20000000,
    ack_rate = \<lparr>delivery_rate_bytes_per_sec = 0, interval_ns = 0, send_interval_ns = 0,
      ack_interval_ns = 0, rtt_ns = 0, prior_delivered_bytes = 0, delivered_total_bytes = 0,
      delivered_bytes = 0, prior_inflight_bytes = 0, flags = 0\<rparr>\<rparr>"

end
