(* ===== verification/Reno.thy ===== *)
theory Reno
  imports Cc_Core
begin

text \<open>
  The byte-counting Reno controller and its fixed-rate pacing variant, \<^verbatim>\<open>src/cc/reno.c\<close> and
  \<^verbatim>\<open>src/cc/reno.h\<close> (the registry lookups at the end of \<^verbatim>\<open>reno.c\<close> are in \<open>Registry\<close>).
  The invariant bounds the window and the threshold by the transport's representable limit;
  both controllers are interpretations of the controller contract of \<open>Cc_Core\<close>. The
  functional lemmas give the window after each event in closed form on the naturals.
\<close>

section \<open>State and helpers\<close>

record tcp_shift_reno_state =
  reno_cwnd_bytes :: u32
  reno_ssthresh_bytes :: u32
  reno_ca_acked_bytes :: u32
  reno_min_cwnd_bytes :: u32

definition TCP_SHIFT_FIXED_PACING_RENO_RATE_BYTES_PER_SEC :: u64 where
  "TCP_SHIFT_FIXED_PACING_RENO_RATE_BYTES_PER_SEC = 65536"

definition tcp_shift_reno_add_sat :: "u32 \<Rightarrow> u32 \<Rightarrow> u32" where
  "tcp_shift_reno_add_sat value increment =
    (if increment > UINT32_MAX - value then UINT32_MAX else value + increment)"

definition tcp_shift_reno_min :: "u32 \<Rightarrow> u32 \<Rightarrow> u32" where
  "tcp_shift_reno_min left right = (if left < right then left else right)"

definition tcp_shift_reno_max :: "u32 \<Rightarrow> u32 \<Rightarrow> u32" where
  "tcp_shift_reno_max left right = (if left > right then left else right)"

definition tcp_shift_reno_add_cap :: "u32 \<Rightarrow> u32 \<Rightarrow> u32 \<Rightarrow> u32" where
  "tcp_shift_reno_add_cap value increment limit =
    tcp_shift_reno_min (tcp_shift_reno_add_sat value increment) limit"

definition tcp_shift_reno_mul2_cap :: "u32 \<Rightarrow> u32 \<Rightarrow> u32" where
  "tcp_shift_reno_mul2_cap value limit = (if value > limit div 2 then limit else value * 2)"

definition tcp_shift_reno_effective_min ::
    "tcp_shift_reno_state \<Rightarrow> tcp_shift_cc_transport \<Rightarrow> u32" where
  "tcp_shift_reno_effective_min state transport =
    tcp_shift_reno_min (tcp_shift_reno_max (reno_min_cwnd_bytes state) (mss_bytes transport))
      (cwnd_limit_bytes transport)"

definition tcp_shift_reno_publish ::
    "tcp_shift_reno_state \<Rightarrow> tcp_shift_cc_policy \<Rightarrow> tcp_shift_cc_policy" where
  "tcp_shift_reno_publish state policy =
    policy\<lparr>cwnd_bytes := reno_cwnd_bytes state,
           ssthresh_bytes := reno_ssthresh_bytes state,
           pacing_rate_bytes_per_sec := 0\<rparr>"

definition tcp_shift_reno_reduce_ssthresh ::
    "tcp_shift_reno_state \<Rightarrow> tcp_shift_cc_transport \<Rightarrow> tcp_shift_reno_state" where
  "tcp_shift_reno_reduce_ssthresh state transport =
    (let floor = tcp_shift_reno_mul2_cap (mss_bytes transport) (cwnd_limit_bytes transport);
         effective_window =
           (if send_window_bytes transport < reno_cwnd_bytes state
            then send_window_bytes transport else reno_cwnd_bytes state);
         reduced = effective_window div 2
     in state\<lparr>reno_ssthresh_bytes :=
          tcp_shift_reno_min (tcp_shift_reno_max reduced floor) (cwnd_limit_bytes transport)\<rparr>)"

section \<open>Event handlers\<close>

definition tcp_shift_reno_init ::
    "tcp_shift_reno_state \<Rightarrow> tcp_shift_cc_transport \<Rightarrow> tcp_shift_cc_init_config
      \<Rightarrow> tcp_shift_cc_policy \<Rightarrow> tcp_shift_reno_state cc_result" where
  "tcp_shift_reno_init state transport init policy =
    (let ssthresh_floor =
           tcp_shift_reno_mul2_cap (mss_bytes transport) (cwnd_limit_bytes transport)
     in if initial_cwnd_bytes init < mss_bytes transport \<or>
           init_min_cwnd_bytes init < mss_bytes transport \<or>
           initial_cwnd_bytes init < init_min_cwnd_bytes init \<or>
           initial_ssthresh_bytes init < ssthresh_floor \<or>
           initial_cwnd_bytes init > cwnd_limit_bytes transport \<or>
           initial_ssthresh_bytes init > cwnd_limit_bytes transport \<or>
           init_min_cwnd_bytes init > cwnd_limit_bytes transport
        then (-1, state, policy)
        else
          (let s = state\<lparr>reno_cwnd_bytes := initial_cwnd_bytes init,
                        reno_ssthresh_bytes := initial_ssthresh_bytes init,
                        reno_ca_acked_bytes := 0,
                        reno_min_cwnd_bytes := init_min_cwnd_bytes init\<rparr>
           in (0, s, tcp_shift_reno_publish s policy)))"

definition tcp_shift_reno_on_ack ::
    "tcp_shift_reno_state \<Rightarrow> tcp_shift_cc_transport \<Rightarrow> tcp_shift_cc_ack
      \<Rightarrow> tcp_shift_cc_policy \<Rightarrow> tcp_shift_reno_state cc_result" where
  "tcp_shift_reno_on_ack state transport ack policy =
    (let effective_min = tcp_shift_reno_effective_min state transport;
         s1 = (if reno_cwnd_bytes state < effective_min
               then state\<lparr>reno_cwnd_bytes := effective_min\<rparr> else state);
         s3 =
           (if reno_cwnd_bytes s1 < reno_ssthresh_bytes s1 then
              (let slow_start_limit =
                     tcp_shift_reno_mul2_cap (mss_bytes transport) (cwnd_limit_bytes transport);
                   increase = (if acked_bytes ack > slow_start_limit
                               then slow_start_limit else acked_bytes ack)
               in s1\<lparr>reno_cwnd_bytes :=
                    tcp_shift_reno_add_cap (reno_cwnd_bytes s1) increase
                      (cwnd_limit_bytes transport)\<rparr>)
            else
              (let s2 = s1\<lparr>reno_ca_acked_bytes :=
                     tcp_shift_reno_add_sat (reno_ca_acked_bytes s1) (acked_bytes ack)\<rparr>
               in if reno_ca_acked_bytes s2 \<ge> reno_cwnd_bytes s2 then
                    s2\<lparr>reno_ca_acked_bytes := reno_ca_acked_bytes s2 - reno_cwnd_bytes s2,
                       reno_cwnd_bytes :=
                         tcp_shift_reno_add_cap (reno_cwnd_bytes s2) (mss_bytes transport)
                           (cwnd_limit_bytes transport)\<rparr>
                  else s2))
     in (0, s3, tcp_shift_reno_publish s3 policy))"

definition tcp_shift_reno_on_loss ::
    "tcp_shift_reno_state \<Rightarrow> tcp_shift_cc_transport \<Rightarrow> tcp_shift_cc_loss
      \<Rightarrow> tcp_shift_cc_policy \<Rightarrow> tcp_shift_reno_state cc_result" where
  "tcp_shift_reno_on_loss state transport loss policy =
    (let s1 = tcp_shift_reno_reduce_ssthresh state transport;
         effective_min = tcp_shift_reno_effective_min s1 transport;
         s2 = s1\<lparr>reno_cwnd_bytes :=
                tcp_shift_reno_min (tcp_shift_reno_max (reno_ssthresh_bytes s1) effective_min)
                  (cwnd_limit_bytes transport),
              reno_ca_acked_bytes := 0\<rparr>
     in (0, s2, tcp_shift_reno_publish s2 policy))"

definition tcp_shift_reno_on_ecn ::
    "tcp_shift_reno_state \<Rightarrow> tcp_shift_cc_transport
      \<Rightarrow> tcp_shift_cc_policy \<Rightarrow> tcp_shift_reno_state cc_result" where
  "tcp_shift_reno_on_ecn state transport policy =
    tcp_shift_reno_on_loss state transport \<lparr>lost_bytes = 1\<rparr> policy"

definition tcp_shift_reno_on_timeout ::
    "tcp_shift_reno_state \<Rightarrow> tcp_shift_cc_transport
      \<Rightarrow> tcp_shift_cc_policy \<Rightarrow> tcp_shift_reno_state cc_result" where
  "tcp_shift_reno_on_timeout state transport policy =
    (let s1 = tcp_shift_reno_reduce_ssthresh state transport;
         s2 = s1\<lparr>reno_cwnd_bytes := tcp_shift_reno_effective_min s1 transport,
                 reno_ca_acked_bytes := 0\<rparr>
     in (0, s2, tcp_shift_reno_publish s2 policy))"

definition tcp_shift_fixed_pacing_publish ::
    "tcp_shift_reno_state cc_result \<Rightarrow> tcp_shift_reno_state cc_result" where
  "tcp_shift_fixed_pacing_publish r =
    (case r of (result, s, policy) \<Rightarrow>
       if result \<noteq> 0 then (result, s, policy)
       else (0, s, policy\<lparr>pacing_rate_bytes_per_sec :=
                            TCP_SHIFT_FIXED_PACING_RENO_RATE_BYTES_PER_SEC\<rparr>))"

definition tcp_shift_fixed_pacing_reno_init where
  "tcp_shift_fixed_pacing_reno_init state transport init policy =
    tcp_shift_fixed_pacing_publish (tcp_shift_reno_init state transport init policy)"

definition tcp_shift_fixed_pacing_reno_on_ack where
  "tcp_shift_fixed_pacing_reno_on_ack state transport ack policy =
    tcp_shift_fixed_pacing_publish (tcp_shift_reno_on_ack state transport ack policy)"

definition tcp_shift_fixed_pacing_reno_on_loss where
  "tcp_shift_fixed_pacing_reno_on_loss state transport loss policy =
    tcp_shift_fixed_pacing_publish (tcp_shift_reno_on_loss state transport loss policy)"

definition tcp_shift_fixed_pacing_reno_on_ecn where
  "tcp_shift_fixed_pacing_reno_on_ecn state transport policy =
    tcp_shift_fixed_pacing_publish (tcp_shift_reno_on_ecn state transport policy)"

definition tcp_shift_fixed_pacing_reno_on_timeout where
  "tcp_shift_fixed_pacing_reno_on_timeout state transport policy =
    tcp_shift_fixed_pacing_publish (tcp_shift_reno_on_timeout state transport policy)"

text \<open>\<^verbatim>\<open>sizeof(struct tcp_shift_reno_state)\<close> is four 32-bit members.\<close>

definition tcp_shift_reno_ops :: "tcp_shift_reno_state tcp_shift_cc_ops" where
  "tcp_shift_reno_ops =
    \<lparr>ops_name = Some ''reno'',
     ops_state_size = 16,
     ops_init = Some tcp_shift_reno_init,
     ops_on_ack = Some tcp_shift_reno_on_ack,
     ops_on_loss = Some tcp_shift_reno_on_loss,
     ops_on_ecn = Some tcp_shift_reno_on_ecn,
     ops_on_timeout = Some tcp_shift_reno_on_timeout\<rparr>"

definition tcp_shift_fixed_pacing_reno_ops :: "tcp_shift_reno_state tcp_shift_cc_ops" where
  "tcp_shift_fixed_pacing_reno_ops =
    \<lparr>ops_name = Some ''fixed-pacing-reno'',
     ops_state_size = 16,
     ops_init = Some tcp_shift_fixed_pacing_reno_init,
     ops_on_ack = Some tcp_shift_fixed_pacing_reno_on_ack,
     ops_on_loss = Some tcp_shift_fixed_pacing_reno_on_loss,
     ops_on_ecn = Some tcp_shift_fixed_pacing_reno_on_ecn,
     ops_on_timeout = Some tcp_shift_fixed_pacing_reno_on_timeout\<rparr>"

section \<open>Helper arithmetic\<close>

interpretation reno_sat: saturating_add tcp_shift_reno_add_sat
  by unfold_locales (simp add: tcp_shift_reno_add_sat_def unat_add_guarded_u32)

lemma reno_min_eq [simp]: "tcp_shift_reno_min = min"
  by (intro ext) (auto simp: tcp_shift_reno_min_def min_def)

lemma reno_max_eq [simp]: "tcp_shift_reno_max = max"
  by (intro ext) (auto simp: tcp_shift_reno_max_def max_def)

lemma unat_reno_add_cap:
  "unat (tcp_shift_reno_add_cap v i l) = min (unat v + unat i) (unat l)"
  using unat_lt_u32 [of l] by (auto simp: tcp_shift_reno_add_cap_def unat_min reno_sat.unat_sat)

lemma unat_reno_mul2_cap:
  "unat (tcp_shift_reno_mul2_cap v l) = min (2 * unat v) (unat l)"
proof (cases "v > l div 2")
  case True
  then show ?thesis by (auto simp: tcp_shift_reno_mul2_cap_def to_nat)
next
  case False
  then have "unat v * 2 \<le> unat l" by (simp add: to_nat)
  moreover from this have "unat (v * 2) = unat v * 2"
    using unat_lt_u32 [of l] by (subst unat_mult_exact) simp_all
  ultimately show ?thesis using False by (simp add: tcp_shift_reno_mul2_cap_def)
qed

lemma unat_reno_effective_min:
  "unat (tcp_shift_reno_effective_min s t) =
    min (max (unat (reno_min_cwnd_bytes s)) (unat (mss_bytes t))) (unat (cwnd_limit_bytes t))"
  by (simp add: tcp_shift_reno_effective_min_def unat_min unat_max)

lemmas reno_unat = unat_reno_add_cap unat_reno_mul2_cap unat_reno_effective_min

lemma reduce_ssthresh_frame [simp]:
  "reno_cwnd_bytes (tcp_shift_reno_reduce_ssthresh s t) = reno_cwnd_bytes s"
  "reno_min_cwnd_bytes (tcp_shift_reno_reduce_ssthresh s t) = reno_min_cwnd_bytes s"
  "reno_ca_acked_bytes (tcp_shift_reno_reduce_ssthresh s t) = reno_ca_acked_bytes s"
  by (simp_all add: tcp_shift_reno_reduce_ssthresh_def Let_def)

lemma effective_min_reduce_ssthresh [simp]:
  "tcp_shift_reno_effective_min (tcp_shift_reno_reduce_ssthresh s t) t'
    = tcp_shift_reno_effective_min s t'"
  by (simp add: tcp_shift_reno_effective_min_def)

text \<open>The reduced threshold: half the usable window, at least two segments, representable.\<close>

lemma unat_reduce_ssthresh:
  "unat (reno_ssthresh_bytes (tcp_shift_reno_reduce_ssthresh s t)) =
    min (max (min (unat (reno_cwnd_bytes s)) (unat (send_window_bytes t)) div 2)
             (2 * unat (mss_bytes t)))
        (unat (cwnd_limit_bytes t))"
  by (auto simp: tcp_shift_reno_reduce_ssthresh_def Let_def to_nat unat_reno_mul2_cap)

section \<open>The invariant and the controller contract\<close>

definition reno_inv :: "u32 \<Rightarrow> tcp_shift_reno_state \<Rightarrow> bool" where
  "reno_inv limit s \<longleftrightarrow>
     0 < reno_cwnd_bytes s \<and> reno_cwnd_bytes s \<le> limit \<and>
     0 < reno_ssthresh_bytes s \<and> reno_ssthresh_bytes s \<le> limit \<and>
     reno_min_cwnd_bytes s \<le> limit"

lemma reno_publish_in_range:
  "reno_inv limit s \<Longrightarrow> policy_in_range limit (tcp_shift_reno_publish s p)"
  by (simp add: reno_inv_def policy_in_range_def tcp_shift_reno_publish_def)

lemma reno_init_inv:
  assumes "valid_transport t" and "tcp_shift_reno_init s t i p = (0, s', p')"
  shows "reno_inv (cwnd_limit_bytes t) s' \<and> p' = tcp_shift_reno_publish s' p"
  using assms
  by (auto simp: tcp_shift_reno_init_def reno_inv_def Let_def valid_transport_iff to_nat
      unat_reno_mul2_cap split: if_splits)

lemma reno_on_ack_inv:
  assumes "valid_transport t" and "reno_inv (cwnd_limit_bytes t) s"
    and "tcp_shift_reno_on_ack s t a p = (rc, s', p')"
  shows "reno_inv (cwnd_limit_bytes t) s' \<and> rc = 0 \<and> p' = tcp_shift_reno_publish s' p"
  using assms
  by (auto simp: tcp_shift_reno_on_ack_def reno_inv_def Let_def valid_transport_iff to_nat reno_unat
      split: if_splits)

lemma reno_on_loss_inv:
  assumes "valid_transport t" and "reno_inv (cwnd_limit_bytes t) s"
    and "tcp_shift_reno_on_loss s t l p = (rc, s', p')"
  shows "reno_inv (cwnd_limit_bytes t) s' \<and> rc = 0 \<and> p' = tcp_shift_reno_publish s' p"
  using assms
  by (auto simp: tcp_shift_reno_on_loss_def reno_inv_def Let_def valid_transport_iff to_nat reno_unat
      unat_reduce_ssthresh)

lemma reno_on_timeout_inv:
  assumes "valid_transport t" and "reno_inv (cwnd_limit_bytes t) s"
    and "tcp_shift_reno_on_timeout s t p = (rc, s', p')"
  shows "reno_inv (cwnd_limit_bytes t) s' \<and> rc = 0 \<and> p' = tcp_shift_reno_publish s' p"
  using assms
  by (auto simp: tcp_shift_reno_on_timeout_def reno_inv_def Let_def valid_transport_iff to_nat
      reno_unat unat_reduce_ssthresh)

text \<open>One contract lemma per handler, in the shape the controller interface asks for.\<close>

abbreviation reno_step_ok ::
    "u32 \<Rightarrow> tcp_shift_cc_policy \<Rightarrow> tcp_shift_reno_state cc_result \<Rightarrow> bool" where
  "reno_step_ok limit \<equiv> cc_step_ok (reno_inv limit) limit"

lemma reno_step_okI:
  "(\<And>rc s' p'. r = (rc, s', p') \<Longrightarrow>
      reno_inv limit s' \<and> rc = 0 \<and> p' = tcp_shift_reno_publish s' p) \<Longrightarrow> reno_step_ok limit p r"
  by (cases r) (auto simp: cc_step_ok_def intro: reno_publish_in_range)

lemma reno_step_ok_fixed_pacing:
  "reno_step_ok limit p r \<Longrightarrow> reno_step_ok limit p (tcp_shift_fixed_pacing_publish r)"
  by (cases r) (auto simp: cc_step_ok_def tcp_shift_fixed_pacing_publish_def policy_in_range_def
      split: if_splits)

lemma reno_handlers_ok:
  assumes "valid_transport t" and "reno_inv (cwnd_limit_bytes t) s"
  shows "reno_step_ok (cwnd_limit_bytes t) p (tcp_shift_reno_on_ack s t a p)"
    and "reno_step_ok (cwnd_limit_bytes t) p (tcp_shift_reno_on_loss s t l p)"
    and "reno_step_ok (cwnd_limit_bytes t) p (tcp_shift_reno_on_ecn s t p)"
    and "reno_step_ok (cwnd_limit_bytes t) p (tcp_shift_reno_on_timeout s t p)"
  using assms
  by (auto intro!: reno_step_okI simp: tcp_shift_reno_on_ecn_def
      dest: reno_on_ack_inv reno_on_loss_inv reno_on_timeout_inv)

lemma fixed_pacing_reno_handlers_ok:
  assumes "valid_transport t" and "reno_inv (cwnd_limit_bytes t) s"
  shows "reno_step_ok (cwnd_limit_bytes t) p (tcp_shift_fixed_pacing_reno_on_ack s t a p)"
    and "reno_step_ok (cwnd_limit_bytes t) p (tcp_shift_fixed_pacing_reno_on_loss s t l p)"
    and "reno_step_ok (cwnd_limit_bytes t) p (tcp_shift_fixed_pacing_reno_on_ecn s t p)"
    and "reno_step_ok (cwnd_limit_bytes t) p (tcp_shift_fixed_pacing_reno_on_timeout s t p)"
  using reno_handlers_ok [OF assms] reno_step_ok_fixed_pacing
  by (simp_all add: tcp_shift_fixed_pacing_reno_on_ack_def tcp_shift_fixed_pacing_reno_on_loss_def
      tcp_shift_fixed_pacing_reno_on_ecn_def tcp_shift_fixed_pacing_reno_on_timeout_def)

lemma fixed_pacing_reno_init_inv:
  assumes "valid_transport t" and "tcp_shift_fixed_pacing_reno_init s t i p = (0, s', p')"
  shows "reno_inv (cwnd_limit_bytes t) s' \<and> policy_in_range (cwnd_limit_bytes t) p'"
proof -
  obtain rc q where init: "tcp_shift_reno_init s t i p = (rc, s', q)" and "rc = 0"
    and p': "p' = q\<lparr>pacing_rate_bytes_per_sec := TCP_SHIFT_FIXED_PACING_RENO_RATE_BYTES_PER_SEC\<rparr>"
    using assms(2) by (auto simp: tcp_shift_fixed_pacing_reno_init_def
        tcp_shift_fixed_pacing_publish_def split: prod.splits if_splits)
  then have "reno_inv (cwnd_limit_bytes t) s'" and "q = tcp_shift_reno_publish s' p"
    using reno_init_inv [OF assms(1)] by blast+
  then show ?thesis
    using reno_publish_in_range [of "cwnd_limit_bytes t" s' p] p'
    by (simp add: policy_in_range_def)
qed

interpretation reno: cc_controller tcp_shift_reno_ops reno_inv
proof (unfold_locales, goal_cases)
  case 1
  show ?case by (simp add: cc_ops_complete_def tcp_shift_reno_ops_def)
qed (auto simp: tcp_shift_reno_ops_def reno_handlers_ok
    dest!: reno_init_inv intro: reno_publish_in_range)

interpretation fixed_pacing_reno: cc_controller tcp_shift_fixed_pacing_reno_ops reno_inv
proof (unfold_locales, goal_cases)
  case 1
  show ?case by (simp add: cc_ops_complete_def tcp_shift_fixed_pacing_reno_ops_def)
qed (auto simp: tcp_shift_fixed_pacing_reno_ops_def fixed_pacing_reno_handlers_ok
    dest!: fixed_pacing_reno_init_inv intro: reno_publish_in_range)

section \<open>Growth and reduction, in closed form\<close>

abbreviation reno_window :: "tcp_shift_reno_state \<Rightarrow> tcp_shift_cc_transport \<Rightarrow> u32" where
  "reno_window s t \<equiv> max (reno_cwnd_bytes s) (tcp_shift_reno_effective_min s t)"

lemma reno_on_ack_slow_start:
  assumes "tcp_shift_reno_on_ack s t a p = (rc, s', p')"
    and "reno_window s t < reno_ssthresh_bytes s"
  shows "s' = s\<lparr>reno_cwnd_bytes := tcp_shift_reno_add_cap (reno_window s t)
      (min (acked_bytes a) (tcp_shift_reno_mul2_cap (mss_bytes t) (cwnd_limit_bytes t)))
      (cwnd_limit_bytes t)\<rparr>"
  using assms
  by (cases "reno_cwnd_bytes s < tcp_shift_reno_effective_min s t")
    (auto simp: tcp_shift_reno_on_ack_def Let_def max_def min_def)

lemma reno_on_ack_congestion_avoidance:
  assumes "tcp_shift_reno_on_ack s t a p = (rc, s', p')"
    and "reno_ssthresh_bytes s \<le> reno_window s t"
    and "counted = tcp_shift_reno_add_sat (reno_ca_acked_bytes s) (acked_bytes a)"
  shows "s' = (if reno_window s t \<le> counted
    then s\<lparr>reno_ca_acked_bytes := counted - reno_window s t,
           reno_cwnd_bytes :=
             tcp_shift_reno_add_cap (reno_window s t) (mss_bytes t) (cwnd_limit_bytes t)\<rparr>
    else s\<lparr>reno_ca_acked_bytes := counted, reno_cwnd_bytes := reno_window s t\<rparr>)"
  using assms
  by (cases "reno_cwnd_bytes s < tcp_shift_reno_effective_min s t")
    (auto simp: tcp_shift_reno_on_ack_def Let_def max_def)

lemma reno_on_ack_frame:
  assumes "tcp_shift_reno_on_ack s t a p = (rc, s', p')"
  shows "reno_ssthresh_bytes s' = reno_ssthresh_bytes s"
    and "reno_min_cwnd_bytes s' = reno_min_cwnd_bytes s"
  using assms by (auto simp: tcp_shift_reno_on_ack_def Let_def split: if_splits)

text \<open>A run of ACKs under one transport snapshot.\<close>

fun reno_ack_run :: "tcp_shift_cc_transport \<Rightarrow> tcp_shift_reno_state \<Rightarrow> tcp_shift_cc_policy
    \<Rightarrow> tcp_shift_cc_ack list \<Rightarrow> tcp_shift_reno_state" where
  "reno_ack_run t s p [] = s"
| "reno_ack_run t s p (a # as) =
     (case tcp_shift_reno_on_ack s t a p of (rc, s', p') \<Rightarrow> reno_ack_run t s' p' as)"

text \<open>
  In congestion avoidance every segment of growth is paid for with at least a window's worth
  of acknowledged bytes.
\<close>

definition reno_ca_ready :: "tcp_shift_cc_transport \<Rightarrow> tcp_shift_reno_state \<Rightarrow> bool" where
  "reno_ca_ready t s \<longleftrightarrow>
     reno_cwnd_bytes s \<le> cwnd_limit_bytes t \<and>
     tcp_shift_reno_effective_min s t \<le> reno_cwnd_bytes s \<and>
     reno_ssthresh_bytes s \<le> reno_cwnd_bytes s"

lemma reno_ca_step:
  assumes "reno_ca_ready t s" and "tcp_shift_reno_on_ack s t a p = (rc, s', p')"
  shows "reno_ca_ready t s' \<and>
    (\<exists>k. unat (reno_cwnd_bytes s) \<le> unat (reno_cwnd_bytes s') \<and>
         unat (reno_cwnd_bytes s') \<le> unat (reno_cwnd_bytes s) + unat (mss_bytes t) * k \<and>
         unat (reno_cwnd_bytes s) * k + unat (reno_ca_acked_bytes s')
           \<le> unat (reno_ca_acked_bytes s) + unat (acked_bytes a))"
proof -
  let ?w = "unat (reno_cwnd_bytes s)"
  let ?c = "tcp_shift_reno_add_sat (reno_ca_acked_bytes s) (acked_bytes a)"
  from assms(1) have w: "reno_window s t = reno_cwnd_bytes s"
    and lim: "?w \<le> unat (cwnd_limit_bytes t)"
    and ss: "reno_ssthresh_bytes s \<le> reno_window s t"
    and em: "unat (tcp_shift_reno_effective_min s t) \<le> ?w"
    by (simp_all add: reno_ca_ready_def word_le_nat_alt [symmetric] max_absorb1)
  note frame = reno_on_ack_frame [OF assms(2)]
  have eq: "tcp_shift_reno_effective_min s' t = tcp_shift_reno_effective_min s t"
    by (simp add: tcp_shift_reno_effective_min_def frame)
  have c: "unat ?c \<le> unat (reno_ca_acked_bytes s) + unat (acked_bytes a)"
    by (rule reno_sat.sat_le_sum)
  note s' = reno_on_ack_congestion_avoidance [OF assms(2) ss refl, unfolded w]
  have mono: "?w \<le> unat (reno_cwnd_bytes s')"
    and cap: "unat (reno_cwnd_bytes s') \<le> unat (cwnd_limit_bytes t)"
    using lim by (simp_all add: s' unat_reno_add_cap)
  have "\<exists>k. unat (reno_cwnd_bytes s') \<le> ?w + unat (mss_bytes t) * k \<and>
      ?w * k + unat (reno_ca_acked_bytes s') \<le> unat (reno_ca_acked_bytes s) + unat (acked_bytes a)"
  proof (cases "reno_cwnd_bytes s \<le> ?c")
    case True
    then have "unat (?c - reno_cwnd_bytes s) = unat ?c - ?w" and "?w \<le> unat ?c"
      by (simp_all add: unat_diff_exact word_le_nat_alt)
    with True c show ?thesis by (intro exI [of _ 1]) (simp add: s' unat_reno_add_cap)
  next
    case False
    with c show ?thesis by (intro exI [of _ 0]) (simp add: s')
  qed
  moreover have "reno_ca_ready t s'"
    using assms(1) mono cap em eq frame by (auto simp: reno_ca_ready_def word_le_nat_alt)
  ultimately show ?thesis using mono by blast
qed

lemma reno_ca_run:
  assumes "reno_ca_ready t s"
  shows "\<exists>k. unat (reno_cwnd_bytes (reno_ack_run t s p as))
      \<le> unat (reno_cwnd_bytes s) + unat (mss_bytes t) * k \<and>
    unat (reno_cwnd_bytes s) * k
      \<le> unat (reno_ca_acked_bytes s) + sum_list (map (unat \<circ> acked_bytes) as)"
  using assms
proof (induction as arbitrary: s p)
  case Nil
  then show ?case by (auto intro: exI [of _ 0])
next
  case (Cons a as)
  obtain rc s' p' where step: "tcp_shift_reno_on_ack s t a p = (rc, s', p')"
    by (cases "tcp_shift_reno_on_ack s t a p")
  from reno_ca_step [OF Cons.prems step] obtain k where ready: "reno_ca_ready t s'"
    and grow: "unat (reno_cwnd_bytes s) \<le> unat (reno_cwnd_bytes s')"
      "unat (reno_cwnd_bytes s') \<le> unat (reno_cwnd_bytes s) + unat (mss_bytes t) * k"
      "unat (reno_cwnd_bytes s) * k + unat (reno_ca_acked_bytes s')
        \<le> unat (reno_ca_acked_bytes s) + unat (acked_bytes a)" by blast
  from Cons.IH [OF ready, of p'] obtain j where
    j: "unat (reno_cwnd_bytes (reno_ack_run t s' p' as))
        \<le> unat (reno_cwnd_bytes s') + unat (mss_bytes t) * j"
      "unat (reno_cwnd_bytes s') * j
        \<le> unat (reno_ca_acked_bytes s') + sum_list (map (unat \<circ> acked_bytes) as)" by blast
  have "unat (reno_cwnd_bytes s) * j \<le> unat (reno_cwnd_bytes s') * j"
    using grow(1) by (rule mult_le_mono1)
  then have "unat (reno_cwnd_bytes s) * (k + j)
      \<le> unat (reno_ca_acked_bytes s) + sum_list (map (unat \<circ> acked_bytes) (a # as))"
    using grow(3) j(2) unfolding distrib_left list.map sum_list.Cons o_apply by linarith
  moreover have "unat (reno_cwnd_bytes (reno_ack_run t s p (a # as)))
      \<le> unat (reno_cwnd_bytes s) + unat (mss_bytes t) * (k + j)"
    using step grow(2) j(1) by (simp add: distrib_left)
  ultimately show ?case by blast
qed

section \<open>Properties\<close>

text \<open>C5. Reno never publishes an unrepresentable window: after a successful initialisation
  through the generic boundary, and after any sequence of ACK, loss, ECN and timeout events
  reported under the same representable limit (valid or refused), the published congestion
  window and slow-start threshold are at least one byte and at most that limit.\<close>

theorem reno_policy_always_in_range:
  assumes "tcp_shift_cc_init (Some h) (Some tcp_shift_reno_ops) (Some s) n (Some t) (Some i)
      (Some p) = (0, Some g, Some q)"
    and "\<And>e. e \<in> set es \<Longrightarrow> cwnd_limit_bytes (event_transport e) = cwnd_limit_bytes t"
    and "cc_run g q es = (h', p')"
  shows "policy_in_range (cwnd_limit_bytes t) p'"
  using assms by (rule reno.init_run_in_range)

text \<open>A connection that opens at 10000 bytes and then sees a loss.\<close>

definition demo_reno_state :: tcp_shift_reno_state where
  "demo_reno_state = \<lparr>reno_cwnd_bytes = 10000, reno_ssthresh_bytes = 9000, reno_ca_acked_bytes = 0,
    reno_min_cwnd_bytes = 2000\<rparr>"

theorem reno_policy_always_in_range_witness:
  "policy_in_range 50000 (snd (cc_run \<lparr>cc_ops = Some tcp_shift_reno_ops, cc_state = Some demo_reno_state\<rparr>
     demo_policy [Loss_Event demo_transport \<lparr>lost_bytes = 1000\<rparr>, Timeout_Event demo_transport]))"
proof -
  let ?es = "[Loss_Event demo_transport \<lparr>lost_bytes = 1000\<rparr>, Timeout_Event demo_transport]"
  let ?g = "\<lparr>cc_ops = Some tcp_shift_reno_ops, cc_state = Some demo_reno_state\<rparr>"
  have "tcp_shift_cc_init (Some \<lparr>cc_ops = None, cc_state = None\<rparr>) (Some tcp_shift_reno_ops)
      (Some demo_reno_state) 16 (Some demo_transport)
      (Some \<lparr>initial_cwnd_bytes = 10000, initial_ssthresh_bytes = 9000, init_min_cwnd_bytes = 2000\<rparr>)
      (Some demo_policy) = (0, Some ?g, Some demo_policy)"
    by (simp add: tcp_shift_cc_init_def tcp_shift_reno_ops_def tcp_shift_cc_valid_transport_def
        tcp_shift_reno_init_def tcp_shift_reno_mul2_cap_def tcp_shift_reno_publish_def demo_transport_def
        demo_reno_state_def demo_policy_def Let_def)
  then have "policy_in_range (cwnd_limit_bytes demo_transport) (snd (cc_run ?g demo_policy ?es))"
    by (rule reno_policy_always_in_range [OF _ _ surjective_pairing]) auto
  then show ?thesis by (simp add: demo_transport_def)
qed

text \<open>Congestion avoidance grows by appropriate byte counting: over any run of ACKs the
  window grows by at most one MSS per full window of acknowledged bytes, whatever the sizes
  of the individual ACKs and whatever credit was left over.\<close>

theorem reno_congestion_avoidance_growth_bound:
  assumes "reno_ca_ready t s" and "0 < reno_cwnd_bytes s"
  shows "unat (reno_cwnd_bytes (reno_ack_run t s p as))
    \<le> unat (reno_cwnd_bytes s) + unat (mss_bytes t) *
        ((unat (reno_ca_acked_bytes s) + sum_list (map (unat \<circ> acked_bytes) as))
          div unat (reno_cwnd_bytes s))"
proof -
  from reno_ca_run [OF assms(1), of p as] obtain k where
    k: "unat (reno_cwnd_bytes (reno_ack_run t s p as))
        \<le> unat (reno_cwnd_bytes s) + unat (mss_bytes t) * k"
      "unat (reno_cwnd_bytes s) * k
        \<le> unat (reno_ca_acked_bytes s) + sum_list (map (unat \<circ> acked_bytes) as)" by blast
  have "0 < unat (reno_cwnd_bytes s)" using assms(2) by (simp add: word_less_nat_alt)
  with k(2) have "k \<le> (unat (reno_ca_acked_bytes s) + sum_list (map (unat \<circ> acked_bytes) as))
      div unat (reno_cwnd_bytes s)"
    by (simp add: less_eq_div_iff_mult_less_eq mult.commute)
  then have "unat (mss_bytes t) * k \<le> unat (mss_bytes t) *
      ((unat (reno_ca_acked_bytes s) + sum_list (map (unat \<circ> acked_bytes) as))
        div unat (reno_cwnd_bytes s))" by (rule mult_le_mono2)
  with k(1) show ?thesis by linarith
qed

theorem reno_congestion_avoidance_growth_bound_witness:
  "reno_ca_ready demo_transport demo_reno_state \<and>
   unat (reno_cwnd_bytes (reno_ack_run demo_transport demo_reno_state demo_policy
     (replicate 15 (demo_ack 1000)))) \<le> 11000"
proof -
  have "reno_ca_ready demo_transport demo_reno_state"
    by (simp add: reno_ca_ready_def demo_transport_def demo_reno_state_def
        tcp_shift_reno_effective_min_def tcp_shift_reno_min_def tcp_shift_reno_max_def)
  moreover have "sum_list (map (unat \<circ> acked_bytes) (replicate 15 (demo_ack 1000))) = 15000"
    by (simp add: sum_list_replicate demo_ack_def)
  ultimately show ?thesis
    using reno_congestion_avoidance_growth_bound [of demo_transport demo_reno_state demo_policy
        "replicate 15 (demo_ack 1000)"]
    by (simp add: demo_transport_def demo_reno_state_def)
qed

end
