(* ===== verification/Cubic_Math.thy ===== *)
theory Cubic_Math
  imports Prelude
begin

unbundle bit_operations_syntax

text \<open>
  The fixed-point arithmetic of \<^verbatim>\<open>src/cc/cubic.c\<close>: saturating sums and products, the conversion
  between bytes and Q16 segments, Q10 seconds, and the integer cube and cube root. Each routine
  is proved equal to its mathematical meaning on natural numbers, with the saturation written
  out; the binary search for the cube root is a loop that is proved to return.
\<close>

definition TCP_SHIFT_CUBIC_Q_SHIFT :: nat where "TCP_SHIFT_CUBIC_Q_SHIFT = 16"
definition TCP_SHIFT_CUBIC_TIME_Q_SHIFT :: nat where "TCP_SHIFT_CUBIC_TIME_Q_SHIFT = 10"
definition TCP_SHIFT_CUBIC_SCALE :: u64 where "TCP_SHIFT_CUBIC_SCALE = 40960"
definition TCP_SHIFT_NSEC_PER_SEC :: u64 where "TCP_SHIFT_NSEC_PER_SEC = 1000000000"

lemmas cubic_const_defs = TCP_SHIFT_CUBIC_Q_SHIFT_def TCP_SHIFT_CUBIC_TIME_Q_SHIFT_def
  TCP_SHIFT_CUBIC_SCALE_def TCP_SHIFT_NSEC_PER_SEC_def

definition tcp_shift_cubic_add_sat_u64 :: "u64 \<Rightarrow> u64 \<Rightarrow> u64" where
  "tcp_shift_cubic_add_sat_u64 left right =
    (if right > UINT64_MAX - left then UINT64_MAX else left + right)"

definition tcp_shift_cubic_mul_sat_u64 :: "u64 \<Rightarrow> u64 \<Rightarrow> u64" where
  "tcp_shift_cubic_mul_sat_u64 left right =
    (if left = 0 \<or> right = 0 then 0
     else if left > UINT64_MAX div right then UINT64_MAX else left * right)"

definition tcp_shift_cubic_min_u32 :: "u32 \<Rightarrow> u32 \<Rightarrow> u32" where
  "tcp_shift_cubic_min_u32 left right = (if left < right then left else right)"

definition tcp_shift_cubic_max_u32 :: "u32 \<Rightarrow> u32 \<Rightarrow> u32" where
  "tcp_shift_cubic_max_u32 left right = (if left > right then left else right)"

definition tcp_shift_cubic_min_u64 :: "u64 \<Rightarrow> u64 \<Rightarrow> u64" where
  "tcp_shift_cubic_min_u64 left right = (if left < right then left else right)"

definition tcp_shift_cubic_max_u64 :: "u64 \<Rightarrow> u64 \<Rightarrow> u64" where
  "tcp_shift_cubic_max_u64 left right = (if left > right then left else right)"

definition tcp_shift_cubic_mul2_cap :: "u32 \<Rightarrow> u32 \<Rightarrow> u32" where
  "tcp_shift_cubic_mul2_cap value limit = (if value > limit div 2 then limit else value * 2)"

definition tcp_shift_cubic_q16_from_bytes :: "u32 \<Rightarrow> u32 \<Rightarrow> u64" where
  "tcp_shift_cubic_q16_from_bytes bytes mss =
    (if mss = 0 then 0 else push_bit TCP_SHIFT_CUBIC_Q_SHIFT (u64_of bytes) div u64_of mss)"

definition tcp_shift_cubic_bytes_from_q16 :: "u64 \<Rightarrow> u32 \<Rightarrow> u32 \<Rightarrow> u32" where
  "tcp_shift_cubic_bytes_from_q16 value_q16 mss limit_bytes =
    (if mss = 0 \<or> value_q16 = 0 then 0
     else if value_q16 > UINT64_MAX div u64_of mss then limit_bytes
     else
       let bytes = drop_bit TCP_SHIFT_CUBIC_Q_SHIFT (value_q16 * u64_of mss)
       in if bytes > u64_of limit_bytes then limit_bytes else u32_of bytes)"

definition tcp_shift_cubic_rescale_q16 :: "u64 \<Rightarrow> u32 \<Rightarrow> u32 \<Rightarrow> u64" where
  "tcp_shift_cubic_rescale_q16 value_q16 old_mss new_mss =
    (if value_q16 = 0 \<or> old_mss = new_mss then value_q16
     else if new_mss = 0 \<or> value_q16 > UINT64_MAX div u64_of old_mss then UINT64_MAX
     else (value_q16 * u64_of old_mss) div u64_of new_mss)"

definition tcp_shift_cubic_time_q10 :: "u64 \<Rightarrow> u64" where
  "tcp_shift_cubic_time_q10 time_ns =
    (let seconds = time_ns div TCP_SHIFT_NSEC_PER_SEC;
         remainder = time_ns mod TCP_SHIFT_NSEC_PER_SEC
     in if seconds > drop_bit TCP_SHIFT_CUBIC_TIME_Q_SHIFT UINT64_MAX then UINT64_MAX
        else push_bit TCP_SHIFT_CUBIC_TIME_Q_SHIFT seconds +
             push_bit TCP_SHIFT_CUBIC_TIME_Q_SHIFT remainder div TCP_SHIFT_NSEC_PER_SEC)"

definition tcp_shift_cubic_nonzero_time_q10 :: "u64 \<Rightarrow> u64" where
  "tcp_shift_cubic_nonzero_time_q10 time_ns =
    (let value = tcp_shift_cubic_time_q10 time_ns in if time_ns \<noteq> 0 \<and> value = 0 then 1 else value)"

definition tcp_shift_cubic_cube_leq :: "u64 \<Rightarrow> u64 \<Rightarrow> bool" where
  "tcp_shift_cubic_cube_leq value limit =
    (if value = 0 then True
     else if value > limit div value then False
     else let square = value * value in value \<le> limit div square)"

text \<open>The \<^verbatim>\<open>while\<close> loop of \<^verbatim>\<open>tcp_shift_cubic_cuberoot_floor\<close>; not returning is \<open>None\<close>.\<close>

partial_function (option) cuberoot_search :: "u64 \<Rightarrow> u64 \<Rightarrow> u64 \<Rightarrow> u64 option" where
  "cuberoot_search value low high =
    (if low < high then
       (let middle = low + (high - low + 1) div 2
        in if tcp_shift_cubic_cube_leq middle value then cuberoot_search value middle high
           else cuberoot_search value low (middle - 1))
     else Some low)"

definition tcp_shift_cubic_cuberoot_floor :: "u64 \<Rightarrow> u64" where
  "tcp_shift_cubic_cuberoot_floor value = the (cuberoot_search value 0 (u64_of UINT32_MAX))"

definition tcp_shift_cubic_cube_sat :: "u64 \<Rightarrow> u64" where
  "tcp_shift_cubic_cube_sat value =
    (if value = 0 then 0
     else if value > UINT64_MAX div value then UINT64_MAX
     else
       let square = value * value
       in if value > UINT64_MAX div square then UINT64_MAX else square * value)"

definition tcp_shift_cubic_ratio_q16 :: "u32 \<Rightarrow> u32 \<Rightarrow> u64" where
  "tcp_shift_cubic_ratio_q16 numerator denominator =
    (if denominator = 0 then 0
     else push_bit TCP_SHIFT_CUBIC_Q_SHIFT (u64_of numerator) div u64_of denominator)"

section \<open>Saturating operations and selections\<close>

interpretation cubic_add: saturating_add tcp_shift_cubic_add_sat_u64
  by unfold_locales (simp add: tcp_shift_cubic_add_sat_u64_def unat_add_guarded_u64 del: not_less)

interpretation cubic_mul: saturating_mul tcp_shift_cubic_mul_sat_u64
  by unfold_locales (simp add: tcp_shift_cubic_mul_sat_u64_def unat_mult_guarded_u64 del: not_less)

lemma unat_cubic_add: "unat (tcp_shift_cubic_add_sat_u64 a b) = min 18446744073709551615 (unat a + unat b)"
  using cubic_add.unat_sat [of a b] by simp

lemma unat_cubic_mul: "unat (tcp_shift_cubic_mul_sat_u64 a b) = min 18446744073709551615 (unat a * unat b)"
  using cubic_mul.unat_sat [of a b] by simp

lemma unat_cubic_select:
  "unat (tcp_shift_cubic_min_u32 a b) = min (unat a) (unat b)"
  "unat (tcp_shift_cubic_max_u32 a b) = max (unat a) (unat b)"
  "unat (tcp_shift_cubic_min_u64 x y) = min (unat x) (unat y)"
  "unat (tcp_shift_cubic_max_u64 x y) = max (unat x) (unat y)"
  by (auto simp: tcp_shift_cubic_min_u32_def tcp_shift_cubic_max_u32_def tcp_shift_cubic_min_u64_def
      tcp_shift_cubic_max_u64_def word_less_nat_alt)

lemma unat_cubic_mul2_cap:
  "unat (tcp_shift_cubic_mul2_cap v l) = (if unat l div 2 < unat v then unat l else 2 * unat v)"
proof (cases "unat l div 2 < unat v")
  case False
  then have "unat (v * 2) = unat v * 2" using unat_lt_u32 [of l]
    by (subst unat_mult_exact) simp_all
  then show ?thesis using False
    by (simp add: tcp_shift_cubic_mul2_cap_def word_less_nat_alt unat_div_distrib)
qed (simp add: tcp_shift_cubic_mul2_cap_def word_less_nat_alt unat_div_distrib)

section \<open>Bytes and Q16 segments\<close>

lemma unat_q16_shift: "unat (push_bit 16 (u64_of x)) = unat x * 65536"
proof -
  have "unat x * 65536 < 18446744073709551616" using unat_lt_u32 [of x] by simp
  then show ?thesis by (subst unat_push_bit_exact) simp_all
qed

lemma unat_q16_from_bytes:
  "mss \<noteq> 0 \<Longrightarrow> unat (tcp_shift_cubic_q16_from_bytes b mss) = unat b * 65536 div unat mss"
  by (simp add: tcp_shift_cubic_q16_from_bytes_def TCP_SHIFT_CUBIC_Q_SHIFT_def unat_div_distrib
      unat_q16_shift)

lemma unat_ratio_q16:
  "d \<noteq> 0 \<Longrightarrow> unat (tcp_shift_cubic_ratio_q16 n d) = unat n * 65536 div unat d"
  by (simp add: tcp_shift_cubic_ratio_q16_def TCP_SHIFT_CUBIC_Q_SHIFT_def unat_div_distrib
      unat_q16_shift)

lemma unat_bytes_from_q16:
  assumes "mss \<noteq> 0"
  shows "unat (tcp_shift_cubic_bytes_from_q16 v mss limit) =
    min (unat limit) (unat v * unat mss div 65536)"
proof -
  have m: "0 < unat mss" using assms by (simp add: word_zero_nat)
  consider "v = 0" | "v \<noteq> 0" "18446744073709551615 div unat mss < unat v"
    | "v \<noteq> 0" "unat v \<le> 18446744073709551615 div unat mss" by linarith
  then show ?thesis
  proof cases
    case 2
    then have "18446744073709551615 < unat v * unat mss"
      using m by (simp add: div_less_iff_less_mult)
    then have "unat limit \<le> unat v * unat mss div 65536" using unat_lt_u32 [of limit] by linarith
    then show ?thesis using 2 assms
      by (simp add: tcp_shift_cubic_bytes_from_q16_def word_less_nat_alt unat_div_distrib)
  next
    case 3
    then have "unat v * unat mss \<le> 18446744073709551615"
      using m by (simp add: less_eq_div_iff_mult_less_eq)
    then have prod: "unat (v * u64_of mss) = unat v * unat mss"
      by (subst unat_mult_exact) simp_all
    let ?b = "drop_bit 16 (v * u64_of mss)"
    have b: "unat ?b = unat v * unat mss div 65536"
      by (simp add: unat_drop_bit prod)
    have "tcp_shift_cubic_bytes_from_q16 v mss limit =
        (if u64_of limit < ?b then limit else u32_of ?b)"
      using 3 assms by (simp add: tcp_shift_cubic_bytes_from_q16_def word_less_nat_alt
          unat_div_distrib TCP_SHIFT_CUBIC_Q_SHIFT_def Let_def not_less)
    moreover have "unat (u32_of ?b) = unat ?b" if "unat ?b \<le> unat limit"
      using that unat_lt_u32 [of limit] by (intro unat_u32_of_small) linarith
    ultimately show ?thesis by (auto simp: word_less_nat_alt b)
  qed (simp add: tcp_shift_cubic_bytes_from_q16_def)
qed

text \<open>The conversion to segments and back loses less than one byte for every real MSS.\<close>

lemma q16_roundtrip_nat:
  assumes "0 < m" and "m \<le> (65536 :: nat)"
  shows "b * 65536 div m * m div 65536 \<le> b" and "b \<le> b * 65536 div m * m div 65536 + 1"
proof -
  let ?q = "b * 65536 div m"
  have le: "?q * m \<le> b * 65536" by simp
  then have "?q * m div 65536 \<le> b * 65536 div 65536" by (rule div_le_mono)
  then show "?q * m div 65536 \<le> b" by simp
  have "b * 65536 < ?q * m + m"
    using div_mult_mod_eq [of "b * 65536" m] mod_less_divisor [OF assms(1), of "b * 65536"]
    by linarith
  then have "b * 65536 < ?q * m + 65536" using assms(2) by linarith
  then show "b \<le> ?q * m div 65536 + 1" by linarith
qed

section \<open>Time\<close>

lemma unat_time_q10: "unat (tcp_shift_cubic_time_q10 ns) = unat ns * 1024 div 1000000000"
proof -
  let ?s = "unat ns div 1000000000" and ?r = "unat ns mod 1000000000"
  have s: "?s \<le> 18446744073" using unat_lt_u64 [of ns] by linarith
  have r: "?r < 1000000000" by simp
  have us: "unat (ns div 1000000000) = ?s" and ur: "unat (ns mod 1000000000) = ?r"
    by (simp_all add: unat_div_distrib unat_mod_distrib)
  have ps: "unat (push_bit 10 (ns div 1000000000)) = ?s * 1024"
    by (subst unat_push_bit_exact) (use s in \<open>simp_all add: us\<close>)
  have pr: "unat (push_bit 10 (ns mod 1000000000)) = ?r * 1024"
    by (subst unat_push_bit_exact) (use r in \<open>simp_all add: ur\<close>)
  have frac: "?r * 1024 div 1000000000 < 1024" using r by linarith
  have "\<not> ns div 1000000000 > drop_bit 10 UINT64_MAX"
    using s by (simp add: word_less_nat_alt unat_drop_bit us)
  then have "tcp_shift_cubic_time_q10 ns =
      push_bit 10 (ns div 1000000000) + push_bit 10 (ns mod 1000000000) div 1000000000"
    by (simp add: tcp_shift_cubic_time_q10_def cubic_const_defs Let_def)
  also have "unat \<dots> = ?s * 1024 + ?r * 1024 div 1000000000"
    by (subst unat_add_exact) (use s frac in \<open>simp_all add: ps pr unat_div_distrib\<close>)
  also have "\<dots> = (1000000000 * (?s * 1024) + ?r * 1024) div 1000000000" by simp
  also have "1000000000 * (?s * 1024) + ?r * 1024 = unat ns * 1024"
    using mult_div_mod_eq [of 1000000000 "unat ns"] by linarith
  finally show ?thesis .
qed

lemma time_q10_mono: "a \<le> b \<Longrightarrow> tcp_shift_cubic_time_q10 a \<le> tcp_shift_cubic_time_q10 b"
  by (auto simp: word_le_nat_alt unat_time_q10 intro: div_le_mono)

section \<open>Cubes and cube roots\<close>

lemma square_exact: "\<not> v > l div v \<Longrightarrow> v \<noteq> 0 \<Longrightarrow> unat (v * v) = unat v * unat v \<and> unat v * unat v \<le> unat l"
  for v l :: u64
proof -
  assume "\<not> v > l div v" and nz: "v \<noteq> 0"
  then have "unat v \<le> unat l div unat v" by (simp add: word_less_nat_alt unat_div_distrib not_less)
  then have le: "unat v * unat v \<le> unat l"
    using nz by (simp add: less_eq_div_iff_mult_less_eq word_zero_nat)
  then have "unat v * unat v < 18446744073709551616" using unat_lt_u64 [of l] by simp
  then show ?thesis using le by (simp add: unat_mult_exact)
qed

lemma cube_leq_iff: "tcp_shift_cubic_cube_leq v l \<longleftrightarrow> unat v ^ 3 \<le> unat l"
proof (cases "v = 0 \<or> v > l div v")
  case True
  moreover have "unat l < unat v ^ 3" if nz: "v \<noteq> 0" and big: "v > l div v"
  proof -
    have "unat l div unat v < unat v" using big by (simp add: word_less_nat_alt unat_div_distrib)
    moreover have pos: "0 < unat v" using nz by (simp add: word_zero_nat)
    ultimately have "unat l < unat v * unat v" using div_less_iff_less_mult by blast
    also have "unat v * unat v \<le> unat v ^ 3" using pos by (simp add: power3_eq_cube)
    finally show ?thesis .
  qed
  ultimately show ?thesis by (auto simp: tcp_shift_cubic_cube_leq_def)
next
  case False
  then have sq: "unat (v * v) = unat v * unat v" and nz: "0 < unat v"
    using square_exact [of l v] by (auto simp: word_zero_nat)
  then have "v \<le> l div (v * v) \<longleftrightarrow> unat v * (unat v * unat v) \<le> unat l"
    by (simp add: word_le_nat_alt unat_div_distrib less_eq_div_iff_mult_less_eq)
  then show ?thesis using False
    by (simp add: tcp_shift_cubic_cube_leq_def power3_eq_cube mult.assoc)
qed

lemma unat_cube_sat: "unat (tcp_shift_cubic_cube_sat v) = min 18446744073709551615 (unat v ^ 3)"
proof -
  have "tcp_shift_cubic_cube_sat v =
      (if tcp_shift_cubic_cube_leq v UINT64_MAX then v * v * v else UINT64_MAX)"
    by (auto simp: tcp_shift_cubic_cube_sat_def tcp_shift_cubic_cube_leq_def Let_def)
  moreover have "unat (v * v * v) = unat v ^ 3" if "unat v ^ 3 \<le> 18446744073709551615"
  proof (cases "v = 0")
    case False
    then have "unat v * unat v \<le> unat v ^ 3" by (simp add: power3_eq_cube word_zero_nat)
    then have "unat (v * v) = unat v * unat v" using that by (simp add: unat_mult_exact)
    then show ?thesis using that by (subst unat_mult_exact) (simp_all add: power3_eq_cube)
  qed simp
  ultimately show ?thesis by (simp add: cube_leq_iff)
qed

text \<open>The search keeps its bounds around the root and halves the interval.\<close>

lemma cuberoot_search_spec:
  assumes "unat low \<le> unat high" and "unat high < 2 ^ 32" and "unat low ^ 3 \<le> unat v"
    and "unat v < (unat high + 1) ^ 3"
  shows "\<exists>r. cuberoot_search v low high = Some r \<and> unat r ^ 3 \<le> unat v \<and> unat v < (unat r + 1) ^ 3"
  using assms
proof (induction "unat high - unat low" arbitrary: low high rule: less_induct)
  case less
  show ?case
  proof (cases "low < high")
    case False
    then have "low = high" using less.prems(1) by (simp add: word_less_nat_alt word_eq_nat)
    then show ?thesis using less.prems by (subst cuberoot_search.simps) simp
  next
    case True
    define m where "m = low + (high - low + 1) div 2"
    have lt: "unat low < unat high" using True by (simp add: word_less_nat_alt)
    have "unat (high - low + 1) = unat high - unat low + 1"
      by (subst unat_inc_exact) (use lt less.prems(2) in \<open>simp_all add: unat_diff_exact\<close>)
    then have m: "unat m = unat low + (unat high - unat low + 1) div 2"
      unfolding m_def by (subst unat_add_exact) (use lt less.prems(2) in \<open>simp_all add: unat_div_distrib\<close>)
    then have mb: "unat low < unat m" "unat m \<le> unat high" using lt by linarith+
    have m1: "unat (m - 1) = unat m - 1" using mb by (subst unat_diff_exact) simp_all
    have step: "cuberoot_search v low high = (if tcp_shift_cubic_cube_leq m v
        then cuberoot_search v m high else cuberoot_search v low (m - 1))"
      using True by (subst cuberoot_search.simps) (simp add: m_def)
    show ?thesis
    proof (cases "tcp_shift_cubic_cube_leq m v")
      case True
      then show ?thesis using less.hyps [of high m] less.prems mb step by (simp add: cube_leq_iff)
    next
      case False
      then have "unat v < unat m ^ 3" by (simp add: cube_leq_iff)
      then have "unat v < (unat (m - 1) + 1) ^ 3" using m1 mb by simp
      then show ?thesis using less.hyps [of "m - 1" low] less.prems mb m1 step False by simp
    qed
  qed
qed

lemma cuberoot_floor_spec:
  "unat (tcp_shift_cubic_cuberoot_floor v) ^ 3 \<le> unat v"
  "unat v < (unat (tcp_shift_cubic_cuberoot_floor v) + 1) ^ 3"
  "\<exists>r. cuberoot_search v 0 (u64_of UINT32_MAX) = Some r"
proof -
  have "unat v < (unat (u64_of UINT32_MAX) + 1) ^ 3" using unat_lt_u64 [of v] by simp
  then obtain r where "cuberoot_search v 0 (u64_of UINT32_MAX) = Some r" "unat r ^ 3 \<le> unat v"
    "unat v < (unat r + 1) ^ 3"
    using cuberoot_search_spec [of 0 "u64_of UINT32_MAX" v] by auto
  then show "unat (tcp_shift_cubic_cuberoot_floor v) ^ 3 \<le> unat v"
    "unat v < (unat (tcp_shift_cubic_cuberoot_floor v) + 1) ^ 3"
    "\<exists>r. cuberoot_search v 0 (u64_of UINT32_MAX) = Some r"
    by (simp_all add: tcp_shift_cubic_cuberoot_floor_def)
qed

end
