(* ===== verification/Cubic.thy ===== *)
theory Cubic
  imports Cc_Core Cubic_Math
begin

text \<open>
  The RFC 9438 CUBIC model of \<^verbatim>\<open>src/cc/cubic.h\<close> and \<^verbatim>\<open>src/cc/cubic.c\<close>: window state in Q16
  segments, the epoch clock with its application-limited pauses, the Reno-friendly estimate and
  the reductions on loss, ECN and timeout. \<^verbatim>\<open>uint8_t\<close> flags are booleans. The long ACK handler
  is split into its pause, resume, slow-start and congestion-avoidance parts, composed as in
  the source.
\<close>

record tcp_shift_cubic_model =
  cwnd_q16 :: u64
  ssthresh_q16 :: u64
  w_max_q16 :: u64
  w_est_q16 :: u64
  cwnd_prior_q16 :: u64
  cwnd_epoch_q16 :: u64
  k_q10 :: u64
  epoch_start_ns :: u64
  last_ack_time_ns :: u64
  app_limited_since_ns :: u64
  last_target_q16 :: u64
  hystart_last_round_min_rtt_ns :: u64
  hystart_current_round_min_rtt_ns :: u64
  hystart_css_baseline_min_rtt_ns :: u64
  hystart_next_round_delivered :: u64
  cubic_mss_bytes :: u32
  cubic_min_cwnd_bytes :: u32
  ack_events :: u32
  loss_events :: u32
  ecn_events :: u32
  timeout_events :: u32
  app_limited_acks :: u32
  hystart_sample_count :: u32
  hystart_css_rounds :: u32
  hystart_exit_events :: u32
  hystart_css_enter_events :: u32
  hystart_css_revert_events :: u32
  has_w_max :: bool
  epoch_active :: bool
  app_limited_paused :: bool
  after_timeout :: bool
  fast_convergence :: bool
  hystart_enabled :: bool
  hystart_css :: bool
  hystart_ack_css :: bool
  hystart_exit_pending :: bool
  hystart_initial_complete :: bool
  hystart_pacing_active :: bool

definition TCP_SHIFT_CUBIC_BETA_NUM :: u64 where "TCP_SHIFT_CUBIC_BETA_NUM = 7"
definition TCP_SHIFT_CUBIC_BETA_DEN :: u64 where "TCP_SHIFT_CUBIC_BETA_DEN = 10"
definition TCP_SHIFT_CUBIC_RENO_ALPHA_NUM :: u64 where "TCP_SHIFT_CUBIC_RENO_ALPHA_NUM = 9"
definition TCP_SHIFT_CUBIC_RENO_ALPHA_DEN :: u64 where "TCP_SHIFT_CUBIC_RENO_ALPHA_DEN = 17"
definition TCP_SHIFT_CUBIC_FAST_CONVERGENCE_NUM :: u64 where "TCP_SHIFT_CUBIC_FAST_CONVERGENCE_NUM = 17"
definition TCP_SHIFT_CUBIC_FAST_CONVERGENCE_DEN :: u64 where "TCP_SHIFT_CUBIC_FAST_CONVERGENCE_DEN = 20"
definition TCP_SHIFT_CUBIC_HYSTARTPP_CSS_GROWTH_DIVISOR :: u32 where
  "TCP_SHIFT_CUBIC_HYSTARTPP_CSS_GROWTH_DIVISOR = 4"

lemmas cubic_param_defs = TCP_SHIFT_CUBIC_BETA_NUM_def TCP_SHIFT_CUBIC_BETA_DEN_def
  TCP_SHIFT_CUBIC_RENO_ALPHA_NUM_def TCP_SHIFT_CUBIC_RENO_ALPHA_DEN_def
  TCP_SHIFT_CUBIC_FAST_CONVERGENCE_NUM_def TCP_SHIFT_CUBIC_FAST_CONVERGENCE_DEN_def
  TCP_SHIFT_CUBIC_HYSTARTPP_CSS_GROWTH_DIVISOR_def

definition tcp_shift_cubic_sync_mss ::
    "tcp_shift_cubic_model \<Rightarrow> u32 \<Rightarrow> int \<times> tcp_shift_cubic_model" where
  "tcp_shift_cubic_sync_mss model mss =
    (if mss = 0 \<or> cubic_mss_bytes model = 0 then (-1, model)
     else if cubic_mss_bytes model = mss then (0, model)
     else
       let old_mss = cubic_mss_bytes model
       in (0, model\<lparr>cwnd_q16 := tcp_shift_cubic_rescale_q16 (cwnd_q16 model) old_mss mss,
                    ssthresh_q16 := tcp_shift_cubic_rescale_q16 (ssthresh_q16 model) old_mss mss,
                    w_max_q16 := tcp_shift_cubic_rescale_q16 (w_max_q16 model) old_mss mss,
                    w_est_q16 := tcp_shift_cubic_rescale_q16 (w_est_q16 model) old_mss mss,
                    cwnd_prior_q16 := tcp_shift_cubic_rescale_q16 (cwnd_prior_q16 model) old_mss mss,
                    cwnd_epoch_q16 := tcp_shift_cubic_rescale_q16 (cwnd_epoch_q16 model) old_mss mss,
                    last_target_q16 := tcp_shift_cubic_rescale_q16 (last_target_q16 model) old_mss mss,
                    cubic_mss_bytes := mss\<rparr>))"

definition tcp_shift_cubic_effective_min_bytes ::
    "tcp_shift_cubic_model \<Rightarrow> tcp_shift_cc_transport \<Rightarrow> u32" where
  "tcp_shift_cubic_effective_min_bytes model transport =
    (let minimum = tcp_shift_cubic_max_u32 (cubic_min_cwnd_bytes model) (mss_bytes transport)
     in tcp_shift_cubic_min_u32 minimum (cwnd_limit_bytes transport))"

definition tcp_shift_cubic_limit_q16 :: "tcp_shift_cc_transport \<Rightarrow> u64" where
  "tcp_shift_cubic_limit_q16 transport =
    tcp_shift_cubic_q16_from_bytes (cwnd_limit_bytes transport) (mss_bytes transport)"

definition tcp_shift_cubic_normalize ::
    "tcp_shift_cubic_model \<Rightarrow> tcp_shift_cc_transport \<Rightarrow> tcp_shift_cubic_model" where
  "tcp_shift_cubic_normalize model transport =
    (let limit_q16 = tcp_shift_cubic_limit_q16 transport;
         minimum_q16 = tcp_shift_cubic_q16_from_bytes
           (tcp_shift_cubic_effective_min_bytes model transport) (mss_bytes transport);
         cwnd = tcp_shift_cubic_max_u64 (cwnd_q16 model) minimum_q16;
         cwnd = tcp_shift_cubic_min_u64 cwnd limit_q16
     in model\<lparr>cwnd_q16 := cwnd, ssthresh_q16 := tcp_shift_cubic_min_u64 (ssthresh_q16 model) limit_q16\<rparr>)"

definition tcp_shift_cubic_publish ::
    "tcp_shift_cubic_model \<Rightarrow> tcp_shift_cc_transport \<Rightarrow> tcp_shift_cc_policy \<Rightarrow>
     tcp_shift_cubic_model \<times> tcp_shift_cc_policy" where
  "tcp_shift_cubic_publish model transport policy =
    (let model = tcp_shift_cubic_normalize model transport;
         minimum = tcp_shift_cubic_effective_min_bytes model transport;
         cwnd = tcp_shift_cubic_bytes_from_q16 (cwnd_q16 model) (mss_bytes transport)
                  (cwnd_limit_bytes transport);
         ssthresh = tcp_shift_cubic_bytes_from_q16 (ssthresh_q16 model) (mss_bytes transport)
                      (cwnd_limit_bytes transport);
         (cwnd, model) =
           (if cwnd < minimum
            then (minimum, model\<lparr>cwnd_q16 := tcp_shift_cubic_q16_from_bytes minimum (mss_bytes transport)\<rparr>)
            else (cwnd, model));
         (ssthresh, model) =
           (if ssthresh = 0
            then (minimum, model\<lparr>ssthresh_q16 := tcp_shift_cubic_q16_from_bytes minimum (mss_bytes transport)\<rparr>)
            else (ssthresh, model))
     in (model, policy\<lparr>cwnd_bytes := cwnd, ssthresh_bytes := ssthresh, pacing_rate_bytes_per_sec := 0\<rparr>))"

definition tcp_shift_cubic_finish_hystartpp :: "tcp_shift_cubic_model \<Rightarrow> tcp_shift_cubic_model" where
  "tcp_shift_cubic_finish_hystartpp model =
    (if \<not> hystart_exit_pending model then model
     else model\<lparr>ssthresh_q16 := cwnd_q16 model, cwnd_prior_q16 := cwnd_q16 model,
                w_max_q16 := cwnd_q16 model, has_w_max := True, k_q10 := 0, epoch_active := False,
                after_timeout := False, hystart_enabled := False, hystart_css := False,
                hystart_ack_css := False, hystart_exit_pending := False,
                hystart_initial_complete := True,
                hystart_exit_events := hystart_exit_events model + 1\<rparr>)"

definition tcp_shift_cubic_window_q16 :: "tcp_shift_cubic_model \<Rightarrow> u64 \<Rightarrow> u64" where
  "tcp_shift_cubic_window_q16 model time_q10 =
    (if time_q10 \<ge> k_q10 model then
       let distance = time_q10 - k_q10 model;
           term = tcp_shift_cubic_cube_sat distance div TCP_SHIFT_CUBIC_SCALE
       in tcp_shift_cubic_add_sat_u64 (w_max_q16 model) term
     else
       let distance = k_q10 model - time_q10;
           term = tcp_shift_cubic_cube_sat distance div TCP_SHIFT_CUBIC_SCALE
       in if term \<ge> w_max_q16 model then 0 else w_max_q16 model - term)"

definition tcp_shift_cubic_start_epoch ::
    "tcp_shift_cubic_model \<Rightarrow> u64 \<Rightarrow> tcp_shift_cubic_model" where
  "tcp_shift_cubic_start_epoch model now_ns =
    (let model = model\<lparr>epoch_start_ns := now_ns, cwnd_epoch_q16 := cwnd_q16 model,
                       w_est_q16 := cwnd_q16 model, last_target_q16 := cwnd_q16 model,
                       epoch_active := True\<rparr>;
         model = (if cwnd_prior_q16 model = 0 then model\<lparr>cwnd_prior_q16 := cwnd_q16 model\<rparr> else model)
     in if after_timeout model \<or> \<not> has_w_max model then
          model\<lparr>w_max_q16 := cwnd_q16 model, has_w_max := True, k_q10 := 0, after_timeout := False\<rparr>
        else if w_max_q16 model \<le> cwnd_q16 model then model\<lparr>k_q10 := 0\<rparr>
        else
          let difference = w_max_q16 model - cwnd_q16 model;
              radicand = tcp_shift_cubic_mul_sat_u64 difference TCP_SHIFT_CUBIC_SCALE
          in model\<lparr>k_q10 := tcp_shift_cubic_cuberoot_floor radicand\<rparr>)"

definition tcp_shift_cubic_update_w_est ::
    "tcp_shift_cubic_model \<Rightarrow> u32 \<Rightarrow> u32 \<Rightarrow> u64 \<Rightarrow> tcp_shift_cubic_model" where
  "tcp_shift_cubic_update_w_est model acked cwnd limit_q16 =
    (let increment = tcp_shift_cubic_ratio_q16 acked cwnd;
         increment = (if w_est_q16 model < cwnd_prior_q16 model
                      then (increment * TCP_SHIFT_CUBIC_RENO_ALPHA_NUM) div TCP_SHIFT_CUBIC_RENO_ALPHA_DEN
                      else increment);
         w_est = tcp_shift_cubic_add_sat_u64 (w_est_q16 model) increment
     in model\<lparr>w_est_q16 := tcp_shift_cubic_min_u64 w_est limit_q16\<rparr>)"

definition tcp_shift_cubic_beta_flight_bytes :: "tcp_shift_cc_transport \<Rightarrow> u32 \<Rightarrow> u32" where
  "tcp_shift_cubic_beta_flight_bytes transport floor_segments =
    (let reduced = (u64_of (inflight_bytes transport) * TCP_SHIFT_CUBIC_BETA_NUM) div TCP_SHIFT_CUBIC_BETA_DEN;
         floor64 = u64_of (mss_bytes transport) * u64_of floor_segments;
         floor = (if floor64 > u64_of (cwnd_limit_bytes transport) then cwnd_limit_bytes transport
                  else u32_of floor64);
         value = (if reduced > u64_of UINT32_MAX then UINT32_MAX else u32_of reduced);
         value = tcp_shift_cubic_max_u32 value floor
     in tcp_shift_cubic_min_u32 value (cwnd_limit_bytes transport))"

text \<open>\<^verbatim>\<open>*model = (struct tcp_shift_cubic_model){0}\<close>.\<close>

definition cubic_zero :: tcp_shift_cubic_model where
  "cubic_zero =
    \<lparr>cwnd_q16 = 0, ssthresh_q16 = 0, w_max_q16 = 0, w_est_q16 = 0, cwnd_prior_q16 = 0,
     cwnd_epoch_q16 = 0, k_q10 = 0, epoch_start_ns = 0, last_ack_time_ns = 0,
     app_limited_since_ns = 0, last_target_q16 = 0, hystart_last_round_min_rtt_ns = 0,
     hystart_current_round_min_rtt_ns = 0, hystart_css_baseline_min_rtt_ns = 0,
     hystart_next_round_delivered = 0, cubic_mss_bytes = 0, cubic_min_cwnd_bytes = 0,
     ack_events = 0, loss_events = 0, ecn_events = 0, timeout_events = 0, app_limited_acks = 0,
     hystart_sample_count = 0, hystart_css_rounds = 0, hystart_exit_events = 0,
     hystart_css_enter_events = 0, hystart_css_revert_events = 0, has_w_max = False,
     epoch_active = False, app_limited_paused = False, after_timeout = False,
     fast_convergence = False, hystart_enabled = False, hystart_css = False,
     hystart_ack_css = False, hystart_exit_pending = False, hystart_initial_complete = False,
     hystart_pacing_active = False\<rparr>"

definition cubic_reply ::
    "tcp_shift_cubic_model \<times> tcp_shift_cc_policy \<Rightarrow> tcp_shift_cubic_model cc_result" where
  "cubic_reply r = (0, fst r, snd r)"

definition tcp_shift_cubic_model_init ::
    "tcp_shift_cubic_model \<Rightarrow> tcp_shift_cc_transport \<Rightarrow> tcp_shift_cc_init_config \<Rightarrow>
     tcp_shift_cc_policy \<Rightarrow> tcp_shift_cubic_model cc_result" where
  "tcp_shift_cubic_model_init model transport init policy =
    (if mss_bytes transport = 0 \<or> cwnd_limit_bytes transport < mss_bytes transport
     then (-1, model, policy)
     else
       let ssthresh_floor = tcp_shift_cubic_mul2_cap (mss_bytes transport) (cwnd_limit_bytes transport)
       in if initial_cwnd_bytes init < mss_bytes transport \<or>
             init_min_cwnd_bytes init < mss_bytes transport \<or>
             initial_cwnd_bytes init < init_min_cwnd_bytes init \<or>
             initial_ssthresh_bytes init < ssthresh_floor \<or>
             initial_cwnd_bytes init > cwnd_limit_bytes transport \<or>
             initial_ssthresh_bytes init > cwnd_limit_bytes transport \<or>
             init_min_cwnd_bytes init > cwnd_limit_bytes transport
          then (-1, model, policy)
          else
            let model = cubic_zero
                  \<lparr>cubic_mss_bytes := mss_bytes transport,
                   cubic_min_cwnd_bytes := init_min_cwnd_bytes init,
                   cwnd_q16 := tcp_shift_cubic_q16_from_bytes (initial_cwnd_bytes init) (mss_bytes transport),
                   ssthresh_q16 := tcp_shift_cubic_q16_from_bytes (initial_ssthresh_bytes init)
                     (mss_bytes transport),
                   fast_convergence := True\<rparr>
            in cubic_reply (tcp_shift_cubic_publish model transport policy))"

section \<open>The ACK handler\<close>

text \<open>An application-limited ACK in congestion avoidance pauses the epoch clock.\<close>

definition cubic_ack_paused ::
    "tcp_shift_cubic_model \<Rightarrow> tcp_shift_cc_transport \<Rightarrow> u64 \<Rightarrow> tcp_shift_cc_policy \<Rightarrow>
     tcp_shift_cubic_model cc_result" where
  "cubic_ack_paused model transport now_ns policy =
    (let model =
           (if \<not> app_limited_paused model
            then model\<lparr>app_limited_since_ns := (if ack_events model \<noteq> 0 then last_ack_time_ns model else now_ns),
                       app_limited_paused := True\<rparr>
            else model);
         model = model\<lparr>last_ack_time_ns := now_ns, ack_events := ack_events model + 1\<rparr>
     in cubic_reply (tcp_shift_cubic_publish (tcp_shift_cubic_finish_hystartpp model) transport policy))"

text \<open>A later ACK moves the epoch start past the pause.\<close>

definition cubic_resume_epoch :: "tcp_shift_cubic_model \<Rightarrow> u64 \<Rightarrow> tcp_shift_cubic_model" where
  "cubic_resume_epoch model now_ns =
    (if app_limited_paused model then
       let model =
         (if epoch_active model \<and> now_ns \<ge> app_limited_since_ns model
          then model\<lparr>epoch_start_ns := tcp_shift_cubic_add_sat_u64 (epoch_start_ns model)
                       (now_ns - app_limited_since_ns model)\<rparr>
          else model)
       in model\<lparr>app_limited_paused := False, app_limited_since_ns := 0\<rparr>
     else model)"

definition cubic_ack_slow_start ::
    "tcp_shift_cubic_model \<Rightarrow> tcp_shift_cc_transport \<Rightarrow> u32 \<Rightarrow> tcp_shift_cc_policy \<Rightarrow>
     tcp_shift_cubic_model cc_result" where
  "cubic_ack_slow_start model transport acked policy =
    (let cwnd = tcp_shift_cubic_bytes_from_q16 (cwnd_q16 model) (mss_bytes transport)
                  (cwnd_limit_bytes transport);
         increase = (if hystart_ack_css model
                     then acked div TCP_SHIFT_CUBIC_HYSTARTPP_CSS_GROWTH_DIVISOR else acked);
         cwnd = (if increase > cwnd_limit_bytes transport - cwnd then cwnd_limit_bytes transport
                 else cwnd + increase);
         model = model\<lparr>cwnd_q16 := tcp_shift_cubic_q16_from_bytes cwnd (mss_bytes transport)\<rparr>
     in cubic_reply (tcp_shift_cubic_publish (tcp_shift_cubic_finish_hystartpp model) transport policy))"

text \<open>The CUBIC region of congestion avoidance: the target window one RTT ahead.\<close>

definition cubic_ack_concave ::
    "tcp_shift_cubic_model \<Rightarrow> u64 \<Rightarrow> u64 \<Rightarrow> u64 \<Rightarrow> tcp_shift_cubic_model" where
  "cubic_ack_concave model elapsed_q10 smoothed_rtt limit_q16 =
    (let rtt_q10 = tcp_shift_cubic_nonzero_time_q10 smoothed_rtt;
         target_time_q10 = tcp_shift_cubic_add_sat_u64 elapsed_q10 rtt_q10;
         target_q16 = tcp_shift_cubic_window_q16 model target_time_q10;
         upper_q16 = tcp_shift_cubic_add_sat_u64 (cwnd_q16 model) (cwnd_q16 model div 2);
         upper_q16 = tcp_shift_cubic_min_u64 upper_q16 limit_q16;
         target_q16 = tcp_shift_cubic_max_u64 target_q16 (cwnd_q16 model);
         target_q16 = tcp_shift_cubic_min_u64 target_q16 upper_q16;
         model = model\<lparr>last_target_q16 := target_q16\<rparr>;
         difference = target_q16 - cwnd_q16 model
     in if difference \<noteq> 0 \<and> cwnd_q16 model \<noteq> 0
        then model\<lparr>cwnd_q16 := tcp_shift_cubic_add_sat_u64 (cwnd_q16 model)
                     (push_bit TCP_SHIFT_CUBIC_Q_SHIFT difference div cwnd_q16 model)\<rparr>
        else model)"

definition cubic_ack_avoidance ::
    "tcp_shift_cubic_model \<Rightarrow> tcp_shift_cc_transport \<Rightarrow> u32 \<Rightarrow> u64 \<Rightarrow> u64 \<Rightarrow> tcp_shift_cc_policy \<Rightarrow>
     tcp_shift_cubic_model cc_result" where
  "cubic_ack_avoidance model transport acked now_ns smoothed_rtt policy =
    (let model = (if \<not> epoch_active model then tcp_shift_cubic_start_epoch model now_ns else model);
         limit_q16 = tcp_shift_cubic_limit_q16 transport;
         cwnd = tcp_shift_cubic_bytes_from_q16 (cwnd_q16 model) (mss_bytes transport)
                  (cwnd_limit_bytes transport);
         model = tcp_shift_cubic_update_w_est model acked cwnd limit_q16;
         elapsed_q10 = tcp_shift_cubic_time_q10 (now_ns - epoch_start_ns model);
         current_cubic_q16 = tcp_shift_cubic_window_q16 model elapsed_q10
     in if current_cubic_q16 < w_est_q16 model
        then cubic_reply (tcp_shift_cubic_publish
               (model\<lparr>cwnd_q16 := tcp_shift_cubic_max_u64 (cwnd_q16 model) (w_est_q16 model),
                      last_target_q16 := w_est_q16 model\<rparr>) transport policy)
        else cubic_reply (tcp_shift_cubic_publish
               (cubic_ack_concave model elapsed_q10 smoothed_rtt limit_q16) transport policy))"

definition tcp_shift_cubic_model_on_ack ::
    "tcp_shift_cubic_model \<Rightarrow> tcp_shift_cc_transport \<Rightarrow> tcp_shift_cc_ack \<Rightarrow> u64 \<Rightarrow> u64 \<Rightarrow>
     tcp_shift_cc_policy \<Rightarrow> tcp_shift_cubic_model cc_result" where
  "tcp_shift_cubic_model_on_ack model transport ack now_ns smoothed_rtt policy =
    (if acked_bytes ack = 0 \<or> mss_bytes transport = 0 \<or>
        cwnd_limit_bytes transport < mss_bytes transport
     then (-1, model, policy)
     else
       let (r, model) = tcp_shift_cubic_sync_mss model (mss_bytes transport)
       in if r \<noteq> 0 then (-1, model, policy)
          else if ack_events model \<noteq> 0 \<and> now_ns < last_ack_time_ns model then (-1, model, policy)
          else
            let model = tcp_shift_cubic_normalize model transport;
                in_congestion_avoidance = (cwnd_q16 model \<ge> ssthresh_q16 model);
                app_limited = has_flag (ack_rate ack) TCP_SHIFT_CC_RATE_SAMPLE_APP_LIMITED
            in if \<not> app_limited \<and> in_congestion_avoidance \<and> smoothed_rtt = 0
               then (-1, model, policy)
               else
                 let model = (if app_limited then model\<lparr>app_limited_acks := app_limited_acks model + 1\<rparr>
                              else model)
                 in if app_limited \<and> in_congestion_avoidance
                    then cubic_ack_paused model transport now_ns policy
                    else
                      let model = cubic_resume_epoch model now_ns;
                          model = model\<lparr>last_ack_time_ns := now_ns, ack_events := ack_events model + 1\<rparr>
                      in if cwnd_q16 model < ssthresh_q16 model
                         then cubic_ack_slow_start model transport (acked_bytes ack) policy
                         else cubic_ack_avoidance model transport (acked_bytes ack) now_ns smoothed_rtt policy)"

section \<open>Congestion events\<close>

text \<open>The reduction that the loss and the ECN handler share, with their different floors.\<close>

definition cubic_reduce :: "tcp_shift_cubic_model \<Rightarrow> tcp_shift_cc_transport \<Rightarrow> u32 \<Rightarrow> tcp_shift_cubic_model" where
  "cubic_reduce model transport floor_segments =
    (let prior = cwnd_q16 model;
         model = (if fast_convergence model \<and> has_w_max model \<and> prior < w_max_q16 model
                  then model\<lparr>w_max_q16 := (prior * TCP_SHIFT_CUBIC_FAST_CONVERGENCE_NUM)
                         div TCP_SHIFT_CUBIC_FAST_CONVERGENCE_DEN\<rparr>
                  else model\<lparr>w_max_q16 := prior\<rparr>);
         model = model\<lparr>has_w_max := True, cwnd_prior_q16 := prior\<rparr>;
         reduced = tcp_shift_cubic_beta_flight_bytes transport floor_segments;
         minimum = tcp_shift_cubic_effective_min_bytes model transport;
         reduced = tcp_shift_cubic_max_u32 reduced minimum;
         model = model\<lparr>ssthresh_q16 := tcp_shift_cubic_q16_from_bytes reduced (mss_bytes transport)\<rparr>
     in model\<lparr>cwnd_q16 := ssthresh_q16 model, epoch_active := False, app_limited_paused := False,
              app_limited_since_ns := 0, after_timeout := False, k_q10 := 0\<rparr>)"

definition tcp_shift_cubic_model_on_loss ::
    "tcp_shift_cubic_model \<Rightarrow> tcp_shift_cc_transport \<Rightarrow> tcp_shift_cc_loss \<Rightarrow>
     tcp_shift_cc_policy \<Rightarrow> tcp_shift_cubic_model cc_result" where
  "tcp_shift_cubic_model_on_loss model transport loss policy =
    (if lost_bytes loss = 0 \<or> mss_bytes transport = 0 \<or>
        cwnd_limit_bytes transport < mss_bytes transport
     then (-1, model, policy)
     else
       let (r, model) = tcp_shift_cubic_sync_mss model (mss_bytes transport)
       in if r \<noteq> 0 then (-1, model, policy)
          else
            let model = cubic_reduce (tcp_shift_cubic_normalize model transport) transport 2;
                model = model\<lparr>loss_events := loss_events model + 1\<rparr>
            in cubic_reply (tcp_shift_cubic_publish model transport policy))"

definition tcp_shift_cubic_model_on_ecn ::
    "tcp_shift_cubic_model \<Rightarrow> tcp_shift_cc_transport \<Rightarrow> tcp_shift_cc_policy \<Rightarrow>
     tcp_shift_cubic_model cc_result" where
  "tcp_shift_cubic_model_on_ecn model transport policy =
    (if mss_bytes transport = 0 \<or> cwnd_limit_bytes transport < mss_bytes transport
     then (-1, model, policy)
     else
       let (r, model) = tcp_shift_cubic_sync_mss model (mss_bytes transport)
       in if r \<noteq> 0 then (-1, model, policy)
          else
            let model = cubic_reduce (tcp_shift_cubic_normalize model transport) transport 1;
                model = model\<lparr>ecn_events := ecn_events model + 1\<rparr>
            in cubic_reply (tcp_shift_cubic_publish model transport policy))"

definition tcp_shift_cubic_model_on_timeout ::
    "tcp_shift_cubic_model \<Rightarrow> tcp_shift_cc_transport \<Rightarrow> tcp_shift_cc_policy \<Rightarrow>
     tcp_shift_cubic_model cc_result" where
  "tcp_shift_cubic_model_on_timeout model transport policy =
    (if mss_bytes transport = 0 \<or> cwnd_limit_bytes transport < mss_bytes transport
     then (-1, model, policy)
     else
       let (r, model) = tcp_shift_cubic_sync_mss model (mss_bytes transport)
       in if r \<noteq> 0 then (-1, model, policy)
          else
            let model = tcp_shift_cubic_normalize model transport;
                model = model\<lparr>cwnd_prior_q16 := cwnd_q16 model\<rparr>;
                reduced = tcp_shift_cubic_beta_flight_bytes transport 2;
                model = model\<lparr>ssthresh_q16 := tcp_shift_cubic_q16_from_bytes reduced (mss_bytes transport)\<rparr>;
                minimum = tcp_shift_cubic_effective_min_bytes model transport;
                model = model\<lparr>cwnd_q16 := tcp_shift_cubic_q16_from_bytes minimum (mss_bytes transport),
                              epoch_active := False, app_limited_paused := False,
                              app_limited_since_ns := 0, after_timeout := True, k_q10 := 0,
                              timeout_events := timeout_events model + 1\<rparr>
            in cubic_reply (tcp_shift_cubic_publish model transport policy))"

definition tcp_shift_cubic_model_set_fast_convergence ::
    "tcp_shift_cubic_model \<Rightarrow> bool \<Rightarrow> tcp_shift_cubic_model" where
  "tcp_shift_cubic_model_set_fast_convergence model enabled = model\<lparr>fast_convergence := enabled\<rparr>"

section \<open>The published window\<close>

lemma unat_effective_min:
  "unat (tcp_shift_cubic_effective_min_bytes m t) =
    min (max (unat (cubic_min_cwnd_bytes m)) (unat (mss_bytes t))) (unat (cwnd_limit_bytes t))"
  by (simp add: tcp_shift_cubic_effective_min_bytes_def unat_cubic_select Let_def)

lemma normalize_fields:
  "cubic_min_cwnd_bytes (tcp_shift_cubic_normalize m t) = cubic_min_cwnd_bytes m"
  "tcp_shift_cubic_effective_min_bytes (tcp_shift_cubic_normalize m t) t =
    tcp_shift_cubic_effective_min_bytes m t"
  by (simp_all add: tcp_shift_cubic_normalize_def tcp_shift_cubic_effective_min_bytes_def Let_def)

text \<open>The policy that a publish leaves, in terms of the normalised window.\<close>

lemma publish_policy:
  "snd (tcp_shift_cubic_publish m t p) = p
    \<lparr>cwnd_bytes := tcp_shift_cubic_max_u32
        (tcp_shift_cubic_bytes_from_q16 (cwnd_q16 (tcp_shift_cubic_normalize m t)) (mss_bytes t)
          (cwnd_limit_bytes t)) (tcp_shift_cubic_effective_min_bytes m t),
     ssthresh_bytes := (let s = tcp_shift_cubic_bytes_from_q16 (ssthresh_q16 (tcp_shift_cubic_normalize m t))
          (mss_bytes t) (cwnd_limit_bytes t)
        in if s = 0 then tcp_shift_cubic_effective_min_bytes m t else s),
     pacing_rate_bytes_per_sec := 0\<rparr>"
  by (auto simp: tcp_shift_cubic_publish_def normalize_fields tcp_shift_cubic_max_u32_def Let_def
      split: prod.splits if_splits)

lemma publish_in_range:
  assumes "valid_transport t"
  shows "policy_in_range (cwnd_limit_bytes t) (snd (tcp_shift_cubic_publish m t p))"
proof -
  have t: "mss_bytes t \<noteq> 0" "unat (mss_bytes t) \<le> unat (cwnd_limit_bytes t)" "0 < unat (mss_bytes t)"
    using assms by (auto simp: valid_transport_iff word_le_nat_alt word_less_nat_alt)
  have e: "0 < unat (tcp_shift_cubic_effective_min_bytes m t)"
    "unat (tcp_shift_cubic_effective_min_bytes m t) \<le> unat (cwnd_limit_bytes t)"
    using t by (simp_all add: unat_effective_min)
  then show ?thesis using t
    by (auto simp: policy_in_range_def publish_policy Let_def word_less_nat_alt word_le_nat_alt
        unat_cubic_select unat_bytes_from_q16 word_zero_nat)
qed

lemma publish_ok:
  assumes "valid_transport t"
  shows "cc_step_ok (\<lambda>_. True) (cwnd_limit_bytes t) p' (cubic_reply (tcp_shift_cubic_publish m t p))"
  using publish_in_range [OF assms, of m p] by (simp add: cc_step_ok_def cubic_reply_def case_prod_beta)

section \<open>The cubic curve\<close>

abbreviation cube_term :: "nat \<Rightarrow> nat" where
  "cube_term d \<equiv> min 18446744073709551615 (d ^ 3) div 40960"

lemma unat_window:
  "unat (tcp_shift_cubic_window_q16 m t) =
    (if unat (k_q10 m) \<le> unat t
     then min 18446744073709551615 (unat (w_max_q16 m) + cube_term (unat t - unat (k_q10 m)))
     else unat (w_max_q16 m) - cube_term (unat (k_q10 m) - unat t))"
proof (cases "unat (k_q10 m) \<le> unat t")
  case True
  then show ?thesis
    by (simp add: tcp_shift_cubic_window_q16_def TCP_SHIFT_CUBIC_SCALE_def Let_def word_le_nat_alt
        unat_cubic_add unat_div_distrib unat_cube_sat unat_diff_exact)
next
  case False
  let ?c = "tcp_shift_cubic_cube_sat (k_q10 m - t) div 40960"
  have c: "unat ?c = cube_term (unat (k_q10 m) - unat t)"
    using False by (simp add: unat_div_distrib unat_cube_sat unat_diff_exact)
  have "tcp_shift_cubic_window_q16 m t = (if w_max_q16 m \<le> ?c then 0 else w_max_q16 m - ?c)"
    using False by (simp add: tcp_shift_cubic_window_q16_def TCP_SHIFT_CUBIC_SCALE_def Let_def
        word_le_nat_alt)
  moreover have "unat (if w_max_q16 m \<le> ?c then 0 else w_max_q16 m - ?c) = unat (w_max_q16 m) - unat ?c"
    by (simp add: word_le_nat_alt unat_diff_exact)
  ultimately show ?thesis using False c by simp
qed

lemma cube_term_mono: "a \<le> b \<Longrightarrow> cube_term a \<le> cube_term b"
  by (intro div_le_mono min.mono order.refl power_mono) simp_all

lemma window_mono:
  assumes "a \<le> b"
  shows "tcp_shift_cubic_window_q16 m a \<le> tcp_shift_cubic_window_q16 m b"
proof -
  have ab: "unat a \<le> unat b" using assms by (simp add: word_le_nat_alt)
  let ?k = "unat (k_q10 m)" and ?w = "unat (w_max_q16 m)"
  consider "?k \<le> unat a" | "unat a < ?k" "?k \<le> unat b" | "unat b < ?k" by linarith
  then show ?thesis
  proof cases
    case 1
    then have "cube_term (unat a - ?k) \<le> cube_term (unat b - ?k)" using ab by (intro cube_term_mono) simp
    then have "?w + cube_term (unat a - ?k) \<le> ?w + cube_term (unat b - ?k)" by simp
    then show ?thesis using 1 ab
      by (simp add: word_le_nat_alt unat_window min.coboundedI2)
  next
    case 2
    have "?w - cube_term (?k - unat a) \<le> ?w" by simp
    also have "?w \<le> min 18446744073709551615 (?w + cube_term (unat b - ?k))" by simp
    finally show ?thesis using 2 unfolding word_le_nat_alt unat_window by simp
  next
    case 3
    then have "cube_term (?k - unat b) \<le> cube_term (?k - unat a)" using ab by (intro cube_term_mono) simp
    then have "?w - cube_term (?k - unat a) \<le> ?w - cube_term (?k - unat b)" by (rule diff_le_mono2)
    then show ?thesis using 3 ab unfolding word_le_nat_alt unat_window by simp
  qed
qed

lemma start_epoch_k:
  assumes "\<not> after_timeout m" and "has_w_max m" and "cwnd_q16 m < w_max_q16 m"
  shows "k_q10 (tcp_shift_cubic_start_epoch m now) =
      tcp_shift_cubic_cuberoot_floor (tcp_shift_cubic_mul_sat_u64 (w_max_q16 m - cwnd_q16 m) 40960)"
    and "w_max_q16 (tcp_shift_cubic_start_epoch m now) = w_max_q16 m"
  using assms leD [of "w_max_q16 m" "cwnd_q16 m"]
  by (auto simp: tcp_shift_cubic_start_epoch_def TCP_SHIFT_CUBIC_SCALE_def Let_def)

lemma start_epoch_fields:
  "cwnd_q16 (tcp_shift_cubic_start_epoch m now) = cwnd_q16 m"
  "epoch_start_ns (tcp_shift_cubic_start_epoch m now) = now"
  "epoch_active (tcp_shift_cubic_start_epoch m now)"
  "last_ack_time_ns (tcp_shift_cubic_start_epoch m now) = last_ack_time_ns m"
  "app_limited_paused (tcp_shift_cubic_start_epoch m now) = app_limited_paused m"
  "app_limited_since_ns (tcp_shift_cubic_start_epoch m now) = app_limited_since_ns m"
  by (simp_all add: tcp_shift_cubic_start_epoch_def Let_def)

section \<open>Growth per ACK\<close>

lemma limit_q16_bound:
  assumes "mss_bytes t \<noteq> 0"
  shows "unat (tcp_shift_cubic_limit_q16 t) \<le> 281474976645120"
proof -
  have "unat (cwnd_limit_bytes t) * 65536 div unat (mss_bytes t) \<le> unat (cwnd_limit_bytes t) * 65536"
    by simp
  also have "\<dots> \<le> 4294967295 * 65536" by (intro mult_le_mono1) simp
  finally show ?thesis using assms by (simp add: tcp_shift_cubic_limit_q16_def unat_q16_from_bytes)
qed

lemma concave_growth:
  assumes "unat (cwnd_q16 m) \<le> unat limit" and "unat limit \<le> 281474976645120"
  shows "unat (cwnd_q16 m) \<le> unat (cwnd_q16 (cubic_ack_concave m e rtt limit))"
    and "unat (cwnd_q16 (cubic_ack_concave m e rtt limit)) \<le> unat (cwnd_q16 m) + 32768"
proof -
  let ?c = "unat (cwnd_q16 m)"
  define target where "target = tcp_shift_cubic_min_u64
    (tcp_shift_cubic_max_u64 (tcp_shift_cubic_window_q16 m
       (tcp_shift_cubic_add_sat_u64 e (tcp_shift_cubic_nonzero_time_q10 rtt))) (cwnd_q16 m))
    (tcp_shift_cubic_min_u64 (tcp_shift_cubic_add_sat_u64 (cwnd_q16 m) (cwnd_q16 m div 2)) limit)"
  have t: "?c \<le> unat target" "unat target \<le> ?c + ?c div 2"
    using assms by (auto simp: target_def unat_cubic_select unat_cubic_add unat_div_distrib)
  define diff where "diff = target - cwnd_q16 m"
  have d: "unat diff \<le> ?c div 2" using t by (simp add: diff_def unat_diff_exact)
  then have "unat diff * 65536 < 18446744073709551616" using assms by linarith
  then have shift: "unat (push_bit 16 diff) = unat diff * 65536"
    by (subst unat_push_bit_exact) simp_all
  have eq: "cwnd_q16 (cubic_ack_concave m e rtt limit) =
      (if diff \<noteq> 0 \<and> cwnd_q16 m \<noteq> 0
       then tcp_shift_cubic_add_sat_u64 (cwnd_q16 m) (push_bit 16 diff div cwnd_q16 m) else cwnd_q16 m)"
    by (simp add: cubic_ack_concave_def Let_def target_def diff_def TCP_SHIFT_CUBIC_Q_SHIFT_def)
  have "unat diff * 65536 div ?c \<le> 32768"
  proof -
    have "unat diff * 65536 \<le> ?c div 2 * 65536" using d by (rule mult_le_mono1)
    also have "\<dots> \<le> 32768 * ?c" by linarith
    finally have "unat diff * 65536 div ?c \<le> 32768 * ?c div ?c" by (rule div_le_mono)
    then show ?thesis by (cases "?c = 0") simp_all
  qed
  then show "?c \<le> unat (cwnd_q16 (cubic_ack_concave m e rtt limit))"
    and "unat (cwnd_q16 (cubic_ack_concave m e rtt limit)) \<le> ?c + 32768"
    unfolding eq using assms by (simp_all add: unat_cubic_add unat_div_distrib shift)
qed

section \<open>Reductions\<close>

lemma unat_beta_flight:
  "unat (tcp_shift_cubic_beta_flight_bytes t n) =
    min (max (unat (inflight_bytes t) * 7 div 10)
          (min (unat (cwnd_limit_bytes t)) (unat (mss_bytes t) * unat n))) (unat (cwnd_limit_bytes t))"
proof -
  define red where "red = (u64_of (inflight_bytes t) * 7) div 10"
  define fl where "fl = u64_of (mss_bytes t) * u64_of n"
  have p: "unat (u64_of (inflight_bytes t) * 7) = unat (inflight_bytes t) * 7"
    using unat_lt_u32 [of "inflight_bytes t"] by (subst unat_mult_exact) simp_all
  then have red: "unat red = unat (inflight_bytes t) * 7 div 10" by (simp add: red_def unat_div_distrib)
  have fl: "unat fl = unat (mss_bytes t) * unat n" by (simp add: fl_def)
  have r32: "unat red \<le> 4294967295" using red unat_lt_u32 [of "inflight_bytes t"] by linarith
  then have v: "unat (if red > u64_of UINT32_MAX then UINT32_MAX else u32_of red) = unat red"
    by (simp add: word_less_nat_alt unat_u32_of_small)
  have f: "unat (if fl > u64_of (cwnd_limit_bytes t) then cwnd_limit_bytes t else u32_of fl) =
      min (unat (cwnd_limit_bytes t)) (unat fl)"
    using unat_lt_u32 [of "cwnd_limit_bytes t"]
    by (auto simp: word_less_nat_alt not_less intro: unat_u32_of_small)
  have "tcp_shift_cubic_beta_flight_bytes t n = tcp_shift_cubic_min_u32 (tcp_shift_cubic_max_u32
      (if red > u64_of UINT32_MAX then UINT32_MAX else u32_of red)
      (if fl > u64_of (cwnd_limit_bytes t) then cwnd_limit_bytes t else u32_of fl)) (cwnd_limit_bytes t)"
    by (simp add: tcp_shift_cubic_beta_flight_bytes_def cubic_param_defs Let_def red_def fl_def)
  then show ?thesis unfolding fl [symmetric] red [symmetric] v [symmetric] f [symmetric]
    by (simp only: unat_cubic_select)
qed

end
