(* ===== verification/Cubic_Controller.thy ===== *)
theory Cubic_Controller
  imports Cubic
begin

text \<open>
  HyStart++ (RFC 9406) initial slow start, \<^verbatim>\<open>src/cc/cubic_hystart.c\<close>, and the controller wrapper
  \<^verbatim>\<open>src/cc/cubic_controller.c\<close> that joins it with the CUBIC model behind the operation table. The
  wrapper is an interpretation of the controller contract; reachable controller states keep the
  epoch clock ordered and bound the number of conservative-slow-start rounds.
\<close>

definition TCP_SHIFT_CUBIC_HYSTARTPP_MIN_RTT_THRESH_NS :: u64 where
  "TCP_SHIFT_CUBIC_HYSTARTPP_MIN_RTT_THRESH_NS = 4000000"
definition TCP_SHIFT_CUBIC_HYSTARTPP_MAX_RTT_THRESH_NS :: u64 where
  "TCP_SHIFT_CUBIC_HYSTARTPP_MAX_RTT_THRESH_NS = 16000000"
definition TCP_SHIFT_CUBIC_HYSTARTPP_MIN_RTT_DIVISOR :: u64 where
  "TCP_SHIFT_CUBIC_HYSTARTPP_MIN_RTT_DIVISOR = 8"
definition TCP_SHIFT_CUBIC_HYSTARTPP_MIN_SAMPLES :: u32 where
  "TCP_SHIFT_CUBIC_HYSTARTPP_MIN_SAMPLES = 8"
definition TCP_SHIFT_CUBIC_HYSTARTPP_CSS_ROUNDS :: u32 where
  "TCP_SHIFT_CUBIC_HYSTARTPP_CSS_ROUNDS = 5"
definition TCP_SHIFT_CUBIC_HYSTARTPP_NON_PACED_L :: u32 where
  "TCP_SHIFT_CUBIC_HYSTARTPP_NON_PACED_L = 8"

lemmas hystart_const_defs = TCP_SHIFT_CUBIC_HYSTARTPP_MIN_RTT_THRESH_NS_def
  TCP_SHIFT_CUBIC_HYSTARTPP_MAX_RTT_THRESH_NS_def TCP_SHIFT_CUBIC_HYSTARTPP_MIN_RTT_DIVISOR_def
  TCP_SHIFT_CUBIC_HYSTARTPP_MIN_SAMPLES_def TCP_SHIFT_CUBIC_HYSTARTPP_CSS_ROUNDS_def
  TCP_SHIFT_CUBIC_HYSTARTPP_NON_PACED_L_def

section \<open>The HyStart++ observer\<close>

definition tcp_shift_cubic_hystart_delay_threshold :: "u64 \<Rightarrow> u64" where
  "tcp_shift_cubic_hystart_delay_threshold last_round_min_rtt =
    (let threshold = last_round_min_rtt div TCP_SHIFT_CUBIC_HYSTARTPP_MIN_RTT_DIVISOR;
         threshold = (if threshold < TCP_SHIFT_CUBIC_HYSTARTPP_MIN_RTT_THRESH_NS
                      then TCP_SHIFT_CUBIC_HYSTARTPP_MIN_RTT_THRESH_NS else threshold)
     in if threshold > TCP_SHIFT_CUBIC_HYSTARTPP_MAX_RTT_THRESH_NS
        then TCP_SHIFT_CUBIC_HYSTARTPP_MAX_RTT_THRESH_NS else threshold)"

definition tcp_shift_cubic_hystart_add_sat_u64 :: "u64 \<Rightarrow> u64 \<Rightarrow> u64" where
  "tcp_shift_cubic_hystart_add_sat_u64 left right =
    (if right > UINT64_MAX - left then UINT64_MAX else left + right)"

definition tcp_shift_cubic_hystart_is_slow_start :: "tcp_shift_cubic_model \<Rightarrow> bool" where
  "tcp_shift_cubic_hystart_is_slow_start model \<longleftrightarrow> cwnd_q16 model < ssthresh_q16 model"

definition tcp_shift_cubic_hystart_reset :: "tcp_shift_cubic_model \<Rightarrow> tcp_shift_cubic_model" where
  "tcp_shift_cubic_hystart_reset model = model
    \<lparr>hystart_last_round_min_rtt_ns := UINT64_MAX, hystart_current_round_min_rtt_ns := UINT64_MAX,
     hystart_css_baseline_min_rtt_ns := UINT64_MAX, hystart_next_round_delivered := 0,
     hystart_sample_count := 0, hystart_css_rounds := 0, hystart_exit_events := 0,
     hystart_css_enter_events := 0, hystart_css_revert_events := 0, hystart_enabled := True,
     hystart_css := False, hystart_ack_css := False, hystart_exit_pending := False,
     hystart_initial_complete := False\<rparr>"

definition tcp_shift_cubic_hystart_disable :: "tcp_shift_cubic_model \<Rightarrow> tcp_shift_cubic_model" where
  "tcp_shift_cubic_hystart_disable model = model
    \<lparr>hystart_enabled := False, hystart_css := False, hystart_ack_css := False,
     hystart_exit_pending := False, hystart_initial_complete := True\<rparr>"

definition tcp_shift_cubic_hystart_start_round ::
    "tcp_shift_cubic_model \<Rightarrow> tcp_shift_cc_transport \<Rightarrow> tcp_shift_cc_ack \<Rightarrow> tcp_shift_cubic_model" where
  "tcp_shift_cubic_hystart_start_round model transport ack = model
    \<lparr>hystart_last_round_min_rtt_ns := hystart_current_round_min_rtt_ns model,
     hystart_current_round_min_rtt_ns := UINT64_MAX,
     hystart_sample_count := 0,
     hystart_next_round_delivered := tcp_shift_cubic_hystart_add_sat_u64
       (delivered_total_bytes (ack_rate ack)) (u64_of (inflight_bytes transport))\<rparr>"

text \<open>The RTT test of one ACK: sample, leave CSS when the spike was transient, or enter it.\<close>

definition hystart_observe ::
    "tcp_shift_cubic_model \<Rightarrow> tcp_shift_cc_rate_sample \<Rightarrow> int \<times> tcp_shift_cubic_model" where
  "hystart_observe model rate =
    (let model = (if rtt_ns rate < hystart_current_round_min_rtt_ns model
                  then model\<lparr>hystart_current_round_min_rtt_ns := rtt_ns rate\<rparr> else model);
         model = (if hystart_sample_count model \<noteq> UINT32_MAX
                  then model\<lparr>hystart_sample_count := hystart_sample_count model + 1\<rparr> else model)
     in if hystart_css model then
          (if hystart_sample_count model \<ge> TCP_SHIFT_CUBIC_HYSTARTPP_MIN_SAMPLES \<and>
              hystart_current_round_min_rtt_ns model < hystart_css_baseline_min_rtt_ns model
           then (1, model\<lparr>hystart_css := False, hystart_css_baseline_min_rtt_ns := UINT64_MAX,
                          hystart_css_rounds := 0,
                          hystart_css_revert_events := hystart_css_revert_events model + 1\<rparr>)
           else (0, model))
        else if hystart_sample_count model < TCP_SHIFT_CUBIC_HYSTARTPP_MIN_SAMPLES \<or>
                hystart_last_round_min_rtt_ns model = UINT64_MAX \<or>
                hystart_current_round_min_rtt_ns model = UINT64_MAX
        then (0, model)
        else
          let threshold = tcp_shift_cubic_hystart_delay_threshold (hystart_last_round_min_rtt_ns model);
              trigger_rtt = tcp_shift_cubic_hystart_add_sat_u64 (hystart_last_round_min_rtt_ns model) threshold
          in if hystart_current_round_min_rtt_ns model \<ge> trigger_rtt
             then (1, model\<lparr>hystart_css_baseline_min_rtt_ns := hystart_current_round_min_rtt_ns model,
                            hystart_css := True, hystart_css_rounds := 0,
                            hystart_css_enter_events := hystart_css_enter_events model + 1\<rparr>)
             else (0, model))"

definition tcp_shift_cubic_hystart_on_ack ::
    "tcp_shift_cubic_model \<Rightarrow> tcp_shift_cc_transport \<Rightarrow> tcp_shift_cc_ack \<Rightarrow> u64 \<Rightarrow>
     int \<times> tcp_shift_cubic_model" where
  "tcp_shift_cubic_hystart_on_ack model transport ack now_ns =
    (if now_ns = 0 \<or> mss_bytes transport = 0 then (-1, model)
     else
       let model = model\<lparr>hystart_ack_css := hystart_css model\<rparr>;
           rate = ack_rate ack
       in if \<not> hystart_enabled model \<or> hystart_initial_complete model \<or>
             \<not> tcp_shift_cubic_hystart_is_slow_start model
          then (0, model)
          else if cubic_mss_bytes model \<noteq> mss_bytes transport then (0, model)
          else
            let new_round = (hystart_next_round_delivered model = 0);
                new_round = (if \<not> new_round \<and> delivered_total_bytes rate \<noteq> 0 \<and>
                                delivered_total_bytes rate \<ge> hystart_next_round_delivered model
                             then True else new_round);
                counts = (new_round \<and> hystart_css model \<and> hystart_next_round_delivered model \<noteq> 0);
                model = (if counts then model\<lparr>hystart_css_rounds := hystart_css_rounds model + 1\<rparr> else model)
            in if counts \<and> hystart_css_rounds model \<ge> TCP_SHIFT_CUBIC_HYSTARTPP_CSS_ROUNDS
               then (1, model\<lparr>hystart_exit_pending := True\<rparr>)
               else
                 let model = (if new_round then tcp_shift_cubic_hystart_start_round model transport ack
                              else model)
                 in if \<not> has_flag rate TCP_SHIFT_CC_RATE_SAMPLE_RTT_VALID \<or> rtt_ns rate = 0
                    then (0, model)
                    else hystart_observe model rate)"

section \<open>The controller\<close>

definition tcp_shift_cubic_hystartpp_slow_start_credit :: "u32 \<Rightarrow> u32 \<Rightarrow> bool \<Rightarrow> u32" where
  "tcp_shift_cubic_hystartpp_slow_start_credit acked mss pacing_active =
    (if acked = 0 \<or> mss = 0 then 0
     else if pacing_active then acked
     else
       let limit = (if mss > UINT32_MAX div TCP_SHIFT_CUBIC_HYSTARTPP_NON_PACED_L then UINT32_MAX
                    else mss * TCP_SHIFT_CUBIC_HYSTARTPP_NON_PACED_L)
       in if acked < limit then acked else limit)"

definition tcp_shift_cubic_model_set_hystart_pacing ::
    "tcp_shift_cubic_model \<Rightarrow> bool \<Rightarrow> tcp_shift_cubic_model" where
  "tcp_shift_cubic_model_set_hystart_pacing model active = model\<lparr>hystart_pacing_active := active\<rparr>"

definition tcp_shift_cubic_controller_init ::
    "tcp_shift_cubic_model \<Rightarrow> tcp_shift_cc_transport \<Rightarrow> tcp_shift_cc_init_config \<Rightarrow>
     tcp_shift_cc_policy \<Rightarrow> tcp_shift_cubic_model cc_result" where
  "tcp_shift_cubic_controller_init model transport init policy =
    (let (result, model, policy) = tcp_shift_cubic_model_init model transport init policy
     in if result = 0 then (result, tcp_shift_cubic_hystart_reset model, policy)
        else (result, model, policy))"

definition tcp_shift_cubic_controller_on_ack ::
    "tcp_shift_cubic_model \<Rightarrow> tcp_shift_cc_transport \<Rightarrow> tcp_shift_cc_ack \<Rightarrow>
     tcp_shift_cc_policy \<Rightarrow> tcp_shift_cubic_model cc_result" where
  "tcp_shift_cubic_controller_on_ack model transport ack policy =
    (if ack_time_ns ack = 0 then (-1, model, policy)
     else
       let (result, model) = tcp_shift_cubic_hystart_on_ack model transport ack (ack_time_ns ack)
       in if result < 0 then (-1, model, policy)
          else
            let model_ack =
              (if cwnd_q16 model < ssthresh_q16 model
               then ack\<lparr>acked_bytes := tcp_shift_cubic_hystartpp_slow_start_credit (acked_bytes ack)
                          (mss_bytes transport) (hystart_pacing_active model)\<rparr>
               else ack)
            in tcp_shift_cubic_model_on_ack model transport model_ack (ack_time_ns ack)
                 (smoothed_rtt_ns ack) policy)"

text \<open>Every congestion signal that the model accepts ends the initial HyStart++ attempt.\<close>

definition cubic_end_hystart :: "tcp_shift_cubic_model cc_result \<Rightarrow> tcp_shift_cubic_model cc_result" where
  "cubic_end_hystart r =
    (case r of (result, model, policy) \<Rightarrow>
       if result = 0 then (result, tcp_shift_cubic_hystart_disable model, policy)
       else (result, model, policy))"

definition tcp_shift_cubic_controller_on_loss ::
    "tcp_shift_cubic_model \<Rightarrow> tcp_shift_cc_transport \<Rightarrow> tcp_shift_cc_loss \<Rightarrow>
     tcp_shift_cc_policy \<Rightarrow> tcp_shift_cubic_model cc_result" where
  "tcp_shift_cubic_controller_on_loss model transport loss policy =
    cubic_end_hystart (tcp_shift_cubic_model_on_loss model transport loss policy)"

definition tcp_shift_cubic_controller_on_ecn ::
    "tcp_shift_cubic_model \<Rightarrow> tcp_shift_cc_transport \<Rightarrow> tcp_shift_cc_policy \<Rightarrow>
     tcp_shift_cubic_model cc_result" where
  "tcp_shift_cubic_controller_on_ecn model transport policy =
    cubic_end_hystart (tcp_shift_cubic_model_on_ecn model transport policy)"

definition tcp_shift_cubic_controller_on_timeout ::
    "tcp_shift_cubic_model \<Rightarrow> tcp_shift_cc_transport \<Rightarrow> tcp_shift_cc_policy \<Rightarrow>
     tcp_shift_cubic_model cc_result" where
  "tcp_shift_cubic_controller_on_timeout model transport policy =
    cubic_end_hystart (tcp_shift_cubic_model_on_timeout model transport policy)"

text \<open>\<^verbatim>\<open>sizeof(struct tcp_shift_cubic_model)\<close>: 15 words of 8 bytes, 12 of 4, 11 flags, padded.\<close>

definition tcp_shift_cubic_ops :: "tcp_shift_cubic_model tcp_shift_cc_ops" where
  "tcp_shift_cubic_ops =
    \<lparr>ops_name = Some ''cubic'',
     ops_state_size = 184,
     ops_init = Some tcp_shift_cubic_controller_init,
     ops_on_ack = Some tcp_shift_cubic_controller_on_ack,
     ops_on_loss = Some tcp_shift_cubic_controller_on_loss,
     ops_on_ecn = Some tcp_shift_cubic_controller_on_ecn,
     ops_on_timeout = Some tcp_shift_cubic_controller_on_timeout\<rparr>"

section \<open>The controller contract\<close>

abbreviation cubic_ok :: "u32 \<Rightarrow> tcp_shift_cc_policy \<Rightarrow> tcp_shift_cubic_model cc_result \<Rightarrow> bool" where
  "cubic_ok \<equiv> cc_step_ok (\<lambda>_. True)"

lemma cubic_ok_refused: "rc \<noteq> 0 \<Longrightarrow> cubic_ok l p (rc, m, p)"
  by (simp add: cc_step_ok_def)

lemma model_on_ack_ok:
  assumes "valid_transport t"
  shows "cubic_ok (cwnd_limit_bytes t) p (tcp_shift_cubic_model_on_ack m t a now rtt p)"
  unfolding tcp_shift_cubic_model_on_ack_def cubic_ack_paused_def cubic_ack_slow_start_def
    cubic_ack_avoidance_def Let_def
  by (simp add: publish_ok [OF assms] cubic_ok_refused split: prod.split)

lemma end_hystart_ok: "cubic_ok l p r \<Longrightarrow> cubic_ok l p (cubic_end_hystart r)"
  by (auto simp: cc_step_ok_def cubic_end_hystart_def split: prod.splits)

lemma model_congestion_ok:
  assumes "valid_transport t"
  shows "cubic_ok (cwnd_limit_bytes t) p (tcp_shift_cubic_model_on_loss m t l p)"
    and "cubic_ok (cwnd_limit_bytes t) p (tcp_shift_cubic_model_on_ecn m t p)"
    and "cubic_ok (cwnd_limit_bytes t) p (tcp_shift_cubic_model_on_timeout m t p)"
  unfolding tcp_shift_cubic_model_on_loss_def tcp_shift_cubic_model_on_ecn_def
    tcp_shift_cubic_model_on_timeout_def Let_def
  by (simp_all add: publish_ok [OF assms] cubic_ok_refused split: prod.split)

lemma model_init_range:
  assumes "valid_transport t" and "tcp_shift_cubic_controller_init s t i p = (0, s', p')"
  shows "policy_in_range (cwnd_limit_bytes t) p'"
proof -
  obtain r m q where init: "tcp_shift_cubic_model_init s t i p = (r, m, q)" by (cases "tcp_shift_cubic_model_init s t i p") auto
  then have "r = 0" "p' = q"
    using assms(2) by (auto simp: tcp_shift_cubic_controller_init_def split: if_splits)
  moreover have "policy_in_range (cwnd_limit_bytes t) q" if "tcp_shift_cubic_publish m' t p = (m, q)" for m'
    using publish_in_range [OF assms(1), of m' p] that by simp
  ultimately show ?thesis using init
    by (auto simp: tcp_shift_cubic_model_init_def cubic_reply_def Let_def split: if_splits)
qed

interpretation cubic: cc_controller tcp_shift_cubic_ops "\<lambda>_ _. True"
proof unfold_locales
  show "cc_ops_complete tcp_shift_cubic_ops"
    by (simp add: cc_ops_complete_def tcp_shift_cubic_ops_def)
next
  fix t a s p assume "valid_transport t"
  then show "cubic_ok (cwnd_limit_bytes t) p (the (ops_on_ack tcp_shift_cubic_ops) s t a p)"
    using model_on_ack_ok
    by (simp add: tcp_shift_cubic_ops_def tcp_shift_cubic_controller_on_ack_def cubic_ok_refused Let_def
        split: prod.split)
qed (auto simp: tcp_shift_cubic_ops_def tcp_shift_cubic_controller_on_loss_def
    tcp_shift_cubic_controller_on_ecn_def tcp_shift_cubic_controller_on_timeout_def
    intro: end_hystart_ok model_congestion_ok model_init_range)

section \<open>Reachable controller states\<close>

text \<open>A controller after a successful initialisation, under the calls of the boundary and the
  adapter, with ACK times that do not run backwards.\<close>

inductive cubic_reachable :: "tcp_shift_cubic_model \<Rightarrow> bool" where
  init: "tcp_shift_cubic_controller_init m0 t i p = (0, m, p') \<Longrightarrow> cubic_reachable m"
| ack: "cubic_reachable m \<Longrightarrow> last_ack_time_ns m \<le> ack_time_ns a \<Longrightarrow>
    tcp_shift_cubic_controller_on_ack m t a p = (rc, m', p') \<Longrightarrow> cubic_reachable m'"
| loss: "cubic_reachable m \<Longrightarrow> tcp_shift_cubic_controller_on_loss m t l p = (rc, m', p') \<Longrightarrow>
    cubic_reachable m'"
| ecn: "cubic_reachable m \<Longrightarrow> tcp_shift_cubic_controller_on_ecn m t p = (rc, m', p') \<Longrightarrow>
    cubic_reachable m'"
| timeout: "cubic_reachable m \<Longrightarrow> tcp_shift_cubic_controller_on_timeout m t p = (rc, m', p') \<Longrightarrow>
    cubic_reachable m'"
| fast: "cubic_reachable m \<Longrightarrow> cubic_reachable (tcp_shift_cubic_model_set_fast_convergence m b)"
| pacing: "cubic_reachable m \<Longrightarrow> cubic_reachable (tcp_shift_cubic_model_set_hystart_pacing m b)"

text \<open>The epoch clock, and the round count of conservative slow start.\<close>

definition clock_ok :: "tcp_shift_cubic_model \<Rightarrow> bool" where
  "clock_ok m \<longleftrightarrow>
    (epoch_active m \<longrightarrow> epoch_start_ns m \<le> last_ack_time_ns m) \<and>
    (app_limited_paused m \<longrightarrow> app_limited_since_ns m \<le> last_ack_time_ns m \<and>
       (epoch_active m \<longrightarrow> epoch_start_ns m \<le> app_limited_since_ns m))"

definition css_ok :: "tcp_shift_cubic_model \<Rightarrow> bool" where
  "css_ok m \<longleftrightarrow>
    (hystart_css_rounds m < 5 \<or> hystart_exit_pending m \<or> hystart_initial_complete m) \<and>
    (hystart_initial_complete m \<longrightarrow> \<not> hystart_enabled m \<and> \<not> hystart_css m \<and> \<not> hystart_exit_pending m)"

lemma normalize_state:
  "epoch_active (tcp_shift_cubic_normalize m t) = epoch_active m"
  "epoch_start_ns (tcp_shift_cubic_normalize m t) = epoch_start_ns m"
  "last_ack_time_ns (tcp_shift_cubic_normalize m t) = last_ack_time_ns m"
  "app_limited_paused (tcp_shift_cubic_normalize m t) = app_limited_paused m"
  "app_limited_since_ns (tcp_shift_cubic_normalize m t) = app_limited_since_ns m"
  "hystart_css_rounds (tcp_shift_cubic_normalize m t) = hystart_css_rounds m"
  "hystart_exit_pending (tcp_shift_cubic_normalize m t) = hystart_exit_pending m"
  "hystart_initial_complete (tcp_shift_cubic_normalize m t) = hystart_initial_complete m"
  "hystart_enabled (tcp_shift_cubic_normalize m t) = hystart_enabled m"
  "hystart_css (tcp_shift_cubic_normalize m t) = hystart_css m"
  by (simp_all add: tcp_shift_cubic_normalize_def Let_def case_prod_beta)

lemma publish_state:
  "epoch_active (fst (tcp_shift_cubic_publish m t p)) = epoch_active m"
  "epoch_start_ns (fst (tcp_shift_cubic_publish m t p)) = epoch_start_ns m"
  "last_ack_time_ns (fst (tcp_shift_cubic_publish m t p)) = last_ack_time_ns m"
  "app_limited_paused (fst (tcp_shift_cubic_publish m t p)) = app_limited_paused m"
  "app_limited_since_ns (fst (tcp_shift_cubic_publish m t p)) = app_limited_since_ns m"
  "hystart_css_rounds (fst (tcp_shift_cubic_publish m t p)) = hystart_css_rounds m"
  "hystart_exit_pending (fst (tcp_shift_cubic_publish m t p)) = hystart_exit_pending m"
  "hystart_initial_complete (fst (tcp_shift_cubic_publish m t p)) = hystart_initial_complete m"
  "hystart_enabled (fst (tcp_shift_cubic_publish m t p)) = hystart_enabled m"
  "hystart_css (fst (tcp_shift_cubic_publish m t p)) = hystart_css m"
  by (simp_all add: tcp_shift_cubic_publish_def normalize_state Let_def case_prod_beta)

lemma publish_keeps:
  "clock_ok (fst (tcp_shift_cubic_publish m t p)) = clock_ok m"
  "css_ok (fst (tcp_shift_cubic_publish m t p)) = css_ok m"
  by (simp_all add: clock_ok_def css_ok_def publish_state)

lemma normalize_keeps:
  "clock_ok (tcp_shift_cubic_normalize m t) = clock_ok m"
  "css_ok (tcp_shift_cubic_normalize m t) = css_ok m"
  "last_ack_time_ns (tcp_shift_cubic_normalize m t) = last_ack_time_ns m"
  by (simp_all add: clock_ok_def css_ok_def normalize_state)

lemma sync_mss_keeps:
  assumes "tcp_shift_cubic_sync_mss m b = (r, m')"
  shows "clock_ok m' = clock_ok m" and "css_ok m' = css_ok m" and "last_ack_time_ns m' = last_ack_time_ns m"
  using assms by (auto simp: tcp_shift_cubic_sync_mss_def clock_ok_def css_ok_def Let_def split: if_splits)

lemma finish_keeps:
  "clock_ok m \<Longrightarrow> clock_ok (tcp_shift_cubic_finish_hystartpp m)"
  "css_ok m \<Longrightarrow> css_ok (tcp_shift_cubic_finish_hystartpp m)"
  by (auto simp: tcp_shift_cubic_finish_hystartpp_def clock_ok_def css_ok_def)

lemma reply_state: "cubic_reply x = (rc, m', p') \<Longrightarrow> m' = fst x"
  by (simp add: cubic_reply_def)

lemma reply_publish_keeps:
  assumes "cubic_reply (tcp_shift_cubic_publish m t p) = (rc, m', p')"
  shows "clock_ok m' = clock_ok m" and "css_ok m' = css_ok m"
  using reply_state [OF assms] by (simp_all add: publish_keeps)

lemma resume_clock:
  assumes "clock_ok m" and "last_ack_time_ns m \<le> now"
  shows "clock_ok ((cubic_resume_epoch m now)\<lparr>last_ack_time_ns := now, ack_events := n\<rparr>)"
    and "\<not> app_limited_paused (cubic_resume_epoch m now)"
proof -
  show "\<not> app_limited_paused (cubic_resume_epoch m now)" by (simp add: cubic_resume_epoch_def Let_def)
  have "unat (tcp_shift_cubic_add_sat_u64 (epoch_start_ns m) (now - app_limited_since_ns m)) \<le> unat now"
    if "epoch_active m" "app_limited_paused m"
  proof -
    have "unat (epoch_start_ns m) \<le> unat (app_limited_since_ns m)"
      "unat (app_limited_since_ns m) \<le> unat now"
      using assms that by (auto simp: clock_ok_def word_le_nat_alt)
    then show ?thesis by (simp add: unat_cubic_add unat_diff_exact)
  qed
  then show "clock_ok ((cubic_resume_epoch m now)\<lparr>last_ack_time_ns := now, ack_events := n\<rparr>)"
    using assms by (auto simp: cubic_resume_epoch_def clock_ok_def Let_def word_le_nat_alt)
qed

lemma resume_css: "css_ok (cubic_resume_epoch m now) = css_ok m"
  by (simp add: cubic_resume_epoch_def css_ok_def Let_def)

lemma concave_state:
  "epoch_active (cubic_ack_concave m e r lim) = epoch_active m"
  "epoch_start_ns (cubic_ack_concave m e r lim) = epoch_start_ns m"
  "last_ack_time_ns (cubic_ack_concave m e r lim) = last_ack_time_ns m"
  "app_limited_paused (cubic_ack_concave m e r lim) = app_limited_paused m"
  "app_limited_since_ns (cubic_ack_concave m e r lim) = app_limited_since_ns m"
  "hystart_css_rounds (cubic_ack_concave m e r lim) = hystart_css_rounds m"
  "hystart_exit_pending (cubic_ack_concave m e r lim) = hystart_exit_pending m"
  "hystart_initial_complete (cubic_ack_concave m e r lim) = hystart_initial_complete m"
  "hystart_enabled (cubic_ack_concave m e r lim) = hystart_enabled m"
  "hystart_css (cubic_ack_concave m e r lim) = hystart_css m"
  by (simp_all add: cubic_ack_concave_def Let_def case_prod_beta)

lemma update_w_est_state:
  "epoch_active (tcp_shift_cubic_update_w_est m a c l) = epoch_active m"
  "epoch_start_ns (tcp_shift_cubic_update_w_est m a c l) = epoch_start_ns m"
  "last_ack_time_ns (tcp_shift_cubic_update_w_est m a c l) = last_ack_time_ns m"
  "app_limited_paused (tcp_shift_cubic_update_w_est m a c l) = app_limited_paused m"
  "app_limited_since_ns (tcp_shift_cubic_update_w_est m a c l) = app_limited_since_ns m"
  "hystart_css_rounds (tcp_shift_cubic_update_w_est m a c l) = hystart_css_rounds m"
  "hystart_exit_pending (tcp_shift_cubic_update_w_est m a c l) = hystart_exit_pending m"
  "hystart_initial_complete (tcp_shift_cubic_update_w_est m a c l) = hystart_initial_complete m"
  "hystart_enabled (tcp_shift_cubic_update_w_est m a c l) = hystart_enabled m"
  "hystart_css (tcp_shift_cubic_update_w_est m a c l) = hystart_css m"
  by (simp_all add: tcp_shift_cubic_update_w_est_def Let_def case_prod_beta)

lemma ack_paused_keeps:
  assumes "cubic_ack_paused m t now p = (rc, m', p')"
  shows "clock_ok m \<Longrightarrow> last_ack_time_ns m \<le> now \<Longrightarrow> clock_ok m'" and "css_ok m \<Longrightarrow> css_ok m'"
proof -
  define m1 where "m1 = (if \<not> app_limited_paused m
      then m\<lparr>app_limited_since_ns := (if ack_events m \<noteq> 0 then last_ack_time_ns m else now),
             app_limited_paused := True\<rparr> else m)"
  define m2 where "m2 = m1\<lparr>last_ack_time_ns := now, ack_events := ack_events m1 + 1\<rparr>"
  have r: "cubic_reply (tcp_shift_cubic_publish (tcp_shift_cubic_finish_hystartpp m2) t p) = (rc, m', p')"
    using assms unfolding cubic_ack_paused_def Let_def m2_def m1_def by simp
  show "clock_ok m'" if "clock_ok m" "last_ack_time_ns m \<le> now"
  proof -
    have "clock_ok m2" using that by (auto simp: clock_ok_def m2_def m1_def)
    then show ?thesis by (simp add: reply_publish_keeps [OF r] finish_keeps)
  qed
  show "css_ok m'" if "css_ok m"
  proof -
    have "css_ok m2" using that by (auto simp: css_ok_def m2_def m1_def)
    then show ?thesis by (simp add: reply_publish_keeps [OF r] finish_keeps)
  qed
qed

lemma ack_slow_start_keeps:
  assumes "cubic_ack_slow_start m t a p = (rc, m', p')"
  shows "clock_ok m \<Longrightarrow> clock_ok m'" and "css_ok m \<Longrightarrow> css_ok m'"
proof -
  obtain c where r: "cubic_reply (tcp_shift_cubic_publish (tcp_shift_cubic_finish_hystartpp
      (m\<lparr>cwnd_q16 := c\<rparr>)) t p) = (rc, m', p')"
    using assms unfolding cubic_ack_slow_start_def Let_def by blast
  have "clock_ok (m\<lparr>cwnd_q16 := c\<rparr>) = clock_ok m" "css_ok (m\<lparr>cwnd_q16 := c\<rparr>) = css_ok m"
    by (simp_all add: clock_ok_def css_ok_def)
  then show "clock_ok m \<Longrightarrow> clock_ok m'" and "css_ok m \<Longrightarrow> css_ok m'"
    by (simp_all add: reply_publish_keeps [OF r] finish_keeps)
qed

lemma ack_avoidance_keeps:
  assumes "cubic_ack_avoidance m t a now rtt p = (rc, m', p')"
  shows "clock_ok m \<Longrightarrow> last_ack_time_ns m = now \<Longrightarrow> \<not> app_limited_paused m \<Longrightarrow> clock_ok m'"
    and "css_ok m \<Longrightarrow> css_ok m'"
proof -
  define m1 where "m1 = (if \<not> epoch_active m then tcp_shift_cubic_start_epoch m now else m)"
  have css: "css_ok m1 = css_ok m"
    by (simp add: m1_def css_ok_def tcp_shift_cubic_start_epoch_def Let_def)
  have clock: "clock_ok m1" if "clock_ok m" "last_ack_time_ns m = now" "\<not> app_limited_paused m"
    using that by (auto simp: m1_def clock_ok_def start_epoch_fields)
  obtain m2 where r: "cubic_reply (tcp_shift_cubic_publish m2 t p) = (rc, m', p')"
    and m2: "clock_ok m2 = clock_ok m1" "css_ok m2 = css_ok m1"
  proof -
    let ?e = "tcp_shift_cubic_update_w_est m1 a (tcp_shift_cubic_bytes_from_q16 (cwnd_q16 m1)
      (mss_bytes t) (cwnd_limit_bytes t)) (tcp_shift_cubic_limit_q16 t)"
    have keep: "clock_ok (?e\<lparr>cwnd_q16 := c, last_target_q16 := l\<rparr>) = clock_ok m1"
      "css_ok (?e\<lparr>cwnd_q16 := c, last_target_q16 := l\<rparr>) = css_ok m1"
      "clock_ok (cubic_ack_concave ?e x y z) = clock_ok m1"
      "css_ok (cubic_ack_concave ?e x y z) = css_ok m1" for c l x y z
      by (simp_all add: clock_ok_def css_ok_def concave_state update_w_est_state)
    show thesis using assms keep that
      unfolding cubic_ack_avoidance_def Let_def m1_def [symmetric] by (auto split: if_splits)
  qed
  show "clock_ok m \<Longrightarrow> last_ack_time_ns m = now \<Longrightarrow> \<not> app_limited_paused m \<Longrightarrow> clock_ok m'"
    and "css_ok m \<Longrightarrow> css_ok m'"
    using clock css m2 by (simp_all add: reply_publish_keeps [OF r])
qed

lemma model_on_ack_keeps:
  assumes "tcp_shift_cubic_model_on_ack m t a now rtt p = (rc, m', p')"
  shows "clock_ok m \<Longrightarrow> last_ack_time_ns m \<le> now \<Longrightarrow> clock_ok m'" and "css_ok m \<Longrightarrow> css_ok m'"
proof -
  obtain r m1 where sync: "tcp_shift_cubic_sync_mss m (mss_bytes t) = (r, m1)" by fastforce
  define m2 where "m2 = tcp_shift_cubic_normalize m1 t"
  define app where "app = has_flag (ack_rate a) TCP_SHIFT_CC_RATE_SAMPLE_APP_LIMITED"
  define m3 where "m3 = (if app then m2\<lparr>app_limited_acks := app_limited_acks m2 + 1\<rparr> else m2)"
  define m4 where "m4 = (let m = cubic_resume_epoch m3 now
    in m\<lparr>last_ack_time_ns := now, ack_events := ack_events m + 1\<rparr>)"
  have inv12: "clock_ok m1 = clock_ok m" "css_ok m1 = css_ok m" "last_ack_time_ns m1 = last_ack_time_ns m"
    "clock_ok m2 = clock_ok m" "css_ok m2 = css_ok m"
    using sync_mss_keeps [OF sync] by (simp_all add: m2_def normalize_keeps)
  have inv3: "clock_ok m3 = clock_ok m" "css_ok m3 = css_ok m" "last_ack_time_ns m3 = last_ack_time_ns m"
    using inv12 by (simp_all add: m3_def clock_ok_def css_ok_def m2_def normalize_state)
  have inv4: "css_ok m4 = css_ok m" "last_ack_time_ns m4 = now" "\<not> app_limited_paused m4"
    using inv3 resume_css [of m3 now]
    by (simp_all add: m4_def css_ok_def cubic_resume_epoch_def Let_def)
  have clock4: "clock_ok m4" if "clock_ok m" "last_ack_time_ns m \<le> now"
    using that resume_clock(1) [of m3 now] inv3 by (simp add: m4_def Let_def)
  have "m' = m \<or> m' = m1 \<or> m' = m2 \<or> cubic_ack_paused m3 t now p = (rc, m', p') \<or>
      cubic_ack_slow_start m4 t (acked_bytes a) p = (rc, m', p') \<or>
      cubic_ack_avoidance m4 t (acked_bytes a) now rtt p = (rc, m', p')"
    using assms unfolding tcp_shift_cubic_model_on_ack_def sync Let_def case_prod_conv
      m4_def m3_def m2_def app_def by (auto split: if_splits)
  then show "clock_ok m \<Longrightarrow> last_ack_time_ns m \<le> now \<Longrightarrow> clock_ok m'" and "css_ok m \<Longrightarrow> css_ok m'"
    using inv12 inv3 inv4 clock4 ack_paused_keeps [of m3 t now p rc m' p']
      ack_slow_start_keeps [of m4 t _ p rc m' p'] ack_avoidance_keeps [of m4 t _ now rtt p rc m' p']
    by metis+
qed

lemma observe_clock:
  "epoch_active (snd (hystart_observe m r)) = epoch_active m"
  "epoch_start_ns (snd (hystart_observe m r)) = epoch_start_ns m"
  "last_ack_time_ns (snd (hystart_observe m r)) = last_ack_time_ns m"
  "app_limited_paused (snd (hystart_observe m r)) = app_limited_paused m"
  "app_limited_since_ns (snd (hystart_observe m r)) = app_limited_since_ns m"
  by (simp_all add: hystart_observe_def Let_def)

lemma observe_css:
  "css_ok m \<Longrightarrow> hystart_enabled m \<Longrightarrow> \<not> hystart_initial_complete m \<Longrightarrow> css_ok (snd (hystart_observe m r))"
  by (auto simp: hystart_observe_def css_ok_def Let_def)

lemma hystart_on_ack_clock:
  "epoch_active (snd (tcp_shift_cubic_hystart_on_ack m t a now)) = epoch_active m"
  "epoch_start_ns (snd (tcp_shift_cubic_hystart_on_ack m t a now)) = epoch_start_ns m"
  "last_ack_time_ns (snd (tcp_shift_cubic_hystart_on_ack m t a now)) = last_ack_time_ns m"
  "app_limited_paused (snd (tcp_shift_cubic_hystart_on_ack m t a now)) = app_limited_paused m"
  "app_limited_since_ns (snd (tcp_shift_cubic_hystart_on_ack m t a now)) = app_limited_since_ns m"
  by (simp_all add: tcp_shift_cubic_hystart_on_ack_def observe_clock
      tcp_shift_cubic_hystart_start_round_def Let_def)

lemma start_round_css: "css_ok (tcp_shift_cubic_hystart_start_round m t a) = css_ok m"
  "hystart_enabled (tcp_shift_cubic_hystart_start_round m t a) = hystart_enabled m"
  "hystart_initial_complete (tcp_shift_cubic_hystart_start_round m t a) = hystart_initial_complete m"
  by (simp_all add: tcp_shift_cubic_hystart_start_round_def css_ok_def)

lemma hystart_on_ack_css:
  assumes "css_ok m"
  shows "css_ok (snd (tcp_shift_cubic_hystart_on_ack m t a now))"
proof -
  define m1 where "m1 = m\<lparr>hystart_ack_css := hystart_css m\<rparr>"
  have m1: "css_ok m1" using assms by (simp add: m1_def css_ok_def)
  have count: "css_ok (m1\<lparr>hystart_css_rounds := n\<rparr>)" if "n < 5" "\<not> hystart_initial_complete m1" for n
    using m1 that by (simp add: css_ok_def)
  have pend: "css_ok (m1\<lparr>hystart_css_rounds := n, hystart_exit_pending := True\<rparr>)"
    if "\<not> hystart_initial_complete m1" for n
    using m1 that by (simp add: css_ok_def)
  show ?thesis
    unfolding tcp_shift_cubic_hystart_on_ack_def m1_def [symmetric] Let_def
      TCP_SHIFT_CUBIC_HYSTARTPP_CSS_ROUNDS_def
    using assms m1 count pend by (auto simp: start_round_css not_le intro!: observe_css)
qed

lemma congestion_clears_epoch:
  "clock_ok m \<Longrightarrow> tcp_shift_cubic_model_on_loss m t l p = (rc, m', p') \<Longrightarrow> clock_ok m'"
  "clock_ok m \<Longrightarrow> tcp_shift_cubic_model_on_ecn m t p = (rc, m', p') \<Longrightarrow> clock_ok m'"
  "clock_ok m \<Longrightarrow> tcp_shift_cubic_model_on_timeout m t p = (rc, m', p') \<Longrightarrow> clock_ok m'"
proof -
  obtain r m1 where sync: "tcp_shift_cubic_sync_mss m (mss_bytes t) = (r, m1)" by fastforce
  note keeps = sync_mss_keeps(1) [OF sync]
  have red: "clock_ok ((cubic_reduce x t n)\<lparr>loss_events := k\<rparr>)" "clock_ok ((cubic_reduce x t n)\<lparr>ecn_events := k\<rparr>)"
    for x n k by (simp_all add: clock_ok_def cubic_reduce_def Let_def)
  show "clock_ok m \<Longrightarrow> tcp_shift_cubic_model_on_loss m t l p = (rc, m', p') \<Longrightarrow> clock_ok m'"
    using keeps red reply_publish_keeps(1)
    by (auto simp: tcp_shift_cubic_model_on_loss_def sync Let_def split: if_splits)
  show "clock_ok m \<Longrightarrow> tcp_shift_cubic_model_on_ecn m t p = (rc, m', p') \<Longrightarrow> clock_ok m'"
    using keeps red reply_publish_keeps(1)
    by (auto simp: tcp_shift_cubic_model_on_ecn_def sync Let_def split: if_splits)
  assume "clock_ok m" and "tcp_shift_cubic_model_on_timeout m t p = (rc, m', p')"
  then consider "m' = m" | "m' = m1" | x where "cubic_reply (tcp_shift_cubic_publish x t p) = (rc, m', p')"
    "\<not> epoch_active x" "\<not> app_limited_paused x"
    by (auto simp: tcp_shift_cubic_model_on_timeout_def sync Let_def split: if_splits)
  then show "clock_ok m'"
  proof cases
    case (3 x)
    then have "clock_ok x" by (simp add: clock_ok_def)
    then show ?thesis by (simp add: reply_publish_keeps(1) [OF 3(1)])
  qed (use \<open>clock_ok m\<close> keeps in simp_all)
qed

lemma congestion_css:
  "css_ok m \<Longrightarrow> tcp_shift_cubic_model_on_loss m t l p = (rc, m', p') \<Longrightarrow> css_ok m'"
  "css_ok m \<Longrightarrow> tcp_shift_cubic_model_on_ecn m t p = (rc, m', p') \<Longrightarrow> css_ok m'"
  "css_ok m \<Longrightarrow> tcp_shift_cubic_model_on_timeout m t p = (rc, m', p') \<Longrightarrow> css_ok m'"
proof -
  obtain r m1 where sync: "tcp_shift_cubic_sync_mss m (mss_bytes t) = (r, m1)" by fastforce
  note keeps = sync_mss_keeps(2) [OF sync]
  have red: "css_ok ((cubic_reduce x t n)\<lparr>loss_events := k\<rparr>) = css_ok x"
    "css_ok ((cubic_reduce x t n)\<lparr>ecn_events := k\<rparr>) = css_ok x"
    for x n k by (simp_all add: css_ok_def cubic_reduce_def Let_def)
  show "css_ok m \<Longrightarrow> tcp_shift_cubic_model_on_loss m t l p = (rc, m', p') \<Longrightarrow> css_ok m'"
    using keeps by (auto simp: tcp_shift_cubic_model_on_loss_def sync Let_def red normalize_keeps
        dest!: reply_publish_keeps(2) split: if_splits)
  show "css_ok m \<Longrightarrow> tcp_shift_cubic_model_on_ecn m t p = (rc, m', p') \<Longrightarrow> css_ok m'"
    using keeps by (auto simp: tcp_shift_cubic_model_on_ecn_def sync Let_def red normalize_keeps
        dest!: reply_publish_keeps(2) split: if_splits)
  show "css_ok m \<Longrightarrow> tcp_shift_cubic_model_on_timeout m t p = (rc, m', p') \<Longrightarrow> css_ok m'"
    using keeps by (auto simp: tcp_shift_cubic_model_on_timeout_def sync Let_def css_ok_def
        normalize_state dest!: reply_publish_keeps(2) split: if_splits)
qed

lemma end_hystart_keeps:
  assumes "cubic_end_hystart r = (rc, m', p')"
  shows "clock_ok m' = clock_ok (fst (snd r))" and "css_ok (fst (snd r)) \<Longrightarrow> css_ok m'"
  using assms
  by (auto simp: cubic_end_hystart_def tcp_shift_cubic_hystart_disable_def clock_ok_def css_ok_def
      split: prod.splits if_splits)

lemma controller_congestion_keeps:
  assumes "clock_ok m \<and> css_ok m"
  shows "tcp_shift_cubic_controller_on_loss m t l p = (rc, m', p') \<Longrightarrow> clock_ok m' \<and> css_ok m'"
    and "tcp_shift_cubic_controller_on_ecn m t p = (rc, m', p') \<Longrightarrow> clock_ok m' \<and> css_ok m'"
    and "tcp_shift_cubic_controller_on_timeout m t p = (rc, m', p') \<Longrightarrow> clock_ok m' \<and> css_ok m'"
  using assms congestion_clears_epoch [of m] congestion_css [of m]
  by (metis end_hystart_keeps prod.collapse tcp_shift_cubic_controller_on_loss_def
      tcp_shift_cubic_controller_on_ecn_def tcp_shift_cubic_controller_on_timeout_def)+

lemma publish_pair:
  assumes "tcp_shift_cubic_publish m t p = (m', q)"
  shows "epoch_active m' = epoch_active m \<and> app_limited_paused m' = app_limited_paused m"
  using publish_state(1,4) [of m t p] assms by simp

lemma model_init_idle:
  assumes "tcp_shift_cubic_model_init m0 t i p = (0, m, p')"
  shows "\<not> epoch_active m" and "\<not> app_limited_paused m"
  using assms
  by (auto simp: tcp_shift_cubic_model_init_def cubic_reply_def cubic_zero_def Let_def
      dest!: publish_pair split: if_splits)

lemma cubic_reachable_inv: "cubic_reachable m \<Longrightarrow> clock_ok m \<and> css_ok m"
proof (induction rule: cubic_reachable.induct)
  case (init m0 t i p m p')
  then obtain m1 where "tcp_shift_cubic_model_init m0 t i p = (0, m1, p')"
    "m = tcp_shift_cubic_hystart_reset m1"
    by (auto simp: tcp_shift_cubic_controller_init_def split: prod.splits if_splits)
  then show ?case using model_init_idle
    by (simp add: tcp_shift_cubic_hystart_reset_def clock_ok_def css_ok_def)
next
  case (ack m a t p rc m' p')
  obtain r m1 where h: "tcp_shift_cubic_hystart_on_ack m t a (ack_time_ns a) = (r, m1)" by fastforce
  then have m1: "clock_ok m1" "css_ok m1" "last_ack_time_ns m1 \<le> ack_time_ns a"
    using ack hystart_on_ack_clock [of m t a "ack_time_ns a"] hystart_on_ack_css [of m t a "ack_time_ns a"]
    by (simp_all add: clock_ok_def)
  show ?case using ack.hyps(3) ack.IH m1 model_on_ack_keeps [of m1]
    by (auto simp: tcp_shift_cubic_controller_on_ack_def h Let_def split: if_splits)
next
  case (fast m b)
  then show ?case by (simp add: tcp_shift_cubic_model_set_fast_convergence_def clock_ok_def css_ok_def)
next
  case (pacing m b)
  then show ?case by (simp add: tcp_shift_cubic_model_set_hystart_pacing_def clock_ok_def css_ok_def)
next
  case (loss m t l p rc m' p')
  then show ?case by (intro controller_congestion_keeps(1) [OF loss.IH loss.hyps(2)])
next
  case (ecn m t p rc m' p')
  then show ?case by (intro controller_congestion_keeps(2) [OF ecn.IH ecn.hyps(2)])
next
  case (timeout m t p rc m' p')
  then show ?case by (intro controller_congestion_keeps(3) [OF timeout.IH timeout.hyps(2)])
qed

section \<open>The reduction on loss\<close>

lemma q16_mono:
  "mss \<noteq> 0 \<Longrightarrow> unat a \<le> unat b \<Longrightarrow>
    unat (tcp_shift_cubic_q16_from_bytes a mss) \<le> unat (tcp_shift_cubic_q16_from_bytes b mss)"
  by (simp add: unat_q16_from_bytes div_le_mono)

text \<open>Publishing a window that was set to \<open>r\<close> bytes publishes \<open>r\<close> up to one byte of rounding.\<close>

lemma publish_bytes:
  assumes t: "valid_transport t" and mss: "unat (mss_bytes t) \<le> 65536"
    and m: "cwnd_q16 m = tcp_shift_cubic_q16_from_bytes r (mss_bytes t)"
      "ssthresh_q16 m = tcp_shift_cubic_q16_from_bytes r (mss_bytes t)"
    and r: "unat (tcp_shift_cubic_effective_min_bytes m t) \<le> unat r" "unat r \<le> unat (cwnd_limit_bytes t)"
    and q: "q = snd (tcp_shift_cubic_publish m t p)"
  shows "unat (cwnd_bytes q) \<le> unat r \<and> unat r \<le> unat (cwnd_bytes q) + 1 \<and>
    unat (ssthresh_bytes q) \<le> unat r \<and> unat r \<le> unat (ssthresh_bytes q) + 1"
proof -
  have nz: "mss_bytes t \<noteq> 0" and pos: "0 < unat (mss_bytes t)"
    using t by (auto simp: valid_transport_iff word_less_nat_alt)
  let ?q = "tcp_shift_cubic_q16_from_bytes r (mss_bytes t)"
  have n: "cwnd_q16 (tcp_shift_cubic_normalize m t) = ?q" "ssthresh_q16 (tcp_shift_cubic_normalize m t) = ?q"
    using q16_mono [OF nz r(1)] q16_mono [OF nz r(2)]
    by (simp_all add: word_unat_eq_iff tcp_shift_cubic_normalize_def tcp_shift_cubic_limit_q16_def
        unat_cubic_select m Let_def)
  define b where "b = tcp_shift_cubic_bytes_from_q16 ?q (mss_bytes t) (cwnd_limit_bytes t)"
  have "unat b = min (unat (cwnd_limit_bytes t)) (unat r * 65536 div unat (mss_bytes t) * unat (mss_bytes t) div 65536)"
    by (simp add: b_def unat_bytes_from_q16 [OF nz] unat_q16_from_bytes [OF nz])
  then have b: "unat b \<le> unat r" "unat r \<le> unat b + 1"
    using q16_roundtrip_nat [OF pos mss, of "unat r"] r(2) by linarith+
  have "cwnd_bytes q = tcp_shift_cubic_max_u32 b (tcp_shift_cubic_effective_min_bytes m t)"
    "ssthresh_bytes q = (if b = 0 then tcp_shift_cubic_effective_min_bytes m t else b)"
    by (simp_all add: q publish_policy n b_def Let_def)
  then show ?thesis using b r(1) by (auto simp: unat_cubic_select word_zero_nat)
qed

lemma reduce_window:
  assumes r: "r = tcp_shift_cubic_max_u32 (tcp_shift_cubic_beta_flight_bytes t n)
    (tcp_shift_cubic_effective_min_bytes m t)"
  shows "cwnd_q16 (cubic_reduce m t n) = tcp_shift_cubic_q16_from_bytes r (mss_bytes t)"
    and "ssthresh_q16 (cubic_reduce m t n) = tcp_shift_cubic_q16_from_bytes r (mss_bytes t)"
    and "tcp_shift_cubic_effective_min_bytes (cubic_reduce m t n) t = tcp_shift_cubic_effective_min_bytes m t"
    and "unat (tcp_shift_cubic_effective_min_bytes m t) \<le> unat r"
    and "unat r \<le> unat (cwnd_limit_bytes t)"
  by (simp_all add: cubic_reduce_def r Let_def tcp_shift_cubic_effective_min_bytes_def
      unat_cubic_select unat_beta_flight)

section \<open>Properties\<close>

text \<open>C12. Whatever sequence of ACK, loss, ECN and timeout callbacks follows a successful CUBIC
  initialisation through the boundary, the published congestion window and slow-start
  threshold are nonzero and within the transport's representable limit.\<close>

theorem cubic_policy_always_in_range:
  assumes "tcp_shift_cc_init (Some h) (Some tcp_shift_cubic_ops) (Some s) n (Some t) (Some i)
      (Some p) = (0, Some g, Some q)"
    and "\<And>e. e \<in> set es \<Longrightarrow> cwnd_limit_bytes (event_transport e) = cwnd_limit_bytes t"
    and "cc_run g q es = (h', p')"
  shows "policy_in_range (cwnd_limit_bytes t) p'"
  using assms by (rule cubic.init_run_in_range)

definition demo_cubic_init :: "tcp_shift_cubic_model cc_call" where
  "demo_cubic_init = tcp_shift_cc_init (Some \<lparr>cc_ops = None, cc_state = None\<rparr>) (Some tcp_shift_cubic_ops)
    (Some cubic_zero) 184 (Some demo_transport)
    (Some \<lparr>initial_cwnd_bytes = 10000, initial_ssthresh_bytes = 50000, init_min_cwnd_bytes = 2000\<rparr>)
    (Some demo_policy)"

lemmas cubic_eval = tcp_shift_cc_init_def tcp_shift_cubic_ops_def tcp_shift_cc_valid_transport_def
  tcp_shift_cubic_controller_init_def tcp_shift_cubic_model_init_def cubic_reply_def
  tcp_shift_cubic_publish_def tcp_shift_cubic_normalize_def tcp_shift_cubic_limit_q16_def
  tcp_shift_cubic_effective_min_bytes_def tcp_shift_cubic_q16_from_bytes_def
  tcp_shift_cubic_bytes_from_q16_def tcp_shift_cubic_min_u32_def tcp_shift_cubic_max_u32_def
  tcp_shift_cubic_min_u64_def tcp_shift_cubic_max_u64_def tcp_shift_cubic_mul2_cap_def
  tcp_shift_cubic_hystart_reset_def cubic_const_defs demo_transport_def demo_policy_def cubic_zero_def Let_def

theorem cubic_policy_always_in_range_witness:
  "policy_in_range 50000 (snd (cc_run (the (fst (snd demo_cubic_init))) (the (snd (snd demo_cubic_init)))
     [Ack_Event demo_transport (demo_ack 1000), Loss_Event demo_transport \<lparr>lost_bytes = 1000\<rparr>,
      Timeout_Event demo_transport]))"
proof -
  have "demo_cubic_init = (0, Some (the (fst (snd demo_cubic_init))), Some (the (snd (snd demo_cubic_init))))"
    by (simp add: demo_cubic_init_def cubic_eval)
  then have "policy_in_range (cwnd_limit_bytes demo_transport) (snd (cc_run
      (the (fst (snd demo_cubic_init))) (the (snd (snd demo_cubic_init)))
      [Ack_Event demo_transport (demo_ack 1000), Loss_Event demo_transport \<lparr>lost_bytes = 1000\<rparr>,
       Timeout_Event demo_transport]))"
    unfolding demo_cubic_init_def
    by (rule cubic_policy_always_in_range [OF _ _ surjective_pairing]) auto
  then show ?thesis by (simp add: demo_transport_def)
qed

text \<open>The integer cube root is exact and its binary search always returns: the result is the
  largest integer whose cube does not exceed the argument.\<close>

theorem cubic_cuberoot_exact:
  "(\<exists>r. cuberoot_search v 0 (u64_of UINT32_MAX) = Some r) \<and>
   unat (tcp_shift_cubic_cuberoot_floor v) ^ 3 \<le> unat v \<and>
   unat v < (unat (tcp_shift_cubic_cuberoot_floor v) + 1) ^ 3"
  using cuberoot_floor_spec by blast

text \<open>The shape of the CUBIC curve of an epoch that starts below the previous maximum: the curve
  starts no lower than the window at the epoch start, never decreases, and reaches exactly the
  previous maximum at time K; K is the integer cube root of the scaled window deficit.\<close>

theorem cubic_curve_shape:
  assumes e: "e = tcp_shift_cubic_start_epoch m now"
    and "\<not> after_timeout m" and "has_w_max m" and "cwnd_q16 m < w_max_q16 m"
  shows "cwnd_q16 m \<le> tcp_shift_cubic_window_q16 e 0 \<and>
    tcp_shift_cubic_window_q16 e (k_q10 e) = w_max_q16 m \<and>
    (\<forall>a b. a \<le> b \<longrightarrow> tcp_shift_cubic_window_q16 e a \<le> tcp_shift_cubic_window_q16 e b) \<and>
    unat (k_q10 e) ^ 3 \<le> min 18446744073709551615 ((unat (w_max_q16 m) - unat (cwnd_q16 m)) * 40960) \<and>
    min 18446744073709551615 ((unat (w_max_q16 m) - unat (cwnd_q16 m)) * 40960) < (unat (k_q10 e) + 1) ^ 3"
proof -
  let ?d = "unat (w_max_q16 m) - unat (cwnd_q16 m)"
  have lt: "unat (cwnd_q16 m) < unat (w_max_q16 m)" using assms(4) by (simp add: word_less_nat_alt)
  have rad: "unat (tcp_shift_cubic_mul_sat_u64 (w_max_q16 m - cwnd_q16 m) 40960) =
      min 18446744073709551615 (?d * 40960)"
    using lt by (simp add: unat_cubic_mul unat_diff_exact)
  have k: "k_q10 e = tcp_shift_cubic_cuberoot_floor
      (tcp_shift_cubic_mul_sat_u64 (w_max_q16 m - cwnd_q16 m) 40960)" and w: "w_max_q16 e = w_max_q16 m"
    using start_epoch_k [OF assms(2-4)] by (simp_all add: e)
  have root: "unat (k_q10 e) ^ 3 \<le> min 18446744073709551615 (?d * 40960)"
    "min 18446744073709551615 (?d * 40960) < (unat (k_q10 e) + 1) ^ 3"
    using cuberoot_floor_spec(1,2) [of "tcp_shift_cubic_mul_sat_u64 (w_max_q16 m - cwnd_q16 m) 40960"]
    unfolding k rad by blast+
  have "cube_term (unat (k_q10 e)) \<le> ?d"
  proof -
    have "min 18446744073709551615 (unat (k_q10 e) ^ 3) \<le> ?d * 40960" using root(1) by linarith
    then have "cube_term (unat (k_q10 e)) \<le> ?d * 40960 div 40960" by (rule div_le_mono)
    then show ?thesis by simp
  qed
  then have "unat (cwnd_q16 m) \<le> unat (w_max_q16 m) - cube_term (unat (k_q10 e))"
    using lt by linarith
  then have "unat (cwnd_q16 m) \<le> unat (tcp_shift_cubic_window_q16 e 0)"
    using lt by (simp add: unat_window w)
  moreover have "unat (tcp_shift_cubic_window_q16 e (k_q10 e)) = unat (w_max_q16 m)"
    by (simp add: unat_window w)
  ultimately show ?thesis using root window_mono
    by (simp add: word_le_nat_alt [symmetric] word_unat_eq_iff [symmetric])
qed

text \<open>A window of 7 segments below a maximum of 10: the curve starts at or above 7 segments.\<close>

theorem cubic_curve_shape_witness:
  "cwnd_q16 (cubic_zero\<lparr>cwnd_q16 := 458752, w_max_q16 := 655360, has_w_max := True\<rparr>) \<le>
   tcp_shift_cubic_window_q16 (tcp_shift_cubic_start_epoch
     (cubic_zero\<lparr>cwnd_q16 := 458752, w_max_q16 := 655360, has_w_max := True\<rparr>) 5) 0"
  using cubic_curve_shape [OF refl,
      of "cubic_zero\<lparr>cwnd_q16 := 458752, w_max_q16 := 655360, has_w_max := True\<rparr>" 5]
  by (simp add: cubic_zero_def)


text \<open>Conservative slow start lasts at most five rounds: in every reachable controller state fewer
  than five CSS rounds have been counted, or the exit from slow start is pending, or the initial
  slow start is over; and once it is over, HyStart++ is off for good, with no CSS phase and no
  pending exit.\<close>

theorem hystart_css_rounds_bounded:
  assumes "cubic_reachable m"
  shows "(unat (hystart_css_rounds m) < 5 \<or> hystart_exit_pending m \<or> hystart_initial_complete m) \<and>
    (hystart_initial_complete m \<longrightarrow> \<not> hystart_enabled m \<and> \<not> hystart_css m \<and> \<not> hystart_exit_pending m)"
  using cubic_reachable_inv [OF assms] by (simp add: css_ok_def word_less_nat_alt)

lemma demo_cubic_reachable: "cubic_reachable (the (cc_state (the (fst (snd demo_cubic_init)))))"
proof (rule cubic_reachable.init)
  let ?i = "\<lparr>initial_cwnd_bytes = 10000, initial_ssthresh_bytes = 50000, init_min_cwnd_bytes = 2000\<rparr>"
  show "tcp_shift_cubic_controller_init cubic_zero demo_transport ?i demo_policy =
      (0, the (cc_state (the (fst (snd demo_cubic_init)))),
       snd (snd (tcp_shift_cubic_controller_init cubic_zero demo_transport ?i demo_policy)))"
    by (simp add: demo_cubic_init_def cubic_eval)
qed

text \<open>A flow that starts at its threshold opens an epoch with its first ACK.\<close>

definition demo_cubic_epoch :: tcp_shift_cubic_model where
  "demo_cubic_epoch = fst (snd (tcp_shift_cubic_controller_on_ack
    (fst (snd (tcp_shift_cubic_controller_init cubic_zero demo_transport
      \<lparr>initial_cwnd_bytes = 10000, initial_ssthresh_bytes = 10000, init_min_cwnd_bytes = 2000\<rparr> demo_policy)))
    demo_transport (demo_ack 1000) demo_policy))"


theorem hystart_css_rounds_bounded_witness:
  "hystart_enabled (the (cc_state (the (fst (snd demo_cubic_init))))) \<and>
   (unat (hystart_css_rounds (the (cc_state (the (fst (snd demo_cubic_init)))))) < 5 \<or>
    hystart_exit_pending (the (cc_state (the (fst (snd demo_cubic_init))))) \<or>
    hystart_initial_complete (the (cc_state (the (fst (snd demo_cubic_init))))))"
proof -
  have "hystart_enabled (the (cc_state (the (fst (snd demo_cubic_init)))))"
    by (simp add: demo_cubic_init_def cubic_eval)
  then show ?thesis using hystart_css_rounds_bounded [OF demo_cubic_reachable] by blast
qed

text \<open>In the CUBIC region of congestion avoidance one ACK never shrinks the window and grows it by
  at most half a segment (32768 in Q16), whatever the curve asks for, and the 16-bit shift of
  the window difference does not overflow; the hypotheses are what the normalisation before it
  establishes.\<close>

theorem cubic_growth_half_segment_per_ack:
  assumes "mss_bytes t \<noteq> 0" and "m = tcp_shift_cubic_normalize m0 t"
  shows "cwnd_q16 m \<le> cwnd_q16 (cubic_ack_concave m elapsed rtt (tcp_shift_cubic_limit_q16 t)) \<and>
    unat (cwnd_q16 (cubic_ack_concave m elapsed rtt (tcp_shift_cubic_limit_q16 t)))
      \<le> unat (cwnd_q16 m) + 32768"
proof -
  have "unat (cwnd_q16 m) \<le> unat (tcp_shift_cubic_limit_q16 t)"
    by (simp add: assms(2) tcp_shift_cubic_normalize_def unat_cubic_select Let_def)
  then show ?thesis using concave_growth limit_q16_bound [OF assms(1)]
    by (simp add: word_le_nat_alt)
qed

theorem cubic_growth_half_segment_per_ack_witness:
  "unat (cwnd_q16 (cubic_ack_concave (tcp_shift_cubic_normalize cubic_zero demo_transport) 0 20000000
     (tcp_shift_cubic_limit_q16 demo_transport)))
   \<le> unat (cwnd_q16 (tcp_shift_cubic_normalize cubic_zero demo_transport)) + 32768"
  using cubic_growth_half_segment_per_ack [OF _ refl, of demo_transport cubic_zero 0 20000000]
  by (simp add: demo_transport_def)

text \<open>The slow-start credit of one ACK is all acknowledged bytes when the flow is paced and the
  smaller of the acknowledged bytes and eight segments otherwise (RFC 9406's L), with no
  overflow for any MSS.\<close>

theorem hystart_slow_start_credit_exact:
  assumes "mss \<noteq> 0"
  shows "unat (tcp_shift_cubic_hystartpp_slow_start_credit acked mss pacing) =
    (if pacing then unat acked else min (unat acked) (8 * unat mss))"
proof -
  define l where "l = (if mss > UINT32_MAX div 8 then UINT32_MAX else mss * 8)"
  have l: "unat l = min 4294967295 (8 * unat mss)"
  proof (cases "unat mss \<le> 536870911")
    case True
    then have "unat (mss * 8) = unat mss * 8" by (subst unat_mult_exact) simp_all
    then show ?thesis using True by (simp add: l_def word_less_nat_alt unat_div_distrib)
  qed (simp add: l_def word_less_nat_alt unat_div_distrib)
  have "tcp_shift_cubic_hystartpp_slow_start_credit acked mss pacing =
      (if acked = 0 then 0 else if pacing then acked else if acked < l then acked else l)"
    using assms by (simp add: tcp_shift_cubic_hystartpp_slow_start_credit_def hystart_const_defs l_def)
  then show ?thesis using l unat_lt_u32 [of acked]
    by (auto simp: word_less_nat_alt word_zero_nat min_def split: if_splits)
qed

theorem hystart_slow_start_credit_exact_witness:
  "unat (tcp_shift_cubic_hystartpp_slow_start_credit 20000 1000 False) = 8000"
  using hystart_slow_start_credit_exact [of 1000 20000 False] by simp

text \<open>A packet loss sets the published window and threshold to 0.7 of the bytes in flight, but at
  least two segments and the configured minimum and at most the transport limit, up to one byte
  of fixed-point rounding, for every MSS up to 65536; the CUBIC epoch is closed and HyStart++ is
  over.\<close>

theorem cubic_loss_reduction:
  assumes "valid_transport t" and "unat (mss_bytes t) \<le> 65536"
    and "tcp_shift_cubic_controller_on_loss m t l p = (0, m', p')"
    and "limit = unat (cwnd_limit_bytes t)"
    and "target = max (min (max (unat (inflight_bytes t) * 7 div 10) (min limit (2 * unat (mss_bytes t)))) limit)
      (min (max (unat (cubic_min_cwnd_bytes m)) (unat (mss_bytes t))) limit)"
  shows "unat (cwnd_bytes p') \<le> target \<and> target \<le> unat (cwnd_bytes p') + 1 \<and>
    unat (ssthresh_bytes p') \<le> target \<and> target \<le> unat (ssthresh_bytes p') + 1 \<and>
    \<not> epoch_active m' \<and> hystart_initial_complete m'"
proof -
  obtain s m1 where sync: "tcp_shift_cubic_sync_mss m (mss_bytes t) = (s, m1)" by fastforce
  define n where "n = tcp_shift_cubic_normalize m1 t"
  define x where "x = (cubic_reduce n t 2)\<lparr>loss_events := loss_events (cubic_reduce n t 2) + 1\<rparr>"
  have min1: "cubic_min_cwnd_bytes n = cubic_min_cwnd_bytes m"
    using sync by (auto simp: n_def normalize_fields tcp_shift_cubic_sync_mss_def Let_def split: if_splits)
  have res: "p' = snd (tcp_shift_cubic_publish x t p)"
    "m' = tcp_shift_cubic_hystart_disable (fst (tcp_shift_cubic_publish x t p))"
    using assms(3) unfolding x_def n_def
    by (auto simp: tcp_shift_cubic_controller_on_loss_def cubic_end_hystart_def cubic_reply_def
        tcp_shift_cubic_model_on_loss_def sync Let_def case_prod_beta split: if_splits)
  define r where "r = tcp_shift_cubic_max_u32 (tcp_shift_cubic_beta_flight_bytes t 2)
    (tcp_shift_cubic_effective_min_bytes n t)"
  note rw = reduce_window [OF r_def]
  have target: "unat r = target"
    by (simp add: r_def assms(4,5) unat_cubic_select unat_beta_flight unat_effective_min min1 mult.commute)
  have eff: "tcp_shift_cubic_effective_min_bytes x t = tcp_shift_cubic_effective_min_bytes n t"
    using rw(3) by (simp add: x_def tcp_shift_cubic_effective_min_bytes_def)
  have "unat (cwnd_bytes p') \<le> unat r \<and> unat r \<le> unat (cwnd_bytes p') + 1 \<and>
    unat (ssthresh_bytes p') \<le> unat r \<and> unat r \<le> unat (ssthresh_bytes p') + 1"
    unfolding res(1) by (rule publish_bytes [OF assms(1,2), of x r]) (use rw eff in \<open>simp_all add: x_def\<close>)
  moreover have "\<not> epoch_active m' \<and> hystart_initial_complete m'"
    by (simp add: res(2) tcp_shift_cubic_hystart_disable_def publish_state x_def cubic_reduce_def Let_def)
  ultimately show ?thesis unfolding target by blast
qed

theorem cubic_loss_reduction_witness:
  "unat (cwnd_bytes (snd (snd (tcp_shift_cubic_controller_on_loss
     (cubic_zero\<lparr>cubic_mss_bytes := 1000, cwnd_q16 := 655360\<rparr>) demo_transport \<lparr>lost_bytes = 1000\<rparr> demo_policy))))
   \<le> 5600"
proof -
  let ?r = "tcp_shift_cubic_controller_on_loss (cubic_zero\<lparr>cubic_mss_bytes := 1000, cwnd_q16 := 655360\<rparr>)
    demo_transport \<lparr>lost_bytes = 1000\<rparr> demo_policy"
  have "fst ?r = 0"
    by (simp add: tcp_shift_cubic_controller_on_loss_def tcp_shift_cubic_model_on_loss_def
        cubic_end_hystart_def tcp_shift_cubic_sync_mss_def cubic_reply_def demo_transport_def
        cubic_zero_def case_prod_beta Let_def)
  then have eq: "?r = (0, fst (snd ?r), snd (snd ?r))" by (metis prod.collapse)
  have "valid_transport demo_transport" "unat (mss_bytes demo_transport) \<le> 65536"
    by (simp_all add: demo_transport_def tcp_shift_cc_valid_transport_def)
  from cubic_loss_reduction [OF this eq refl refl] show ?thesis
    by (simp add: demo_transport_def cubic_zero_def)
qed

end
