(* ===== verification/Registry.thy ===== *)
theory Registry
  imports Reno Cubic_Controller
begin

text \<open>
  The built-in controller registry, the end of \<^verbatim>\<open>src/cc/reno.c\<close> with \<^verbatim>\<open>src/cc/registry.h\<close>: lookup
  by name and the default. A C string is the list of its characters before the terminating
  zero, a pointer to one an option; the operation tables of the controllers have different
  state types, so the lookup returns which table it is.
\<close>

datatype builtin_ops = Builtin_reno "tcp_shift_reno_state tcp_shift_cc_ops"
  | Builtin_cubic "tcp_shift_cubic_model tcp_shift_cc_ops"

fun builtin_name :: "builtin_ops \<Rightarrow> string option" where
  "builtin_name (Builtin_reno ops) = ops_name ops"
| "builtin_name (Builtin_cubic ops) = ops_name ops"

text \<open>The character loop of \<^verbatim>\<open>tcp_shift_cc_name_equal\<close> and its final comparison.\<close>

fun name_chars_equal :: "string \<Rightarrow> string \<Rightarrow> bool" where
  "name_chars_equal (a # left) (b # right) = (if a \<noteq> b then False else name_chars_equal left right)"
| "name_chars_equal left right = (left = [] \<and> right = [])"

definition tcp_shift_cc_name_equal :: "string option \<Rightarrow> string option \<Rightarrow> bool" where
  "tcp_shift_cc_name_equal left right =
    (case (left, right) of (Some l, Some r) \<Rightarrow> name_chars_equal l r | _ \<Rightarrow> False)"

definition tcp_shift_cc_find_ops :: "string option \<Rightarrow> builtin_ops option" where
  "tcp_shift_cc_find_ops name =
    (if tcp_shift_cc_name_equal name (ops_name tcp_shift_reno_ops) then Some (Builtin_reno tcp_shift_reno_ops)
     else if tcp_shift_cc_name_equal name (ops_name tcp_shift_cubic_ops)
     then Some (Builtin_cubic tcp_shift_cubic_ops)
     else None)"

definition tcp_shift_cc_default_ops :: builtin_ops where
  "tcp_shift_cc_default_ops = Builtin_reno tcp_shift_reno_ops"

lemma name_chars_equal_iff: "name_chars_equal l r \<longleftrightarrow> l = r"
  by (induction l r rule: name_chars_equal.induct) auto

lemma name_equal_iff: "tcp_shift_cc_name_equal a b \<longleftrightarrow> a \<noteq> None \<and> a = b"
  by (auto simp: tcp_shift_cc_name_equal_def name_chars_equal_iff split: option.splits)

text \<open>The registry lookup is exact: it returns a controller exactly for the names "reno" and
  "cubic", and the controller found carries the requested name; the default is the controller
  registered as "reno". A missing name finds nothing.\<close>

theorem registry_lookup_exact:
  "(tcp_shift_cc_find_ops name \<noteq> None \<longleftrightarrow> name = Some ''reno'' \<or> name = Some ''cubic'') \<and>
   (\<forall>ops. tcp_shift_cc_find_ops name = Some ops \<longrightarrow> builtin_name ops = name) \<and>
   tcp_shift_cc_find_ops (Some ''reno'') = Some tcp_shift_cc_default_ops"
  by (auto simp: tcp_shift_cc_find_ops_def tcp_shift_cc_default_ops_def name_equal_iff
      tcp_shift_reno_ops_def tcp_shift_cubic_ops_def)

theorem registry_lookup_exact_witness:
  "builtin_name (Builtin_cubic tcp_shift_cubic_ops) = Some ''cubic'' \<and>
   tcp_shift_cc_find_ops (Some ''bbr'') = None"
  using registry_lookup_exact [of "Some ''cubic''"] registry_lookup_exact [of "Some ''bbr''"]
  by (auto simp: tcp_shift_cubic_ops_def)

end
