(* ===== verification/Observation.thy ===== *)
theory Observation
  imports Prelude
begin

text \<open>
  The RFC 6298 smoothed-RTT estimator of \<^verbatim>\<open>src/cc/observation.c\<close>. The code splits the
  update by the sign of the difference to stay within unsigned arithmetic; the lemmas show
  that both branches compute the single rounded average with weight one eighth.
\<close>

record tcp_shift_cc_srtt =
  srtt_smoothed_rtt_ns :: u64
  srtt_samples :: u64

definition tcp_shift_cc_srtt_init :: "tcp_shift_cc_srtt \<Rightarrow> tcp_shift_cc_srtt" where
  "tcp_shift_cc_srtt_init srtt = srtt\<lparr>srtt_smoothed_rtt_ns := 0, srtt_samples := 0\<rparr>"

definition tcp_shift_cc_srtt_update ::
    "tcp_shift_cc_srtt \<Rightarrow> u64 \<Rightarrow> int \<times> tcp_shift_cc_srtt" where
  "tcp_shift_cc_srtt_update srtt sample_rtt_ns =
    (if sample_rtt_ns = 0 then (-1, srtt)
     else
       let s1 =
         (if srtt_samples srtt = 0 then
            srtt\<lparr>srtt_smoothed_rtt_ns := sample_rtt_ns\<rparr>
          else if sample_rtt_ns \<ge> srtt_smoothed_rtt_ns srtt then
            (let delta = sample_rtt_ns - srtt_smoothed_rtt_ns srtt
             in srtt\<lparr>srtt_smoothed_rtt_ns := srtt_smoothed_rtt_ns srtt + delta div 8\<rparr>)
          else
            (let delta = srtt_smoothed_rtt_ns srtt - sample_rtt_ns;
                 adjustment = delta div 8;
                 adjustment = (if delta mod 8 \<noteq> 0 then adjustment + 1 else adjustment)
             in srtt\<lparr>srtt_smoothed_rtt_ns := srtt_smoothed_rtt_ns srtt - adjustment\<rparr>))
       in (0, if srtt_samples s1 \<noteq> UINT64_MAX
              then s1\<lparr>srtt_samples := srtt_samples s1 + 1\<rparr> else s1))"

lemma srtt_rising:
  fixes old sample :: u64
  assumes "old \<le> sample"
  shows "unat (old + (sample - old) div 8) = (7 * unat old + unat sample) div 8"
proof -
  from assms have le: "unat old \<le> unat sample" by (simp add: to_nat)
  then have d: "unat ((sample - old) div 8) = (unat sample - unat old) div 8"
    by (simp add: unat_div_distrib unat_diff_exact)
  have "unat old + (unat sample - unat old) div 8 \<le> unat sample" using le by linarith
  then have "unat (old + (sample - old) div 8) = unat old + (unat sample - unat old) div 8"
    using d unat_lt_u64 [of sample] by (subst unat_add_exact) simp_all
  also have "\<dots> = (7 * unat old + unat sample) div 8" using le by linarith
  finally show ?thesis .
qed

lemma srtt_falling:
  fixes old sample :: u64
  assumes "sample < old"
  shows "unat (old - (if (old - sample) mod 8 \<noteq> 0 then (old - sample) div 8 + 1
                      else (old - sample) div 8))
    = (7 * unat old + unat sample) div 8" (is "unat (old - ?adj) = _")
proof -
  from assms have lt: "unat sample < unat old" by (simp add: to_nat)
  then have d: "unat (old - sample) = unat old - unat sample" by (simp add: unat_diff_exact)
  have "unat ((old - sample) div 8 + 1) = (unat old - unat sample) div 8 + 1"
    using d unat_lt_u64 [of old] by (subst unat_add_exact) (simp_all add: unat_div_distrib)
  moreover have "(old - sample) mod 8 \<noteq> 0 \<longleftrightarrow> (unat old - unat sample) mod 8 \<noteq> 0"
    using d by (simp add: word_zero_nat unat_mod_distrib)
  ultimately have "unat ?adj = ceil_div (unat old - unat sample) 8"
    using d by (simp add: unat_div_distrib ceil_div_def)
  also have "ceil_div n 8 = (n + 7) div 8" for n
    unfolding ceil_div_def by presburger
  finally have adj: "unat ?adj = (unat old - unat sample + 7) div 8" .
  then have "unat ?adj \<le> unat old" using lt by linarith
  then have "unat (old - ?adj) = unat old - unat ?adj" by (rule unat_diff_exact)
  then show ?thesis using adj lt by linarith
qed

lemma srtt_update_value:
  assumes "tcp_shift_cc_srtt_update srtt sample = (0, srtt')"
  shows "unat (srtt_smoothed_rtt_ns srtt') =
    (if srtt_samples srtt = 0 then unat sample
     else (7 * unat (srtt_smoothed_rtt_ns srtt) + unat sample) div 8)"
  using assms srtt_rising [of "srtt_smoothed_rtt_ns srtt" sample]
    srtt_falling [of sample "srtt_smoothed_rtt_ns srtt"]
  by (auto simp: tcp_shift_cc_srtt_update_def Let_def not_le split: if_splits)

lemma srtt_update_samples:
  assumes "tcp_shift_cc_srtt_update srtt sample = (0, srtt')"
  shows "unat (srtt_samples srtt') = min 18446744073709551615 (unat (srtt_samples srtt) + 1)"
proof -
  have "srtt_samples srtt' =
      (if srtt_samples srtt \<noteq> UINT64_MAX then srtt_samples srtt + 1 else srtt_samples srtt)"
    using assms by (auto simp: tcp_shift_cc_srtt_update_def Let_def split: if_splits)
  then show ?thesis by (simp only: unat_inc_guarded_u64)
qed

fun srtt_run :: "tcp_shift_cc_srtt \<Rightarrow> u64 list \<Rightarrow> tcp_shift_cc_srtt" where
  "srtt_run srtt [] = srtt"
| "srtt_run srtt (x # xs) = srtt_run (snd (tcp_shift_cc_srtt_update srtt x)) xs"

text \<open>The estimate never leaves the range of the samples it was fed.\<close>

lemma srtt_run_within:
  assumes "\<forall>x \<in> set xs. x \<noteq> 0 \<and> lo \<le> unat x \<and> unat x \<le> hi"
    and "srtt_samples srtt = 0 \<or>
      lo \<le> unat (srtt_smoothed_rtt_ns srtt) \<and> unat (srtt_smoothed_rtt_ns srtt) \<le> hi"
    and "xs \<noteq> [] \<or> srtt_samples srtt \<noteq> 0"
  shows "lo \<le> unat (srtt_smoothed_rtt_ns (srtt_run srtt xs)) \<and>
    unat (srtt_smoothed_rtt_ns (srtt_run srtt xs)) \<le> hi"
  using assms
proof (induction xs arbitrary: srtt)
  case Nil
  then show ?case by auto
next
  case (Cons x xs)
  let ?s = "snd (tcp_shift_cc_srtt_update srtt x)"
  have up: "tcp_shift_cc_srtt_update srtt x = (0, ?s)"
    using Cons.prems(1) by (simp add: tcp_shift_cc_srtt_update_def Let_def)
  have "srtt_samples ?s \<noteq> 0"
    using srtt_update_samples [OF up] by (auto simp: word_zero_nat)
  moreover have "lo \<le> unat (srtt_smoothed_rtt_ns ?s) \<and> unat (srtt_smoothed_rtt_ns ?s) \<le> hi"
    using srtt_update_value [OF up] Cons.prems(1,2) by auto
  ultimately show ?case using Cons.prems(1) by (simp add: Cons.IH)
qed

section \<open>Properties\<close>

text \<open>The smoothed RTT is the RFC 6298 average with alpha one eighth, rounded down once:
  an accepted sample moves the estimate to the floor of (7 * SRTT + sample) / 8, with no
  wrap-around on either branch, and the first sample initialises it.\<close>

theorem srtt_update_is_rfc6298:
  assumes "sample \<noteq> 0"
  shows "\<exists>srtt'. tcp_shift_cc_srtt_update srtt sample = (0, srtt') \<and>
    unat (srtt_smoothed_rtt_ns srtt') =
      (if srtt_samples srtt = 0 then unat sample
       else (7 * unat (srtt_smoothed_rtt_ns srtt) + unat sample) div 8) \<and>
    unat (srtt_samples srtt') = min 18446744073709551615 (unat (srtt_samples srtt) + 1)"
proof -
  obtain srtt' where "tcp_shift_cc_srtt_update srtt sample = (0, srtt')"
    using assms by (auto simp: tcp_shift_cc_srtt_update_def Let_def)
  then show ?thesis using srtt_update_value srtt_update_samples by blast
qed

theorem srtt_update_is_rfc6298_witness:
  "\<exists>srtt'. tcp_shift_cc_srtt_update \<lparr>srtt_smoothed_rtt_ns = 800, srtt_samples = 3\<rparr> 401
      = (0, srtt') \<and> unat (srtt_smoothed_rtt_ns srtt') = 750 \<and> unat (srtt_samples srtt') = 4"
  using srtt_update_is_rfc6298 [of 401 "\<lparr>srtt_smoothed_rtt_ns = 800, srtt_samples = 3\<rparr>"]
  by simp

end
