(* ===== verification/Transport_Pacing.thy ===== *)
theory Transport_Pacing
  imports Cc_Core
begin

text \<open>
  The generic pacing fallback for loss-based controllers, \<^verbatim>\<open>src/cc/transport_pacing.c\<close>: the
  rate derived from the window and the smoothed RTT, the bounded batch size, and the rule
  that a controller-owned rate is never overridden.
\<close>

definition TCP_SHIFT_TRANSPORT_PACING_NSEC_PER_SEC :: u64 where
  "TCP_SHIFT_TRANSPORT_PACING_NSEC_PER_SEC = 1000000000"

definition TCP_SHIFT_TRANSPORT_PACING_LINUX_PRE_SRTT_BASE :: u64 where
  "TCP_SHIFT_TRANSPORT_PACING_LINUX_PRE_SRTT_BASE = 8000000"

definition TCP_SHIFT_TRANSPORT_PACING_SS_PERCENT :: u32 where
  "TCP_SHIFT_TRANSPORT_PACING_SS_PERCENT = 200"

definition TCP_SHIFT_TRANSPORT_PACING_CA_PERCENT :: u32 where
  "TCP_SHIFT_TRANSPORT_PACING_CA_PERCENT = 120"

definition TCP_SHIFT_TRANSPORT_PACING_QUANTUM_SHIFT :: nat where
  "TCP_SHIFT_TRANSPORT_PACING_QUANTUM_SHIFT = 10"

definition TCP_SHIFT_TRANSPORT_PACING_MIN_QUANTUM_SEGS :: u32 where
  "TCP_SHIFT_TRANSPORT_PACING_MIN_QUANTUM_SEGS = 2"

definition TCP_SHIFT_TRANSPORT_PACING_MAX_QUANTUM_SEGS :: u32 where
  "TCP_SHIFT_TRANSPORT_PACING_MAX_QUANTUM_SEGS = 16"

lemmas transport_pacing_consts =
  TCP_SHIFT_TRANSPORT_PACING_NSEC_PER_SEC_def TCP_SHIFT_TRANSPORT_PACING_LINUX_PRE_SRTT_BASE_def
  TCP_SHIFT_TRANSPORT_PACING_SS_PERCENT_def TCP_SHIFT_TRANSPORT_PACING_CA_PERCENT_def
  TCP_SHIFT_TRANSPORT_PACING_QUANTUM_SHIFT_def TCP_SHIFT_TRANSPORT_PACING_MIN_QUANTUM_SEGS_def
  TCP_SHIFT_TRANSPORT_PACING_MAX_QUANTUM_SEGS_def

definition tcp_shift_transport_pacing_scale_percent :: "u64 \<Rightarrow> u32 \<Rightarrow> u64" where
  "tcp_shift_transport_pacing_scale_percent value percent =
    (if value = 0 \<or> percent = 0 then 0
     else
       let quotient = value div 100;
           remainder = value mod 100;
           scaled = quotient * u64_of percent + (remainder * u64_of percent) div 100
       in if scaled = 0 then 1 else scaled)"

definition tcp_shift_transport_pacing_window_rate ::
    "tcp_shift_cc_transport \<Rightarrow> tcp_shift_cc_policy \<Rightarrow> u64 \<Rightarrow> u64" where
  "tcp_shift_transport_pacing_window_rate transport policy srtt_ns =
    (let window_bytes =
           (if inflight_bytes transport > cwnd_bytes policy
            then inflight_bytes transport else cwnd_bytes policy)
     in if window_bytes = 0 then 0
        else
          let base_rate =
                (if srtt_ns \<noteq> 0 then
                   (let r = (u64_of window_bytes * TCP_SHIFT_TRANSPORT_PACING_NSEC_PER_SEC)
                              div srtt_ns
                    in if r = 0 then 1 else r)
                 else u64_of window_bytes * TCP_SHIFT_TRANSPORT_PACING_LINUX_PRE_SRTT_BASE);
              percent =
                (if cwnd_bytes policy < ssthresh_bytes policy div 2
                 then TCP_SHIFT_TRANSPORT_PACING_SS_PERCENT
                 else TCP_SHIFT_TRANSPORT_PACING_CA_PERCENT)
          in tcp_shift_transport_pacing_scale_percent base_rate percent)"

definition tcp_shift_transport_pacing_quantum_bytes :: "u64 \<Rightarrow> u32 \<Rightarrow> u32" where
  "tcp_shift_transport_pacing_quantum_bytes pacing_rate mss =
    (if pacing_rate = 0 \<or> mss = 0 then 0
     else
       let target_bytes = drop_bit TCP_SHIFT_TRANSPORT_PACING_QUANTUM_SHIFT pacing_rate;
           segments =
             (if target_bytes div u64_of mss > u64_of UINT32_MAX then UINT32_MAX
              else u32_of (target_bytes div u64_of mss));
           segments =
             (if segments < TCP_SHIFT_TRANSPORT_PACING_MIN_QUANTUM_SEGS
              then TCP_SHIFT_TRANSPORT_PACING_MIN_QUANTUM_SEGS else segments);
           segments =
             (if segments > TCP_SHIFT_TRANSPORT_PACING_MAX_QUANTUM_SEGS
              then TCP_SHIFT_TRANSPORT_PACING_MAX_QUANTUM_SEGS else segments);
           quantum_bytes = u64_of segments * u64_of mss
       in if quantum_bytes > u64_of UINT32_MAX then UINT32_MAX else u32_of quantum_bytes)"

definition tcp_shift_transport_pacing_apply_window_fallback ::
    "tcp_shift_cc_transport \<Rightarrow> u64 \<Rightarrow> u64 \<Rightarrow> tcp_shift_cc_policy \<Rightarrow> int \<times> tcp_shift_cc_policy" where
  "tcp_shift_transport_pacing_apply_window_fallback transport srtt_ns rate_cap policy =
    (if pacing_rate_bytes_per_sec policy \<noteq> 0 then (0, policy)
     else
       let rate = tcp_shift_transport_pacing_window_rate transport policy srtt_ns;
           rate = (if rate_cap \<noteq> 0 \<and> rate > rate_cap then rate_cap else rate)
       in (0, policy\<lparr>pacing_rate_bytes_per_sec := rate\<rparr>))"

section \<open>Arithmetic of the fallback\<close>

lemma unat_scale_percent:
  assumes "unat value * unat percent < 100 * 18446744073709551616"
    and "value \<noteq> 0" "percent \<noteq> 0"
  shows "unat (tcp_shift_transport_pacing_scale_percent value percent) =
    max 1 (unat value * unat percent div 100)"
proof -
  let ?v = "unat value" and ?p = "unat percent"
  have q: "unat (value div 100) = ?v div 100" and r: "unat (value mod 100) = ?v mod 100"
    by (simp_all add: unat_div_distrib unat_mod_distrib)
  have split: "?v * ?p div 100 = ?v div 100 * ?p + ?v mod 100 * ?p div 100"
  proof -
    have "?v * ?p = 100 * (?v div 100 * ?p) + ?v mod 100 * ?p"
      by (metis add_mult_distrib mult.assoc mult_div_mod_eq)
    then show ?thesis by simp
  qed
  have total: "?v * ?p div 100 < 18446744073709551616" using assms(1) by simp
  have qp: "unat (value div 100 * u64_of percent) = ?v div 100 * ?p"
    using split total q by (subst unat_mult_exact) simp_all
  have "?v mod 100 * ?p \<le> 100 * 4294967295" by (intro mult_le_mono) simp_all
  then have rp: "unat (value mod 100 * u64_of percent) = ?v mod 100 * ?p"
    using r by (subst unat_mult_exact) simp_all
  have "unat (value div 100 * u64_of percent + value mod 100 * u64_of percent div 100)
      = ?v * ?p div 100"
    using split total qp rp by (subst unat_add_exact) (simp_all add: unat_div_distrib)
  then show ?thesis
    using assms(2,3)
    by (auto simp: tcp_shift_transport_pacing_scale_percent_def Let_def word_zero_nat max_def)
qed

abbreviation pacing_window :: "tcp_shift_cc_transport \<Rightarrow> tcp_shift_cc_policy \<Rightarrow> nat" where
  "pacing_window t p \<equiv> max (unat (cwnd_bytes p)) (unat (inflight_bytes t))"

abbreviation pacing_percent :: "tcp_shift_cc_policy \<Rightarrow> nat" where
  "pacing_percent p \<equiv> (if unat (cwnd_bytes p) < unat (ssthresh_bytes p) div 2 then 200 else 120)"

lemma unat_window_rate:
  assumes "0 < pacing_window t p"
  shows "unat (tcp_shift_transport_pacing_window_rate t p srtt) =
    max 1 ((if srtt = 0 then pacing_window t p * 8000000
            else max 1 (pacing_window t p * 1000000000 div unat srtt)) * pacing_percent p div 100)"
proof -
  define w where "w = (if inflight_bytes t > cwnd_bytes p then inflight_bytes t else cwnd_bytes p)"
  have w: "unat w = pacing_window t p" by (auto simp: w_def word_less_nat_alt)
  have w0: "w \<noteq> 0" using assms w by (metis unat_0 less_irrefl)
  define pc :: u32 where "pc = (if cwnd_bytes p < ssthresh_bytes p div 2 then 200 else 120)"
  have pc: "unat pc = pacing_percent p" and pc0: "pc \<noteq> 0" and pc_le: "unat pc \<le> 200"
    by (auto simp: pc_def to_nat)
  define b where "b = (if srtt \<noteq> 0 then
      (if u64_of w * 1000000000 div srtt = 0 then 1 else u64_of w * 1000000000 div srtt)
      else u64_of w * 8000000)"
  have w9: "unat (u64_of w * 1000000000) = unat w * 1000000000"
    using unat_lt_u32 [of w] by (subst unat_mult_exact) simp_all
  have w8: "unat (u64_of w * 8000000) = unat w * 8000000"
    using unat_lt_u32 [of w] by (subst unat_mult_exact) simp_all
  have b: "unat b = (if srtt = 0 then unat w * 8000000
      else max 1 (unat w * 1000000000 div unat srtt))"
    by (auto simp: b_def w8 word_zero_nat unat_div_distrib w9 max_def)
  have b0: "b \<noteq> 0" using w0 by (auto simp: word_zero_nat b)
  have "unat w * 1000000000 div unat srtt \<le> unat w * 1000000000" by (rule div_le_dividend)
  also have "\<dots> \<le> 4294967296 * 1000000000" using unat_lt_u32 [of w] by simp
  finally have "unat b \<le> 4294967296 * 1000000000" using unat_lt_u32 [of w] b by auto
  then have "unat b * unat pc \<le> 4294967296 * 1000000000 * 200"
    using pc_le by (rule mult_le_mono)
  then have "unat (tcp_shift_transport_pacing_scale_percent b pc) = max 1 (unat b * unat pc div 100)"
    by (intro unat_scale_percent b0 pc0) linarith
  moreover have "tcp_shift_transport_pacing_window_rate t p srtt
      = tcp_shift_transport_pacing_scale_percent b pc"
    using w0 by (simp add: tcp_shift_transport_pacing_window_rate_def Let_def w_def b_def pc_def
        transport_pacing_consts)
  ultimately show ?thesis by (simp add: b pc w)
qed

lemma unat_quantum_bytes:
  assumes "rate \<noteq> 0" and "mss \<noteq> 0"
  shows "unat (tcp_shift_transport_pacing_quantum_bytes rate mss) =
    min 4294967295 (min 16 (max 2 (unat rate div 1024 div unat mss)) * unat mss)"
proof -
  let ?k = "unat rate div 1024 div unat mss"
  have tgt: "unat (drop_bit 10 rate div u64_of mss) = ?k"
    by (simp add: unat_div_distrib unat_drop_bit)
  define s1 :: u32 where "s1 = (if drop_bit 10 rate div u64_of mss > u64_of UINT32_MAX then UINT32_MAX
      else u32_of (drop_bit 10 rate div u64_of mss))"
  have s1: "unat s1 = min 4294967295 ?k"
    using tgt by (auto simp: s1_def word_less_nat_alt unat_u32_of_small)
  define s2 :: u32 where "s2 = (if s1 < 2 then 2 else s1)"
  define s3 :: u32 where "s3 = (if s2 > 16 then 16 else s2)"
  have s3: "unat s3 = min 16 (max 2 ?k)"
    using s1 by (auto simp: s3_def s2_def word_less_nat_alt)
  have "tcp_shift_transport_pacing_quantum_bytes rate mss =
      (if u64_of s3 * u64_of mss > u64_of UINT32_MAX then UINT32_MAX else u32_of (u64_of s3 * u64_of mss))"
    using assms by (simp add: tcp_shift_transport_pacing_quantum_bytes_def Let_def
        transport_pacing_consts s1_def s2_def s3_def)
  then show ?thesis using s3 by (auto simp: word_less_nat_alt unat_u32_of_small)
qed

section \<open>Properties\<close>

text \<open>The fallback rate is exactly the Linux-shaped formula: 200 or 120 percent (slow start
  or not) of max(cwnd, inflight) per smoothed RTT, or of the fixed pre-SRTT base before the
  first sample, rounded down to whole bytes per second, never wrapping and never zero for a
  non-empty window.\<close>

theorem pacing_window_rate_exact:
  assumes "cwnd_bytes p \<noteq> 0 \<or> inflight_bytes t \<noteq> 0"
  shows "unat (tcp_shift_transport_pacing_window_rate t p srtt) =
    max 1 ((if srtt = 0 then pacing_window t p * 8000000
            else max 1 (pacing_window t p * 1000000000 div unat srtt)) * pacing_percent p div 100)"
  using assms by (intro unat_window_rate) (auto simp: word_zero_nat)

theorem pacing_window_rate_exact_witness:
  "unat (tcp_shift_transport_pacing_window_rate
      \<lparr>mss_bytes = 1460, inflight_bytes = 7000, send_window_bytes = 65535,
       cwnd_limit_bytes = 65535\<rparr>
      \<lparr>cwnd_bytes = 14600, ssthresh_bytes = 65535, pacing_rate_bytes_per_sec = 0\<rparr> 100000000)
    = 292000"
  using pacing_window_rate_exact [of
      "\<lparr>cwnd_bytes = 14600, ssthresh_bytes = 65535, pacing_rate_bytes_per_sec = 0\<rparr>"
      "\<lparr>mss_bytes = 1460, inflight_bytes = 7000, send_window_bytes = 65535,
        cwnd_limit_bytes = 65535\<rparr>" 100000000]
  by simp

text \<open>A controller that publishes a nonzero pacing rate owns it: the fallback then changes
  nothing, whatever the cap. Otherwise the fallback fills in only the rate, with the window
  formula clipped by a nonzero cap.\<close>

theorem pacing_fallback_respects_owner:
  "tcp_shift_transport_pacing_apply_window_fallback t srtt cap p =
    (0, if pacing_rate_bytes_per_sec p \<noteq> 0 then p
        else p\<lparr>pacing_rate_bytes_per_sec :=
               (if cap = 0 then tcp_shift_transport_pacing_window_rate t p srtt
                else min cap (tcp_shift_transport_pacing_window_rate t p srtt))\<rparr>)"
  by (auto simp: tcp_shift_transport_pacing_apply_window_fallback_def Let_def min_def)

end
