(* ===== verification/Prr.thy ===== *)
theory Prr
  imports Prelude
begin

text \<open>
  Proportional Rate Reduction (RFC 9937), \<^verbatim>\<open>src/lwip/prr.c\<close>: the byte credit that regulates
  sending during fast recovery. The division that splits a 64-bit counter before multiplying
  is shown to be the exact rounded-up product; the recovery step relation at the end pairs
  an ACK with sends that stay within the granted credit.
\<close>

record tcp_shift_prr =
  prr_delivered :: u64
  prr_out :: u64
  recover_fs :: u32
  prr_ssthresh :: u32
  prr_active :: bool

record tcp_shift_prr_ack =
  delivered_data :: u32
  prr_inflight :: u32
  smss :: u32
  safe_ack :: bool

record tcp_shift_prr_result =
  sndcnt :: u32
  prr_cwnd :: u32

definition tcp_shift_prr_add_sat_u64 :: "u64 \<Rightarrow> u64 \<Rightarrow> u64" where
  "tcp_shift_prr_add_sat_u64 a b = (if UINT64_MAX - a < b then UINT64_MAX else a + b)"

definition tcp_shift_prr_add_sat_u32 :: "u32 \<Rightarrow> u64 \<Rightarrow> u32" where
  "tcp_shift_prr_add_sat_u32 a b =
    (if b > u64_of (UINT32_MAX - a) then UINT32_MAX else a + u32_of b)"

definition tcp_shift_prr_div_round_up_product :: "u64 \<Rightarrow> u32 \<Rightarrow> u32 \<Rightarrow> u64" where
  "tcp_shift_prr_div_round_up_product value multiplier divisor =
    (if divisor = 0 then UINT64_MAX
     else
       let quotient = value div u64_of divisor;
           remainder = value mod u64_of divisor
       in if quotient > UINT64_MAX div u64_of multiplier then UINT64_MAX
          else
            let scaled_quotient = quotient * u64_of multiplier;
                scaled_remainder = remainder * u64_of multiplier;
                scaled_remainder =
                  scaled_remainder div u64_of divisor +
                  (if scaled_remainder mod u64_of divisor \<noteq> 0 then 1 else 0)
            in tcp_shift_prr_add_sat_u64 scaled_quotient scaled_remainder)"

definition tcp_shift_prr_reset :: "tcp_shift_prr \<Rightarrow> tcp_shift_prr" where
  "tcp_shift_prr_reset prr =
    \<lparr>prr_delivered = 0, prr_out = 0, recover_fs = 0, prr_ssthresh = 0, prr_active = False\<rparr>"

definition tcp_shift_prr_init :: "tcp_shift_prr \<Rightarrow> u32 \<Rightarrow> u32 \<Rightarrow> int \<times> tcp_shift_prr" where
  "tcp_shift_prr_init prr fs ssthresh =
    (if fs = 0 \<or> ssthresh = 0 then (-1, prr)
     else (0, \<lparr>prr_delivered = 0, prr_out = 0, recover_fs = fs, prr_ssthresh = ssthresh,
               prr_active = True\<rparr>))"

text \<open>The body of \<^verbatim>\<open>tcp_shift_prr_on_ack\<close> in three parts: the credit by mode, the forced first
  retransmit with the narrowing to 32 bits, and the handler itself.\<close>

definition prr_credit :: "tcp_shift_prr \<Rightarrow> tcp_shift_prr_ack \<Rightarrow> u64" where
  "prr_credit prr ack =
    (if prr_inflight ack > prr_ssthresh prr then
       (let allowed = tcp_shift_prr_div_round_up_product (prr_delivered prr)
                        (prr_ssthresh prr) (recover_fs prr)
        in if allowed > prr_out prr then allowed - prr_out prr else 0)
     else
       (let delivered_minus_out =
              (if prr_delivered prr > prr_out prr then prr_delivered prr - prr_out prr else 0);
            cnt = (if delivered_minus_out > u64_of (delivered_data ack)
                   then delivered_minus_out else u64_of (delivered_data ack));
            cnt = (if safe_ack ack
                   then tcp_shift_prr_add_sat_u64 cnt (u64_of (smss ack)) else cnt);
            room = (if prr_ssthresh prr > prr_inflight ack
                    then prr_ssthresh prr - prr_inflight ack else 0)
        in if cnt > u64_of room then u64_of room else cnt))"

definition prr_grant :: "tcp_shift_prr \<Rightarrow> tcp_shift_prr_ack \<Rightarrow> u32" where
  "prr_grant prr ack =
    (let credit = prr_credit prr ack;
         credit = (if prr_out prr = 0 \<and> credit = 0 then u64_of (smss ack) else credit)
     in if credit > u64_of UINT32_MAX then UINT32_MAX else u32_of credit)"

definition tcp_shift_prr_on_ack ::
    "tcp_shift_prr \<Rightarrow> tcp_shift_prr_ack \<Rightarrow> tcp_shift_prr_result
      \<Rightarrow> int \<times> tcp_shift_prr \<times> tcp_shift_prr_result" where
  "tcp_shift_prr_on_ack prr ack result =
    (if \<not> prr_active prr \<or> recover_fs prr = 0 \<or> prr_ssthresh prr = 0 \<or> smss ack = 0
     then (-1, prr, result)
     else
       let result = result\<lparr>sndcnt := 0, prr_cwnd := prr_inflight ack\<rparr>
       in if delivered_data ack = 0 then (0, prr, result)
          else
            let prr = prr\<lparr>prr_delivered :=
                  tcp_shift_prr_add_sat_u64 (prr_delivered prr) (u64_of (delivered_data ack))\<rparr>;
                granted = prr_grant prr ack
            in (0, prr, result\<lparr>sndcnt := granted,
                   prr_cwnd := tcp_shift_prr_add_sat_u32 (prr_inflight ack) (u64_of granted)\<rparr>))"

definition tcp_shift_prr_on_send :: "tcp_shift_prr \<Rightarrow> u32 \<Rightarrow> int \<times> tcp_shift_prr" where
  "tcp_shift_prr_on_send prr sent_bytes =
    (if \<not> prr_active prr \<or> sent_bytes = 0 then (-1, prr)
     else (0, prr\<lparr>prr_out := tcp_shift_prr_add_sat_u64 (prr_out prr) (u64_of sent_bytes)\<rparr>))"

definition tcp_shift_prr_complete :: "tcp_shift_prr \<Rightarrow> u32 \<Rightarrow> int \<times> tcp_shift_prr \<times> u32" where
  "tcp_shift_prr_complete prr cwnd =
    (if \<not> prr_active prr \<or> prr_ssthresh prr = 0 then (-1, prr, cwnd)
     else (0, tcp_shift_prr_reset prr, prr_ssthresh prr))"

section \<open>Arithmetic\<close>

interpretation prr_sat: saturating_add tcp_shift_prr_add_sat_u64
  by unfold_locales (simp add: tcp_shift_prr_add_sat_u64_def unat_add_guarded_u64)

lemma unat_prr_add_sat_u32:
  "unat (tcp_shift_prr_add_sat_u32 a b) = min 4294967295 (unat a + unat b)"
proof (cases "b > u64_of (UINT32_MAX - a)")
  case True
  then show ?thesis by (auto simp: tcp_shift_prr_add_sat_u32_def word_less_nat_alt unat_diff_exact)
next
  case False
  then have "unat a + unat b \<le> 4294967295"
    using unat_lt_u32 [of a] by (simp add: word_less_nat_alt unat_diff_exact)
  then have "unat (a + u32_of b) = unat a + unat b"
    by (subst unat_add_exact) (simp_all add: unat_u32_of_small)
  with False \<open>unat a + unat b \<le> 4294967295\<close> show ?thesis
    by (simp add: tcp_shift_prr_add_sat_u32_def)
qed

text \<open>The split division is the exact rounded-up quotient of the product, saturated.\<close>

lemma unat_div_round_up_product:
  assumes "multiplier \<noteq> 0" and "divisor \<noteq> 0"
  shows "unat (tcp_shift_prr_div_round_up_product value multiplier divisor) =
    min 18446744073709551615 (ceil_div (unat value * unat multiplier) (unat divisor))"
proof -
  let ?v = "unat value" and ?m = "unat multiplier" and ?d = "unat divisor"
  have m0: "0 < ?m" and d0: "0 < ?d" using assms by (simp_all add: word_zero_nat)
  have q: "unat (value div u64_of divisor) = ?v div ?d"
    and r: "unat (value mod u64_of divisor) = ?v mod ?d"
    by (simp_all add: unat_div_distrib unat_mod_distrib)
  have exact: "ceil_div (?v * ?m) ?d = ?v div ?d * ?m + ceil_div (?v mod ?d * ?m) ?d"
    using ceil_div_add_mult [OF d0, of "?v div ?d * ?m" "?v mod ?d * ?m"]
    by (simp only: mult_split_div [of ?v ?m ?d, symmetric])
  have guard: "value div u64_of divisor > UINT64_MAX div u64_of multiplier \<longleftrightarrow>
      18446744073709551615 < ?v div ?d * ?m"
    using m0 q by (simp add: word_less_nat_alt unat_div_distrib div_less_iff_less_mult)
  show ?thesis
  proof (cases "18446744073709551615 < ?v div ?d * ?m")
    case True
    then show ?thesis using guard exact assms
      by (simp add: tcp_shift_prr_div_round_up_product_def)
  next
    case False
    have "?v mod ?d \<le> 4294967295" and dm: "?v mod ?d < ?d"
      using d0 unat_lt_u32 [of divisor] mod_less_divisor [OF d0, of ?v] by linarith+
    then have "?v mod ?d * ?m \<le> 4294967295 * 4294967295" by (intro mult_le_mono) simp_all
    then have rm: "unat (value mod u64_of divisor * u64_of multiplier) = ?v mod ?d * ?m"
      using r by (subst unat_mult_exact) simp_all
    have qm: "unat (value div u64_of divisor * u64_of multiplier) = ?v div ?d * ?m"
      using q False by (subst unat_mult_exact) simp_all
    define sr where "sr = value mod u64_of divisor * u64_of multiplier"
    have "?v mod ?d * ?m div ?d \<le> 4294967295"
    proof -
      have "?v mod ?d * ?m \<le> ?d * 4294967295" using dm by (intro mult_le_mono) simp_all
      then have "?v mod ?d * ?m div ?d \<le> ?d * 4294967295 div ?d" by (rule div_le_mono)
      then show ?thesis using d0 by simp
    qed
    then have "unat (sr div u64_of divisor + (if sr mod u64_of divisor \<noteq> 0 then 1 else 0))
        = ceil_div (?v mod ?d * ?m) ?d"
      using rm by (subst unat_add_exact)
        (auto simp: sr_def unat_div_distrib unat_mod_distrib ceil_div_def word_zero_nat)
    then show ?thesis using guard False exact assms qm
      by (simp add: tcp_shift_prr_div_round_up_product_def Let_def sr_def prr_sat.unat_sat)
  qed
qed

section \<open>Credit granted by one ACK\<close>

definition prr_ready :: "tcp_shift_prr \<Rightarrow> tcp_shift_prr_ack \<Rightarrow> bool" where
  "prr_ready prr ack \<longleftrightarrow>
     prr_active prr \<and> recover_fs prr \<noteq> 0 \<and> prr_ssthresh prr \<noteq> 0 \<and> smss ack \<noteq> 0"

definition prr_after_delivery :: "tcp_shift_prr \<Rightarrow> tcp_shift_prr_ack \<Rightarrow> tcp_shift_prr" where
  "prr_after_delivery prr ack = prr\<lparr>prr_delivered :=
     tcp_shift_prr_add_sat_u64 (prr_delivered prr) (u64_of (delivered_data ack))\<rparr>"

definition prr_share :: "tcp_shift_prr \<Rightarrow> nat" where
  "prr_share prr =
     ceil_div (unat (prr_delivered prr) * unat (prr_ssthresh prr)) (unat (recover_fs prr))"

lemma prr_on_ack_not_ready:
  "\<not> prr_ready prr ack \<Longrightarrow> tcp_shift_prr_on_ack prr ack r = (-1, prr, r)"
  by (auto simp: tcp_shift_prr_on_ack_def prr_ready_def)

lemma prr_on_ack_no_delivery:
  "prr_ready prr ack \<Longrightarrow> delivered_data ack = 0 \<Longrightarrow>
    tcp_shift_prr_on_ack prr ack r = (0, prr, r\<lparr>sndcnt := 0, prr_cwnd := prr_inflight ack\<rparr>)"
  by (simp add: tcp_shift_prr_on_ack_def prr_ready_def Let_def)

lemma prr_on_ack_delivery:
  assumes "prr_ready prr ack" and "delivered_data ack \<noteq> 0"
    and "tcp_shift_prr_on_ack prr ack r = (rc, prr', r')"
  shows "rc = 0" and "prr' = prr_after_delivery prr ack" and "sndcnt r' = prr_grant prr' ack"
    and "prr_cwnd r' = tcp_shift_prr_add_sat_u32 (prr_inflight ack) (u64_of (sndcnt r'))"
  using assms by (auto simp: tcp_shift_prr_on_ack_def prr_ready_def prr_after_delivery_def Let_def)

lemma unat_prr_grant:
  "unat (prr_grant prr ack) = min 4294967295
    (if prr_out prr = 0 \<and> prr_credit prr ack = 0 then unat (smss ack)
     else unat (prr_credit prr ack))"
  using unat_lt_u32 [of "smss ack"]
  by (auto simp: prr_grant_def Let_def word_less_nat_alt unat_u32_of_small)

lemma prr_after_delivery_frame [simp]:
  "prr_out (prr_after_delivery prr ack) = prr_out prr"
  "prr_ssthresh (prr_after_delivery prr ack) = prr_ssthresh prr"
  "recover_fs (prr_after_delivery prr ack) = recover_fs prr"
  "prr_active (prr_after_delivery prr ack) = prr_active prr"
  by (simp_all add: prr_after_delivery_def)

lemma prr_share_pos:
  assumes "prr_ready prr ack" and "delivered_data ack \<noteq> 0"
  shows "0 < prr_share (prr_after_delivery prr ack)"
proof -
  have "0 < unat (prr_delivered (prr_after_delivery prr ack))"
    using assms(2) by (auto simp: prr_after_delivery_def prr_sat.unat_sat word_zero_nat)
  then have "0 < unat (prr_delivered (prr_after_delivery prr ack)) * unat (prr_ssthresh prr)"
    using assms(1) by (simp add: prr_ready_def word_zero_nat)
  then show ?thesis
    using assms(1) ceil_div_eq_0_iff [of "unat (recover_fs prr)"
        "unat (prr_delivered (prr_after_delivery prr ack)) * unat (prr_ssthresh prr)"]
    by (simp add: prr_share_def prr_after_delivery_def prr_ready_def word_zero_nat)
qed

lemma unat_prr_credit_proportional:
  assumes "prr_ready prr ack" and "prr_inflight ack > prr_ssthresh prr"
  shows "unat (prr_credit prr ack) =
    min 18446744073709551615 (prr_share prr) - unat (prr_out prr)"
proof -
  define al where
    "al = tcp_shift_prr_div_round_up_product (prr_delivered prr) (prr_ssthresh prr) (recover_fs prr)"
  have al: "unat al = min 18446744073709551615 (prr_share prr)"
    using assms(1) unat_div_round_up_product by (simp add: al_def prr_ready_def prr_share_def)
  have "prr_credit prr ack = (if al > prr_out prr then al - prr_out prr else 0)"
    using assms(2) by (simp add: prr_credit_def Let_def al_def)
  then show ?thesis by (auto simp: al [symmetric] word_less_nat_alt unat_diff_exact)
qed

lemma unat_prr_credit_bounded:
  assumes "prr_inflight ack \<le> prr_ssthresh prr"
  shows "unat (prr_credit prr ack) =
    min (unat (prr_ssthresh prr) - unat (prr_inflight ack)) (min 18446744073709551615
      (max (unat (prr_delivered prr) - unat (prr_out prr)) (unat (delivered_data ack)) +
       (if safe_ack ack then unat (smss ack) else 0)))"
proof -
  define dmo where
    "dmo = (if prr_delivered prr > prr_out prr then prr_delivered prr - prr_out prr else 0)"
  define c1 where
    "c1 = (if dmo > u64_of (delivered_data ack) then dmo else u64_of (delivered_data ack))"
  define c2 where
    "c2 = (if safe_ack ack then tcp_shift_prr_add_sat_u64 c1 (u64_of (smss ack)) else c1)"
  define room where "room = (if prr_ssthresh prr > prr_inflight ack
      then prr_ssthresh prr - prr_inflight ack else 0)"
  have "unat dmo = unat (prr_delivered prr) - unat (prr_out prr)"
    by (auto simp: dmo_def word_less_nat_alt unat_diff_exact)
  then have c1: "unat c1 =
      max (unat (prr_delivered prr) - unat (prr_out prr)) (unat (delivered_data ack))"
    by (auto simp: c1_def word_less_nat_alt)
  have c2: "unat c2 =
      min 18446744073709551615 (unat c1 + (if safe_ack ack then unat (smss ack) else 0))"
    using unat_lt_u64 [of c1] by (auto simp: c2_def prr_sat.unat_sat)
  have room: "unat room = unat (prr_ssthresh prr) - unat (prr_inflight ack)"
    by (auto simp: room_def word_less_nat_alt unat_diff_exact)
  have "prr_credit prr ack = (if c2 > u64_of room then u64_of room else c2)"
    using assms unfolding prr_credit_def Let_def c2_def c1_def dmo_def room_def
    by (simp only: if_False not_less [symmetric] simp_thms)
  then show ?thesis by (auto simp: c1 [symmetric] c2 [symmetric] room [symmetric] word_less_nat_alt)
qed

section \<open>Recovery as a sequence of steps\<close>

text \<open>
  The proportional phase of one recovery: ACKs that find more than \<^verbatim>\<open>ssthresh\<close> in flight, and
  transmissions that stay within the credit of the last ACK. The last argument is the credit
  still unused.
\<close>

inductive prr_recovery :: "tcp_shift_prr \<Rightarrow> nat \<Rightarrow> bool" where
  start: "tcp_shift_prr_init prr0 fs ssthresh = (0, prr) \<Longrightarrow> prr_recovery prr 0"
| ack: "prr_recovery prr credit \<Longrightarrow> prr_inflight a > prr_ssthresh prr \<Longrightarrow>
    tcp_shift_prr_on_ack prr a r = (0, prr', r') \<Longrightarrow> prr_recovery prr' (unat (sndcnt r'))"
| send: "prr_recovery prr credit \<Longrightarrow> unat bytes \<le> credit \<Longrightarrow>
    tcp_shift_prr_on_send prr bytes = (0, prr') \<Longrightarrow> prr_recovery prr' (credit - unat bytes)"

lemma prr_share_mono:
  assumes "prr_ready prr a"
  shows "prr_share prr \<le> prr_share (prr_after_delivery prr a)"
proof -
  have "prr_delivered prr \<le> prr_delivered (prr_after_delivery prr a)"
    by (simp add: prr_after_delivery_def prr_sat.sat_ge_left)
  then show ?thesis
    by (simp add: prr_share_def prr_after_delivery_def word_le_nat_alt ceil_div_mono)
qed

lemma prr_recovery_share:
  "prr_recovery prr credit \<Longrightarrow> unat (prr_out prr) + credit \<le> prr_share prr"
proof (induction rule: prr_recovery.induct)
  case (start prr0 fs ssthresh prr)
  then show ?case by (auto simp: tcp_shift_prr_init_def split: if_splits)
next
  case (ack prr credit a r prr' r')
  have ready: "prr_ready prr a"
    using ack.hyps(3) prr_on_ack_not_ready [of prr a r] by auto
  show ?case
  proof (cases "delivered_data a = 0")
    case True
    then show ?thesis using ack prr_on_ack_no_delivery [OF ready True, of r] by auto
  next
    case False
    note step = prr_on_ack_delivery [OF ready False ack.hyps(3)]
    have "prr_ready prr' a" and "prr_inflight a > prr_ssthresh prr'"
      using ready ack.hyps(2) by (simp_all add: step(2) prr_ready_def)
    then have c: "unat (prr_credit prr' a)
        = min 18446744073709551615 (prr_share prr') - unat (prr_out prr')"
      by (rule unat_prr_credit_proportional)
    moreover have "\<not> (prr_out prr' = 0 \<and> prr_credit prr' a = 0)"
      using prr_share_pos [OF ready False] c by (auto simp: step(2) word_zero_nat)
    ultimately have "unat (sndcnt r') \<le> prr_share prr' - unat (prr_out prr')"
      by (auto simp: step(3) unat_prr_grant)
    then show ?thesis using ack.IH prr_share_mono [OF ready] by (simp add: step(2))
  qed
next
  case (send prr credit bytes prr')
  then have "prr_share prr' = prr_share prr"
    and "unat (prr_out prr') \<le> unat (prr_out prr) + unat bytes"
    by (auto simp: tcp_shift_prr_on_send_def prr_share_def prr_sat.unat_sat split: if_splits)
  with send show ?case by simp
qed

section \<open>Properties\<close>



text \<open>Below ssthresh the credit is bounded by the remaining room and is never withheld:
  an ACK that delivers data while no more than ssthresh is in flight raises the window to at
  most ssthresh, or grants exactly one forced segment when nothing has been sent in this
  recovery yet; and it always grants something when room is left or nothing was sent.\<close>

theorem prr_window_below_ssthresh:
  assumes "prr_ready prr a" and "delivered_data a \<noteq> 0" and "prr_inflight a \<le> prr_ssthresh prr"
    and "tcp_shift_prr_on_ack prr a r = (rc, prr', r')"
  shows "rc = 0 \<and>
    (prr_cwnd r' \<le> prr_ssthresh prr \<or> prr_out prr = 0 \<and> sndcnt r' = smss a) \<and>
    (prr_inflight a < prr_ssthresh prr \<or> prr_out prr = 0 \<longrightarrow> 0 < sndcnt r')"
proof -
  note step = prr_on_ack_delivery [OF assms(1,2,4)]
  let ?room = "unat (prr_ssthresh prr) - unat (prr_inflight a)"
  have le: "unat (prr_inflight a) \<le> unat (prr_ssthresh prr)" using assms(3) by (simp add: word_le_nat_alt)
  have "0 < unat (delivered_data a)" and smss: "0 < unat (smss a)"
    using assms(1,2) by (simp_all add: prr_ready_def word_zero_nat)
  moreover have "prr_inflight a \<le> prr_ssthresh prr'" using assms(3) by (simp add: step(2))
  ultimately have credit: "unat (prr_credit prr' a) \<le> ?room" "0 < ?room \<Longrightarrow> 0 < unat (prr_credit prr' a)"
    by (auto simp: unat_prr_credit_bounded step(2) less_max_iff_disj)
  show ?thesis
  proof (cases "prr_out prr = 0 \<and> prr_credit prr' a = 0")
    case True
    then have "sndcnt r' = smss a"
      using unat_lt_u32 [of "smss a"] by (simp add: step word_unat_eq_iff unat_prr_grant)
    then show ?thesis using True smss step(1) by (simp add: word_less_nat_alt)
  next
    case False
    then have n: "unat (sndcnt r') = unat (prr_credit prr' a)"
      using credit(1) unat_lt_u32 [of "prr_ssthresh prr"] by (auto simp: step unat_prr_grant)
    have "unat (prr_cwnd r') \<le> unat (prr_inflight a) + unat (sndcnt r')"
      by (simp add: step(4) unat_prr_add_sat_u32)
    then have "prr_cwnd r' \<le> prr_ssthresh prr" using n credit(1) le by (simp add: word_le_nat_alt)
    moreover have "0 < unat (sndcnt r')" if "prr_inflight a < prr_ssthresh prr \<or> prr_out prr = 0"
      using that False n credit(2) by (auto simp: step(2) word_less_nat_alt word_zero_nat)
    ultimately show ?thesis using step(1) by (simp add: word_less_nat_alt)
  qed
qed

theorem prr_window_below_ssthresh_witness:
  "\<exists>rc prr' r'. tcp_shift_prr_on_ack
      \<lparr>prr_delivered = 0, prr_out = 0, recover_fs = 20000, prr_ssthresh = 10000, prr_active = True\<rparr>
      \<lparr>delivered_data = 1000, prr_inflight = 9500, smss = 1000, safe_ack = True\<rparr>
      \<lparr>sndcnt = 0, prr_cwnd = 0\<rparr> = (rc, prr', r') \<and> rc = 0 \<and> 0 < sndcnt r'"
proof -
  let ?prr = "\<lparr>prr_delivered = 0, prr_out = 0, recover_fs = 20000, prr_ssthresh = 10000, prr_active = True\<rparr>"
  let ?a = "\<lparr>delivered_data = 1000, prr_inflight = 9500, smss = 1000, safe_ack = True\<rparr>"
  obtain rc prr' r' where step:
    "tcp_shift_prr_on_ack ?prr ?a \<lparr>sndcnt = 0, prr_cwnd = 0\<rparr> = (rc, prr', r')"
    by (cases "tcp_shift_prr_on_ack ?prr ?a \<lparr>sndcnt = 0, prr_cwnd = 0\<rparr>")
  have "prr_ready ?prr ?a" by (simp add: prr_ready_def)
  from prr_window_below_ssthresh [OF this _ _ step] step show ?thesis by simp
qed

end
