(* ===== verification/Flow_Pacer.thy ===== *)
theory Flow_Pacer
  imports Prelude
begin

text \<open>
  The per-flow pacing clock of \<^verbatim>\<open>src/runtime/pacer.h\<close> and \<^verbatim>\<open>src/runtime/pacer.c\<close>: the virtual
  send time, the bounded batching allowance (quantum) and the bounded catch-up credit. The
  main result is a conformance bound: whatever the sequence of eligible sends, the bytes sent
  in an interval exceed rate times time only by the catch-up credit and one allowance.
\<close>

record tcp_shift_flow_pacer =
  rate_bytes_per_sec :: u64
  next_send_ns :: u64
  max_catch_up_bytes :: u32
  quantum_bytes :: u32
  quantum_remaining_bytes :: u32
  tx_events :: u64
  tx_bytes :: u64
  catch_up_clamps :: u64
  quantum_grants :: u64

definition TCP_SHIFT_PACER_NSEC_PER_SEC :: u64 where
  "TCP_SHIFT_PACER_NSEC_PER_SEC = 1000000000"

definition tcp_shift_flow_pacer_spacing_ns :: "u32 \<Rightarrow> u64 \<Rightarrow> u64" where
  "tcp_shift_flow_pacer_spacing_ns bytes rate_bps =
    (if bytes = 0 \<or> rate_bps = 0 then 0
     else
       let numerator = u64_of bytes * TCP_SHIFT_PACER_NSEC_PER_SEC;
           spacing = numerator div rate_bps;
           spacing = (if numerator mod rate_bps \<noteq> 0 then spacing + 1 else spacing)
       in if spacing = 0 then 1 else spacing)"

definition tcp_shift_flow_pacer_add_sat :: "u64 \<Rightarrow> u64 \<Rightarrow> u64" where
  "tcp_shift_flow_pacer_add_sat left right =
    (if right > UINT64_MAX - left then UINT64_MAX else left + right)"

text \<open>\<^verbatim>\<open>memset(flow, 0, sizeof(*flow))\<close>.\<close>

definition flow_pacer_zero :: tcp_shift_flow_pacer where
  "flow_pacer_zero =
    \<lparr>rate_bytes_per_sec = 0, next_send_ns = 0, max_catch_up_bytes = 0, quantum_bytes = 0,
     quantum_remaining_bytes = 0, tx_events = 0, tx_bytes = 0, catch_up_clamps = 0,
     quantum_grants = 0\<rparr>"

definition tcp_shift_flow_pacer_init :: "tcp_shift_flow_pacer \<Rightarrow> u32 \<Rightarrow> tcp_shift_flow_pacer" where
  "tcp_shift_flow_pacer_init flow catch_up = flow_pacer_zero\<lparr>max_catch_up_bytes := catch_up\<rparr>"

definition tcp_shift_flow_pacer_reset :: "tcp_shift_flow_pacer \<Rightarrow> tcp_shift_flow_pacer" where
  "tcp_shift_flow_pacer_reset flow =
    (let catch_up = max_catch_up_bytes flow in flow_pacer_zero\<lparr>max_catch_up_bytes := catch_up\<rparr>)"

definition tcp_shift_flow_pacer_set_rate ::
    "tcp_shift_flow_pacer \<Rightarrow> u64 \<Rightarrow> tcp_shift_flow_pacer" where
  "tcp_shift_flow_pacer_set_rate flow rate_bps =
    (let flow = flow\<lparr>rate_bytes_per_sec := rate_bps\<rparr>
     in if rate_bps = 0 then flow\<lparr>next_send_ns := 0\<rparr> else flow)"

definition tcp_shift_flow_pacer_set_quantum ::
    "tcp_shift_flow_pacer \<Rightarrow> u32 \<Rightarrow> tcp_shift_flow_pacer" where
  "tcp_shift_flow_pacer_set_quantum flow quantum =
    (if quantum_bytes flow = quantum then flow
     else flow\<lparr>quantum_bytes := quantum, quantum_remaining_bytes := 0\<rparr>)"

definition tcp_shift_flow_pacer_set_rate_quantum ::
    "tcp_shift_flow_pacer \<Rightarrow> u64 \<Rightarrow> u32 \<Rightarrow> tcp_shift_flow_pacer" where
  "tcp_shift_flow_pacer_set_rate_quantum flow rate_bps quantum =
    (let rate_changed = (rate_bytes_per_sec flow \<noteq> rate_bps);
         flow = tcp_shift_flow_pacer_set_rate flow rate_bps;
         flow = (if rate_changed \<or> quantum_bytes flow \<noteq> quantum
                 then flow\<lparr>quantum_remaining_bytes := 0\<rparr> else flow)
     in flow\<lparr>quantum_bytes := quantum\<rparr>)"

text \<open>The result code, the new state and \<^verbatim>\<open>*deadline_ns\<close>.\<close>

definition tcp_shift_flow_pacer_segment_eligible ::
    "tcp_shift_flow_pacer \<Rightarrow> u64 \<Rightarrow> u32 \<Rightarrow> u64 \<Rightarrow> int \<times> tcp_shift_flow_pacer \<times> u64" where
  "tcp_shift_flow_pacer_segment_eligible flow now_ns bytes deadline_ns =
    (if now_ns = 0 \<or> bytes = 0 then (-1, flow, deadline_ns)
     else if rate_bytes_per_sec flow = 0 then (1, flow, 0)
     else if quantum_remaining_bytes flow \<ge> bytes then
       (1, flow\<lparr>quantum_remaining_bytes := quantum_remaining_bytes flow - bytes\<rparr>, 0)
     else
       let flow = flow\<lparr>quantum_remaining_bytes := 0\<rparr>
       in if next_send_ns flow \<noteq> 0 \<and> next_send_ns flow > now_ns then (0, flow, next_send_ns flow)
          else
            let allowance = (if quantum_bytes flow < bytes then bytes else quantum_bytes flow)
            in (1, flow\<lparr>quantum_remaining_bytes := allowance - bytes,
                        quantum_grants := quantum_grants flow + 1\<rparr>, 0))"

definition tcp_shift_flow_pacer_deadline :: "tcp_shift_flow_pacer \<Rightarrow> u64 \<Rightarrow> u64" where
  "tcp_shift_flow_pacer_deadline flow now_ns =
    (if rate_bytes_per_sec flow = 0 \<or> next_send_ns flow = 0 \<or> next_send_ns flow \<le> now_ns
     then 0 else next_send_ns flow)"

definition tcp_shift_flow_pacer_note_tx ::
    "tcp_shift_flow_pacer \<Rightarrow> u64 \<Rightarrow> u32 \<Rightarrow> int \<times> tcp_shift_flow_pacer" where
  "tcp_shift_flow_pacer_note_tx flow now_ns bytes =
    (if now_ns = 0 \<or> bytes = 0 then (-1, flow)
     else if rate_bytes_per_sec flow = 0 then (0, flow\<lparr>next_send_ns := 0\<rparr>)
     else
       let spacing_ns = tcp_shift_flow_pacer_spacing_ns bytes (rate_bytes_per_sec flow)
       in if spacing_ns = 0 then (-1, flow)
          else
            let base_ns = next_send_ns flow;
                (base_ns, flow) =
                  (if base_ns = 0 then (now_ns, flow)
                   else if base_ns < now_ns then
                     (let catch_up_ns = tcp_shift_flow_pacer_spacing_ns (max_catch_up_bytes flow)
                                          (rate_bytes_per_sec flow);
                          floor_ns = (if catch_up_ns < now_ns then now_ns - catch_up_ns else 0)
                      in if base_ns < floor_ns
                         then (floor_ns, flow\<lparr>catch_up_clamps := catch_up_clamps flow + 1\<rparr>)
                         else (base_ns, flow))
                   else (base_ns, flow))
            in (0, flow\<lparr>next_send_ns := tcp_shift_flow_pacer_add_sat base_ns spacing_ns,
                        tx_events := tx_events flow + 1,
                        tx_bytes := tcp_shift_flow_pacer_add_sat (tx_bytes flow) (u64_of bytes)\<rparr>))"

section \<open>Spacing\<close>

interpretation flow_sat: saturating_add tcp_shift_flow_pacer_add_sat
  by unfold_locales (simp add: tcp_shift_flow_pacer_add_sat_def unat_add_guarded_u64)

lemma unat_spacing:
  assumes "bytes \<noteq> 0" and "rate \<noteq> 0"
  shows "unat (tcp_shift_flow_pacer_spacing_ns bytes rate) =
    ceil_div (unat bytes * 1000000000) (unat rate)"
proof -
  let ?n = "unat bytes * 1000000000"
  have num: "unat (u64_of bytes * 1000000000) = ?n"
    using unat_lt_u32 [of bytes] by (subst unat_mult_exact) simp_all
  define sp where "sp = (if u64_of bytes * 1000000000 mod rate \<noteq> 0
      then u64_of bytes * 1000000000 div rate + 1 else u64_of bytes * 1000000000 div rate)"
  have "?n div unat rate < 18446744073709551615"
    using div_le_dividend [of ?n "unat rate"] unat_lt_u32 [of bytes] by linarith
  then have "unat (u64_of bytes * 1000000000 div rate + 1) = ?n div unat rate + 1"
    using num by (subst unat_add_exact) (simp_all add: unat_div_distrib)
  then have sp: "unat sp = ceil_div ?n (unat rate)"
    using num by (simp add: sp_def ceil_div_def unat_div_distrib unat_mod_distrib word_zero_nat)
  have "0 < unat rate" and "0 < ?n" using assms by (simp_all add: word_zero_nat)
  then have "sp \<noteq> 0" using sp ceil_div_eq_0_iff [of "unat rate" ?n] by (simp add: word_zero_nat)
  then show ?thesis using assms sp
    by (simp add: tcp_shift_flow_pacer_spacing_ns_def TCP_SHIFT_PACER_NSEC_PER_SEC_def Let_def sp_def)
qed

lemma spacing_covers:
  assumes "rate \<noteq> 0"
  shows "unat bytes * 1000000000 \<le> unat (tcp_shift_flow_pacer_spacing_ns bytes rate) * unat rate"
proof (cases "bytes = 0")
  case False
  then show ?thesis using assms ceil_div_ge [of "unat rate" "unat bytes * 1000000000"]
    by (simp add: unat_spacing word_zero_nat)
qed simp

lemma spacing_pos:
  assumes "bytes \<noteq> 0" and "rate \<noteq> 0"
  shows "tcp_shift_flow_pacer_spacing_ns bytes rate \<noteq> 0"
  by (auto simp: tcp_shift_flow_pacer_spacing_ns_def Let_def assms)

section \<open>One transmission\<close>

text \<open>The point from which a transmission at time \<open>now_ns\<close> advances the virtual clock.\<close>

definition catch_up_ns :: "tcp_shift_flow_pacer \<Rightarrow> u64" where
  "catch_up_ns flow =
    tcp_shift_flow_pacer_spacing_ns (max_catch_up_bytes flow) (rate_bytes_per_sec flow)"

definition pacer_base :: "tcp_shift_flow_pacer \<Rightarrow> u64 \<Rightarrow> nat" where
  "pacer_base flow now_ns =
    (if next_send_ns flow = 0 then unat now_ns
     else max (unat (next_send_ns flow)) (unat now_ns - unat (catch_up_ns flow)))"

lemma note_tx_paced:
  assumes "now \<noteq> 0" and "bytes \<noteq> 0" and "rate_bytes_per_sec flow \<noteq> 0"
    and "tcp_shift_flow_pacer_note_tx flow now bytes = (rc, flow')"
  shows "rc = 0" and "unat (next_send_ns flow') = min 18446744073709551615 (pacer_base flow now +
      unat (tcp_shift_flow_pacer_spacing_ns bytes (rate_bytes_per_sec flow)))"
    and "rate_bytes_per_sec flow' = rate_bytes_per_sec flow"
    and "max_catch_up_bytes flow' = max_catch_up_bytes flow"
    and "quantum_bytes flow' = quantum_bytes flow"
    and "quantum_remaining_bytes flow' = quantum_remaining_bytes flow"
proof -
  let ?sp = "tcp_shift_flow_pacer_spacing_ns bytes (rate_bytes_per_sec flow)"
  define fl where "fl = (if catch_up_ns flow < now then now - catch_up_ns flow else 0)"
  have fl: "unat fl = unat now - unat (catch_up_ns flow)"
    by (auto simp: fl_def word_less_nat_alt unat_diff_exact)
  define base where "base = (if next_send_ns flow = 0 then now
      else if next_send_ns flow < now \<and> next_send_ns flow < fl then fl else next_send_ns flow)"
  have base: "unat base = pacer_base flow now"
    by (auto simp: base_def pacer_base_def fl word_less_nat_alt)
  have "?sp \<noteq> 0" using assms(2,3) by (rule spacing_pos)
  then have step: "rc = 0 \<and> next_send_ns flow' = tcp_shift_flow_pacer_add_sat base ?sp \<and>
      rate_bytes_per_sec flow' = rate_bytes_per_sec flow \<and>
      max_catch_up_bytes flow' = max_catch_up_bytes flow \<and>
      quantum_bytes flow' = quantum_bytes flow \<and>
      quantum_remaining_bytes flow' = quantum_remaining_bytes flow"
    using assms unfolding base_def fl_def catch_up_ns_def
    by (auto simp: tcp_shift_flow_pacer_note_tx_def Let_def split: if_splits)
  then show "rc = 0" and "unat (next_send_ns flow') =
      min 18446744073709551615 (pacer_base flow now + unat ?sp)"
    and "rate_bytes_per_sec flow' = rate_bytes_per_sec flow"
    and "max_catch_up_bytes flow' = max_catch_up_bytes flow"
    and "quantum_bytes flow' = quantum_bytes flow"
    and "quantum_remaining_bytes flow' = quantum_remaining_bytes flow"
    by (simp_all add: flow_sat.unat_sat base)
qed

lemma eligible_cases:
  assumes "tcp_shift_flow_pacer_segment_eligible flow now bytes d = (1, flow', d')"
    and "rate_bytes_per_sec flow \<noteq> 0"
  obtains (credit) "now \<noteq> 0" "bytes \<noteq> 0"
      "unat (quantum_remaining_bytes flow') + unat bytes = unat (quantum_remaining_bytes flow)"
      "next_send_ns flow' = next_send_ns flow" "rate_bytes_per_sec flow' = rate_bytes_per_sec flow"
      "max_catch_up_bytes flow' = max_catch_up_bytes flow" "quantum_bytes flow' = quantum_bytes flow"
    | (grant) "now \<noteq> 0" "bytes \<noteq> 0" "next_send_ns flow \<le> now"
      "unat (quantum_remaining_bytes flow') + unat bytes = max (unat (quantum_bytes flow)) (unat bytes)"
      "next_send_ns flow' = next_send_ns flow" "rate_bytes_per_sec flow' = rate_bytes_per_sec flow"
      "max_catch_up_bytes flow' = max_catch_up_bytes flow" "quantum_bytes flow' = quantum_bytes flow"
proof (cases "quantum_remaining_bytes flow \<ge> bytes")
  case True
  then show thesis using assms that(1)
    by (auto simp: tcp_shift_flow_pacer_segment_eligible_def Let_def word_le_nat_alt unat_diff_exact
        split: if_splits)
next
  case False
  have "unat ((if quantum_bytes flow < bytes then bytes else quantum_bytes flow) - bytes) + unat bytes
      = max (unat (quantum_bytes flow)) (unat bytes)"
    by (auto simp: word_less_nat_alt unat_diff_exact)
  then show thesis using False assms that(2)
    by (auto simp: tcp_shift_flow_pacer_segment_eligible_def Let_def not_less
        split: if_splits)
qed

lemma deferred_cases:
  assumes "tcp_shift_flow_pacer_segment_eligible flow now bytes d = (0, flow', d')"
  shows "flow' = flow\<lparr>quantum_remaining_bytes := 0\<rparr>" and "d' = next_send_ns flow" and "now < d'"
  using assms
  by (auto simp: tcp_shift_flow_pacer_segment_eligible_def Let_def split: if_splits)

section \<open>Runs of gated sends\<close>

text \<open>
  What the transport does with one flow at a fixed policy: every segment of at most \<open>seg\<close>
  bytes asks for eligibility at a non-decreasing time; an eligible segment is sent and noted,
  a deferred one is not sent. The run records the time of the last question and the total
  number of bytes sent. Times stay below the clock's last representable nanosecond.
\<close>

inductive paced_run ::
    "nat \<Rightarrow> tcp_shift_flow_pacer \<Rightarrow> u64 \<Rightarrow> tcp_shift_flow_pacer \<Rightarrow> u64 \<Rightarrow> nat \<Rightarrow> bool" where
  start: "paced_run seg f0 t0 f0 t0 0"
| sent: "paced_run seg f0 t0 f t out \<Longrightarrow> t \<le> now \<Longrightarrow> now < UINT64_MAX \<Longrightarrow> unat bytes \<le> seg \<Longrightarrow>
    tcp_shift_flow_pacer_segment_eligible f now bytes d = (1, f1, d') \<Longrightarrow>
    tcp_shift_flow_pacer_note_tx f1 now bytes = (0, f2) \<Longrightarrow>
    paced_run seg f0 t0 f2 now (out + unat bytes)"
| deferred: "paced_run seg f0 t0 f t out \<Longrightarrow> t \<le> now \<Longrightarrow> now < UINT64_MAX \<Longrightarrow>
    tcp_shift_flow_pacer_segment_eligible f now bytes d = (0, f1, d') \<Longrightarrow>
    paced_run seg f0 t0 f1 now out"

text \<open>
  The invariant of a run. The virtual clock has advanced by at least the paced duration of
  all bytes sent (or is saturated), and all but the current allowance was sent before a
  moment at which the clock did not lie in the future.
\<close>

definition paced_inv ::
    "nat \<Rightarrow> tcp_shift_flow_pacer \<Rightarrow> u64 \<Rightarrow> tcp_shift_flow_pacer \<Rightarrow> u64 \<Rightarrow> nat \<Rightarrow> bool" where
  "paced_inv seg f0 t0 f t out \<longleftrightarrow>
    rate_bytes_per_sec f = rate_bytes_per_sec f0 \<and> max_catch_up_bytes f = max_catch_up_bytes f0 \<and>
    quantum_bytes f = quantum_bytes f0 \<and> t0 \<le> t \<and>
    (out = 0 \<or> next_send_ns f = UINT64_MAX \<or>
      unat (rate_bytes_per_sec f0) * (unat t0 - unat (catch_up_ns f0)) + 1000000000 * out
        \<le> unat (rate_bytes_per_sec f0) * unat (next_send_ns f)) \<and>
    (\<exists>before. out + unat (quantum_remaining_bytes f) \<le> before + max (unat (quantum_bytes f0)) seg \<and>
      1000000000 * before
        \<le> unat (rate_bytes_per_sec f0) * (unat t + unat (catch_up_ns f0) - unat t0))"

lemma paced_clock_step:
  assumes rate: "rate_bytes_per_sec f \<noteq> 0" and "now \<noteq> 0" and "bytes \<noteq> 0"
    and note_tx: "tcp_shift_flow_pacer_note_tx f now bytes = (0, f')"
    and "unat t0 \<le> unat now" and c: "c = unat (catch_up_ns f)"
    and clock: "out = 0 \<or> next_send_ns f = UINT64_MAX \<or>
      unat (rate_bytes_per_sec f) * (unat t0 - c) + 1000000000 * out
        \<le> unat (rate_bytes_per_sec f) * unat (next_send_ns f)"
  shows "next_send_ns f' = UINT64_MAX \<or>
      unat (rate_bytes_per_sec f) * (unat t0 - c) + 1000000000 * (out + unat bytes)
        \<le> unat (rate_bytes_per_sec f) * unat (next_send_ns f')"
proof -
  let ?r = "unat (rate_bytes_per_sec f)"
  let ?sp = "unat (tcp_shift_flow_pacer_spacing_ns bytes (rate_bytes_per_sec f))"
  let ?b = "pacer_base f now"
  note v = note_tx_paced(2) [OF \<open>now \<noteq> 0\<close> \<open>bytes \<noteq> 0\<close> rate note_tx]
  have r: "0 < ?r" using rate by (simp add: word_zero_nat)
  have sp: "unat bytes * 1000000000 \<le> ?sp * ?r" using rate by (rule spacing_covers)
  show ?thesis
  proof (cases "next_send_ns f' = UINT64_MAX")
    case False
    then have v': "unat (next_send_ns f') = ?b + ?sp"
      using v by (auto simp: word_unat_eq_iff min_def split: if_splits)
    have "next_send_ns f \<noteq> UINT64_MAX"
    proof
      assume "next_send_ns f = UINT64_MAX"
      then have "18446744073709551615 \<le> ?b" by (simp add: pacer_base_def)
      with v have "unat (next_send_ns f') = 18446744073709551615" by simp
      with False show False by (simp add: word_unat_eq_iff)
    qed
    moreover have "?r * (unat t0 - c) \<le> ?r * ?b"
      using \<open>unat t0 \<le> unat now\<close> c by (intro mult_le_mono2) (auto simp: pacer_base_def)
    moreover have "?r * unat (next_send_ns f) \<le> ?r * ?b"
      by (intro mult_le_mono2) (auto simp: pacer_base_def)
    ultimately have "?r * (unat t0 - c) + 1000000000 * out \<le> ?r * ?b"
      using clock by linarith
    then show ?thesis using sp v' by (simp add: distrib_left mult.commute)
  qed simp
qed

lemma paced_inv_deferred:
  assumes inv: "paced_inv seg f0 t0 f t out" and "t \<le> now"
    and "tcp_shift_flow_pacer_segment_eligible f now bytes d = (0, f1, d')"
  shows "paced_inv seg f0 t0 f1 now out"
proof -
  have f1: "f1 = f\<lparr>quantum_remaining_bytes := 0\<rparr>" by (rule deferred_cases(1) [OF assms(3)])
  have le: "unat t \<le> unat now" using assms(2) by (simp add: word_le_nat_alt)
  obtain before where before: "out + unat (quantum_remaining_bytes f)
      \<le> before + max (unat (quantum_bytes f0)) seg"
    "1000000000 * before
      \<le> unat (rate_bytes_per_sec f0) * (unat t + unat (catch_up_ns f0) - unat t0)"
    using inv by (auto simp: paced_inv_def)
  note before(2)
  also have "unat (rate_bytes_per_sec f0) * (unat t + unat (catch_up_ns f0) - unat t0)
      \<le> unat (rate_bytes_per_sec f0) * (unat now + unat (catch_up_ns f0) - unat t0)"
    using le by (intro mult_le_mono2) simp
  finally have "\<exists>before. out + unat (quantum_remaining_bytes f1)
      \<le> before + max (unat (quantum_bytes f0)) seg \<and> 1000000000 * before
      \<le> unat (rate_bytes_per_sec f0) * (unat now + unat (catch_up_ns f0) - unat t0)"
    using f1 before(1) by (intro exI [of _ before]) simp
  then show ?thesis using inv le unfolding paced_inv_def f1 by (simp add: word_le_nat_alt)
qed

lemma paced_inv_sent:
  assumes inv: "paced_inv seg f0 t0 f t out" and rate: "rate_bytes_per_sec f0 \<noteq> 0"
    and "t \<le> now" and "now < UINT64_MAX" and seg: "unat bytes \<le> seg"
    and elig: "tcp_shift_flow_pacer_segment_eligible f now bytes d = (1, f1, d')"
    and note_tx: "tcp_shift_flow_pacer_note_tx f1 now bytes = (0, f2)"
  shows "paced_inv seg f0 t0 f2 now (out + unat bytes)"
proof -
  let ?r = "unat (rate_bytes_per_sec f0)" and ?c = "unat (catch_up_ns f0)"
  let ?A = "max (unat (quantum_bytes f0)) seg"
  have rate_f: "rate_bytes_per_sec f \<noteq> 0" using inv rate by (simp add: paced_inv_def)
  have nz: "now \<noteq> 0" "bytes \<noteq> 0" and v1: "next_send_ns f1 = next_send_ns f"
    and f1: "rate_bytes_per_sec f1 = rate_bytes_per_sec f0"
      "max_catch_up_bytes f1 = max_catch_up_bytes f0" "quantum_bytes f1 = quantum_bytes f0"
    using eligible_cases [OF elig rate_f] inv by (auto simp: paced_inv_def)
  have c1: "catch_up_ns f1 = catch_up_ns f0" by (simp add: catch_up_ns_def f1)
  have t: "unat t \<le> unat now" and t0: "unat t0 \<le> unat now"
    using assms(3) inv by (simp_all add: paced_inv_def word_le_nat_alt)
  note f2 = note_tx_paced [OF nz _ note_tx, unfolded f1, OF rate]
  have clock: "out = 0 \<or> next_send_ns f1 = UINT64_MAX \<or>
      ?r * (unat t0 - ?c) + 1000000000 * out \<le> ?r * unat (next_send_ns f1)"
    using inv by (simp add: paced_inv_def v1)
  from inv obtain before where before: "out + unat (quantum_remaining_bytes f) \<le> before + ?A"
    "1000000000 * before \<le> ?r * (unat t + ?c - unat t0)" by (auto simp: paced_inv_def)
  have "\<exists>before. out + unat bytes + unat (quantum_remaining_bytes f2) \<le> before + ?A \<and>
      1000000000 * before \<le> ?r * (unat now + ?c - unat t0)"
    using elig rate_f
  proof (cases rule: eligible_cases)
    case credit
    have "?r * (unat t + ?c - unat t0) \<le> ?r * (unat now + ?c - unat t0)"
      using t by (intro mult_le_mono2) simp
    with before(2) have "1000000000 * before \<le> ?r * (unat now + ?c - unat t0)" by (rule order_trans)
    then show ?thesis using before(1) credit(3) f2(6) by (intro exI [of _ before]) simp
  next
    case grant
    have "unat (next_send_ns f1) \<le> unat now" using grant(3) v1 by (simp add: word_le_nat_alt)
    moreover have "next_send_ns f1 \<noteq> UINT64_MAX" using grant(3) assms(4) v1 by auto
    ultimately have "1000000000 * out \<le> ?r * (unat now + ?c - unat t0)"
    proof (cases "out = 0")
      case False
      with clock \<open>next_send_ns f1 \<noteq> UINT64_MAX\<close>
      have "?r * (unat t0 - ?c) + 1000000000 * out \<le> ?r * unat (next_send_ns f1)" by simp
      also have "\<dots> \<le> ?r * ((unat t0 - ?c) + (unat now + ?c - unat t0))"
        using \<open>unat (next_send_ns f1) \<le> unat now\<close> t0 by (intro mult_le_mono2) linarith
      finally show ?thesis by (simp only: distrib_left add_le_cancel_left)
    qed simp
    moreover have "unat bytes + unat (quantum_remaining_bytes f2) \<le> ?A"
      using grant(4) f2(6) seg inv by (auto simp: paced_inv_def)
    ultimately show ?thesis by (intro exI [of _ out]) simp
  qed
  moreover have "next_send_ns f2 = UINT64_MAX \<or>
      ?r * (unat t0 - ?c) + 1000000000 * (out + unat bytes) \<le> ?r * unat (next_send_ns f2)"
    using paced_clock_step [OF _ nz note_tx t0 refl, unfolded f1 c1, OF rate clock] .
  ultimately show ?thesis
    using f1 f2 t0 by (auto simp: paced_inv_def word_le_nat_alt)
qed

lemma paced_run_inv:
  assumes "paced_run seg f0 t0 f t out" and "rate_bytes_per_sec f0 \<noteq> 0"
    and "unat (quantum_remaining_bytes f0) \<le> max (unat (quantum_bytes f0)) seg"
  shows "paced_inv seg f0 t0 f t out"
  using assms
proof (induction rule: paced_run.induct)
  case (start seg f0 t0)
  then show ?case by (auto simp: paced_inv_def intro: exI [of _ 0])
next
  case (deferred seg f0 t0 f t out now bytes d f1 d')
  then show ?case by (intro paced_inv_deferred [of seg f0 t0 f t out now bytes d f1 d']) simp_all
next
  case (sent seg f0 t0 f t out now bytes d f1 d' f2)
  then show ?case
    by (intro paced_inv_sent [of seg f0 t0 f t out now bytes d f1 d' f2]) simp_all
qed

section \<open>Properties\<close>

text \<open>C14. Pacing conforms to its rate: over any run of gated sends at a fixed nonzero rate, the
  bytes sent between two times exceed rate times elapsed time by at most the bounded catch-up
  credit and one batching allowance (the larger of the quantum and the largest segment),
  whatever the event loop's delays.\<close>

theorem pacer_conforms_to_rate:
  assumes "paced_run seg f0 t0 f t out" and "rate_bytes_per_sec f0 \<noteq> 0"
    and "unat (quantum_remaining_bytes f0) \<le> max (unat (quantum_bytes f0)) seg"
  shows "1000000000 * out \<le>
    unat (rate_bytes_per_sec f0) * (unat t - unat t0 +
      unat (tcp_shift_flow_pacer_spacing_ns (max_catch_up_bytes f0) (rate_bytes_per_sec f0))) +
    1000000000 * max (unat (quantum_bytes f0)) seg"
proof -
  have inv: "paced_inv seg f0 t0 f t out" using assms by (rule paced_run_inv)
  then obtain before where b: "out \<le> before + max (unat (quantum_bytes f0)) seg"
    "1000000000 * before
      \<le> unat (rate_bytes_per_sec f0) * (unat t + unat (catch_up_ns f0) - unat t0)"
    unfolding paced_inv_def by (meson add_leE)
  have eq: "unat t + unat (catch_up_ns f0) - unat t0 = unat t - unat t0 + unat (catch_up_ns f0)"
    using inv by (simp add: paced_inv_def word_le_nat_alt)
  show ?thesis using b(1) b(2) [unfolded eq] unfolding catch_up_ns_def by linarith
qed

text \<open>A flow at 1000 bytes per second with a 400-byte quantum: two segments go out in the first
  allowance, the third is deferred and sent 0.6 s later.\<close>

theorem pacer_conforms_to_rate_witness:
  "\<exists>f. paced_run 200 (flow_pacer_zero\<lparr>rate_bytes_per_sec := 1000, quantum_bytes := 400\<rparr>) 5 f
        600000005 600 \<and>
      1000000000 * 600 \<le> 1000 * (600000005 - 5 + 0) + 1000000000 * (400 :: nat)"
proof -
  note ev = flow_pacer_zero_def tcp_shift_flow_pacer_segment_eligible_def
    tcp_shift_flow_pacer_note_tx_def tcp_shift_flow_pacer_spacing_ns_def
    tcp_shift_flow_pacer_add_sat_def TCP_SHIFT_PACER_NSEC_PER_SEC_def Let_def
  let ?f0 = "flow_pacer_zero\<lparr>rate_bytes_per_sec := 1000, quantum_bytes := 400\<rparr>"
  let ?e1 = "?f0\<lparr>quantum_remaining_bytes := 200, quantum_grants := 1\<rparr>"
  let ?f1 = "?e1\<lparr>next_send_ns := 200000005, tx_events := 1, tx_bytes := 200\<rparr>"
  let ?e2 = "?f1\<lparr>quantum_remaining_bytes := 0\<rparr>"
  let ?f2 = "?e2\<lparr>next_send_ns := 400000005, tx_events := 2, tx_bytes := 400\<rparr>"
  let ?e3 = "?f2\<lparr>quantum_remaining_bytes := 200, quantum_grants := 2\<rparr>"
  let ?f3 = "?e3\<lparr>catch_up_clamps := 1, next_send_ns := 800000005, tx_events := 3, tx_bytes := 600\<rparr>"
  have "paced_run 200 ?f0 5 ?f0 5 0" by (rule paced_run.start)
  then have "paced_run 200 ?f0 5 ?f1 5 (0 + unat (200 :: u32))"
    by (rule paced_run.sent [where d = 0 and d' = 0 and ?f1.0 = ?e1]) (simp_all add: ev)
  then have "paced_run 200 ?f0 5 ?f2 5 (200 + unat (200 :: u32))"
    by (intro paced_run.sent [where d = 0 and d' = 0 and ?f1.0 = ?e2 and t = 5 and f = ?f1])
      (simp_all add: ev)
  then have "paced_run 200 ?f0 5 ?f2 5 400" by simp
  then have "paced_run 200 ?f0 5 ?f2 6 400"
    by (rule paced_run.deferred [where bytes = 200 and d = 0 and d' = 400000005])
      (simp_all add: ev)
  then have run: "paced_run 200 ?f0 5 ?f3 600000005 (400 + unat (200 :: u32))"
    by (rule paced_run.sent [where d = 0 and d' = 0 and ?f1.0 = ?e3]) (simp_all add: ev)
  have "1000000000 * (400 + unat (200 :: u32)) \<le>
    unat (rate_bytes_per_sec ?f0) * (unat (600000005 :: u64) - unat (5 :: u64) +
      unat (tcp_shift_flow_pacer_spacing_ns (max_catch_up_bytes ?f0) (rate_bytes_per_sec ?f0))) +
    1000000000 * max (unat (quantum_bytes ?f0)) 200"
    using run by (rule pacer_conforms_to_rate) (simp_all add: flow_pacer_zero_def)
  then show ?thesis using run by (auto simp: ev)
qed

end
