(* ===== verification/Lwip_Io.thy ===== *)
theory Lwip_Io
  imports Prelude "HOL-Library.Monad_Syntax"
begin

text \<open>
  What the components that do input and output share: lwIP's error codes, the readiness bits of
  epoll, and the replies of the kernel to a read or a write. A component that makes system calls
  takes the replies it will get as a list, one per call, in the order of the calls; it returns the
  replies it has not used. A run that needs more replies than the list has is \<open>None\<close>: every run that
  returns makes finitely many calls, so that the finite lists cover all of them.
\<close>

datatype err_t = ERR_OK | ERR_MEM | ERR_ARG | ERR_VAL | ERR_IF | ERR_ABRT | ERR_OTHER int

definition EPOLLIN :: u32 where "EPOLLIN = 1"
definition EPOLLOUT :: u32 where "EPOLLOUT = 4"
definition EPOLLERR :: u32 where "EPOLLERR = 8"
definition EPOLLHUP :: u32 where "EPOLLHUP = 16"
definition EPOLLRDHUP :: u32 where "EPOLLRDHUP = 8192"

lemmas epoll_defs = EPOLLIN_def EPOLLOUT_def EPOLLERR_def EPOLLHUP_def EPOLLRDHUP_def

text \<open>The reply to a system call that transfers bytes: the number of bytes, \<^verbatim>\<open>EAGAIN\<close>, \<^verbatim>\<open>EINTR\<close>, or another
  error.\<close>

datatype sys_reply = Bytes nat | Would_Block | Interrupted | Io_Error

text \<open>The loop \<^verbatim>\<open>do { ... } while (result < 0 && errno == EINTR)\<close>.\<close>

fun sys_retry :: "sys_reply list \<Rightarrow> (sys_reply \<times> sys_reply list) option" where
  "sys_retry [] = None"
| "sys_retry (Interrupted # rs) = sys_retry rs"
| "sys_retry (r # rs) = Some (r, rs)"

text \<open>It returns as soon as the kernel answers with anything but an interruption.\<close>

lemma sys_retry_returns: "r \<noteq> Interrupted \<Longrightarrow> sys_retry (replicate n Interrupted @ r # rs) = Some (r, rs)"
  by (induction n) (cases r; simp)+

lemma sys_retry_SomeD: "sys_retry rs = Some (r, rs') \<Longrightarrow> r \<noteq> Interrupted \<and> length rs' < length rs"
  by (induction rs rule: sys_retry.induct) auto

end
