(* ===== verification/Event_Heap.thy ===== *)
theory Event_Heap
  imports Prelude "HOL-Library.Product_Lexorder"
begin

text \<open>
  The array min-heap of the process-wide pacing scheduler in \<^verbatim>\<open>src/runtime/pacer.c\<close>: the event
  struct, its total order, and the sift-up, sift-down and heapify loops. The used part of the
  array is a list. The loops are proved to permute the array and to restore the heap order;
  the interface \<open>deadline_queue\<close> states what the scheduler relies on, and the array heap is
  its interpretation.
\<close>

record tcp_shift_pacer_event =
  deadline_ns :: u64
  flow_id :: u64
  generation :: u32
  event_bytes :: u32

definition tcp_shift_pacer_event_less ::
    "tcp_shift_pacer_event \<Rightarrow> tcp_shift_pacer_event \<Rightarrow> bool" where
  "tcp_shift_pacer_event_less a b =
    (if deadline_ns a \<noteq> deadline_ns b then deadline_ns a < deadline_ns b
     else if flow_id a \<noteq> flow_id b then flow_id a < flow_id b
     else if generation a \<noteq> generation b then generation a < generation b
     else event_bytes a < event_bytes b)"

definition tcp_shift_pacer_swap ::
    "tcp_shift_pacer_event list \<Rightarrow> nat \<Rightarrow> nat \<Rightarrow> tcp_shift_pacer_event list" where
  "tcp_shift_pacer_swap heap a b = heap[a := heap ! b, b := heap ! a]"

fun tcp_shift_pacer_sift_up ::
    "tcp_shift_pacer_event list \<Rightarrow> nat \<Rightarrow> tcp_shift_pacer_event list" where
  "tcp_shift_pacer_sift_up heap index =
    (if index \<noteq> 0 then
       (let parent = (index - 1) div 2
        in if \<not> tcp_shift_pacer_event_less (heap ! index) (heap ! parent) then heap
           else tcp_shift_pacer_sift_up (tcp_shift_pacer_swap heap index parent) parent)
     else heap)"

text \<open>The child selection of one round of the sift-down loop.\<close>

definition sift_down_smallest :: "tcp_shift_pacer_event list \<Rightarrow> nat \<Rightarrow> nat" where
  "sift_down_smallest heap index =
    (let left = index * 2 + 1;
         right = left + 1;
         smallest = index;
         smallest = (if left < length heap \<and>
                        tcp_shift_pacer_event_less (heap ! left) (heap ! smallest)
                     then left else smallest);
         smallest = (if right < length heap \<and>
                        tcp_shift_pacer_event_less (heap ! right) (heap ! smallest)
                     then right else smallest)
     in smallest)"

lemma sift_down_smallest_cases:
  "sift_down_smallest heap i = i \<or>
   i < sift_down_smallest heap i \<and> sift_down_smallest heap i < length heap"
  by (auto simp: sift_down_smallest_def Let_def)

function tcp_shift_pacer_sift_down ::
    "tcp_shift_pacer_event list \<Rightarrow> nat \<Rightarrow> tcp_shift_pacer_event list" where
  "tcp_shift_pacer_sift_down heap index =
    (let smallest = sift_down_smallest heap index
     in if smallest = index then heap
        else tcp_shift_pacer_sift_down (tcp_shift_pacer_swap heap index smallest) smallest)"
  by pat_completeness auto
termination
proof (relation "measure (\<lambda>(heap, i). length heap - i)", goal_cases)
  case (2 heap i s)
  then show ?case using sift_down_smallest_cases [of heap i]
    by (auto simp: tcp_shift_pacer_swap_def)
qed simp

declare tcp_shift_pacer_sift_up.simps [simp del] tcp_shift_pacer_sift_down.simps [simp del]

text \<open>The loop of \<^verbatim>\<open>tcp_shift_pacer_heapify\<close>: indices below \<open>i\<close>, from the largest down.\<close>

primrec heapify_below :: "tcp_shift_pacer_event list \<Rightarrow> nat \<Rightarrow> tcp_shift_pacer_event list" where
  "heapify_below heap 0 = heap"
| "heapify_below heap (Suc i) = heapify_below (tcp_shift_pacer_sift_down heap i) i"

definition tcp_shift_pacer_heapify ::
    "tcp_shift_pacer_event list \<Rightarrow> tcp_shift_pacer_event list" where
  "tcp_shift_pacer_heapify heap =
    (if length heap < 2 then heap else heapify_below heap (length heap div 2))"

section \<open>The order of events\<close>

definition event_key :: "tcp_shift_pacer_event \<Rightarrow> u64 \<times> u64 \<times> u32 \<times> u32" where
  "event_key e = (deadline_ns e, flow_id e, generation e, event_bytes e)"

lemma event_less_key: "tcp_shift_pacer_event_less a b \<longleftrightarrow> event_key a < event_key b"
  by (auto simp: tcp_shift_pacer_event_less_def event_key_def)

lemma event_key_inj: "event_key a = event_key b \<longleftrightarrow> a = b"
  by (cases a; cases b) (auto simp: event_key_def)

lemma event_key_deadline: "event_key a \<le> event_key b \<Longrightarrow> deadline_ns a \<le> deadline_ns b"
  by (auto simp: event_key_def)

section \<open>Swaps permute\<close>

lemma swap_length [simp]: "length (tcp_shift_pacer_swap h a b) = length h"
  by (simp add: tcp_shift_pacer_swap_def)

lemma swap_mset [simp]:
  "a < length h \<Longrightarrow> b < length h \<Longrightarrow> mset (tcp_shift_pacer_swap h a b) = mset h"
  unfolding tcp_shift_pacer_swap_def by (rule mset_swap)

lemma swap_nth:
  "a < length h \<Longrightarrow> b < length h \<Longrightarrow> j < length h \<Longrightarrow>
    tcp_shift_pacer_swap h a b ! j = (if j = b then h ! a else if j = a then h ! b else h ! j)"
  by (auto simp: tcp_shift_pacer_swap_def nth_list_update)

lemma sift_up_mset:
  "i < length h \<Longrightarrow> mset (tcp_shift_pacer_sift_up h i) = mset h"
proof (induction h i rule: tcp_shift_pacer_sift_up.induct)
  case (1 h i)
  have "(i - 1) div 2 < length h" using "1.prems" by simp
  with 1 show ?case by (subst tcp_shift_pacer_sift_up.simps) (simp add: Let_def)
qed

lemma sift_down_mset:
  "i < length h \<Longrightarrow> mset (tcp_shift_pacer_sift_down h i) = mset h"
proof (induction h i rule: tcp_shift_pacer_sift_down.induct)
  case (1 h i)
  then show ?case using sift_down_smallest_cases [of h i]
    by (subst tcp_shift_pacer_sift_down.simps) (auto simp: Let_def)
qed

lemma sift_up_length [simp]:
  "i < length h \<Longrightarrow> length (tcp_shift_pacer_sift_up h i) = length h"
  by (metis sift_up_mset size_mset)

lemma sift_down_length [simp]:
  "i < length h \<Longrightarrow> length (tcp_shift_pacer_sift_down h i) = length h"
  by (metis sift_down_mset size_mset)

section \<open>The heap order\<close>

definition parent :: "nat \<Rightarrow> nat" where
  "parent j = (j - 1) div 2"

abbreviation le_at :: "tcp_shift_pacer_event list \<Rightarrow> nat \<Rightarrow> nat \<Rightarrow> bool" where
  "le_at h i j \<equiv> event_key (h ! i) \<le> event_key (h ! j)"

text \<open>Heap order for all nodes whose parent index is at least \<open>m\<close>.\<close>

definition heap_from :: "nat \<Rightarrow> tcp_shift_pacer_event list \<Rightarrow> bool" where
  "heap_from m h \<longleftrightarrow> (\<forall>j. 0 < j \<longrightarrow> j < length h \<longrightarrow> m \<le> parent j \<longrightarrow> le_at h (parent j) j)"

abbreviation is_heap :: "tcp_shift_pacer_event list \<Rightarrow> bool" where
  "is_heap h \<equiv> heap_from 0 h"

text \<open>Order everywhere but above node \<open>i\<close>, whose children still respect its parent.\<close>

definition heap_but_up :: "tcp_shift_pacer_event list \<Rightarrow> nat \<Rightarrow> bool" where
  "heap_but_up h i \<longleftrightarrow> (\<forall>j. 0 < j \<longrightarrow> j < length h \<longrightarrow>
     (j \<noteq> i \<longrightarrow> le_at h (parent j) j) \<and>
     (parent j = i \<longrightarrow> 0 < i \<longrightarrow> le_at h (parent i) j))"

text \<open>Order everywhere from \<open>m\<close> on but below node \<open>i\<close>.\<close>

definition heap_but_down :: "nat \<Rightarrow> tcp_shift_pacer_event list \<Rightarrow> nat \<Rightarrow> bool" where
  "heap_but_down m h i \<longleftrightarrow> (\<forall>j. 0 < j \<longrightarrow> j < length h \<longrightarrow> m \<le> parent j \<longrightarrow>
     (parent j \<noteq> i \<longrightarrow> le_at h (parent j) j) \<and>
     (parent j = i \<longrightarrow> 0 < i \<longrightarrow> m \<le> parent i \<longrightarrow> le_at h (parent i) j))"

lemma parent_less: "0 < j \<Longrightarrow> parent j < j"
  by (auto simp: parent_def)

lemma parent_iff: "0 < j \<Longrightarrow> parent j = i \<longleftrightarrow> j = i * 2 + 1 \<or> j = i * 2 + 2"
  by (auto simp: parent_def)

lemma sift_up_unfold:
  "tcp_shift_pacer_sift_up h i =
    (if i \<noteq> 0 \<and> event_key (h ! i) < event_key (h ! parent i)
     then tcp_shift_pacer_sift_up (tcp_shift_pacer_swap h i (parent i)) (parent i) else h)"
  by (subst tcp_shift_pacer_sift_up.simps) (simp add: Let_def parent_def event_less_key)

lemma heap_but_up_swap:
  assumes h: "heap_but_up h i" and "0 < i" and "i < length h"
    and "event_key (h ! i) < event_key (h ! parent i)"
  shows "heap_but_up (tcp_shift_pacer_swap h i (parent i)) (parent i)"
  unfolding heap_but_up_def
proof (intro allI impI conjI)
  let ?p = "parent i" and ?h = "tcp_shift_pacer_swap h i (parent i)"
  have p: "?p < i" "?p < length h" using assms(2,3) parent_less [of i] by auto
  fix j assume j: "0 < j" "j < length ?h"
  then have pj: "parent j < j" "parent j < length h" using parent_less [of j] by auto
  note nth = swap_nth [OF assms(3) p(2)]
  have ord: "le_at h (parent k) k" if "0 < k" "k < length h" "k \<noteq> i" for k
    using h that by (auto simp: heap_but_up_def)
  have kids: "le_at h ?p k" if "0 < k" "k < length h" "parent k = i" for k
    using h that assms(2) by (auto simp: heap_but_up_def)
  {
    assume "j \<noteq> ?p"
    consider "j = i" | "parent j = i" | "parent j = ?p" "j \<noteq> i" | "j \<noteq> i" "parent j \<noteq> i" "parent j \<noteq> ?p"
      by blast
    then show "le_at ?h (parent j) j"
    proof cases
      case 1
      then show ?thesis using assms(3,4) p by (simp add: nth)
    next
      case 2
      then show ?thesis using j pj p kids [of j] \<open>j \<noteq> ?p\<close> assms(3) by (simp add: nth)
    next
      case 3
      then have "le_at h ?p j" using ord [of j] j by simp
      then show ?thesis using 3 j p \<open>j \<noteq> ?p\<close> assms(4) by (simp add: nth)
    next
      case 4
      then show ?thesis using ord [of j] j pj \<open>j \<noteq> ?p\<close> by (simp add: nth)
    qed
  }
  {
    assume pjp: "parent j = ?p" and "0 < ?p"
    have up: "le_at h (parent ?p) ?p" using ord [of ?p] p \<open>0 < ?p\<close> by simp
    have j': "j \<noteq> ?p" using pjp pj by auto
    have q: "parent ?p < ?p" using \<open>0 < ?p\<close> by (rule parent_less)
    have lhs: "?h ! parent ?p = h ! parent ?p" using q p by (simp add: nth)
    show "le_at ?h (parent ?p) j"
    proof (cases "j = i")
      case True
      then show ?thesis using up lhs p assms(3) by (simp add: nth)
    next
      case False
      then have "le_at h ?p j" using ord [of j] j pjp by simp
      then show ?thesis using up lhs False j' j by (simp add: nth)
    qed
  }
qed

lemma sift_up_heap:
  "i < length h \<Longrightarrow> heap_but_up h i \<Longrightarrow> is_heap (tcp_shift_pacer_sift_up h i)"
proof (induction i arbitrary: h rule: less_induct)
  case (less i)
  show ?case
  proof (cases "i \<noteq> 0 \<and> event_key (h ! i) < event_key (h ! parent i)")
    case True
    then have "heap_but_up (tcp_shift_pacer_swap h i (parent i)) (parent i)"
      using heap_but_up_swap [OF less.prems(2)] less.prems(1) by simp
    moreover have "parent i < i" using True parent_less by simp
    ultimately show ?thesis using True less
      by (subst sift_up_unfold) simp
  next
    case False
    then have "is_heap h" using less.prems(2)
      by (auto simp: heap_from_def heap_but_up_def not_less)
    with False show ?thesis by (subst sift_up_unfold) auto
  qed
qed

text \<open>One round of the sift-down loop picks the least of a node and its children.\<close>

lemma sift_down_smallest_least:
  assumes "i < length h" and "s = sift_down_smallest h i"
  shows "le_at h s i" and "0 < j \<Longrightarrow> j < length h \<Longrightarrow> parent j = i \<Longrightarrow> le_at h s j"
    and "s \<noteq> i \<Longrightarrow> parent s = i \<and> i < s \<and> s < length h \<and> event_key (h ! s) < event_key (h ! i)"
  using assms
  by (auto simp: sift_down_smallest_def Let_def event_less_key parent_iff split: if_splits)

lemma heap_but_down_swap:
  assumes h: "heap_but_down m h i" and "i < length h"
    and s: "s = sift_down_smallest h i" "s \<noteq> i"
  shows "heap_but_down m (tcp_shift_pacer_swap h i s) s"
  unfolding heap_but_down_def
proof (intro allI impI conjI)
  let ?h = "tcp_shift_pacer_swap h i s"
  note least = sift_down_smallest_least [OF assms(2) s(1)]
  have si: "parent s = i" "i < s" "s < length h" "event_key (h ! s) < event_key (h ! i)"
    using least(3) [OF s(2)] by auto
  note nth = swap_nth [OF assms(2) si(3)]
  fix j assume j: "0 < j" "j < length ?h" "m \<le> parent j"
  then have pj: "parent j < j" "parent j < length h" using parent_less [of j] by auto
  have ord: "le_at h (parent k) k" if "0 < k" "k < length h" "m \<le> parent k" "parent k \<noteq> i" for k
    using h that by (auto simp: heap_but_down_def)
  {
    assume ps: "parent j \<noteq> s"
    show "le_at ?h (parent j) j"
    proof (cases "parent j = i")
      case True
      then have "le_at h s j" using least(2) j by simp
      then show ?thesis using True j pj si by (auto simp: nth)
    next
      case False
      then have o: "le_at h (parent j) j" using ord j by simp
      show ?thesis
      proof (cases "j = i")
        case True
        moreover have "0 < s" "m \<le> parent s" using si j pj True by auto
        ultimately have "le_at h (parent i) s"
          using h j si(1,3) unfolding heap_but_down_def by blast
        then show ?thesis using True False ps j pj si by (simp add: nth)
      next
        case j_i: False
        have "j \<noteq> s" using False si(1) by auto
        then show ?thesis using o False ps j_i j pj by (simp add: nth)
      qed
    qed
  }
  {
    assume ps: "parent j = s" and "0 < s" "m \<le> parent s"
    have "le_at h s j" using ord [of j] j ps si by simp
    moreover have "j \<noteq> i" "j \<noteq> s" using ps pj si by auto
    ultimately show "le_at ?h (parent s) j" using si j assms(2) by (simp add: nth)
  }
qed

lemma sift_down_heap:
  "i < length h \<Longrightarrow> heap_but_down m h i \<Longrightarrow> heap_from m (tcp_shift_pacer_sift_down h i)"
proof (induction h i rule: tcp_shift_pacer_sift_down.induct)
  case (1 h i)
  let ?s = "sift_down_smallest h i"
  show ?case
  proof (cases "?s = i")
    case True
    have "le_at h (parent j) j" if "0 < j" "j < length h" "m \<le> parent j" for j
      using that "1.prems"(2) sift_down_smallest_least(2) [OF "1.prems"(1) refl, of j] True
      by (cases "parent j = i") (auto simp: heap_but_down_def)
    then have "heap_from m h" by (simp add: heap_from_def)
    with True show ?thesis by (subst tcp_shift_pacer_sift_down.simps) simp
  next
    case False
    then have "heap_but_down m (tcp_shift_pacer_swap h i ?s) ?s" and "?s < length h"
      using heap_but_down_swap [OF "1.prems"(2,1) refl] sift_down_smallest_cases [of h i] by auto
    then have "heap_from m (tcp_shift_pacer_sift_down (tcp_shift_pacer_swap h i ?s) ?s)"
      using "1.IH" [OF refl False] by simp
    with False show ?thesis
      by (subst tcp_shift_pacer_sift_down.simps) (simp add: Let_def)
  qed
qed

lemma heap_but_down_first:
  "heap_from (Suc i) h \<Longrightarrow> heap_but_down i h i"
proof -
  assume h: "heap_from (Suc i) h"
  have "le_at h (parent j) j" if "0 < j" "j < length h" "i \<le> parent j" "parent j \<noteq> i" for j
    using h that by (auto simp: heap_from_def)
  moreover have "\<not> i \<le> parent i" if "0 < i" using that parent_less [of i] by simp
  ultimately show ?thesis by (auto simp: heap_but_down_def)
qed

lemma heapify_below_heap:
  "i \<le> length h \<Longrightarrow> heap_from i h \<Longrightarrow> is_heap (heapify_below h i) \<and> mset (heapify_below h i) = mset h"
proof (induction i arbitrary: h)
  case 0
  then show ?case by simp
next
  case (Suc i)
  then have "heap_from i (tcp_shift_pacer_sift_down h i)"
    by (intro sift_down_heap heap_but_down_first) simp_all
  with Suc show ?case by (simp add: sift_down_mset)
qed

lemma heapify_heap:
  "is_heap (tcp_shift_pacer_heapify h)" and heapify_mset: "mset (tcp_shift_pacer_heapify h) = mset h"
proof -
  have "heap_from (length h div 2) h" by (auto simp: heap_from_def parent_def)
  then have "is_heap (heapify_below h (length h div 2)) \<and>
      mset (heapify_below h (length h div 2)) = mset h"
    by (intro heapify_below_heap) simp_all
  then show "is_heap (tcp_shift_pacer_heapify h)" and "mset (tcp_shift_pacer_heapify h) = mset h"
    by (auto simp: tcp_shift_pacer_heapify_def heap_from_def)
qed

lemma heapify_length [simp]: "length (tcp_shift_pacer_heapify h) = length h"
  by (metis heapify_mset size_mset)

text \<open>The root of a heap is its least event.\<close>

lemma heap_root_least: "is_heap h \<Longrightarrow> j < length h \<Longrightarrow> le_at h 0 j"
proof (induction j rule: less_induct)
  case (less j)
  show ?case
  proof (cases "j = 0")
    case False
    then have "parent j < j" by (simp add: parent_less)
    then have "le_at h 0 (parent j)" and "le_at h (parent j) j"
      using less False by (auto simp: heap_from_def)
    then show ?thesis by (rule order_trans)
  qed simp
qed

section \<open>Queue operations of the scheduler\<close>

text \<open>The array part of \<^verbatim>\<open>tcp_shift_pacer_schedule\<close>, \<^verbatim>\<open>tcp_shift_pacer_pop_due\<close> and
  \<^verbatim>\<open>tcp_shift_pacer_cancel\<close>.\<close>

definition heap_insert ::
    "tcp_shift_pacer_event \<Rightarrow> tcp_shift_pacer_event list \<Rightarrow> tcp_shift_pacer_event list" where
  "heap_insert e heap = tcp_shift_pacer_sift_up (heap @ [e]) (length heap)"

definition heap_pop :: "tcp_shift_pacer_event list \<Rightarrow> tcp_shift_pacer_event list" where
  "heap_pop heap =
    (let n = length heap - 1
     in if n \<noteq> 0 then tcp_shift_pacer_sift_down ((take n heap)[0 := heap ! n]) 0
        else take n heap)"

definition heap_cancel ::
    "u64 \<Rightarrow> u32 \<Rightarrow> tcp_shift_pacer_event list \<Rightarrow> tcp_shift_pacer_event list" where
  "heap_cancel fid gen heap =
    tcp_shift_pacer_heapify (filter (\<lambda>e. \<not> (flow_id e = fid \<and> generation e = gen)) heap)"

lemma heap_insert_mset: "mset (heap_insert e h) = add_mset e (mset h)"
  by (simp add: heap_insert_def sift_up_mset)

lemma heap_insert_heap: "is_heap h \<Longrightarrow> is_heap (heap_insert e h)"
  unfolding heap_insert_def
proof (rule sift_up_heap)
  assume h: "is_heap h"
  show "heap_but_up (h @ [e]) (length h)"
    unfolding heap_but_up_def
  proof (intro allI impI conjI)
    fix j assume j: "0 < j" "j < length (h @ [e])"
    then have pj: "parent j < j" by (simp add: parent_less)
    {
      assume "j \<noteq> length h"
      then show "le_at (h @ [e]) (parent j) j"
        using h j pj by (auto simp: heap_from_def nth_append)
    }
    {
      assume "parent j = length h"
      then show "le_at (h @ [e]) (parent (length h)) j" using j pj by simp
    }
  qed
qed simp

lemma heap_pop_spec:
  assumes "is_heap h" and "h \<noteq> []"
  shows "is_heap (heap_pop h)" and "mset (heap_pop h) = mset h - {#h ! 0#}"
proof -
  let ?n = "length h - 1"
  obtain e es where h: "h = e # es" using assms(2) by (cases h) auto
  have "is_heap (heap_pop h) \<and> mset (heap_pop h) = mset h - {#h ! 0#}"
  proof (cases "es = []")
    case True
    then show ?thesis by (simp add: h heap_pop_def heap_from_def)
  next
    case False
    let ?g = "(take ?n h)[0 := h ! ?n]"
    have g: "?g = last es # butlast es"
      using False by (simp add: h take_Cons' nth_Cons' last_conv_nth butlast_conv_take)
    then have "mset ?g = mset es"
      using False by (metis append_butlast_last_id mset.simps(2) mset_append add.commute
          add_mset_add_single mset_single_iff_right)
    moreover have "heap_but_down 0 ?g 0"
    proof -
      have "le_at ?g (parent j) j" if "0 < j" "j < length ?g" "parent j \<noteq> 0" for j
        using that assms(1) parent_less [of j]
        by (auto simp: heap_from_def nth_list_update)
      then show ?thesis by (auto simp: heap_but_down_def)
    qed
    moreover have "0 < length ?g" and "?n \<noteq> 0" using False by (auto simp: h)
    ultimately show ?thesis
      using sift_down_heap [of 0 ?g 0] sift_down_mset [of 0 ?g]
      by (simp add: heap_pop_def h Let_def)
  qed
  then show "is_heap (heap_pop h)" and "mset (heap_pop h) = mset h - {#h ! 0#}" by auto
qed

lemma heap_cancel_spec:
  "is_heap (heap_cancel fid gen h)"
  "mset (heap_cancel fid gen h) =
    filter_mset (\<lambda>e. \<not> (flow_id e = fid \<and> generation e = gen)) (mset h)"
  by (simp_all add: heap_cancel_def heapify_heap heapify_mset)

section \<open>The queue interface\<close>

locale deadline_queue =
  fixes invar :: "'q \<Rightarrow> bool"
    and elems :: "'q \<Rightarrow> tcp_shift_pacer_event multiset"
    and enqueue :: "tcp_shift_pacer_event \<Rightarrow> 'q \<Rightarrow> 'q"
    and top :: "'q \<Rightarrow> tcp_shift_pacer_event"
    and pop :: "'q \<Rightarrow> 'q"
    and cancel :: "u64 \<Rightarrow> u32 \<Rightarrow> 'q \<Rightarrow> 'q"
  assumes enqueue_invar: "invar q \<Longrightarrow> invar (enqueue e q)"
    and enqueue_elems: "invar q \<Longrightarrow> elems (enqueue e q) = add_mset e (elems q)"
    and top_in: "invar q \<Longrightarrow> elems q \<noteq> {#} \<Longrightarrow> top q \<in># elems q"
    and top_least: "invar q \<Longrightarrow> e \<in># elems q \<Longrightarrow> event_key (top q) \<le> event_key e"
    and pop_invar: "invar q \<Longrightarrow> elems q \<noteq> {#} \<Longrightarrow> invar (pop q)"
    and pop_elems: "invar q \<Longrightarrow> elems q \<noteq> {#} \<Longrightarrow> elems (pop q) = elems q - {#top q#}"
    and cancel_invar: "invar q \<Longrightarrow> invar (cancel fid gen q)"
    and cancel_elems: "invar q \<Longrightarrow> elems (cancel fid gen q) =
      filter_mset (\<lambda>e. \<not> (flow_id e = fid \<and> generation e = gen)) (elems q)"
begin

lemma top_unique:
  assumes "invar q" and "invar q'" and "elems q = elems q'" and "elems q \<noteq> {#}"
  shows "top q = top q'"
proof -
  have "event_key (top q) \<le> event_key (top q')" and "event_key (top q') \<le> event_key (top q)"
    using assms top_in [of q] top_in [of q'] top_least by auto
  then show ?thesis by (simp add: event_key_inj [symmetric])
qed

text \<open>Releasing every event that is due, with a bound on the number of rounds.\<close>

primrec release_due :: "u64 \<Rightarrow> nat \<Rightarrow> 'q \<Rightarrow> tcp_shift_pacer_event list \<times> 'q" where
  "release_due now 0 q = ([], q)"
| "release_due now (Suc n) q =
    (if elems q = {#} \<or> deadline_ns (top q) > now then ([], q)
     else (let (es, q') = release_due now n (pop q) in (top q # es, q')))"

lemma release_due_spec:
  assumes "invar q" and "size (elems q) \<le> n" and "release_due now n q = (es, q')"
  shows "invar q' \<and>
    mset es = filter_mset (\<lambda>e. deadline_ns e \<le> now) (elems q) \<and>
    elems q' = filter_mset (\<lambda>e. \<not> deadline_ns e \<le> now) (elems q) \<and>
    sorted_wrt (\<lambda>a b. event_key a \<le> event_key b) es"
  using assms
proof (induction n arbitrary: q es q')
  case 0
  then show ?case by simp
next
  case (Suc n)
  show ?case
  proof (cases "elems q = {#} \<or> deadline_ns (top q) > now")
    case True
    have "deadline_ns e > now" if "e \<in># elems q" for e
      using True that Suc.prems(1) top_least [of q e] event_key_deadline [of "top q" e] by auto
    then have "filter_mset (\<lambda>e. deadline_ns e \<le> now) (elems q) = {#}"
      and "filter_mset (\<lambda>e. \<not> deadline_ns e \<le> now) (elems q) = elems q"
      by (auto simp: filter_mset_eq_conv not_le filter_mset_eq_mempty_iff)
    then show ?thesis using True Suc.prems by simp
  next
    case False
    then have ne: "elems q \<noteq> {#}" and due: "deadline_ns (top q) \<le> now" by auto
    obtain fs where rest: "release_due now n (pop q) = (fs, q')" and es: "es = top q # fs"
      using Suc.prems(3) False by (auto split: prod.splits)
    have tq: "top q \<in># elems q" using Suc.prems(1) ne by (rule top_in)
    have pe: "elems (pop q) = elems q - {#top q#}" using Suc.prems(1) ne by (rule pop_elems)
    have "size (elems (pop q)) \<le> n" using Suc.prems(2) tq by (simp add: pe size_Diff_singleton)
    then have IH: "invar q'" "mset fs = filter_mset (\<lambda>e. deadline_ns e \<le> now) (elems (pop q))"
      "elems q' = filter_mset (\<lambda>e. \<not> deadline_ns e \<le> now) (elems (pop q))"
      "sorted_wrt (\<lambda>a b. event_key a \<le> event_key b) fs"
      using Suc.IH [OF pop_invar [OF Suc.prems(1) ne] _ rest] by auto
    have split: "elems q = add_mset (top q) (elems (pop q))" using tq by (simp add: pe)
    have "event_key (top q) \<le> event_key e" if "e \<in> set fs" for e
    proof -
      have "e \<in># mset fs" using that by simp
      then have "e \<in># elems q" by (simp add: IH(2) split)
      then show ?thesis by (rule top_least [OF Suc.prems(1)])
    qed
    then show ?thesis using IH es due by (simp add: split)
  qed
qed

end

lemma heap_top_in_mset: "h \<noteq> [] \<Longrightarrow> h ! 0 \<in># mset h"
  by (cases h) auto

lemma heap_top_least: "is_heap h \<Longrightarrow> e \<in># mset h \<Longrightarrow> event_key (h ! 0) \<le> event_key e"
  using heap_root_least [of h] by (auto simp: in_set_conv_nth)

interpretation array_heap:
  deadline_queue is_heap mset heap_insert "\<lambda>h. h ! 0" heap_pop heap_cancel
  by unfold_locales (simp_all add: heap_insert_heap heap_insert_mset heap_top_in_mset heap_top_least
      heap_pop_spec heap_cancel_spec)

end
