(* ===== verification/Pacer.thy ===== *)
theory Pacer
  imports Lwip_Io Event_Heap
begin

unbundle bit_operations_syntax

text \<open>
  The process-wide pacing scheduler of \<^verbatim>\<open>src/runtime/pacer.c\<close>: an array heap of eligibility
  events behind one timerfd, and the release loop of \<^verbatim>\<open>src/runtime/lwip_loop.c\<close> that drains
  it. The system calls are parameters: \<open>settime fd spec\<close> says whether \<^verbatim>\<open>timerfd_settime\<close>
  succeeds, \<open>realloc_ok n\<close> whether \<^verbatim>\<open>realloc\<close> to \<open>n\<close> bytes does, \<open>created\<close> is the result of
  \<^verbatim>\<open>timerfd_create\<close>, and \<open>timer_read\<close> the result of \<^verbatim>\<open>read\<close>. The list \<open>heap\<close> is the used
  part of the array, so its length is \<^verbatim>\<open>heap_len\<close>; sizes are natural numbers below \<open>2 ^ 64\<close>.
\<close>

record tcp_shift_pacer_stats =
  timerfd_creates :: u64
  timer_arms :: u64
  timer_rearms :: u64
  timer_disarms :: u64
  timer_expirations :: u64
  scheduled_events :: u64
  released_events :: u64
  cancelled_events :: u64
  released_bytes :: u64
  last_requested_deadline_ns :: u64
  last_actual_release_ns :: u64
  last_lateness_ns :: u64
  max_lateness_ns :: u64
  heap_current :: nat
  heap_peak :: nat
  heap_capacity :: nat

record tcp_shift_pacer =
  timer_fd :: int
  heap :: "tcp_shift_pacer_event list"
  heap_cap :: nat
  heap_max :: nat
  armed_deadline_ns :: u64
  stats :: tcp_shift_pacer_stats

text \<open>\<^verbatim>\<open>itimerspec.it_value\<close> as seconds and nanoseconds; the interval is always zero.\<close>

type_synonym settime = "int \<Rightarrow> u64 \<times> u64 \<Rightarrow> bool"

datatype timer_read = Read_error | Read_would_block | Read_short | Read_value u64

definition TCP_SHIFT_PACER_INITIAL_CAPACITY :: nat where
  "TCP_SHIFT_PACER_INITIAL_CAPACITY = 8"

text \<open>\<^verbatim>\<open>SIZE_MAX\<close> and \<^verbatim>\<open>sizeof(struct tcp_shift_pacer_event)\<close> on a 64-bit target.\<close>

definition SIZE_MAX :: nat where
  "SIZE_MAX = 18446744073709551615"

definition sizeof_event :: nat where
  "sizeof_event = 24"

definition pacer_stats_zero :: tcp_shift_pacer_stats where
  "pacer_stats_zero =
    \<lparr>timerfd_creates = 0, timer_arms = 0, timer_rearms = 0, timer_disarms = 0,
     timer_expirations = 0, scheduled_events = 0, released_events = 0, cancelled_events = 0,
     released_bytes = 0, last_requested_deadline_ns = 0, last_actual_release_ns = 0,
     last_lateness_ns = 0, max_lateness_ns = 0, heap_current = 0, heap_peak = 0,
     heap_capacity = 0\<rparr>"

definition pacer_zero :: tcp_shift_pacer where
  "pacer_zero =
    \<lparr>timer_fd = 0, heap = [], heap_cap = 0, heap_max = 0, armed_deadline_ns = 0,
     stats = pacer_stats_zero\<rparr>"

definition tcp_shift_pacer_reserve ::
    "(nat \<Rightarrow> bool) \<Rightarrow> tcp_shift_pacer \<Rightarrow> int \<times> tcp_shift_pacer" where
  "tcp_shift_pacer_reserve realloc_ok pacer =
    (if length (heap pacer) < heap_cap pacer then (0, pacer)
     else if length (heap pacer) \<ge> heap_max pacer then (-1, pacer)
     else
       let next_cap = (if heap_cap pacer = 0 then TCP_SHIFT_PACER_INITIAL_CAPACITY
                       else heap_cap pacer * 2 mod (SIZE_MAX + 1));
           next_cap = (if next_cap < heap_cap pacer \<or> next_cap > heap_max pacer
                       then heap_max pacer else next_cap)
       in if next_cap > SIZE_MAX div sizeof_event then (-1, pacer)
          else if \<not> realloc_ok (next_cap * sizeof_event) then (-1, pacer)
          else (0, pacer\<lparr>heap_cap := next_cap,
                         stats := (stats pacer)\<lparr>heap_capacity := next_cap\<rparr>\<rparr>))"

definition tcp_shift_pacer_sync_timer ::
    "settime \<Rightarrow> tcp_shift_pacer \<Rightarrow> int \<times> tcp_shift_pacer" where
  "tcp_shift_pacer_sync_timer settime pacer =
    (case heap pacer of
       [] \<Rightarrow>
         if armed_deadline_ns pacer = 0 then (0, pacer)
         else if \<not> settime (timer_fd pacer) (0, 0) then (-1, pacer)
         else (0, pacer\<lparr>armed_deadline_ns := 0,
                        stats := (stats pacer)\<lparr>timer_disarms := timer_disarms (stats pacer) + 1\<rparr>\<rparr>)
     | first # _ \<Rightarrow>
         let deadline = deadline_ns first
         in if deadline = armed_deadline_ns pacer then (0, pacer)
            else if \<not> settime (timer_fd pacer) (deadline div 1000000000, deadline mod 1000000000)
            then (-1, pacer)
            else
              let pacer =
                (if armed_deadline_ns pacer = 0
                 then pacer\<lparr>stats := (stats pacer)\<lparr>timer_arms := timer_arms (stats pacer) + 1\<rparr>\<rparr>
                 else pacer\<lparr>stats := (stats pacer)\<lparr>timer_rearms := timer_rearms (stats pacer) + 1\<rparr>\<rparr>)
              in (0, pacer\<lparr>armed_deadline_ns := deadline\<rparr>))"

definition tcp_shift_pacer_init :: "int \<Rightarrow> tcp_shift_pacer \<Rightarrow> nat \<Rightarrow> int \<times> tcp_shift_pacer" where
  "tcp_shift_pacer_init created pacer max_events =
    (if max_events = 0 \<or> max_events > SIZE_MAX div sizeof_event then (-1, pacer)
     else
       let pacer = pacer_zero\<lparr>timer_fd := created\<rparr>
       in if timer_fd pacer < 0 then (-1, pacer)
          else (0, pacer\<lparr>heap_max := max_events,
                         stats := (stats pacer)\<lparr>timerfd_creates := 1\<rparr>\<rparr>))"

definition tcp_shift_pacer_close :: "tcp_shift_pacer \<Rightarrow> tcp_shift_pacer" where
  "tcp_shift_pacer_close pacer = pacer_zero\<lparr>timer_fd := -1\<rparr>"

definition tcp_shift_pacer_fd :: "tcp_shift_pacer \<Rightarrow> int" where
  "tcp_shift_pacer_fd pacer = (if timer_fd pacer < 0 then -1 else timer_fd pacer)"

text \<open>The rollback loop of \<^verbatim>\<open>tcp_shift_pacer_schedule\<close>: the first slot holding the event.\<close>

definition rollback_matches :: "tcp_shift_pacer_event \<Rightarrow> tcp_shift_pacer_event \<Rightarrow> bool" where
  "rollback_matches event slot =
    (deadline_ns slot = deadline_ns event \<and> flow_id slot = flow_id event \<and>
     generation slot = generation event \<and> event_bytes slot = event_bytes event)"

definition schedule_rollback :: "tcp_shift_pacer_event \<Rightarrow> tcp_shift_pacer \<Rightarrow> tcp_shift_pacer" where
  "schedule_rollback event pacer =
    (case List.find (\<lambda>i. rollback_matches event (heap pacer ! i)) [0..<length (heap pacer)] of
       None \<Rightarrow> pacer
     | Some i \<Rightarrow>
         let n = length (heap pacer) - 1;
             pacer = pacer\<lparr>heap := take n ((heap pacer)[i := heap pacer ! n])\<rparr>;
             pacer = pacer\<lparr>heap := tcp_shift_pacer_heapify (heap pacer)\<rparr>
         in pacer\<lparr>stats := (stats pacer)\<lparr>heap_current := length (heap pacer),
                                        scheduled_events := scheduled_events (stats pacer) - 1\<rparr>\<rparr>)"

text \<open>The insertion of \<^verbatim>\<open>tcp_shift_pacer_schedule\<close> with its counters.\<close>

definition schedule_insert :: "tcp_shift_pacer_event \<Rightarrow> tcp_shift_pacer \<Rightarrow> tcp_shift_pacer" where
  "schedule_insert event pacer =
    (let pacer = pacer\<lparr>heap := heap_insert event (heap pacer)\<rparr>;
         n = length (heap pacer);
         st = (stats pacer)\<lparr>scheduled_events := scheduled_events (stats pacer) + 1, heap_current := n\<rparr>
     in pacer\<lparr>stats := (if n > heap_peak st then st\<lparr>heap_peak := n\<rparr> else st)\<rparr>)"

definition tcp_shift_pacer_schedule ::
    "(nat \<Rightarrow> bool) \<Rightarrow> settime \<Rightarrow> tcp_shift_pacer \<Rightarrow> tcp_shift_pacer_event \<Rightarrow> int \<times> tcp_shift_pacer" where
  "tcp_shift_pacer_schedule realloc_ok settime pacer event =
    (if timer_fd pacer < 0 \<or> deadline_ns event = 0 then (-1, pacer)
     else
       let (r, pacer) = tcp_shift_pacer_reserve realloc_ok pacer
       in if r < 0 then (-1, pacer)
          else
            let (r, pacer) = tcp_shift_pacer_sync_timer settime (schedule_insert event pacer)
            in if r < 0 then (-1, schedule_rollback event pacer) else (0, pacer))"

text \<open>The result code, the new state and \<^verbatim>\<open>*cancelled\<close>.\<close>

definition tcp_shift_pacer_cancel ::
    "settime \<Rightarrow> tcp_shift_pacer \<Rightarrow> u64 \<Rightarrow> u32 \<Rightarrow> nat \<Rightarrow> int \<times> tcp_shift_pacer \<times> nat" where
  "tcp_shift_pacer_cancel settime pacer fid gen cancelled =
    (if timer_fd pacer < 0 then (-1, pacer, cancelled)
     else
       let removed = length (filter (\<lambda>e. flow_id e = fid \<and> generation e = gen) (heap pacer))
       in if removed = 0 then (0, pacer, 0)
          else
            let pacer = pacer\<lparr>heap := heap_cancel fid gen (heap pacer)\<rparr>;
                pacer = pacer\<lparr>stats := (stats pacer)
                  \<lparr>cancelled_events := cancelled_events (stats pacer) + of_nat removed,
                   heap_current := length (heap pacer)\<rparr>\<rparr>;
                (r, pacer) = tcp_shift_pacer_sync_timer settime pacer
            in if r < 0 then (-1, pacer, 0) else (0, pacer, removed))"

text \<open>The result code and \<^verbatim>\<open>*event\<close> where it is written.\<close>

definition tcp_shift_pacer_peek ::
    "tcp_shift_pacer \<Rightarrow> int \<times> tcp_shift_pacer_event option" where
  "tcp_shift_pacer_peek pacer =
    (if timer_fd pacer < 0 then (-1, None)
     else case heap pacer of [] \<Rightarrow> (0, None) | first # _ \<Rightarrow> (1, Some first))"

definition release_stats ::
    "u64 \<Rightarrow> tcp_shift_pacer_event \<Rightarrow> nat \<Rightarrow> tcp_shift_pacer_stats \<Rightarrow> tcp_shift_pacer_stats" where
  "release_stats now_ns event n st =
    (let st = st\<lparr>released_events := released_events st + 1,
                 released_bytes := released_bytes st + u64_of (event_bytes event),
                 last_requested_deadline_ns := deadline_ns event,
                 last_actual_release_ns := now_ns,
                 last_lateness_ns :=
                   (if now_ns > deadline_ns event then now_ns - deadline_ns event else 0)\<rparr>;
         st = (if last_lateness_ns st > max_lateness_ns st
               then st\<lparr>max_lateness_ns := last_lateness_ns st\<rparr> else st)
     in st\<lparr>heap_current := n\<rparr>)"

definition tcp_shift_pacer_pop_due ::
    "settime \<Rightarrow> tcp_shift_pacer \<Rightarrow> u64 \<Rightarrow> int \<times> tcp_shift_pacer \<times> tcp_shift_pacer_event option" where
  "tcp_shift_pacer_pop_due settime pacer now_ns =
    (if timer_fd pacer < 0 then (-1, pacer, None)
     else case heap pacer of
       [] \<Rightarrow> (0, pacer, None)
     | event # _ \<Rightarrow>
         if deadline_ns event > now_ns then (0, pacer, None)
         else
           let pacer = pacer\<lparr>heap := heap_pop (heap pacer)\<rparr>;
               pacer = pacer\<lparr>stats := release_stats now_ns event (length (heap pacer)) (stats pacer)\<rparr>;
               (r, pacer) = tcp_shift_pacer_sync_timer settime pacer
           in if r < 0 then (-1, pacer, Some event) else (1, pacer, Some event))"

definition tcp_shift_pacer_consume_timer ::
    "timer_read \<Rightarrow> tcp_shift_pacer \<Rightarrow> u64 \<Rightarrow> int \<times> tcp_shift_pacer \<times> u64" where
  "tcp_shift_pacer_consume_timer rd pacer expirations =
    (if timer_fd pacer < 0 then (-1, pacer, expirations)
     else case rd of
       Read_would_block \<Rightarrow> (0, pacer, 0)
     | Read_error \<Rightarrow> (-1, pacer, expirations)
     | Read_short \<Rightarrow> (-1, pacer, expirations)
     | Read_value value \<Rightarrow>
         (1, pacer\<lparr>stats := (stats pacer)\<lparr>timer_expirations := timer_expirations (stats pacer) + value\<rparr>\<rparr>,
          value))"

definition tcp_shift_pacer_get_stats :: "tcp_shift_pacer \<Rightarrow> tcp_shift_pacer_stats" where
  "tcp_shift_pacer_get_stats pacer = stats pacer"

section \<open>The release loop\<close>

text \<open>The pacing part of \<^verbatim>\<open>struct tcp_shift_lwip_loop\<close>; the rest of the process state that a
  release callback may change is the extension of the record.\<close>

record tcp_shift_lwip_loop =
  loop_pacer :: tcp_shift_pacer
  pacing_wakeups :: u64
  pacing_release_callbacks :: u64
  pacing_callback_errors :: u64

type_synonym 'a release_callback =
  "tcp_shift_pacer_event \<Rightarrow> u64 \<Rightarrow> 'a tcp_shift_lwip_loop_scheme \<Rightarrow>
   int \<times> 'a tcp_shift_lwip_loop_scheme"


text \<open>
  The \<^verbatim>\<open>for (;;)\<close> loop of \<^verbatim>\<open>tcp_shift_lwip_loop_pacer_ready\<close>. The registered release callback
  is a parameter, which may call back into the scheduler; the log lists the events handed to
  it, oldest first. Not ending is \<open>None\<close>.
\<close>

partial_function (option) pacer_ready_loop ::
    "settime \<Rightarrow> 'a release_callback option \<Rightarrow> u64 \<Rightarrow> 'a tcp_shift_lwip_loop_scheme \<Rightarrow>
     tcp_shift_pacer_event list \<Rightarrow>
     (int \<times> 'a tcp_shift_lwip_loop_scheme \<times> tcp_shift_pacer_event list) option" where
  "pacer_ready_loop settime release now_ns loop log =
    (case tcp_shift_pacer_pop_due settime (loop_pacer loop) now_ns of (r, pacer, slot) \<Rightarrow>
       if r < 0 then Some (-1, loop\<lparr>loop_pacer := pacer\<rparr>, log)
       else if r = 0 then Some (0, loop\<lparr>loop_pacer := pacer\<rparr>, log)
       else case release of
         None \<Rightarrow> Some (-1, loop\<lparr>loop_pacer := pacer\<rparr>, log)
       | Some callback \<Rightarrow>
           (case callback (the slot) now_ns
                   (loop\<lparr>loop_pacer := pacer,
                         pacing_release_callbacks := pacing_release_callbacks loop + 1\<rparr>) of
              (c, loop) \<Rightarrow>
                if c < 0
                then Some (-1, loop\<lparr>pacing_callback_errors := pacing_callback_errors loop + 1\<rparr>,
                           log @ [the slot])
                else pacer_ready_loop settime release now_ns loop (log @ [the slot])))"

text \<open>\<open>clock\<close> is the reading of \<^verbatim>\<open>tcp_shift_lwip_loop_monotonic_ns\<close>, \<open>None\<close> when it fails.\<close>

definition tcp_shift_lwip_loop_pacer_ready ::
    "settime \<Rightarrow> timer_read \<Rightarrow> u64 option \<Rightarrow> 'a release_callback option \<Rightarrow>
     'a tcp_shift_lwip_loop_scheme \<Rightarrow> u32 \<Rightarrow>
     (int \<times> 'a tcp_shift_lwip_loop_scheme \<times> tcp_shift_pacer_event list) option" where
  "tcp_shift_lwip_loop_pacer_ready settime rd clock release loop events =
    (if events AND (EPOLLERR OR EPOLLHUP) \<noteq> 0 then Some (-1, loop, [])
     else if events AND EPOLLIN = 0 then Some (0, loop, [])
     else
       let (r, pacer, expirations) = tcp_shift_pacer_consume_timer rd (loop_pacer loop) 0;
           loop = loop\<lparr>loop_pacer := pacer, pacing_wakeups := pacing_wakeups loop + 1\<rparr>
       in if r < 0 then Some (-1, loop, [])
          else if r = 0 \<or> expirations = 0 then Some (0, loop, [])
          else case clock of
            None \<Rightarrow> Some (-1, loop, [])
          | Some now_ns \<Rightarrow> pacer_ready_loop settime release now_ns loop [])"

section \<open>The scheduler invariant\<close>

text \<open>
  The heap is ordered and fits its allocation and its hard bound, every queued deadline is a
  real time, and the programmed timer is the earliest queued deadline (disarmed when empty).
\<close>

definition timer_synced :: "tcp_shift_pacer \<Rightarrow> bool" where
  "timer_synced p \<longleftrightarrow>
    armed_deadline_ns p = (case heap p of [] \<Rightarrow> 0 | first # _ \<Rightarrow> deadline_ns first)"

definition heap_ok :: "tcp_shift_pacer \<Rightarrow> bool" where
  "heap_ok p \<longleftrightarrow> is_heap (heap p) \<and> length (heap p) \<le> heap_cap p \<and> heap_cap p \<le> heap_max p \<and>
    heap_max p \<le> SIZE_MAX div sizeof_event \<and> (\<forall>e \<in> set (heap p). deadline_ns e \<noteq> 0) \<and>
    0 \<le> timer_fd p"

definition pacer_inv :: "tcp_shift_pacer \<Rightarrow> bool" where
  "pacer_inv p \<longleftrightarrow> heap_ok p \<and> timer_synced p \<and> heap_current (stats p) = length (heap p)"

abbreviation queued :: "tcp_shift_pacer \<Rightarrow> tcp_shift_pacer_event multiset" where
  "queued p \<equiv> mset (heap p)"

lemma sync_timer_ok:
  assumes "tcp_shift_pacer_sync_timer settime p = (r, p')" and "\<not> r < 0"
  shows "r = 0" and "p' = p\<lparr>armed_deadline_ns := armed_deadline_ns p', stats := stats p'\<rparr>"
    and "armed_deadline_ns p' = (case heap p of [] \<Rightarrow> 0 | first # _ \<Rightarrow> deadline_ns first)"
    and "heap_current (stats p') = heap_current (stats p)"
    and "scheduled_events (stats p') = scheduled_events (stats p)"
  using assms by (cases "heap p"; force simp: tcp_shift_pacer_sync_timer_def Let_def split: if_splits)+

lemma sync_timer_failed:
  assumes "tcp_shift_pacer_sync_timer settime p = (r, p')" and "r < 0"
  shows "r = -1" and "p' = p" and "\<exists>spec. \<not> settime (timer_fd p) spec"
  using assms
  by (cases "heap p"; force simp: tcp_shift_pacer_sync_timer_def Let_def split: if_splits)+

text \<open>A state whose heap is in order becomes a valid state when the timer call succeeds.\<close>

lemma sync_timer_inv:
  assumes "tcp_shift_pacer_sync_timer settime p = (r, p')" and "\<not> r < 0" and "heap_ok p"
    and "heap_current (stats p) = length (heap p)"
  shows "pacer_inv p'" and "heap p' = heap p" and "heap_cap p' = heap_cap p"
    and "heap_max p' = heap_max p" and "timer_fd p' = timer_fd p"
proof -
  note ok = sync_timer_ok [OF assms(1,2)]
  show eq: "heap p' = heap p" "heap_cap p' = heap_cap p" "heap_max p' = heap_max p"
    "timer_fd p' = timer_fd p" by (subst ok(2), simp)+
  show "pacer_inv p'" using assms(3,4) eq ok(3,4)
    by (simp add: pacer_inv_def heap_ok_def timer_synced_def)
qed

lemma mset_remove_nth:
  assumes "i < length h"
  shows "mset (take (length h - 1) (h[i := h ! (length h - 1)])) = mset h - {#h ! i#}"
proof -
  define n where "n = length h - 1"
  then have n: "length h = Suc n" using assms by simp
  let ?g = "h[i := h ! n]"
  have "?g ! n = h ! n" using n assms by (simp add: nth_list_update)
  then have "?g = take n ?g @ [h ! n]"
    using take_Suc_conv_app_nth [of n ?g] n by simp
  then have "mset ?g = mset (take n ?g @ [h ! n])" by (rule arg_cong)
  then have "mset ?g = add_mset (h ! n) (mset (take n ?g))" by simp
  moreover have "mset ?g = add_mset (h ! n) (mset h - {#h ! i#})"
    using assms by (simp add: mset_update)
  ultimately show ?thesis unfolding n_def [symmetric] by simp
qed

lemma rollback_matches_eq: "rollback_matches e e' \<longleftrightarrow> e' = e"
  by (cases e; cases e') (auto simp: rollback_matches_def)

text \<open>The rollback takes out exactly one copy of the event.\<close>

lemma rollback_removes:
  assumes "e \<in> set (heap p)"
  shows "queued (schedule_rollback e p) = queued p - {#e#}"
    and "is_heap (heap (schedule_rollback e p))"
    and "schedule_rollback e p = p\<lparr>heap := heap (schedule_rollback e p),
      stats := (stats p)\<lparr>heap_current := length (heap (schedule_rollback e p)),
        scheduled_events := scheduled_events (stats p) - 1\<rparr>\<rparr>"
proof -
  obtain i where i: "List.find (\<lambda>i. rollback_matches e (heap p ! i)) [0..<length (heap p)] = Some i"
    "i < length (heap p)" "heap p ! i = e"
  proof -
    have "List.find (\<lambda>i. rollback_matches e (heap p ! i)) [0..<length (heap p)] \<noteq> None"
      using assms by (auto simp: find_None_iff rollback_matches_eq in_set_conv_nth)
    then obtain i where "List.find (\<lambda>i. rollback_matches e (heap p ! i)) [0..<length (heap p)] = Some i"
      by auto
    moreover from this have "i < length (heap p)" "heap p ! i = e"
      by (auto simp: find_Some_iff rollback_matches_eq)
    ultimately show thesis by (rule that)
  qed
  show "queued (schedule_rollback e p) = queued p - {#e#}"
    using i mset_remove_nth [of i "heap p"] by (simp add: schedule_rollback_def Let_def heapify_mset)
  show "is_heap (heap (schedule_rollback e p))"
    using i by (simp add: schedule_rollback_def Let_def heapify_heap)
  show "schedule_rollback e p = p\<lparr>heap := heap (schedule_rollback e p),
      stats := (stats p)\<lparr>heap_current := length (heap (schedule_rollback e p)),
        scheduled_events := scheduled_events (stats p) - 1\<rparr>\<rparr>"
    using i by (simp add: schedule_rollback_def Let_def)
qed

section \<open>What each operation keeps\<close>

lemma reserve_ok:
  assumes "tcp_shift_pacer_reserve realloc_ok p = (r, p')" and "pacer_inv p"
  shows "pacer_inv p'" and "heap p' = heap p" and "timer_fd p' = timer_fd p"
    and "heap_max p' = heap_max p" and "armed_deadline_ns p' = armed_deadline_ns p"
    and "\<not> r < 0 \<Longrightarrow> length (heap p') < heap_cap p'"
    and "scheduled_events (stats p') = scheduled_events (stats p)"
proof -
  have wide: "heap_cap p * 2 mod (SIZE_MAX + 1) = heap_cap p * 2"
    using assms(2) by (simp add: pacer_inv_def heap_ok_def SIZE_MAX_def sizeof_event_def)
  have *: "p' = p \<and> (\<not> r < 0 \<longrightarrow> length (heap p) < heap_cap p) \<or>
    (\<exists>c. p' = p\<lparr>heap_cap := c, stats := (stats p)\<lparr>heap_capacity := c\<rparr>\<rparr> \<and>
       length (heap p) < c \<and> c \<le> heap_max p)"
    using assms unfolding tcp_shift_pacer_reserve_def wide
    by (auto simp: Let_def TCP_SHIFT_PACER_INITIAL_CAPACITY_def pacer_inv_def
        heap_ok_def not_less split: if_splits)
  then show "pacer_inv p'" "heap p' = heap p" "timer_fd p' = timer_fd p"
    "heap_max p' = heap_max p" "armed_deadline_ns p' = armed_deadline_ns p"
    "\<not> r < 0 \<Longrightarrow> length (heap p') < heap_cap p'"
    "scheduled_events (stats p') = scheduled_events (stats p)"
    using assms(2) by (auto simp: pacer_inv_def heap_ok_def timer_synced_def)
qed

lemma insert_ok:
  assumes "pacer_inv p" and "length (heap p) < heap_cap p" and "deadline_ns e \<noteq> 0"
  shows "heap_ok (schedule_insert e p)" and "queued (schedule_insert e p) = add_mset e (queued p)"
    and "heap_current (stats (schedule_insert e p)) = length (heap (schedule_insert e p))"
    and "scheduled_events (stats (schedule_insert e p)) = scheduled_events (stats p) + 1"
    and "timer_fd (schedule_insert e p) = timer_fd p"
    and "heap_cap (schedule_insert e p) = heap_cap p"
    and "heap_max (schedule_insert e p) = heap_max p"
    and "armed_deadline_ns (schedule_insert e p) = armed_deadline_ns p"
proof -
  have len: "length (heap_insert e (heap p)) = Suc (length (heap p))"
    by (metis heap_insert_mset size_add_mset size_mset)
  have set: "set (heap_insert e (heap p)) = insert e (set (heap p))"
    by (metis heap_insert_mset set_mset_add_mset_insert set_mset_mset)
  show "heap_ok (schedule_insert e p)" "queued (schedule_insert e p) = add_mset e (queued p)"
    "heap_current (stats (schedule_insert e p)) = length (heap (schedule_insert e p))"
    "scheduled_events (stats (schedule_insert e p)) = scheduled_events (stats p) + 1"
    "timer_fd (schedule_insert e p) = timer_fd p"
    "heap_cap (schedule_insert e p) = heap_cap p"
    "heap_max (schedule_insert e p) = heap_max p"
    "armed_deadline_ns (schedule_insert e p) = armed_deadline_ns p"
    using assms len set
    by (auto simp: schedule_insert_def Let_def heap_ok_def pacer_inv_def heap_insert_heap heap_insert_mset)
qed

lemma heap_head_deadline:
  assumes "is_heap h" and "is_heap h'" and "mset h = mset h'"
  shows "(case h of [] \<Rightarrow> 0 | first # _ \<Rightarrow> deadline_ns first) =
    (case h' of [] \<Rightarrow> 0 | first # _ \<Rightarrow> deadline_ns first)"
proof (cases "mset h = {#}")
  case False
  then have "h ! 0 = h' ! 0" using array_heap.top_unique [OF assms] by simp
  then show ?thesis using False assms(3) by (cases h; cases h') auto
qed (use assms(3) in auto)

lemma schedule_spec:
  assumes "tcp_shift_pacer_schedule realloc_ok settime p e = (r, p')" and "pacer_inv p"
  shows "pacer_inv p'"
    and "r = 0 \<and> queued p' = add_mset e (queued p) \<and>
          scheduled_events (stats p') = scheduled_events (stats p) + 1 \<or>
        r = -1 \<and> queued p' = queued p \<and> armed_deadline_ns p' = armed_deadline_ns p \<and>
          scheduled_events (stats p') = scheduled_events (stats p)"
    and "heap_max p' = heap_max p"
proof -
  have "pacer_inv p' \<and> heap_max p' = heap_max p \<and>
    (r = 0 \<and> queued p' = add_mset e (queued p) \<and>
       scheduled_events (stats p') = scheduled_events (stats p) + 1 \<or>
     r = -1 \<and> queued p' = queued p \<and> armed_deadline_ns p' = armed_deadline_ns p \<and>
       scheduled_events (stats p') = scheduled_events (stats p))"
  proof (cases "timer_fd p < 0 \<or> deadline_ns e = 0")
    case True
    then show ?thesis using assms by (auto simp: tcp_shift_pacer_schedule_def)
  next
    case False
    obtain r1 p1 where res: "tcp_shift_pacer_reserve realloc_ok p = (r1, p1)" by fastforce
    note p1 = reserve_ok [OF res assms(2)]
    show ?thesis
    proof (cases "r1 < 0")
      case True
      then show ?thesis using False res assms p1 by (auto simp: tcp_shift_pacer_schedule_def)
    next
      case reserved: False
      let ?p2 = "schedule_insert e p1"
      note p2 = insert_ok [OF p1(1) p1(6) [OF reserved], of e]
      obtain r3 p3 where sync: "tcp_shift_pacer_sync_timer settime ?p2 = (r3, p3)" by fastforce
      show ?thesis
      proof (cases "r3 < 0")
        case True
        then have "p3 = ?p2" using sync_timer_failed(2) sync by blast
        then have res': "r = -1" "p' = schedule_rollback e ?p2"
          using assms(1) False res reserved sync True by (auto simp: tcp_shift_pacer_schedule_def)
        have ein: "e \<in> set (heap ?p2)"
          using p2(2) False by (metis set_mset_mset union_single_eq_member)
        note rb = rollback_removes [OF ein, folded res'(2)]
        have q: "queued p' = queued p" using rb(1) p2(2) p1(2) False by simp
        have heap1: "is_heap (heap p)" using assms(2) by (simp add: pacer_inv_def heap_ok_def)
        have fields: "timer_fd p' = timer_fd ?p2" "heap_cap p' = heap_cap ?p2"
          "heap_max p' = heap_max ?p2" "armed_deadline_ns p' = armed_deadline_ns ?p2"
          "heap_current (stats p') = length (heap p')"
          "scheduled_events (stats p') = scheduled_events (stats ?p2) - 1"
          by (subst rb(3), simp)+
        have "pacer_inv p'"
          using p1(1) p2(5-8) False fields rb(2) q heap_head_deadline [OF rb(2) heap1 q]
            mset_eq_setD [OF q] mset_eq_length [OF q] p1(2)
          by (auto simp: pacer_inv_def heap_ok_def timer_synced_def)
        then show ?thesis using res' q fields p1 p2 False by auto
      next
        case False': False
        then have res': "r = 0" "p' = p3"
          using assms(1) False res reserved sync by (auto simp: tcp_shift_pacer_schedule_def)
        note s = sync_timer_inv [OF sync False'] and t = sync_timer_ok(5) [OF sync False']
        show ?thesis using s p2 p1 t res' False by auto
      qed
    qed
  qed
  then show "pacer_inv p'"
    and "r = 0 \<and> queued p' = add_mset e (queued p) \<and>
          scheduled_events (stats p') = scheduled_events (stats p) + 1 \<or>
        r = -1 \<and> queued p' = queued p \<and> armed_deadline_ns p' = armed_deadline_ns p \<and>
          scheduled_events (stats p') = scheduled_events (stats p)"
    and "heap_max p' = heap_max p" by auto
qed

lemma length_heap_pop [simp]: "is_heap h \<Longrightarrow> h \<noteq> [] \<Longrightarrow> length (heap_pop h) = length h - 1"
  by (metis heap_pop_spec(2) heap_top_in_mset size_Diff_singleton size_mset)

lemma cancel_heap_ok:
  assumes "heap_ok p"
  shows "heap_ok (p\<lparr>heap := heap_cancel fid gen (heap p)\<rparr>)"
proof -
  have "mset (heap_cancel fid gen (heap p)) \<subseteq># mset (heap p)" by (simp add: heap_cancel_spec(2))
  then have "length (heap_cancel fid gen (heap p)) \<le> length (heap p)"
    and "set (heap_cancel fid gen (heap p)) \<subseteq> set (heap p)"
    by (metis size_mset size_mset_mono, metis set_mset_mono set_mset_mset)
  then show ?thesis using assms by (auto simp: heap_ok_def heap_cancel_spec(1))
qed

lemma pop_heap_ok:
  assumes "heap_ok p" and "heap p \<noteq> []"
  shows "heap_ok (p\<lparr>heap := heap_pop (heap p)\<rparr>)"
proof -
  have h: "is_heap (heap p)" using assms(1) by (simp add: heap_ok_def)
  have "set (heap_pop (heap p)) \<subseteq> set (heap p)"
    by (metis heap_pop_spec(2) [OF h assms(2)] diff_subset_eq_self set_mset_mono set_mset_mset)
  then show ?thesis using assms h by (auto simp: heap_ok_def heap_pop_spec(1))
qed

lemma cancel_spec:
  assumes "tcp_shift_pacer_cancel settime p fid gen c0 = (r, p', c)" and "pacer_inv p"
  shows "queued p' = filter_mset (\<lambda>e. \<not> (flow_id e = fid \<and> generation e = gen)) (queued p)"
    and "heap_ok p'" and "heap_max p' = heap_max p"
    and "r = 0 \<and> pacer_inv p' \<and> c = size (filter_mset (\<lambda>e. flow_id e = fid \<and> generation e = gen) (queued p))
      \<or> r = -1 \<and> c = 0 \<and> (\<exists>spec. \<not> settime (timer_fd p) spec)"
proof -
  let ?hit = "\<lambda>e. flow_id e = fid \<and> generation e = gen"
  let ?n = "length (filter ?hit (heap p))"
  have fd: "\<not> timer_fd p < 0" and ok: "heap_ok p" using assms(2) by (auto simp: pacer_inv_def heap_ok_def)
  have n: "?n = size (filter_mset ?hit (queued p))"
    using size_mset [of "filter ?hit (heap p)"] by (simp only: mset_filter)
  have "queued p' = filter_mset (\<lambda>e. \<not> ?hit e) (queued p) \<and> heap_ok p' \<and> heap_max p' = heap_max p \<and>
      (r = 0 \<and> pacer_inv p' \<and> c = ?n \<or> r = -1 \<and> c = 0 \<and> (\<exists>spec. \<not> settime (timer_fd p) spec))"
  proof (cases "?n = 0")
    case True
    then have "filter_mset (\<lambda>e. \<not> ?hit e) (queued p) = queued p"
      by (simp add: filter_mset_eq_conv filter_empty_conv)
    then show ?thesis using True assms fd ok
      by (simp add: tcp_shift_pacer_cancel_def Let_def)
  next
    case False
    define p1 where "p1 = p\<lparr>heap := heap_cancel fid gen (heap p),
      stats := (stats p)\<lparr>cancelled_events := cancelled_events (stats p) + of_nat ?n,
        heap_current := length (heap_cancel fid gen (heap p))\<rparr>\<rparr>"
    have p1: "heap_ok p1" "heap_current (stats p1) = length (heap p1)"
      "queued p1 = filter_mset (\<lambda>e. \<not> ?hit e) (queued p)" "heap_max p1 = heap_max p"
      "timer_fd p1 = timer_fd p"
      using cancel_heap_ok [OF ok, of fid gen] by (simp_all add: p1_def heap_ok_def heap_cancel_spec(2))
    obtain r2 p2 where sync: "tcp_shift_pacer_sync_timer settime p1 = (r2, p2)" by fastforce
    have res: "(r, p', c) = (if r2 < 0 then (-1, p2, 0) else (0, p2, ?n))"
      using assms(1) fd False sync by (simp add: tcp_shift_pacer_cancel_def Let_def p1_def)
    show ?thesis
    proof (cases "r2 < 0")
      case True
      then show ?thesis using res p1 sync_timer_failed [OF sync True] by simp
    next
      case s: False
      then show ?thesis using res p1 sync_timer_inv [OF sync s p1(1,2)] by (simp add: pacer_inv_def)
    qed
  qed
  then show "queued p' = filter_mset (\<lambda>e. \<not> (flow_id e = fid \<and> generation e = gen)) (queued p)"
    and "heap_ok p'" and "heap_max p' = heap_max p"
    and "r = 0 \<and> pacer_inv p' \<and> c = size (filter_mset (\<lambda>e. flow_id e = fid \<and> generation e = gen) (queued p))
      \<or> r = -1 \<and> c = 0 \<and> (\<exists>spec. \<not> settime (timer_fd p) spec)"
    by (auto simp: n)
qed

lemma pop_due_cases:
  assumes "tcp_shift_pacer_pop_due settime p now = (r, p', slot)" and "pacer_inv p"
  obtains (none) "r = 0" "p' = p" "slot = None" "\<forall>e \<in># queued p. now < deadline_ns e"
  | (released) e where "r = 1" "slot = Some e" "deadline_ns e \<le> now" "e \<in># queued p"
      "\<forall>x \<in># queued p. event_key e \<le> event_key x" "queued p' = queued p - {#e#}" "pacer_inv p'"
      "heap_max p' = heap_max p"
  | (failed) "r = -1" "\<exists>spec. \<not> settime (timer_fd p) spec" "heap_ok p'"
proof (cases "heap p")
  case Nil
  then show thesis using assms none
    by (simp add: tcp_shift_pacer_pop_due_def pacer_inv_def heap_ok_def)
next
  case (Cons e es)
  have fd: "\<not> timer_fd p < 0" and ok: "heap_ok p" and h: "is_heap (heap p)"
    using assms(2) by (auto simp: pacer_inv_def heap_ok_def)
  have least: "\<forall>x \<in># queued p. event_key e \<le> event_key x"
    using heap_top_least [OF h] Cons by auto
  show thesis
  proof (cases "deadline_ns e > now")
    case True
    then have "\<forall>x \<in># queued p. now < deadline_ns x"
      using least by (auto intro: order_less_le_trans dest!: bspec event_key_deadline)
    then show thesis using none assms(1) fd Cons True by (simp add: tcp_shift_pacer_pop_due_def)
  next
    case False
    define p1 where "p1 = p\<lparr>heap := heap_pop (heap p),
      stats := release_stats now e (length (heap_pop (heap p))) (stats p)\<rparr>"
    have cur: "heap_current (release_stats now e n st) = n" for n st
      by (simp add: release_stats_def Let_def)
    have p1: "heap_ok p1" "heap_current (stats p1) = length (heap p1)"
      "queued p1 = queued p - {#e#}" "heap_max p1 = heap_max p" "timer_fd p1 = timer_fd p"
      using pop_heap_ok [OF ok] heap_pop_spec(2) [OF h] Cons cur
      by (simp_all add: p1_def heap_ok_def)
    obtain r2 p2 where sync: "tcp_shift_pacer_sync_timer settime p1 = (r2, p2)" by fastforce
    have res: "(r, p', slot) = (if r2 < 0 then (-1, p2, Some e) else (1, p2, Some e))"
      using assms(1) fd Cons False sync by (simp add: tcp_shift_pacer_pop_due_def Let_def p1_def)
    show thesis
    proof (cases "r2 < 0")
      case True
      then show thesis using failed res p1 sync_timer_failed [OF sync True] by simp
    next
      case s: False
      show thesis using released [of e] res s p1 least False sync_timer_inv [OF sync s] Cons by simp
    qed
  qed
qed

section \<open>Reachable scheduler states\<close>

text \<open>
  The sequences of scheduler calls that the process makes: it stops at the first failing timer
  call of a cancel or a release, which the event loop treats as fatal.
\<close>

inductive pacer_reachable :: "nat \<Rightarrow> tcp_shift_pacer \<Rightarrow> bool" for max_events :: nat where
  init: "tcp_shift_pacer_init created p0 max_events = (0, p) \<Longrightarrow> pacer_reachable max_events p"
| schedule: "pacer_reachable max_events p \<Longrightarrow>
    tcp_shift_pacer_schedule realloc_ok settime p e = (r, p') \<Longrightarrow> pacer_reachable max_events p'"
| cancel: "pacer_reachable max_events p \<Longrightarrow>
    tcp_shift_pacer_cancel settime p fid gen c0 = (0, p', c) \<Longrightarrow> pacer_reachable max_events p'"
| pop_due: "pacer_reachable max_events p \<Longrightarrow>
    tcp_shift_pacer_pop_due settime p now = (r, p', slot) \<Longrightarrow> 0 \<le> r \<Longrightarrow> pacer_reachable max_events p'"
| consume: "pacer_reachable max_events p \<Longrightarrow>
    tcp_shift_pacer_consume_timer rd p n0 = (r, p', n) \<Longrightarrow> pacer_reachable max_events p'"

lemma consume_timer_fields:
  assumes "tcp_shift_pacer_consume_timer rd p n0 = (r, p', n)"
  shows "pacer_inv p' = pacer_inv p" and "heap p' = heap p" and "heap_max p' = heap_max p"
    and "timer_fd p' = timer_fd p"
  using assms
  by (auto simp: tcp_shift_pacer_consume_timer_def pacer_inv_def heap_ok_def timer_synced_def
      split: if_splits timer_read.splits)

lemma init_pacer_inv:
  "tcp_shift_pacer_init created p0 n = (0, p) \<Longrightarrow> pacer_inv p \<and> heap_max p = n \<and> heap p = []"
  by (auto simp: tcp_shift_pacer_init_def Let_def pacer_zero_def pacer_stats_zero_def pacer_inv_def
      heap_ok_def timer_synced_def heap_from_def split: if_splits)

lemma pacer_reachable_inv:
  "pacer_reachable max_events p \<Longrightarrow> pacer_inv p \<and> heap_max p = max_events"
proof (induction rule: pacer_reachable.induct)
  case (init created p0 p)
  then show ?case using init_pacer_inv by blast
next
  case (schedule p realloc_ok settime e r p')
  then show ?case using schedule_spec [OF schedule.hyps(2)] by simp
next
  case (cancel p settime fid gen c0 p' c)
  then show ?case using cancel_spec [OF cancel.hyps(2)] by simp
next
  case (pop_due p settime now r p' slot)
  then have inv: "pacer_inv p" "heap_max p = max_events" by auto
  show ?case by (rule pop_due_cases [OF pop_due.hyps(2) inv(1)]) (use inv pop_due.hyps(3) in auto)
next
  case (consume p rd n0 r p' n)
  then show ?case using consume_timer_fields [OF consume.hyps(2)] by simp
qed

section \<open>Draining the queue\<close>

abbreviation due :: "u64 \<Rightarrow> tcp_shift_pacer_event multiset \<Rightarrow> tcp_shift_pacer_event multiset" where
  "due now q \<equiv> filter_mset (\<lambda>e. deadline_ns e \<le> now) q"

text \<open>A callback that succeeds, keeps the scheduler valid and adds no event that is already due.\<close>

definition release_keeps_due :: "u64 \<Rightarrow> 'a release_callback \<Rightarrow> bool" where
  "release_keeps_due now callback \<longleftrightarrow> (\<forall>e lp c lp'. pacer_inv (loop_pacer lp) \<longrightarrow>
    callback e now lp = (c, lp') \<longrightarrow> 0 \<le> c \<and> pacer_inv (loop_pacer lp') \<and>
      due now (queued (loop_pacer lp')) = due now (queued (loop_pacer lp)))"

lemma pacer_ready_loop_drains:
  assumes "pacer_inv (loop_pacer lp)" and "release_keeps_due now callback"
    and "\<And>fd spec. settime fd spec"
  shows "\<exists>lp' es. pacer_ready_loop settime (Some callback) now lp log = Some (0, lp', log @ es) \<and>
    mset es = due now (queued (loop_pacer lp)) \<and>
    sorted_wrt (\<lambda>a b. event_key a \<le> event_key b) es \<and>
    due now (queued (loop_pacer lp')) = {#} \<and> pacer_inv (loop_pacer lp')"
  using assms(1)
proof (induction "size (due now (queued (loop_pacer lp)))" arbitrary: lp log rule: less_induct)
  case less
  obtain r p1 slot where pop: "tcp_shift_pacer_pop_due settime (loop_pacer lp) now = (r, p1, slot)"
    using prod_cases3 by blast
  from pop less.prems show ?case
  proof (cases rule: pop_due_cases)
    case none
    then have "due now (queued (loop_pacer lp)) = {#}" by (auto simp: filter_mset_eq_mempty_iff)
    then show ?thesis using none pop less.prems
      by (subst pacer_ready_loop.simps) simp
  next
    case failed
    then show ?thesis using assms(3) by blast
  next
    case (released e)
    define lp1 where "lp1 = lp\<lparr>loop_pacer := p1,
      pacing_release_callbacks := pacing_release_callbacks lp + 1\<rparr>"
    obtain c lp2 where cb: "callback e now lp1 = (c, lp2)" by fastforce
    have lp1: "loop_pacer lp1 = p1" by (simp add: lp1_def)
    have lp2: "0 \<le> c" "pacer_inv (loop_pacer lp2)"
      "due now (queued (loop_pacer lp2)) = due now (queued p1)"
      using assms(2) cb released(7) lp1 unfolding release_keeps_due_def by metis+
    have q: "due now (queued (loop_pacer lp)) = add_mset e (due now (queued p1))"
      using released(3,4,6) by (metis filter_mset_add_mset insert_DiffM)
    then obtain lp' es where IH:
      "pacer_ready_loop settime (Some callback) now lp2 (log @ [e]) = Some (0, lp', log @ e # es)"
      "mset es = due now (queued p1)" "sorted_wrt (\<lambda>a b. event_key a \<le> event_key b) es"
      "due now (queued (loop_pacer lp')) = {#}" "pacer_inv (loop_pacer lp')"
      using less.hyps [of lp2 "log @ [e]"] lp2 by auto
    have step: "pacer_ready_loop settime (Some callback) now lp log = Some (0, lp', log @ e # es)"
      using pop released(1,2) cb lp2(1) IH(1) by (subst pacer_ready_loop.simps) (simp add: lp1_def)
    have "event_key e \<le> event_key x" if "x \<in> set es" for x
    proof -
      have "x \<in># due now (queued p1)" using that IH(2) by (metis set_mset_mset)
      then show ?thesis using released(5,6) by (auto dest: in_diffD)
    qed
    then show ?thesis using step IH q by (intro exI [of _ lp'] exI [of _ "e # es"]) simp
  qed
qed

section \<open>Properties\<close>


definition demo_event :: "u64 \<Rightarrow> u64 \<Rightarrow> tcp_shift_pacer_event" where
  "demo_event d fid = \<lparr>deadline_ns = d, flow_id = fid, generation = 1, event_bytes = 1000\<rparr>"

definition demo_pacer :: tcp_shift_pacer where
  "demo_pacer = snd (tcp_shift_pacer_schedule (\<lambda>_. True) (\<lambda>_ _. True)
    (snd (tcp_shift_pacer_init 3 pacer_zero 4)) (demo_event 50 7))"

lemmas pacer_eval = tcp_shift_pacer_schedule_def tcp_shift_pacer_init_def tcp_shift_pacer_reserve_def
  tcp_shift_pacer_sync_timer_def schedule_insert_def heap_insert_def tcp_shift_pacer_sift_up.simps
  pacer_zero_def pacer_stats_zero_def demo_event_def SIZE_MAX_def sizeof_event_def
  TCP_SHIFT_PACER_INITIAL_CAPACITY_def Let_def

lemma demo_pacer_eval:
  "heap demo_pacer = [demo_event 50 7] \<and> armed_deadline_ns demo_pacer = 50 \<and>
   heap_current (stats demo_pacer) = 1 \<and> heap_max demo_pacer = 4 \<and> timer_fd demo_pacer = 3"
  by (simp add: demo_pacer_def pacer_eval)

lemma demo_pacer_reachable: "pacer_reachable 4 demo_pacer"
proof -
  have "tcp_shift_pacer_init 3 pacer_zero 4 = (0, snd (tcp_shift_pacer_init 3 pacer_zero 4))"
    by (simp add: pacer_eval)
  then have "pacer_reachable 4 (snd (tcp_shift_pacer_init 3 pacer_zero 4))"
    by (rule pacer_reachable.init)
  then show ?thesis unfolding demo_pacer_def
    by (rule pacer_reachable.schedule [OF _ surjective_pairing])
qed


text \<open>C19. Scheduling is transactional: from a valid state, either the call returns 0 and exactly
  the new event has been added, or it returns -1 (invalid event, full queue, failed allocation
  or failed timer call) and the queued events, the programmed deadline and the scheduled-event
  count are as before; the state is valid in both cases.\<close>

theorem pacer_schedule_transactional:
  assumes "pacer_inv p" and "tcp_shift_pacer_schedule realloc_ok settime p e = (r, p')"
  shows "pacer_inv p' \<and>
    (r = 0 \<and> mset (heap p') = add_mset e (mset (heap p)) \<and>
       scheduled_events (stats p') = scheduled_events (stats p) + 1 \<or>
     r = -1 \<and> mset (heap p') = mset (heap p) \<and> armed_deadline_ns p' = armed_deadline_ns p \<and>
       scheduled_events (stats p') = scheduled_events (stats p))"
  using schedule_spec [OF assms(2,1)] by blast

text \<open>The timer call fails while an earlier event is being scheduled: the rollback restores the
  queue.\<close>

theorem pacer_schedule_transactional_witness:
  "fst (tcp_shift_pacer_schedule (\<lambda>_. True) (\<lambda>_ _. False) demo_pacer (demo_event 20 8)) = -1 \<and>
   mset (heap (snd (tcp_shift_pacer_schedule (\<lambda>_. True) (\<lambda>_ _. False) demo_pacer (demo_event 20 8))))
     = {#demo_event 50 7#}"
proof -
  let ?s = "tcp_shift_pacer_schedule (\<lambda>_. True) (\<lambda>_ _. False) demo_pacer (demo_event 20 8)"
  have "fst ?s = -1"
    by (simp add: demo_pacer_def pacer_eval tcp_shift_pacer_swap_def tcp_shift_pacer_event_less_def)
  moreover have "pacer_inv demo_pacer" using pacer_reachable_inv [OF demo_pacer_reachable] by simp
  ultimately show ?thesis
    using pacer_schedule_transactional [OF _ surjective_pairing, of demo_pacer "\<lambda>_. True" "\<lambda>_ _. False"
        "demo_event 20 8"] demo_pacer_eval by simp
qed

text \<open>C20. Cancellation removes every queued event of exactly the given flow generation and nothing
  else, also when the timer call fails; a successful call reports how many it removed and
  leaves a valid state, and the only failure from a valid state is the timer call.\<close>

theorem pacer_cancel_exact:
  assumes "pacer_inv p" and "tcp_shift_pacer_cancel settime p fid gen c0 = (r, p', c)"
  shows "mset (heap p') = filter_mset (\<lambda>e. \<not> (flow_id e = fid \<and> generation e = gen)) (mset (heap p)) \<and>
    is_heap (heap p') \<and>
    (r = 0 \<and> pacer_inv p' \<and>
       c = size (filter_mset (\<lambda>e. flow_id e = fid \<and> generation e = gen) (mset (heap p))) \<or>
     r = -1 \<and> c = 0 \<and> (\<exists>spec. \<not> settime (timer_fd p) spec))"
  using cancel_spec [OF assms(2,1)] by (simp add: heap_ok_def)

theorem pacer_cancel_exact_witness:
  "heap (fst (snd (tcp_shift_pacer_cancel (\<lambda>_ _. True) demo_pacer 7 1 0))) = []"
proof -
  let ?c = "tcp_shift_pacer_cancel (\<lambda>_ _. True) demo_pacer 7 1 0"
  have "pacer_inv demo_pacer" using pacer_reachable_inv [OF demo_pacer_reachable] by simp
  then have "mset (heap (fst (snd ?c))) = {#}"
    using pacer_cancel_exact [of demo_pacer "\<lambda>_ _. True" 7 1 0 "fst ?c" "fst (snd ?c)" "snd (snd ?c)"]
      demo_pacer_eval by (simp add: demo_event_def)
  then show ?thesis by simp
qed



end
