(* ===== verification/Rack_Tlp.thy ===== *)
theory Rack_Tlp
  imports Prelude
begin

text \<open>
  RACK time-based loss detection and tail loss probes (RFC 8985), \<^verbatim>\<open>src/lwip/rack_tlp.h\<close> and
  \<^verbatim>\<open>src/lwip/rack_tlp.c\<close>: the per-connection state, the delivery and reordering passes, the
  DSACK-driven reordering window, the loss deadline, and the probe bookkeeping. Byte flags are
  booleans. The results: the loss timer the code asks for is exactly the time after which the
  segment is declared lost, the reordering window is bounded and its inflation dies out, the
  RACK segment only moves forward, and two probes are always separated by an RTT sample.
\<close>

datatype tcp_shift_tlp_ack_result =
  TCP_SHIFT_TLP_ACK_NONE | TCP_SHIFT_TLP_ACK_CLEARED | TCP_SHIFT_TLP_ACK_LOSS_REPAIRED

record tcp_shift_rack_tlp_state =
  rack_xmit_ts_ns :: u64
  rack_ack_ts_ns :: u64
  rack_rtt_ns :: u64
  rack_min_rtt_ns :: u64
  rack_srtt_ns :: u64
  reo_wnd_ns :: u64
  rack_end_seq :: u32
  fack :: u32
  dsack_round_end_seq :: u32
  tlp_start_seq :: u32
  tlp_end_seq :: u32
  segs_sacked :: u32
  reo_wnd_mult :: u32
  reo_wnd_persist :: u32
  reordering_seen :: bool
  dsack_round_active :: bool
  tlp_is_retrans :: bool
  rtt_sample_since_probe :: bool

record tcp_shift_rack_segment =
  xmit_ts_ns :: u64
  seq_start :: u32
  end_seq :: u32
  retransmitted :: bool
  lost :: bool

definition TCP_SHIFT_RACK_REO_WND_DIVISOR :: u64 where
  "TCP_SHIFT_RACK_REO_WND_DIVISOR = 4"

definition TCP_SHIFT_RACK_REO_WND_PERSIST_RECOVERIES :: u32 where
  "TCP_SHIFT_RACK_REO_WND_PERSIST_RECOVERIES = 16"

definition TCP_SHIFT_RACK_DEFAULT_PTO_NS :: u64 where
  "TCP_SHIFT_RACK_DEFAULT_PTO_NS = 1000000000"

definition tcp_shift_rack_add_sat_u64 :: "u64 \<Rightarrow> u64 \<Rightarrow> u64" where
  "tcp_shift_rack_add_sat_u64 left right =
    (if right > UINT64_MAX - left then UINT64_MAX else left + right)"

definition tcp_shift_rack_mul_sat_u64 :: "u64 \<Rightarrow> u64 \<Rightarrow> u64" where
  "tcp_shift_rack_mul_sat_u64 left right =
    (if left = 0 \<or> right = 0 then 0
     else if left > UINT64_MAX div right then UINT64_MAX else left * right)"

definition tcp_shift_rack_seq_after :: "u32 \<Rightarrow> u32 \<Rightarrow> bool" where
  "tcp_shift_rack_seq_after left right \<longleftrightarrow> sint (left - right) > 0"

definition tcp_shift_rack_seq_after_eq :: "u32 \<Rightarrow> u32 \<Rightarrow> bool" where
  "tcp_shift_rack_seq_after_eq left right \<longleftrightarrow> sint (left - right) \<ge> 0"

definition tcp_shift_rack_tlp_init :: tcp_shift_rack_tlp_state where
  "tcp_shift_rack_tlp_init =
    \<lparr>rack_xmit_ts_ns = 0, rack_ack_ts_ns = 0, rack_rtt_ns = 0, rack_min_rtt_ns = 0,
     rack_srtt_ns = 0, reo_wnd_ns = 0, rack_end_seq = 0, fack = 0, dsack_round_end_seq = 0,
     tlp_start_seq = 0, tlp_end_seq = 0, segs_sacked = 0, reo_wnd_mult = 1, reo_wnd_persist = 0,
     reordering_seen = False, dsack_round_active = False, tlp_is_retrans = False,
     rtt_sample_since_probe = False\<rparr>"

definition tcp_shift_rack_sent_after :: "u64 \<Rightarrow> u32 \<Rightarrow> u64 \<Rightarrow> u32 \<Rightarrow> bool" where
  "tcp_shift_rack_sent_after xmit_a seq_a xmit_b seq_b =
    (if xmit_a > xmit_b then True
     else if xmit_a < xmit_b then False
     else tcp_shift_rack_seq_after seq_a seq_b)"

definition tcp_shift_rack_set_rtt_estimates ::
    "tcp_shift_rack_tlp_state \<Rightarrow> u64 \<Rightarrow> u64 \<Rightarrow> tcp_shift_rack_tlp_state" where
  "tcp_shift_rack_set_rtt_estimates state min_rtt srtt =
    state\<lparr>rack_min_rtt_ns := min_rtt, rack_srtt_ns := srtt\<rparr>"

definition tcp_shift_rack_note_sacked_segments ::
    "tcp_shift_rack_tlp_state \<Rightarrow> u32 \<Rightarrow> tcp_shift_rack_tlp_state" where
  "tcp_shift_rack_note_sacked_segments state n = state\<lparr>segs_sacked := n\<rparr>"

definition tcp_shift_rack_note_delivered ::
    "tcp_shift_rack_tlp_state \<Rightarrow> tcp_shift_rack_segment \<Rightarrow> u64 \<Rightarrow> int \<times> tcp_shift_rack_tlp_state" where
  "tcp_shift_rack_note_delivered state segment ack_time_ns =
    (if xmit_ts_ns segment = 0 \<or> ack_time_ns < xmit_ts_ns segment then (-1, state)
     else
       let rtt = ack_time_ns - xmit_ts_ns segment
       in if retransmitted segment \<and> rack_min_rtt_ns state \<noteq> 0 \<and> rtt < rack_min_rtt_ns state
          then (0, state)
          else
            let state = state\<lparr>rack_rtt_ns := rtt, rack_ack_ts_ns := ack_time_ns\<rparr>;
                state =
                  (if tcp_shift_rack_sent_after (xmit_ts_ns segment) (end_seq segment)
                        (rack_xmit_ts_ns state) (rack_end_seq state)
                   then state\<lparr>rack_xmit_ts_ns := xmit_ts_ns segment, rack_end_seq := end_seq segment\<rparr>
                   else state)
            in (1, state))"

definition tcp_shift_rack_detect_reordering ::
    "tcp_shift_rack_tlp_state \<Rightarrow> tcp_shift_rack_segment \<Rightarrow> tcp_shift_rack_tlp_state" where
  "tcp_shift_rack_detect_reordering state segment =
    (if fack state = 0 \<or> tcp_shift_rack_seq_after (end_seq segment) (fack state)
     then state\<lparr>fack := end_seq segment\<rparr>
     else if end_seq segment \<noteq> fack state \<and> \<not> retransmitted segment
     then state\<lparr>reordering_seen := True\<rparr>
     else state)"

definition tcp_shift_rack_note_dsack ::
    "tcp_shift_rack_tlp_state \<Rightarrow> u32 \<Rightarrow> tcp_shift_rack_tlp_state" where
  "tcp_shift_rack_note_dsack state snd_nxt =
    (if dsack_round_active state then state
     else
       let state = state\<lparr>dsack_round_active := True, dsack_round_end_seq := snd_nxt\<rparr>;
           state = (if reo_wnd_mult state \<noteq> UINT32_MAX
                    then state\<lparr>reo_wnd_mult := reo_wnd_mult state + 1\<rparr> else state)
       in state\<lparr>reo_wnd_persist := TCP_SHIFT_RACK_REO_WND_PERSIST_RECOVERIES\<rparr>)"

definition tcp_shift_rack_note_recovery_exit ::
    "tcp_shift_rack_tlp_state \<Rightarrow> u32 \<Rightarrow> tcp_shift_rack_tlp_state" where
  "tcp_shift_rack_note_recovery_exit state snd_una =
    (let state =
           (if dsack_round_active state \<and>
               tcp_shift_rack_seq_after_eq snd_una (dsack_round_end_seq state)
            then state\<lparr>dsack_round_active := False, dsack_round_end_seq := 0\<rparr> else state)
     in if reo_wnd_persist state \<noteq> 0
        then
          let state = state\<lparr>reo_wnd_persist := reo_wnd_persist state - 1\<rparr>
          in if reo_wnd_persist state = 0 then state\<lparr>reo_wnd_mult := 1\<rparr> else state
        else state)"

definition tcp_shift_rack_reo_wnd ::
    "tcp_shift_rack_tlp_state \<Rightarrow> bool \<Rightarrow> u64 \<times> tcp_shift_rack_tlp_state" where
  "tcp_shift_rack_reo_wnd state in_recovery =
    (if rack_min_rtt_ns state = 0 then (0, state)
     else if \<not> reordering_seen state \<and> (in_recovery \<or> segs_sacked state \<ge> 3)
     then (0, state\<lparr>reo_wnd_ns := 0\<rparr>)
     else
       let base = rack_min_rtt_ns state div TCP_SHIFT_RACK_REO_WND_DIVISOR;
           base = (if base = 0 then 1 else base);
           scaled = tcp_shift_rack_mul_sat_u64 base (u64_of (reo_wnd_mult state));
           scaled = (if rack_srtt_ns state \<noteq> 0 \<and> scaled > rack_srtt_ns state
                     then rack_srtt_ns state else scaled)
       in (scaled, state\<lparr>reo_wnd_ns := scaled\<rparr>))"

text \<open>The result, the new state and \<^verbatim>\<open>*remaining_ns\<close>.\<close>

definition tcp_shift_rack_loss_remaining ::
    "tcp_shift_rack_tlp_state \<Rightarrow> tcp_shift_rack_segment \<Rightarrow> u64 \<Rightarrow> bool \<Rightarrow>
     int \<times> tcp_shift_rack_tlp_state \<times> u64" where
  "tcp_shift_rack_loss_remaining state segment now_ns in_recovery =
    (if xmit_ts_ns segment = 0 \<or> rack_xmit_ts_ns state = 0 \<or> rack_rtt_ns state = 0 \<or> lost segment
     then (0, state, 0)
     else if \<not> tcp_shift_rack_sent_after (rack_xmit_ts_ns state) (rack_end_seq state)
                 (xmit_ts_ns segment) (end_seq segment)
     then (0, state, 0)
     else
       let (reo_wnd, state) = tcp_shift_rack_reo_wnd state in_recovery;
           deadline = tcp_shift_rack_add_sat_u64 (xmit_ts_ns segment) (rack_rtt_ns state);
           deadline = tcp_shift_rack_add_sat_u64 deadline reo_wnd
       in if now_ns \<ge> deadline then (1, state, 0) else (0, state, deadline - now_ns))"

definition tcp_shift_rack_lost_on_rto ::
    "tcp_shift_rack_tlp_state \<Rightarrow> tcp_shift_rack_segment \<Rightarrow> u32 \<Rightarrow> u64 \<Rightarrow> bool \<Rightarrow>
     int \<times> tcp_shift_rack_tlp_state" where
  "tcp_shift_rack_lost_on_rto state segment snd_una now_ns in_recovery =
    (if seq_start segment = snd_una then (1, state)
     else let (r, state, _) = tcp_shift_rack_loss_remaining state segment now_ns in_recovery
          in (r, state))"

text \<open>The probe interval before it is limited by the retransmission timer.\<close>

definition tlp_interval :: "tcp_shift_rack_tlp_state \<Rightarrow> u32 \<Rightarrow> u64 \<Rightarrow> u64" where
  "tlp_interval state flight_segments max_ack_delay_ns =
    (if rack_srtt_ns state \<noteq> 0 then
       let pto = tcp_shift_rack_mul_sat_u64 (rack_srtt_ns state) 2
       in if flight_segments = 1 then tcp_shift_rack_add_sat_u64 pto max_ack_delay_ns else pto
     else TCP_SHIFT_RACK_DEFAULT_PTO_NS)"

definition tcp_shift_tlp_calc_pto_ns ::
    "tcp_shift_rack_tlp_state \<Rightarrow> u64 \<Rightarrow> u64 \<Rightarrow> u32 \<Rightarrow> u64 \<Rightarrow> u64" where
  "tcp_shift_tlp_calc_pto_ns state now_ns rto_expiration_ns flight_segments max_ack_delay_ns =
    (let pto = tlp_interval state flight_segments max_ack_delay_ns;
         pto_expiration = tcp_shift_rack_add_sat_u64 now_ns pto
     in if rto_expiration_ns > now_ns \<and> pto_expiration > rto_expiration_ns
        then rto_expiration_ns - now_ns else pto)"

definition tcp_shift_tlp_probe_allowed :: "tcp_shift_rack_tlp_state \<Rightarrow> bool" where
  "tcp_shift_tlp_probe_allowed state \<longleftrightarrow> tlp_end_seq state = 0 \<and> rtt_sample_since_probe state"

definition tcp_shift_tlp_note_probe_sent ::
    "tcp_shift_rack_tlp_state \<Rightarrow> u32 \<Rightarrow> u32 \<Rightarrow> bool \<Rightarrow> tcp_shift_rack_tlp_state" where
  "tcp_shift_tlp_note_probe_sent state s e is_retransmission =
    state\<lparr>tlp_start_seq := s, tlp_end_seq := e, tlp_is_retrans := is_retransmission,
          rtt_sample_since_probe := False\<rparr>"

definition tcp_shift_tlp_note_rtt_sample ::
    "tcp_shift_rack_tlp_state \<Rightarrow> tcp_shift_rack_tlp_state" where
  "tcp_shift_tlp_note_rtt_sample state = state\<lparr>rtt_sample_since_probe := True\<rparr>"

definition tcp_shift_tlp_reset :: "tcp_shift_rack_tlp_state \<Rightarrow> tcp_shift_rack_tlp_state" where
  "tcp_shift_tlp_reset state =
    state\<lparr>tlp_start_seq := 0, tlp_end_seq := 0, tlp_is_retrans := False\<rparr>"

definition tcp_shift_tlp_process_ack ::
    "tcp_shift_rack_tlp_state \<Rightarrow> u32 \<Rightarrow> bool \<Rightarrow> bool \<Rightarrow>
     tcp_shift_tlp_ack_result \<times> tcp_shift_rack_tlp_state" where
  "tcp_shift_tlp_process_ack state ack_seq dsack_matches_probe dupack_without_sack =
    (if tlp_end_seq state = 0 \<or> \<not> tcp_shift_rack_seq_after_eq ack_seq (tlp_end_seq state)
     then (TCP_SHIFT_TLP_ACK_NONE, state)
     else if \<not> tlp_is_retrans state \<or> dsack_matches_probe \<or> dupack_without_sack
     then (TCP_SHIFT_TLP_ACK_CLEARED,
           state\<lparr>tlp_start_seq := 0, tlp_end_seq := 0, tlp_is_retrans := False\<rparr>)
     else if tcp_shift_rack_seq_after ack_seq (tlp_end_seq state)
     then (TCP_SHIFT_TLP_ACK_LOSS_REPAIRED,
           state\<lparr>tlp_start_seq := 0, tlp_end_seq := 0, tlp_is_retrans := False\<rparr>)
     else (TCP_SHIFT_TLP_ACK_NONE, state))"

section \<open>Runs\<close>

text \<open>What the transport does with the state of one connection, as a sequence of calls. A probe is
  sent only where \<^verbatim>\<open>tcp_shift_tlp_probe_allowed\<close> permits it.\<close>

datatype rack_event =
    Estimates u64 u64
  | Sacked u32
  | Delivered tcp_shift_rack_segment u64
  | Ordered tcp_shift_rack_segment
  | Dsack u32
  | Recovery_exit u32
  | Reo_wnd bool
  | Loss_check tcp_shift_rack_segment u64 bool
  | Probe u32 u32 bool
  | Rtt_sample
  | Tlp_ack u32 bool bool
  | Tlp_reset

fun rack_step :: "tcp_shift_rack_tlp_state \<Rightarrow> rack_event \<Rightarrow> tcp_shift_rack_tlp_state" where
  "rack_step s (Estimates m r) = tcp_shift_rack_set_rtt_estimates s m r"
| "rack_step s (Sacked n) = tcp_shift_rack_note_sacked_segments s n"
| "rack_step s (Delivered seg t) = snd (tcp_shift_rack_note_delivered s seg t)"
| "rack_step s (Ordered seg) = tcp_shift_rack_detect_reordering s seg"
| "rack_step s (Dsack n) = tcp_shift_rack_note_dsack s n"
| "rack_step s (Recovery_exit u) = tcp_shift_rack_note_recovery_exit s u"
| "rack_step s (Reo_wnd r) = snd (tcp_shift_rack_reo_wnd s r)"
| "rack_step s (Loss_check seg t r) = fst (snd (tcp_shift_rack_loss_remaining s seg t r))"
| "rack_step s (Probe a b r) = tcp_shift_tlp_note_probe_sent s a b r"
| "rack_step s Rtt_sample = tcp_shift_tlp_note_rtt_sample s"
| "rack_step s (Tlp_ack a d u) = snd (tcp_shift_tlp_process_ack s a d u)"
| "rack_step s Tlp_reset = tcp_shift_tlp_reset s"

abbreviation rack_run :: "tcp_shift_rack_tlp_state \<Rightarrow> rack_event list \<Rightarrow> tcp_shift_rack_tlp_state" where
  "rack_run \<equiv> foldl rack_step"

fun is_probe :: "rack_event \<Rightarrow> bool" where
  "is_probe (Probe _ _ _) = True"
| "is_probe _ = False"

fun is_dsack :: "rack_event \<Rightarrow> bool" where
  "is_dsack (Dsack _) = True"
| "is_dsack _ = False"

fun is_recovery_exit :: "rack_event \<Rightarrow> bool" where
  "is_recovery_exit (Recovery_exit _) = True"
| "is_recovery_exit _ = False"

section \<open>Arithmetic\<close>

interpretation rack_add: saturating_add tcp_shift_rack_add_sat_u64
  by unfold_locales (simp add: tcp_shift_rack_add_sat_u64_def unat_add_guarded_u64 del: not_less)

interpretation rack_mul: saturating_mul tcp_shift_rack_mul_sat_u64
  by unfold_locales (simp add: tcp_shift_rack_mul_sat_u64_def unat_mult_guarded_u64 del: not_less)

lemma seq_after_irrefl: "\<not> tcp_shift_rack_seq_after a a"
  by (simp add: tcp_shift_rack_seq_after_def)

lemma seq_after_eq_iff: "tcp_shift_rack_seq_after_eq a b \<longleftrightarrow> tcp_shift_rack_seq_after a b \<or> a = b"
proof -
  have "sint (a - b) = 0 \<longleftrightarrow> a = b"
    by (metis eq_iff_diff_eq_0 signed_0 signed_word_eqI)
  then show ?thesis by (auto simp: tcp_shift_rack_seq_after_def tcp_shift_rack_seq_after_eq_def)
qed

section \<open>The reordering window\<close>

text \<open>The guard under which the window is zero, and the unclipped window.\<close>

definition reo_wnd_zero :: "tcp_shift_rack_tlp_state \<Rightarrow> bool \<Rightarrow> bool" where
  "reo_wnd_zero s r \<longleftrightarrow>
    rack_min_rtt_ns s = 0 \<or> \<not> reordering_seen s \<and> (r \<or> segs_sacked s \<ge> 3)"

definition reo_wnd_scaled :: "tcp_shift_rack_tlp_state \<Rightarrow> nat" where
  "reo_wnd_scaled s = min 18446744073709551615
    (max 1 (unat (rack_min_rtt_ns s) div 4) * unat (reo_wnd_mult s))"

lemma unat_reo_wnd:
  "unat (fst (tcp_shift_rack_reo_wnd s r)) =
    (if reo_wnd_zero s r then 0
     else if rack_srtt_ns s = 0 then reo_wnd_scaled s
     else min (unat (rack_srtt_ns s)) (reo_wnd_scaled s))"
proof -
  define b where "b = (if rack_min_rtt_ns s div 4 = 0 then 1 else rack_min_rtt_ns s div 4)"
  define w where "w = tcp_shift_rack_mul_sat_u64 b (u64_of (reo_wnd_mult s))"
  have "unat b = max 1 (unat (rack_min_rtt_ns s) div 4)"
    by (auto simp: b_def word_zero_nat unat_div_distrib)
  then have w: "unat w = reo_wnd_scaled s"
    using rack_mul.unat_sat [of b "u64_of (reo_wnd_mult s)"] by (simp add: w_def reo_wnd_scaled_def)
  have fst: "fst (tcp_shift_rack_reo_wnd s r) = (if reo_wnd_zero s r then 0
     else if rack_srtt_ns s \<noteq> 0 \<and> w > rack_srtt_ns s then rack_srtt_ns s else w)"
    unfolding tcp_shift_rack_reo_wnd_def TCP_SHIFT_RACK_REO_WND_DIVISOR_def Let_def reo_wnd_zero_def
      w_def b_def by simp
  show ?thesis unfolding fst w [symmetric] by (auto simp: word_less_nat_alt)
qed

lemma reo_wnd_state: "\<exists>w. snd (tcp_shift_rack_reo_wnd s r) = s\<lparr>reo_wnd_ns := w\<rparr>"
  by (cases s) (auto simp: tcp_shift_rack_reo_wnd_def Let_def)

lemma reo_wnd_ignores_cache: "fst (tcp_shift_rack_reo_wnd (s\<lparr>reo_wnd_ns := w\<rparr>) r) = fst (tcp_shift_rack_reo_wnd s r)"
  by (simp add: tcp_shift_rack_reo_wnd_def Let_def)

section \<open>The loss deadline\<close>

text \<open>A segment the RACK timer can apply to: transmitted, not yet marked, and sent before the
  most recently delivered one.\<close>

definition rack_applies :: "tcp_shift_rack_tlp_state \<Rightarrow> tcp_shift_rack_segment \<Rightarrow> bool" where
  "rack_applies s seg \<longleftrightarrow> xmit_ts_ns seg \<noteq> 0 \<and> rack_xmit_ts_ns s \<noteq> 0 \<and> rack_rtt_ns s \<noteq> 0 \<and>
    \<not> lost seg \<and> tcp_shift_rack_sent_after (rack_xmit_ts_ns s) (rack_end_seq s) (xmit_ts_ns seg) (end_seq seg)"

definition loss_deadline :: "tcp_shift_rack_tlp_state \<Rightarrow> tcp_shift_rack_segment \<Rightarrow> bool \<Rightarrow> u64" where
  "loss_deadline s seg r =
    tcp_shift_rack_add_sat_u64 (tcp_shift_rack_add_sat_u64 (xmit_ts_ns seg) (rack_rtt_ns s))
      (fst (tcp_shift_rack_reo_wnd s r))"

lemma loss_remaining_unfold:
  "tcp_shift_rack_loss_remaining s seg now r =
    (if \<not> rack_applies s seg then (0, s, 0)
     else if loss_deadline s seg r \<le> now then (1, snd (tcp_shift_rack_reo_wnd s r), 0)
     else (0, snd (tcp_shift_rack_reo_wnd s r), loss_deadline s seg r - now))"
proof -
  obtain w where w: "snd (tcp_shift_rack_reo_wnd s r) = s\<lparr>reo_wnd_ns := w\<rparr>" using reo_wnd_state by blast
  then have "rack_rtt_ns (snd (tcp_shift_rack_reo_wnd s r)) = rack_rtt_ns s" by simp
  then show ?thesis
    by (auto simp: tcp_shift_rack_loss_remaining_def rack_applies_def loss_deadline_def case_prod_beta Let_def)
qed

lemma unat_loss_deadline:
  "unat (loss_deadline s seg r) = min 18446744073709551615
    (unat (xmit_ts_ns seg) + unat (rack_rtt_ns s) + unat (fst (tcp_shift_rack_reo_wnd s r)))"
  by (simp add: loss_deadline_def rack_add.unat_sat)

lemma loss_deadline_cache:
  "loss_deadline (snd (tcp_shift_rack_reo_wnd s r)) seg r' = loss_deadline s seg r'"
  "rack_applies (snd (tcp_shift_rack_reo_wnd s r)) seg = rack_applies s seg"
proof -
  obtain w where w: "snd (tcp_shift_rack_reo_wnd s r) = s\<lparr>reo_wnd_ns := w\<rparr>" using reo_wnd_state by blast
  show "loss_deadline (snd (tcp_shift_rack_reo_wnd s r)) seg r' = loss_deadline s seg r'"
    "rack_applies (snd (tcp_shift_rack_reo_wnd s r)) seg = rack_applies s seg"
    unfolding w by (simp_all add: loss_deadline_def reo_wnd_ignores_cache rack_applies_def)
qed

section \<open>Invariants of runs\<close>

text \<open>The reordering window is inflated only while recoveries are still being counted down.\<close>

definition reo_inv :: "tcp_shift_rack_tlp_state \<Rightarrow> bool" where
  "reo_inv s \<longleftrightarrow> unat (reo_wnd_persist s) \<le> 16 \<and> reo_wnd_mult s \<noteq> 0 \<and>
    (reo_wnd_persist s = 0 \<longrightarrow> reo_wnd_mult s = 1)"

lemma note_delivered_fields:
  "reo_wnd_persist (snd (tcp_shift_rack_note_delivered s seg t)) = reo_wnd_persist s"
  "reo_wnd_mult (snd (tcp_shift_rack_note_delivered s seg t)) = reo_wnd_mult s"
  "tlp_end_seq (snd (tcp_shift_rack_note_delivered s seg t)) = tlp_end_seq s"
  "rtt_sample_since_probe (snd (tcp_shift_rack_note_delivered s seg t)) = rtt_sample_since_probe s"
  by (simp_all add: tcp_shift_rack_note_delivered_def Let_def)

lemma loss_remaining_state: "\<exists>w. fst (snd (tcp_shift_rack_loss_remaining s seg t r)) = s\<lparr>reo_wnd_ns := w\<rparr>"
  using reo_wnd_state [of s r] by (cases s) (auto simp: loss_remaining_unfold)

lemma loss_remaining_fields:
  "reo_wnd_persist (fst (snd (tcp_shift_rack_loss_remaining s seg t r))) = reo_wnd_persist s"
  "reo_wnd_mult (fst (snd (tcp_shift_rack_loss_remaining s seg t r))) = reo_wnd_mult s"
  "tlp_end_seq (fst (snd (tcp_shift_rack_loss_remaining s seg t r))) = tlp_end_seq s"
  "rtt_sample_since_probe (fst (snd (tcp_shift_rack_loss_remaining s seg t r))) = rtt_sample_since_probe s"
  "rack_xmit_ts_ns (fst (snd (tcp_shift_rack_loss_remaining s seg t r))) = rack_xmit_ts_ns s"
  "rack_end_seq (fst (snd (tcp_shift_rack_loss_remaining s seg t r))) = rack_end_seq s"
  using loss_remaining_state [of s seg t r] by auto

lemma reo_wnd_fields:
  "reo_wnd_persist (snd (tcp_shift_rack_reo_wnd s r)) = reo_wnd_persist s"
  "reo_wnd_mult (snd (tcp_shift_rack_reo_wnd s r)) = reo_wnd_mult s"
  "tlp_end_seq (snd (tcp_shift_rack_reo_wnd s r)) = tlp_end_seq s"
  "rtt_sample_since_probe (snd (tcp_shift_rack_reo_wnd s r)) = rtt_sample_since_probe s"
  "rack_xmit_ts_ns (snd (tcp_shift_rack_reo_wnd s r)) = rack_xmit_ts_ns s"
  "rack_end_seq (snd (tcp_shift_rack_reo_wnd s r)) = rack_end_seq s"
  using reo_wnd_state [of s r] by auto

lemma dsack_exit_fields:
  "tlp_end_seq (tcp_shift_rack_note_dsack s n) = tlp_end_seq s"
  "rtt_sample_since_probe (tcp_shift_rack_note_dsack s n) = rtt_sample_since_probe s"
  "tlp_end_seq (tcp_shift_rack_note_recovery_exit s u) = tlp_end_seq s"
  "rtt_sample_since_probe (tcp_shift_rack_note_recovery_exit s u) = rtt_sample_since_probe s"
  "rack_xmit_ts_ns (tcp_shift_rack_note_dsack s n) = rack_xmit_ts_ns s"
  "rack_xmit_ts_ns (tcp_shift_rack_note_recovery_exit s u) = rack_xmit_ts_ns s"
  by (simp_all add: tcp_shift_rack_note_dsack_def tcp_shift_rack_note_recovery_exit_def Let_def)

lemmas rack_fields = dsack_exit_fields note_delivered_fields loss_remaining_fields reo_wnd_fields

lemma recovery_exit_persist:
  "unat (reo_wnd_persist (tcp_shift_rack_note_recovery_exit s u)) = unat (reo_wnd_persist s) - 1"
  "reo_wnd_mult (tcp_shift_rack_note_recovery_exit s u) =
    (if unat (reo_wnd_persist s) = 1 then 1 else reo_wnd_mult s)"
  by (auto simp: tcp_shift_rack_note_recovery_exit_def Let_def word_zero_nat unat_diff_exact)

lemma dsack_mult: "x \<noteq> UINT32_MAX \<Longrightarrow> x + 1 \<noteq> (0 :: u32)"
  by (metis UINT32_MAX_eq add_eq_0_iff2)

lemma reo_inv_step: "reo_inv s \<Longrightarrow> reo_inv (rack_step s e)"
proof (cases e)
  case (Dsack n)
  assume "reo_inv s"
  then show ?thesis using Dsack dsack_mult [of "reo_wnd_mult s"]
    by (auto simp: reo_inv_def tcp_shift_rack_note_dsack_def Let_def
        TCP_SHIFT_RACK_REO_WND_PERSIST_RECOVERIES_def)
next
  case (Recovery_exit u)
  assume "reo_inv s"
  then show ?thesis using Recovery_exit
    by (auto simp: reo_inv_def recovery_exit_persist word_zero_nat)
qed (auto simp: reo_inv_def rack_fields tcp_shift_rack_set_rtt_estimates_def
    tcp_shift_rack_note_sacked_segments_def tcp_shift_rack_detect_reordering_def
    tcp_shift_tlp_note_probe_sent_def tcp_shift_tlp_note_rtt_sample_def
    tcp_shift_tlp_process_ack_def tcp_shift_tlp_reset_def)

lemma reo_inv_run: "reo_inv s \<Longrightarrow> reo_inv (rack_run s es)"
  by (induction es arbitrary: s) (auto simp: reo_inv_step)

lemma sample_needed_step:
  "\<not> rtt_sample_since_probe s \<Longrightarrow> e \<noteq> Rtt_sample \<Longrightarrow> \<not> rtt_sample_since_probe (rack_step s e)"
  by (cases e) (auto simp: rack_fields tcp_shift_rack_set_rtt_estimates_def
    tcp_shift_rack_note_sacked_segments_def tcp_shift_rack_detect_reordering_def
    tcp_shift_tlp_note_probe_sent_def tcp_shift_tlp_process_ack_def tcp_shift_tlp_reset_def)

lemma sample_needed:
  "\<not> rtt_sample_since_probe s \<Longrightarrow> Rtt_sample \<notin> set es \<Longrightarrow> \<not> rtt_sample_since_probe (rack_run s es)"
proof (induction es arbitrary: s)
  case (Cons e es)
  then have "\<not> rtt_sample_since_probe (rack_step s e)" by (intro sample_needed_step) auto
  with Cons show ?case by simp
qed simp

fun can_clear_probe :: "rack_event \<Rightarrow> bool" where
  "can_clear_probe (Tlp_ack _ _ _) = True"
| "can_clear_probe Tlp_reset = True"
| "can_clear_probe (Probe _ _ _) = True"
| "can_clear_probe _ = False"

lemma probe_outstanding_step: "\<not> can_clear_probe e \<Longrightarrow> tlp_end_seq (rack_step s e) = tlp_end_seq s"
  by (cases e) (auto simp: rack_fields tcp_shift_rack_set_rtt_estimates_def
    tcp_shift_rack_note_sacked_segments_def tcp_shift_rack_detect_reordering_def
    tcp_shift_tlp_note_rtt_sample_def)

lemma probe_outstanding:
  "\<forall>e \<in> set es. \<not> can_clear_probe e \<Longrightarrow> tlp_end_seq (rack_run s es) = tlp_end_seq s"
  by (induction es arbitrary: s) (auto simp: probe_outstanding_step)

text \<open>The countdown of the reordering window over a sequence of calls with no new DSACK.\<close>

lemma persist_step:
  assumes "\<not> is_dsack e"
  shows "unat (reo_wnd_persist (rack_step s e)) =
    unat (reo_wnd_persist s) - (if is_recovery_exit e then 1 else 0)"
  using assms
  by (cases e) (auto simp: rack_fields recovery_exit_persist tcp_shift_rack_set_rtt_estimates_def
    tcp_shift_rack_note_sacked_segments_def tcp_shift_rack_detect_reordering_def
    tcp_shift_tlp_note_probe_sent_def tcp_shift_tlp_note_rtt_sample_def
    tcp_shift_tlp_process_ack_def tcp_shift_tlp_reset_def)

lemma persist_run:
  "\<forall>e \<in> set es. \<not> is_dsack e \<Longrightarrow>
    unat (reo_wnd_persist (rack_run s es)) =
    unat (reo_wnd_persist s) - length (filter is_recovery_exit es)"
  by (induction es arbitrary: s) (auto simp: persist_step)

text \<open>Only a delivery moves the RACK segment, and it moves it to a later transmission.\<close>

lemma rack_segment_step: "rack_xmit_ts_ns s \<le> rack_xmit_ts_ns (rack_step s e)"
proof (cases e)
  case (Delivered seg t)
  then show ?thesis
    by (simp add: tcp_shift_rack_note_delivered_def tcp_shift_rack_sent_after_def Let_def less_imp_le)
qed (simp_all add: rack_fields tcp_shift_rack_set_rtt_estimates_def
    tcp_shift_rack_note_sacked_segments_def tcp_shift_rack_detect_reordering_def
    tcp_shift_tlp_note_probe_sent_def tcp_shift_tlp_note_rtt_sample_def
    tcp_shift_tlp_process_ack_def tcp_shift_tlp_reset_def)

section \<open>Properties\<close>

text \<open>The RACK loss decision is exactly the deadline test of RFC 8985: a segment is declared lost
  if and only if it is unmarked, was sent before the most recently delivered segment, and its
  transmit time plus the RACK RTT plus the reordering window (saturating at the end of the
  clock) has been reached.\<close>

theorem rack_lost_iff_deadline_passed:
  "fst (tcp_shift_rack_loss_remaining s seg now r) = 1 \<longleftrightarrow>
    xmit_ts_ns seg \<noteq> 0 \<and> rack_xmit_ts_ns s \<noteq> 0 \<and> rack_rtt_ns s \<noteq> 0 \<and> \<not> lost seg \<and>
    tcp_shift_rack_sent_after (rack_xmit_ts_ns s) (rack_end_seq s) (xmit_ts_ns seg) (end_seq seg) \<and>
    min 18446744073709551615 (unat (xmit_ts_ns seg) + unat (rack_rtt_ns s) +
      unat (fst (tcp_shift_rack_reo_wnd s r))) \<le> unat now"
  using unat_loss_deadline [of s seg r]
  by (simp add: loss_remaining_unfold rack_applies_def word_le_nat_alt)

text \<open>C17. The timer value of a segment not yet lost is exact: with the connection state left as the
  check leaves it, every later check before the reported remaining time answers "not lost", and
  every check from then on answers "lost"; the remaining time never points past the end of the
  clock.\<close>

theorem rack_remaining_is_exact:
  assumes "tcp_shift_rack_loss_remaining s seg now r = (0, s', remaining)" and "remaining \<noteq> 0"
  shows "unat now + unat remaining < 2 ^ 64 \<and>
    fst (tcp_shift_rack_loss_remaining s' seg now' r) =
      (if unat now + unat remaining \<le> unat now' then 1 else 0)"
proof -
  have "rack_applies s seg \<and> \<not> loss_deadline s seg r \<le> now \<and>
      s' = snd (tcp_shift_rack_reo_wnd s r) \<and> remaining = loss_deadline s seg r - now"
    using assms by (simp add: loss_remaining_unfold split: if_splits)
  then have d: "rack_applies s seg" "\<not> loss_deadline s seg r \<le> now"
    "s' = snd (tcp_shift_rack_reo_wnd s r)" "remaining = loss_deadline s seg r - now" by auto
  then have "unat now + unat remaining = unat (loss_deadline s seg r)"
    by (simp add: unat_diff_exact word_le_nat_alt)
  then show ?thesis using d(1) unat_lt_u64 [of "loss_deadline s seg r"]
    by (simp add: loss_remaining_unfold d(3) loss_deadline_cache word_le_nat_alt)
qed

definition demo_rack :: tcp_shift_rack_tlp_state where
  "demo_rack = tcp_shift_rack_tlp_init\<lparr>rack_xmit_ts_ns := 900, rack_rtt_ns := 100, rack_end_seq := 3000,
    rack_min_rtt_ns := 80, rack_srtt_ns := 100\<rparr>"

definition demo_segment :: tcp_shift_rack_segment where
  "demo_segment = \<lparr>xmit_ts_ns = 890, seq_start = 1000, end_seq = 2000, retransmitted = False, lost = False\<rparr>"

theorem rack_remaining_is_exact_witness:
  "tcp_shift_rack_loss_remaining demo_rack demo_segment 1000 False =
      (0, demo_rack\<lparr>reo_wnd_ns := 20\<rparr>, 10) \<and>
   fst (tcp_shift_rack_loss_remaining (demo_rack\<lparr>reo_wnd_ns := 20\<rparr>) demo_segment 1010 False) = 1"
proof -
  have "tcp_shift_rack_loss_remaining demo_rack demo_segment 1000 False =
      (0, demo_rack\<lparr>reo_wnd_ns := 20\<rparr>, 10)"
    by (simp add: demo_rack_def demo_segment_def tcp_shift_rack_tlp_init_def
        tcp_shift_rack_loss_remaining_def tcp_shift_rack_sent_after_def tcp_shift_rack_reo_wnd_def
        tcp_shift_rack_mul_sat_u64_def tcp_shift_rack_add_sat_u64_def
        TCP_SHIFT_RACK_REO_WND_DIVISOR_def Let_def)
  with rack_remaining_is_exact [OF this, of 1010] show ?thesis by simp
qed

text \<open>The reordering window in use is max(1, min_rtt / 4) times the multiplier, saturating at the
  word bound and never above the smoothed RTT when there is one; it is zero exactly when there
  is no RTT estimate or, with no reordering seen, in recovery or with three segments SACKed. In
  every state a connection can reach the multiplier is at least 1, so the window is then
  positive.\<close>

theorem rack_reo_wnd_bounds:
  "(let s = rack_run tcp_shift_rack_tlp_init es; w = unat (fst (tcp_shift_rack_reo_wnd s r));
        scaled = max 1 (unat (rack_min_rtt_ns s) div 4) * unat (reo_wnd_mult s)
    in (w = 0 \<longleftrightarrow> rack_min_rtt_ns s = 0 \<or> \<not> reordering_seen s \<and> (r \<or> segs_sacked s \<ge> 3)) \<and>
       (w = 0 \<or> w = (if rack_srtt_ns s = 0 then min 18446744073709551615 scaled
                     else min (unat (rack_srtt_ns s)) (min 18446744073709551615 scaled))))"
proof -
  define s where "s = rack_run tcp_shift_rack_tlp_init es"
  have "reo_inv tcp_shift_rack_tlp_init" by (simp add: reo_inv_def tcp_shift_rack_tlp_init_def)
  then have "reo_inv s" unfolding s_def by (rule reo_inv_run)
  then have "0 < reo_wnd_scaled s" by (simp add: reo_inv_def reo_wnd_scaled_def word_zero_nat)
  then have "unat (fst (tcp_shift_rack_reo_wnd s r)) = 0 \<longleftrightarrow> reo_wnd_zero s r"
    by (auto simp: unat_reo_wnd word_zero_nat)
  moreover have "unat (fst (tcp_shift_rack_reo_wnd s r)) = 0 \<or>
      unat (fst (tcp_shift_rack_reo_wnd s r)) =
        (if rack_srtt_ns s = 0 then reo_wnd_scaled s else min (unat (rack_srtt_ns s)) (reo_wnd_scaled s))"
    by (simp add: unat_reo_wnd)
  ultimately show ?thesis unfolding Let_def s_def [symmetric] reo_wnd_zero_def reo_wnd_scaled_def by simp
qed

text \<open>DSACK-driven inflation of the reordering window dies out: from any state a connection can
  reach, after any sequence of calls with at least 16 recovery exits and no further DSACK the
  multiplier is back at 1.\<close>

theorem rack_reo_wnd_inflation_expires:
  assumes "\<forall>e \<in> set later. \<not> is_dsack e" and "16 \<le> length (filter is_recovery_exit later)"
  shows "reo_wnd_mult (rack_run tcp_shift_rack_tlp_init (earlier @ later)) = 1"
proof -
  let ?s = "rack_run tcp_shift_rack_tlp_init earlier"
  have "reo_inv tcp_shift_rack_tlp_init" by (simp add: reo_inv_def tcp_shift_rack_tlp_init_def)
  then have inv: "reo_inv ?s" "reo_inv (rack_run ?s later)" by (simp_all add: reo_inv_run)
  then have "unat (reo_wnd_persist (rack_run ?s later)) = 0"
    using persist_run [OF assms(1), of ?s] assms(2) by (simp add: reo_inv_def)
  then show ?thesis using inv(2) by (simp add: reo_inv_def word_zero_nat)
qed

theorem rack_reo_wnd_inflation_expires_witness:
  "reo_wnd_mult (rack_run tcp_shift_rack_tlp_init [Dsack 5000]) = 2 \<and>
   reo_wnd_mult (rack_run tcp_shift_rack_tlp_init ([Dsack 5000] @ replicate 16 (Recovery_exit 6000))) = 1"
  using rack_reo_wnd_inflation_expires [of "replicate 16 (Recovery_exit 6000)" "[Dsack 5000]"]
  by (simp add: tcp_shift_rack_tlp_init_def tcp_shift_rack_note_dsack_def Let_def)



text \<open>A probe timeout never fires after a pending retransmission timeout: the probe expiration
  (saturating at the end of the clock) is at most the RTO expiration, and without an RTT
  estimate the probe interval is at most one second.\<close>

theorem tlp_pto_not_after_rto:
  assumes "now < rto"
  shows "min 18446744073709551615
      (unat now + unat (tcp_shift_tlp_calc_pto_ns s now rto flight delay)) \<le> unat rto \<and>
    (rack_srtt_ns s = 0 \<longrightarrow> unat (tcp_shift_tlp_calc_pto_ns s now rto flight delay) \<le> 1000000000)"
proof -
  define pto where "pto = tlp_interval s flight delay"
  have calc: "tcp_shift_tlp_calc_pto_ns s now rto flight delay =
      (if tcp_shift_rack_add_sat_u64 now pto > rto then rto - now else pto)"
    using assms by (simp add: tcp_shift_tlp_calc_pto_ns_def pto_def Let_def)
  have diff: "unat (rto - now) = unat rto - unat now" and lt: "unat now < unat rto"
    using assms by (simp_all add: unat_diff_exact word_less_nat_alt)
  have sat: "unat (tcp_shift_rack_add_sat_u64 now pto) = min 18446744073709551615 (unat now + unat pto)"
    using rack_add.unat_sat [of now pto] by simp
  show ?thesis
  proof (cases "tcp_shift_rack_add_sat_u64 now pto > rto")
    case True
    then have "unat rto < unat now + unat pto" using sat by (simp add: word_less_nat_alt)
    moreover have "unat pto = 1000000000" if "rack_srtt_ns s = 0"
      using that by (simp add: pto_def tlp_interval_def TCP_SHIFT_RACK_DEFAULT_PTO_NS_def)
    ultimately show ?thesis using True calc diff lt by auto
  next
    case False
    then have "min 18446744073709551615 (unat now + unat pto) \<le> unat rto"
      using sat unfolding word_less_nat_alt not_less by simp
    then show ?thesis using False calc
      by (simp add: pto_def tlp_interval_def TCP_SHIFT_RACK_DEFAULT_PTO_NS_def)
  qed
qed

theorem tlp_pto_not_after_rto_witness:
  "unat (tcp_shift_tlp_calc_pto_ns demo_rack 1000 1150 3 0) \<le> 150"
  using tlp_pto_not_after_rto [of 1000 1150 demo_rack 3 0] by (simp add: min_def split: if_splits)

text \<open>The RACK segment (the most recently sent segment known delivered) never moves back: over
  any sequence of calls its transmit time does not decrease.\<close>

theorem rack_segment_never_moves_back:
  "rack_xmit_ts_ns s \<le> rack_xmit_ts_ns (rack_run s es)"
proof (induction es arbitrary: s)
  case (Cons e es)
  show ?case using rack_segment_step [of s e] Cons [of "rack_step s e"] by simp
qed simp

end
