(* ===== verification/Bbr_Math.thy ===== *)
theory Bbr_Math
  imports Prelude
begin

text \<open>
  The overflow-safe arithmetic of the compact BBR controller (\<^verbatim>\<open>src/cc/bbr.c\<close>, and the copies
  in \<^verbatim>\<open>bbr_drain.c\<close> and \<^verbatim>\<open>bbr_probe.c\<close>): scaling a 64-bit value by a rational of 32-bit
  numbers, and the bandwidth-delay product, both without a wider intermediate. The interface
  \<open>rational_scale\<close> takes a saturating sum and product and the body that the three copies share,
  and shows once that the result is the exact quotient, saturated; each copy is an
  interpretation.
\<close>

section \<open>Scaling by a rational\<close>

text \<open>The shared body of the \<^verbatim>\<open>scale_floor_u64\<close> and \<^verbatim>\<open>scale_ceil_u64\<close> routines.\<close>

definition scale_floor_with ::
    "(u64 \<Rightarrow> u64 \<Rightarrow> u64) \<Rightarrow> (u64 \<Rightarrow> u64 \<Rightarrow> u64) \<Rightarrow> u64 \<Rightarrow> u32 \<Rightarrow> u32 \<Rightarrow> u64" where
  "scale_floor_with sat_add sat_mul value numerator denominator =
    (if denominator = 0 then UINT64_MAX
     else
       let whole = sat_mul (value div u64_of denominator) (u64_of numerator)
       in if whole = UINT64_MAX then UINT64_MAX
          else
            let remainder_product = (value mod u64_of denominator) * u64_of numerator
            in sat_add whole (remainder_product div u64_of denominator))"

definition scale_ceil_with ::
    "(u64 \<Rightarrow> u64 \<Rightarrow> u64) \<Rightarrow> (u64 \<Rightarrow> u64 \<Rightarrow> u64) \<Rightarrow> u64 \<Rightarrow> u32 \<Rightarrow> u32 \<Rightarrow> u64" where
  "scale_ceil_with sat_add sat_mul value numerator denominator =
    (if denominator = 0 then UINT64_MAX
     else
       let whole = sat_mul (value div u64_of denominator) (u64_of numerator)
       in if whole = UINT64_MAX then UINT64_MAX
          else
            let remainder_product = (value mod u64_of denominator) * u64_of numerator;
                whole = sat_add whole (remainder_product div u64_of denominator)
            in if whole = UINT64_MAX then UINT64_MAX
               else if remainder_product mod u64_of denominator \<noteq> 0 then sat_add whole 1
               else whole)"

locale rational_scale =
  add: saturating_add sat_add + mul: saturating_mul sat_mul
  for sat_add sat_mul :: "u64 \<Rightarrow> u64 \<Rightarrow> u64"
begin

lemma unat_add: "unat (sat_add a b) = min 18446744073709551615 (unat a + unat b)"
  using add.unat_sat [of a b] by simp

lemma unat_mul: "unat (sat_mul a b) = min 18446744073709551615 (unat a * unat b)"
  using mul.unat_sat [of a b] by simp

lemma max_iff: "x = UINT64_MAX \<longleftrightarrow> unat x = 18446744073709551615"
  by (simp add: word_unat_eq_iff)

lemma remainder_product:
  assumes "d \<noteq> 0"
  shows "unat ((v mod u64_of d) * u64_of n) = unat v mod unat d * unat n"
proof -
  have "unat v mod unat d < unat d" using assms by (simp add: word_zero_nat)
  then have "unat v mod unat d * unat n \<le> 4294967295 * 4294967295"
    using unat_lt_u32 [of d] unat_lt_u32 [of n] by (intro mult_le_mono) linarith+
  then show ?thesis by (subst unat_mult_exact) (simp_all add: unat_mod_distrib)
qed

lemma split_floor: "0 < d \<Longrightarrow> (v::nat) * n div d = v div d * n + v mod d * n div d"
  by (subst mult_split_div [of v n d]) simp

lemma split_ceil: "0 < d \<Longrightarrow> ceil_div (v * n) d = v div d * n + ceil_div (v mod d * n) d"
  by (subst mult_split_div [of v n d]) (rule ceil_div_add_mult)

lemma unat_scale_floor:
  assumes "d \<noteq> 0"
  shows "unat (scale_floor_with sat_add sat_mul v n d) = min 18446744073709551615 (unat v * unat n div unat d)"
proof -
  have d: "0 < unat d" using assms by (simp add: word_zero_nat)
  define w where "w = sat_mul (v div u64_of d) (u64_of n)"
  define f where "f = (v mod u64_of d) * u64_of n div u64_of d"
  have w: "unat w = min 18446744073709551615 (unat v div unat d * unat n)"
    by (simp add: w_def unat_mul unat_div_distrib)
  have f: "unat f = unat v mod unat d * unat n div unat d"
    by (simp add: f_def unat_div_distrib remainder_product [OF assms])
  have "scale_floor_with sat_add sat_mul v n d = (if w = UINT64_MAX then UINT64_MAX else sat_add w f)"
    using assms by (simp add: scale_floor_with_def w_def f_def Let_def)
  moreover have "unat v * unat n div unat d = unat v div unat d * unat n + unat f"
    unfolding f by (rule split_floor [OF d])
  ultimately show ?thesis using w by (auto simp: max_iff unat_add)
qed

lemma unat_scale_ceil:
  assumes "d \<noteq> 0"
  shows "unat (scale_ceil_with sat_add sat_mul v n d) = min 18446744073709551615 (ceil_div (unat v * unat n) (unat d))"
proof -
  have d: "0 < unat d" using assms by (simp add: word_zero_nat)
  define w where "w = sat_mul (v div u64_of d) (u64_of n)"
  define p where "p = (v mod u64_of d) * u64_of n"
  have w: "unat w = min 18446744073709551615 (unat v div unat d * unat n)"
    by (simp add: w_def unat_mul unat_div_distrib)
  have p: "unat p = unat v mod unat d * unat n" by (simp add: p_def remainder_product [OF assms])
  define u where "u = sat_add w (p div u64_of d)"
  have u: "unat u = min 18446744073709551615 (unat w + unat p div unat d)"
    by (simp add: u_def unat_add unat_div_distrib)
  have m: "p mod u64_of d = 0 \<longleftrightarrow> unat p mod unat d = 0"
    by (simp add: word_zero_nat unat_mod_distrib)
  have "scale_ceil_with sat_add sat_mul v n d =
      (if w = UINT64_MAX then UINT64_MAX else if u = UINT64_MAX then UINT64_MAX
       else if p mod u64_of d \<noteq> 0 then sat_add u 1 else u)"
    using assms unfolding scale_ceil_with_def Let_def w_def p_def u_def by simp
  moreover have "ceil_div (unat v * unat n) (unat d) = unat v div unat d * unat n + unat p div unat d +
      (if unat p mod unat d = 0 then 0 else 1)"
    using split_ceil [OF d, of "unat v" "unat n"] unfolding p [symmetric] by (simp add: ceil_div_def)
  ultimately show ?thesis using w u unfolding m max_iff
    by (auto simp: unat_add)
qed

end

section \<open>The routines of \<open>bbr.c\<close>\<close>

definition TCP_SHIFT_BBR_NSEC_PER_SEC :: u64 where "TCP_SHIFT_BBR_NSEC_PER_SEC = 1000000000"

definition tcp_shift_bbr_max_u64 :: "u64 \<Rightarrow> u64 \<Rightarrow> u64" where
  "tcp_shift_bbr_max_u64 a b = (if a > b then a else b)"

definition tcp_shift_bbr_sat_add_u64 :: "u64 \<Rightarrow> u64 \<Rightarrow> u64" where
  "tcp_shift_bbr_sat_add_u64 a b = (if UINT64_MAX - a < b then UINT64_MAX else a + b)"

definition tcp_shift_bbr_sat_mul_u64 :: "u64 \<Rightarrow> u64 \<Rightarrow> u64" where
  "tcp_shift_bbr_sat_mul_u64 a b =
    (if a = 0 \<or> b = 0 then 0 else if a > UINT64_MAX div b then UINT64_MAX else a * b)"

definition tcp_shift_bbr_scale_floor_u64 :: "u64 \<Rightarrow> u32 \<Rightarrow> u32 \<Rightarrow> u64" where
  "tcp_shift_bbr_scale_floor_u64 =
    scale_floor_with tcp_shift_bbr_sat_add_u64 tcp_shift_bbr_sat_mul_u64"

definition tcp_shift_bbr_scale_ceil_u64 :: "u64 \<Rightarrow> u32 \<Rightarrow> u32 \<Rightarrow> u64" where
  "tcp_shift_bbr_scale_ceil_u64 =
    scale_ceil_with tcp_shift_bbr_sat_add_u64 tcp_shift_bbr_sat_mul_u64"

definition tcp_shift_bbr_bdp_bytes :: "u64 \<Rightarrow> u64 \<Rightarrow> u64" where
  "tcp_shift_bbr_bdp_bytes bandwidth rtt =
    (if bandwidth = 0 \<or> rtt = 0 then 0
     else
       let bandwidth_whole = bandwidth div TCP_SHIFT_BBR_NSEC_PER_SEC;
           bandwidth_remainder = bandwidth mod TCP_SHIFT_BBR_NSEC_PER_SEC;
           rtt_whole = rtt div TCP_SHIFT_BBR_NSEC_PER_SEC;
           rtt_remainder = rtt mod TCP_SHIFT_BBR_NSEC_PER_SEC;
           result = tcp_shift_bbr_sat_mul_u64 bandwidth_whole rtt
       in if result = UINT64_MAX then UINT64_MAX
          else
            let result = tcp_shift_bbr_sat_add_u64 result
                  (tcp_shift_bbr_sat_mul_u64 bandwidth_remainder rtt_whole)
            in if result = UINT64_MAX then UINT64_MAX
               else
                 let cross = bandwidth_remainder * rtt_remainder;
                     result = tcp_shift_bbr_sat_add_u64 result (cross div TCP_SHIFT_BBR_NSEC_PER_SEC)
                 in if result = UINT64_MAX then UINT64_MAX
                    else if cross mod TCP_SHIFT_BBR_NSEC_PER_SEC \<noteq> 0
                    then tcp_shift_bbr_sat_add_u64 result 1 else result)"

interpretation bbr: rational_scale tcp_shift_bbr_sat_add_u64 tcp_shift_bbr_sat_mul_u64
  by unfold_locales
    (simp_all add: tcp_shift_bbr_sat_add_u64_def tcp_shift_bbr_sat_mul_u64_def unat_add_guarded_u64
      unat_mult_guarded_u64 del: not_less)

section \<open>The copies of \<open>bbr_drain.c\<close> and \<open>bbr_probe.c\<close>\<close>

definition tcp_shift_bbr_drain_sat_add_u64 :: "u64 \<Rightarrow> u64 \<Rightarrow> u64" where
  "tcp_shift_bbr_drain_sat_add_u64 a b = (if UINT64_MAX - a < b then UINT64_MAX else a + b)"

definition tcp_shift_bbr_drain_sat_mul_u64 :: "u64 \<Rightarrow> u64 \<Rightarrow> u64" where
  "tcp_shift_bbr_drain_sat_mul_u64 a b =
    (if a = 0 \<or> b = 0 then 0 else if a > UINT64_MAX div b then UINT64_MAX else a * b)"

definition tcp_shift_bbr_drain_scale_floor_u64 :: "u64 \<Rightarrow> u32 \<Rightarrow> u32 \<Rightarrow> u64" where
  "tcp_shift_bbr_drain_scale_floor_u64 =
    scale_floor_with tcp_shift_bbr_drain_sat_add_u64 tcp_shift_bbr_drain_sat_mul_u64"

definition tcp_shift_bbr_probe_sat_add_u64 :: "u64 \<Rightarrow> u64 \<Rightarrow> u64" where
  "tcp_shift_bbr_probe_sat_add_u64 a b = (if UINT64_MAX - a < b then UINT64_MAX else a + b)"

definition tcp_shift_bbr_probe_sat_mul_u64 :: "u64 \<Rightarrow> u64 \<Rightarrow> u64" where
  "tcp_shift_bbr_probe_sat_mul_u64 a b =
    (if a = 0 \<or> b = 0 then 0 else if a > UINT64_MAX div b then UINT64_MAX else a * b)"

definition tcp_shift_bbr_probe_scale_floor_u64 :: "u64 \<Rightarrow> u32 \<Rightarrow> u32 \<Rightarrow> u64" where
  "tcp_shift_bbr_probe_scale_floor_u64 =
    scale_floor_with tcp_shift_bbr_probe_sat_add_u64 tcp_shift_bbr_probe_sat_mul_u64"

definition tcp_shift_bbr_probe_scale_ceil_u64 :: "u64 \<Rightarrow> u32 \<Rightarrow> u32 \<Rightarrow> u64" where
  "tcp_shift_bbr_probe_scale_ceil_u64 =
    scale_ceil_with tcp_shift_bbr_probe_sat_add_u64 tcp_shift_bbr_probe_sat_mul_u64"

interpretation bbr_drain: rational_scale tcp_shift_bbr_drain_sat_add_u64 tcp_shift_bbr_drain_sat_mul_u64
  by unfold_locales
    (simp_all add: tcp_shift_bbr_drain_sat_add_u64_def tcp_shift_bbr_drain_sat_mul_u64_def
      unat_add_guarded_u64 unat_mult_guarded_u64 del: not_less)

interpretation bbr_probe: rational_scale tcp_shift_bbr_probe_sat_add_u64 tcp_shift_bbr_probe_sat_mul_u64
  by unfold_locales
    (simp_all add: tcp_shift_bbr_probe_sat_add_u64_def tcp_shift_bbr_probe_sat_mul_u64_def
      unat_add_guarded_u64 unat_mult_guarded_u64 del: not_less)

section \<open>The bandwidth-delay product\<close>

lemma saturated_sum:
  fixes a b e x y z k :: nat
  assumes "a = min m x" and "b = min m (a + y)" and "e = min m (b + z)"
  shows "(if a = m \<or> b = m \<or> e = m then m else min m (e + k)) = min m (x + y + z + k)"
  using assms by (auto simp: min_def)

lemma unat_bdp:
  "unat (tcp_shift_bbr_bdp_bytes bw rtt) =
    min 18446744073709551615 (ceil_div (unat bw * unat rtt) 1000000000)"
proof (cases "bw = 0 \<or> rtt = 0")
  case True
  then show ?thesis by (auto simp: tcp_shift_bbr_bdp_bytes_def ceil_div_def)
next
  case False
  let ?D = "1000000000 :: nat"
  define a where "a = tcp_shift_bbr_sat_mul_u64 (bw div 1000000000) rtt"
  define b where "b = tcp_shift_bbr_sat_add_u64 a
    (tcp_shift_bbr_sat_mul_u64 (bw mod 1000000000) (rtt div 1000000000))"
  define c where "c = (bw mod 1000000000) * (rtt mod 1000000000)"
  define e where "e = tcp_shift_bbr_sat_add_u64 b (c div 1000000000)"
  have a: "unat a = min 18446744073709551615 (unat bw div ?D * unat rtt)"
    by (simp add: a_def bbr.unat_mul unat_div_distrib)
  have b: "unat b = min 18446744073709551615 (unat a + unat bw mod ?D * (unat rtt div ?D))"
    by (simp add: b_def bbr.unat_add bbr.unat_mul unat_div_distrib unat_mod_distrib min_def)
  have "unat bw mod ?D * (unat rtt mod ?D) \<le> 999999999 * 999999999"
    by (intro mult_le_mono) linarith+
  then have c: "unat c = unat bw mod ?D * (unat rtt mod ?D)"
    unfolding c_def by (subst unat_mult_exact) (simp_all add: unat_mod_distrib)
  have e: "unat e = min 18446744073709551615 (unat b + unat c div ?D)"
    by (simp add: e_def bbr.unat_add unat_div_distrib)
  have cm: "c mod 1000000000 = 0 \<longleftrightarrow> unat c mod ?D = 0"
    by (simp add: word_zero_nat unat_mod_distrib)
  have def: "tcp_shift_bbr_bdp_bytes bw rtt =
      (if a = UINT64_MAX then UINT64_MAX else if b = UINT64_MAX then UINT64_MAX
       else if e = UINT64_MAX then UINT64_MAX
       else if c mod 1000000000 \<noteq> 0 then tcp_shift_bbr_sat_add_u64 e 1 else e)"
    using False unfolding tcp_shift_bbr_bdp_bytes_def TCP_SHIFT_BBR_NSEC_PER_SEC_def Let_def
      a_def b_def c_def e_def by simp
  have "unat bw * unat rtt = unat bw div ?D * unat rtt * ?D + unat bw mod ?D * unat rtt"
    by (rule mult_split_div)
  also have "unat bw mod ?D * unat rtt = unat bw mod ?D * (unat rtt div ?D) * ?D + unat c"
    unfolding c using mult_split_div [of "unat rtt" "unat bw mod ?D" ?D] by (simp add: mult.commute)
  finally have "unat bw * unat rtt =
      (unat bw div ?D * unat rtt + unat bw mod ?D * (unat rtt div ?D)) * ?D + unat c"
    by (simp add: distrib_right)
  then have ceil: "ceil_div (unat bw * unat rtt) ?D = unat bw div ?D * unat rtt +
      unat bw mod ?D * (unat rtt div ?D) + unat c div ?D + (if unat c mod ?D = 0 then 0 else 1)"
    by (simp only: ceil_div_add_mult) (simp add: ceil_div_def)
  have "unat (tcp_shift_bbr_bdp_bytes bw rtt) =
      (if unat a = 18446744073709551615 \<or> unat b = 18446744073709551615 \<or> unat e = 18446744073709551615
       then 18446744073709551615
       else min 18446744073709551615 (unat e + (if unat c mod ?D = 0 then 0 else 1)))"
    unfolding def cm bbr.max_iff by (auto simp: bbr.unat_add)
  also have "\<dots> = min 18446744073709551615 (unat bw div ?D * unat rtt +
      unat bw mod ?D * (unat rtt div ?D) + unat c div ?D + (if unat c mod ?D = 0 then 0 else 1))"
    by (rule saturated_sum [OF a b e])
  finally show ?thesis unfolding ceil .
qed

end
