(* ===== verification/Bbr_Model.thy ===== *)
theory Bbr_Model
  imports Cc_Core Bbr_Math
begin

text \<open>
  The estimator of the compact BBR controller, \<^verbatim>\<open>src/cc/bbr.h\<close>, \<^verbatim>\<open>src/cc/bbr.c\<close>,
  \<^verbatim>\<open>src/cc/bbr_pacing.c\<close> and \<^verbatim>\<open>src/cc/bbr_drain.c\<close>: packet-timed rounds, the ten-round maximum
  filter of the delivery rate, full-pipe detection, the two minimum-RTT filters, and the
  STARTUP and DRAIN policies. The filter array is a list of ten slots. The main result is a
  refinement: the ring of slots computes the maximum over the samples of the last ten rounds.
\<close>

datatype tcp_shift_bbr_mode = MODE_STARTUP | MODE_DRAIN | MODE_PROBE_BW | MODE_PROBE_RTT

record tcp_shift_bbr_model =
  max_bw_bytes_per_sec :: u64
  max_bw_filter :: "u64 list"
  min_rtt_ns :: u64
  min_rtt_stamp_ns :: u64
  probe_rtt_min_delay_ns :: u64
  probe_rtt_min_stamp_ns :: u64
  last_update_ns :: u64
  valid_rate_samples :: u64
  accepted_bw_samples :: u64
  ignored_app_limited_bw_samples :: u64
  valid_rtt_samples :: u64
  next_round_delivered :: u64
  full_bw_bytes_per_sec :: u64
  bw_filter_round :: u32
  round_count :: u32
  full_bw_count :: u32
  mode :: tcp_shift_bbr_mode
  has_min_rtt :: bool
  has_probe_rtt_min :: bool
  has_update_time :: bool
  has_bw_filter_round :: bool
  probe_rtt_expired :: bool
  min_rtt_expired :: bool
  round_start :: bool
  full_bw_now :: bool
  full_bw_reached :: bool

definition TCP_SHIFT_BBR_MAX_BW_FILTER_ROUNDS :: u32 where "TCP_SHIFT_BBR_MAX_BW_FILTER_ROUNDS = 10"
definition TCP_SHIFT_BBR_PROBE_RTT_INTERVAL_NS :: u64 where "TCP_SHIFT_BBR_PROBE_RTT_INTERVAL_NS = 5000000000"
definition TCP_SHIFT_BBR_MIN_RTT_FILTER_NS :: u64 where "TCP_SHIFT_BBR_MIN_RTT_FILTER_NS = 10000000000"
definition TCP_SHIFT_BBR_FULL_BW_ROUNDS :: u32 where "TCP_SHIFT_BBR_FULL_BW_ROUNDS = 3"
definition TCP_SHIFT_BBR_GAIN_DEN :: u32 where "TCP_SHIFT_BBR_GAIN_DEN = 256"
definition TCP_SHIFT_BBR_STARTUP_GAIN_NUM :: u32 where "TCP_SHIFT_BBR_STARTUP_GAIN_NUM = 739"
definition TCP_SHIFT_BBR_DRAIN_GAIN_NUM :: u32 where "TCP_SHIFT_BBR_DRAIN_GAIN_NUM = 88"
definition TCP_SHIFT_BBR_PACING_MARGIN_NUM :: u32 where "TCP_SHIFT_BBR_PACING_MARGIN_NUM = 99"
definition TCP_SHIFT_BBR_PACING_MARGIN_DEN :: u32 where "TCP_SHIFT_BBR_PACING_MARGIN_DEN = 100"
definition TCP_SHIFT_BBR_MIN_CWND_PACKETS :: u32 where "TCP_SHIFT_BBR_MIN_CWND_PACKETS = 4"
definition TCP_SHIFT_BBR_INITIAL_RTT_NS :: u64 where "TCP_SHIFT_BBR_INITIAL_RTT_NS = 1000000"

lemmas bbr_const_defs = TCP_SHIFT_BBR_MAX_BW_FILTER_ROUNDS_def TCP_SHIFT_BBR_PROBE_RTT_INTERVAL_NS_def
  TCP_SHIFT_BBR_MIN_RTT_FILTER_NS_def TCP_SHIFT_BBR_FULL_BW_ROUNDS_def TCP_SHIFT_BBR_GAIN_DEN_def
  TCP_SHIFT_BBR_STARTUP_GAIN_NUM_def TCP_SHIFT_BBR_DRAIN_GAIN_NUM_def
  TCP_SHIFT_BBR_PACING_MARGIN_NUM_def TCP_SHIFT_BBR_PACING_MARGIN_DEN_def
  TCP_SHIFT_BBR_MIN_CWND_PACKETS_def TCP_SHIFT_BBR_INITIAL_RTT_NS_def

section \<open>Targets\<close>

definition tcp_shift_bbr_elapsed_gt :: "u64 \<Rightarrow> u64 \<Rightarrow> u64 \<Rightarrow> bool" where
  "tcp_shift_bbr_elapsed_gt now_ns stamp_ns interval \<longleftrightarrow> now_ns > stamp_ns \<and> now_ns - stamp_ns > interval"

definition tcp_shift_bbr_startup_pacing_rate_bytes_per_sec :: "u64 \<Rightarrow> u64" where
  "tcp_shift_bbr_startup_pacing_rate_bytes_per_sec bandwidth =
    tcp_shift_bbr_scale_floor_u64 bandwidth
      (TCP_SHIFT_BBR_STARTUP_GAIN_NUM * TCP_SHIFT_BBR_PACING_MARGIN_NUM)
      (TCP_SHIFT_BBR_GAIN_DEN * TCP_SHIFT_BBR_PACING_MARGIN_DEN)"

definition tcp_shift_bbr_startup_cwnd_target_bytes :: "u64 \<Rightarrow> u64 \<Rightarrow> u32 \<Rightarrow> u32 \<Rightarrow> u32 \<Rightarrow> u32" where
  "tcp_shift_bbr_startup_cwnd_target_bytes bandwidth min_rtt mss limit initial_cwnd =
    (if mss = 0 \<or> limit = 0 then 0
     else
       let minimum_cwnd = u64_of mss * u64_of TCP_SHIFT_BBR_MIN_CWND_PACKETS;
           minimum_cwnd = (if minimum_cwnd > u64_of limit then u64_of limit else minimum_cwnd);
           target = (if bandwidth = 0 \<or> min_rtt = 0 then u64_of initial_cwnd
                     else tcp_shift_bbr_scale_ceil_u64 (tcp_shift_bbr_bdp_bytes bandwidth min_rtt)
                            TCP_SHIFT_BBR_STARTUP_GAIN_NUM TCP_SHIFT_BBR_GAIN_DEN);
           target = (if target < minimum_cwnd then minimum_cwnd else target);
           target = (if target > u64_of limit then u64_of limit else target)
       in u32_of target)"

definition tcp_shift_bbr_initial_pacing_rate_bytes_per_sec :: "u32 \<Rightarrow> u64 \<Rightarrow> u64" where
  "tcp_shift_bbr_initial_pacing_rate_bytes_per_sec initial_cwnd smoothed_rtt =
    (if initial_cwnd = 0 then 0
     else
       let rtt = (if smoothed_rtt \<noteq> 0 then smoothed_rtt else TCP_SHIFT_BBR_INITIAL_RTT_NS);
           base_rate = (u64_of initial_cwnd * TCP_SHIFT_BBR_NSEC_PER_SEC) div rtt;
           base_rate = (if base_rate = 0 then 1 else base_rate)
       in tcp_shift_bbr_startup_pacing_rate_bytes_per_sec base_rate)"

definition tcp_shift_bbr_startup_policy ::
    "tcp_shift_bbr_model \<Rightarrow> tcp_shift_cc_transport \<Rightarrow> tcp_shift_cc_ack \<Rightarrow> u32 \<Rightarrow> u32 \<Rightarrow> u64 \<Rightarrow>
     tcp_shift_cc_policy \<Rightarrow> int \<times> tcp_shift_cc_policy" where
  "tcp_shift_bbr_startup_policy model transport ack initial_cwnd current_cwnd current_rate policy =
    (if mode model \<noteq> MODE_STARTUP \<or> mss_bytes transport = 0 \<or> cwnd_limit_bytes transport = 0 \<or>
        cwnd_limit_bytes transport < mss_bytes transport \<or> initial_cwnd = 0 \<or>
        initial_cwnd > cwnd_limit_bytes transport \<or> current_cwnd = 0 \<or>
        current_cwnd > cwnd_limit_bytes transport
     then (-1, policy)
     else
       let cwnd_target = tcp_shift_bbr_startup_cwnd_target_bytes (max_bw_bytes_per_sec model)
             (if has_min_rtt model then min_rtt_ns model else 0) (mss_bytes transport)
             (cwnd_limit_bytes transport) initial_cwnd
       in if cwnd_target = 0 then (-1, policy)
          else
            let minimum_cwnd =
                  (if mss_bytes transport > cwnd_limit_bytes transport div TCP_SHIFT_BBR_MIN_CWND_PACKETS
                   then cwnd_limit_bytes transport
                   else mss_bytes transport * TCP_SHIFT_BBR_MIN_CWND_PACKETS);
                cwnd = current_cwnd;
                cwnd =
                  (if acked_bytes ack \<noteq> 0 then
                     let grown_cwnd = u64_of cwnd + u64_of (acked_bytes ack);
                         grown_cwnd = (if grown_cwnd > u64_of (cwnd_limit_bytes transport)
                                       then u64_of (cwnd_limit_bytes transport) else grown_cwnd)
                     in if full_bw_reached model then
                          (if u32_of grown_cwnd < cwnd_target then u32_of grown_cwnd else cwnd_target)
                        else if cwnd < cwnd_target \<or>
                                delivered_total_bytes (ack_rate ack) < u64_of initial_cwnd
                        then u32_of grown_cwnd
                        else cwnd
                   else cwnd);
                cwnd = (if cwnd < minimum_cwnd then minimum_cwnd else cwnd);
                cwnd = (if cwnd > cwnd_limit_bytes transport then cwnd_limit_bytes transport else cwnd);
                pacing_target = tcp_shift_bbr_startup_pacing_rate_bytes_per_sec (max_bw_bytes_per_sec model);
                pacing_target = (if pacing_target < current_rate then current_rate else pacing_target)
            in (0, policy\<lparr>cwnd_bytes := cwnd, ssthresh_bytes := cwnd_limit_bytes transport,
                          pacing_rate_bytes_per_sec := pacing_target\<rparr>))"

section \<open>The estimator\<close>

definition tcp_shift_bbr_recompute_max_bw :: "tcp_shift_bbr_model \<Rightarrow> tcp_shift_bbr_model" where
  "tcp_shift_bbr_recompute_max_bw model =
    model\<lparr>max_bw_bytes_per_sec := foldl tcp_shift_bbr_max_u64 0 (max_bw_filter model)\<rparr>"

definition tcp_shift_bbr_update_round ::
    "tcp_shift_bbr_model \<Rightarrow> tcp_shift_cc_rate_sample \<Rightarrow> tcp_shift_bbr_model" where
  "tcp_shift_bbr_update_round model sample =
    (let model = model\<lparr>round_start := False\<rparr>
     in if delivered_total_bytes sample = 0 \<or> delivered_total_bytes sample < prior_delivered_bytes sample
        then model
        else if prior_delivered_bytes sample \<ge> next_round_delivered model
        then model\<lparr>next_round_delivered := delivered_total_bytes sample,
                   round_count := round_count model + 1, round_start := True\<rparr>
        else model)"

text \<open>The slot-clearing loop of the filter: steps \<open>1..n\<close> after round \<open>r\<close>.\<close>

primrec clear_slots :: "u64 list \<Rightarrow> u32 \<Rightarrow> nat \<Rightarrow> u64 list" where
  "clear_slots slots r 0 = slots"
| "clear_slots slots r (Suc n) =
    (clear_slots slots r n)[unat ((r + of_nat (Suc n)) mod TCP_SHIFT_BBR_MAX_BW_FILTER_ROUNDS) := 0]"

definition tcp_shift_bbr_age_bw_filter :: "tcp_shift_bbr_model \<Rightarrow> u32 \<Rightarrow> tcp_shift_bbr_model" where
  "tcp_shift_bbr_age_bw_filter model round =
    (if \<not> has_bw_filter_round model then model\<lparr>bw_filter_round := round, has_bw_filter_round := True\<rparr>
     else
       let delta = round - bw_filter_round model
       in if delta = 0 then model
          else
            let model =
                  (if delta \<ge> TCP_SHIFT_BBR_MAX_BW_FILTER_ROUNDS
                   then model\<lparr>max_bw_filter := map (\<lambda>_. 0) (max_bw_filter model)\<rparr>
                   else model\<lparr>max_bw_filter := clear_slots (max_bw_filter model) (bw_filter_round model) (unat delta)\<rparr>)
            in tcp_shift_bbr_recompute_max_bw (model\<lparr>bw_filter_round := round\<rparr>))"

definition tcp_shift_bbr_update_max_bw ::
    "tcp_shift_bbr_model \<Rightarrow> tcp_shift_cc_rate_sample \<Rightarrow> tcp_shift_bbr_model" where
  "tcp_shift_bbr_update_max_bw model sample =
    (if \<not> has_flag sample TCP_SHIFT_CC_RATE_SAMPLE_VALID \<or> delivery_rate_bytes_per_sec sample = 0
     then model
     else
       let model = model\<lparr>valid_rate_samples := valid_rate_samples model + 1\<rparr>
       in if has_flag sample TCP_SHIFT_CC_RATE_SAMPLE_APP_LIMITED \<and>
             delivery_rate_bytes_per_sec sample < max_bw_bytes_per_sec model
          then model\<lparr>ignored_app_limited_bw_samples := ignored_app_limited_bw_samples model + 1\<rparr>
          else
            let model = tcp_shift_bbr_age_bw_filter model (round_count model);
                slot = unat (round_count model mod TCP_SHIFT_BBR_MAX_BW_FILTER_ROUNDS);
                model = (if delivery_rate_bytes_per_sec sample > max_bw_filter model ! slot
                         then model\<lparr>max_bw_filter := (max_bw_filter model)[slot := delivery_rate_bytes_per_sec sample]\<rparr>
                         else model);
                model = model\<lparr>accepted_bw_samples := accepted_bw_samples model + 1\<rparr>
            in tcp_shift_bbr_recompute_max_bw model)"

definition tcp_shift_bbr_full_bw_threshold :: "u64 \<Rightarrow> u64" where
  "tcp_shift_bbr_full_bw_threshold full_bw =
    (let quarter = full_bw div 4;
         increment = (if full_bw mod 4 \<noteq> 0 then quarter + 1 else quarter)
     in if UINT64_MAX - full_bw < increment then UINT64_MAX else full_bw + increment)"

definition tcp_shift_bbr_check_startup_full_bw ::
    "tcp_shift_bbr_model \<Rightarrow> tcp_shift_cc_rate_sample \<Rightarrow> tcp_shift_bbr_model" where
  "tcp_shift_bbr_check_startup_full_bw model sample =
    (let model = model\<lparr>full_bw_now := False\<rparr>
     in if mode model \<noteq> MODE_STARTUP \<or> full_bw_reached model \<or> \<not> round_start model \<or>
           \<not> has_flag sample TCP_SHIFT_CC_RATE_SAMPLE_VALID \<or> delivery_rate_bytes_per_sec sample = 0 \<or>
           has_flag sample TCP_SHIFT_CC_RATE_SAMPLE_APP_LIMITED
        then model
        else
          let threshold = tcp_shift_bbr_full_bw_threshold (full_bw_bytes_per_sec model)
          in if full_bw_bytes_per_sec model = 0 \<or> max_bw_bytes_per_sec model \<ge> threshold
             then model\<lparr>full_bw_bytes_per_sec := max_bw_bytes_per_sec model, full_bw_count := 0\<rparr>
             else
               let model = model\<lparr>full_bw_count := full_bw_count model + 1\<rparr>
               in if full_bw_count model \<ge> TCP_SHIFT_BBR_FULL_BW_ROUNDS
                  then model\<lparr>full_bw_now := True, full_bw_reached := True\<rparr> else model)"

definition tcp_shift_bbr_update_min_rtt ::
    "tcp_shift_bbr_model \<Rightarrow> tcp_shift_cc_rate_sample \<Rightarrow> u64 \<Rightarrow> tcp_shift_bbr_model" where
  "tcp_shift_bbr_update_min_rtt model sample now_ns =
    (if \<not> has_flag sample TCP_SHIFT_CC_RATE_SAMPLE_RTT_VALID \<or> rtt_ns sample = 0
     then model\<lparr>probe_rtt_expired := False, min_rtt_expired := False\<rparr>
     else
       let model = model\<lparr>valid_rtt_samples := valid_rtt_samples model + 1\<rparr>;
           probe_expired = (has_probe_rtt_min model \<and>
             tcp_shift_bbr_elapsed_gt now_ns (probe_rtt_min_stamp_ns model) TCP_SHIFT_BBR_PROBE_RTT_INTERVAL_NS);
           model = model\<lparr>probe_rtt_expired := probe_expired\<rparr>;
           model = (if \<not> has_probe_rtt_min model \<or> rtt_ns sample < probe_rtt_min_delay_ns model \<or> probe_expired
                    then model\<lparr>probe_rtt_min_delay_ns := rtt_ns sample, probe_rtt_min_stamp_ns := now_ns,
                               has_probe_rtt_min := True\<rparr>
                    else model);
           min_expired = (has_min_rtt model \<and>
             tcp_shift_bbr_elapsed_gt now_ns (min_rtt_stamp_ns model) TCP_SHIFT_BBR_MIN_RTT_FILTER_NS);
           model = model\<lparr>min_rtt_expired := min_expired\<rparr>
       in if \<not> has_min_rtt model \<or> probe_rtt_min_delay_ns model < min_rtt_ns model \<or> min_expired
          then model\<lparr>min_rtt_ns := probe_rtt_min_delay_ns model,
                     min_rtt_stamp_ns := probe_rtt_min_stamp_ns model, has_min_rtt := True\<rparr>
          else model)"

definition tcp_shift_bbr_model_init :: tcp_shift_bbr_model where
  "tcp_shift_bbr_model_init =
    \<lparr>max_bw_bytes_per_sec = 0, max_bw_filter = replicate 10 0, min_rtt_ns = 0, min_rtt_stamp_ns = 0,
     probe_rtt_min_delay_ns = 0, probe_rtt_min_stamp_ns = 0, last_update_ns = 0,
     valid_rate_samples = 0, accepted_bw_samples = 0, ignored_app_limited_bw_samples = 0,
     valid_rtt_samples = 0, next_round_delivered = 0, full_bw_bytes_per_sec = 0,
     bw_filter_round = 0, round_count = 0, full_bw_count = 0, mode = MODE_STARTUP,
     has_min_rtt = False, has_probe_rtt_min = False, has_update_time = False,
     has_bw_filter_round = False, probe_rtt_expired = False, min_rtt_expired = False,
     round_start = False, full_bw_now = False, full_bw_reached = False\<rparr>"

definition tcp_shift_bbr_model_on_ack ::
    "tcp_shift_bbr_model \<Rightarrow> tcp_shift_cc_rate_sample \<Rightarrow> u64 \<Rightarrow> int \<times> tcp_shift_bbr_model" where
  "tcp_shift_bbr_model_on_ack model sample now_ns =
    (if has_update_time model \<and> now_ns < last_update_ns model then (-1, model)
     else
       let model = model\<lparr>last_update_ns := now_ns, has_update_time := True\<rparr>;
           model = tcp_shift_bbr_update_round model sample;
           model = tcp_shift_bbr_update_max_bw model sample;
           model = tcp_shift_bbr_check_startup_full_bw model sample;
           model = tcp_shift_bbr_update_min_rtt model sample now_ns
       in (0, model))"

section \<open>DRAIN\<close>

definition tcp_shift_bbr_drain_min_cwnd_bytes :: "tcp_shift_cc_transport \<Rightarrow> u32" where
  "tcp_shift_bbr_drain_min_cwnd_bytes transport =
    (let minimum = u64_of (mss_bytes transport) * u64_of TCP_SHIFT_BBR_MIN_CWND_PACKETS;
         minimum = (if minimum > u64_of (cwnd_limit_bytes transport)
                    then u64_of (cwnd_limit_bytes transport) else minimum)
     in u32_of minimum)"

definition tcp_shift_bbr_drain_pacing_rate_bytes_per_sec :: "u64 \<Rightarrow> u64" where
  "tcp_shift_bbr_drain_pacing_rate_bytes_per_sec bandwidth =
    tcp_shift_bbr_drain_scale_floor_u64 bandwidth
      (TCP_SHIFT_BBR_DRAIN_GAIN_NUM * TCP_SHIFT_BBR_PACING_MARGIN_NUM)
      (TCP_SHIFT_BBR_GAIN_DEN * TCP_SHIFT_BBR_PACING_MARGIN_DEN)"

definition tcp_shift_bbr_model_check_drain ::
    "tcp_shift_bbr_model \<Rightarrow> tcp_shift_cc_rate_sample \<Rightarrow> int \<times> tcp_shift_bbr_model" where
  "tcp_shift_bbr_model_check_drain model sample =
    (let model = (if mode model = MODE_STARTUP \<and> full_bw_reached model
                  then model\<lparr>mode := MODE_DRAIN\<rparr> else model)
     in if mode model \<noteq> MODE_DRAIN \<or> \<not> has_flag sample TCP_SHIFT_CC_RATE_SAMPLE_VALID \<or>
           max_bw_bytes_per_sec model = 0 \<or> \<not> has_min_rtt model \<or> min_rtt_ns model = 0
        then (0, model)
        else
          let drain_target = tcp_shift_bbr_bdp_bytes (max_bw_bytes_per_sec model) (min_rtt_ns model)
          in if drain_target = 0 then (0, model)
             else if u64_of (prior_inflight_bytes sample) \<le> drain_target
             then (0, model\<lparr>mode := MODE_PROBE_BW\<rparr>)
             else (0, model))"

definition tcp_shift_bbr_drain_policy ::
    "tcp_shift_bbr_model \<Rightarrow> tcp_shift_cc_transport \<Rightarrow> tcp_shift_cc_ack \<Rightarrow> u32 \<Rightarrow>
     tcp_shift_cc_policy \<Rightarrow> int \<times> tcp_shift_cc_policy" where
  "tcp_shift_bbr_drain_policy model transport ack current_cwnd policy =
    (if mode model \<noteq> MODE_DRAIN \<or> \<not> full_bw_reached model \<or> max_bw_bytes_per_sec model = 0 \<or>
        mss_bytes transport = 0 \<or> cwnd_limit_bytes transport = 0 \<or>
        cwnd_limit_bytes transport < mss_bytes transport \<or> current_cwnd = 0 \<or>
        current_cwnd > cwnd_limit_bytes transport
     then (-1, policy)
     else
       let minimum_cwnd = tcp_shift_bbr_drain_min_cwnd_bytes transport;
           cwnd_target = tcp_shift_bbr_startup_cwnd_target_bytes (max_bw_bytes_per_sec model)
             (if has_min_rtt model then min_rtt_ns model else 0) (mss_bytes transport)
             (cwnd_limit_bytes transport) minimum_cwnd
       in if cwnd_target = 0 then (-1, policy)
          else
            let cwnd = current_cwnd;
                cwnd =
                  (if acked_bytes ack \<noteq> 0 then
                     let grown_cwnd = u64_of cwnd + u64_of (acked_bytes ack);
                         grown_cwnd = (if grown_cwnd > u64_of (cwnd_limit_bytes transport)
                                       then u64_of (cwnd_limit_bytes transport) else grown_cwnd)
                     in if u32_of grown_cwnd < cwnd_target then u32_of grown_cwnd else cwnd_target
                   else cwnd);
                cwnd = (if cwnd < minimum_cwnd then minimum_cwnd else cwnd);
                cwnd = (if cwnd > cwnd_limit_bytes transport then cwnd_limit_bytes transport else cwnd);
                drain_target =
                  (if has_min_rtt model \<and> min_rtt_ns model \<noteq> 0
                   then tcp_shift_bbr_bdp_bytes (max_bw_bytes_per_sec model) (min_rtt_ns model)
                   else u64_of minimum_cwnd);
                drain_target = (if drain_target < u64_of minimum_cwnd then u64_of minimum_cwnd else drain_target);
                drain_target = (if drain_target > u64_of (cwnd_limit_bytes transport)
                                then u64_of (cwnd_limit_bytes transport) else drain_target);
                ssthresh = u32_of drain_target
            in (0, policy\<lparr>cwnd_bytes := cwnd, ssthresh_bytes := ssthresh,
                          pacing_rate_bytes_per_sec :=
                            tcp_shift_bbr_drain_pacing_rate_bytes_per_sec (max_bw_bytes_per_sec model)\<rparr>))"

section \<open>The maximum filter as a window over rounds\<close>

text \<open>Admission of a rate sample, and runs of the estimator that log each admitted sample with the
  round it was admitted in.\<close>

definition bw_admitted :: "tcp_shift_bbr_model \<Rightarrow> tcp_shift_cc_rate_sample \<Rightarrow> bool" where
  "bw_admitted model sample \<longleftrightarrow>
    has_flag sample TCP_SHIFT_CC_RATE_SAMPLE_VALID \<and> delivery_rate_bytes_per_sec sample \<noteq> 0 \<and>
    \<not> (has_flag sample TCP_SHIFT_CC_RATE_SAMPLE_APP_LIMITED \<and>
       delivery_rate_bytes_per_sec sample < max_bw_bytes_per_sec model)"

fun bbr_run :: "tcp_shift_bbr_model \<Rightarrow> (nat \<times> nat) list \<Rightarrow> (tcp_shift_cc_rate_sample \<times> u64) list \<Rightarrow>
    tcp_shift_bbr_model \<times> (nat \<times> nat) list" where
  "bbr_run m log [] = (m, log)"
| "bbr_run m log ((sample, now) # acks) =
    (case tcp_shift_bbr_model_on_ack m sample now of (rc, m') \<Rightarrow>
       bbr_run m' (if rc = 0 \<and> bw_admitted m sample
                   then (unat (round_count m'), unat (delivery_rate_bytes_per_sec sample)) # log
                   else log) acks)"

definition is_max :: "nat set \<Rightarrow> nat \<Rightarrow> bool" where
  "is_max S x \<longleftrightarrow> (\<forall>y \<in> S. y \<le> x) \<and> (x = 0 \<or> x \<in> S)"

text \<open>The rates of slot \<open>s\<close> that are within ten rounds of round \<open>R\<close>.\<close>

definition slot_rates :: "(nat \<times> nat) list \<Rightarrow> nat \<Rightarrow> nat \<Rightarrow> nat set" where
  "slot_rates log R s = {v. \<exists>r. (r, v) \<in> set log \<and> R < r + 10 \<and> r mod 10 = s}"

definition window_rates :: "(nat \<times> nat) list \<Rightarrow> nat \<Rightarrow> nat set" where
  "window_rates log R = {v. \<exists>r. (r, v) \<in> set log \<and> R < r + 10}"

definition ring_ok :: "(nat \<times> nat) list \<Rightarrow> nat \<Rightarrow> u64 list \<Rightarrow> bool" where
  "ring_ok log R slots \<longleftrightarrow> length slots = 10 \<and> (\<forall>(r, v) \<in> set log. r \<le> R) \<and>
    (\<forall>s < 10. is_max (slot_rates log R s) (unat (slots ! s)))"

lemma foldl_max_upper: "x \<in> insert a (set xs) \<Longrightarrow> unat x \<le> unat (foldl tcp_shift_bbr_max_u64 a xs)"
proof (induction xs arbitrary: a x)
  case (Cons y ys)
  have "unat a \<le> unat (tcp_shift_bbr_max_u64 a y)" "unat y \<le> unat (tcp_shift_bbr_max_u64 a y)"
    by (simp_all add: tcp_shift_bbr_max_u64_def word_less_nat_alt)
  then show ?case using Cons.IH [of "tcp_shift_bbr_max_u64 a y" "tcp_shift_bbr_max_u64 a y"]
      Cons.IH [of x "tcp_shift_bbr_max_u64 a y"] Cons.prems by fastforce
qed simp

lemma foldl_max_mem: "foldl tcp_shift_bbr_max_u64 a xs \<in> insert a (set xs)"
proof (induction xs arbitrary: a)
  case (Cons y ys)
  have "tcp_shift_bbr_max_u64 a y \<in> {a, y}" by (simp add: tcp_shift_bbr_max_u64_def)
  then show ?case using Cons [of "tcp_shift_bbr_max_u64 a y"] by auto
qed simp

lemma ring_maximum:
  assumes "ring_ok log R slots"
  shows "is_max (window_rates log R) (unat (foldl tcp_shift_bbr_max_u64 0 slots))"
  unfolding is_max_def
proof (intro conjI ballI)
  let ?m = "foldl tcp_shift_bbr_max_u64 0 slots"
  fix v assume "v \<in> window_rates log R"
  then obtain r where r: "(r, v) \<in> set log" "R < r + 10" by (auto simp: window_rates_def)
  then have "v \<in> slot_rates log R (r mod 10)" by (auto simp: slot_rates_def)
  then have "v \<le> unat (slots ! (r mod 10))" using assms by (auto simp: ring_ok_def is_max_def)
  also have "\<dots> \<le> unat ?m" using assms by (intro foldl_max_upper) (simp add: ring_ok_def)
  finally show "v \<le> unat ?m" .
next
  let ?m = "foldl tcp_shift_bbr_max_u64 0 slots"
  show "unat ?m = 0 \<or> unat ?m \<in> window_rates log R"
  proof (cases "?m = 0")
    case False
    then have "?m \<in> set slots" using foldl_max_mem [of 0 slots] by simp
    then obtain s where s: "s < 10" "slots ! s = ?m"
      using assms by (auto simp: ring_ok_def in_set_conv_nth)
    then have "is_max (slot_rates log R s) (unat ?m)" using assms by (auto simp: ring_ok_def)
    then have "unat ?m \<in> slot_rates log R s" using False by (simp add: is_max_def word_zero_nat)
    then show ?thesis by (auto simp: slot_rates_def window_rates_def)
  qed simp
qed

lemma clear_slots_nth:
  assumes "length slots = 10" and "unat r + n < 2 ^ 32" and "s < 10"
  shows "length (clear_slots slots r n) = 10"
    and "clear_slots slots r n ! s = (if \<exists>k \<in> {1..n}. (unat r + k) mod 10 = s then 0 else slots ! s)"
  using assms(2)
proof (induction n)
  case 0
  { case 1 then show ?case by (simp add: assms(1)) }
  { case 2 then show ?case by simp }
next
  case (Suc n)
  have "unat (r + of_nat (Suc n)) = unat r + Suc n" if "unat r + Suc n < 2 ^ 32"
  proof -
    have "unat (of_nat (Suc n) :: u32) = Suc n"
      using that by (subst unat_of_nat) (simp del: of_nat_Suc)
    then show ?thesis using that by (subst unat_add_exact) (simp_all del: of_nat_Suc)
  qed
  then have slot: "unat ((r + of_nat (Suc n)) mod 10) = (unat r + Suc n) mod 10" if "unat r + Suc n < 2 ^ 32"
    using that by (simp add: unat_mod_distrib)
  { case 1 then show ?case using Suc by (simp add: bbr_const_defs) }
  { case 2
    then have IH: "length (clear_slots slots r n) = 10"
      "clear_slots slots r n ! s = (if \<exists>k \<in> {1..n}. (unat r + k) mod 10 = s then 0 else slots ! s)"
      using Suc by simp_all
    have "clear_slots slots r (Suc n) ! s =
        (if (unat r + Suc n) mod 10 = s then 0 else clear_slots slots r n ! s)"
      using IH(1) assms(3) slot 2 by (simp add: bbr_const_defs nth_list_update del: of_nat_Suc)
    moreover have "(\<exists>k \<in> {1..Suc n}. (unat r + k) mod 10 = s) \<longleftrightarrow>
        (unat r + Suc n) mod 10 = s \<or> (\<exists>k \<in> {1..n}. (unat r + k) mod 10 = s)"
      by (auto simp: atLeastAtMostSuc_conv)
    ultimately show ?case using IH(2) by simp
  }
qed

text \<open>Moving the window forward empties exactly the slots that the loop clears.\<close>

lemma slot_rates_age:
  assumes "\<forall>(r, v) \<in> set log. r \<le> R" and "R \<le> R'"
  shows "slot_rates log R' s =
    (if \<exists>k \<in> {1..R' - R}. (R + k) mod 10 = s then {} else slot_rates log R s)"
proof -
  let ?C = "\<exists>k \<in> {1..R' - R}. (R + k) mod 10 = s"
  have iff: "R' < r + 10 \<longleftrightarrow> R < r + 10 \<and> \<not> (\<exists>k \<in> {1..R' - R}. (R + k) mod 10 = s)"
    if r: "r \<le> R" "r mod 10 = s" for r
  proof
    assume w: "R' < r + 10"
    have "(R + k) mod 10 \<noteq> s" if "k \<in> {1..R' - R}" for k
    proof
      assume "(R + k) mod 10 = s"
      then have "(R + k) mod 10 = r mod 10" using r by simp
      moreover have "r < R + k" "R + k < r + 10" using that w r by auto
      ultimately show False by (metis add_diff_inverse_nat less_imp_le mod_eq_dvd_iff_nat
            nat_dvd_not_less not_less zero_less_diff add_less_cancel_left)
    qed
    then show "R < r + 10 \<and> \<not> (\<exists>k \<in> {1..R' - R}. (R + k) mod 10 = s)" using w assms(2) by auto
  next
    assume h: "R < r + 10 \<and> \<not> (\<exists>k \<in> {1..R' - R}. (R + k) mod 10 = s)"
    show "R' < r + 10"
    proof (rule ccontr)
      assume "\<not> R' < r + 10"
      then have "r + 10 - R \<in> {1..R' - R}" using h by auto
      moreover have "(R + (r + 10 - R)) mod 10 = s" using h r by simp
      ultimately show False using h by blast
    qed
  qed
  have "slot_rates log R' s = {v. \<exists>r. (r, v) \<in> set log \<and> (R < r + 10 \<and> \<not> ?C) \<and> r mod 10 = s}"
    unfolding slot_rates_def using iff assms(1) by blast
  then show ?thesis by (simp add: slot_rates_def)
qed

lemma mod_cover: "10 \<le> n \<Longrightarrow> s < 10 \<Longrightarrow> \<exists>k \<in> {1..n}. (R + k) mod 10 = s" for n s R :: nat
proof -
  assume n: "10 \<le> n" and s: "s < 10"
  define m where "m = R mod 10"
  define k where "k = (if m < s then s - m else s + 10 - m)"
  have m: "m < 10" by (simp add: m_def)
  then have "k \<in> {1..n}" using n s by (auto simp: k_def)
  moreover have "(R + k) mod 10 = s"
  proof -
    have "(R + k) mod 10 = (m + k) mod 10" unfolding m_def by (simp only: mod_add_left_eq)
    also have "\<dots> = s" using m s by (simp add: k_def)
    finally show ?thesis .
  qed
  ultimately show ?thesis by blast
qed

lemma ring_age:
  assumes ring: "ring_ok log (unat R) slots" and "unat R \<le> unat R'"
    and slots': "slots' = (if R' - R = 0 then slots else if R' - R \<ge> 10 then map (\<lambda>_. 0) slots
      else clear_slots slots R (unat (R' - R)))"
  shows "ring_ok log (unat R') slots'"
proof -
  have d: "unat (R' - R) = unat R' - unat R" using assms(2) by (rule unat_diff_exact)
  have len: "length slots = 10" and old: "\<forall>(r, v) \<in> set log. r \<le> unat R"
    and slot: "\<And>s. s < 10 \<Longrightarrow> is_max (slot_rates log (unat R) s) (unat (slots ! s))"
    using ring by (auto simp: ring_ok_def)
  have age: "slot_rates log (unat R') s = (if \<exists>k \<in> {1..unat (R' - R)}. (unat R + k) mod 10 = s
      then {} else slot_rates log (unat R) s)" for s
    unfolding d using slot_rates_age [OF old assms(2)] .
  have nth: "slots' ! s = (if \<exists>k \<in> {1..unat (R' - R)}. (unat R + k) mod 10 = s then 0 else slots ! s)"
    and len': "length slots' = 10" if s: "s < 10" for s
  proof -
    have bound: "unat R + unat (R' - R) < 2 ^ 32" using d assms(2) unat_lt_u32 [of R'] by simp
    consider "R' - R = 0" | "R' - R \<noteq> 0" "10 \<le> unat (R' - R)" | "R' - R \<noteq> 0" "unat (R' - R) < 10" by linarith
    then have "slots' ! s = (if \<exists>k \<in> {1..unat (R' - R)}. (unat R + k) mod 10 = s then 0 else slots ! s) \<and>
        length slots' = 10"
    proof cases
      case 2
      then show ?thesis using mod_cover [OF 2(2) s, of "unat R"] len s
        by (simp add: slots' word_le_nat_alt)
    next
      case 3
      then show ?thesis using clear_slots_nth [OF len bound s] by (simp add: slots' word_le_nat_alt)
    qed (simp add: slots' len)
    then show "slots' ! s = (if \<exists>k \<in> {1..unat (R' - R)}. (unat R + k) mod 10 = s then 0 else slots ! s)"
      and "length slots' = 10" by auto
  qed
  have "is_max (slot_rates log (unat R') s) (unat (slots' ! s))" if "s < 10" for s
    using slot [OF that] unfolding age nth [OF that] by (simp add: is_max_def)
  moreover have "\<forall>(r, v) \<in> set log. r \<le> unat R'" using old assms(2) by fastforce
  ultimately show ?thesis using len' [of 0] by (simp add: ring_ok_def)
qed

lemma ring_insert:
  assumes ring: "ring_ok log R slots" and slot: "slot = R mod 10"
    and slots': "slots' = (if v > slots ! slot then slots[slot := v] else slots)"
  shows "ring_ok ((R, unat v) # log) R slots'"
proof -
  have len: "length slots = 10" using ring by (simp add: ring_ok_def)
  have rates: "slot_rates ((R, unat v) # log) R s =
      (if s = slot then insert (unat v) (slot_rates log R s) else slot_rates log R s)" for s
    by (auto simp: slot_rates_def slot)
  have "is_max (slot_rates ((R, unat v) # log) R s) (unat (slots' ! s))" if "s < 10" for s
  proof -
    have old: "is_max (slot_rates log R s) (unat (slots ! s))" using ring that by (simp add: ring_ok_def)
    have "unat (slots' ! s) = (if s = slot then max (unat v) (unat (slots ! s)) else unat (slots ! s))"
      using that len by (auto simp: slots' nth_list_update word_less_nat_alt)
    then show ?thesis using old unfolding rates by (auto simp: is_max_def)
  qed
  then show ?thesis using ring by (auto simp: ring_ok_def slots')
qed

text \<open>The invariant of the estimator with its log.\<close>

definition bw_inv :: "tcp_shift_bbr_model \<Rightarrow> (nat \<times> nat) list \<Rightarrow> bool" where
  "bw_inv m log \<longleftrightarrow>
    length (max_bw_filter m) = 10 \<and>
    max_bw_bytes_per_sec m = foldl tcp_shift_bbr_max_u64 0 (max_bw_filter m) \<and>
    (if has_bw_filter_round m
     then ring_ok log (unat (bw_filter_round m)) (max_bw_filter m) \<and>
       unat (bw_filter_round m) \<le> unat (round_count m) \<and> (\<exists>v. (unat (bw_filter_round m), v) \<in> set log)
     else log = [] \<and> max_bw_filter m = replicate 10 0)"

lemma age_bw_filter_ring:
  assumes "bw_inv m log"
  defines "a \<equiv> tcp_shift_bbr_age_bw_filter m (round_count m)"
  shows "ring_ok log (unat (round_count m)) (max_bw_filter a)" and "bw_filter_round a = round_count m"
    and "has_bw_filter_round a" and "round_count a = round_count m"
proof -
  show "bw_filter_round a = round_count m" "has_bw_filter_round a" "round_count a = round_count m"
    by (simp_all add: a_def tcp_shift_bbr_age_bw_filter_def tcp_shift_bbr_recompute_max_bw_def Let_def)
  show "ring_ok log (unat (round_count m)) (max_bw_filter a)"
  proof (cases "has_bw_filter_round m")
    case False
    then show ?thesis using assms(1)
      by (auto simp: a_def bw_inv_def tcp_shift_bbr_age_bw_filter_def ring_ok_def slot_rates_def is_max_def)
  next
    case True
    then have "ring_ok log (unat (bw_filter_round m)) (max_bw_filter m)"
      "unat (bw_filter_round m) \<le> unat (round_count m)" using assms(1) by (auto simp: bw_inv_def)
    then show ?thesis
    proof (rule ring_age)
      show "max_bw_filter a = (if round_count m - bw_filter_round m = 0 then max_bw_filter m
          else if round_count m - bw_filter_round m \<ge> 10 then map (\<lambda>_. 0) (max_bw_filter m)
          else clear_slots (max_bw_filter m) (bw_filter_round m) (unat (round_count m - bw_filter_round m)))"
        using True by (simp add: a_def tcp_shift_bbr_age_bw_filter_def tcp_shift_bbr_recompute_max_bw_def
            bbr_const_defs Let_def)
    qed
  qed
qed

lemma update_max_bw_inv:
  assumes "bw_inv m log"
  shows "bw_inv (tcp_shift_bbr_update_max_bw m sample)
    (if bw_admitted m sample
     then (unat (round_count m), unat (delivery_rate_bytes_per_sec sample)) # log else log)"
    and "round_count (tcp_shift_bbr_update_max_bw m sample) = round_count m"
proof -
  show rc: "round_count (tcp_shift_bbr_update_max_bw m sample) = round_count m"
    by (simp add: tcp_shift_bbr_update_max_bw_def tcp_shift_bbr_age_bw_filter_def
        tcp_shift_bbr_recompute_max_bw_def Let_def)
  show "bw_inv (tcp_shift_bbr_update_max_bw m sample)
    (if bw_admitted m sample
     then (unat (round_count m), unat (delivery_rate_bytes_per_sec sample)) # log else log)"
  proof (cases "bw_admitted m sample")
    case False
    then have "tcp_shift_bbr_update_max_bw m sample \<in> {m, m\<lparr>valid_rate_samples := valid_rate_samples m + 1,
        ignored_app_limited_bw_samples := ignored_app_limited_bw_samples m + 1\<rparr>}"
      by (auto simp: bw_admitted_def tcp_shift_bbr_update_max_bw_def Let_def)
    then show ?thesis using assms False by (auto simp: bw_inv_def)
  next
    case True
    define m1 where "m1 = m\<lparr>valid_rate_samples := valid_rate_samples m + 1\<rparr>"
    define a where "a = tcp_shift_bbr_age_bw_filter m1 (round_count m1)"
    let ?v = "delivery_rate_bytes_per_sec sample"
    let ?slot = "unat (round_count m) mod 10"
    have m1: "bw_inv m1 log" "round_count m1 = round_count m" using assms by (simp_all add: m1_def bw_inv_def)
    note a = age_bw_filter_ring [OF m1(1), folded a_def, unfolded m1(2)]
    have slot: "unat (round_count a mod 10) = ?slot" by (simp add: a(4) unat_mod_distrib)
    let ?f = "if ?v > max_bw_filter a ! ?slot then (max_bw_filter a)[?slot := ?v] else max_bw_filter a"
    have c: "\<not> (\<not> has_flag sample TCP_SHIFT_CC_RATE_SAMPLE_VALID \<or> ?v = 0)"
      "\<not> (has_flag sample TCP_SHIFT_CC_RATE_SAMPLE_APP_LIMITED \<and> ?v < max_bw_bytes_per_sec m1)"
      using True by (auto simp: bw_admitted_def m1_def)
    define n where "n = (if ?v > max_bw_filter a ! ?slot then a\<lparr>max_bw_filter := (max_bw_filter a)[?slot := ?v]\<rparr> else a)"
    have eq: "tcp_shift_bbr_update_max_bw m sample =
        tcp_shift_bbr_recompute_max_bw (n\<lparr>accepted_bw_samples := accepted_bw_samples n + 1\<rparr>)"
      unfolding tcp_shift_bbr_update_max_bw_def Let_def if_not_P [OF c(1)] m1_def [symmetric]
        if_not_P [OF c(2)] a_def [symmetric] TCP_SHIFT_BBR_MAX_BW_FILTER_ROUNDS_def slot n_def ..
    have n: "max_bw_filter n = ?f" "bw_filter_round n = bw_filter_round a"
      "has_bw_filter_round n = has_bw_filter_round a" by (simp_all add: n_def)
    have res: "max_bw_filter (tcp_shift_bbr_update_max_bw m sample) = ?f"
      "max_bw_bytes_per_sec (tcp_shift_bbr_update_max_bw m sample) = foldl tcp_shift_bbr_max_u64 0 ?f"
      "bw_filter_round (tcp_shift_bbr_update_max_bw m sample) = round_count m"
      "has_bw_filter_round (tcp_shift_bbr_update_max_bw m sample)"
      using a unfolding eq by (simp_all add: tcp_shift_bbr_recompute_max_bw_def n)
    have "ring_ok ((unat (round_count m), unat ?v) # log) (unat (round_count m)) ?f"
      by (rule ring_insert [OF a(1) refl refl])
    moreover from this have "length ?f = 10" by (simp only: ring_ok_def)
    ultimately show ?thesis using True rc unfolding bw_inv_def res(1-3) by (auto simp: res(4))
  qed
qed

text \<open>The other stages of an ACK leave the filter alone.\<close>

lemma full_bw_frame:
  "bw_inv (tcp_shift_bbr_check_startup_full_bw m sample) log = bw_inv m log"
  "round_count (tcp_shift_bbr_check_startup_full_bw m sample) = round_count m"
  by (simp_all add: tcp_shift_bbr_check_startup_full_bw_def bw_inv_def Let_def)

lemma min_rtt_frame:
  "bw_inv (tcp_shift_bbr_update_min_rtt m sample now) log = bw_inv m log"
  "round_count (tcp_shift_bbr_update_min_rtt m sample now) = round_count m"
  by (simp_all add: tcp_shift_bbr_update_min_rtt_def bw_inv_def Let_def)

lemma update_round_count:
  "round_count (tcp_shift_bbr_update_round m sample) \<in> {round_count m, round_count m + 1}"
  "max_bw_bytes_per_sec (tcp_shift_bbr_update_round m sample) = max_bw_bytes_per_sec m"
  by (auto simp: tcp_shift_bbr_update_round_def Let_def)

lemma update_round_inv:
  assumes "bw_inv m log" and "unat (round_count m) + 1 < 2 ^ 32"
  shows "bw_inv (tcp_shift_bbr_update_round m sample) log"
    and "unat (round_count (tcp_shift_bbr_update_round m sample)) \<le> unat (round_count m) + 1"
proof -
  have inc: "unat (round_count m + 1) = unat (round_count m) + 1"
    using assms(2) by (intro unat_inc_exact) simp
  then show "unat (round_count (tcp_shift_bbr_update_round m sample)) \<le> unat (round_count m) + 1"
    using update_round_count(1) [of m sample] by auto
  show "bw_inv (tcp_shift_bbr_update_round m sample) log"
    using assms(1) inc by (auto simp: tcp_shift_bbr_update_round_def bw_inv_def Let_def)
qed

lemma on_ack_bw_inv:
  assumes "bw_inv m log" and "unat (round_count m) + 1 < 2 ^ 32"
    and "tcp_shift_bbr_model_on_ack m sample now = (rc, m')"
  shows "bw_inv m' (if rc = 0 \<and> bw_admitted m sample
      then (unat (round_count m'), unat (delivery_rate_bytes_per_sec sample)) # log else log)"
    and "unat (round_count m') \<le> unat (round_count m) + 1"
proof -
  define u where "u = tcp_shift_bbr_update_round (m\<lparr>last_update_ns := now, has_update_time := True\<rparr>) sample"
  have b: "bw_inv (m\<lparr>last_update_ns := now, has_update_time := True\<rparr>) log"
    using assms(1) by (simp add: bw_inv_def)
  have u: "bw_inv u log" "unat (round_count u) \<le> unat (round_count m) + 1"
    using update_round_inv [OF b, of sample] assms(2) by (simp_all add: u_def)
  have adm: "bw_admitted u sample = bw_admitted m sample"
    by (simp add: bw_admitted_def u_def update_round_count(2))
  define w where "w = tcp_shift_bbr_update_max_bw u sample"
  note w = update_max_bw_inv [OF u(1), of sample, folded w_def]
  consider "rc = -1" "m' = m" | "rc = 0" "m' = tcp_shift_bbr_update_min_rtt
      (tcp_shift_bbr_check_startup_full_bw w sample) sample now"
    using assms(3) unfolding tcp_shift_bbr_model_on_ack_def Let_def w_def u_def by (auto split: if_splits)
  then have "(rc = -1 \<and> m' = m) \<or> (rc = 0 \<and> bw_inv m' (if bw_admitted m sample
      then (unat (round_count m'), unat (delivery_rate_bytes_per_sec sample)) # log else log) \<and>
      round_count m' = round_count u)"
  proof cases
    case 2
    have "round_count m' = round_count u" by (simp only: 2 full_bw_frame min_rtt_frame w(2))
    moreover have "bw_inv m' (if bw_admitted m sample
      then (unat (round_count u), unat (delivery_rate_bytes_per_sec sample)) # log else log)"
      using w(1) unfolding adm by (simp only: 2(2) full_bw_frame min_rtt_frame)
    ultimately show ?thesis using 2(1) by (simp split: if_splits)
  qed simp
  then show "bw_inv m' (if rc = 0 \<and> bw_admitted m sample
      then (unat (round_count m'), unat (delivery_rate_bytes_per_sec sample)) # log else log)"
    and "unat (round_count m') \<le> unat (round_count m) + 1"
    using assms(1) u(2) by auto
qed

lemma bbr_run_inv:
  assumes "bw_inv m log" and "unat (round_count m) + length acks < 4294967295"
    and "bbr_run m log acks = (m', log')"
  shows "bw_inv m' log'"
  using assms
proof (induction acks arbitrary: m log)
  case (Cons a acks)
  obtain sample now where a: "a = (sample, now)" by fastforce
  obtain rc m1 where step: "tcp_shift_bbr_model_on_ack m sample now = (rc, m1)" by fastforce
  have r: "unat (round_count m) + 1 < 2 ^ 32" using Cons.prems(2) by simp
  note s = on_ack_bw_inv [OF Cons.prems(1) r step]
  have "unat (round_count m1) + length acks < 4294967295" using s(2) Cons.prems(2) by simp
  from Cons.IH [OF s(1) this] show ?case using Cons.prems(3) by (simp add: a step)
qed simp

lemma model_init_bw_inv: "bw_inv tcp_shift_bbr_model_init []"
  by (simp add: bw_inv_def tcp_shift_bbr_model_init_def numeral_nat tcp_shift_bbr_max_u64_def)

section \<open>Properties\<close>

text \<open>C7. The ring of ten slots is a sliding-window maximum: after any run of ACKs (fewer than
  4294967295, so that the 32-bit round counter does not wrap), the bandwidth estimate is the
  maximum rate among the admitted samples that lie within ten rounds of the latest admitted
  one, and zero when none has been admitted.\<close>

theorem bbr_max_bw_is_ten_round_maximum:
  assumes "bbr_run tcp_shift_bbr_model_init [] acks = (m, log)" and "length acks < 4294967295"
  shows "unat (max_bw_bytes_per_sec m) =
    Max (insert 0 {v. \<exists>r. (r, v) \<in> set log \<and> (\<forall>(r', v') \<in> set log. r' < r + 10)})"
proof -
  have inv: "bw_inv m log"
    using bbr_run_inv [OF model_init_bw_inv _ assms(1)] assms(2) by (simp add: tcp_shift_bbr_model_init_def)
  let ?W = "{v. \<exists>r. (r, v) \<in> set log \<and> (\<forall>(r', v') \<in> set log. r' < r + 10)}"
  have max: "is_max ?W (unat (max_bw_bytes_per_sec m))"
  proof (cases "has_bw_filter_round m")
    case True
    let ?R = "unat (bw_filter_round m)"
    have ring: "ring_ok log ?R (max_bw_filter m)" and last: "\<exists>v. (?R, v) \<in> set log"
      using inv True by (auto simp: bw_inv_def)
    have "(\<forall>(r', v') \<in> set log. r' < r + 10) \<longleftrightarrow> ?R < r + 10" for r
      using ring last by (fastforce simp: ring_ok_def)
    then have "?W = window_rates log ?R" by (simp add: window_rates_def)
    then show ?thesis using ring_maximum [OF ring] inv by (simp add: bw_inv_def)
  next
    case False
    then show ?thesis using inv
      by (simp add: bw_inv_def is_max_def numeral_nat tcp_shift_bbr_max_u64_def)
  qed
  have "finite ?W" by (rule finite_subset [of _ "snd ` set log"]) force+
  then show ?thesis using max by (intro Max_eqI [symmetric]) (auto simp: is_max_def)
qed

text \<open>Two samples in adjacent rounds: the larger, earlier one is the estimate.\<close>

definition demo_sample :: "u64 \<Rightarrow> u64 \<Rightarrow> u64 \<Rightarrow> tcp_shift_cc_rate_sample" where
  "demo_sample rate_bps prior delivered = \<lparr>delivery_rate_bytes_per_sec = rate_bps, interval_ns = 1,
    send_interval_ns = 1, ack_interval_ns = 1, rtt_ns = 20000000, prior_delivered_bytes = prior,
    delivered_total_bytes = delivered, delivered_bytes = 1000, prior_inflight_bytes = 1000, flags = 9\<rparr>"

theorem bbr_max_bw_is_ten_round_maximum_witness:
  "unat (max_bw_bytes_per_sec (fst (bbr_run tcp_shift_bbr_model_init []
     [(demo_sample 5000 0 1000, 1), (demo_sample 3000 1000 2000, 2)]))) = 5000"
proof -
  let ?acks = "[(demo_sample 5000 0 1000, 1), (demo_sample 3000 1000 2000, 2)]"
  have log: "snd (bbr_run tcp_shift_bbr_model_init [] ?acks) = [(2, 3000), (1, 5000)]"
    by code_simp
  have "unat (max_bw_bytes_per_sec (fst (bbr_run tcp_shift_bbr_model_init [] ?acks))) =
    Max (insert 0 {v. \<exists>r. (r, v) \<in> set [(2, 3000), (1, 5000 :: nat)] \<and>
      (\<forall>(r', v') \<in> set [(2, 3000), (1 :: nat, 5000 :: nat)]. r' < r + 10)})"
    using bbr_max_bw_is_ten_round_maximum [OF surjective_pairing, of ?acks] unfolding log
    by (simp del: bbr_run.simps set_simps)
  also have "{v. \<exists>r. (r, v) \<in> set [(2, 3000), (1, 5000 :: nat)] \<and>
      (\<forall>(r', v') \<in> set [(2, 3000), (1 :: nat, 5000 :: nat)]. r' < r + 10)} = {3000, 5000}" by auto
  finally show ?thesis by simp
qed

end
