(* ===== verification/Bbr_Filters.thy ===== *)
theory Bbr_Filters
  imports Bbr_Model
begin

text \<open>
  The two other estimators of \<^verbatim>\<open>src/cc/bbr.c\<close>: the minimum-RTT filters and the full-pipe
  detector. The RTT filters are shown to hold the minimum of the RTT samples since a stamp
  that is never older than the filter window, by an invariant over runs of the estimator; the
  full-pipe detector is shown to apply the exact rational test "grew by less than a quarter"
  and to fire after three such rounds.
\<close>

section \<open>The minimum-RTT filters as a window over samples\<close>

definition rtt_admitted :: "tcp_shift_cc_rate_sample \<Rightarrow> bool" where
  "rtt_admitted sample \<longleftrightarrow> has_flag sample TCP_SHIFT_CC_RATE_SAMPLE_RTT_VALID \<and> rtt_ns sample \<noteq> 0"

text \<open>Runs of the estimator that log each accepted RTT sample with its time.\<close>

fun rtt_run :: "tcp_shift_bbr_model \<Rightarrow> (u64 \<times> u64) list \<Rightarrow> (tcp_shift_cc_rate_sample \<times> u64) list \<Rightarrow>
    tcp_shift_bbr_model \<times> (u64 \<times> u64) list" where
  "rtt_run m log [] = (m, log)"
| "rtt_run m log ((sample, now) # acks) =
    (case tcp_shift_bbr_model_on_ack m sample now of (rc, m') \<Rightarrow>
       rtt_run m' (if rc = 0 \<and> rtt_admitted sample then (now, rtt_ns sample) # log else log) acks)"

text \<open>The filter with value \<open>v\<close> and stamp \<open>s\<close> holds the minimum of the samples since \<open>s\<close>.\<close>

definition min_since :: "(u64 \<times> u64) list \<Rightarrow> u64 \<Rightarrow> u64 \<Rightarrow> bool" where
  "min_since log s v \<longleftrightarrow> (s, v) \<in> set log \<and> (\<forall>(t, r) \<in> set log. s \<le> t \<longrightarrow> v \<le> r)"

text \<open>A filter over a nonempty log, whose newest sample is its head: the held minimum is recent.\<close>

definition filter_ok :: "(u64 \<times> u64) list \<Rightarrow> u64 \<Rightarrow> u64 \<times> u64 \<Rightarrow> bool" where
  "filter_ok log interval f \<longleftrightarrow>
    (case f of (v, s) \<Rightarrow> min_since log s v \<and> s \<le> fst (hd log) \<and> fst (hd log) - s \<le> interval)"

definition rtt_inv :: "tcp_shift_bbr_model \<Rightarrow> (u64 \<times> u64) list \<Rightarrow> bool" where
  "rtt_inv m log \<longleftrightarrow>
    (if log = [] then \<not> has_min_rtt m \<and> \<not> has_probe_rtt_min m
     else has_update_time m \<and> has_min_rtt m \<and> has_probe_rtt_min m \<and>
       (\<forall>(t, r) \<in> set log. t \<le> fst (hd log)) \<and> fst (hd log) \<le> last_update_ns m \<and>
       filter_ok log TCP_SHIFT_BBR_MIN_RTT_FILTER_NS (min_rtt_ns m, min_rtt_stamp_ns m) \<and>
       filter_ok log TCP_SHIFT_BBR_PROBE_RTT_INTERVAL_NS (probe_rtt_min_delay_ns m, probe_rtt_min_stamp_ns m))"

text \<open>The stages before the RTT update keep the RTT fields and the clock.\<close>

definition rtt_view :: "tcp_shift_bbr_model \<Rightarrow> (u64 \<times> u64) \<times> (u64 \<times> u64) \<times> u64 \<times> bool \<times> bool \<times> bool" where
  "rtt_view m = ((min_rtt_ns m, min_rtt_stamp_ns m), (probe_rtt_min_delay_ns m, probe_rtt_min_stamp_ns m),
     last_update_ns m, has_update_time m, has_min_rtt m, has_probe_rtt_min m)"

lemma rtt_view_cong: "rtt_view m = rtt_view m' \<Longrightarrow> rtt_inv m log = rtt_inv m' log"
  by (simp add: rtt_view_def rtt_inv_def)

lemma rtt_view_recompute [simp]: "rtt_view (tcp_shift_bbr_recompute_max_bw m) = rtt_view m"
  by (simp add: rtt_view_def tcp_shift_bbr_recompute_max_bw_def)

lemma rtt_view_upd [simp]:
  "rtt_view (m\<lparr>max_bw_filter := a\<rparr>) = rtt_view m" "rtt_view (m\<lparr>bw_filter_round := r\<rparr>) = rtt_view m"
  "rtt_view (m\<lparr>has_bw_filter_round := b\<rparr>) = rtt_view m" "rtt_view (m\<lparr>accepted_bw_samples := c\<rparr>) = rtt_view m"
  "rtt_view (m\<lparr>valid_rate_samples := c\<rparr>) = rtt_view m" "rtt_view (m\<lparr>full_bw_now := b\<rparr>) = rtt_view m"
  "rtt_view (m\<lparr>ignored_app_limited_bw_samples := c\<rparr>) = rtt_view m" "rtt_view (m\<lparr>full_bw_count := r\<rparr>) = rtt_view m"
  "rtt_view (m\<lparr>full_bw_bytes_per_sec := c\<rparr>) = rtt_view m" "rtt_view (m\<lparr>full_bw_reached := b\<rparr>) = rtt_view m"
  "rtt_view (m\<lparr>round_start := b\<rparr>) = rtt_view m" "rtt_view (m\<lparr>round_count := r\<rparr>) = rtt_view m"
  "rtt_view (m\<lparr>next_round_delivered := c\<rparr>) = rtt_view m"
  by (simp_all add: rtt_view_def)

lemma rtt_view_age [simp]: "rtt_view (tcp_shift_bbr_age_bw_filter m r) = rtt_view m"
  by (simp add: tcp_shift_bbr_age_bw_filter_def Let_def)

lemma rtt_view_stages [simp]:
  "rtt_view (tcp_shift_bbr_update_round m sample) = rtt_view m"
  "rtt_view (tcp_shift_bbr_update_max_bw m sample) = rtt_view m"
  "rtt_view (tcp_shift_bbr_check_startup_full_bw m sample) = rtt_view m"
  by (simp_all add: tcp_shift_bbr_update_round_def tcp_shift_bbr_update_max_bw_def
      tcp_shift_bbr_check_startup_full_bw_def Let_def)

text \<open>The elapsed-time test, on values.\<close>

lemma not_elapsed:
  assumes "stamp \<le> now" and "\<not> tcp_shift_bbr_elapsed_gt now stamp interval"
  shows "now - stamp \<le> interval"
  using assms by (cases "stamp = now") (auto simp: tcp_shift_bbr_elapsed_gt_def not_less)

text \<open>A filter step keeps the held minimum, or restarts at the sample.\<close>

lemma filter_keep:
  assumes "filter_ok log interval (v, s)" and "log \<noteq> []" and "fst (hd log) \<le> now"
    and "v \<le> r" and "\<not> tcp_shift_bbr_elapsed_gt now s interval"
  shows "filter_ok ((now, r) # log) interval (v, s)"
proof -
  have "s \<le> now" using assms(1,3) by (auto simp: filter_ok_def)
  then show ?thesis using assms(1,4) not_elapsed [OF _ assms(5)]
    by (auto simp: filter_ok_def min_since_def)
qed

lemma filter_restart:
  assumes "filter_ok log interval (v, s)" and "log \<noteq> []"
    and "\<forall>(t, r) \<in> set log. t \<le> fst (hd log)" and "fst (hd log) \<le> now"
    and "r < v \<or> tcp_shift_bbr_elapsed_gt now s interval"
  shows "min_since ((now, r) # log) now r"
proof -
  have "r \<le> r'" if e: "(t, r') \<in> set log" "now \<le> t" for t r'
  proof -
    have t: "fst (hd log) = now" using assms(3,4) e by (force intro: order_antisym)
    then have "\<not> tcp_shift_bbr_elapsed_gt now s interval"
      using assms(1) by (auto simp: filter_ok_def tcp_shift_bbr_elapsed_gt_def not_less)
    then have "r < v" using assms(5) by simp
    also have "v \<le> r'" using assms(1) e t by (fastforce simp: filter_ok_def min_since_def)
    finally show ?thesis by simp
  qed
  then show ?thesis by (auto simp: min_since_def)
qed

lemma filter_new: "min_since ((now, r) # log) now r \<Longrightarrow> filter_ok ((now, r) # log) interval (r, now)"
  by (simp add: filter_ok_def)

lemma update_min_rtt_view:
  assumes "rtt_admitted sample"
    and "pe = (\<not> has_probe_rtt_min m \<or> rtt_ns sample < probe_rtt_min_delay_ns m \<or>
      tcp_shift_bbr_elapsed_gt now (probe_rtt_min_stamp_ns m) TCP_SHIFT_BBR_PROBE_RTT_INTERVAL_NS)"
    and "p = (if pe then (rtt_ns sample, now) else (probe_rtt_min_delay_ns m, probe_rtt_min_stamp_ns m))"
    and "me = (\<not> has_min_rtt m \<or> fst p < min_rtt_ns m \<or>
      tcp_shift_bbr_elapsed_gt now (min_rtt_stamp_ns m) TCP_SHIFT_BBR_MIN_RTT_FILTER_NS)"
  shows "rtt_view (tcp_shift_bbr_update_min_rtt m sample now) =
    (if me then p else (min_rtt_ns m, min_rtt_stamp_ns m), p, last_update_ns m, has_update_time m, True, True)"
proof -
  have c: "\<not> (\<not> has_flag sample TCP_SHIFT_CC_RATE_SAMPLE_RTT_VALID \<or> rtt_ns sample = 0)"
    using assms(1) by (simp add: rtt_admitted_def)
  show ?thesis
    unfolding tcp_shift_bbr_update_min_rtt_def if_not_P [OF c] rtt_view_def Let_def assms(2-4)
    by (cases "has_probe_rtt_min m"; cases "has_min_rtt m") simp_all
qed

lemma update_min_rtt_skip:
  "\<not> rtt_admitted sample \<Longrightarrow> rtt_view (tcp_shift_bbr_update_min_rtt m sample now) = rtt_view m"
  by (simp add: tcp_shift_bbr_update_min_rtt_def rtt_admitted_def rtt_view_def)

lemma update_min_rtt_inv:
  assumes m: "rtt_inv m log" and a: "rtt_admitted sample"
    and t: "has_update_time m" "last_update_ns m = now"
  shows "rtt_inv (tcp_shift_bbr_update_min_rtt m sample now) ((now, rtt_ns sample) # log)"
proof -
  let ?r = "rtt_ns sample" and ?log = "(now, rtt_ns sample) # log"
  let ?P = TCP_SHIFT_BBR_PROBE_RTT_INTERVAL_NS and ?M = TCP_SHIFT_BBR_MIN_RTT_FILTER_NS
  define pe where "pe = (\<not> has_probe_rtt_min m \<or> ?r < probe_rtt_min_delay_ns m \<or>
      tcp_shift_bbr_elapsed_gt now (probe_rtt_min_stamp_ns m) ?P)"
  define p where "p = (if pe then (?r, now) else (probe_rtt_min_delay_ns m, probe_rtt_min_stamp_ns m))"
  define me where "me = (\<not> has_min_rtt m \<or> fst p < min_rtt_ns m \<or>
      tcp_shift_bbr_elapsed_gt now (min_rtt_stamp_ns m) ?M)"
  note view = update_min_rtt_view [OF a pe_def p_def me_def]
  have p: "filter_ok ?log ?P p" and order: "\<forall>(t, r) \<in> set log. t \<le> now" and le: "fst p \<le> ?r"
  proof -
    show "fst p \<le> ?r" by (simp add: p_def pe_def not_less)
    show "\<forall>(t, r) \<in> set log. t \<le> now"
      using m t(2) by (cases "log = []") (fastforce simp: rtt_inv_def)+
    show "filter_ok ?log ?P p"
    proof (cases "log = []")
      case True
      then show ?thesis using m by (simp add: p_def pe_def rtt_inv_def filter_ok_def min_since_def)
    next
      case False
      then have f: "filter_ok log ?P (probe_rtt_min_delay_ns m, probe_rtt_min_stamp_ns m)"
        "\<forall>(t, r) \<in> set log. t \<le> fst (hd log)" "fst (hd log) \<le> now" "has_probe_rtt_min m"
        using m t(2) by (auto simp: rtt_inv_def)
      show ?thesis
      proof (cases pe)
        case True
        then show ?thesis using filter_restart [OF f(1) False f(2,3)] f(4)
          by (simp add: p_def pe_def filter_new)
      next
        case pe: False
        then have "probe_rtt_min_delay_ns m \<le> ?r"
          "\<not> tcp_shift_bbr_elapsed_gt now (probe_rtt_min_stamp_ns m) ?P" by (auto simp: pe_def)
        then show ?thesis using filter_keep [OF f(1) False f(3)] pe by (simp add: p_def)
      qed
    qed
  qed
  have "filter_ok ?log ?M (if me then p else (min_rtt_ns m, min_rtt_stamp_ns m))"
  proof (cases me)
    case True
    then show ?thesis using p by (auto simp: filter_ok_def bbr_const_defs word_le_nat_alt)
  next
    case False
    then have f: "min_rtt_ns m \<le> ?r" "\<not> tcp_shift_bbr_elapsed_gt now (min_rtt_stamp_ns m) ?M" "log \<noteq> []"
      "filter_ok log ?M (min_rtt_ns m, min_rtt_stamp_ns m)" "fst (hd log) \<le> now"
      using m le t(2) by (auto simp: me_def rtt_inv_def split: if_splits)
    then show ?thesis using False filter_keep [OF f(4,3,5,1,2)] by simp
  qed
  moreover obtain q where q: "q = tcp_shift_bbr_update_min_rtt m sample now" by simp
  ultimately show ?thesis using view p order t unfolding q [symmetric] rtt_view_def rtt_inv_def by simp
qed

lemma on_ack_rtt_inv:
  assumes m: "rtt_inv m log" and step: "tcp_shift_bbr_model_on_ack m sample now = (rc, m')"
  shows "rtt_inv m' (if rc = 0 \<and> rtt_admitted sample then (now, rtt_ns sample) # log else log)"
proof (cases "has_update_time m \<and> now < last_update_ns m")
  case True
  then show ?thesis using m step by (auto simp: tcp_shift_bbr_model_on_ack_def)
next
  case False
  define u where "u = m\<lparr>last_update_ns := now, has_update_time := True\<rparr>"
  define w where "w = tcp_shift_bbr_check_startup_full_bw
    (tcp_shift_bbr_update_max_bw (tcp_shift_bbr_update_round u sample) sample) sample"
  have u: "rtt_inv u log"
  proof (cases "log = []")
    case ne: False
    then have "fst (hd log) \<le> last_update_ns m" "has_update_time m" using m by (simp_all add: rtt_inv_def)
    then have "fst (hd log) \<le> now" using False by (auto intro: order_trans)
    then show ?thesis using m ne by (simp add: rtt_inv_def u_def)
  qed (use m in \<open>simp add: rtt_inv_def u_def\<close>)
  have v: "rtt_view w = rtt_view u" by (simp add: w_def)
  have w: "rtt_inv w log" "has_update_time w" "last_update_ns w = now"
    using u v rtt_view_cong [OF v] by (simp_all add: rtt_view_def u_def)
  have "rc = 0" "m' = tcp_shift_bbr_update_min_rtt w sample now"
    using step False by (auto simp: tcp_shift_bbr_model_on_ack_def Let_def w_def u_def)
  then show ?thesis
    using update_min_rtt_inv [OF w(1) _ w(2,3)] rtt_view_cong [OF update_min_rtt_skip] w(1) by simp
qed

lemma rtt_run_inv: "rtt_inv m log \<Longrightarrow> rtt_run m log acks = (m', log') \<Longrightarrow> rtt_inv m' log'"
proof (induction acks arbitrary: m log)
  case (Cons a acks)
  obtain sample now where a: "a = (sample, now)" by fastforce
  obtain rc m1 where step: "tcp_shift_bbr_model_on_ack m sample now = (rc, m1)" by fastforce
  from Cons.IH [OF on_ack_rtt_inv [OF Cons.prems(1) step]] show ?case
    using Cons.prems(2) by (simp add: a step)
qed simp

section \<open>The full-pipe detector\<close>

text \<open>The saturating threshold is the exact rational test: below five quarters of the baseline.\<close>

lemma full_bw_threshold_exact:
  assumes "5 * unat b \<le> 4 * unat UINT64_MAX"
  shows "x \<ge> tcp_shift_bbr_full_bw_threshold b \<longleftrightarrow> 5 * unat b \<le> 4 * unat x"
proof -
  define inc where "inc = (if b mod 4 \<noteq> 0 then b div 4 + 1 else b div 4)"
  have m: "b mod 4 \<noteq> 0 \<longleftrightarrow> unat b mod 4 \<noteq> 0" by (simp add: word_zero_nat unat_mod_distrib)
  have "unat (b div 4 + 1) = unat b div 4 + 1"
    using unat_lt_u64 [of b] by (subst unat_inc_exact) (simp_all add: unat_div_distrib)
  then have inc: "unat inc = ceil_div (unat b) 4"
    unfolding inc_def using m by (simp add: ceil_div_def unat_div_distrib)
  have c: "4 * ceil_div (unat b) 4 < unat b + 4" "unat b \<le> 4 * ceil_div (unat b) 4"
    by (simp_all add: ceil_div_def) presburger+
  have fit: "unat b + unat inc \<le> 18446744073709551615" using assms inc c by simp
  have "\<not> UINT64_MAX - b < inc" using fit by (simp add: word_less_nat_alt unat_sub)
  then have "tcp_shift_bbr_full_bw_threshold b = b + inc"
    by (simp add: tcp_shift_bbr_full_bw_threshold_def Let_def inc_def)
  moreover have "unat (b + inc) = unat b + unat inc" using fit by (intro unat_add_exact) simp
  ultimately show ?thesis using inc c by (auto simp: word_le_nat_alt)
qed

text \<open>The rounds the detector counts, and the rounds without a quarter of growth over the baseline.\<close>

definition full_pipe_counted :: "tcp_shift_bbr_model \<Rightarrow> tcp_shift_cc_rate_sample \<Rightarrow> bool" where
  "full_pipe_counted m sample \<longleftrightarrow> round_start m \<and> has_flag sample TCP_SHIFT_CC_RATE_SAMPLE_VALID \<and>
    delivery_rate_bytes_per_sec sample \<noteq> 0 \<and> \<not> has_flag sample TCP_SHIFT_CC_RATE_SAMPLE_APP_LIMITED"

definition flat_round :: "u64 \<Rightarrow> u64 \<Rightarrow> bool" where
  "flat_round baseline bw \<longleftrightarrow> baseline \<noteq> 0 \<and> 4 * unat bw < 5 * unat baseline"

lemma check_full_bw_exact:
  assumes "mode m = MODE_STARTUP" and "\<not> full_bw_reached m"
    and "5 * unat (full_bw_bytes_per_sec m) \<le> 4 * unat UINT64_MAX"
    and m': "m' = tcp_shift_bbr_check_startup_full_bw m sample"
  shows "full_bw_reached m' \<longleftrightarrow> full_pipe_counted m sample \<and>
      flat_round (full_bw_bytes_per_sec m) (max_bw_bytes_per_sec m) \<and> full_bw_count m + 1 \<ge> 3"
    and "full_bw_count m' = (if \<not> full_pipe_counted m sample then full_bw_count m
      else if flat_round (full_bw_bytes_per_sec m) (max_bw_bytes_per_sec m) then full_bw_count m + 1 else 0)"
    and "max_bw_bytes_per_sec m' = max_bw_bytes_per_sec m" and "round_start m' = round_start m"
proof -
  have flat: "flat_round (full_bw_bytes_per_sec m) (max_bw_bytes_per_sec m) \<longleftrightarrow>
      \<not> (full_bw_bytes_per_sec m = 0 \<or>
         max_bw_bytes_per_sec m \<ge> tcp_shift_bbr_full_bw_threshold (full_bw_bytes_per_sec m))"
    unfolding full_bw_threshold_exact [OF assms(3)] flat_round_def by auto
  show "full_bw_reached m' \<longleftrightarrow> full_pipe_counted m sample \<and>
      flat_round (full_bw_bytes_per_sec m) (max_bw_bytes_per_sec m) \<and> full_bw_count m + 1 \<ge> 3"
    "full_bw_count m' = (if \<not> full_pipe_counted m sample then full_bw_count m
      else if flat_round (full_bw_bytes_per_sec m) (max_bw_bytes_per_sec m) then full_bw_count m + 1 else 0)"
    "max_bw_bytes_per_sec m' = max_bw_bytes_per_sec m" "round_start m' = round_start m"
    using assms(1,2) unfolding m' flat tcp_shift_bbr_check_startup_full_bw_def full_pipe_counted_def
    by (simp_all add: Let_def bbr_const_defs)
qed

section \<open>Properties\<close>

text \<open>The minimum RTT is a recent minimum: after any run of ACKs with at least one RTT sample, the
  estimate is an RTT that was sampled at the filter's stamp, no sample taken since the stamp is
  below it, and the stamp is at most ten seconds older than the newest sample.\<close>

theorem bbr_min_rtt_is_recent_minimum:
  assumes "rtt_run tcp_shift_bbr_model_init [] acks = (m, log)" and "log \<noteq> []"
  shows "(min_rtt_stamp_ns m, min_rtt_ns m) \<in> set log \<and>
    (\<forall>(t, r) \<in> set log. min_rtt_stamp_ns m \<le> t \<longrightarrow> min_rtt_ns m \<le> r) \<and>
    min_rtt_stamp_ns m \<le> fst (hd log) \<and> unat (fst (hd log)) \<le> unat (min_rtt_stamp_ns m) + 10000000000"
proof -
  have "rtt_inv tcp_shift_bbr_model_init []" by (simp add: rtt_inv_def tcp_shift_bbr_model_init_def)
  from rtt_run_inv [OF this assms(1)]
  have f: "filter_ok log TCP_SHIFT_BBR_MIN_RTT_FILTER_NS (min_rtt_ns m, min_rtt_stamp_ns m)"
    using assms(2) by (simp add: rtt_inv_def)
  then have "min_rtt_stamp_ns m \<le> fst (hd log)" "fst (hd log) - min_rtt_stamp_ns m \<le> 10000000000"
    by (simp_all add: filter_ok_def bbr_const_defs)
  then have "unat (fst (hd log)) \<le> unat (min_rtt_stamp_ns m) + 10000000000"
    by (simp add: word_le_nat_alt unat_sub)
  then show ?thesis using f by (auto simp: filter_ok_def min_since_def)
qed

text \<open>A higher RTT eleven seconds later replaces the expired minimum.\<close>

theorem bbr_min_rtt_is_recent_minimum_witness:
  "min_rtt_ns (fst (rtt_run tcp_shift_bbr_model_init []
     [((demo_sample 5000 0 1000)\<lparr>rtt_ns := 10\<rparr>, 1), ((demo_sample 3000 1000 2000)\<lparr>rtt_ns := 30\<rparr>, 11000000000)])) = 30"
proof -
  let ?acks = "[((demo_sample 5000 0 1000)\<lparr>rtt_ns := 10\<rparr>, 1), ((demo_sample 3000 1000 2000)\<lparr>rtt_ns := 30\<rparr>, 11000000000)]"
  have log: "snd (rtt_run tcp_shift_bbr_model_init [] ?acks) = [(11000000000, 30), (1, 10)]" by code_simp
  show ?thesis
    using bbr_min_rtt_is_recent_minimum [OF surjective_pairing, of ?acks] unfolding log
    by (simp del: rtt_run.simps) (auto simp del: rtt_run.simps)
qed

text \<open>Full-pipe detection: on an ACK in STARTUP the detector looks at the round only when it starts
  a new packet-timed round with a valid, nonzero and not application-limited rate sample. A round
  whose bandwidth estimate is below five quarters of the baseline (exactly, for a baseline up to
  four fifths of the 64-bit range) is counted, any other round restarts the count, and the pipe is
  declared full exactly when the third such round in a row is counted.\<close>

theorem bbr_full_pipe_after_three_flat_rounds:
  assumes "tcp_shift_bbr_model_on_ack m sample now = (0, m')"
    and "mode m = MODE_STARTUP" and "\<not> full_bw_reached m"
    and "5 * unat (full_bw_bytes_per_sec m) \<le> 4 * unat UINT64_MAX"
  shows "(full_bw_reached m' \<longleftrightarrow> full_pipe_counted m' sample \<and>
      flat_round (full_bw_bytes_per_sec m) (max_bw_bytes_per_sec m') \<and> full_bw_count m + 1 \<ge> 3) \<and>
    full_bw_count m' = (if \<not> full_pipe_counted m' sample then full_bw_count m
      else if flat_round (full_bw_bytes_per_sec m) (max_bw_bytes_per_sec m') then full_bw_count m + 1 else 0)"
proof -
  define u where "u = tcp_shift_bbr_update_round (m\<lparr>last_update_ns := now, has_update_time := True\<rparr>) sample"
  define w where "w = tcp_shift_bbr_update_max_bw u sample"
  define f where "f = tcp_shift_bbr_check_startup_full_bw w sample"
  have u: "mode u = mode m" "full_bw_reached u = full_bw_reached m" "full_bw_count u = full_bw_count m"
    "full_bw_bytes_per_sec u = full_bw_bytes_per_sec m"
    by (simp_all add: u_def tcp_shift_bbr_update_round_def Let_def)
  have w: "mode w = mode u" "full_bw_reached w = full_bw_reached u" "full_bw_count w = full_bw_count u"
    "full_bw_bytes_per_sec w = full_bw_bytes_per_sec u"
    by (simp_all add: w_def tcp_shift_bbr_update_max_bw_def tcp_shift_bbr_age_bw_filter_def
        tcp_shift_bbr_recompute_max_bw_def Let_def)
  have m': "m' = tcp_shift_bbr_update_min_rtt f sample now"
    using assms(1) unfolding tcp_shift_bbr_model_on_ack_def Let_def f_def w_def u_def
    by (cases "has_update_time m \<and> now < last_update_ns m") simp_all
  have e: "full_bw_reached m' = full_bw_reached f" "full_bw_count m' = full_bw_count f"
    "max_bw_bytes_per_sec m' = max_bw_bytes_per_sec f" "round_start m' = round_start f"
    by (simp_all add: m' tcp_shift_bbr_update_min_rtt_def Let_def)
  have c: "mode w = MODE_STARTUP" "\<not> full_bw_reached w"
    "5 * unat (full_bw_bytes_per_sec w) \<le> 4 * unat UINT64_MAX" using assms(2-4) u w by simp_all
  note f = check_full_bw_exact [OF c f_def]
  have "full_pipe_counted w sample = full_pipe_counted m' sample"
    using f(4) e(4) by (simp add: full_pipe_counted_def)
  then show ?thesis using f unfolding e w u by simp
qed

text \<open>The third round at the same rate, and a fourth sample that had grown enough.\<close>

definition demo_flat_model :: tcp_shift_bbr_model where
  "demo_flat_model = fst (bbr_run tcp_shift_bbr_model_init []
    [(demo_sample 5000 0 1000, 1), (demo_sample 5000 1000 2000, 2), (demo_sample 5000 2000 3000, 3)])"

theorem bbr_full_pipe_after_three_flat_rounds_witness:
  "full_bw_reached (snd (tcp_shift_bbr_model_on_ack demo_flat_model (demo_sample 5000 3000 4000) 4)) \<and>
   \<not> full_bw_reached (snd (tcp_shift_bbr_model_on_ack demo_flat_model (demo_sample 6250 3000 4000) 4))"
proof -
  have b: "full_bw_bytes_per_sec demo_flat_model = 5000" by code_simp
  have m: "mode demo_flat_model = MODE_STARTUP" "\<not> full_bw_reached demo_flat_model"
    "5 * unat (full_bw_bytes_per_sec demo_flat_model) \<le> 4 * unat UINT64_MAX"
    by code_simp (code_simp, simp add: b)
  have s: "tcp_shift_bbr_model_on_ack demo_flat_model (demo_sample 5000 3000 4000) 4 =
      (0, snd (tcp_shift_bbr_model_on_ack demo_flat_model (demo_sample 5000 3000 4000) 4))"
    "tcp_shift_bbr_model_on_ack demo_flat_model (demo_sample 6250 3000 4000) 4 =
      (0, snd (tcp_shift_bbr_model_on_ack demo_flat_model (demo_sample 6250 3000 4000) 4))"
    by code_simp+
  have e: "full_pipe_counted (snd (tcp_shift_bbr_model_on_ack demo_flat_model (demo_sample 5000 3000 4000) 4))
      (demo_sample 5000 3000 4000)" "full_bw_count demo_flat_model + 1 \<ge> 3"
    by code_simp+
  have "max_bw_bytes_per_sec (snd (tcp_shift_bbr_model_on_ack demo_flat_model (demo_sample 5000 3000 4000) 4)) = 5000"
    "max_bw_bytes_per_sec (snd (tcp_shift_bbr_model_on_ack demo_flat_model (demo_sample 6250 3000 4000) 4)) = 6250"
    by code_simp+
  then have "flat_round (full_bw_bytes_per_sec demo_flat_model) (max_bw_bytes_per_sec
      (snd (tcp_shift_bbr_model_on_ack demo_flat_model (demo_sample 5000 3000 4000) 4)))"
    "\<not> flat_round (full_bw_bytes_per_sec demo_flat_model) (max_bw_bytes_per_sec
      (snd (tcp_shift_bbr_model_on_ack demo_flat_model (demo_sample 6250 3000 4000) 4)))"
    by (simp_all add: flat_round_def b)
  then show ?thesis using bbr_full_pipe_after_three_flat_rounds [OF s(1) m]
      bbr_full_pipe_after_three_flat_rounds [OF s(2) m] e by blast
qed

end
