(* ===== verification/Bbr_Probe.thy ===== *)
theory Bbr_Probe
  imports Bbr_Model
begin

text \<open>
  The steady-state modes of the compact BBR controller, \<^verbatim>\<open>src/cc/bbr_probe.h\<close> and
  \<^verbatim>\<open>src/cc/bbr_probe.c\<close>: the eight-phase ProbeBW gain cycle with its policy, and ProbeRTT with
  its entry, its dwell and its exit. A function that writes both structs returns both. The
  theorems give the exact condition under which a phase ends, and show that ProbeRTT is left only
  after 200 ms and a packet-timed round at the four-packet window.
\<close>

unbundle bit_operations_syntax

definition TCP_SHIFT_BBR_PROBE_BW_CYCLE_LEN :: u32 where "TCP_SHIFT_BBR_PROBE_BW_CYCLE_LEN = 8"
definition TCP_SHIFT_BBR_PROBE_BW_SEED_SPAN :: u32 where "TCP_SHIFT_BBR_PROBE_BW_SEED_SPAN = 7"
definition TCP_SHIFT_BBR_PROBE_BW_UP_GAIN_NUM :: u32 where "TCP_SHIFT_BBR_PROBE_BW_UP_GAIN_NUM = 320"
definition TCP_SHIFT_BBR_PROBE_BW_DOWN_GAIN_NUM :: u32 where "TCP_SHIFT_BBR_PROBE_BW_DOWN_GAIN_NUM = 192"
definition TCP_SHIFT_BBR_PROBE_BW_CRUISE_GAIN_NUM :: u32 where "TCP_SHIFT_BBR_PROBE_BW_CRUISE_GAIN_NUM = 256"
definition TCP_SHIFT_BBR_CWND_GAIN_NUM :: u32 where "TCP_SHIFT_BBR_CWND_GAIN_NUM = 512"
definition TCP_SHIFT_BBR_PROBE_RTT_DURATION_NS :: u64 where "TCP_SHIFT_BBR_PROBE_RTT_DURATION_NS = 200000000"

lemmas bbr_probe_const_defs = TCP_SHIFT_BBR_PROBE_BW_CYCLE_LEN_def TCP_SHIFT_BBR_PROBE_BW_SEED_SPAN_def
  TCP_SHIFT_BBR_PROBE_BW_UP_GAIN_NUM_def TCP_SHIFT_BBR_PROBE_BW_DOWN_GAIN_NUM_def
  TCP_SHIFT_BBR_PROBE_BW_CRUISE_GAIN_NUM_def TCP_SHIFT_BBR_CWND_GAIN_NUM_def
  TCP_SHIFT_BBR_PROBE_RTT_DURATION_NS_def

record tcp_shift_bbr_probe_state =
  cycle_start_ns :: u64
  probe_rtt_done_stamp_ns :: u64
  probe_rtt_prior_cwnd_bytes :: u32
  cycle_index :: u8
  cycle_seed :: u8
  cycle_started :: bool
  probe_rtt_round_done :: bool

section \<open>The ProbeBW cycle\<close>

definition tcp_shift_bbr_probe_min_cwnd_bytes :: "tcp_shift_cc_transport \<Rightarrow> u32" where
  "tcp_shift_bbr_probe_min_cwnd_bytes transport =
    (let minimum = u64_of (mss_bytes transport) * u64_of TCP_SHIFT_BBR_MIN_CWND_PACKETS;
         minimum = (if minimum > u64_of (cwnd_limit_bytes transport)
                    then u64_of (cwnd_limit_bytes transport) else minimum)
     in u32_of minimum)"

definition tcp_shift_bbr_probe_bw_reset_cycle ::
    "tcp_shift_bbr_probe_state \<Rightarrow> u64 \<Rightarrow> tcp_shift_bbr_probe_state" where
  "tcp_shift_bbr_probe_bw_reset_cycle state now_ns =
    (let offset = ucast (cycle_seed state) mod TCP_SHIFT_BBR_PROBE_BW_SEED_SPAN
     in state\<lparr>cycle_index := ucast ((TCP_SHIFT_BBR_PROBE_BW_CYCLE_LEN - offset) AND
                                   (TCP_SHIFT_BBR_PROBE_BW_CYCLE_LEN - 1)),
              cycle_start_ns := now_ns, cycle_started := True\<rparr>)"

definition tcp_shift_bbr_probe_state_init :: "u32 \<Rightarrow> tcp_shift_bbr_probe_state" where
  "tcp_shift_bbr_probe_state_init seed =
    \<lparr>cycle_start_ns = 0, probe_rtt_done_stamp_ns = 0, probe_rtt_prior_cwnd_bytes = 0, cycle_index = 0,
     cycle_seed = ucast (seed mod TCP_SHIFT_BBR_PROBE_BW_SEED_SPAN), cycle_started = False,
     probe_rtt_round_done = False\<rparr>"

definition tcp_shift_bbr_probe_bw_pacing_gain_num :: "tcp_shift_bbr_probe_state \<Rightarrow> u32" where
  "tcp_shift_bbr_probe_bw_pacing_gain_num state =
    (if cycle_index state = 0 then TCP_SHIFT_BBR_PROBE_BW_UP_GAIN_NUM
     else if cycle_index state = 1 then TCP_SHIFT_BBR_PROBE_BW_DOWN_GAIN_NUM
     else TCP_SHIFT_BBR_PROBE_BW_CRUISE_GAIN_NUM)"

definition tcp_shift_bbr_probe_bw_pacing_rate_bytes_per_sec ::
    "tcp_shift_bbr_model \<Rightarrow> tcp_shift_bbr_probe_state \<Rightarrow> u64" where
  "tcp_shift_bbr_probe_bw_pacing_rate_bytes_per_sec model state =
    (let gain = tcp_shift_bbr_probe_bw_pacing_gain_num state
     in tcp_shift_bbr_probe_scale_floor_u64 (max_bw_bytes_per_sec model)
          (gain * TCP_SHIFT_BBR_PACING_MARGIN_NUM)
          (TCP_SHIFT_BBR_GAIN_DEN * TCP_SHIFT_BBR_PACING_MARGIN_DEN))"

definition tcp_shift_bbr_probe_bw_update ::
    "tcp_shift_bbr_model \<Rightarrow> tcp_shift_bbr_probe_state \<Rightarrow> tcp_shift_cc_rate_sample \<Rightarrow> u32 \<Rightarrow> u64 \<Rightarrow>
     int \<times> tcp_shift_bbr_probe_state" where
  "tcp_shift_bbr_probe_bw_update model state sample newly_lost now_ns =
    (if mode model \<noteq> MODE_PROBE_BW then (0, state)
     else if now_ns = 0 then (0, state)
     else if \<not> cycle_started state then (0, tcp_shift_bbr_probe_bw_reset_cycle state now_ns)
     else if now_ns < cycle_start_ns state then (-1, state)
     else if max_bw_bytes_per_sec model = 0 \<or> \<not> has_min_rtt model \<or> min_rtt_ns model = 0 then (0, state)
     else
       let full_length = (now_ns - cycle_start_ns state \<ge> min_rtt_ns model);
           bdp = tcp_shift_bbr_bdp_bytes (max_bw_bytes_per_sec model) (min_rtt_ns model)
       in if bdp = 0 then (0, state)
          else
            let gain = tcp_shift_bbr_probe_bw_pacing_gain_num state;
                advance =
                  (if gain > TCP_SHIFT_BBR_GAIN_DEN then
                     let phase_target = tcp_shift_bbr_probe_scale_ceil_u64 bdp gain TCP_SHIFT_BBR_GAIN_DEN
                     in full_length \<and> (newly_lost \<noteq> 0 \<or> u64_of (prior_inflight_bytes sample) \<ge> phase_target)
                   else if gain < TCP_SHIFT_BBR_GAIN_DEN
                   then full_length \<or> u64_of (prior_inflight_bytes sample) \<le> bdp
                   else full_length)
            in if advance
               then (0, state\<lparr>cycle_index := ucast ((ucast (cycle_index state) + 1) AND
                                               (TCP_SHIFT_BBR_PROBE_BW_CYCLE_LEN - 1)),
                             cycle_start_ns := now_ns\<rparr>)
               else (0, state))"

definition tcp_shift_bbr_probe_bw_policy ::
    "tcp_shift_bbr_model \<Rightarrow> tcp_shift_bbr_probe_state \<Rightarrow> tcp_shift_cc_transport \<Rightarrow> tcp_shift_cc_ack \<Rightarrow> u32 \<Rightarrow>
     tcp_shift_cc_policy \<Rightarrow> int \<times> tcp_shift_cc_policy" where
  "tcp_shift_bbr_probe_bw_policy model state transport ack current_cwnd policy =
    (if mode model \<noteq> MODE_PROBE_BW \<or> \<not> full_bw_reached model \<or> max_bw_bytes_per_sec model = 0 \<or>
        \<not> has_min_rtt model \<or> min_rtt_ns model = 0 \<or>
        mss_bytes transport = 0 \<or> cwnd_limit_bytes transport = 0 \<or>
        cwnd_limit_bytes transport < mss_bytes transport \<or> current_cwnd = 0 \<or>
        current_cwnd > cwnd_limit_bytes transport
     then (-1, policy)
     else
       let minimum = tcp_shift_bbr_probe_min_cwnd_bytes transport;
           bdp = tcp_shift_bbr_bdp_bytes (max_bw_bytes_per_sec model) (min_rtt_ns model);
           target = tcp_shift_bbr_probe_scale_ceil_u64 bdp TCP_SHIFT_BBR_CWND_GAIN_NUM TCP_SHIFT_BBR_GAIN_DEN;
           target = (if target < u64_of minimum then u64_of minimum else target);
           target = (if target > u64_of (cwnd_limit_bytes transport)
                     then u64_of (cwnd_limit_bytes transport) else target);
           cwnd = current_cwnd;
           cwnd = (if acked_bytes ack \<noteq> 0 then
                     let grown = u64_of cwnd + u64_of (acked_bytes ack);
                         grown = (if grown > u64_of (cwnd_limit_bytes transport)
                                  then u64_of (cwnd_limit_bytes transport) else grown)
                     in if grown < target then u32_of grown else u32_of target
                   else cwnd);
           cwnd = (if cwnd < minimum then minimum else cwnd);
           bdp = (if bdp < u64_of minimum then u64_of minimum else bdp);
           bdp = (if bdp > u64_of (cwnd_limit_bytes transport)
                  then u64_of (cwnd_limit_bytes transport) else bdp);
           ssthresh = u32_of bdp
       in (0, policy\<lparr>cwnd_bytes := cwnd, ssthresh_bytes := ssthresh,
                     pacing_rate_bytes_per_sec := tcp_shift_bbr_probe_bw_pacing_rate_bytes_per_sec model state\<rparr>))"

section \<open>ProbeRTT\<close>

definition tcp_shift_bbr_probe_rtt_update ::
    "tcp_shift_bbr_model \<Rightarrow> tcp_shift_bbr_probe_state \<Rightarrow> tcp_shift_cc_transport \<Rightarrow>
     tcp_shift_cc_rate_sample \<Rightarrow> u32 \<Rightarrow> u64 \<Rightarrow> int \<times> tcp_shift_bbr_model \<times> tcp_shift_bbr_probe_state" where
  "tcp_shift_bbr_probe_rtt_update model state transport sample current_cwnd now_ns =
    (if mss_bytes transport = 0 \<or> cwnd_limit_bytes transport = 0 \<or>
        cwnd_limit_bytes transport < mss_bytes transport \<or> current_cwnd = 0 \<or>
        current_cwnd > cwnd_limit_bytes transport
     then (-1, model, state)
     else
       let (model, state) =
             (if mode model \<noteq> MODE_PROBE_RTT \<and> min_rtt_expired model then
                let state = (if current_cwnd > probe_rtt_prior_cwnd_bytes state
                             then state\<lparr>probe_rtt_prior_cwnd_bytes := current_cwnd\<rparr> else state)
                in (model\<lparr>mode := MODE_PROBE_RTT\<rparr>,
                    state\<lparr>probe_rtt_done_stamp_ns := 0, probe_rtt_round_done := False, cycle_started := False\<rparr>)
              else (model, state))
       in if mode model \<noteq> MODE_PROBE_RTT then (0, model, state)
          else
            let minimum = tcp_shift_bbr_probe_min_cwnd_bytes transport
            in if probe_rtt_done_stamp_ns state = 0 then
                 (if prior_inflight_bytes sample \<le> minimum
                  then (0, model\<lparr>next_round_delivered := delivered_total_bytes sample\<rparr>,
                        state\<lparr>probe_rtt_done_stamp_ns := tcp_shift_bbr_probe_sat_add_u64 now_ns
                                TCP_SHIFT_BBR_PROBE_RTT_DURATION_NS,
                              probe_rtt_round_done := False\<rparr>)
                  else (0, model, state))
               else
                 let state = (if round_start model then state\<lparr>probe_rtt_round_done := True\<rparr> else state)
                 in if \<not> probe_rtt_round_done state \<or> now_ns < probe_rtt_done_stamp_ns state
                    then (0, model, state)
                    else
                      let model = model\<lparr>min_rtt_stamp_ns := now_ns, min_rtt_expired := False\<rparr>;
                          state = state\<lparr>probe_rtt_done_stamp_ns := 0, probe_rtt_round_done := False\<rparr>
                      in if full_bw_reached model
                         then (1, model\<lparr>mode := MODE_PROBE_BW\<rparr>, tcp_shift_bbr_probe_bw_reset_cycle state now_ns)
                         else (1, model\<lparr>mode := MODE_STARTUP\<rparr>, state\<lparr>cycle_started := False\<rparr>))"

definition tcp_shift_bbr_probe_rtt_policy ::
    "tcp_shift_bbr_model \<Rightarrow> tcp_shift_bbr_probe_state \<Rightarrow> tcp_shift_cc_transport \<Rightarrow>
     tcp_shift_cc_policy \<Rightarrow> int \<times> tcp_shift_cc_policy" where
  "tcp_shift_bbr_probe_rtt_policy model state transport policy =
    (if mode model \<noteq> MODE_PROBE_RTT \<or> mss_bytes transport = 0 \<or> cwnd_limit_bytes transport = 0 \<or>
        cwnd_limit_bytes transport < mss_bytes transport
     then (-1, policy)
     else
       let minimum = tcp_shift_bbr_probe_min_cwnd_bytes transport
       in (0, policy\<lparr>cwnd_bytes := minimum, ssthresh_bytes := minimum,
                     pacing_rate_bytes_per_sec := tcp_shift_bbr_probe_scale_floor_u64 (max_bw_bytes_per_sec model)
                       (TCP_SHIFT_BBR_PROBE_BW_CRUISE_GAIN_NUM * TCP_SHIFT_BBR_PACING_MARGIN_NUM)
                       (TCP_SHIFT_BBR_GAIN_DEN * TCP_SHIFT_BBR_PACING_MARGIN_DEN)\<rparr>))"

definition tcp_shift_bbr_probe_rtt_restore_cwnd_bytes :: "tcp_shift_bbr_probe_state \<Rightarrow> u32 \<Rightarrow> u32 \<Rightarrow> u32" where
  "tcp_shift_bbr_probe_rtt_restore_cwnd_bytes state current_cwnd limit =
    (if limit = 0 then 0
     else
       let restored = current_cwnd;
           restored = (if probe_rtt_prior_cwnd_bytes state > restored
                       then probe_rtt_prior_cwnd_bytes state else restored);
           restored = (if restored > limit then limit else restored)
       in restored)"

section \<open>Windows and phases\<close>

text \<open>The four-packet window, clamped to what the transport can represent.\<close>

lemma unat_min_cwnd: "unat (tcp_shift_bbr_probe_min_cwnd_bytes t) = min (unat (cwnd_limit_bytes t)) (4 * unat (mss_bytes t))"
proof -
  have m: "unat (u64_of (mss_bytes t) * u64_of TCP_SHIFT_BBR_MIN_CWND_PACKETS) = unat (mss_bytes t) * 4"
    using unat_lt_u32 [of "mss_bytes t"] by (subst unat_mult_exact) (simp_all add: bbr_const_defs)
  show ?thesis
    unfolding tcp_shift_bbr_probe_min_cwnd_bytes_def Let_def
    using m unat_lt_u32 [of "cwnd_limit_bytes t"]
    by (auto simp: word_less_nat_alt unat_u32_of_small min_def)
qed

lemma probe_target_le:
  "tcp_shift_bbr_probe_scale_ceil_u64 bdp TCP_SHIFT_BBR_PROBE_BW_UP_GAIN_NUM TCP_SHIFT_BBR_GAIN_DEN \<le> u64_of x \<longleftrightarrow>
    5 * unat bdp \<le> 4 * unat x"
proof -
  have "unat (tcp_shift_bbr_probe_scale_ceil_u64 bdp TCP_SHIFT_BBR_PROBE_BW_UP_GAIN_NUM TCP_SHIFT_BBR_GAIN_DEN) =
      min 18446744073709551615 (ceil_div (unat bdp * 320) 256)"
    unfolding tcp_shift_bbr_probe_scale_ceil_u64_def
    by (subst bbr_probe.unat_scale_ceil) (simp_all add: bbr_const_defs bbr_probe_const_defs)
  moreover have "ceil_div (unat bdp * 320) 256 \<le> unat x \<longleftrightarrow> unat bdp * 320 \<le> unat x * 256"
    using ceil_div_ge [of 256 "unat bdp * 320"] ceil_div_least [of 256 "unat bdp * 320" "unat x"]
    by (meson le_trans mult_le_mono1 zero_less_numeral)
  ultimately show ?thesis using unat_lt_u32 [of x] by (auto simp: word_le_nat_alt)
qed

lemma bdp_nonzero:
  assumes "bw \<noteq> 0" and "rtt \<noteq> 0"
  shows "tcp_shift_bbr_bdp_bytes bw rtt \<noteq> 0"
proof -
  have "ceil_div (unat bw * unat rtt) 1000000000 \<noteq> 0"
    using assms by (subst ceil_div_eq_0_iff) (simp_all add: word_zero_nat)
  then show ?thesis using unat_bdp [of bw rtt] by (auto simp: word_zero_nat)
qed

text \<open>The phase index is three bits wide.\<close>

lemma unat_and_7: "unat (w AND 7 :: u32) = unat w mod 8"
proof -
  have "w AND 7 = take_bit 3 w" by (simp add: take_bit_eq_mask mask_eq_exp_minus_1)
  then show ?thesis by (simp add: take_bit_eq_mod unat_mod_distrib)
qed

lemma unat_u8_u32 [simp]: "unat (ucast (i :: u8) :: u32) = unat i"
  using unat_lt2p [of i] by (simp add: unsigned_ucast_eq take_bit_nat_eq_self_iff)

lemma unat_u32_u8_and_7: "unat (ucast (w AND 7 :: u32) :: u8) = unat w mod 8"
proof -
  have "unat w mod 8 < 256" by (rule less_trans [of _ 8]) simp_all
  then show ?thesis by (simp add: unsigned_ucast_eq unat_and_7 take_bit_nat_eq_self_iff)
qed

lemma unat_next_phase: "unat (ucast ((ucast (i :: u8) + 1 :: u32) AND 7) :: u8) = (unat i + 1) mod 8"
proof -
  have "unat ((ucast i + 1 :: u32)) = unat i + 1"
    using unat_lt2p [of i] by (subst unat_inc_exact) simp_all
  then show ?thesis by (simp add: unat_u32_u8_and_7)
qed

text \<open>A fresh cycle starts in the probe-up phase or in one of the six cruise phases.\<close>

lemma reset_cycle_phase:
  assumes "st' = tcp_shift_bbr_probe_bw_reset_cycle st now"
  shows "unat (cycle_index st') < 8 \<and> cycle_index st' \<noteq> 1"
proof -
  let ?o = "ucast (cycle_seed st) mod 7 :: u32"
  have o: "unat ?o < 7" by (simp add: unat_mod_distrib)
  have "unat (8 - ?o) = 8 - unat ?o" using o by (subst unat_diff_exact) simp_all
  then have i: "unat (cycle_index st') = (8 - unat ?o) mod 8"
    unfolding assms tcp_shift_bbr_probe_bw_reset_cycle_def Let_def
    by (simp add: bbr_probe_const_defs unat_u32_u8_and_7)
  then have "unat (cycle_index st') \<noteq> 1" using o by (cases "unat ?o = 0") auto
  then show ?thesis using i by auto
qed

text \<open>What ends a phase: the probe-up phase needs a full minimum RTT and either a loss or five quarters
  of the bandwidth-delay product in flight; the drain phase ends early when the flight is down to
  the product; a cruise phase lasts one minimum RTT.\<close>

definition phase_over :: "u8 \<Rightarrow> bool \<Rightarrow> bool \<Rightarrow> nat \<Rightarrow> nat \<Rightarrow> bool" where
  "phase_over phase full lost inflight bdp \<longleftrightarrow>
    (if phase = 0 then full \<and> (lost \<or> 5 * bdp \<le> 4 * inflight)
     else if phase = 1 then full \<or> inflight \<le> bdp
     else full)"

section \<open>The ProbeRTT dwell\<close>

text \<open>The calls the controller makes, one per ACK, each with the round start and the expiry that the
  estimator reported for that ACK.\<close>

record probe_rtt_call =
  call_transport :: tcp_shift_cc_transport
  call_sample :: tcp_shift_cc_rate_sample
  call_cwnd :: u32
  call_now :: u64
  call_round_start :: bool
  call_expired :: bool

fun probe_rtt_step :: "int \<times> tcp_shift_bbr_model \<times> tcp_shift_bbr_probe_state \<Rightarrow> probe_rtt_call \<Rightarrow>
    int \<times> tcp_shift_bbr_model \<times> tcp_shift_bbr_probe_state" where
  "probe_rtt_step (rc, m, st) c = tcp_shift_bbr_probe_rtt_update
     (m\<lparr>round_start := call_round_start c, min_rtt_expired := call_expired c\<rparr>) st
     (call_transport c) (call_sample c) (call_cwnd c) (call_now c)"

definition probe_rtt_run :: "tcp_shift_bbr_model \<Rightarrow> tcp_shift_bbr_probe_state \<Rightarrow> probe_rtt_call list \<Rightarrow>
    int \<times> tcp_shift_bbr_model \<times> tcp_shift_bbr_probe_state" where
  "probe_rtt_run m st calls = foldl probe_rtt_step (0, m, st) calls"

text \<open>The flight of a call is down to the four-packet window.\<close>

definition call_low :: "probe_rtt_call \<Rightarrow> bool" where
  "call_low c \<longleftrightarrow> prior_inflight_bytes (call_sample c) \<le> tcp_shift_bbr_probe_min_cwnd_bytes (call_transport c)"

text \<open>A running dwell was opened by an earlier call with a low flight, and its round flag by a round
  start after that call.\<close>

definition dwell_ok :: "probe_rtt_call list \<Rightarrow> tcp_shift_bbr_model \<Rightarrow> tcp_shift_bbr_probe_state \<Rightarrow> bool" where
  "dwell_ok past m st \<longleftrightarrow> (mode m = MODE_PROBE_RTT \<and> probe_rtt_done_stamp_ns st \<noteq> 0 \<longrightarrow>
    (\<exists>i < length past. call_low (past ! i) \<and>
       unat (probe_rtt_done_stamp_ns st) = unat (call_now (past ! i)) + 200000000 \<and>
       (probe_rtt_round_done st \<longrightarrow> (\<exists>k. i < k \<and> k < length past \<and> call_round_start (past ! k)))))"

definition dwell_complete :: "probe_rtt_call list \<Rightarrow> u64 \<Rightarrow> bool" where
  "dwell_complete calls now \<longleftrightarrow>
    (\<exists>i k. i < k \<and> k < length calls \<and> call_low (calls ! i) \<and> call_round_start (calls ! k) \<and>
       unat (call_now (calls ! i)) + 200000000 \<le> unat now)"

lemma dwell_ok_snoc: "dwell_ok past m st \<Longrightarrow> dwell_ok (past @ [c]) m st"
  unfolding dwell_ok_def by (fastforce simp: nth_append)

lemma dwell_open:
  assumes "call_low c" and "unat (call_now c) + 200000000 < 18446744073709551616"
    and "st' = st\<lparr>probe_rtt_done_stamp_ns := tcp_shift_bbr_probe_sat_add_u64 (call_now c)
      TCP_SHIFT_BBR_PROBE_RTT_DURATION_NS, probe_rtt_round_done := False\<rparr>"
  shows "dwell_ok (past @ [c]) m st'"
proof -
  have "unat (probe_rtt_done_stamp_ns st') = unat (call_now c) + 200000000"
    using assms(2) by (simp add: assms(3) bbr_probe.unat_add bbr_probe_const_defs)
  then show ?thesis using assms(1) unfolding dwell_ok_def
    by (intro impI exI [of _ "length past"]) (simp add: assms(3))
qed

lemma dwell_advance:
  assumes "dwell_ok past m st" and "mode m = MODE_PROBE_RTT" and "probe_rtt_done_stamp_ns st \<noteq> 0"
    and "st' = (if call_round_start c then st\<lparr>probe_rtt_round_done := True\<rparr> else st)"
  shows "dwell_ok (past @ [c]) m st'"
    and "probe_rtt_round_done st' \<Longrightarrow> probe_rtt_done_stamp_ns st' \<le> call_now c \<Longrightarrow>
      dwell_complete (past @ [c]) (call_now c)"
proof -
  obtain i where i: "i < length past" "call_low (past ! i)"
      "unat (probe_rtt_done_stamp_ns st) = unat (call_now (past ! i)) + 200000000"
      "probe_rtt_round_done st \<longrightarrow> (\<exists>k. i < k \<and> k < length past \<and> call_round_start (past ! k))"
    using assms(1-3) by (auto simp: dwell_ok_def)
  have nth: "(past @ [c]) ! i = past ! i" using i(1) by (simp add: nth_append)
  have rd: "\<exists>k. i < k \<and> k < length (past @ [c]) \<and> call_round_start ((past @ [c]) ! k)"
    if rdone: "probe_rtt_round_done st'"
  proof (cases "call_round_start c")
    case True
    then show ?thesis using i(1) by (intro exI [of _ "length past"]) simp
  next
    case False
    then obtain k where "i < k" "k < length past" "call_round_start (past ! k)"
      using rdone i(4) assms(4) by auto
    then show ?thesis by (intro exI [of _ k]) (simp add: nth_append)
  qed
  show "dwell_ok (past @ [c]) m st'"
    unfolding dwell_ok_def using i(1-3) nth rd assms(4) by (intro impI exI [of _ i]) simp
  show "dwell_complete (past @ [c]) (call_now c)"
    if "probe_rtt_round_done st'" "probe_rtt_done_stamp_ns st' \<le> call_now c"
  proof -
    have "probe_rtt_done_stamp_ns st' = probe_rtt_done_stamp_ns st" by (simp add: assms(4))
    then have "unat (call_now ((past @ [c]) ! i)) + 200000000 \<le> unat (call_now c)"
      using that(2) i(3) by (simp add: nth word_le_nat_alt)
    moreover have "call_low ((past @ [c]) ! i)" using i(2) by (simp add: nth)
    ultimately show ?thesis unfolding dwell_complete_def using rd [OF that(1)] by blast
  qed
qed

text \<open>One call, from a consistent dwell.\<close>

lemma probe_rtt_step_dwell:
  assumes "dwell_ok past m st" and "unat (call_now c) + 200000000 < 18446744073709551616"
    and step: "probe_rtt_step (rc0, m, st) c = (rc, m', st')"
  shows "dwell_ok (past @ [c]) m' st' \<and> (rc = 1 \<longrightarrow> dwell_complete (past @ [c]) (call_now c))"
proof -
  define n where "n = m\<lparr>round_start := call_round_start c, min_rtt_expired := call_expired c\<rparr>"
  have n: "dwell_ok past n st" using assms(1) by (simp add: n_def dwell_ok_def)
  define e where "e = (if mode n \<noteq> MODE_PROBE_RTT \<and> min_rtt_expired n
    then (n\<lparr>mode := MODE_PROBE_RTT\<rparr>,
      (if call_cwnd c > probe_rtt_prior_cwnd_bytes st then st\<lparr>probe_rtt_prior_cwnd_bytes := call_cwnd c\<rparr> else st)
        \<lparr>probe_rtt_done_stamp_ns := 0, probe_rtt_round_done := False, cycle_started := False\<rparr>)
    else (n, st))"
  obtain n1 s1 where e: "e = (n1, s1)" by fastforce
  have s1: "dwell_ok past n1 s1" "round_start n1 = call_round_start c"
    using n e by (auto simp: e_def dwell_ok_def n_def split: if_splits)
  define s2 where "s2 = (if call_round_start c then s1\<lparr>probe_rtt_round_done := True\<rparr> else s1)"
  have call: "probe_rtt_step (rc0, m, st) c =
    (if mss_bytes (call_transport c) = 0 \<or> cwnd_limit_bytes (call_transport c) = 0 \<or>
        cwnd_limit_bytes (call_transport c) < mss_bytes (call_transport c) \<or> call_cwnd c = 0 \<or>
        call_cwnd c > cwnd_limit_bytes (call_transport c)
     then (-1, n, st)
     else if mode n1 \<noteq> MODE_PROBE_RTT then (0, n1, s1)
     else if probe_rtt_done_stamp_ns s1 = 0 then
       (if call_low c
        then (0, n1\<lparr>next_round_delivered := delivered_total_bytes (call_sample c)\<rparr>,
              s1\<lparr>probe_rtt_done_stamp_ns := tcp_shift_bbr_probe_sat_add_u64 (call_now c)
                   TCP_SHIFT_BBR_PROBE_RTT_DURATION_NS, probe_rtt_round_done := False\<rparr>)
        else (0, n1, s1))
     else if \<not> probe_rtt_round_done s2 \<or> call_now c < probe_rtt_done_stamp_ns s2 then (0, n1, s2)
     else let m2 = n1\<lparr>min_rtt_stamp_ns := call_now c, min_rtt_expired := False\<rparr>;
              s3 = s2\<lparr>probe_rtt_done_stamp_ns := 0, probe_rtt_round_done := False\<rparr>
          in if full_bw_reached m2
             then (1, m2\<lparr>mode := MODE_PROBE_BW\<rparr>, tcp_shift_bbr_probe_bw_reset_cycle s3 (call_now c))
             else (1, m2\<lparr>mode := MODE_STARTUP\<rparr>, s3\<lparr>cycle_started := False\<rparr>))"
    using e s1(2) unfolding probe_rtt_step.simps tcp_shift_bbr_probe_rtt_update_def n_def [symmetric]
      Let_def e_def [symmetric] call_low_def s2_def by simp
  have open_: "dwell_ok (past @ [c]) (n1\<lparr>next_round_delivered := d\<rparr>) st2"
    if "call_low c" "st2 = s1\<lparr>probe_rtt_done_stamp_ns := tcp_shift_bbr_probe_sat_add_u64 (call_now c)
      TCP_SHIFT_BBR_PROBE_RTT_DURATION_NS, probe_rtt_round_done := False\<rparr>" for d st2
    by (rule dwell_open [OF that(1) assms(2) that(2)])
  have left: "dwell_ok past' m2 s3" if "mode m2 \<noteq> MODE_PROBE_RTT" for past' m2 s3
    using that by (simp add: dwell_ok_def)
  show ?thesis
  proof (cases "mode n1 = MODE_PROBE_RTT \<and> probe_rtt_done_stamp_ns s1 \<noteq> 0")
    case True
    note adv = dwell_advance [OF s1(1) _ _ s2_def]
    from True show ?thesis using step adv dwell_ok_snoc [OF n] left unfolding call Let_def
      by (auto split: if_splits simp: not_less)
  next
    case False
    then show ?thesis using step dwell_ok_snoc [OF n] dwell_ok_snoc [OF s1(1)] open_
      unfolding call Let_def by (auto split: if_splits)
  qed
qed

lemma probe_rtt_run_dwell:
  assumes "mode m \<noteq> MODE_PROBE_RTT" and "\<forall>c \<in> set calls. unat (call_now c) + 200000000 < 18446744073709551616"
    and "probe_rtt_run m st calls = (rc, m', st')"
  shows "dwell_ok calls m' st'"
  using assms(2,3)
proof (induction calls arbitrary: rc m' st' rule: rev_induct)
  case Nil
  then show ?case using assms(1) by (simp add: probe_rtt_run_def dwell_ok_def)
next
  case (snoc c calls)
  obtain rc1 m1 st1 where r: "probe_rtt_run m st calls = (rc1, m1, st1)" using prod_cases3 by blast
  have "dwell_ok calls m1 st1" using snoc.IH [OF _ r] snoc.prems(1) by simp
  moreover have "probe_rtt_step (rc1, m1, st1) c = (rc, m', st')"
    using snoc.prems(2) r by (simp add: probe_rtt_run_def)
  ultimately show ?case using probe_rtt_step_dwell snoc.prems(1) by auto
qed


section \<open>Properties\<close>

text \<open>C24. The ProbeBW gain cycle: once a cycle runs and the estimator has a bandwidth and a minimum RTT,
  an ACK advances the phase, cyclically through eight phases, exactly when the phase is over in
  the sense of \<open>phase_over\<close>: with the true elapsed time against the minimum RTT and the flight
  against the exact rational multiple of the bandwidth-delay product. A cycle that has not
  started begins at a phase below eight that is not the drain phase.\<close>

theorem bbr_probe_bw_phase_exact:
  assumes "mode m = MODE_PROBE_BW" and "now \<noteq> 0" and "cycle_start_ns st \<le> now"
    and "max_bw_bytes_per_sec m \<noteq> 0" and "has_min_rtt m" and "min_rtt_ns m \<noteq> 0"
    and "tcp_shift_bbr_probe_bw_update m st sample lost now = (rc, st')"
  shows "rc = 0 \<and>
    (if cycle_started st
     then let over = phase_over (cycle_index st) (unat (min_rtt_ns m) \<le> unat now - unat (cycle_start_ns st))
                (lost \<noteq> 0) (unat (prior_inflight_bytes sample))
                (unat (tcp_shift_bbr_bdp_bytes (max_bw_bytes_per_sec m) (min_rtt_ns m)))
          in unat (cycle_index st') = (if over then (unat (cycle_index st) + 1) mod 8 else unat (cycle_index st)) \<and>
             cycle_start_ns st' = (if over then now else cycle_start_ns st)
     else unat (cycle_index st') < 8 \<and> cycle_index st' \<noteq> 1 \<and> cycle_start_ns st' = now \<and> cycle_started st')"
proof (cases "cycle_started st")
  case False
  then have r: "rc = 0" "st' = tcp_shift_bbr_probe_bw_reset_cycle st now"
    using assms by (auto simp: tcp_shift_bbr_probe_bw_update_def)
  then show ?thesis using False reset_cycle_phase [OF r(2)]
    by (simp add: tcp_shift_bbr_probe_bw_reset_cycle_def Let_def)
next
  case True
  define bdp where "bdp = tcp_shift_bbr_bdp_bytes (max_bw_bytes_per_sec m) (min_rtt_ns m)"
  define full where "full = (now - cycle_start_ns st \<ge> min_rtt_ns m)"
  have bdp: "bdp \<noteq> 0" using bdp_nonzero [OF assms(4,6)] by (simp add: bdp_def)
  have full: "full \<longleftrightarrow> unat (min_rtt_ns m) \<le> unat now - unat (cycle_start_ns st)"
    using assms(3) by (simp add: full_def word_le_nat_alt unat_sub)
  have gain: "(if tcp_shift_bbr_probe_bw_pacing_gain_num st > TCP_SHIFT_BBR_GAIN_DEN then
       full \<and> (lost \<noteq> 0 \<or> u64_of (prior_inflight_bytes sample) \<ge>
         tcp_shift_bbr_probe_scale_ceil_u64 bdp (tcp_shift_bbr_probe_bw_pacing_gain_num st) TCP_SHIFT_BBR_GAIN_DEN)
     else if tcp_shift_bbr_probe_bw_pacing_gain_num st < TCP_SHIFT_BBR_GAIN_DEN
     then full \<or> u64_of (prior_inflight_bytes sample) \<le> bdp else full) =
    phase_over (cycle_index st) full (lost \<noteq> 0) (unat (prior_inflight_bytes sample)) (unat bdp)"
  proof -
    consider "cycle_index st = 0" | "cycle_index st = 1" | "cycle_index st \<noteq> 0" "cycle_index st \<noteq> 1" by blast
    then show ?thesis
    proof cases
      case 1
      then have g: "tcp_shift_bbr_probe_bw_pacing_gain_num st = TCP_SHIFT_BBR_PROBE_BW_UP_GAIN_NUM"
        by (simp add: tcp_shift_bbr_probe_bw_pacing_gain_num_def)
      have "TCP_SHIFT_BBR_PROBE_BW_UP_GAIN_NUM > TCP_SHIFT_BBR_GAIN_DEN"
        by (simp add: bbr_const_defs bbr_probe_const_defs)
      then show ?thesis using 1 by (simp add: g phase_over_def probe_target_le)
    next
      case 2
      then show ?thesis
        by (simp add: tcp_shift_bbr_probe_bw_pacing_gain_num_def bbr_const_defs bbr_probe_const_defs
            phase_over_def word_le_nat_alt)
    next
      case 3
      then show ?thesis
        by (simp add: tcp_shift_bbr_probe_bw_pacing_gain_num_def bbr_const_defs bbr_probe_const_defs
            phase_over_def)
    qed
  qed
  have "\<not> now < cycle_start_ns st" using assms(3) by simp
  then have "tcp_shift_bbr_probe_bw_update m st sample lost now =
      (0, if phase_over (cycle_index st) full (lost \<noteq> 0) (unat (prior_inflight_bytes sample)) (unat bdp)
          then st\<lparr>cycle_index := ucast ((ucast (cycle_index st) + 1 :: u32) AND 7), cycle_start_ns := now\<rparr> else st)"
    using assms(1,2,4-6) True bdp
    unfolding tcp_shift_bbr_probe_bw_update_def Let_def bdp_def [symmetric] full_def [symmetric] gain
    by (simp add: bbr_probe_const_defs)
  then show ?thesis using assms(7) True by (auto simp: Let_def full bdp_def unat_next_phase)
qed

definition demo_probe_model :: tcp_shift_bbr_model where
  "demo_probe_model = tcp_shift_bbr_model_init\<lparr>mode := MODE_PROBE_BW, max_bw_bytes_per_sec := 1000000,
    has_min_rtt := True, min_rtt_ns := 20000000, full_bw_reached := True\<rparr>"

definition demo_probe_state :: tcp_shift_bbr_probe_state where
  "demo_probe_state = (tcp_shift_bbr_probe_state_init 0)\<lparr>cycle_started := True, cycle_start_ns := 1000\<rparr>"

text \<open>With 25000 bytes in flight, five quarters of the product, the probe-up phase is over after one
  minimum RTT.\<close>

theorem bbr_probe_bw_phase_exact_witness:
  "unat (cycle_index (snd (tcp_shift_bbr_probe_bw_update demo_probe_model demo_probe_state
     ((demo_sample 1 0 0)\<lparr>prior_inflight_bytes := 25000\<rparr>) 0 20001000))) = 1"
proof -
  let ?r = "tcp_shift_bbr_probe_bw_update demo_probe_model demo_probe_state
     ((demo_sample 1 0 0)\<lparr>prior_inflight_bytes := 25000\<rparr>) 0 20001000"
  have bdp: "unat (tcp_shift_bbr_bdp_bytes 1000000 20000000) = 20000" by (simp add: unat_bdp ceil_div_def)
  have m: "mode demo_probe_model = MODE_PROBE_BW" "max_bw_bytes_per_sec demo_probe_model = 1000000"
    "has_min_rtt demo_probe_model" "min_rtt_ns demo_probe_model = 20000000" "cycle_started demo_probe_state"
    "cycle_start_ns demo_probe_state = 1000" "cycle_index demo_probe_state = 0"
    by (simp_all add: demo_probe_model_def demo_probe_state_def tcp_shift_bbr_probe_state_init_def)
  have "?r = (fst ?r, snd ?r)" by simp
  from bbr_probe_bw_phase_exact [OF m(1) _ _ _ m(3) _ this] m bdp show ?thesis
    by (simp add: phase_over_def Let_def)
qed

text \<open>C25. ProbeRTT is left only after its dwell: take any sequence of ProbeRTT updates that starts outside
  ProbeRTT (times more than 200 ms below the end of the 64-bit clock). If the last one reports
  completion, then some earlier call saw the flight at or below the four-packet window, at least
  200 ms before, and a packet-timed round started after that call.\<close>

theorem bbr_probe_rtt_dwell:
  assumes "mode m \<noteq> MODE_PROBE_RTT"
    and "\<forall>c \<in> set (calls @ [c]). unat (call_now c) + 200000000 < 18446744073709551616"
    and "probe_rtt_run m st (calls @ [c]) = (1, m', st')"
  shows "\<exists>i k. i < k \<and> k < length (calls @ [c]) \<and> call_low ((calls @ [c]) ! i) \<and>
    call_round_start ((calls @ [c]) ! k) \<and>
    unat (call_now ((calls @ [c]) ! i)) + 200000000 \<le> unat (call_now c)"
proof -
  obtain rc1 m1 st1 where r: "probe_rtt_run m st calls = (rc1, m1, st1)" using prod_cases3 by blast
  have "dwell_ok calls m1 st1" using probe_rtt_run_dwell [OF assms(1) _ r] assms(2) by simp
  moreover have "probe_rtt_step (rc1, m1, st1) c = (1, m', st')"
    using assms(3) r by (simp add: probe_rtt_run_def)
  ultimately have "dwell_complete (calls @ [c]) (call_now c)"
    using probe_rtt_step_dwell assms(2) by auto
  then show ?thesis by (simp only: dwell_complete_def)
qed

definition demo_call :: "u64 \<Rightarrow> bool \<Rightarrow> bool \<Rightarrow> probe_rtt_call" where
  "demo_call now rs ex = \<lparr>call_transport = demo_transport, call_sample = demo_sample 1 0 0, call_cwnd = 10000,
    call_now = now, call_round_start = rs, call_expired = ex\<rparr>"

text \<open>Entry and low flight at once, an early round start, and completion after 200 ms.\<close>

theorem bbr_probe_rtt_dwell_witness:
  "fst (probe_rtt_run demo_probe_model demo_probe_state
     [demo_call 100 False True, demo_call 200 True False, demo_call 200000100 False False]) = 1 \<and>
   (\<exists>i k. i < k \<and> k < 3 \<and> call_round_start ([demo_call 100 False True, demo_call 200 True False,
     demo_call 200000100 False False] ! k))"
proof -
  let ?cs = "[demo_call 100 False True, demo_call 200 True False]" and ?c = "demo_call 200000100 False False"
  have m: "mode demo_probe_model \<noteq> MODE_PROBE_RTT" by (simp add: demo_probe_model_def)
  have t: "\<forall>c \<in> set (?cs @ [?c]). unat (call_now c) + 200000000 < 18446744073709551616"
    by (simp add: demo_call_def)
  have f: "fst (probe_rtt_run demo_probe_model demo_probe_state (?cs @ [?c])) = 1" by code_simp
  then have "probe_rtt_run demo_probe_model demo_probe_state (?cs @ [?c]) =
      (1, fst (snd (probe_rtt_run demo_probe_model demo_probe_state (?cs @ [?c]))),
       snd (snd (probe_rtt_run demo_probe_model demo_probe_state (?cs @ [?c]))))"
    by (metis prod.collapse)
  from bbr_probe_rtt_dwell [OF m t this] show ?thesis using f by (auto simp: numeral_3_eq_3)
qed

end
