(* ===== verification/Bbr_Recovery.thy ===== *)
theory Bbr_Recovery
  imports Prelude
begin

text \<open>
  The loss-recovery episode of the compact BBR controller, \<^verbatim>\<open>src/cc/bbr_recovery.h\<close> and
  \<^verbatim>\<open>src/cc/bbr_recovery.c\<close>: entry with packet conservation, the per-ACK window while the
  episode lasts, and the exit that restores the window held at entry. The out parameters
  \<^verbatim>\<open>cwnd_bytes\<close> and \<^verbatim>\<open>owns_cwnd\<close> are arguments and results.
\<close>

definition TCP_SHIFT_BBR_SNDBUF_EXPAND_NUM :: u32 where "TCP_SHIFT_BBR_SNDBUF_EXPAND_NUM = 3"
definition TCP_SHIFT_BBR_SNDBUF_EXPAND_DEN :: u32 where "TCP_SHIFT_BBR_SNDBUF_EXPAND_DEN = 1"

record tcp_shift_bbr_recovery_state =
  prior_cwnd_bytes :: u32
  in_recovery :: bool
  packet_conservation :: bool

definition tcp_shift_bbr_recovery_valid_window :: "u32 \<Rightarrow> u32 \<Rightarrow> u32 \<Rightarrow> bool" where
  "tcp_shift_bbr_recovery_valid_window current_cwnd mss limit \<longleftrightarrow>
    mss \<noteq> 0 \<and> limit \<ge> mss \<and> current_cwnd \<ge> mss \<and> current_cwnd \<le> limit"

definition tcp_shift_bbr_recovery_floor_sub :: "u32 \<Rightarrow> u32 \<Rightarrow> u32 \<Rightarrow> u32" where
  "tcp_shift_bbr_recovery_floor_sub x subtract floor_value =
    (if x \<le> subtract \<or> x - subtract < floor_value then floor_value else x - subtract)"

definition tcp_shift_bbr_recovery_sat_add_limit :: "u32 \<Rightarrow> u32 \<Rightarrow> u32 \<Rightarrow> u32" where
  "tcp_shift_bbr_recovery_sat_add_limit a b limit =
    (if a \<ge> limit \<or> b > limit - a then limit else a + b)"

definition tcp_shift_bbr_recovery_init :: tcp_shift_bbr_recovery_state where
  "tcp_shift_bbr_recovery_init =
    \<lparr>prior_cwnd_bytes = 0, in_recovery = False, packet_conservation = False\<rparr>"

definition tcp_shift_bbr_recovery_enter ::
    "tcp_shift_bbr_recovery_state \<Rightarrow> u32 \<Rightarrow> u32 \<Rightarrow> u32 \<Rightarrow> u32 \<Rightarrow> u32 \<Rightarrow> u32 \<Rightarrow> u32 \<Rightarrow>
     int \<times> tcp_shift_bbr_recovery_state \<times> u32" where
  "tcp_shift_bbr_recovery_enter state current_cwnd inflight acked lost mss limit cwnd_out =
    (if in_recovery state \<or> \<not> tcp_shift_bbr_recovery_valid_window current_cwnd mss limit
     then (-1, state, cwnd_out)
     else
       let state = state\<lparr>prior_cwnd_bytes := current_cwnd, in_recovery := True, packet_conservation := True\<rparr>;
           conservation_cwnd = tcp_shift_bbr_recovery_sat_add_limit inflight acked limit;
           conservation_cwnd = (if conservation_cwnd < mss then mss else conservation_cwnd)
       in (0, state, conservation_cwnd))"

definition tcp_shift_bbr_recovery_on_ack ::
    "tcp_shift_bbr_recovery_state \<Rightarrow> u32 \<Rightarrow> u32 \<Rightarrow> u32 \<Rightarrow> u32 \<Rightarrow> u32 \<Rightarrow> u32 \<Rightarrow> bool \<Rightarrow> u32 \<Rightarrow> bool \<Rightarrow>
     int \<times> tcp_shift_bbr_recovery_state \<times> u32 \<times> bool" where
  "tcp_shift_bbr_recovery_on_ack state current_cwnd inflight acked lost mss limit round_started cwnd_out owns =
    (if \<not> in_recovery state \<or> \<not> tcp_shift_bbr_recovery_valid_window current_cwnd mss limit
     then (-1, state, cwnd_out, owns)
     else
       let cwnd = tcp_shift_bbr_recovery_floor_sub current_cwnd lost mss;
           state = (if round_started then state\<lparr>packet_conservation := False\<rparr> else state);
           (cwnd, owns) =
             (if packet_conservation state then
                let conservation_cwnd = tcp_shift_bbr_recovery_sat_add_limit inflight acked limit;
                    conservation_cwnd = (if conservation_cwnd < mss then mss else conservation_cwnd)
                in (if cwnd < conservation_cwnd then conservation_cwnd else cwnd, True)
              else (cwnd, False));
           cwnd = (if cwnd > limit then limit else cwnd)
       in (0, state, cwnd, owns))"

definition tcp_shift_bbr_recovery_exit ::
    "tcp_shift_bbr_recovery_state \<Rightarrow> u32 \<Rightarrow> u32 \<Rightarrow> u32 \<Rightarrow> int \<times> tcp_shift_bbr_recovery_state \<times> u32" where
  "tcp_shift_bbr_recovery_exit state current_cwnd limit cwnd_out =
    (if \<not> in_recovery state \<or> current_cwnd = 0 \<or> limit = 0 \<or> current_cwnd > limit \<or> prior_cwnd_bytes state = 0
     then (-1, state, cwnd_out)
     else
       let restored = (if current_cwnd > prior_cwnd_bytes state then current_cwnd else prior_cwnd_bytes state);
           restored = (if restored > limit then limit else restored)
       in (0, state\<lparr>in_recovery := False, packet_conservation := False\<rparr>, restored))"

section \<open>Arithmetic of the episode\<close>

lemma unat_floor_sub:
  "unat (tcp_shift_bbr_recovery_floor_sub x s f) = max (unat f) (unat x - unat s)"
  by (auto simp: tcp_shift_bbr_recovery_floor_sub_def word_le_nat_alt word_less_nat_alt unat_sub_if' max_def)

lemma unat_sat_add_limit:
  "unat (tcp_shift_bbr_recovery_sat_add_limit a b l) = min (unat l) (unat a + unat b)"
  unfolding tcp_shift_bbr_recovery_sat_add_limit_def by (rule unat_capped_add_u32)

end
