(* ===== verification/Bbr_Controller.thy ===== *)
theory Bbr_Controller
  imports Bbr_Filters Bbr_Probe Bbr_Recovery
begin

text \<open>
  The lifecycle of the compact BBR controller, \<^verbatim>\<open>src/cc/bbr_controller.h\<close> and
  \<^verbatim>\<open>src/cc/bbr_controller.c\<close>, which composes the estimator, the probe modes and the recovery
  episode. Every operation returns its code, the state and the policy as the code leaves them,
  also on the paths that return an error after writing part of the state. Reachable states are
  an inductive relation over the operations.
\<close>

record tcp_shift_bbr_controller_state =
  bbr_model :: tcp_shift_bbr_model
  bbr_probe :: tcp_shift_bbr_probe_state
  bbr_recovery :: tcp_shift_bbr_recovery_state
  bbr_pacing_rate_bytes_per_sec :: u64
  bbr_delivered_bytes :: u64
  bbr_initial_cwnd_bytes :: u32
  bbr_cwnd_bytes :: u32
  pending_probe_loss_bytes :: u32
  has_seen_rtt :: bool
  bbr_initialized :: bool

record tcp_shift_bbr_timeout_observation =
  post_loss_inflight_bytes :: u32

type_synonym bbr_result = "int \<times> tcp_shift_bbr_controller_state \<times> tcp_shift_cc_policy"

definition tcp_shift_bbr_controller_valid_transport :: "tcp_shift_cc_transport \<Rightarrow> bool" where
  "tcp_shift_bbr_controller_valid_transport transport \<longleftrightarrow>
    mss_bytes transport \<noteq> 0 \<and> cwnd_limit_bytes transport \<ge> mss_bytes transport"

definition tcp_shift_bbr_controller_add_limit :: "u32 \<Rightarrow> u32 \<Rightarrow> u32 \<Rightarrow> u32" where
  "tcp_shift_bbr_controller_add_limit a b limit =
    (if a \<ge> limit \<or> b > limit - a then limit else a + b)"

definition tcp_shift_bbr_controller_publish ::
    "tcp_shift_bbr_controller_state \<Rightarrow> tcp_shift_cc_transport \<Rightarrow> tcp_shift_cc_policy \<Rightarrow> tcp_shift_cc_policy" where
  "tcp_shift_bbr_controller_publish state transport policy =
    policy\<lparr>cwnd_bytes := bbr_cwnd_bytes state, ssthresh_bytes := cwnd_limit_bytes transport,
           pacing_rate_bytes_per_sec := bbr_pacing_rate_bytes_per_sec state\<rparr>"

definition tcp_shift_bbr_controller_init ::
    "tcp_shift_bbr_controller_state \<Rightarrow> tcp_shift_cc_transport \<Rightarrow> tcp_shift_cc_init_config \<Rightarrow> u32 \<Rightarrow>
     tcp_shift_cc_policy \<Rightarrow> bbr_result" where
  "tcp_shift_bbr_controller_init state transport config seed policy =
    (if \<not> tcp_shift_bbr_controller_valid_transport transport \<or> initial_cwnd_bytes config = 0 \<or>
        initial_cwnd_bytes config > cwnd_limit_bytes transport \<or> init_min_cwnd_bytes config = 0 \<or>
        init_min_cwnd_bytes config > cwnd_limit_bytes transport
     then (-1, state, policy)
     else
       let state = state\<lparr>bbr_model := tcp_shift_bbr_model_init, bbr_probe := tcp_shift_bbr_probe_state_init seed,
             bbr_recovery := tcp_shift_bbr_recovery_init, bbr_initial_cwnd_bytes := initial_cwnd_bytes config,
             bbr_cwnd_bytes := initial_cwnd_bytes config, pending_probe_loss_bytes := 0,
             bbr_delivered_bytes := 0, has_seen_rtt := False\<rparr>;
           initial_rate = tcp_shift_bbr_initial_pacing_rate_bytes_per_sec (initial_cwnd_bytes config) 0
       in if initial_rate = 0 then (-1, state, policy)
          else
            let state = state\<lparr>bbr_pacing_rate_bytes_per_sec := initial_rate, bbr_initialized := True\<rparr>
            in (0, state, tcp_shift_bbr_controller_publish state transport policy))"

text \<open>
  The stages of an ACK, in the order of \<^verbatim>\<open>tcp_shift_bbr_controller_on_ack\<close>: the one-shot
  replacement of the bootstrap rate, the recovery window, the mode machine and the policy of the
  final mode.
\<close>

definition bbr_seed_rate ::
    "tcp_shift_bbr_controller_state \<Rightarrow> tcp_shift_cc_ack \<Rightarrow> int \<times> tcp_shift_bbr_controller_state" where
  "bbr_seed_rate state ack =
    (if \<not> has_seen_rtt state \<and> smoothed_rtt_ns ack \<noteq> 0 then
       let rtt_rate = tcp_shift_bbr_initial_pacing_rate_bytes_per_sec (bbr_cwnd_bytes state) (smoothed_rtt_ns ack)
       in if rtt_rate = 0 then (-1, state)
          else (0, state\<lparr>bbr_pacing_rate_bytes_per_sec := rtt_rate, has_seen_rtt := True\<rparr>)
     else (0, state))"

definition bbr_recovery_window ::
    "tcp_shift_bbr_controller_state \<Rightarrow> tcp_shift_cc_transport \<Rightarrow> tcp_shift_cc_ack \<Rightarrow>
     int \<times> tcp_shift_bbr_controller_state \<times> u32 \<times> u32 \<times> bool" where
  "bbr_recovery_window state transport ack =
    (if in_recovery (bbr_recovery state) then
       let (result, recovery, recovery_cwnd, owns) =
             tcp_shift_bbr_recovery_on_ack (bbr_recovery state) (bbr_cwnd_bytes state)
               (inflight_bytes transport) (acked_bytes ack) 0 (mss_bytes transport)
               (cwnd_limit_bytes transport) (round_start (bbr_model state)) 0 False;
           state = state\<lparr>bbr_recovery := recovery\<rparr>
       in (result, state, recovery_cwnd, recovery_cwnd, owns)
     else (0, state, bbr_cwnd_bytes state, 0, False))"

definition bbr_mode_machine ::
    "tcp_shift_bbr_controller_state \<Rightarrow> tcp_shift_cc_transport \<Rightarrow> tcp_shift_cc_ack \<Rightarrow> u32 \<Rightarrow> u32 \<Rightarrow>
     int \<times> tcp_shift_bbr_controller_state \<times> u32" where
  "bbr_mode_machine state transport ack current_cwnd probe_loss =
    (let (result, model) = tcp_shift_bbr_model_check_drain (bbr_model state) (ack_rate ack);
         state = state\<lparr>bbr_model := model\<rparr>
     in if result < 0 then (-1, state, current_cwnd)
        else
          let (result, model, probe) = tcp_shift_bbr_probe_rtt_update (bbr_model state) (bbr_probe state)
                transport (ack_rate ack) current_cwnd (ack_time_ns ack);
              state = state\<lparr>bbr_model := model, bbr_probe := probe\<rparr>
          in if result < 0 then (-1, state, current_cwnd)
             else
               let current_cwnd = (if result > 0
                     then tcp_shift_bbr_probe_rtt_restore_cwnd_bytes (bbr_probe state) current_cwnd
                            (cwnd_limit_bytes transport)
                     else current_cwnd)
               in if result > 0 \<and> current_cwnd = 0 then (-1, state, current_cwnd)
                  else if mode (bbr_model state) = MODE_PROBE_BW then
                    let (result, probe) = tcp_shift_bbr_probe_bw_update (bbr_model state) (bbr_probe state)
                          (ack_rate ack) probe_loss (ack_time_ns ack);
                        state = state\<lparr>bbr_probe := probe\<rparr>
                    in if result < 0 then (-1, state, current_cwnd) else (0, state, current_cwnd)
                  else (0, state, current_cwnd))"

definition bbr_mode_policy ::
    "tcp_shift_bbr_controller_state \<Rightarrow> tcp_shift_cc_transport \<Rightarrow> tcp_shift_cc_ack \<Rightarrow> u32 \<Rightarrow>
     tcp_shift_cc_policy \<Rightarrow> int \<times> tcp_shift_cc_policy" where
  "bbr_mode_policy state transport ack current_cwnd policy =
    (case mode (bbr_model state) of
       MODE_STARTUP \<Rightarrow> tcp_shift_bbr_startup_policy (bbr_model state) transport ack
         (bbr_initial_cwnd_bytes state) current_cwnd (bbr_pacing_rate_bytes_per_sec state) policy
     | MODE_DRAIN \<Rightarrow> tcp_shift_bbr_drain_policy (bbr_model state) transport ack current_cwnd policy
     | MODE_PROBE_BW \<Rightarrow> tcp_shift_bbr_probe_bw_policy (bbr_model state) (bbr_probe state) transport ack
         current_cwnd policy
     | MODE_PROBE_RTT \<Rightarrow> tcp_shift_bbr_probe_rtt_policy (bbr_model state) (bbr_probe state) transport policy)"

definition bbr_ack_modes ::
    "tcp_shift_bbr_controller_state \<Rightarrow> tcp_shift_cc_transport \<Rightarrow> tcp_shift_cc_ack \<Rightarrow> u32 \<Rightarrow> u32 \<Rightarrow> u32 \<Rightarrow> bool \<Rightarrow>
     tcp_shift_cc_policy \<Rightarrow> bbr_result" where
  "bbr_ack_modes state transport ack probe_loss current_cwnd recovery_cwnd owns policy =
    (case bbr_mode_machine state transport ack current_cwnd probe_loss of
       (result, state, current_cwnd) \<Rightarrow>
         if result < 0 then (-1, state, policy)
         else
           (case bbr_mode_policy state transport ack current_cwnd policy of
              (result, policy) \<Rightarrow>
                if result < 0 \<or> cwnd_bytes policy = 0 \<or> cwnd_bytes policy > cwnd_limit_bytes transport \<or>
                   pacing_rate_bytes_per_sec policy = 0
                then (-1, state, policy)
                else
                  let policy = (if owns then policy\<lparr>cwnd_bytes := recovery_cwnd\<rparr> else policy)
                  in (0, state\<lparr>bbr_cwnd_bytes := cwnd_bytes policy,
                               bbr_pacing_rate_bytes_per_sec := pacing_rate_bytes_per_sec policy,
                               pending_probe_loss_bytes := 0\<rparr>, policy)))"

definition tcp_shift_bbr_controller_on_ack ::
    "tcp_shift_bbr_controller_state \<Rightarrow> tcp_shift_cc_transport \<Rightarrow> tcp_shift_cc_ack \<Rightarrow>
     tcp_shift_cc_policy \<Rightarrow> bbr_result" where
  "tcp_shift_bbr_controller_on_ack state transport ack policy =
    (if \<not> bbr_initialized state \<or> acked_bytes ack = 0 \<or> ack_time_ns ack = 0 \<or>
        \<not> tcp_shift_bbr_controller_valid_transport transport \<or> bbr_cwnd_bytes state = 0 \<or>
        bbr_cwnd_bytes state > cwnd_limit_bytes transport
     then (-1, state, policy)
     else
       case bbr_seed_rate state ack of (result, state) \<Rightarrow>
         if result < 0 then (-1, state, policy)
         else
           case tcp_shift_bbr_model_on_ack (bbr_model state) (ack_rate ack) (ack_time_ns ack) of (result, model) \<Rightarrow>
             let probe_loss = pending_probe_loss_bytes state;
                 state = state\<lparr>bbr_model := model\<rparr>
             in if result < 0 then (-1, state, policy)
                else
                  let state = (if delivered_total_bytes (ack_rate ack) > bbr_delivered_bytes state
                               then state\<lparr>bbr_delivered_bytes := delivered_total_bytes (ack_rate ack)\<rparr> else state)
                  in case bbr_recovery_window state transport ack of
                       (result, state, current_cwnd, recovery_cwnd, owns) \<Rightarrow>
                         if result < 0 then (-1, state, policy)
                         else bbr_ack_modes state transport ack probe_loss current_cwnd recovery_cwnd owns policy)"

section \<open>Loss, recovery and timeout\<close>

definition tcp_shift_bbr_controller_note_loss ::
    "tcp_shift_bbr_controller_state \<Rightarrow> u32 \<Rightarrow> int \<times> tcp_shift_bbr_controller_state" where
  "tcp_shift_bbr_controller_note_loss state lost =
    (if \<not> bbr_initialized state \<or> lost = 0 then (-1, state)
     else if pending_probe_loss_bytes state > UINT32_MAX - lost
     then (0, state\<lparr>pending_probe_loss_bytes := UINT32_MAX\<rparr>)
     else (0, state\<lparr>pending_probe_loss_bytes := pending_probe_loss_bytes state + lost\<rparr>))"

definition tcp_shift_bbr_controller_recovery_enter ::
    "tcp_shift_bbr_controller_state \<Rightarrow> tcp_shift_cc_transport \<Rightarrow> u32 \<Rightarrow> u32 \<Rightarrow>
     tcp_shift_cc_policy \<Rightarrow> bbr_result" where
  "tcp_shift_bbr_controller_recovery_enter state transport acked lost policy =
    (if \<not> bbr_initialized state \<or> lost = 0 \<or> \<not> tcp_shift_bbr_controller_valid_transport transport \<or>
        bbr_cwnd_bytes state = 0 \<or> bbr_cwnd_bytes state > cwnd_limit_bytes transport
     then (-1, state, policy)
     else
       let state = state\<lparr>bbr_model := (bbr_model state)\<lparr>next_round_delivered := bbr_delivered_bytes state,
                           round_start := False\<rparr>,
                         pending_probe_loss_bytes := lost\<rparr>;
           (result, recovery, cwnd) = tcp_shift_bbr_recovery_enter (bbr_recovery state) (bbr_cwnd_bytes state)
             (inflight_bytes transport) acked lost (mss_bytes transport) (cwnd_limit_bytes transport) 0;
           state = state\<lparr>bbr_recovery := recovery\<rparr>
       in if result < 0 then (-1, state, policy)
          else
            let state = state\<lparr>bbr_cwnd_bytes := cwnd\<rparr>
            in (0, state, tcp_shift_bbr_controller_publish state transport policy))"

definition tcp_shift_bbr_controller_recovery_note_loss ::
    "tcp_shift_bbr_controller_state \<Rightarrow> tcp_shift_cc_transport \<Rightarrow> u32 \<Rightarrow> tcp_shift_cc_policy \<Rightarrow> bbr_result" where
  "tcp_shift_bbr_controller_recovery_note_loss state transport lost policy =
    (if \<not> bbr_initialized state \<or> \<not> in_recovery (bbr_recovery state) \<or> lost = 0 \<or>
        \<not> tcp_shift_bbr_controller_valid_transport transport \<or>
        bbr_cwnd_bytes state < mss_bytes transport \<or> bbr_cwnd_bytes state > cwnd_limit_bytes transport
     then (-1, state, policy)
     else
       let (result, state) = tcp_shift_bbr_controller_note_loss state lost
       in if result \<noteq> 0 then (-1, state, policy)
          else
            let cwnd = bbr_cwnd_bytes state;
                cwnd = (if lost \<ge> cwnd \<or> cwnd - lost < mss_bytes transport
                        then mss_bytes transport else cwnd - lost);
                state = state\<lparr>bbr_cwnd_bytes := cwnd\<rparr>
            in (0, state, tcp_shift_bbr_controller_publish state transport policy))"

definition tcp_shift_bbr_controller_recovery_exit ::
    "tcp_shift_bbr_controller_state \<Rightarrow> tcp_shift_cc_transport \<Rightarrow> tcp_shift_cc_policy \<Rightarrow> bbr_result" where
  "tcp_shift_bbr_controller_recovery_exit state transport policy =
    (if \<not> bbr_initialized state \<or> \<not> tcp_shift_bbr_controller_valid_transport transport \<or>
        bbr_cwnd_bytes state = 0 \<or> bbr_cwnd_bytes state > cwnd_limit_bytes transport
     then (-1, state, policy)
     else
       let (result, recovery, cwnd) = tcp_shift_bbr_recovery_exit (bbr_recovery state) (bbr_cwnd_bytes state)
             (cwnd_limit_bytes transport) 0;
           state = state\<lparr>bbr_recovery := recovery\<rparr>
       in if result < 0 then (-1, state, policy)
          else
            let state = state\<lparr>bbr_cwnd_bytes := cwnd, pending_probe_loss_bytes := 0\<rparr>
            in (0, state, tcp_shift_bbr_controller_publish state transport policy))"

definition tcp_shift_bbr_controller_on_timeout ::
    "tcp_shift_bbr_controller_state \<Rightarrow> tcp_shift_cc_transport \<Rightarrow> tcp_shift_bbr_timeout_observation \<Rightarrow>
     tcp_shift_cc_policy \<Rightarrow> bbr_result" where
  "tcp_shift_bbr_controller_on_timeout state transport observation policy =
    (if \<not> bbr_initialized state \<or> \<not> tcp_shift_bbr_controller_valid_transport transport \<or>
        bbr_cwnd_bytes state = 0 \<or> bbr_cwnd_bytes state > cwnd_limit_bytes transport
     then (-1, state, policy)
     else
       let state = state\<lparr>bbr_model := (bbr_model state)\<lparr>full_bw_bytes_per_sec := 0, full_bw_now := False,
                           round_start := True\<rparr>,
                         pending_probe_loss_bytes := 0, bbr_recovery := tcp_shift_bbr_recovery_init\<rparr>;
           cwnd = tcp_shift_bbr_controller_add_limit (post_loss_inflight_bytes observation)
                    (mss_bytes transport) (cwnd_limit_bytes transport);
           cwnd = (if cwnd < mss_bytes transport then mss_bytes transport else cwnd);
           state = state\<lparr>bbr_cwnd_bytes := cwnd\<rparr>
       in (0, state, tcp_shift_bbr_controller_publish state transport policy))"

end
