(* ===== verification/Bbr_Invariants.thy ===== *)
theory Bbr_Invariants
  imports Bbr_Controller
begin

text \<open>
  The lifecycle invariant of the compact BBR controller of theory \<open>Bbr_Controller\<close>. The estimator and
  the mode machine keep the modes coherent with what has been measured; each mode's policy
  publishes a window between the four-packet minimum and the transport's limit; and every
  operation keeps the controller's window usable. From these follow that an ACK is refused only
  when the bandwidth estimate is too small to pace at, and that a recovery episode gives back the
  window it took.
\<close>

section \<open>The estimator and the modes\<close>

definition model_ok :: "tcp_shift_bbr_model \<Rightarrow> bool" where
  "model_ok m \<longleftrightarrow>
    length (max_bw_filter m) = 10 \<and> (full_bw_reached m \<longrightarrow> max_bw_bytes_per_sec m \<noteq> 0) \<and>
    (has_probe_rtt_min m \<longrightarrow> probe_rtt_min_delay_ns m \<noteq> 0) \<and> (has_min_rtt m \<longrightarrow> min_rtt_ns m \<noteq> 0) \<and>
    (min_rtt_expired m \<longrightarrow> has_min_rtt m) \<and>
    (mode m = MODE_DRAIN \<longrightarrow> full_bw_reached m) \<and>
    (mode m = MODE_PROBE_BW \<longrightarrow> full_bw_reached m \<and> has_min_rtt m) \<and>
    (mode m = MODE_PROBE_RTT \<longrightarrow> has_min_rtt m)"

lemma model_ok_init: "model_ok tcp_shift_bbr_model_init"
  by (simp add: model_ok_def tcp_shift_bbr_model_init_def)

text \<open>A change of mode, and the fields the invariant does not read.\<close>

lemma model_ok_mode:
  assumes "model_ok m" and "x = MODE_DRAIN \<Longrightarrow> full_bw_reached m"
    and "x = MODE_PROBE_BW \<Longrightarrow> full_bw_reached m \<and> has_min_rtt m" and "x = MODE_PROBE_RTT \<Longrightarrow> has_min_rtt m"
  shows "model_ok (m\<lparr>mode := x\<rparr>)"
  using assms by (simp add: model_ok_def)

lemma model_okD:
  assumes "model_ok m"
  shows "full_bw_reached m \<Longrightarrow> max_bw_bytes_per_sec m \<noteq> 0" and "has_min_rtt m \<Longrightarrow> min_rtt_ns m \<noteq> 0"
    and "min_rtt_expired m \<Longrightarrow> has_min_rtt m" and "mode m = MODE_DRAIN \<Longrightarrow> full_bw_reached m"
    and "mode m = MODE_PROBE_BW \<Longrightarrow> full_bw_reached m \<and> has_min_rtt m"
    and "mode m = MODE_PROBE_RTT \<Longrightarrow> has_min_rtt m"
  using assms by (simp_all add: model_ok_def)

lemma model_ok_frame [simp]:
  "model_ok (m\<lparr>next_round_delivered := d\<rparr>) = model_ok m" "model_ok (m\<lparr>round_start := b\<rparr>) = model_ok m"
  "model_ok (m\<lparr>full_bw_now := b\<rparr>) = model_ok m" "model_ok (m\<lparr>full_bw_bytes_per_sec := d\<rparr>) = model_ok m"
  "model_ok (m\<lparr>min_rtt_stamp_ns := d\<rparr>) = model_ok m"
  by (simp_all add: model_ok_def)

lemma model_ok_not_expired: "model_ok m \<Longrightarrow> model_ok (m\<lparr>min_rtt_stamp_ns := d, min_rtt_expired := False\<rparr>)"
  by (simp add: model_ok_def)

lemma model_ok_update_round: "model_ok (tcp_shift_bbr_update_round m sample) = model_ok m"
  by (simp add: model_ok_def tcp_shift_bbr_update_round_def Let_def)

lemma length_clear_slots [simp]: "length (clear_slots slots r n) = length slots"
  by (induction n) simp_all

lemma age_filter_length [simp]: "length (max_bw_filter (tcp_shift_bbr_age_bw_filter m r)) = length (max_bw_filter m)"
  by (simp add: tcp_shift_bbr_age_bw_filter_def tcp_shift_bbr_recompute_max_bw_def Let_def)

text \<open>The fields that the bandwidth filter does not touch.\<close>

definition bw_frame :: "tcp_shift_bbr_model \<Rightarrow> tcp_shift_bbr_mode \<times> bool \<times> bool \<times> bool \<times> bool \<times> u64 \<times> u64 \<times> bool \<times> u64 \<times> bool" where
  "bw_frame m = (mode m, full_bw_reached m, has_probe_rtt_min m, has_min_rtt m, min_rtt_expired m,
     probe_rtt_min_delay_ns m, min_rtt_ns m, round_start m, last_update_ns m, has_update_time m)"

lemma bw_frame_upd [simp]:
  "bw_frame (m\<lparr>max_bw_filter := a\<rparr>) = bw_frame m" "bw_frame (m\<lparr>bw_filter_round := r\<rparr>) = bw_frame m"
  "bw_frame (m\<lparr>has_bw_filter_round := b\<rparr>) = bw_frame m" "bw_frame (m\<lparr>accepted_bw_samples := c\<rparr>) = bw_frame m"
  "bw_frame (m\<lparr>valid_rate_samples := c\<rparr>) = bw_frame m" "bw_frame (m\<lparr>max_bw_bytes_per_sec := c\<rparr>) = bw_frame m"
  "bw_frame (m\<lparr>ignored_app_limited_bw_samples := c\<rparr>) = bw_frame m"
  by (simp_all add: bw_frame_def)

lemma bw_frame_update [simp]: "bw_frame (tcp_shift_bbr_update_max_bw m sample) = bw_frame m"
  by (simp add: tcp_shift_bbr_update_max_bw_def tcp_shift_bbr_age_bw_filter_def
      tcp_shift_bbr_recompute_max_bw_def Let_def)

lemma update_max_bw_length [simp]:
  "length (max_bw_filter (tcp_shift_bbr_update_max_bw m sample)) = length (max_bw_filter m)"
  by (simp add: tcp_shift_bbr_update_max_bw_def tcp_shift_bbr_recompute_max_bw_def Let_def)

text \<open>An admitted sample leaves a nonzero estimate, and no other sample changes it.\<close>

lemma update_max_bw_nonzero:
  assumes len: "length (max_bw_filter m) = 10" and adm: "bw_admitted m sample"
  shows "max_bw_bytes_per_sec (tcp_shift_bbr_update_max_bw m sample) \<noteq> 0"
proof -
  define m1 where "m1 = m\<lparr>valid_rate_samples := valid_rate_samples m + 1\<rparr>"
  define a where "a = tcp_shift_bbr_age_bw_filter m1 (round_count m1)"
  let ?v = "delivery_rate_bytes_per_sec sample"
  define slot where "slot = unat (round_count a mod TCP_SHIFT_BBR_MAX_BW_FILTER_ROUNDS)"
  define n where "n = (if ?v > max_bw_filter a ! slot then a\<lparr>max_bw_filter := (max_bw_filter a)[slot := ?v]\<rparr> else a)"
  have c: "\<not> (\<not> has_flag sample TCP_SHIFT_CC_RATE_SAMPLE_VALID \<or> ?v = 0)"
    "\<not> (has_flag sample TCP_SHIFT_CC_RATE_SAMPLE_APP_LIMITED \<and> ?v < max_bw_bytes_per_sec m1)"
    using adm by (auto simp: bw_admitted_def m1_def)
  have eq: "tcp_shift_bbr_update_max_bw m sample =
      tcp_shift_bbr_recompute_max_bw (n\<lparr>accepted_bw_samples := accepted_bw_samples n + 1\<rparr>)"
    unfolding tcp_shift_bbr_update_max_bw_def Let_def if_not_P [OF c(1)] m1_def [symmetric]
      if_not_P [OF c(2)] a_def [symmetric] slot_def n_def ..
  have slot: "slot < length (max_bw_filter a)" "length (max_bw_filter n) = length (max_bw_filter a)"
    using len by (simp_all add: slot_def a_def m1_def n_def unat_mod_distrib bbr_const_defs)
  have v: "unat ?v \<le> unat (max_bw_filter n ! slot)"
    using slot(1) by (simp add: n_def word_less_nat_alt)
  have "unat ?v \<noteq> 0" using c(1) by (simp add: word_zero_nat)
  moreover have "max_bw_filter n ! slot \<in> set (max_bw_filter n)" using slot by simp
  then have "unat (max_bw_filter n ! slot) \<le> unat (foldl tcp_shift_bbr_max_u64 0 (max_bw_filter n))"
    by (intro foldl_max_upper) simp
  ultimately show ?thesis using v unfolding eq by (auto simp: tcp_shift_bbr_recompute_max_bw_def)
qed

lemma update_max_bw_same:
  assumes "\<not> bw_admitted m sample"
  shows "max_bw_bytes_per_sec (tcp_shift_bbr_update_max_bw m sample) = max_bw_bytes_per_sec m"
proof (cases "\<not> has_flag sample TCP_SHIFT_CC_RATE_SAMPLE_VALID \<or> delivery_rate_bytes_per_sec sample = 0")
  case False
  then have "has_flag sample TCP_SHIFT_CC_RATE_SAMPLE_APP_LIMITED \<and>
      delivery_rate_bytes_per_sec sample < max_bw_bytes_per_sec m"
    using assms by (auto simp: bw_admitted_def)
  then show ?thesis using False by (simp add: tcp_shift_bbr_update_max_bw_def)
qed (simp add: tcp_shift_bbr_update_max_bw_def)

lemma model_ok_update_max_bw:
  assumes "model_ok m"
  shows "model_ok (tcp_shift_bbr_update_max_bw m sample)"
    and "bw_admitted m sample \<Longrightarrow> max_bw_bytes_per_sec (tcp_shift_bbr_update_max_bw m sample) \<noteq> 0"
proof -
  let ?n = "tcp_shift_bbr_update_max_bw m sample"
  have f: "bw_frame ?n = bw_frame m" "length (max_bw_filter m) = 10" using assms by (simp_all add: model_ok_def)
  show "bw_admitted m sample \<Longrightarrow> max_bw_bytes_per_sec ?n \<noteq> 0" by (rule update_max_bw_nonzero [OF f(2)])
  then have "max_bw_bytes_per_sec ?n \<noteq> 0" if "max_bw_bytes_per_sec m \<noteq> 0"
    using that update_max_bw_same [of m sample] by (cases "bw_admitted m sample") auto
  then show "model_ok ?n" using assms f(1) unfolding model_ok_def bw_frame_def by simp
qed

lemma model_ok_full_bw:
  assumes "model_ok m" and "full_pipe_counted m sample \<Longrightarrow> max_bw_bytes_per_sec m \<noteq> 0"
    and "n = tcp_shift_bbr_check_startup_full_bw m sample"
  shows "model_ok n" and "last_update_ns n = last_update_ns m" and "has_update_time n = has_update_time m"
proof -
  have e: "max_bw_filter n = max_bw_filter m" "max_bw_bytes_per_sec n = max_bw_bytes_per_sec m"
    "has_probe_rtt_min n = has_probe_rtt_min m" "probe_rtt_min_delay_ns n = probe_rtt_min_delay_ns m"
    "has_min_rtt n = has_min_rtt m" "min_rtt_ns n = min_rtt_ns m" "min_rtt_expired n = min_rtt_expired m"
    "mode n = mode m"
    by (simp_all add: assms(3) tcp_shift_bbr_check_startup_full_bw_def Let_def)
  show "last_update_ns n = last_update_ns m" "has_update_time n = has_update_time m"
    by (simp_all add: assms(3) tcp_shift_bbr_check_startup_full_bw_def Let_def)
  have "full_bw_reached n \<longrightarrow> full_bw_reached m \<or> full_pipe_counted m sample"
    by (simp add: assms(3) tcp_shift_bbr_check_startup_full_bw_def full_pipe_counted_def Let_def)
  moreover have "full_bw_reached m \<longrightarrow> full_bw_reached n"
    by (simp add: assms(3) tcp_shift_bbr_check_startup_full_bw_def Let_def)
  ultimately show "model_ok n" using assms(1,2) unfolding model_ok_def e by auto
qed

lemma model_ok_min_rtt:
  assumes "model_ok m" and "n = tcp_shift_bbr_update_min_rtt m sample now"
  shows "model_ok n" and "last_update_ns n = last_update_ns m" and "has_update_time n = has_update_time m"
proof -
  have e: "max_bw_filter n = max_bw_filter m" "max_bw_bytes_per_sec n = max_bw_bytes_per_sec m"
    "full_bw_reached n = full_bw_reached m" "mode n = mode m"
    by (simp_all add: assms(2) tcp_shift_bbr_update_min_rtt_def Let_def)
  show "last_update_ns n = last_update_ns m" "has_update_time n = has_update_time m"
    by (simp_all add: assms(2) tcp_shift_bbr_update_min_rtt_def Let_def)
  show "model_ok n"
  proof (cases "rtt_admitted sample")
    case False
    then have "n = m\<lparr>probe_rtt_expired := False, min_rtt_expired := False\<rparr>"
      by (simp add: assms(2) tcp_shift_bbr_update_min_rtt_def rtt_admitted_def)
    then show ?thesis using assms(1) by (simp add: model_ok_def)
  next
    case True
    note v = update_min_rtt_view [OF True refl refl refl, of m now, folded assms(2), unfolded rtt_view_def]
    have r: "rtt_ns sample \<noteq> 0" using True by (simp add: rtt_admitted_def)
    have h: "has_min_rtt n" "has_probe_rtt_min n" using v by auto
    have p: "probe_rtt_min_delay_ns n \<noteq> 0" using v r assms(1) by (auto simp: model_ok_def split: if_splits)
    have "min_rtt_ns n = probe_rtt_min_delay_ns n \<or> (has_min_rtt m \<and> min_rtt_ns n = min_rtt_ns m)"
      using v by (auto split: if_splits)
    then have "min_rtt_ns n \<noteq> 0" using p assms(1) by (auto simp: model_ok_def)
    then show ?thesis using assms(1) h p unfolding model_ok_def e by auto
  qed
qed

lemma model_ok_on_ack:
  assumes "model_ok m" and "tcp_shift_bbr_model_on_ack m sample now = (rc, n)"
  shows "model_ok n" and "rc = 0 \<or> rc = -1" and "rc = 0 \<Longrightarrow> last_update_ns n = now \<and> has_update_time n"
    and "rc \<noteq> 0 \<Longrightarrow> n = m \<and> has_update_time m \<and> now < last_update_ns m"
proof -
  define u where "u = tcp_shift_bbr_update_round (m\<lparr>last_update_ns := now, has_update_time := True\<rparr>) sample"
  define w where "w = tcp_shift_bbr_update_max_bw u sample"
  define f where "f = tcp_shift_bbr_check_startup_full_bw w sample"
  have u: "model_ok u" "last_update_ns u = now" "has_update_time u"
    using assms(1) unfolding u_def model_ok_update_round
    by (simp_all add: model_ok_def tcp_shift_bbr_update_round_def Let_def)
  have "bw_frame w = bw_frame u" by (simp add: w_def)
  then have w: "model_ok w" "last_update_ns w = now" "has_update_time w"
    using model_ok_update_max_bw(1) [OF u(1)] u(2,3) by (simp_all add: w_def bw_frame_def)
  have "max_bw_bytes_per_sec w \<noteq> 0" if "full_pipe_counted w sample"
    using that model_ok_update_max_bw(2) [OF u(1), of sample]
    by (simp add: w_def full_pipe_counted_def bw_admitted_def)
  note f = model_ok_full_bw [OF w(1) this f_def]
  note r = model_ok_min_rtt [OF f(1) refl, of sample now]
  consider "rc = -1" "n = m" "has_update_time m" "now < last_update_ns m"
    | "rc = 0" "n = tcp_shift_bbr_update_min_rtt f sample now"
    using assms(2) unfolding tcp_shift_bbr_model_on_ack_def Let_def f_def w_def u_def
    by (cases "has_update_time m \<and> now < last_update_ns m") simp_all
  then show "model_ok n" "rc = 0 \<or> rc = -1" "rc = 0 \<Longrightarrow> last_update_ns n = now \<and> has_update_time n"
    "rc \<noteq> 0 \<Longrightarrow> n = m \<and> has_update_time m \<and> now < last_update_ns m"
    using assms(1) r f(2,3) w(2,3) by (cases; simp)+
qed

lemma model_ok_check_drain:
  assumes "model_ok m" and "tcp_shift_bbr_model_check_drain m sample = (rc, n)"
  shows "model_ok n" and "rc = 0" and "last_update_ns n = last_update_ns m" and "has_update_time n = has_update_time m"
    and "max_bw_bytes_per_sec n = max_bw_bytes_per_sec m"
proof -
  define d where "d = (if mode m = MODE_STARTUP \<and> full_bw_reached m then m\<lparr>mode := MODE_DRAIN\<rparr> else m)"
  have d: "model_ok d" using assms(1) unfolding d_def by (auto intro!: model_ok_mode)
  have e: "last_update_ns d = last_update_ns m" "has_update_time d = has_update_time m"
    "max_bw_bytes_per_sec d = max_bw_bytes_per_sec m"
    by (simp_all add: d_def)
  define d' where "d' = d\<lparr>mode := MODE_PROBE_BW\<rparr>"
  define b where "b = tcp_shift_bbr_bdp_bytes (max_bw_bytes_per_sec d) (min_rtt_ns d)"
  define g where "g = (mode d \<noteq> MODE_DRAIN \<or> \<not> has_flag sample TCP_SHIFT_CC_RATE_SAMPLE_VALID \<or>
           max_bw_bytes_per_sec d = 0 \<or> \<not> has_min_rtt d \<or> min_rtt_ns d = 0)"
  have "(rc, n) = (if g then (0, d) else if b = 0 then (0, d)
      else if u64_of (prior_inflight_bytes sample) \<le> b then (0, d') else (0, d))"
    unfolding assms(2) [symmetric] tcp_shift_bbr_model_check_drain_def Let_def d_def [symmetric] b_def [symmetric]
      g_def [symmetric] d'_def [symmetric] ..
  then have r: "rc = 0" "n = d \<or> \<not> g \<and> n = d'" by (simp_all split: if_splits)
  have "model_ok d'" if "\<not> g"
    using that d model_okD(4) [OF d] unfolding d'_def g_def by (intro model_ok_mode) auto
  then show "model_ok n" using r(2) d by auto
  show "rc = 0" "last_update_ns n = last_update_ns m" "has_update_time n = has_update_time m"
    "max_bw_bytes_per_sec n = max_bw_bytes_per_sec m"
    using r e by (auto simp: d'_def)
qed

text \<open>The probe state's clock: a running cycle started no later than the last ACK.\<close>

definition cycle_ok :: "tcp_shift_bbr_model \<Rightarrow> tcp_shift_bbr_probe_state \<Rightarrow> bool" where
  "cycle_ok m st \<longleftrightarrow> (cycle_started st \<longrightarrow> has_update_time m \<and> cycle_start_ns st \<le> last_update_ns m)"

lemma probe_rtt_update_ok:
  assumes "model_ok m" and "cycle_ok m st" and "has_update_time m" and "last_update_ns m = now"
    and "mss_bytes t \<noteq> 0" and "mss_bytes t \<le> cwnd_limit_bytes t" and "0 < cwnd" and "cwnd \<le> cwnd_limit_bytes t"
    and u: "tcp_shift_bbr_probe_rtt_update m st t sample cwnd now = (rc, n, st')"
  shows "model_ok n \<and> cycle_ok n st' \<and> (rc = 0 \<or> rc = 1) \<and> last_update_ns n = now \<and> has_update_time n \<and>
    max_bw_bytes_per_sec n = max_bw_bytes_per_sec m" (is "?goal rc n st'")
proof -
  define e where "e = (if mode m \<noteq> MODE_PROBE_RTT \<and> min_rtt_expired m
    then (m\<lparr>mode := MODE_PROBE_RTT\<rparr>,
      (if cwnd > probe_rtt_prior_cwnd_bytes st then st\<lparr>probe_rtt_prior_cwnd_bytes := cwnd\<rparr> else st)
        \<lparr>probe_rtt_done_stamp_ns := 0, probe_rtt_round_done := False, cycle_started := False\<rparr>)
    else (m, st))"
  obtain m1 s1 where e: "e = (m1, s1)" by fastforce
  have m1: "model_ok m1" "cycle_ok m1 s1" "last_update_ns m1 = now" "has_update_time m1"
    "max_bw_bytes_per_sec m1 = max_bw_bytes_per_sec m"
  proof -
    show "model_ok m1" using assms(1) model_okD(3) [OF assms(1)] e
      by (auto simp: e_def intro!: model_ok_mode split: if_splits)
    show "cycle_ok m1 s1" using assms(2) e by (auto simp: e_def cycle_ok_def split: if_splits)
    show "last_update_ns m1 = now" "has_update_time m1" "max_bw_bytes_per_sec m1 = max_bw_bytes_per_sec m"
      using assms(3,4) e by (auto simp: e_def split: if_splits)
  qed
  have g: "\<not> (mss_bytes t = 0 \<or> cwnd_limit_bytes t = 0 \<or> cwnd_limit_bytes t < mss_bytes t \<or> cwnd = 0 \<or>
      cwnd > cwnd_limit_bytes t)"
    using assms(5-8) by (auto simp: word_le_nat_alt word_less_nat_alt word_zero_nat)
  define s2 where "s2 = (if round_start m1 then s1\<lparr>probe_rtt_round_done := True\<rparr> else s1)"
  define m3 where "m3 = m1\<lparr>min_rtt_stamp_ns := now, min_rtt_expired := False\<rparr>"
  define s3 where "s3 = s2\<lparr>probe_rtt_done_stamp_ns := 0, probe_rtt_round_done := False\<rparr>"
  have s2: "cycle_ok m1 s2" using m1(2) by (simp add: s2_def cycle_ok_def)
  have m3: "model_ok (m3\<lparr>mode := MODE_STARTUP\<rparr>)" "mode m1 = MODE_PROBE_RTT \<Longrightarrow> full_bw_reached m3 \<Longrightarrow>
      model_ok (m3\<lparr>mode := MODE_PROBE_BW\<rparr>)"
    using model_ok_not_expired [OF m1(1), of now] model_okD(6) [OF m1(1)]
    by (auto simp: m3_def intro!: model_ok_mode)
  have eq: "(rc, n, st') = (if mode m1 \<noteq> MODE_PROBE_RTT then (0, m1, s1)
     else if probe_rtt_done_stamp_ns s1 = 0 then
       (if prior_inflight_bytes sample \<le> tcp_shift_bbr_probe_min_cwnd_bytes t
        then (0, m1\<lparr>next_round_delivered := delivered_total_bytes sample\<rparr>,
              s1\<lparr>probe_rtt_done_stamp_ns := tcp_shift_bbr_probe_sat_add_u64 now TCP_SHIFT_BBR_PROBE_RTT_DURATION_NS,
                 probe_rtt_round_done := False\<rparr>)
        else (0, m1, s1))
     else if \<not> probe_rtt_round_done s2 \<or> now < probe_rtt_done_stamp_ns s2 then (0, m1, s2)
     else if full_bw_reached m3
          then (1, m3\<lparr>mode := MODE_PROBE_BW\<rparr>, tcp_shift_bbr_probe_bw_reset_cycle s3 now)
          else (1, m3\<lparr>mode := MODE_STARTUP\<rparr>, s3\<lparr>cycle_started := False\<rparr>))"
    unfolding u [symmetric] tcp_shift_bbr_probe_rtt_update_def if_not_P [OF g] Let_def e_def [symmetric] e
      prod.case s2_def m3_def s3_def ..
  have same: "?goal 0 m1 st2" if "st2 = s1 \<or> st2 = s2" for st2 using that m1 s2 by blast
  show ?thesis
  proof (cases "mode m1 = MODE_PROBE_RTT")
    case False
    then show ?thesis using eq same [of s1] by simp
  next
    case pr: True
    show ?thesis
    proof (cases "probe_rtt_done_stamp_ns s1 = 0")
      case True
      show ?thesis
      proof (cases "prior_inflight_bytes sample \<le> tcp_shift_bbr_probe_min_cwnd_bytes t")
        case low: True
        then have "rc = 0" "n = m1\<lparr>next_round_delivered := delivered_total_bytes sample\<rparr>"
          "st' = s1\<lparr>probe_rtt_done_stamp_ns := tcp_shift_bbr_probe_sat_add_u64 now TCP_SHIFT_BBR_PROBE_RTT_DURATION_NS,
                 probe_rtt_round_done := False\<rparr>" using eq pr True by simp_all
        then show ?thesis using m1 by (simp add: cycle_ok_def)
      qed (use eq pr True same [of s1] in simp)
    next
      case dwell: False
      show ?thesis
      proof (cases "\<not> probe_rtt_round_done s2 \<or> now < probe_rtt_done_stamp_ns s2")
        case True
        then show ?thesis using eq pr dwell same [of s2] by simp
      next
        case over: False
        note eq = eq [unfolded if_not_P [OF over]]
        show ?thesis
        proof (cases "full_bw_reached m3")
          case True
          then show ?thesis using eq pr dwell m1 m3
            by (simp add: m3_def cycle_ok_def tcp_shift_bbr_probe_bw_reset_cycle_def Let_def)
        next
          case False
          then show ?thesis using eq pr dwell m1 m3 by (simp add: m3_def cycle_ok_def)
        qed
      qed
    qed
  qed
qed

lemma probe_bw_update_ok:
  assumes "cycle_ok m st" and "has_update_time m" and "last_update_ns m = now"
    and u: "tcp_shift_bbr_probe_bw_update m st sample lost now = (rc, st')"
  shows "cycle_ok m st' \<and> rc = 0"
proof -
  have c: "cycle_ok m s1" if "s1 = st \<or> cycle_start_ns s1 = now" for s1
    using that assms(1-3) by (auto simp: cycle_ok_def)
  have "\<not> (cycle_started st \<and> now < cycle_start_ns st)" using assms(1,3) by (auto simp: cycle_ok_def)
  then have "cycle_ok m (snd (tcp_shift_bbr_probe_bw_update m st sample lost now)) \<and>
      fst (tcp_shift_bbr_probe_bw_update m st sample lost now) = 0"
    unfolding tcp_shift_bbr_probe_bw_update_def Let_def
    by (simp add: c tcp_shift_bbr_probe_bw_reset_cycle_def Let_def)
  then show ?thesis by (simp add: u)
qed

section \<open>The policies\<close>

text \<open>A window between the four-packet minimum and the limit; the last two steps of every policy
  establish it.\<close>

definition window_ok :: "tcp_shift_cc_transport \<Rightarrow> u32 \<Rightarrow> bool" where
  "window_ok t c \<longleftrightarrow> min (unat (cwnd_limit_bytes t)) (4 * unat (mss_bytes t)) \<le> unat c \<and> c \<le> cwnd_limit_bytes t"

definition clamp_window :: "u32 \<Rightarrow> u32 \<Rightarrow> u32 \<Rightarrow> u32" where
  "clamp_window minimum limit c =
    (let c = (if c < minimum then minimum else c) in if c > limit then limit else c)"

lemma clamp_window_ok:
  assumes "unat m = min (unat (cwnd_limit_bytes t)) (4 * unat (mss_bytes t))"
  shows "window_ok t (clamp_window m (cwnd_limit_bytes t) c)"
  using assms by (auto simp: window_ok_def clamp_window_def Let_def word_le_nat_alt word_less_nat_alt)

lemma window_ok_bounds:
  assumes "window_ok t c" and "mss_bytes t \<noteq> 0" and "mss_bytes t \<le> cwnd_limit_bytes t"
  shows "mss_bytes t \<le> c" and "0 < c" and "c \<le> cwnd_limit_bytes t"
  using assms by (auto simp: window_ok_def word_le_nat_alt word_less_nat_alt word_zero_nat min_def split: if_splits)

lemma unat_startup_minimum:
  assumes "mss_bytes t \<le> cwnd_limit_bytes t"
  shows "unat (if mss_bytes t > cwnd_limit_bytes t div TCP_SHIFT_BBR_MIN_CWND_PACKETS then cwnd_limit_bytes t
      else mss_bytes t * TCP_SHIFT_BBR_MIN_CWND_PACKETS) = min (unat (cwnd_limit_bytes t)) (4 * unat (mss_bytes t))"
proof (cases "mss_bytes t > cwnd_limit_bytes t div 4")
  case True
  then have "unat (cwnd_limit_bytes t) div 4 < unat (mss_bytes t)" by (simp add: word_less_nat_alt unat_div_distrib)
  then show ?thesis using True by (simp add: bbr_const_defs)
next
  case False
  then have "unat (mss_bytes t) \<le> unat (cwnd_limit_bytes t) div 4"
    by (simp add: word_less_nat_alt unat_div_distrib)
  then have le: "4 * unat (mss_bytes t) \<le> unat (cwnd_limit_bytes t)" by simp
  then have "unat (mss_bytes t * 4) = 4 * unat (mss_bytes t)"
    using unat_lt_u32 [of "cwnd_limit_bytes t"] by (subst unat_mult_exact) simp_all
  then show ?thesis using False le by (simp add: bbr_const_defs)
qed

lemma unat_drain_minimum:
  "unat (tcp_shift_bbr_drain_min_cwnd_bytes t) = min (unat (cwnd_limit_bytes t)) (4 * unat (mss_bytes t))"
  using unat_min_cwnd [of t]
  by (simp add: tcp_shift_bbr_drain_min_cwnd_bytes_def tcp_shift_bbr_probe_min_cwnd_bytes_def)

lemma startup_target_nonzero:
  assumes "mss \<noteq> 0" and "mss \<le> limit"
  shows "tcp_shift_bbr_startup_cwnd_target_bytes bw rtt mss limit initial \<noteq> 0"
proof -
  have l: "limit \<noteq> 0" using assms by (auto simp: word_le_nat_alt word_zero_nat)
  define minimum where "minimum = (if u64_of mss * u64_of TCP_SHIFT_BBR_MIN_CWND_PACKETS > u64_of limit
    then u64_of limit else u64_of mss * u64_of TCP_SHIFT_BBR_MIN_CWND_PACKETS)"
  have m: "unat minimum = min (unat limit) (unat mss * 4)"
  proof -
    have "unat TCP_SHIFT_BBR_MIN_CWND_PACKETS = 4" by (simp add: bbr_const_defs)
    then show ?thesis by (simp add: minimum_def word_less_nat_alt min_def)
  qed
  define target where "target = (if bw = 0 \<or> rtt = 0 then u64_of initial
    else tcp_shift_bbr_scale_ceil_u64 (tcp_shift_bbr_bdp_bytes bw rtt) TCP_SHIFT_BBR_STARTUP_GAIN_NUM TCP_SHIFT_BBR_GAIN_DEN)"
  define c where "c = (if target < minimum then minimum else target)"
  have "tcp_shift_bbr_startup_cwnd_target_bytes bw rtt mss limit initial =
      u32_of (if c > u64_of limit then u64_of limit else c)"
    using assms(1) l unfolding tcp_shift_bbr_startup_cwnd_target_bytes_def Let_def minimum_def target_def c_def
    by simp
  moreover have "unat c \<noteq> 0" using m assms(1) l by (auto simp: c_def word_less_nat_alt word_zero_nat)
  then have "unat (u32_of (if c > u64_of limit then u64_of limit else c)) \<noteq> 0"
    using l unat_lt_u32 [of limit] by (auto simp: word_less_nat_alt word_zero_nat unat_u32_of_small)
  ultimately show ?thesis by auto
qed

lemma startup_policy_ok:
  assumes "mode m = MODE_STARTUP" and "mss_bytes t \<noteq> 0" and "mss_bytes t \<le> cwnd_limit_bytes t"
    and "0 < initial" and "initial \<le> cwnd_limit_bytes t" and "0 < cur" and "cur \<le> cwnd_limit_bytes t"
    and "tcp_shift_bbr_startup_policy m t a initial cur r p = (rc, p')"
  shows "rc = 0 \<and> window_ok t (cwnd_bytes p') \<and> (r \<noteq> 0 \<longrightarrow> pacing_rate_bytes_per_sec p' \<noteq> 0)"
proof -
  have g: "\<not> (mode m \<noteq> MODE_STARTUP \<or> mss_bytes t = 0 \<or> cwnd_limit_bytes t = 0 \<or>
        cwnd_limit_bytes t < mss_bytes t \<or> initial = 0 \<or> initial > cwnd_limit_bytes t \<or> cur = 0 \<or>
        cur > cwnd_limit_bytes t)"
    using assms(1-7) by (auto simp: word_le_nat_alt word_less_nat_alt word_zero_nat)
  note t = startup_target_nonzero [OF assms(2,3)]
  have "\<exists>c1. tcp_shift_bbr_startup_policy m t a initial cur r p = (0, p\<lparr>cwnd_bytes :=
      clamp_window (if mss_bytes t > cwnd_limit_bytes t div TCP_SHIFT_BBR_MIN_CWND_PACKETS then cwnd_limit_bytes t
        else mss_bytes t * TCP_SHIFT_BBR_MIN_CWND_PACKETS) (cwnd_limit_bytes t) c1,
      ssthresh_bytes := cwnd_limit_bytes t,
      pacing_rate_bytes_per_sec := (if tcp_shift_bbr_startup_pacing_rate_bytes_per_sec (max_bw_bytes_per_sec m) < r
        then r else tcp_shift_bbr_startup_pacing_rate_bytes_per_sec (max_bw_bytes_per_sec m))\<rparr>)"
    unfolding tcp_shift_bbr_startup_policy_def if_not_P [OF g] Let_def if_not_P [OF t] clamp_window_def
    by (rule exI, rule refl)
  then obtain c1 where e: "(rc, p') = (0, p\<lparr>cwnd_bytes :=
      clamp_window (if mss_bytes t > cwnd_limit_bytes t div TCP_SHIFT_BBR_MIN_CWND_PACKETS then cwnd_limit_bytes t
        else mss_bytes t * TCP_SHIFT_BBR_MIN_CWND_PACKETS) (cwnd_limit_bytes t) c1,
      ssthresh_bytes := cwnd_limit_bytes t,
      pacing_rate_bytes_per_sec := (if tcp_shift_bbr_startup_pacing_rate_bytes_per_sec (max_bw_bytes_per_sec m) < r
        then r else tcp_shift_bbr_startup_pacing_rate_bytes_per_sec (max_bw_bytes_per_sec m))\<rparr>)"
    using assms(8) by auto
  have "window_ok t (clamp_window (if mss_bytes t > cwnd_limit_bytes t div TCP_SHIFT_BBR_MIN_CWND_PACKETS
      then cwnd_limit_bytes t else mss_bytes t * TCP_SHIFT_BBR_MIN_CWND_PACKETS) (cwnd_limit_bytes t) c1)"
    by (rule clamp_window_ok [OF unat_startup_minimum [OF assms(3)]])
  then show ?thesis using e by (auto simp: not_less word_le_nat_alt word_zero_nat)
qed

text \<open>The pacing rates of the other modes are zero only for an estimate below three bytes per second.\<close>

lemma scale_nonzero:
  assumes "unat b \<ge> 3" and "unat n * 3 \<ge> 25600"
  shows "tcp_shift_bbr_probe_scale_floor_u64 b n (TCP_SHIFT_BBR_GAIN_DEN * TCP_SHIFT_BBR_PACING_MARGIN_DEN) \<noteq> 0"
    and "tcp_shift_bbr_drain_scale_floor_u64 b n (TCP_SHIFT_BBR_GAIN_DEN * TCP_SHIFT_BBR_PACING_MARGIN_DEN) \<noteq> 0"
proof -
  have d: "(TCP_SHIFT_BBR_GAIN_DEN * TCP_SHIFT_BBR_PACING_MARGIN_DEN) = 25600" by (simp add: bbr_const_defs)
  have "3 * unat n \<le> unat b * unat n" using assms(1) by (rule mult_le_mono1)
  then have "25600 \<le> unat b * unat n" using assms(2) by linarith
  then have "1 \<le> unat b * unat n div 25600" by (simp add: Suc_le_eq div_greater_zero_iff)
  then show "tcp_shift_bbr_probe_scale_floor_u64 b n (TCP_SHIFT_BBR_GAIN_DEN * TCP_SHIFT_BBR_PACING_MARGIN_DEN) \<noteq> 0"
    "tcp_shift_bbr_drain_scale_floor_u64 b n (TCP_SHIFT_BBR_GAIN_DEN * TCP_SHIFT_BBR_PACING_MARGIN_DEN) \<noteq> 0"
    unfolding d word_zero_nat tcp_shift_bbr_probe_scale_floor_u64_def tcp_shift_bbr_drain_scale_floor_u64_def
    by (simp_all add: bbr_probe.unat_scale_floor bbr_drain.unat_scale_floor)
qed

lemma drain_policy_ok:
  assumes "model_ok m" and "mode m = MODE_DRAIN" and "mss_bytes t \<noteq> 0" and "mss_bytes t \<le> cwnd_limit_bytes t"
    and "0 < cur" and "cur \<le> cwnd_limit_bytes t" and "tcp_shift_bbr_drain_policy m t a cur p = (rc, p')"
  shows "rc = 0 \<and> window_ok t (cwnd_bytes p') \<and>
    (unat (max_bw_bytes_per_sec m) \<ge> 3 \<longrightarrow> pacing_rate_bytes_per_sec p' \<noteq> 0)"
proof -
  have g: "\<not> (mode m \<noteq> MODE_DRAIN \<or> \<not> full_bw_reached m \<or> max_bw_bytes_per_sec m = 0 \<or>
        mss_bytes t = 0 \<or> cwnd_limit_bytes t = 0 \<or> cwnd_limit_bytes t < mss_bytes t \<or> cur = 0 \<or>
        cur > cwnd_limit_bytes t)"
    using model_okD [OF assms(1)] assms(2-6) by (auto simp: word_le_nat_alt word_less_nat_alt word_zero_nat)
  note t = startup_target_nonzero [OF assms(3,4)]
  have "\<exists>c1 ss. tcp_shift_bbr_drain_policy m t a cur p = (0, p\<lparr>cwnd_bytes :=
      clamp_window (tcp_shift_bbr_drain_min_cwnd_bytes t) (cwnd_limit_bytes t) c1, ssthresh_bytes := ss,
      pacing_rate_bytes_per_sec := tcp_shift_bbr_drain_pacing_rate_bytes_per_sec (max_bw_bytes_per_sec m)\<rparr>)"
    unfolding tcp_shift_bbr_drain_policy_def if_not_P [OF g] Let_def if_not_P [OF t] clamp_window_def
    by (rule exI, rule exI, rule refl)
  then obtain c1 ss where e: "(rc, p') = (0, p\<lparr>cwnd_bytes :=
      clamp_window (tcp_shift_bbr_drain_min_cwnd_bytes t) (cwnd_limit_bytes t) c1, ssthresh_bytes := ss,
      pacing_rate_bytes_per_sec := tcp_shift_bbr_drain_pacing_rate_bytes_per_sec (max_bw_bytes_per_sec m)\<rparr>)"
    using assms(7) by auto
  have "tcp_shift_bbr_drain_pacing_rate_bytes_per_sec (max_bw_bytes_per_sec m) \<noteq> 0"
    if "unat (max_bw_bytes_per_sec m) \<ge> 3"
    using scale_nonzero(2) [OF that] unfolding tcp_shift_bbr_drain_pacing_rate_bytes_per_sec_def
    by (simp add: bbr_const_defs)
  then show ?thesis using e clamp_window_ok [OF unat_drain_minimum, of t c1] by simp
qed

lemma probe_bw_policy_ok:
  assumes "model_ok m" and "mode m = MODE_PROBE_BW" and "mss_bytes t \<noteq> 0" and "mss_bytes t \<le> cwnd_limit_bytes t"
    and "0 < cur" and "cur \<le> cwnd_limit_bytes t" and "tcp_shift_bbr_probe_bw_policy m st t a cur p = (rc, p')"
  shows "rc = 0 \<and> window_ok t (cwnd_bytes p') \<and>
    (unat (max_bw_bytes_per_sec m) \<ge> 3 \<longrightarrow> pacing_rate_bytes_per_sec p' \<noteq> 0)"
proof -
  have g: "\<not> (mode m \<noteq> MODE_PROBE_BW \<or> \<not> full_bw_reached m \<or> max_bw_bytes_per_sec m = 0 \<or>
        \<not> has_min_rtt m \<or> min_rtt_ns m = 0 \<or>
        mss_bytes t = 0 \<or> cwnd_limit_bytes t = 0 \<or> cwnd_limit_bytes t < mss_bytes t \<or> cur = 0 \<or>
        cur > cwnd_limit_bytes t)"
    using model_okD [OF assms(1)] assms(2-6) by (auto simp: word_le_nat_alt word_less_nat_alt word_zero_nat)
  let ?m = "tcp_shift_bbr_probe_min_cwnd_bytes t" and ?l = "cwnd_limit_bytes t"
  define target where "target = (let bdp = tcp_shift_bbr_bdp_bytes (max_bw_bytes_per_sec m) (min_rtt_ns m);
      x = tcp_shift_bbr_probe_scale_ceil_u64 bdp TCP_SHIFT_BBR_CWND_GAIN_NUM TCP_SHIFT_BBR_GAIN_DEN;
      x = (if x < u64_of ?m then u64_of ?m else x) in if x > u64_of ?l then u64_of ?l else x)"
  define grown where "grown = (if u64_of cur + u64_of (acked_bytes a) > u64_of ?l then u64_of ?l
      else u64_of cur + u64_of (acked_bytes a))"
  define c where "c = (if acked_bytes a \<noteq> 0 then (if grown < target then u32_of grown else u32_of target) else cur)"
  have "\<exists>ss. tcp_shift_bbr_probe_bw_policy m st t a cur p = (0, p\<lparr>cwnd_bytes := (if c < ?m then ?m else c),
      ssthresh_bytes := ss,
      pacing_rate_bytes_per_sec := tcp_shift_bbr_probe_bw_pacing_rate_bytes_per_sec m st\<rparr>)"
    unfolding tcp_shift_bbr_probe_bw_policy_def if_not_P [OF g] Let_def target_def grown_def c_def
    by (rule exI, rule refl)
  then obtain ss where e: "(rc, p') = (0, p\<lparr>cwnd_bytes := (if c < ?m then ?m else c), ssthresh_bytes := ss,
      pacing_rate_bytes_per_sec := tcp_shift_bbr_probe_bw_pacing_rate_bytes_per_sec m st\<rparr>)"
    using assms(7) by auto
  have m: "unat ?m = min (unat ?l) (4 * unat (mss_bytes t))" by (rule unat_min_cwnd)
  have "unat target \<le> unat ?l" "unat grown \<le> unat ?l"
    by (auto simp: target_def grown_def Let_def word_less_nat_alt)
  then have "unat c \<le> unat ?l" using assms(6) unat_lt_u32 [of ?l]
    by (auto simp: c_def unat_u32_of_small word_le_nat_alt)
  then have w: "window_ok t (if c < ?m then ?m else c)"
    using m by (auto simp: window_ok_def word_le_nat_alt word_less_nat_alt)
  have "tcp_shift_bbr_probe_bw_pacing_rate_bytes_per_sec m st \<noteq> 0" if "unat (max_bw_bytes_per_sec m) \<ge> 3"
    using scale_nonzero(1) [OF that] unfolding tcp_shift_bbr_probe_bw_pacing_rate_bytes_per_sec_def Let_def
    by (simp add: tcp_shift_bbr_probe_bw_pacing_gain_num_def bbr_probe_const_defs bbr_const_defs)
  then show ?thesis using e w by simp
qed

lemma probe_rtt_policy_ok:
  assumes "mode m = MODE_PROBE_RTT" and "mss_bytes t \<noteq> 0" and "mss_bytes t \<le> cwnd_limit_bytes t"
    and "tcp_shift_bbr_probe_rtt_policy m st t p = (rc, p')"
  shows "rc = 0 \<and> window_ok t (cwnd_bytes p') \<and>
    (unat (max_bw_bytes_per_sec m) \<ge> 3 \<longrightarrow> pacing_rate_bytes_per_sec p' \<noteq> 0)"
proof -
  have g: "\<not> (mode m \<noteq> MODE_PROBE_RTT \<or> mss_bytes t = 0 \<or> cwnd_limit_bytes t = 0 \<or>
        cwnd_limit_bytes t < mss_bytes t)"
    using assms(1-3) by (auto simp: word_le_nat_alt word_less_nat_alt word_zero_nat)
  have w: "window_ok t (tcp_shift_bbr_probe_min_cwnd_bytes t)"
    using unat_min_cwnd [of t] by (simp add: window_ok_def word_le_nat_alt)
  have n: "tcp_shift_bbr_probe_scale_floor_u64 (max_bw_bytes_per_sec m)
     (TCP_SHIFT_BBR_PROBE_BW_CRUISE_GAIN_NUM * TCP_SHIFT_BBR_PACING_MARGIN_NUM)
     (TCP_SHIFT_BBR_GAIN_DEN * TCP_SHIFT_BBR_PACING_MARGIN_DEN) \<noteq> 0" if "unat (max_bw_bytes_per_sec m) \<ge> 3"
    by (rule scale_nonzero(1) [OF that]) (simp add: bbr_probe_const_defs bbr_const_defs)
  show ?thesis using assms(4) w n
    unfolding tcp_shift_bbr_probe_rtt_policy_def if_not_P [OF g] Let_def by auto
qed

section \<open>The controller invariant\<close>

definition ctl_ok :: "u32 \<Rightarrow> u32 \<Rightarrow> tcp_shift_bbr_controller_state \<Rightarrow> bool" where
  "ctl_ok mss limit s \<longleftrightarrow>
    bbr_initialized s \<and> mss \<noteq> 0 \<and> mss \<le> limit \<and> 0 < bbr_cwnd_bytes s \<and> bbr_cwnd_bytes s \<le> limit \<and>
    0 < bbr_initial_cwnd_bytes s \<and> bbr_initial_cwnd_bytes s \<le> limit \<and>
    bbr_pacing_rate_bytes_per_sec s \<noteq> 0 \<and> model_ok (bbr_model s) \<and> cycle_ok (bbr_model s) (bbr_probe s) \<and>
    (in_recovery (bbr_recovery s) \<longrightarrow> mss \<le> bbr_cwnd_bytes s \<and> prior_cwnd_bytes (bbr_recovery s) \<noteq> 0)"

text \<open>The part of a recovery episode that outlives its ACKs.\<close>

abbreviation episode :: "tcp_shift_bbr_controller_state \<Rightarrow> bool \<times> u32" where
  "episode s \<equiv> (in_recovery (bbr_recovery s), prior_cwnd_bytes (bbr_recovery s))"

lemma initial_rate_nonzero:
  assumes "cwnd \<noteq> 0"
  shows "tcp_shift_bbr_initial_pacing_rate_bytes_per_sec cwnd rtt \<noteq> 0"
proof -
  have s: "tcp_shift_bbr_startup_pacing_rate_bytes_per_sec b \<noteq> 0" if "b \<noteq> 0" for b
  proof -
    have b: "1 \<le> unat b" using that by (simp add: word_zero_nat Suc_le_eq)
    then have "1 * 73161 \<le> unat b * 73161" by (rule mult_le_mono1)
    then have "1 \<le> unat b * 73161 div 25600" by (simp add: Suc_le_eq div_greater_zero_iff)
    then show ?thesis
      unfolding tcp_shift_bbr_startup_pacing_rate_bytes_per_sec_def tcp_shift_bbr_scale_floor_u64_def word_zero_nat
      by (simp add: bbr.unat_scale_floor bbr_const_defs)
  qed
  show ?thesis using assms
    by (simp add: tcp_shift_bbr_initial_pacing_rate_bytes_per_sec_def Let_def s)
qed

lemma controller_init_ok:
  assumes "tcp_shift_bbr_controller_init s0 t i seed p = (0, s, p')"
  shows "ctl_ok (mss_bytes t) (cwnd_limit_bytes t) s"
proof -
  define s1 where "s1 = s0\<lparr>bbr_model := tcp_shift_bbr_model_init, bbr_probe := tcp_shift_bbr_probe_state_init seed,
             bbr_recovery := tcp_shift_bbr_recovery_init, bbr_initial_cwnd_bytes := initial_cwnd_bytes i,
             bbr_cwnd_bytes := initial_cwnd_bytes i, pending_probe_loss_bytes := 0,
             bbr_delivered_bytes := 0, has_seen_rtt := False\<rparr>"
  define r where "r = tcp_shift_bbr_initial_pacing_rate_bytes_per_sec (initial_cwnd_bytes i) 0"
  have g: "tcp_shift_bbr_controller_valid_transport t" "initial_cwnd_bytes i \<noteq> 0"
    "initial_cwnd_bytes i \<le> cwnd_limit_bytes t"
    using assms unfolding tcp_shift_bbr_controller_init_def by (auto split: if_splits simp: not_less)
  have s: "s = s1\<lparr>bbr_pacing_rate_bytes_per_sec := r, bbr_initialized := True\<rparr>" and r: "r \<noteq> 0"
    using assms unfolding tcp_shift_bbr_controller_init_def s1_def [symmetric] r_def [symmetric] Let_def
    by (auto split: if_splits)
  show ?thesis using g r unfolding s
    by (simp add: ctl_ok_def s1_def model_ok_init cycle_ok_def tcp_shift_bbr_probe_state_init_def
        tcp_shift_bbr_recovery_init_def tcp_shift_bbr_controller_valid_transport_def word_gt_0)
qed

lemma seed_rate_ok:
  assumes "ctl_ok mss limit s" and "bbr_seed_rate s a = (rc, s')"
  shows "rc = 0" and "ctl_ok mss limit s'" and "episode s' = episode s" and "bbr_model s' = bbr_model s"
    and "bbr_cwnd_bytes s' = bbr_cwnd_bytes s"
proof -
  have "bbr_cwnd_bytes s \<noteq> 0" using assms(1) by (auto simp: ctl_ok_def)
  note n = initial_rate_nonzero [OF this, of "smoothed_rtt_ns a"]
  then have "rc = 0 \<and> (s' = s \<or> s' = s\<lparr>bbr_pacing_rate_bytes_per_sec :=
      tcp_shift_bbr_initial_pacing_rate_bytes_per_sec (bbr_cwnd_bytes s) (smoothed_rtt_ns a), has_seen_rtt := True\<rparr>)"
    using assms(2) unfolding bbr_seed_rate_def Let_def by (auto split: if_splits)
  then show "rc = 0" "ctl_ok mss limit s'" "episode s' = episode s" "bbr_model s' = bbr_model s"
    "bbr_cwnd_bytes s' = bbr_cwnd_bytes s" using assms(1) n by (auto simp: ctl_ok_def)
qed

text \<open>The recovery window of an ACK.\<close>

lemma recovery_on_ack_ok:
  assumes "in_recovery r" and "tcp_shift_bbr_recovery_valid_window cur mss limit"
    and "tcp_shift_bbr_recovery_on_ack r cur inflight acked 0 mss limit rs c0 o0 = (rc, r', c, owns)"
  shows "rc = 0 \<and> in_recovery r' \<and> prior_cwnd_bytes r' = prior_cwnd_bytes r \<and> mss \<le> c \<and> c \<le> limit \<and> cur \<le> c"
proof -
  define f where "f = tcp_shift_bbr_recovery_floor_sub cur 0 mss"
  define k where "k = (if tcp_shift_bbr_recovery_sat_add_limit inflight acked limit < mss then mss
    else tcp_shift_bbr_recovery_sat_add_limit inflight acked limit)"
  define r1 where "r1 = (if rs then r\<lparr>packet_conservation := False\<rparr> else r)"
  have v: "unat mss \<le> unat cur" "unat cur \<le> unat limit"
    using assms(2) by (auto simp: tcp_shift_bbr_recovery_valid_window_def word_le_nat_alt)
  have f: "unat f = unat cur" using v by (simp add: f_def unat_floor_sub max_def)
  have k: "unat mss \<le> unat k" "unat k \<le> unat limit"
    using v by (auto simp: k_def word_less_nat_alt unat_sat_add_limit)
  have "(rc, r', c, owns) = (case (if packet_conservation r1 then (if f < k then k else f, True) else (f, False)) of
      (c, owns) \<Rightarrow> (0, r1, if c > limit then limit else c, owns))"
    using assms(1,2) unfolding assms(3) [symmetric] tcp_shift_bbr_recovery_on_ack_def Let_def f_def k_def r1_def
    by simp
  then have e: "rc = 0" "r' = r1" "c = (if packet_conservation r1 then (if (if f < k then k else f) > limit then limit
      else (if f < k then k else f)) else (if f > limit then limit else f))"
    by (simp_all split: if_splits)
  have "unat mss \<le> unat c \<and> unat c \<le> unat limit \<and> unat cur \<le> unat c"
    using v f k unfolding e(3) by (auto simp: word_less_nat_alt)
  moreover have "in_recovery r1 = in_recovery r" "prior_cwnd_bytes r1 = prior_cwnd_bytes r" by (simp_all add: r1_def)
  ultimately show ?thesis using e assms(1) by (simp add: word_le_nat_alt)
qed

lemma recovery_window_ok:
  assumes "ctl_ok mss limit s" and "mss_bytes t = mss" and "cwnd_limit_bytes t = limit"
    and "bbr_recovery_window s t a = (rc, s', cur, rcwnd, owns)"
  shows "rc = 0" and "ctl_ok mss limit s'" and "episode s' = episode s" and "bbr_model s' = bbr_model s"
    and "0 < cur" and "cur \<le> limit" and "owns \<Longrightarrow> mss \<le> rcwnd \<and> rcwnd \<le> limit"
    and "owns \<Longrightarrow> in_recovery (bbr_recovery s)"
proof -
  have "rc = 0 \<and> ctl_ok mss limit s' \<and> episode s' = episode s \<and> bbr_model s' = bbr_model s \<and> 0 < cur \<and> cur \<le> limit \<and>
    (owns \<longrightarrow> mss \<le> rcwnd \<and> rcwnd \<le> limit \<and> in_recovery (bbr_recovery s))"
  proof (cases "in_recovery (bbr_recovery s)")
    case False
    then show ?thesis using assms by (auto simp: bbr_recovery_window_def ctl_ok_def)
  next
    case True
    then have v: "tcp_shift_bbr_recovery_valid_window (bbr_cwnd_bytes s) mss limit"
      using assms(1) by (auto simp: ctl_ok_def tcp_shift_bbr_recovery_valid_window_def)
    obtain rc1 r1 c1 o1 where r: "tcp_shift_bbr_recovery_on_ack (bbr_recovery s) (bbr_cwnd_bytes s)
        (inflight_bytes t) (acked_bytes a) 0 mss limit (round_start (bbr_model s)) 0 False = (rc1, r1, c1, o1)"
      using prod_cases4 by blast
    note ok = recovery_on_ack_ok [OF True v r]
    have e: "rc = rc1" "s' = s\<lparr>bbr_recovery := r1\<rparr>" "cur = c1" "rcwnd = c1" "owns = o1"
      using assms(4) True r unfolding bbr_recovery_window_def assms(2,3) by (auto simp: Let_def)
    have "0 < c1" using ok assms(1) by (auto simp: ctl_ok_def word_gt_0)
    then show ?thesis using ok assms(1) True unfolding e by (auto simp: ctl_ok_def)
  qed
  then show "rc = 0" "ctl_ok mss limit s'" "episode s' = episode s" "bbr_model s' = bbr_model s"
    "0 < cur" "cur \<le> limit" "owns \<Longrightarrow> mss \<le> rcwnd \<and> rcwnd \<le> limit" "owns \<Longrightarrow> in_recovery (bbr_recovery s)"
    by auto
qed

lemma restore_cwnd_ok:
  assumes "0 < cur" and "cur \<le> limit"
  shows "0 < tcp_shift_bbr_probe_rtt_restore_cwnd_bytes st cur limit \<and>
    tcp_shift_bbr_probe_rtt_restore_cwnd_bytes st cur limit \<le> limit"
proof -
  have "limit \<noteq> 0" using assms by (auto simp: word_le_nat_alt word_less_nat_alt)
  then show ?thesis using assms
    by (auto simp: tcp_shift_bbr_probe_rtt_restore_cwnd_bytes_def Let_def word_less_nat_alt word_le_nat_alt)
qed

lemma mode_machine_ok:
  assumes s: "ctl_ok mss limit s" and t: "mss_bytes t = mss" "cwnd_limit_bytes t = limit"
    and now: "has_update_time (bbr_model s)" "last_update_ns (bbr_model s) = ack_time_ns a"
    and cur: "0 < cur" "cur \<le> limit"
    and r: "bbr_mode_machine s t a cur lost = (rc, s', cur')"
  shows "rc = 0 \<and> ctl_ok mss limit s' \<and> bbr_recovery s' = bbr_recovery s \<and>
    max_bw_bytes_per_sec (bbr_model s') = max_bw_bytes_per_sec (bbr_model s) \<and> 0 < cur' \<and> cur' \<le> limit"
proof -
  obtain r1 m1 where d: "tcp_shift_bbr_model_check_drain (bbr_model s) (ack_rate a) = (r1, m1)" by fastforce
  have "model_ok (bbr_model s)" "cycle_ok (bbr_model s) (bbr_probe s)" using s by (simp_all add: ctl_ok_def)
  note m1 = model_ok_check_drain [OF this(1) d] and c = this(2)
  have c1: "cycle_ok m1 (bbr_probe s)" using c m1(3,4) by (simp add: cycle_ok_def)
  obtain r2 m2 p2 where u: "tcp_shift_bbr_probe_rtt_update m1 (bbr_probe s) t (ack_rate a) cur (ack_time_ns a)
      = (r2, m2, p2)" using prod_cases3 by blast
  have tr: "mss_bytes t \<noteq> 0" "mss_bytes t \<le> cwnd_limit_bytes t" "cur \<le> cwnd_limit_bytes t"
    using s t cur by (simp_all add: ctl_ok_def)
  have m1': "has_update_time m1" "last_update_ns m1 = ack_time_ns a" using m1(3,4) now by simp_all
  note m2 = probe_rtt_update_ok [OF m1(1) c1 m1' tr(1,2) cur(1) tr(3) u]
  define cur2 where "cur2 = (if r2 > 0 then tcp_shift_bbr_probe_rtt_restore_cwnd_bytes p2 cur limit else cur)"
  have cur2: "0 < cur2" "cur2 \<le> limit" using restore_cwnd_ok [OF cur, of p2] cur by (simp_all add: cur2_def)
  obtain r3 p3 where b: "tcp_shift_bbr_probe_bw_update m2 p2 (ack_rate a) lost (ack_time_ns a) = (r3, p3)"
    by fastforce
  have p3: "cycle_ok m2 p3" "r3 = 0" using probe_bw_update_ok [OF _ _ _ b] m2 by auto
  have g: "\<not> r1 < 0" "\<not> r2 < 0" "\<not> (r2 > 0 \<and> cur2 = 0)" using m1(2) m2 cur2(1) by auto
  have "(rc, s', cur') = (if mode m2 = MODE_PROBE_BW then (0, s\<lparr>bbr_model := m2, bbr_probe := p3\<rparr>, cur2)
      else (0, s\<lparr>bbr_model := m2, bbr_probe := p2\<rparr>, cur2))"
    unfolding r [symmetric] bbr_mode_machine_def Let_def d prod.case t(2)
    using g p3(2) by (auto simp: u b cur2_def)
  then have "rc = 0 \<and> cur' = cur2 \<and> (\<exists>p. s' = s\<lparr>bbr_model := m2, bbr_probe := p\<rparr> \<and> cycle_ok m2 p)"
    using p3(1) m2 by (cases "mode m2 = MODE_PROBE_BW") auto
  then show ?thesis using s m1(5) m2 cur2 by (auto simp: ctl_ok_def)
qed

lemma mode_policy_ok:
  assumes s: "ctl_ok mss limit s" and t: "mss_bytes t = mss" "cwnd_limit_bytes t = limit"
    and cur: "0 < cur" "cur \<le> limit" and r: "bbr_mode_policy s t a cur p = (rc, p')"
  shows "rc = 0 \<and> window_ok t (cwnd_bytes p') \<and>
    (unat (max_bw_bytes_per_sec (bbr_model s)) \<ge> 3 \<longrightarrow> pacing_rate_bytes_per_sec p' \<noteq> 0)"
proof -
  have m: "model_ok (bbr_model s)" using s by (simp add: ctl_ok_def)
  have tr: "mss_bytes t \<noteq> 0" "mss_bytes t \<le> cwnd_limit_bytes t" "cur \<le> cwnd_limit_bytes t"
    "0 < bbr_initial_cwnd_bytes s" "bbr_initial_cwnd_bytes s \<le> cwnd_limit_bytes t"
    "bbr_pacing_rate_bytes_per_sec s \<noteq> 0"
    using s t cur by (simp_all add: ctl_ok_def)
  show ?thesis
  proof (cases "mode (bbr_model s)")
    case MODE_STARTUP
    then show ?thesis using startup_policy_ok [OF MODE_STARTUP tr(1,2,4,5) cur(1) tr(3)] r tr(6)
      by (simp add: bbr_mode_policy_def)
  next
    case MODE_DRAIN
    then show ?thesis using drain_policy_ok [OF m MODE_DRAIN tr(1,2) cur(1) tr(3)] r
      by (simp add: bbr_mode_policy_def)
  next
    case MODE_PROBE_BW
    then show ?thesis using probe_bw_policy_ok [OF m MODE_PROBE_BW tr(1,2) cur(1) tr(3)] r
      by (simp add: bbr_mode_policy_def)
  next
    case MODE_PROBE_RTT
    then show ?thesis using probe_rtt_policy_ok [OF MODE_PROBE_RTT tr(1,2)] r
      by (simp add: bbr_mode_policy_def)
  qed
qed

text \<open>What an ACK promises.\<close>

definition ack_outcome :: "u32 \<Rightarrow> u32 \<Rightarrow> tcp_shift_bbr_controller_state \<Rightarrow> bbr_result \<Rightarrow> bool" where
  "ack_outcome mss limit s r \<longleftrightarrow> (case r of (rc, s', p') \<Rightarrow>
    ctl_ok mss limit s' \<and> episode s' = episode s \<and> (rc = 0 \<or> unat (max_bw_bytes_per_sec (bbr_model s')) < 3) \<and>
    (rc = 0 \<longrightarrow> cwnd_bytes p' = bbr_cwnd_bytes s' \<and>
       pacing_rate_bytes_per_sec p' = bbr_pacing_rate_bytes_per_sec s'))"

lemma ack_modes_ok:
  assumes s: "ctl_ok mss limit s" and t: "mss_bytes t = mss" "cwnd_limit_bytes t = limit"
    and now: "has_update_time (bbr_model s)" "last_update_ns (bbr_model s) = ack_time_ns a"
    and cur: "0 < cur" "cur \<le> limit" and owns: "owns \<Longrightarrow> mss \<le> rcwnd \<and> rcwnd \<le> limit"
  shows "ack_outcome mss limit s (bbr_ack_modes s t a lost cur rcwnd owns p)"
proof -
  obtain r1 s1 c1 where m: "bbr_mode_machine s t a cur lost = (r1, s1, c1)" using prod_cases3 by blast
  note s1 = mode_machine_ok [OF s t now cur m]
  obtain r2 p2 where q: "bbr_mode_policy s1 t a c1 p = (r2, p2)" by fastforce
  have p2: "r2 = 0 \<and> window_ok t (cwnd_bytes p2) \<and>
    (unat (max_bw_bytes_per_sec (bbr_model s1)) \<ge> 3 \<longrightarrow> pacing_rate_bytes_per_sec p2 \<noteq> 0)"
    using mode_policy_ok [OF _ t _ _ q] s1 by blast
  have tr: "mss_bytes t \<noteq> 0" "mss_bytes t \<le> cwnd_limit_bytes t" using s t by (simp_all add: ctl_ok_def)
  note w = window_ok_bounds [OF _ tr, of "cwnd_bytes p2"]
  define p3 where "p3 = (if owns then p2\<lparr>cwnd_bytes := rcwnd\<rparr> else p2)"
  have p3: "mss \<le> cwnd_bytes p3" "cwnd_bytes p3 \<le> limit" "pacing_rate_bytes_per_sec p3 = pacing_rate_bytes_per_sec p2"
    using owns w p2 t by (auto simp: p3_def)
  have pos: "0 < cwnd_bytes p3" using p3(1) tr(1) t(1) by (auto simp: word_gt_0)
  have e: "bbr_ack_modes s t a lost cur rcwnd owns p =
      (if pacing_rate_bytes_per_sec p2 = 0 then (-1, s1, p2)
       else (0, s1\<lparr>bbr_cwnd_bytes := cwnd_bytes p3, bbr_pacing_rate_bytes_per_sec := pacing_rate_bytes_per_sec p3,
               pending_probe_loss_bytes := 0\<rparr>, p3))"
    using s1 p2 w t unfolding bbr_ack_modes_def m prod.case Let_def p3_def [symmetric]
    by (auto simp: q p3_def word_gt_0)
  show ?thesis
  proof (cases "pacing_rate_bytes_per_sec p2 = 0")
    case True
    then show ?thesis using s1 p2 by (auto simp: e ack_outcome_def not_le)
  next
    case False
    then show ?thesis using s1 p3 pos by (auto simp: e ack_outcome_def ctl_ok_def)
  qed
qed

lemma controller_on_ack_ok:
  assumes s: "ctl_ok mss limit s" and t: "mss_bytes t = mss" "cwnd_limit_bytes t = limit"
    and ack: "acked_bytes a \<noteq> 0" "ack_time_ns a \<noteq> 0"
    and now: "has_update_time (bbr_model s) \<Longrightarrow> last_update_ns (bbr_model s) \<le> ack_time_ns a"
  shows "ack_outcome mss limit s (tcp_shift_bbr_controller_on_ack s t a p)"
proof -
  have g: "\<not> (\<not> bbr_initialized s \<or> acked_bytes a = 0 \<or> ack_time_ns a = 0 \<or>
        \<not> tcp_shift_bbr_controller_valid_transport t \<or> bbr_cwnd_bytes s = 0 \<or> bbr_cwnd_bytes s > cwnd_limit_bytes t)"
    using s t ack by (auto simp: ctl_ok_def tcp_shift_bbr_controller_valid_transport_def)
  obtain r1 s1 where 1: "bbr_seed_rate s a = (r1, s1)" by fastforce
  note s1 = seed_rate_ok [OF s 1]
  obtain r2 m2 where 2: "tcp_shift_bbr_model_on_ack (bbr_model s1) (ack_rate a) (ack_time_ns a) = (r2, m2)"
    by fastforce
  have "model_ok (bbr_model s1)" using s1(2) by (simp add: ctl_ok_def)
  note m2 = model_ok_on_ack [OF this 2]
  have r2: "r2 = 0"
  proof (rule ccontr)
    assume "r2 \<noteq> 0"
    then show False using m2(4) now s1(4) by (auto simp: not_le [symmetric])
  qed
  note m2' = m2(3) [OF r2]
  define s2 where "s2 = (if delivered_total_bytes (ack_rate a) > bbr_delivered_bytes (s1\<lparr>bbr_model := m2\<rparr>)
    then s1\<lparr>bbr_model := m2, bbr_delivered_bytes := delivered_total_bytes (ack_rate a)\<rparr> else s1\<lparr>bbr_model := m2\<rparr>)"
  have "cycle_ok m2 (bbr_probe s1)"
    using s1(2,4) now m2' by (auto simp: ctl_ok_def cycle_ok_def intro: order_trans)
  then have s2: "ctl_ok mss limit s2" "bbr_model s2 = m2" "episode s2 = episode s"
    using s1(2,3) m2(1) by (simp_all add: s2_def ctl_ok_def)
  obtain r3 s3 c3 rc3 o3 where 3: "bbr_recovery_window s2 t a = (r3, s3, c3, rc3, o3)" using prod_cases5 by blast
  note s3 = recovery_window_ok [OF s2(1) t 3]
  have e: "tcp_shift_bbr_controller_on_ack s t a p =
      bbr_ack_modes s3 t a (pending_probe_loss_bytes s1) c3 rc3 o3 p"
    unfolding tcp_shift_bbr_controller_on_ack_def if_not_P [OF g] 1 prod.case 2 Let_def s2_def [symmetric] 3
    by (simp add: s1(1) r2 s3(1))
  have n: "has_update_time (bbr_model s3)" "last_update_ns (bbr_model s3) = ack_time_ns a"
    using m2' s2(2) s3(4) by simp_all
  show ?thesis using ack_modes_ok [OF s3(2) t n s3(5,6,7), where lost = "pending_probe_loss_bytes s1" and p = p] s3(3) s2(3)
    unfolding e ack_outcome_def by simp
qed

text \<open>An ACK outside these conditions is refused and changes nothing, or only its rate seed.\<close>

lemma controller_on_ack_keeps:
  assumes s: "ctl_ok mss limit s" and t: "mss_bytes t = mss" "cwnd_limit_bytes t = limit"
    and r: "tcp_shift_bbr_controller_on_ack s t a p = (rc, s', p')"
  shows "ctl_ok mss limit s'" and "episode s' = episode s"
proof -
  have "ctl_ok mss limit s' \<and> episode s' = episode s"
  proof (cases "acked_bytes a \<noteq> 0 \<and> ack_time_ns a \<noteq> 0 \<and>
      (has_update_time (bbr_model s) \<longrightarrow> last_update_ns (bbr_model s) \<le> ack_time_ns a)")
    case True
    then show ?thesis using controller_on_ack_ok [OF s t, of a p] r by (auto simp: ack_outcome_def)
  next
    case False
    show ?thesis
    proof (cases "acked_bytes a = 0 \<or> ack_time_ns a = 0")
      case True
      then show ?thesis using r s by (auto simp: tcp_shift_bbr_controller_on_ack_def)
    next
      case late: False
      have g: "\<not> (\<not> bbr_initialized s \<or> acked_bytes a = 0 \<or> ack_time_ns a = 0 \<or>
        \<not> tcp_shift_bbr_controller_valid_transport t \<or> bbr_cwnd_bytes s = 0 \<or> bbr_cwnd_bytes s > cwnd_limit_bytes t)"
        using s t late by (auto simp: ctl_ok_def tcp_shift_bbr_controller_valid_transport_def)
      obtain r1 s1 where 1: "bbr_seed_rate s a = (r1, s1)" by fastforce
      note s1 = seed_rate_ok [OF s 1]
      have "tcp_shift_bbr_model_on_ack (bbr_model s1) (ack_rate a) (ack_time_ns a) = (-1, bbr_model s1)"
        using False late s1(4) by (auto simp: tcp_shift_bbr_model_on_ack_def not_le)
      then have "s' = s1" using r s1(1)
        unfolding tcp_shift_bbr_controller_on_ack_def if_not_P [OF g] 1 prod.case by (simp add: Let_def)
      then show ?thesis using s1 by simp
    qed
  qed
  then show "ctl_ok mss limit s'" "episode s' = episode s" by auto
qed

section \<open>The other operations\<close>

lemma note_loss_ok:
  assumes "ctl_ok mss limit s" and "tcp_shift_bbr_controller_note_loss s lost = (rc, s')"
  shows "ctl_ok mss limit s'" and "episode s' = episode s" and "bbr_cwnd_bytes s' = bbr_cwnd_bytes s"
proof -
  have "\<exists>x. s' = s\<lparr>pending_probe_loss_bytes := x\<rparr>"
    using assms(2) unfolding tcp_shift_bbr_controller_note_loss_def
    by (auto split: if_splits intro: exI [of _ "pending_probe_loss_bytes s"])
  then show "ctl_ok mss limit s'" "episode s' = episode s" "bbr_cwnd_bytes s' = bbr_cwnd_bytes s"
    using assms(1) by (auto simp: ctl_ok_def)
qed

lemma recovery_enter_ok:
  assumes s: "ctl_ok mss limit s" and t: "mss_bytes t = mss" "cwnd_limit_bytes t = limit"
    and r: "tcp_shift_bbr_controller_recovery_enter s t acked lost p = (rc, s', p')"
  shows "ctl_ok mss limit s'"
    and "rc = 0 \<Longrightarrow> in_recovery (bbr_recovery s') \<and> prior_cwnd_bytes (bbr_recovery s') = bbr_cwnd_bytes s"
proof -
  define s1 where "s1 = s\<lparr>bbr_model := (bbr_model s)\<lparr>next_round_delivered := bbr_delivered_bytes s, round_start := False\<rparr>,
    pending_probe_loss_bytes := lost\<rparr>"
  have s1: "ctl_ok mss limit s1" "bbr_cwnd_bytes s1 = bbr_cwnd_bytes s"
    using s by (simp_all add: s1_def ctl_ok_def cycle_ok_def)
  define k where "k = (if tcp_shift_bbr_recovery_sat_add_limit (inflight_bytes t) acked limit < mss then mss
    else tcp_shift_bbr_recovery_sat_add_limit (inflight_bytes t) acked limit)"
  have ml: "mss \<le> limit" using s by (simp add: ctl_ok_def)
  then have k: "mss \<le> k" "k \<le> limit" by (auto simp: k_def word_le_nat_alt word_less_nat_alt unat_sat_add_limit)
  have kpos: "0 < k" using k(1) s by (auto simp: ctl_ok_def word_gt_0)
  define q where "q = (bbr_recovery s1)\<lparr>prior_cwnd_bytes := bbr_cwnd_bytes s1, in_recovery := True,
    packet_conservation := True\<rparr>"
  have "s' = s \<and> rc = -1 \<or> s' = s1 \<and> rc = -1 \<or> rc = 0 \<and> s' = s1\<lparr>bbr_recovery := q, bbr_cwnd_bytes := k\<rparr>"
    using r unfolding tcp_shift_bbr_controller_recovery_enter_def s1_def [symmetric] Let_def
      tcp_shift_bbr_recovery_enter_def t k_def q_def
    by (auto split: if_splits)
  moreover have "ctl_ok mss limit (s1\<lparr>bbr_recovery := q, bbr_cwnd_bytes := k\<rparr>)"
    using s1(1) k kpos by (auto simp: ctl_ok_def q_def)
  ultimately show "ctl_ok mss limit s'"
    and "rc = 0 \<Longrightarrow> in_recovery (bbr_recovery s') \<and> prior_cwnd_bytes (bbr_recovery s') = bbr_cwnd_bytes s"
    using s s1 by (auto simp: q_def)
qed

lemma recovery_note_loss_ok:
  assumes s: "ctl_ok mss limit s" and t: "mss_bytes t = mss" "cwnd_limit_bytes t = limit"
    and r: "tcp_shift_bbr_controller_recovery_note_loss s t lost p = (rc, s', p')"
  shows "ctl_ok mss limit s'" and "episode s' = episode s"
proof -
  obtain r1 s1 where n: "tcp_shift_bbr_controller_note_loss s lost = (r1, s1)" by fastforce
  note s1 = note_loss_ok [OF s n]
  define c where "c = (if lost \<ge> bbr_cwnd_bytes s1 \<or> bbr_cwnd_bytes s1 - lost < mss then mss else bbr_cwnd_bytes s1 - lost)"
  have ml: "mss \<le> limit" "bbr_cwnd_bytes s1 \<le> limit" using s1(1) by (simp_all add: ctl_ok_def)
  then have c: "mss \<le> c" "c \<le> limit"
    by (auto simp: c_def word_le_nat_alt word_less_nat_alt unat_sub_if')
  have cpos: "0 < c" using c(1) s by (auto simp: ctl_ok_def word_gt_0)
  have "s' = s \<or> s' = s1 \<or> s' = s1\<lparr>bbr_cwnd_bytes := c\<rparr>"
    using r unfolding tcp_shift_bbr_controller_recovery_note_loss_def n Let_def prod.case t c_def
    by (auto split: if_splits)
  then show "ctl_ok mss limit s'" "episode s' = episode s" using s s1 c cpos by (auto simp: ctl_ok_def)
qed

lemma recovery_exit_ok:
  assumes s: "ctl_ok mss limit s" and t: "mss_bytes t = mss" "cwnd_limit_bytes t = limit"
    and r: "tcp_shift_bbr_controller_recovery_exit s t p = (rc, s', p')"
  shows "ctl_ok mss limit s'"
    and "in_recovery (bbr_recovery s) \<Longrightarrow> rc = 0 \<and> \<not> in_recovery (bbr_recovery s') \<and>
      bbr_cwnd_bytes s' = min limit (max (bbr_cwnd_bytes s) (prior_cwnd_bytes (bbr_recovery s)))"
proof -
  have g: "\<not> (\<not> bbr_initialized s \<or> \<not> tcp_shift_bbr_controller_valid_transport t \<or>
        bbr_cwnd_bytes s = 0 \<or> bbr_cwnd_bytes s > cwnd_limit_bytes t)"
    using s t by (auto simp: ctl_ok_def tcp_shift_bbr_controller_valid_transport_def)
  define x where "x = (if bbr_cwnd_bytes s > prior_cwnd_bytes (bbr_recovery s) then bbr_cwnd_bytes s
    else prior_cwnd_bytes (bbr_recovery s))"
  define c where "c = (if x > limit then limit else x)"
  have x: "x = max (bbr_cwnd_bytes s) (prior_cwnd_bytes (bbr_recovery s))" by (auto simp: x_def max_def)
  then have c: "c = min limit (max (bbr_cwnd_bytes s) (prior_cwnd_bytes (bbr_recovery s)))"
    by (auto simp: c_def min_def)
  define q where "q = (bbr_recovery s)\<lparr>in_recovery := False, packet_conservation := False\<rparr>"
  have l: "limit \<noteq> 0" using s by (auto simp: ctl_ok_def word_le_nat_alt word_less_nat_alt)
  have cases: "s' = s \<and> rc = -1 \<and> \<not> in_recovery (bbr_recovery s) \<or>
      rc = 0 \<and> s' = s\<lparr>bbr_recovery := q, bbr_cwnd_bytes := c, pending_probe_loss_bytes := 0\<rparr>"
    using r s l g unfolding tcp_shift_bbr_controller_recovery_exit_def tcp_shift_bbr_recovery_exit_def
      Let_def t x_def c_def q_def by (auto simp: ctl_ok_def split: if_splits)
  have "0 < c" "c \<le> limit" using s by (auto simp: c_def x_def ctl_ok_def word_less_nat_alt word_le_nat_alt)
  then show "ctl_ok mss limit s'" using cases s by (auto simp: ctl_ok_def q_def)
  show "in_recovery (bbr_recovery s) \<Longrightarrow> rc = 0 \<and> \<not> in_recovery (bbr_recovery s') \<and>
      bbr_cwnd_bytes s' = min limit (max (bbr_cwnd_bytes s) (prior_cwnd_bytes (bbr_recovery s)))"
    using cases c by (auto simp: q_def)
qed

lemma on_timeout_ok:
  assumes s: "ctl_ok mss limit s" and t: "mss_bytes t = mss" "cwnd_limit_bytes t = limit"
    and r: "tcp_shift_bbr_controller_on_timeout s t ob p = (rc, s', p')"
  shows "ctl_ok mss limit s'"
proof -
  define m where "m = (bbr_model s)\<lparr>full_bw_bytes_per_sec := 0, full_bw_now := False, round_start := True\<rparr>"
  define a where "a = tcp_shift_bbr_controller_add_limit (post_loss_inflight_bytes ob) mss limit"
  define c where "c = (if a < mss then mss else a)"
  have "unat a = min (unat limit) (unat (post_loss_inflight_bytes ob) + unat mss)"
    unfolding a_def tcp_shift_bbr_controller_add_limit_def by (rule unat_capped_add_u32)
  moreover have "mss \<le> limit" "mss \<noteq> 0" using s by (simp_all add: ctl_ok_def)
  ultimately have c: "0 < c" "c \<le> limit" by (auto simp: c_def word_le_nat_alt word_less_nat_alt word_zero_nat)
  have "s' = s \<or> s' = s\<lparr>bbr_model := m, pending_probe_loss_bytes := 0,
      bbr_recovery := tcp_shift_bbr_recovery_init, bbr_cwnd_bytes := c\<rparr>"
    using r unfolding tcp_shift_bbr_controller_on_timeout_def m_def [symmetric] Let_def t a_def [symmetric] c_def
    by (auto split: if_splits)
  moreover have "model_ok m" "cycle_ok m (bbr_probe s)" using s by (simp_all add: m_def ctl_ok_def cycle_ok_def)
  ultimately show ?thesis using s c by (auto simp: ctl_ok_def tcp_shift_bbr_recovery_init_def)
qed

section \<open>Reachable states\<close>

text \<open>A controller after a successful initialisation, under any sequence of its operations on a path
  whose segment size and window limit do not change.\<close>

inductive bbr_reachable :: "u32 \<Rightarrow> u32 \<Rightarrow> tcp_shift_bbr_controller_state \<Rightarrow> bool" for mss limit where
  init: "mss_bytes t = mss \<Longrightarrow> cwnd_limit_bytes t = limit \<Longrightarrow>
    tcp_shift_bbr_controller_init s0 t i seed p = (0, s, p') \<Longrightarrow> bbr_reachable mss limit s"
| ack: "bbr_reachable mss limit s \<Longrightarrow> mss_bytes t = mss \<Longrightarrow> cwnd_limit_bytes t = limit \<Longrightarrow>
    tcp_shift_bbr_controller_on_ack s t a p = (rc, s', p') \<Longrightarrow> bbr_reachable mss limit s'"
| note_loss: "bbr_reachable mss limit s \<Longrightarrow>
    tcp_shift_bbr_controller_note_loss s lost = (rc, s') \<Longrightarrow> bbr_reachable mss limit s'"
| enter: "bbr_reachable mss limit s \<Longrightarrow> mss_bytes t = mss \<Longrightarrow> cwnd_limit_bytes t = limit \<Longrightarrow>
    tcp_shift_bbr_controller_recovery_enter s t acked lost p = (rc, s', p') \<Longrightarrow> bbr_reachable mss limit s'"
| recovery_loss: "bbr_reachable mss limit s \<Longrightarrow> mss_bytes t = mss \<Longrightarrow> cwnd_limit_bytes t = limit \<Longrightarrow>
    tcp_shift_bbr_controller_recovery_note_loss s t lost p = (rc, s', p') \<Longrightarrow> bbr_reachable mss limit s'"
| leave: "bbr_reachable mss limit s \<Longrightarrow> mss_bytes t = mss \<Longrightarrow> cwnd_limit_bytes t = limit \<Longrightarrow>
    tcp_shift_bbr_controller_recovery_exit s t p = (rc, s', p') \<Longrightarrow> bbr_reachable mss limit s'"
| timeout: "bbr_reachable mss limit s \<Longrightarrow> mss_bytes t = mss \<Longrightarrow> cwnd_limit_bytes t = limit \<Longrightarrow>
    tcp_shift_bbr_controller_on_timeout s t ob p = (rc, s', p') \<Longrightarrow> bbr_reachable mss limit s'"

lemma bbr_reachable_ok: "bbr_reachable mss limit s \<Longrightarrow> ctl_ok mss limit s"
proof (induction rule: bbr_reachable.induct)
  case (init t s0 i seed p s p')
  then show ?case using controller_init_ok [OF init(3)] by simp
next
  case (ack s t a p rc s' p')
  then show ?case using controller_on_ack_keeps(1) by blast
next
  case (note_loss s lost rc s')
  then show ?case using note_loss_ok(1) by blast
next
  case (enter s t acked lost p rc s' p')
  then show ?case using recovery_enter_ok(1) by blast
next
  case (recovery_loss s t lost p rc s' p')
  then show ?case using recovery_note_loss_ok(1) by blast
next
  case (leave s t p rc s' p')
  then show ?case using recovery_exit_ok(1) by blast
next
  case (timeout s t ob p rc s' p')
  then show ?case using on_timeout_ok by blast
qed

text \<open>The operations of a recovery episode between its entry and its exit.\<close>

inductive recovery_path :: "u32 \<Rightarrow> u32 \<Rightarrow> tcp_shift_bbr_controller_state \<Rightarrow> tcp_shift_bbr_controller_state \<Rightarrow> bool"
  for mss limit where
  here: "recovery_path mss limit s s"
| ack: "recovery_path mss limit s s1 \<Longrightarrow> mss_bytes t = mss \<Longrightarrow> cwnd_limit_bytes t = limit \<Longrightarrow>
    tcp_shift_bbr_controller_on_ack s1 t a p = (rc, s2, p') \<Longrightarrow> recovery_path mss limit s s2"
| note_loss: "recovery_path mss limit s s1 \<Longrightarrow>
    tcp_shift_bbr_controller_note_loss s1 lost = (rc, s2) \<Longrightarrow> recovery_path mss limit s s2"
| recovery_loss: "recovery_path mss limit s s1 \<Longrightarrow> mss_bytes t = mss \<Longrightarrow> cwnd_limit_bytes t = limit \<Longrightarrow>
    tcp_shift_bbr_controller_recovery_note_loss s1 t lost p = (rc, s2, p') \<Longrightarrow> recovery_path mss limit s s2"

lemma recovery_path_ok:
  "recovery_path mss limit s s' \<Longrightarrow> ctl_ok mss limit s \<Longrightarrow> ctl_ok mss limit s' \<and> episode s' = episode s"
proof (induction rule: recovery_path.induct)
  case (ack s s1 t a p rc s2 p')
  then show ?case using controller_on_ack_keeps [of mss limit s1 t a p rc s2 p'] by simp
next
  case (note_loss s s1 lost rc s2)
  then show ?case using note_loss_ok [of mss limit s1 lost rc s2] by simp
next
  case (recovery_loss s s1 t lost p rc s2 p')
  then show ?case using recovery_note_loss_ok [of mss limit s1 t lost p rc s2 p'] by simp
qed simp

section \<open>Properties\<close>

text \<open>C9. The controller stays usable: in every reachable state the window is nonzero and within the
  transport's limit, the pacing rate is nonzero, a recovery episode holds at least one segment,
  DRAIN implies a full pipe with a bandwidth estimate, and ProbeBW also a minimum RTT, so that no
  policy of the current mode is refused for a missing estimate.\<close>

theorem bbr_controller_invariant:
  assumes "bbr_reachable mss limit s"
  shows "0 < bbr_cwnd_bytes s \<and> bbr_cwnd_bytes s \<le> limit \<and> bbr_pacing_rate_bytes_per_sec s \<noteq> 0 \<and>
    (in_recovery (bbr_recovery s) \<longrightarrow> mss \<le> bbr_cwnd_bytes s) \<and>
    (mode (bbr_model s) \<in> {MODE_DRAIN, MODE_PROBE_BW} \<longrightarrow>
       full_bw_reached (bbr_model s) \<and> max_bw_bytes_per_sec (bbr_model s) \<noteq> 0) \<and>
    (mode (bbr_model s) = MODE_PROBE_BW \<longrightarrow> has_min_rtt (bbr_model s) \<and> min_rtt_ns (bbr_model s) \<noteq> 0)"
proof -
  have c: "ctl_ok mss limit s" by (rule bbr_reachable_ok [OF assms])
  then have "model_ok (bbr_model s)" by (simp add: ctl_ok_def)
  from model_okD [OF this] show ?thesis using c by (auto simp: ctl_ok_def)
qed

definition demo_controller_zero :: tcp_shift_bbr_controller_state where
  "demo_controller_zero = \<lparr>bbr_model = tcp_shift_bbr_model_init, bbr_probe = tcp_shift_bbr_probe_state_init 0,
    bbr_recovery = tcp_shift_bbr_recovery_init, bbr_pacing_rate_bytes_per_sec = 0, bbr_delivered_bytes = 0,
    bbr_initial_cwnd_bytes = 0, bbr_cwnd_bytes = 0, pending_probe_loss_bytes = 0, has_seen_rtt = False,
    bbr_initialized = False\<rparr>"

definition demo_controller :: tcp_shift_bbr_controller_state where
  "demo_controller = fst (snd (tcp_shift_bbr_controller_init demo_controller_zero demo_transport
     \<lparr>initial_cwnd_bytes = 10000, initial_ssthresh_bytes = 50000, init_min_cwnd_bytes = 2000\<rparr> 3 demo_policy))"

lemma demo_controller_reachable: "bbr_reachable 1000 50000 demo_controller"
proof (rule bbr_reachable.init [of demo_transport])
  let ?r = "tcp_shift_bbr_controller_init demo_controller_zero demo_transport
     \<lparr>initial_cwnd_bytes = 10000, initial_ssthresh_bytes = 50000, init_min_cwnd_bytes = 2000\<rparr> 3 demo_policy"
  have "fst ?r = 0" by code_simp
  then show "?r = (0, demo_controller, snd (snd ?r))"
    unfolding demo_controller_def by (metis prod.collapse)
qed (simp_all add: demo_transport_def)

theorem bbr_controller_invariant_witness:
  "0 < bbr_cwnd_bytes demo_controller \<and> bbr_cwnd_bytes demo_controller \<le> 50000 \<and>
   bbr_pacing_rate_bytes_per_sec demo_controller \<noteq> 0"
  using bbr_controller_invariant [OF demo_controller_reachable] by simp

text \<open>C26. Acceptance of ACKs: in a reachable state an ACK with a nonzero count of bytes and a nonzero time
  that does not run backwards is refused only when the estimator is left with a bandwidth below
  three bytes per second; an accepted ACK publishes the window and the rate that the controller
  keeps, within the transport's limit.\<close>

theorem bbr_ack_refused_only_without_bandwidth:
  assumes "bbr_reachable (mss_bytes t) (cwnd_limit_bytes t) s"
    and "acked_bytes a \<noteq> 0" and "ack_time_ns a \<noteq> 0" and "last_update_ns (bbr_model s) \<le> ack_time_ns a"
    and "tcp_shift_bbr_controller_on_ack s t a p = (rc, s', p')"
  shows "(rc \<noteq> 0 \<longrightarrow> unat (max_bw_bytes_per_sec (bbr_model s')) < 3) \<and>
    (rc = 0 \<longrightarrow> cwnd_bytes p' = bbr_cwnd_bytes s' \<and> 0 < cwnd_bytes p' \<and> cwnd_bytes p' \<le> cwnd_limit_bytes t \<and>
       pacing_rate_bytes_per_sec p' = bbr_pacing_rate_bytes_per_sec s' \<and> pacing_rate_bytes_per_sec p' \<noteq> 0)"
proof -
  have "ack_outcome (mss_bytes t) (cwnd_limit_bytes t) s (rc, s', p')"
    using controller_on_ack_ok [OF bbr_reachable_ok [OF assms(1)] refl refl assms(2,3), of p] assms(4,5) by simp
  then show ?thesis by (auto simp: ack_outcome_def ctl_ok_def)
qed

text \<open>The first ACK of a connection is accepted.\<close>

theorem bbr_ack_refused_only_without_bandwidth_witness:
  "0 < cwnd_bytes (snd (snd (tcp_shift_bbr_controller_on_ack demo_controller demo_transport
     ((demo_ack 1000)\<lparr>ack_rate := demo_sample 1000000 0 1000\<rparr>) demo_policy)))"
proof -
  let ?a = "(demo_ack 1000)\<lparr>ack_rate := demo_sample 1000000 0 1000\<rparr>"
  let ?r = "tcp_shift_bbr_controller_on_ack demo_controller demo_transport ?a demo_policy"
  have r: "bbr_reachable (mss_bytes demo_transport) (cwnd_limit_bytes demo_transport) demo_controller"
    using demo_controller_reachable by (simp add: demo_transport_def)
  have a: "acked_bytes ?a \<noteq> 0" "ack_time_ns ?a \<noteq> 0" by (simp_all add: demo_ack_def)
  have l: "last_update_ns (bbr_model demo_controller) \<le> ack_time_ns ?a" by code_simp
  have "?r = (fst ?r, fst (snd ?r), snd (snd ?r))" by simp
  note w = bbr_ack_refused_only_without_bandwidth [OF r a l this]
  have "fst ?r = 0" by code_simp
  then show ?thesis using w by blast
qed

text \<open>C27. A recovery episode gives back the window it took: from any reachable state, enter recovery, run
  any sequence of ACKs and loss notes, and exit; the exit is accepted, ends the episode, and
  leaves the window at least as large as it was at entry and within the limit.\<close>

theorem bbr_recovery_restores_window:
  assumes "bbr_reachable (mss_bytes t) (cwnd_limit_bytes t) s"
    and "tcp_shift_bbr_controller_recovery_enter s t acked lost p = (0, s1, p1)"
    and "recovery_path (mss_bytes t) (cwnd_limit_bytes t) s1 s2"
    and "tcp_shift_bbr_controller_recovery_exit s2 t p2 = (rc, s3, p3)"
  shows "rc = 0 \<and> \<not> in_recovery (bbr_recovery s3) \<and>
    bbr_cwnd_bytes s \<le> bbr_cwnd_bytes s3 \<and> bbr_cwnd_bytes s3 \<le> cwnd_limit_bytes t"
proof -
  let ?m = "mss_bytes t" and ?l = "cwnd_limit_bytes t"
  have s: "ctl_ok ?m ?l s" by (rule bbr_reachable_ok [OF assms(1)])
  note s1 = recovery_enter_ok [OF s refl refl assms(2)]
  have s2: "ctl_ok ?m ?l s2" "in_recovery (bbr_recovery s2)" "prior_cwnd_bytes (bbr_recovery s2) = bbr_cwnd_bytes s"
    using recovery_path_ok [OF assms(3) s1(1)] s1(2) by auto
  have "bbr_cwnd_bytes s \<le> ?l" using s by (simp add: ctl_ok_def)
  then show ?thesis using recovery_exit_ok(2) [OF s2(1) refl refl assms(4) s2(2)] s2(3) by auto
qed

text \<open>Entry at 10000 bytes with nothing in flight shrinks the window to one segment; the exit restores it.\<close>

theorem bbr_recovery_restores_window_witness:
  "bbr_cwnd_bytes (fst (snd (tcp_shift_bbr_controller_recovery_enter demo_controller
      (demo_transport\<lparr>inflight_bytes := 0\<rparr>) 0 1000 demo_policy))) = 1000 \<and>
   10000 \<le> bbr_cwnd_bytes (fst (snd (tcp_shift_bbr_controller_recovery_exit
     (fst (snd (tcp_shift_bbr_controller_recovery_enter demo_controller
      (demo_transport\<lparr>inflight_bytes := 0\<rparr>) 0 1000 demo_policy))) (demo_transport\<lparr>inflight_bytes := 0\<rparr>) demo_policy)))"
proof -
  let ?t = "demo_transport\<lparr>inflight_bytes := 0\<rparr>"
  let ?e = "tcp_shift_bbr_controller_recovery_enter demo_controller ?t 0 1000 demo_policy"
  let ?x = "tcp_shift_bbr_controller_recovery_exit (fst (snd ?e)) ?t demo_policy"
  have r: "bbr_reachable (mss_bytes ?t) (cwnd_limit_bytes ?t) demo_controller"
    using demo_controller_reachable by (simp add: demo_transport_def)
  have "fst ?e = 0" by code_simp
  then have e: "?e = (0, fst (snd ?e), snd (snd ?e))" by (metis prod.collapse)
  have c: "bbr_cwnd_bytes (fst (snd ?e)) = 1000" "bbr_cwnd_bytes demo_controller = 10000" by code_simp+
  have "?x = (fst ?x, fst (snd ?x), snd (snd ?x))" by simp
  from bbr_recovery_restores_window [OF r e recovery_path.here this] c show ?thesis by simp
qed

section \<open>Two observations\<close>

text \<open>The window saved for ProbeRTT is never reset: an entry keeps the larger of the current window and the
  window of any earlier episode, so the exit restores a running maximum rather than the window
  saved on this entry.\<close>

lemma probe_rtt_saves_running_maximum:
  assumes "mode m \<noteq> MODE_PROBE_RTT" and "min_rtt_expired m" and "mss_bytes t \<noteq> 0"
    and "mss_bytes t \<le> cwnd_limit_bytes t" and "0 < cwnd" and "cwnd \<le> cwnd_limit_bytes t"
  shows "probe_rtt_prior_cwnd_bytes (snd (snd (tcp_shift_bbr_probe_rtt_update m st t sample cwnd now))) =
    max cwnd (probe_rtt_prior_cwnd_bytes st)"
proof -
  have g: "\<not> (mss_bytes t = 0 \<or> cwnd_limit_bytes t = 0 \<or> cwnd_limit_bytes t < mss_bytes t \<or> cwnd = 0 \<or>
      cwnd > cwnd_limit_bytes t)"
    using assms(3-6) by (auto simp: word_le_nat_alt word_less_nat_alt word_zero_nat)
  show ?thesis using assms(1,2)
    unfolding tcp_shift_bbr_probe_rtt_update_def if_not_P [OF g] Let_def by (auto simp: max_def)
qed

text \<open>A connection whose ACKs carry RTT samples but no rate sample enters ProbeRTT from STARTUP after the
  ten-second window; with no bandwidth estimate the policy's rate is zero and the ACK is refused.\<close>

lemma probe_rtt_without_bandwidth_refuses_ack:
  "let s1 = fst (snd (tcp_shift_bbr_controller_on_ack demo_controller demo_transport
         ((demo_ack 1000)\<lparr>ack_rate := (demo_sample 0 0 1000)\<lparr>flags := 8\<rparr>\<rparr>) demo_policy));
       r = tcp_shift_bbr_controller_on_ack s1 demo_transport
         ((demo_ack 1000)\<lparr>ack_time_ns := 12000000000, ack_rate := (demo_sample 0 1000 2000)\<lparr>flags := 8\<rparr>\<rparr>) demo_policy
   in fst r = -1 \<and> mode (bbr_model (fst (snd r))) = MODE_PROBE_RTT"
  by code_simp

end
