(* ===== verification/C_Text.thy ===== *)
theory C_Text
  imports Prelude "HOL-Library.Char_ord"
begin

text \<open>
  The parts of the C library that the configuration parsers use, on strings without their
  terminating zero: \<^verbatim>\<open>isspace\<close>, \<^verbatim>\<open>strchr\<close>, \<^verbatim>\<open>strrchr\<close> and \<^verbatim>\<open>strtoull\<close> in base ten (leading
  white space, an optional sign that negates modulo two to the 64, and the range error). Decimal
  printing is the inverse used in the round-trip theorems.
\<close>

section \<open>Characters\<close>

definition c_isspace :: "char \<Rightarrow> bool" where
  "c_isspace c \<longleftrightarrow> c = CHR 0x20 \<or> c = CHR 0x09 \<or> c = CHR 0x0A \<or> c = CHR 0x0B \<or> c = CHR 0x0C \<or> c = CHR 0x0D"

definition char_int :: "char \<Rightarrow> int" where
  "char_int c = of_char c"

definition c_isdigit :: "char \<Rightarrow> bool" where
  "c_isdigit c \<longleftrightarrow> 48 \<le> char_int c \<and> char_int c \<le> 57"

lemma isdigit_not_space: "c_isdigit c \<Longrightarrow> \<not> c_isspace c"
  by (auto simp: c_isdigit_def c_isspace_def char_int_def)

lemma isdigit_chars: "c_isdigit c \<Longrightarrow> c \<noteq> CHR ''-'' \<and> c \<noteq> CHR ''+'' \<and> c \<noteq> CHR '','' \<and> c \<noteq> CHR ''='' \<and> c \<noteq> CHR ''/''"
  by (auto simp: c_isdigit_def char_int_def)

section \<open>Searching\<close>

text \<open>\<^verbatim>\<open>strchr\<close> and \<^verbatim>\<open>strrchr\<close>: the text before the character found and the text after it.\<close>

fun c_strchr :: "string \<Rightarrow> char \<Rightarrow> (string \<times> string) option" where
  "c_strchr [] x = None"
| "c_strchr (c # cs) x =
    (if c = x then Some ([], cs)
     else (case c_strchr cs x of None \<Rightarrow> None | Some (before, after) \<Rightarrow> Some (c # before, after)))"

definition c_strrchr :: "string \<Rightarrow> char \<Rightarrow> (string \<times> string) option" where
  "c_strrchr s x =
    (case c_strchr (rev s) x of None \<Rightarrow> None | Some (after, before) \<Rightarrow> Some (rev before, rev after))"

lemma strchr_append: "x \<notin> set a \<Longrightarrow> c_strchr (a @ x # b) x = Some (a, b)"
  by (induction a) auto

lemma strchr_none: "x \<notin> set a \<Longrightarrow> c_strchr a x = None"
  by (induction a) auto

lemma strchr_some: "c_strchr s x = Some (a, b) \<Longrightarrow> s = a @ x # b \<and> x \<notin> set a"
  by (induction s arbitrary: a) (auto split: if_splits option.splits)

lemma strrchr_append: "x \<notin> set b \<Longrightarrow> c_strrchr (a @ x # b) x = Some (a, b)"
  by (simp add: c_strrchr_def strchr_append)

section \<open>Decimal numbers\<close>

definition digits_value :: "string \<Rightarrow> int" where
  "digits_value ds = foldl (\<lambda>a c. 10 * a + (char_int c - 48)) 0 ds"

text \<open>The value, the text where the conversion stopped, and whether \<^verbatim>\<open>errno\<close> was set.\<close>

definition c_strtoull :: "string \<Rightarrow> u64 \<times> string \<times> bool" where
  "c_strtoull s =
    (let t = dropWhile c_isspace s;
         (negative, t) = (case t of [] \<Rightarrow> (False, t)
            | c # r \<Rightarrow> if c = CHR ''-'' then (True, r) else if c = CHR ''+'' then (False, r) else (False, t));
         digits = takeWhile c_isdigit t;
         rest = dropWhile c_isdigit t
     in if digits = [] then (0, s, False)
        else
          let n = digits_value digits
          in if n > 18446744073709551615 then (UINT64_MAX, rest, True)
             else (if negative then - of_int n else of_int n, rest, False))"

definition digit_char :: "int \<Rightarrow> char" where
  "digit_char d = char_of (48 + d)"

function show_int :: "int \<Rightarrow> string" where
  "show_int n = (if n < 10 then [digit_char n] else show_int (n div 10) @ [digit_char (n mod 10)])"
  by pat_completeness auto
termination by (relation "measure nat") auto

declare show_int.simps [simp del]

lemma digit_char_value:
  assumes "0 \<le> d" and "d < 10"
  shows "char_int (digit_char d) = 48 + d" and "c_isdigit (digit_char d)"
proof -
  have "char_int (digit_char d) = (48 + d) mod 256" by (simp add: char_int_def digit_char_def)
  also have "\<dots> = 48 + d" using assms by simp
  finally show "char_int (digit_char d) = 48 + d" .
  then show "c_isdigit (digit_char d)" using assms by (simp add: c_isdigit_def)
qed

lemma show_int_digits: "0 \<le> n \<Longrightarrow> (\<forall>c \<in> set (show_int n). c_isdigit c) \<and> show_int n \<noteq> []"
proof (induction n rule: show_int.induct)
  case (1 n)
  show ?case
  proof (cases "n < 10")
    case True
    then show ?thesis using 1(2) digit_char_value(2) [of n] by (simp add: show_int.simps [of n])
  next
    case False
    then show ?thesis using 1 digit_char_value(2) [of "n mod 10"] by (simp add: show_int.simps [of n])
  qed
qed

lemma digits_value_show: "0 \<le> n \<Longrightarrow> digits_value (show_int n) = n"
proof (induction n rule: show_int.induct)
  case (1 n)
  show ?case
  proof (cases "n < 10")
    case True
    then show ?thesis using 1(2) digit_char_value(1) [of n]
      by (simp add: show_int.simps [of n] digits_value_def)
  next
    case False
    then have "digits_value (show_int (n div 10)) = n div 10" using 1 by simp
    then show ?thesis using False digit_char_value(1) [of "n mod 10"]
      by (simp add: show_int.simps [of n] digits_value_def)
  qed
qed

lemma show_int_length: "0 \<le> n \<Longrightarrow> n < 10 ^ k \<Longrightarrow> 0 < k \<Longrightarrow> length (show_int n) \<le> k"
proof (induction n arbitrary: k rule: show_int.induct)
  case (1 n)
  show ?case
  proof (cases "n < 10")
    case False
    then obtain j where j: "k = Suc j" "0 < j" using 1(3,4) by (cases k; cases "k - 1") auto
    then have "n div 10 < 10 ^ j" using 1(3) by (simp add: div_less_iff_less_mult)
    then have "length (show_int (n div 10)) \<le> j" using 1(1) [OF False] 1(2) j(2) by simp
    then show ?thesis using False j(1) by (simp add: show_int.simps [of n])
  qed (use 1(4) in \<open>simp add: show_int.simps [of n]\<close>)
qed

text \<open>Reading back a printed number that is followed by something else.\<close>

lemma strtoull_show:
  assumes "0 \<le> n" and "n \<le> 18446744073709551615" and "rest = [] \<or> \<not> c_isdigit (hd rest)"
  shows "c_strtoull (show_int n @ rest) = (of_int n, rest, False)"
proof -
  obtain d ds where d: "show_int n = d # ds" using show_int_digits [OF assms(1)] by (cases "show_int n") auto
  have dig: "\<forall>c \<in> set (d # ds). c_isdigit c" using show_int_digits [OF assms(1)] d by simp
  then have h: "\<not> c_isspace d" "d \<noteq> CHR ''-''" "d \<noteq> CHR ''+''"
    using isdigit_not_space isdigit_chars by auto
  have tw: "takeWhile c_isdigit ((d # ds) @ rest) = d # ds" "dropWhile c_isdigit ((d # ds) @ rest) = rest"
    using dig assms(3) by (cases rest; simp add: takeWhile_append dropWhile_append)+
  have "digits_value (d # ds) = n" using digits_value_show [OF assms(1)] d by simp
  then show ?thesis using h tw assms(2) unfolding d by (simp add: c_strtoull_def Let_def)
qed

end
