(* ===== verification/Tcp_Memory_Config.thy ===== *)
theory Tcp_Memory_Config
  imports C_Text
begin

text \<open>
  The configuration half of \<^verbatim>\<open>src/lwip/tcp_memory.c\<close>: the send-memory policies, the parsers of
  \<^verbatim>\<open>TCP_SHIFT_TCP_WMEM\<close> and \<^verbatim>\<open>TCP_SHIFT_TCP_MEM\<close>, the memory limit of the process and the default
  policy. A parser that returns \<open>-1\<close> leaves its output alone and is \<^const>\<open>None\<close> here. What the
  operating system says (page counts, control-group files, environment) is an argument.
\<close>

section \<open>Policies\<close>

record tcp_shift_tcp_wmem_policy =
  min_bytes :: u32
  initial_bytes :: u32
  max_bytes :: u32

record tcp_shift_tcp_mem_policy =
  low_bytes :: u64
  pressure_bytes :: u64
  high_bytes :: u64

record tcp_shift_tcp_memory_config =
  wmem :: tcp_shift_tcp_wmem_policy
  mem :: tcp_shift_tcp_mem_policy
  effective_memory_bytes :: u64

definition TCP_SHIFT_TCP_WMEM_DEFAULT_MIN_BYTES :: u32 where "TCP_SHIFT_TCP_WMEM_DEFAULT_MIN_BYTES = 4096"
definition TCP_SHIFT_TCP_WMEM_DEFAULT_INITIAL_BYTES :: u32 where "TCP_SHIFT_TCP_WMEM_DEFAULT_INITIAL_BYTES = 32768"
definition TCP_SHIFT_TCP_MEM_PRESSURE_DIVISOR :: u64 where "TCP_SHIFT_TCP_MEM_PRESSURE_DIVISOR = 16"
definition TCP_SHIFT_TCP_MEM_MIN_PAGES :: u64 where "TCP_SHIFT_TCP_MEM_MIN_PAGES = 128"

lemmas tcp_mem_const_defs = TCP_SHIFT_TCP_WMEM_DEFAULT_MIN_BYTES_def TCP_SHIFT_TCP_WMEM_DEFAULT_INITIAL_BYTES_def
  TCP_SHIFT_TCP_MEM_PRESSURE_DIVISOR_def TCP_SHIFT_TCP_MEM_MIN_PAGES_def

definition tcp_shift_u64_min :: "u64 \<Rightarrow> u64 \<Rightarrow> u64" where
  "tcp_shift_u64_min left right = (if left < right then left else right)"

definition tcp_shift_u64_mul_sat :: "u64 \<Rightarrow> u64 \<Rightarrow> u64" where
  "tcp_shift_u64_mul_sat x multiplier =
    (if x \<noteq> 0 \<and> multiplier > UINT64_MAX div x then UINT64_MAX else x * multiplier)"

section \<open>The memory of the process\<close>

text \<open>The first line of a limit file, when the file can be opened and has one.\<close>

definition tcp_shift_read_limit_file :: "string option \<Rightarrow> u64" where
  "tcp_shift_read_limit_file line =
    (case line of None \<Rightarrow> 0
     | Some buffer \<Rightarrow>
         if take 3 buffer = ''max'' then UINT64_MAX
         else
           let (parsed, rest, range) = c_strtoull buffer
           in if range \<or> rest = buffer \<or> parsed = 0 then 0 else parsed)"

definition tcp_shift_tcp_memory_effective_bytes :: "int \<Rightarrow> int \<Rightarrow> string option \<Rightarrow> string option \<Rightarrow> u64" where
  "tcp_shift_tcp_memory_effective_bytes pages page_size memory_max limit_in_bytes =
    (let physical = (if pages > 0 \<and> page_size > 0 \<and> of_int pages \<le> UINT64_MAX div of_int page_size
                     then of_int pages * of_int page_size else 0);
         effective = physical;
         limit = tcp_shift_read_limit_file memory_max;
         limit = (if limit = 0 then tcp_shift_read_limit_file limit_in_bytes else limit);
         effective = (if limit \<noteq> 0 \<and> limit \<noteq> UINT64_MAX
                      then (if effective = 0 then limit else tcp_shift_u64_min effective limit) else effective)
     in if effective = 0 then 256 * 1024 * 1024 else effective)"

section \<open>Parsers\<close>

text \<open>The end of the string reads as the zero character.\<close>

abbreviation head0 :: "string \<Rightarrow> char" where
  "head0 s \<equiv> (case s of [] \<Rightarrow> CHR 0x00 | c # _ \<Rightarrow> c)"

definition size_multiplier :: "char \<Rightarrow> u64 option" where
  "size_multiplier c =
    (if c = CHR ''k'' \<or> c = CHR ''K'' then Some 1024
     else if c = CHR ''m'' \<or> c = CHR ''M'' then Some (1024 * 1024)
     else if c = CHR ''g'' \<or> c = CHR ''G'' then Some (1024 * 1024 * 1024)
     else None)"

text \<open>The unit after the number: an optional multiplier letter with an optional \<^verbatim>\<open>i\<close> and \<^verbatim>\<open>b\<close>.\<close>

definition size_suffix :: "string \<Rightarrow> u64 option" where
  "size_suffix rest =
    (let rest = dropWhile c_isspace rest
     in case rest of [] \<Rightarrow> Some 1
        | c # cs \<Rightarrow>
            (case size_multiplier c of None \<Rightarrow> None
             | Some multiplier \<Rightarrow>
                 let cs = (if head0 cs = CHR ''i'' \<or> head0 cs = CHR ''I'' then tl cs else cs);
                     cs = (if head0 cs = CHR ''b'' \<or> head0 cs = CHR ''B'' then tl cs else cs);
                     cs = dropWhile c_isspace cs
                 in if cs \<noteq> [] then None else Some multiplier))"

definition tcp_shift_parse_size_span :: "string \<Rightarrow> u64 option" where
  "tcp_shift_parse_size_span span =
    (if span = [] then None
     else
       let token = dropWhile c_isspace span;
           token = rev (dropWhile c_isspace (rev token))
       in if token = [] \<or> length token \<ge> 64 then None
          else
            let (parsed, rest, range) = c_strtoull token
            in if range \<or> rest = token then None
               else
                 (case size_suffix rest of None \<Rightarrow> None
                  | Some multiplier \<Rightarrow>
                      if parsed > UINT64_MAX div multiplier then None else Some (parsed * multiplier)))"

definition tcp_shift_parse_size :: "string option \<Rightarrow> u64 option" where
  "tcp_shift_parse_size text = (case text of None \<Rightarrow> None | Some t \<Rightarrow> tcp_shift_parse_size_span t)"

definition tcp_shift_parse_triplet :: "string \<Rightarrow> (u64 \<times> u64 \<times> u64) option" where
  "tcp_shift_parse_triplet text =
    (if text = [] then None
     else
       case c_strchr text CHR '','' of None \<Rightarrow> None
       | Some (first, cursor) \<Rightarrow>
           if first = [] then None
           else
             (case tcp_shift_parse_size_span first of None \<Rightarrow> None
              | Some v0 \<Rightarrow>
                  (case c_strchr cursor CHR '','' of None \<Rightarrow> None
                   | Some (second, cursor) \<Rightarrow>
                       if second = [] then None
                       else
                         (case tcp_shift_parse_size_span second of None \<Rightarrow> None
                          | Some v1 \<Rightarrow>
                              if c_strchr cursor CHR '','' \<noteq> None \<or> cursor = [] then None
                              else
                                (case tcp_shift_parse_size (Some cursor) of None \<Rightarrow> None
                                 | Some v2 \<Rightarrow> Some (v0, v1, v2))))))"

definition tcp_shift_tcp_memory_parse_wmem :: "string \<Rightarrow> tcp_shift_tcp_wmem_policy option" where
  "tcp_shift_tcp_memory_parse_wmem text =
    (case tcp_shift_parse_triplet text of None \<Rightarrow> None
     | Some (v0, v1, v2) \<Rightarrow>
         if v0 = 0 \<or> v0 > v1 \<or> v1 > v2 \<or> v2 > u64_of UINT32_MAX then None
         else Some \<lparr>min_bytes = u32_of v0, initial_bytes = u32_of v1, max_bytes = u32_of v2\<rparr>)"

definition tcp_shift_tcp_memory_parse_mem :: "string \<Rightarrow> tcp_shift_tcp_mem_policy option" where
  "tcp_shift_tcp_memory_parse_mem text =
    (case tcp_shift_parse_triplet text of None \<Rightarrow> None
     | Some (v0, v1, v2) \<Rightarrow>
         if v0 > v1 \<or> v1 > v2 \<or> v2 = 0 then None
         else Some \<lparr>low_bytes = v0, pressure_bytes = v1, high_bytes = v2\<rparr>)"

section \<open>The default policy\<close>

definition tcp_shift_tcp_memory_config_default :: "u64 \<Rightarrow> u64 \<Rightarrow> tcp_shift_tcp_memory_config option" where
  "tcp_shift_tcp_memory_config_default effective page_size =
    (if effective = 0 then None
     else
       let page_size = (if page_size = 0 then 4096 else page_size);
           minimum = TCP_SHIFT_TCP_WMEM_DEFAULT_MIN_BYTES;
           initial = TCP_SHIFT_TCP_WMEM_DEFAULT_INITIAL_BYTES;
           pressure = effective div TCP_SHIFT_TCP_MEM_PRESSURE_DIVISOR;
           floor_bytes = tcp_shift_u64_mul_sat TCP_SHIFT_TCP_MEM_MIN_PAGES page_size;
           pressure = (if pressure < floor_bytes then floor_bytes else pressure);
           m = \<lparr>low_bytes = pressure - pressure div 4, pressure_bytes = pressure,
                high_bytes = pressure + pressure div 2\<rparr>;
           max_candidate = high_bytes m;
           max_candidate = (if max_candidate > u64_of UINT32_MAX then u64_of UINT32_MAX else max_candidate);
           max_candidate = (if max_candidate < u64_of initial then u64_of initial else max_candidate)
       in Some \<lparr>wmem = \<lparr>min_bytes = minimum, initial_bytes = initial, max_bytes = u32_of max_candidate\<rparr>,
                mem = m, effective_memory_bytes = effective\<rparr>)"

text \<open>The validity test of \<^verbatim>\<open>tcp_shift_tcp_memory_manager_init\<close>.\<close>

definition memory_config_valid :: "tcp_shift_tcp_memory_config \<Rightarrow> bool" where
  "memory_config_valid config \<longleftrightarrow>
    \<not> (min_bytes (wmem config) = 0 \<or> min_bytes (wmem config) > initial_bytes (wmem config) \<or>
       initial_bytes (wmem config) > max_bytes (wmem config) \<or> low_bytes (mem config) > pressure_bytes (mem config) \<or>
       pressure_bytes (mem config) > high_bytes (mem config) \<or> high_bytes (mem config) = 0)"

section \<open>Round trips\<close>

definition show_triplet :: "u64 \<Rightarrow> u64 \<Rightarrow> u64 \<Rightarrow> string" where
  "show_triplet a b c = show_int (uint a) @ '','' @ show_int (uint b) @ '','' @ show_int (uint c)"

lemma show_uint: "(\<forall>c \<in> set (show_int (uint a)). c_isdigit c)" "show_int (uint (a :: u64)) \<noteq> []"
  using show_int_digits [of "uint a"] by simp_all

text \<open>A 64-bit number has at most twenty digits.\<close>

lemma show_uint_length: "length (show_int (uint (a :: u64))) < 64"
proof -
  have "uint a < 10 ^ 20" using uint_lt2p [of a] by simp
  then have "length (show_int (uint a)) \<le> 20" by (intro show_int_length) simp_all
  then show ?thesis by simp
qed

lemma parse_size_show: "tcp_shift_parse_size_span (show_int (uint (a :: u64))) = Some a"
proof -
  let ?s = "show_int (uint a)"
  have ds: "\<not> c_isspace (hd ?s)" "\<not> c_isspace (hd (rev ?s))"
    using show_uint [of a] isdigit_not_space by (simp_all add: hd_rev)
  have "dropWhile c_isspace ?s = ?s" "dropWhile c_isspace (rev ?s) = rev ?s"
    using ds show_uint(2) [of a] by (cases ?s, simp_all) (cases "rev ?s", simp_all)
  moreover have "uint a \<le> 18446744073709551615" using uint_lt2p [of a] by simp
  then have "c_strtoull ?s = (a, [], False)" using strtoull_show [of "uint a" "[]"] by simp
  moreover have "\<exists>x \<in> set ?s. \<not> c_isspace x" using show_uint [of a] isdigit_not_space by (cases ?s) auto
  moreover have "\<not> UINT64_MAX < a" by (simp add: not_less)
  ultimately show ?thesis using show_uint(2) [of a] show_uint_length [of a]
    by (simp add: tcp_shift_parse_size_span_def size_suffix_def Let_def not_le)
qed

lemma comma_not_digit: "CHR '','' \<notin> set (show_int (uint (a :: u64)))"
  using show_uint(1) [of a] isdigit_chars by blast

lemma parse_triplet_show: "tcp_shift_parse_triplet (show_triplet a b c) = Some (a, b, c)"
  using strchr_append [OF comma_not_digit] strchr_none [OF comma_not_digit]
  by (simp add: tcp_shift_parse_triplet_def show_triplet_def tcp_shift_parse_size_def parse_size_show show_uint)

section \<open>Properties\<close>

text \<open>C28. The send-memory settings round-trip: every ordered per-flow policy and every ordered global
  policy, printed as three decimal numbers separated by commas, parses back to itself.\<close>

theorem tcp_memory_settings_roundtrip:
  assumes "0 < min_bytes w" and "min_bytes w \<le> initial_bytes w" and "initial_bytes w \<le> max_bytes w"
    and "low_bytes g \<le> pressure_bytes g" and "pressure_bytes g \<le> high_bytes g" and "0 < high_bytes g"
  shows "tcp_shift_tcp_memory_parse_wmem (show_triplet (u64_of (min_bytes w)) (u64_of (initial_bytes w))
      (u64_of (max_bytes w))) = Some w \<and>
    tcp_shift_tcp_memory_parse_mem (show_triplet (low_bytes g) (pressure_bytes g) (high_bytes g)) = Some g"
proof -
  have "\<not> (u64_of (min_bytes w) = 0 \<or> u64_of (min_bytes w) > u64_of (initial_bytes w) \<or>
      u64_of (initial_bytes w) > u64_of (max_bytes w) \<or> u64_of (max_bytes w) > u64_of UINT32_MAX)"
    using assms(1-3) unat_lt_u32 [of "max_bytes w"] by (auto simp: word_zero_nat word_less_nat_alt word_le_nat_alt)
  then show ?thesis using assms(4-6)
    by (auto simp: tcp_shift_tcp_memory_parse_wmem_def tcp_shift_tcp_memory_parse_mem_def parse_triplet_show)
qed

theorem tcp_memory_settings_roundtrip_witness:
  "tcp_shift_tcp_memory_parse_wmem (show_triplet 4096 32768 4194304) =
    Some \<lparr>min_bytes = 4096, initial_bytes = 32768, max_bytes = 4194304\<rparr>"
  using tcp_memory_settings_roundtrip [of "\<lparr>min_bytes = 4096, initial_bytes = 32768, max_bytes = 4194304\<rparr>"
      "\<lparr>low_bytes = 1, pressure_bytes = 2, high_bytes = 3\<rparr>"]
  by simp

text \<open>The automatic policy is always acceptable: for every nonzero memory size and every page size up to
  2 to the 56 bytes the default exists and passes the manager's validity test, its pressure
  threshold is the larger of a sixteenth of the memory and 128 pages, and the three global
  thresholds are three quarters, the whole and one and a half of it.\<close>

theorem tcp_memory_default_acceptable:
  assumes "effective \<noteq> 0" and "page \<le> 72057594037927936"
  shows "\<exists>c. tcp_shift_tcp_memory_config_default effective page = Some c \<and> memory_config_valid c \<and>
    unat (pressure_bytes (mem c)) = max (unat effective div 16) (128 * (if page = 0 then 4096 else unat page)) \<and>
    unat (low_bytes (mem c)) = unat (pressure_bytes (mem c)) - unat (pressure_bytes (mem c)) div 4 \<and>
    unat (high_bytes (mem c)) = unat (pressure_bytes (mem c)) + unat (pressure_bytes (mem c)) div 2"
proof -
  define ps where "ps = (if page = 0 then 4096 else page)"
  define f where "f = tcp_shift_u64_mul_sat TCP_SHIFT_TCP_MEM_MIN_PAGES ps"
  define P where "P = (if effective div TCP_SHIFT_TCP_MEM_PRESSURE_DIVISOR < f then f
    else effective div TCP_SHIFT_TCP_MEM_PRESSURE_DIVISOR)"
  have ps: "unat ps = (if page = 0 then 4096 else unat page)" "unat ps \<le> 72057594037927936"
    using assms(2) by (simp_all add: ps_def word_le_nat_alt)
  have q: "unat (UINT64_MAX div 128 :: u64) = 144115188075855871" by (simp add: unat_div_distrib)
  have "\<not> (ps > UINT64_MAX div 128)" using ps(2) by (simp add: word_less_nat_alt q del: word_div_def)
  then have "f = 128 * ps" by (simp add: f_def tcp_shift_u64_mul_sat_def tcp_mem_const_defs)
  then have f: "unat f = 128 * unat ps" using ps(2) by (simp add: unat_mult_exact)
  have d: "unat (effective div TCP_SHIFT_TCP_MEM_PRESSURE_DIVISOR) = unat effective div 16"
    by (simp add: tcp_mem_const_defs unat_div_distrib)
  have P: "unat P = max (unat effective div 16) (128 * unat ps)" by (simp add: P_def word_less_nat_alt f d)
  have bound: "unat P \<le> 9223372036854775808" using ps(2) unat_lt_u64 [of effective] unfolding P by simp
  have h: "unat (P + P div 2) = unat P + unat P div 2"
    using bound by (subst unat_add_exact) (simp_all add: unat_div_distrib)
  have l: "unat (P - P div 4) = unat P - unat P div 4" by (subst unat_diff_exact) (simp_all add: unat_div_distrib)
  have pos: "unat P \<noteq> 0" using ps(1) unfolding P by (auto simp: word_zero_nat split: if_splits)
  define k where "k = (if P + P div 2 > u64_of UINT32_MAX then u64_of UINT32_MAX else P + P div 2)"
  define k' where "k' = (if k < u64_of TCP_SHIFT_TCP_WMEM_DEFAULT_INITIAL_BYTES
    then u64_of TCP_SHIFT_TCP_WMEM_DEFAULT_INITIAL_BYTES else k)"
  have k: "unat k \<le> 4294967295" by (auto simp: k_def word_less_nat_alt)
  then have k': "32768 \<le> unat k'" "unat k' \<le> 4294967295"
    by (auto simp: k'_def word_less_nat_alt tcp_mem_const_defs)
  define c where "c = \<lparr>wmem = \<lparr>min_bytes = TCP_SHIFT_TCP_WMEM_DEFAULT_MIN_BYTES,
      initial_bytes = TCP_SHIFT_TCP_WMEM_DEFAULT_INITIAL_BYTES, max_bytes = u32_of k'\<rparr>,
    mem = \<lparr>low_bytes = P - P div 4, pressure_bytes = P, high_bytes = P + P div 2\<rparr>,
    effective_memory_bytes = effective\<rparr>"
  have e: "tcp_shift_tcp_memory_config_default effective page = Some c"
    using assms(1) unfolding tcp_shift_tcp_memory_config_default_def c_def k'_def k_def P_def f_def ps_def Let_def
    by simp
  have "unat (max_bytes (wmem c)) = unat k'" using k' by (simp add: c_def unat_u32_of_small)
  then have "memory_config_valid c" using k' pos
    by (simp add: memory_config_valid_def c_def word_less_nat_alt word_zero_nat tcp_mem_const_defs h l)
  then show ?thesis using e P h l ps(1) by (simp add: c_def)
qed

theorem tcp_memory_default_acceptable_witness:
  "\<exists>c. tcp_shift_tcp_memory_config_default 1073741824 4096 = Some c \<and> memory_config_valid c \<and>
    unat (pressure_bytes (mem c)) = 67108864"
  using tcp_memory_default_acceptable [of 1073741824 4096] by auto

text \<open>A negative number is not refused: the conversion negates it modulo two to the 64, so that a high-water
  mark of minus one is no limit at all.\<close>

lemma parse_mem_accepts_minus_one:
  "tcp_shift_tcp_memory_parse_mem ''0,0,-1'' =
    Some \<lparr>low_bytes = 0, pressure_bytes = 0, high_bytes = UINT64_MAX\<rparr>"
  by code_simp

end
