(* ===== verification/Tcp_Memory.thy ===== *)
theory Tcp_Memory
  imports Tcp_Memory_Config Lwip_Io
begin

text \<open>
  The accounting half of \<^verbatim>\<open>src/lwip/tcp_memory.c\<close>: the process-wide manager, the per-flow
  capacity and charge, and the raw-lwIP wrappers around \<^verbatim>\<open>tcp_write\<close> and \<^verbatim>\<open>tcp_sent\<close>. The flow's
  pointer to the manager is a flag: set, it points to the one manager. Of lwIP's control block
  the model has the fields this file reads and writes, the extension slot that
  \<^verbatim>\<open>tcp_ext_arg_get\<close> reads and the \<^verbatim>\<open>sent\<close> callback; lwIP's \<^verbatim>\<open>tcp_write\<close> is an argument. The
  interface \<open>byte_ledger\<close> says what the flow operations promise about their charges, and shows
  once that the total charge is exact and bounded.
\<close>

section \<open>State\<close>

record tcp_shift_tcp_memory_stats =
  flow_inits :: u64
  flow_releases :: u64
  write_events :: u64
  write_bytes :: u64
  mem_ack_events :: u64
  ack_bytes :: u64
  charged_bytes :: u64
  peak_charged_bytes :: u64
  pressure_enters :: u64
  pressure_exits :: u64
  high_blocks :: u64
  growth_events :: u64
  growth_bytes :: u64
  growth_suppressed :: u64
  accounting_underflows :: u64

record tcp_shift_tcp_memory_manager =
  mem_config :: tcp_shift_tcp_memory_config
  mem_stats :: tcp_shift_tcp_memory_stats
  pressure_active :: bool

record tcp_shift_tcp_memory_flow =
  flow_manager :: bool
  capacity_bytes :: u32
  sndbuf_expand_num :: u32
  sndbuf_expand_den :: u32
  queued_bytes :: u64

text \<open>The fields of lwIP's control block that the manager uses.\<close>

record tcp_pcb =
  snd_buf :: u32
  pcb_cwnd :: u32
  snd_queuelen :: u16
  has_unsent :: bool
  has_unacked :: bool

definition TCP_SHIFT_TCP_SNDBUF_EXPAND_NUM :: u32 where "TCP_SHIFT_TCP_SNDBUF_EXPAND_NUM = 2"
definition TCP_SHIFT_TCP_SNDBUF_EXPAND_DEN :: u32 where "TCP_SHIFT_TCP_SNDBUF_EXPAND_DEN = 1"

definition memory_stats_zero :: tcp_shift_tcp_memory_stats where
  "memory_stats_zero =
    \<lparr>flow_inits = 0, flow_releases = 0, write_events = 0, write_bytes = 0, mem_ack_events = 0, ack_bytes = 0,
     charged_bytes = 0, peak_charged_bytes = 0, pressure_enters = 0, pressure_exits = 0, high_blocks = 0,
     growth_events = 0, growth_bytes = 0, growth_suppressed = 0, accounting_underflows = 0\<rparr>"

abbreviation charged :: "tcp_shift_tcp_memory_manager \<Rightarrow> u64" where
  "charged m \<equiv> charged_bytes (mem_stats m)"

section \<open>Operations\<close>

definition tcp_shift_tcp_memory_manager_init ::
    "tcp_shift_tcp_memory_manager \<Rightarrow> tcp_shift_tcp_memory_config \<Rightarrow> int \<times> tcp_shift_tcp_memory_manager" where
  "tcp_shift_tcp_memory_manager_init manager config =
    (if \<not> memory_config_valid config then (-1, manager)
     else (0, manager\<lparr>mem_config := config, mem_stats := memory_stats_zero, pressure_active := False\<rparr>))"

definition tcp_shift_tcp_memory_update_pressure :: "tcp_shift_tcp_memory_manager \<Rightarrow> tcp_shift_tcp_memory_manager" where
  "tcp_shift_tcp_memory_update_pressure manager =
    (if \<not> pressure_active manager \<and> charged manager \<ge> pressure_bytes (mem (mem_config manager))
     then manager\<lparr>pressure_active := True,
                  mem_stats := (mem_stats manager)\<lparr>pressure_enters := pressure_enters (mem_stats manager) + 1\<rparr>\<rparr>
     else if pressure_active manager \<and> charged manager \<le> low_bytes (mem (mem_config manager))
     then manager\<lparr>pressure_active := False,
                  mem_stats := (mem_stats manager)\<lparr>pressure_exits := pressure_exits (mem_stats manager) + 1\<rparr>\<rparr>
     else manager)"

definition tcp_shift_tcp_memory_flow_init ::
    "tcp_shift_tcp_memory_manager \<Rightarrow> tcp_shift_tcp_memory_flow \<Rightarrow> tcp_pcb \<Rightarrow>
     int \<times> tcp_shift_tcp_memory_manager \<times> tcp_shift_tcp_memory_flow \<times> tcp_pcb" where
  "tcp_shift_tcp_memory_flow_init manager flow pcb =
    (if snd_queuelen pcb \<noteq> 0 \<or> has_unsent pcb \<or> has_unacked pcb then (-1, manager, flow, pcb)
     else
       let flow = flow\<lparr>flow_manager := True, capacity_bytes := initial_bytes (wmem (mem_config manager)),
                       sndbuf_expand_num := TCP_SHIFT_TCP_SNDBUF_EXPAND_NUM,
                       sndbuf_expand_den := TCP_SHIFT_TCP_SNDBUF_EXPAND_DEN, queued_bytes := 0\<rparr>
       in (0, manager\<lparr>mem_stats := (mem_stats manager)\<lparr>flow_inits := flow_inits (mem_stats manager) + 1\<rparr>\<rparr>,
           flow, pcb\<lparr>snd_buf := capacity_bytes flow\<rparr>))"

definition tcp_shift_tcp_memory_flow_set_sndbuf_expand ::
    "tcp_shift_tcp_memory_flow \<Rightarrow> u32 \<Rightarrow> u32 \<Rightarrow> int \<times> tcp_shift_tcp_memory_flow" where
  "tcp_shift_tcp_memory_flow_set_sndbuf_expand flow num den =
    (if \<not> flow_manager flow \<or> num = 0 \<or> den = 0 then (-1, flow)
     else (0, flow\<lparr>sndbuf_expand_num := num, sndbuf_expand_den := den\<rparr>))"

definition tcp_shift_tcp_memory_flow_maybe_grow ::
    "tcp_shift_tcp_memory_manager \<Rightarrow> tcp_shift_tcp_memory_flow \<Rightarrow> tcp_pcb \<Rightarrow> u32 \<Rightarrow> u32 \<Rightarrow>
     int \<times> tcp_shift_tcp_memory_manager \<times> tcp_shift_tcp_memory_flow \<times> tcp_pcb" where
  "tcp_shift_tcp_memory_flow_maybe_grow manager flow pcb num den =
    (if \<not> flow_manager flow \<or> num = 0 \<or> den = 0 then (-1, manager, flow, pcb)
     else
       let target = tcp_shift_u64_mul_sat (u64_of (pcb_cwnd pcb)) (u64_of num) div u64_of den;
           initial = u64_of (initial_bytes (wmem (mem_config manager)));
           maximum = u64_of (max_bytes (wmem (mem_config manager)));
           target = (if target < initial then initial else target);
           target = (if target > maximum then maximum else target)
       in if target \<le> u64_of (capacity_bytes flow) then (0, manager, flow, pcb)
          else if pressure_active manager
          then (0, manager\<lparr>mem_stats := (mem_stats manager)
                    \<lparr>growth_suppressed := growth_suppressed (mem_stats manager) + 1\<rparr>\<rparr>, flow, pcb)
          else
            let delta = u32_of (target - u64_of (capacity_bytes flow));
                available = u64_of (snd_buf pcb) + u64_of delta
            in if available > u64_of UINT32_MAX then (-1, manager, flow, pcb)
               else (1, manager\<lparr>mem_stats := (mem_stats manager)
                          \<lparr>growth_events := growth_events (mem_stats manager) + 1,
                           growth_bytes := growth_bytes (mem_stats manager) + u64_of delta\<rparr>\<rparr>,
                     flow\<lparr>capacity_bytes := u32_of target\<rparr>, pcb\<lparr>snd_buf := u32_of available\<rparr>))"

definition tcp_shift_tcp_memory_flow_can_write ::
    "tcp_shift_tcp_memory_manager \<Rightarrow> tcp_shift_tcp_memory_flow \<Rightarrow> tcp_pcb \<Rightarrow> u64 \<Rightarrow>
     bool \<times> tcp_shift_tcp_memory_manager" where
  "tcp_shift_tcp_memory_flow_can_write manager flow pcb bytes =
    (if \<not> flow_manager flow then (False, manager)
     else if bytes = 0 then (True, manager)
     else if bytes > u64_of (snd_buf pcb) then (False, manager)
     else if charged manager > high_bytes (mem (mem_config manager)) \<or>
             bytes > high_bytes (mem (mem_config manager)) - charged manager
     then (False, manager\<lparr>mem_stats := (mem_stats manager)\<lparr>high_blocks := high_blocks (mem_stats manager) + 1\<rparr>\<rparr>)
     else (True, manager))"

definition tcp_shift_tcp_memory_flow_note_write ::
    "tcp_shift_tcp_memory_manager \<Rightarrow> tcp_shift_tcp_memory_flow \<Rightarrow> u64 \<Rightarrow>
     tcp_shift_tcp_memory_manager \<times> tcp_shift_tcp_memory_flow" where
  "tcp_shift_tcp_memory_flow_note_write manager flow amount =
    (if \<not> flow_manager flow \<or> amount = 0 then (manager, flow)
     else
       let flow = flow\<lparr>queued_bytes := queued_bytes flow + amount\<rparr>;
           stats = (mem_stats manager)
             \<lparr>charged_bytes := charged manager + amount,
              write_events := write_events (mem_stats manager) + 1,
              write_bytes := write_bytes (mem_stats manager) + amount\<rparr>;
           stats = (if charged_bytes stats > peak_charged_bytes stats
                    then stats\<lparr>peak_charged_bytes := charged_bytes stats\<rparr> else stats)
       in (tcp_shift_tcp_memory_update_pressure (manager\<lparr>mem_stats := stats\<rparr>), flow))"

definition tcp_shift_tcp_memory_flow_note_acked ::
    "tcp_shift_tcp_memory_manager \<Rightarrow> tcp_shift_tcp_memory_flow \<Rightarrow> u64 \<Rightarrow>
     tcp_shift_tcp_memory_manager \<times> tcp_shift_tcp_memory_flow" where
  "tcp_shift_tcp_memory_flow_note_acked manager flow bytes =
    (if \<not> flow_manager flow \<or> bytes = 0 then (manager, flow)
     else
       let stats = mem_stats manager;
           amount = bytes;
           (amount, stats) =
             (if amount > queued_bytes flow
              then (queued_bytes flow, stats\<lparr>accounting_underflows := accounting_underflows stats + 1\<rparr>)
              else (amount, stats));
           (amount, stats) =
             (if amount > charged_bytes stats
              then (charged_bytes stats, stats\<lparr>accounting_underflows := accounting_underflows stats + 1\<rparr>)
              else (amount, stats));
           flow = flow\<lparr>queued_bytes := queued_bytes flow - amount\<rparr>;
           stats = stats\<lparr>charged_bytes := charged_bytes stats - amount,
                         mem_ack_events := mem_ack_events stats + 1, ack_bytes := ack_bytes stats + amount\<rparr>
       in (tcp_shift_tcp_memory_update_pressure (manager\<lparr>mem_stats := stats\<rparr>), flow))"

definition tcp_shift_tcp_memory_flow_release ::
    "tcp_shift_tcp_memory_manager \<Rightarrow> tcp_shift_tcp_memory_flow \<Rightarrow>
     tcp_shift_tcp_memory_manager \<times> tcp_shift_tcp_memory_flow" where
  "tcp_shift_tcp_memory_flow_release manager flow =
    (if \<not> flow_manager flow then (manager, flow)
     else
       let stats = mem_stats manager;
           amount = queued_bytes flow;
           (amount, stats) =
             (if amount > charged_bytes stats
              then (charged_bytes stats, stats\<lparr>accounting_underflows := accounting_underflows stats + 1\<rparr>)
              else (amount, stats));
           stats = stats\<lparr>charged_bytes := charged_bytes stats - amount,
                         flow_releases := flow_releases stats + 1\<rparr>;
           flow = flow\<lparr>queued_bytes := 0, capacity_bytes := 0, sndbuf_expand_num := 0,
                       sndbuf_expand_den := 0, flow_manager := False\<rparr>
       in (tcp_shift_tcp_memory_update_pressure (manager\<lparr>mem_stats := stats\<rparr>), flow))"

section \<open>The process-wide manager\<close>

text \<open>What the process reads from its environment.\<close>

record memory_environment =
  env_pages :: int
  env_page_size :: int
  env_memory_max :: "string option"
  env_limit_in_bytes :: "string option"
  env_effective :: "string option"
  env_wmem :: "string option"
  env_mem :: "string option"

record process_memory =
  tcp_shift_process_tcp_memory :: tcp_shift_tcp_memory_manager
  tcp_shift_process_tcp_memory_state :: int

text \<open>An environment variable that is set to a nonempty text.\<close>

definition env_text :: "string option \<Rightarrow> string option" where
  "env_text v = (case v of None \<Rightarrow> None | Some t \<Rightarrow> if t = [] then None else Some t)"

definition process_memory_config :: "memory_environment \<Rightarrow> tcp_shift_tcp_memory_config option" where
  "process_memory_config env =
    (let effective = tcp_shift_tcp_memory_effective_bytes (env_pages env) (env_page_size env)
           (env_memory_max env) (env_limit_in_bytes env)
     in case (case env_text (env_effective env) of None \<Rightarrow> Some effective
              | Some t \<Rightarrow> (case tcp_shift_parse_size (Some t) of None \<Rightarrow> None
                          | Some v \<Rightarrow> if v = 0 then None else Some v)) of
          None \<Rightarrow> None
        | Some effective \<Rightarrow>
            (case tcp_shift_tcp_memory_config_default effective
                    (if env_page_size env > 0 then of_int (env_page_size env) else 4096) of
               None \<Rightarrow> None
             | Some config \<Rightarrow>
                 (case (case env_text (env_wmem env) of None \<Rightarrow> Some config
                        | Some t \<Rightarrow> (case tcp_shift_tcp_memory_parse_wmem t of None \<Rightarrow> None
                                    | Some w \<Rightarrow> Some (config\<lparr>wmem := w\<rparr>))) of
                    None \<Rightarrow> None
                  | Some config \<Rightarrow>
                      (case env_text (env_mem env) of None \<Rightarrow> Some config
                       | Some t \<Rightarrow> if t = ''auto'' then Some config
                                  else (case tcp_shift_tcp_memory_parse_mem t of None \<Rightarrow> None
                                        | Some g \<Rightarrow> Some (config\<lparr>mem := g\<rparr>))))))"

definition tcp_shift_process_tcp_memory_init :: "process_memory \<Rightarrow> memory_environment \<Rightarrow> int \<times> process_memory" where
  "tcp_shift_process_tcp_memory_init proc env =
    (if tcp_shift_process_tcp_memory_state proc \<noteq> 0
     then (if tcp_shift_process_tcp_memory_state proc > 0 then 0 else -1, proc)
     else
       case process_memory_config env of
         None \<Rightarrow> (-1, proc\<lparr>tcp_shift_process_tcp_memory_state := -1\<rparr>)
       | Some config \<Rightarrow>
           let (result, manager) = tcp_shift_tcp_memory_manager_init (tcp_shift_process_tcp_memory proc) config
           in if result < 0 then (-1, proc\<lparr>tcp_shift_process_tcp_memory_state := -1\<rparr>)
              else (0, proc\<lparr>tcp_shift_process_tcp_memory := manager, tcp_shift_process_tcp_memory_state := 1\<rparr>))"

section \<open>The lwIP wrappers\<close>

record 'cb tcp_shift_lwip_tcp_memory_ext =
  ext_flow :: tcp_shift_tcp_memory_flow
  app_sent :: "'cb option"
  pending_expand_num :: u32
  pending_expand_den :: u32

datatype 'cb sent_callback = No_Sent | App_Sent 'cb | Memory_Sent_Dispatch

record 'cb wrapped_pcb =
  pcb :: tcp_pcb
  pcb_ext :: "'cb tcp_shift_lwip_tcp_memory_ext option"
  pcb_sent :: "'cb sent_callback"
  nagle_memerr :: bool

definition flow_zero :: tcp_shift_tcp_memory_flow where
  "flow_zero = \<lparr>flow_manager = False, capacity_bytes = 0, sndbuf_expand_num = 0, sndbuf_expand_den = 0,
    queued_bytes = 0\<rparr>"

definition tcp_shift_lwip_tcp_memory_destroyed ::
    "process_memory \<Rightarrow> 'cb tcp_shift_lwip_tcp_memory_ext option \<Rightarrow> process_memory" where
  "tcp_shift_lwip_tcp_memory_destroyed proc data =
    (case data of None \<Rightarrow> proc
     | Some ext \<Rightarrow> proc\<lparr>tcp_shift_process_tcp_memory :=
         fst (tcp_shift_tcp_memory_flow_release (tcp_shift_process_tcp_memory proc) (ext_flow ext))\<rparr>)"

text \<open>The allocation may fail: \<open>alloc_ok\<close> is its outcome.\<close>

definition tcp_shift_lwip_tcp_memory_alloc_ext :: "'cb wrapped_pcb \<Rightarrow> bool \<Rightarrow> 'cb wrapped_pcb option" where
  "tcp_shift_lwip_tcp_memory_alloc_ext p alloc_ok =
    (if \<not> alloc_ok then None
     else Some (p\<lparr>pcb_ext := Some \<lparr>ext_flow = flow_zero, app_sent = None, pending_expand_num = 0,
                                  pending_expand_den = 0\<rparr>\<rparr>))"

definition tcp_shift_lwip_tcp_memory_ensure ::
    "process_memory \<Rightarrow> memory_environment \<Rightarrow> bool \<Rightarrow> 'cb wrapped_pcb \<Rightarrow> bool \<times> process_memory \<times> 'cb wrapped_pcb" where
  "tcp_shift_lwip_tcp_memory_ensure proc env alloc_ok p =
    (if (case pcb_ext p of None \<Rightarrow> False | Some ext \<Rightarrow> flow_manager (ext_flow ext)) then (True, proc, p)
     else
       case tcp_shift_process_tcp_memory_init proc env of (result, proc) \<Rightarrow>
         if result < 0 then (False, proc, p)
         else
           case (if pcb_ext p = None then tcp_shift_lwip_tcp_memory_alloc_ext p alloc_ok else Some p) of
             None \<Rightarrow> (False, proc, p)
           | Some p \<Rightarrow>
               let ext = the (pcb_ext p);
                   num = pending_expand_num ext;
                   den = pending_expand_den ext;
                   (result, manager, flow, b) = tcp_shift_tcp_memory_flow_init
                     (tcp_shift_process_tcp_memory proc) (ext_flow ext) (pcb p);
                   proc = proc\<lparr>tcp_shift_process_tcp_memory := manager\<rparr>;
                   p = p\<lparr>pcb := b, pcb_ext := Some (ext\<lparr>ext_flow := flow\<rparr>)\<rparr>
               in if result < 0 then (False, proc, p)
                  else
                    let (result, flow) = (if num \<noteq> 0
                          then tcp_shift_tcp_memory_flow_set_sndbuf_expand flow num den else (0, flow))
                    in if result < 0
                       then (let (manager, flow) = tcp_shift_tcp_memory_flow_release manager flow
                             in (False, proc\<lparr>tcp_shift_process_tcp_memory := manager\<rparr>,
                                 p\<lparr>pcb_ext := Some (ext\<lparr>ext_flow := flow\<rparr>)\<rparr>))
                       else (True, proc, p\<lparr>pcb_ext := Some (ext\<lparr>ext_flow := flow, pending_expand_num := 0,
                               pending_expand_den := 0\<rparr>)\<rparr>))"

definition tcp_shift_lwip_tcp_memory_sent_dispatch ::
    "process_memory \<Rightarrow> 'cb wrapped_pcb \<Rightarrow> u64 \<Rightarrow> process_memory \<times> 'cb wrapped_pcb \<times> 'cb option" where
  "tcp_shift_lwip_tcp_memory_sent_dispatch proc p len =
    (case pcb_ext p of None \<Rightarrow> (proc, p, None)
     | Some ext \<Rightarrow>
         let (manager, flow) = tcp_shift_tcp_memory_flow_note_acked (tcp_shift_process_tcp_memory proc) (ext_flow ext) len
         in (proc\<lparr>tcp_shift_process_tcp_memory := manager\<rparr>, p\<lparr>pcb_ext := Some (ext\<lparr>ext_flow := flow\<rparr>)\<rparr>,
             app_sent ext))"

text \<open>The writes: \<open>lwip_write\<close> is lwIP's \<^verbatim>\<open>tcp_write\<close> on the control block.\<close>

definition tcp_shift_lwip_tcp_memory_write ::
    "(tcp_pcb \<Rightarrow> u64 \<Rightarrow> u8 \<Rightarrow> err_t \<times> tcp_pcb) \<Rightarrow> process_memory \<Rightarrow> memory_environment \<Rightarrow> bool \<Rightarrow>
     'cb wrapped_pcb \<Rightarrow> u64 \<Rightarrow> u8 \<Rightarrow> err_t \<times> process_memory \<times> 'cb wrapped_pcb" where
  "tcp_shift_lwip_tcp_memory_write lwip_write proc env alloc_ok p len apiflags =
    (case tcp_shift_lwip_tcp_memory_ensure proc env alloc_ok p of (ok, proc, p) \<Rightarrow>
       if \<not> ok then (ERR_MEM, proc, p)
       else
         let ext = the (pcb_ext p);
             flow = ext_flow ext;
             (result, manager, flow, b) = tcp_shift_tcp_memory_flow_maybe_grow (tcp_shift_process_tcp_memory proc)
               flow (pcb p) (sndbuf_expand_num flow) (sndbuf_expand_den flow);
             proc = proc\<lparr>tcp_shift_process_tcp_memory := manager\<rparr>;
             p = p\<lparr>pcb := b, pcb_ext := Some (ext\<lparr>ext_flow := flow\<rparr>)\<rparr>
         in if result < 0 then (ERR_MEM, proc, p)
            else
              let (can, manager) = tcp_shift_tcp_memory_flow_can_write manager flow b len;
                  proc = proc\<lparr>tcp_shift_process_tcp_memory := manager\<rparr>
              in if \<not> can then (ERR_MEM, proc, p\<lparr>nagle_memerr := True\<rparr>)
                 else
                   let (err, b) = lwip_write b len apiflags;
                       p = p\<lparr>pcb := b\<rparr>
                   in if err = ERR_OK
                      then (let (manager, flow) = tcp_shift_tcp_memory_flow_note_write manager flow len
                            in (err, proc\<lparr>tcp_shift_process_tcp_memory := manager\<rparr>,
                                p\<lparr>pcb_ext := Some (ext\<lparr>ext_flow := flow\<rparr>)\<rparr>))
                      else (err, proc, p))"

definition tcp_shift_lwip_tcp_memory_sent ::
    "process_memory \<Rightarrow> memory_environment \<Rightarrow> bool \<Rightarrow> 'cb wrapped_pcb \<Rightarrow> 'cb option \<Rightarrow>
     process_memory \<times> 'cb wrapped_pcb" where
  "tcp_shift_lwip_tcp_memory_sent proc env alloc_ok p sent =
    (case sent of
       None \<Rightarrow> (proc, p\<lparr>pcb_ext := map_option (\<lambda>ext. ext\<lparr>app_sent := None\<rparr>) (pcb_ext p), pcb_sent := No_Sent\<rparr>)
     | Some cb \<Rightarrow>
         (case (if pcb_ext p = None then tcp_shift_lwip_tcp_memory_ensure proc env alloc_ok p else (True, proc, p)) of
            (ok, proc, p) \<Rightarrow>
              if \<not> ok then (proc, p\<lparr>pcb_sent := App_Sent cb\<rparr>)
              else (proc, p\<lparr>pcb_ext := map_option (\<lambda>ext. ext\<lparr>app_sent := Some cb\<rparr>) (pcb_ext p),
                           pcb_sent := Memory_Sent_Dispatch\<rparr>)))"

definition tcp_shift_lwip_tcp_memory_set_sndbuf_expand ::
    "'cb wrapped_pcb \<Rightarrow> bool \<Rightarrow> u32 \<Rightarrow> u32 \<Rightarrow> int \<times> 'cb wrapped_pcb" where
  "tcp_shift_lwip_tcp_memory_set_sndbuf_expand p alloc_ok num den =
    (if num = 0 \<or> den = 0 then (-1, p)
     else
       case pcb_ext p of
         Some ext \<Rightarrow>
           if flow_manager (ext_flow ext)
           then (let (result, flow) = tcp_shift_tcp_memory_flow_set_sndbuf_expand (ext_flow ext) num den
                 in (result, p\<lparr>pcb_ext := Some (ext\<lparr>ext_flow := flow\<rparr>)\<rparr>))
           else (0, p\<lparr>pcb_ext := Some (ext\<lparr>pending_expand_num := num, pending_expand_den := den\<rparr>)\<rparr>)
       | None \<Rightarrow>
           (case tcp_shift_lwip_tcp_memory_alloc_ext p alloc_ok of None \<Rightarrow> (-1, p)
            | Some p \<Rightarrow> (0, p\<lparr>pcb_ext := map_option (\<lambda>ext. ext\<lparr>pending_expand_num := num,
                          pending_expand_den := den\<rparr>) (pcb_ext p)\<rparr>)))"

definition tcp_shift_lwip_tcp_memory_process_config ::
    "process_memory \<Rightarrow> memory_environment \<Rightarrow> tcp_shift_tcp_memory_config option \<times> process_memory" where
  "tcp_shift_lwip_tcp_memory_process_config proc env =
    (let (result, proc) = tcp_shift_process_tcp_memory_init proc env
     in (if result = 0 then Some (mem_config (tcp_shift_process_tcp_memory proc)) else None, proc))"

definition tcp_shift_lwip_tcp_memory_process_stats ::
    "process_memory \<Rightarrow> memory_environment \<Rightarrow> tcp_shift_tcp_memory_stats option \<times> process_memory" where
  "tcp_shift_lwip_tcp_memory_process_stats proc env =
    (let (result, proc) = tcp_shift_process_tcp_memory_init proc env
     in (if result = 0 then Some (mem_stats (tcp_shift_process_tcp_memory proc)) else None, proc))"

section \<open>The ledger of charges\<close>

text \<open>What the flow operations promise about charges: \<open>total\<close> is the manager's charge, \<open>part\<close> the charge of
  one flow, \<open>cap\<close> the high-water mark.\<close>

locale byte_ledger =
  fixes tot :: "'m \<Rightarrow> u64" and part :: "'f \<Rightarrow> u64" and cap :: "'m \<Rightarrow> u64"
    and may :: "'m \<Rightarrow> 'f \<Rightarrow> 'p \<Rightarrow> u64 \<Rightarrow> bool \<times> 'm"
    and charge :: "'m \<Rightarrow> 'f \<Rightarrow> u64 \<Rightarrow> 'm \<times> 'f"
    and credit :: "'m \<Rightarrow> 'f \<Rightarrow> u64 \<Rightarrow> 'm \<times> 'f"
    and clear :: "'m \<Rightarrow> 'f \<Rightarrow> 'm \<times> 'f"
  assumes may_law: "may m f p n = (ok, m') \<Longrightarrow> tot m \<le> cap m \<Longrightarrow>
      tot m' = tot m \<and> cap m' = cap m \<and> (ok \<longrightarrow> unat (tot m) + unat n \<le> unat (cap m))"
    and charge_law: "charge m f n = (m', f') \<Longrightarrow> unat (tot m) + unat n < 2 ^ 64 \<Longrightarrow>
      unat (part f) + unat n < 2 ^ 64 \<Longrightarrow> \<exists>a. unat (tot m') = unat (tot m) + a \<and> unat (part f') = unat (part f) + a \<and>
        a \<le> unat n \<and> cap m' = cap m"
    and credit_law: "credit m f n = (m', f') \<Longrightarrow> unat (part f) \<le> unat (tot m) \<Longrightarrow> \<exists>a. unat (tot m') + a = unat (tot m) \<and>
        unat (part f') + a = unat (part f) \<and> cap m' = cap m"
    and clear_law: "clear m f = (m', f') \<Longrightarrow> unat (part f) \<le> unat (tot m) \<Longrightarrow> \<exists>a. unat (tot m') + a = unat (tot m) \<and>
        unat (part f') + a = unat (part f) \<and> cap m' = cap m"
begin

definition balanced :: "'m \<Rightarrow> 'f list \<Rightarrow> bool" where
  "balanced m fs \<longleftrightarrow> (\<Sum>f\<leftarrow>fs. unat (part f)) = unat (tot m) \<and> tot m \<le> cap m"

lemma part_le: "balanced m fs \<Longrightarrow> i < length fs \<Longrightarrow> unat (part (fs ! i)) \<le> unat (tot m)"
  unfolding balanced_def by (metis elem_le_sum_list length_map nth_map)

lemma sum_update:
  "i < length fs \<Longrightarrow> (\<Sum>f\<leftarrow>fs[i := f']. unat (part f)) + unat (part (fs ! i)) =
    (\<Sum>f\<leftarrow>fs. unat (part f)) + unat (part f')"
  by (induction fs arbitrary: i) (auto split: nat.split simp: nth_Cons)

lemma balanced_charge:
  assumes "balanced m fs" and "i < length fs" and "may m (fs ! i) p n = (True, m1)"
    and "charge m1 (fs ! i) n = (m2, f')"
  shows "balanced m2 (fs[i := f'])"
proof -
  have le: "tot m \<le> cap m" using assms(1) by (simp add: balanced_def)
  have m1: "tot m1 = tot m" "cap m1 = cap m" "unat (tot m) + unat n \<le> unat (cap m)"
    using may_law [OF assms(3) le] by simp_all
  then have fit: "unat (tot m1) + unat n < 2 ^ 64" "unat (part (fs ! i)) + unat n < 2 ^ 64"
    using unat_lt_u64 [of "cap m"] part_le [OF assms(1,2)] by simp_all
  obtain a where a: "unat (tot m2) = unat (tot m1) + a" "unat (part f') = unat (part (fs ! i)) + a"
      "a \<le> unat n" "cap m2 = cap m1"
    using charge_law [OF assms(4) fit] by blast
  have "(\<Sum>f\<leftarrow>fs[i := f']. unat (part f)) = unat (tot m2)"
    using sum_update [OF assms(2), of f'] assms(1) a m1(1) by (simp add: balanced_def)
  moreover have "unat (tot m2) \<le> unat (cap m2)" using a m1 by simp
  ultimately show ?thesis by (simp add: balanced_def word_le_nat_alt)
qed

lemma balanced_less:
  assumes "balanced m fs" and "i < length fs"
    and "\<exists>a. unat (tot m') + a = unat (tot m) \<and> unat (part f') + a = unat (part (fs ! i)) \<and> cap m' = cap m"
  shows "balanced m' (fs[i := f'])"
proof -
  obtain a where a: "unat (tot m') + a = unat (tot m)" "unat (part f') + a = unat (part (fs ! i))" "cap m' = cap m"
    using assms(3) by blast
  have "(\<Sum>f\<leftarrow>fs[i := f']. unat (part f)) = unat (tot m')"
    using sum_update [OF assms(2), of f'] assms(1) a by (simp add: balanced_def)
  moreover have "unat (tot m) \<le> unat (cap m)" using assms(1) by (simp add: balanced_def word_le_nat_alt)
  ultimately show ?thesis using a by (simp add: balanced_def word_le_nat_alt)
qed

lemma balanced_credit:
  "balanced m fs \<Longrightarrow> i < length fs \<Longrightarrow> credit m (fs ! i) n = (m', f') \<Longrightarrow> balanced m' (fs[i := f'])"
  by (rule balanced_less) (auto intro: credit_law part_le)

lemma balanced_clear:
  "balanced m fs \<Longrightarrow> i < length fs \<Longrightarrow> clear m (fs ! i) = (m', f') \<Longrightarrow> balanced m' (fs[i := f'])"
  by (rule balanced_less) (auto intro: clear_law part_le)

end

abbreviation high_water :: "tcp_shift_tcp_memory_manager \<Rightarrow> u64" where
  "high_water m \<equiv> high_bytes (mem (mem_config m))"

lemma update_pressure_frame [simp]:
  "charged (tcp_shift_tcp_memory_update_pressure m) = charged m"
  "mem_config (tcp_shift_tcp_memory_update_pressure m) = mem_config m"
  "peak_charged_bytes (mem_stats (tcp_shift_tcp_memory_update_pressure m)) = peak_charged_bytes (mem_stats m)"
  "accounting_underflows (mem_stats (tcp_shift_tcp_memory_update_pressure m)) = accounting_underflows (mem_stats m)"
  by (simp_all add: tcp_shift_tcp_memory_update_pressure_def)

lemma note_acked_exact:
  assumes "unat (queued_bytes f) \<le> unat (charged m)" and "tcp_shift_tcp_memory_flow_note_acked m f n = (m', f')"
  shows "\<exists>a. unat (charged m') + a = unat (charged m) \<and> unat (queued_bytes f') + a = unat (queued_bytes f) \<and>
    mem_config m' = mem_config m"
proof (cases "\<not> flow_manager f \<or> n = 0")
  case True
  then show ?thesis using assms(2) by (auto simp: tcp_shift_tcp_memory_flow_note_acked_def)
next
  case False
  define a where "a = (if n > queued_bytes f then queued_bytes f else n)"
  have a: "unat a \<le> unat (queued_bytes f)" by (auto simp: a_def word_less_nat_alt)
  have "\<not> a > charged m" using a assms(1) by (simp add: word_less_nat_alt)
  then have r: "charged m' = charged m - a" "queued_bytes f' = queued_bytes f - a" "mem_config m' = mem_config m"
    using assms(2) False unfolding tcp_shift_tcp_memory_flow_note_acked_def a_def
    by (auto simp: Let_def split: if_splits)
  then show ?thesis using a assms(1) by (intro exI [of _ "unat a"]) (simp add: unat_diff_exact)
qed

lemma release_exact:
  assumes "unat (queued_bytes f) \<le> unat (charged m)" and "tcp_shift_tcp_memory_flow_release m f = (m', f')"
  shows "\<exists>a. unat (charged m') + a = unat (charged m) \<and> unat (queued_bytes f') + a = unat (queued_bytes f) \<and>
    mem_config m' = mem_config m"
proof (cases "flow_manager f")
  case False
  then show ?thesis using assms(2) by (auto simp: tcp_shift_tcp_memory_flow_release_def)
next
  case True
  have "\<not> queued_bytes f > charged m" using assms(1) by (simp add: word_less_nat_alt)
  then have r: "charged m' = charged m - queued_bytes f" "queued_bytes f' = 0" "mem_config m' = mem_config m"
    using assms(2) True by (auto simp: tcp_shift_tcp_memory_flow_release_def Let_def)
  then show ?thesis using assms(1) by (intro exI [of _ "unat (queued_bytes f)"]) (simp add: unat_diff_exact)
qed

interpretation ledger: byte_ledger "\<lambda>m. charged_bytes (mem_stats m)" queued_bytes high_water
  tcp_shift_tcp_memory_flow_can_write tcp_shift_tcp_memory_flow_note_write
  tcp_shift_tcp_memory_flow_note_acked tcp_shift_tcp_memory_flow_release
proof unfold_locales
  fix m m' f p n ok
  assume "tcp_shift_tcp_memory_flow_can_write m f p n = (ok, m')" "charged m \<le> high_water m"
  then show "charged m' = charged m \<and> high_water m' = high_water m \<and>
      (ok \<longrightarrow> unat (charged m) + unat n \<le> unat (high_water m))"
    by (auto simp: tcp_shift_tcp_memory_flow_can_write_def word_le_nat_alt word_less_nat_alt unat_diff_exact
        split: if_splits)
next
  fix m m' f f' n
  assume w: "tcp_shift_tcp_memory_flow_note_write m f n = (m', f')"
    and fit: "unat (charged m) + unat n < 2 ^ 64" "unat (queued_bytes f) + unat n < 2 ^ 64"
  show "\<exists>a. unat (charged m') = unat (charged m) + a \<and> unat (queued_bytes f') = unat (queued_bytes f) + a \<and>
      a \<le> unat n \<and> high_water m' = high_water m"
  proof (cases "\<not> flow_manager f \<or> n = 0")
    case True
    then show ?thesis using w by (auto simp: tcp_shift_tcp_memory_flow_note_write_def)
  next
    case False
    then have "charged m' = charged m + n" "queued_bytes f' = queued_bytes f + n" "mem_config m' = mem_config m"
      using w by (auto simp: tcp_shift_tcp_memory_flow_note_write_def Let_def)
    then show ?thesis using fit by (intro exI [of _ "unat n"]) (simp add: unat_add_exact)
  qed
next
  fix m m' f f' n
  assume "tcp_shift_tcp_memory_flow_note_acked m f n = (m', f')" "unat (queued_bytes f) \<le> unat (charged m)"
  then show "\<exists>a. unat (charged m') + a = unat (charged m) \<and> unat (queued_bytes f') + a = unat (queued_bytes f) \<and>
      high_water m' = high_water m"
    using note_acked_exact by metis
next
  fix m m' f f'
  assume "tcp_shift_tcp_memory_flow_release m f = (m', f')" "unat (queued_bytes f) \<le> unat (charged m)"
  then show "\<exists>a. unat (charged m') + a = unat (charged m) \<and> unat (queued_bytes f') + a = unat (queued_bytes f) \<and>
      high_water m' = high_water m"
    using release_exact by metis
qed

section \<open>Runs of the manager\<close>

text \<open>A manager with its flows, under the operations in the order the wrappers call them: a write is noted
  only after the gate has let it through. Released flows stay in the list.\<close>

inductive memory_run ::
    "tcp_shift_tcp_memory_config \<Rightarrow> tcp_shift_tcp_memory_manager \<Rightarrow> tcp_shift_tcp_memory_flow list \<Rightarrow> bool"
  for config where
  init: "tcp_shift_tcp_memory_manager_init m0 config = (0, m) \<Longrightarrow> memory_run config m []"
| open_flow: "memory_run config m fs \<Longrightarrow> tcp_shift_tcp_memory_flow_init m f0 p = (0, m', f, p') \<Longrightarrow>
    memory_run config m' (fs @ [f])"
| expand: "memory_run config m fs \<Longrightarrow> i < length fs \<Longrightarrow>
    tcp_shift_tcp_memory_flow_set_sndbuf_expand (fs ! i) num den = (rc, f') \<Longrightarrow> memory_run config m (fs[i := f'])"
| grow: "memory_run config m fs \<Longrightarrow> i < length fs \<Longrightarrow>
    tcp_shift_tcp_memory_flow_maybe_grow m (fs ! i) p num den = (rc, m', f', p') \<Longrightarrow> memory_run config m' (fs[i := f'])"
| noted: "memory_run config m fs \<Longrightarrow> i < length fs \<Longrightarrow>
    tcp_shift_tcp_memory_flow_can_write m (fs ! i) p n = (True, m1) \<Longrightarrow>
    tcp_shift_tcp_memory_flow_note_write m1 (fs ! i) n = (m2, f') \<Longrightarrow> memory_run config m2 (fs[i := f'])"
| gate: "memory_run config m fs \<Longrightarrow> i < length fs \<Longrightarrow>
    tcp_shift_tcp_memory_flow_can_write m (fs ! i) p n = (ok, m1) \<Longrightarrow> memory_run config m1 fs"
| acked: "memory_run config m fs \<Longrightarrow> i < length fs \<Longrightarrow>
    tcp_shift_tcp_memory_flow_note_acked m (fs ! i) n = (m', f') \<Longrightarrow> memory_run config m' (fs[i := f'])"
| release: "memory_run config m fs \<Longrightarrow> i < length fs \<Longrightarrow>
    tcp_shift_tcp_memory_flow_release m (fs ! i) = (m', f') \<Longrightarrow> memory_run config m' (fs[i := f'])"

text \<open>The state of one manager beside the ledger.\<close>

definition manager_ok :: "tcp_shift_tcp_memory_config \<Rightarrow> tcp_shift_tcp_memory_manager \<Rightarrow> bool" where
  "manager_ok config m \<longleftrightarrow> memory_config_valid config \<and> mem_config m = config \<and>
    charged m \<le> peak_charged_bytes (mem_stats m) \<and> peak_charged_bytes (mem_stats m) \<le> high_bytes (mem config) \<and>
    (low_bytes (mem config) < pressure_bytes (mem config) \<longrightarrow>
       (if pressure_active m then low_bytes (mem config) < charged m else charged m < pressure_bytes (mem config)))"

definition flow_ok :: "tcp_shift_tcp_memory_config \<Rightarrow> tcp_shift_tcp_memory_flow \<Rightarrow> bool" where
  "flow_ok config f \<longleftrightarrow> (flow_manager f \<longrightarrow>
    initial_bytes (wmem config) \<le> capacity_bytes f \<and> capacity_bytes f \<le> max_bytes (wmem config))"

lemma update_pressure_ok:
  assumes "memory_config_valid config" and "mem_config m = config"
    and "charged m \<le> peak_charged_bytes (mem_stats m)" and "peak_charged_bytes (mem_stats m) \<le> high_bytes (mem config)"
  shows "manager_ok config (tcp_shift_tcp_memory_update_pressure m)"
proof -
  let ?n = "tcp_shift_tcp_memory_update_pressure m"
  have "if pressure_active ?n then low_bytes (mem config) < charged m else charged m < pressure_bytes (mem config)"
    if "low_bytes (mem config) < pressure_bytes (mem config)"
    using that assms(2) by (auto simp: tcp_shift_tcp_memory_update_pressure_def not_less not_le)
  then show ?thesis using assms unfolding manager_ok_def by simp
qed

lemma manager_ok_init:
  "tcp_shift_tcp_memory_manager_init m0 config = (0, m) \<Longrightarrow> manager_ok config m \<and> ledger.balanced m []"
  by (auto simp: tcp_shift_tcp_memory_manager_init_def manager_ok_def memory_stats_zero_def ledger.balanced_def
      word_gt_0 split: if_splits)

lemma manager_ok_stats:
  assumes "manager_ok config m" and "mem_config m' = mem_config m" and "charged m' = charged m"
    and "peak_charged_bytes (mem_stats m') = peak_charged_bytes (mem_stats m)"
    and "pressure_active m' = pressure_active m"
  shows "manager_ok config m'"
  using assms by (simp add: manager_ok_def)

lemma grow_ok:
  assumes "manager_ok config m" and "flow_ok config f"
    and r: "tcp_shift_tcp_memory_flow_maybe_grow m f p num den = (rc, m', f', p')"
  shows "manager_ok config m'" and "flow_ok config f'" and "queued_bytes f' = queued_bytes f"
    and "charged m' = charged m" and "mem_config m' = mem_config m"
proof -
  let ?i = "u64_of (initial_bytes (wmem config))" and ?m = "u64_of (max_bytes (wmem config))"
  define a where "a = tcp_shift_u64_mul_sat (u64_of (pcb_cwnd p)) (u64_of num) div u64_of den"
  define b where "b = (if a < ?i then ?i else a)"
  define t where "t = (if b > ?m then ?m else b)"
  have c: "mem_config m = config" "memory_config_valid config" using assms(1) by (simp_all add: manager_ok_def)
  have im: "unat (initial_bytes (wmem config)) \<le> unat (max_bytes (wmem config))"
    using c(2) by (simp add: memory_config_valid_def not_less word_le_nat_alt)
  then have t: "unat (initial_bytes (wmem config)) \<le> unat t" "unat t \<le> unat (max_bytes (wmem config))"
    by (auto simp: t_def b_def word_less_nat_alt)
  then have t32: "unat (u32_of t) = unat t" using unat_lt_u32 [of "max_bytes (wmem config)"]
    by (intro unat_u32_of_small) simp
  have "(f' = f \<or> f' = f\<lparr>capacity_bytes := u32_of t\<rparr>) \<and> mem_config m' = mem_config m \<and> charged m' = charged m \<and>
      peak_charged_bytes (mem_stats m') = peak_charged_bytes (mem_stats m) \<and> pressure_active m' = pressure_active m"
    using r [unfolded tcp_shift_tcp_memory_flow_maybe_grow_def Let_def c(1), folded a_def, folded b_def, folded t_def]
    by (auto split: if_splits)
  then show "manager_ok config m'" "flow_ok config f'" "queued_bytes f' = queued_bytes f"
    "charged m' = charged m" "mem_config m' = mem_config m"
    using assms(1,2) t t32 manager_ok_stats [OF assms(1), of m'] by (auto simp: flow_ok_def word_le_nat_alt)
qed

lemma can_write_ok:
  assumes "manager_ok config m" and "tcp_shift_tcp_memory_flow_can_write m f p n = (ok, m1)"
  shows "manager_ok config m1" and "charged m1 = charged m" and "mem_config m1 = mem_config m"
    and "ok \<Longrightarrow> unat (charged m) + unat n \<le> unat (high_bytes (mem config))"
proof -
  have c: "mem_config m = config" "charged m \<le> high_water m"
    using assms(1) by (auto simp: manager_ok_def)
  show "ok \<Longrightarrow> unat (charged m) + unat n \<le> unat (high_bytes (mem config))" "charged m1 = charged m"
    using ledger.may_law [OF assms(2) c(2)] c(1) by simp_all
  have e: "mem_config m1 = mem_config m \<and> charged m1 = charged m \<and>
      peak_charged_bytes (mem_stats m1) = peak_charged_bytes (mem_stats m) \<and> pressure_active m1 = pressure_active m"
    using assms(2) by (auto simp: tcp_shift_tcp_memory_flow_can_write_def split: if_splits)
  then show "manager_ok config m1" "mem_config m1 = mem_config m"
    using manager_ok_stats [OF assms(1), of m1] by simp_all
qed

lemma note_write_ok:
  assumes "manager_ok config m" and "flow_ok config f" and "unat (charged m) + unat n \<le> unat (high_bytes (mem config))"
    and "tcp_shift_tcp_memory_flow_note_write m f n = (m', f')"
  shows "manager_ok config m'" and "flow_ok config f'"
proof -
  show "flow_ok config f'" using assms(2,4)
    by (auto simp: tcp_shift_tcp_memory_flow_note_write_def flow_ok_def Let_def split: if_splits)
  show "manager_ok config m'"
  proof (cases "\<not> flow_manager f \<or> n = 0")
    case True
    then show ?thesis using assms(1,4) by (auto simp: tcp_shift_tcp_memory_flow_note_write_def)
  next
    case False
    define s0 where "s0 = (mem_stats m)\<lparr>charged_bytes := charged m + n,
      write_events := write_events (mem_stats m) + 1, write_bytes := write_bytes (mem_stats m) + n\<rparr>"
    define st where "st = (if charged_bytes s0 > peak_charged_bytes s0
      then s0\<lparr>peak_charged_bytes := charged_bytes s0\<rparr> else s0)"
    have m': "m' = tcp_shift_tcp_memory_update_pressure (m\<lparr>mem_stats := st\<rparr>)"
      using assms(4) False unfolding tcp_shift_tcp_memory_flow_note_write_def Let_def s0_def [symmetric] st_def
      by auto
    have "unat (charged m + n) = unat (charged m) + unat n"
      using assms(3) unat_lt_u64 [of "high_bytes (mem config)"] by (intro unat_add_exact) simp
    then have "charged_bytes st \<le> peak_charged_bytes st" "peak_charged_bytes st \<le> high_bytes (mem config)"
      using assms(1,3) by (auto simp: st_def s0_def manager_ok_def not_less word_le_nat_alt)
    then show ?thesis unfolding m' using assms(1) by (intro update_pressure_ok) (auto simp: manager_ok_def)
  qed
qed

lemma less_charge_ok:
  assumes "manager_ok config m" and "m' = m \<or> (\<exists>st. m' = tcp_shift_tcp_memory_update_pressure (m\<lparr>mem_stats := st\<rparr>) \<and>
      charged_bytes st \<le> charged m \<and> peak_charged_bytes st = peak_charged_bytes (mem_stats m))"
  shows "manager_ok config m'"
  using assms(2)
proof (elim disjE exE conjE)
  fix st
  assume st: "m' = tcp_shift_tcp_memory_update_pressure (m\<lparr>mem_stats := st\<rparr>)" "charged_bytes st \<le> charged m"
    "peak_charged_bytes st = peak_charged_bytes (mem_stats m)"
  have "charged_bytes st \<le> peak_charged_bytes st"
    using st(2,3) assms(1) by (auto simp: manager_ok_def intro: order_trans)
  then show ?thesis
    unfolding st(1) using st(3) assms(1) by (intro update_pressure_ok) (simp_all add: manager_ok_def)
qed (simp add: assms(1))

lemma note_acked_ok:
  assumes "manager_ok config m" and "flow_ok config f" and "unat (queued_bytes f) \<le> unat (charged m)"
    and "tcp_shift_tcp_memory_flow_note_acked m f n = (m', f')"
  shows "manager_ok config m'" and "flow_ok config f'"
proof -
  show "flow_ok config f'" using assms(2,4)
    by (auto simp: tcp_shift_tcp_memory_flow_note_acked_def flow_ok_def Let_def split: if_splits)
  have le: "unat (charged m') \<le> unat (charged m)" using note_acked_exact [OF assms(3,4)] by auto
  have "m' = m \<or> (\<exists>st. m' = tcp_shift_tcp_memory_update_pressure (m\<lparr>mem_stats := st\<rparr>) \<and>
      peak_charged_bytes st = peak_charged_bytes (mem_stats m))"
    using assms(4) unfolding tcp_shift_tcp_memory_flow_note_acked_def Let_def
    by (auto split: if_splits)
  then show "manager_ok config m'" using le by (intro less_charge_ok [OF assms(1)]) (auto simp: word_le_nat_alt)
qed

lemma release_ok:
  assumes "manager_ok config m" and "unat (queued_bytes f) \<le> unat (charged m)"
    and "tcp_shift_tcp_memory_flow_release m f = (m', f')"
  shows "manager_ok config m'" and "flow_ok config f'"
proof -
  show "flow_ok config f'" using assms(3)
    by (auto simp: tcp_shift_tcp_memory_flow_release_def flow_ok_def Let_def split: if_splits)
  have le: "unat (charged m') \<le> unat (charged m)" using release_exact [OF assms(2,3)] by auto
  have "m' = m \<or> (\<exists>st. m' = tcp_shift_tcp_memory_update_pressure (m\<lparr>mem_stats := st\<rparr>) \<and>
      peak_charged_bytes st = peak_charged_bytes (mem_stats m))"
    using assms(3) unfolding tcp_shift_tcp_memory_flow_release_def Let_def by (auto split: if_splits)
  then show "manager_ok config m'" using le by (intro less_charge_ok [OF assms(1)]) (auto simp: word_le_nat_alt)
qed

lemma open_ok:
  assumes "manager_ok config m" and "tcp_shift_tcp_memory_flow_init m f0 p = (0, m', f, p')"
  shows "manager_ok config m'" and "flow_ok config f" and "queued_bytes f = 0"
    and "charged m' = charged m" and "mem_config m' = mem_config m"
proof -
  have "initial_bytes (wmem config) \<le> max_bytes (wmem config)" "mem_config m = config"
    using assms(1) by (simp_all add: manager_ok_def memory_config_valid_def not_less)
  then show "flow_ok config f" using assms(2)
    by (auto simp: tcp_shift_tcp_memory_flow_init_def flow_ok_def Let_def split: if_splits)
  have e: "mem_config m' = mem_config m \<and> charged m' = charged m \<and> queued_bytes f = 0 \<and>
      peak_charged_bytes (mem_stats m') = peak_charged_bytes (mem_stats m) \<and> pressure_active m' = pressure_active m"
    using assms(2) by (auto simp: tcp_shift_tcp_memory_flow_init_def Let_def split: if_splits)
  then show "manager_ok config m'" "queued_bytes f = 0" "charged m' = charged m" "mem_config m' = mem_config m"
    using manager_ok_stats [OF assms(1), of m'] by simp_all
qed

lemma expand_ok:
  "tcp_shift_tcp_memory_flow_set_sndbuf_expand f num den = (rc, f') \<Longrightarrow> flow_ok config f \<Longrightarrow>
    flow_ok config f' \<and> queued_bytes f' = queued_bytes f"
  by (auto simp: tcp_shift_tcp_memory_flow_set_sndbuf_expand_def flow_ok_def split: if_splits)

text \<open>A step that leaves every charge alone keeps the ledger balanced.\<close>

lemma balanced_same_charge:
  assumes "ledger.balanced m fs" and "i < length fs" and "queued_bytes f' = queued_bytes (fs ! i)"
    and "charged m' = charged m" and "mem_config m' = mem_config m"
  shows "ledger.balanced m' (fs[i := f'])"
  using assms by (intro ledger.balanced_less [OF assms(1,2)]) simp

definition run_ok :: "tcp_shift_tcp_memory_config \<Rightarrow> tcp_shift_tcp_memory_manager \<Rightarrow> tcp_shift_tcp_memory_flow list \<Rightarrow> bool" where
  "run_ok config m fs \<longleftrightarrow> ledger.balanced m fs \<and> manager_ok config m \<and> (\<forall>f\<in>set fs. flow_ok config f)"

lemma run_ok_update:
  assumes "run_ok config m fs" and "ledger.balanced m' (fs[i := f'])" and "manager_ok config m'" and "flow_ok config f'"
  shows "run_ok config m' (fs[i := f'])"
  using assms set_update_subset_insert [of fs i f'] by (auto simp: run_ok_def)

lemma run_okD:
  "run_ok config m fs \<Longrightarrow> i < length fs \<Longrightarrow>
    flow_ok config (fs ! i) \<and> manager_ok config m \<and> ledger.balanced m fs \<and>
    unat (queued_bytes (fs ! i)) \<le> unat (charged m)"
  using ledger.part_le by (auto simp: run_ok_def)

lemma memory_run_ok: "memory_run config m fs \<Longrightarrow> run_ok config m fs"
proof (induction rule: memory_run.induct)
  case (init m0 m)
  then show ?case using manager_ok_init by (simp add: run_ok_def)
next
  case (open_flow m fs f0 p m' f p')
  note o = open_ok [of config m, OF _ open_flow.hyps(2)]
  from open_flow.IH show ?case using o by (auto simp: run_ok_def ledger.balanced_def)
next
  case (expand m fs i num den rc f')
  note d = run_okD [OF expand.IH expand.hyps(2)]
  with expand_ok [OF expand.hyps(3)] show ?case
    by (intro run_ok_update [OF expand.IH] balanced_same_charge [OF _ expand.hyps(2)]) auto
next
  case (grow m fs i p num den rc m' f' p')
  note d = run_okD [OF grow.IH grow.hyps(2)]
  with grow_ok [OF _ _ grow.hyps(3), of config] show ?case
    by (intro run_ok_update [OF grow.IH] balanced_same_charge [OF _ grow.hyps(2)]) auto
next
  case (noted m fs i p n m1 m2 f')
  note d = run_okD [OF noted.IH noted.hyps(2)]
  note g = can_write_ok [OF _ noted.hyps(3), of config]
  have "ledger.balanced m2 (fs[i := f'])"
    using d by (intro ledger.balanced_charge [OF _ noted.hyps(2-4)]) simp
  then show ?case using d g note_write_ok [OF _ _ _ noted.hyps(4), of config]
    by (intro run_ok_update [OF noted.IH]) auto
next
  case (gate m fs i p n ok m1)
  then show ?case using can_write_ok [OF _ gate.hyps(3), of config]
    by (auto simp: run_ok_def ledger.balanced_def)
next
  case (acked m fs i n m' f')
  note d = run_okD [OF acked.IH acked.hyps(2)]
  then have "ledger.balanced m' (fs[i := f'])"
    using acked.hyps by (intro ledger.balanced_credit) auto
  then show ?case using d note_acked_ok [OF _ _ _ acked.hyps(3), of config]
    by (intro run_ok_update [OF acked.IH]) auto
next
  case (release m fs i m' f')
  note d = run_okD [OF release.IH release.hyps(2)]
  then have "ledger.balanced m' (fs[i := f'])"
    using release.hyps by (intro ledger.balanced_clear) auto
  then show ?case using d release_ok [OF _ _ release.hyps(3), of config]
    by (intro run_ok_update [OF release.IH]) auto
qed

text \<open>A run for the witnesses: one flow that has queued 24 bytes, above the pressure mark.\<close>

definition demo_memory_config :: tcp_shift_tcp_memory_config where
  "demo_memory_config = \<lparr>wmem = \<lparr>min_bytes = 5, initial_bytes = 30, max_bytes = 100\<rparr>,
    mem = \<lparr>low_bytes = 10, pressure_bytes = 20, high_bytes = 40\<rparr>, effective_memory_bytes = 0\<rparr>"

definition demo_memory_manager :: "u64 \<Rightarrow> bool \<Rightarrow> u64 \<Rightarrow> tcp_shift_tcp_memory_manager" where
  "demo_memory_manager inits active charge = \<lparr>mem_config = demo_memory_config,
    mem_stats = memory_stats_zero\<lparr>flow_inits := inits, write_events := (if active then 1 else 0), write_bytes := charge,
      charged_bytes := charge, peak_charged_bytes := charge, pressure_enters := (if active then 1 else 0)\<rparr>,
    pressure_active = active\<rparr>"

definition demo_memory_flow :: "u64 \<Rightarrow> tcp_shift_tcp_memory_flow" where
  "demo_memory_flow queued = \<lparr>flow_manager = True, capacity_bytes = 30, sndbuf_expand_num = 2,
    sndbuf_expand_den = 1, queued_bytes = queued\<rparr>"

lemma demo_memory_run: "memory_run demo_memory_config (demo_memory_manager 1 True 24) [demo_memory_flow 24]"
proof -
  let ?p = "\<lparr>snd_buf = 30, pcb_cwnd = 10, snd_queuelen = 0, has_unsent = False, has_unacked = False\<rparr>"
  have "tcp_shift_tcp_memory_manager_init (demo_memory_manager 0 False 0) demo_memory_config =
      (0, demo_memory_manager 0 False 0)"
    by code_simp
  then have r0: "memory_run demo_memory_config (demo_memory_manager 0 False 0) []" by (rule memory_run.init)
  have "tcp_shift_tcp_memory_flow_init (demo_memory_manager 0 False 0) flow_zero ?p =
      (0, demo_memory_manager 1 False 0, demo_memory_flow 0, ?p)"
    by code_simp
  from memory_run.open_flow [OF r0 this]
  have r1: "memory_run demo_memory_config (demo_memory_manager 1 False 0) [demo_memory_flow 0]" by simp
  have g: "tcp_shift_tcp_memory_flow_can_write (demo_memory_manager 1 False 0) ([demo_memory_flow 0] ! 0) ?p 24 =
      (True, demo_memory_manager 1 False 0)"
    by code_simp
  have w: "tcp_shift_tcp_memory_flow_note_write (demo_memory_manager 1 False 0) ([demo_memory_flow 0] ! 0) 24 =
      (demo_memory_manager 1 True 24, demo_memory_flow 24)"
    by code_simp
  show ?thesis using memory_run.noted [OF r1 _ g w] by simp
qed

section \<open>Properties\<close>

text \<open>C6. The send-memory ledger is exact along every run: the manager's charge is the sum of what the flows
  have queued, it never exceeds its recorded peak, and neither ever exceeds the high-water mark, whatever
  the mix of opens, grows, gated writes, acknowledgements (of any size) and releases.\<close>

theorem tcp_memory_ledger_exact:
  assumes "memory_run config m fs"
  shows "(\<Sum>f\<leftarrow>fs. unat (queued_bytes f)) = unat (charged m) \<and> charged m \<le> peak_charged_bytes (mem_stats m) \<and>
    peak_charged_bytes (mem_stats m) \<le> high_bytes (mem config)"
  using memory_run_ok [OF assms] by (simp add: run_ok_def ledger.balanced_def manager_ok_def)

theorem tcp_memory_ledger_exact_witness:
  "memory_run demo_memory_config (demo_memory_manager 1 True 24) [demo_memory_flow 24] \<and>
   unat (queued_bytes (demo_memory_flow 24)) = unat (charged (demo_memory_manager 1 True 24))"
  using tcp_memory_ledger_exact [OF demo_memory_run] demo_memory_run by simp

text \<open>Pressure has hysteresis and capacities stay in range: where the low mark lies below the pressure mark,
  pressure is on only above the low mark and off only below the pressure mark, and every managed flow's
  capacity lies between the configured initial and maximum send buffer.\<close>

theorem tcp_memory_pressure_hysteresis:
  assumes "memory_run config m fs" and "low_bytes (mem config) < pressure_bytes (mem config)"
  shows "(pressure_active m \<longrightarrow> low_bytes (mem config) < charged m) \<and>
    (\<not> pressure_active m \<longrightarrow> charged m < pressure_bytes (mem config)) \<and>
    (\<forall>f\<in>set fs. flow_manager f \<longrightarrow> initial_bytes (wmem config) \<le> capacity_bytes f \<and>
       capacity_bytes f \<le> max_bytes (wmem config))"
  using memory_run_ok [OF assms(1)] assms(2) by (auto simp: run_ok_def manager_ok_def flow_ok_def)

theorem tcp_memory_pressure_hysteresis_witness:
  "memory_run demo_memory_config (demo_memory_manager 1 True 24) [demo_memory_flow 24] \<and>
   low_bytes (mem demo_memory_config) < charged (demo_memory_manager 1 True 24) \<and>
   capacity_bytes (demo_memory_flow 24) \<le> max_bytes (wmem demo_memory_config)"
proof -
  have "low_bytes (mem demo_memory_config) < pressure_bytes (mem demo_memory_config)"
    "pressure_active (demo_memory_manager 1 True 24)" "flow_manager (demo_memory_flow 24)"
    by code_simp+
  with tcp_memory_pressure_hysteresis [OF demo_memory_run] demo_memory_run show ?thesis by simp
qed

end
