(* ===== verification/Service_Config.thy ===== *)
theory Service_Config
  imports C_Text
begin

text \<open>
  The service configuration of \<^verbatim>\<open>src/service_config.c\<close>: the reader of the strict TOML subset and
  the final validation. A buffer is the string it holds, so that an overflow would be a string
  longer than the buffer; the file is the list of lines that \<^verbatim>\<open>getline\<close> returns, each with its
  newline. An error message is a constructor that carries the values the message prints. The
  address conversions \<^verbatim>\<open>inet_pton\<close> and \<^verbatim>\<open>inet_ntop\<close> are the arguments \<open>pton\<close> and \<open>ntop\<close>.
\<close>

section \<open>State\<close>

type_synonym pton = "int \<Rightarrow> string \<Rightarrow> u8 list option"
type_synonym ntop = "int \<Rightarrow> u8 list \<Rightarrow> nat \<Rightarrow> string option"

record tcp_shift_service_config =
  config_version :: u32
  ip_version :: int
  cc :: string
  firewall_backend :: string
  tun_name :: string
  tun_host_address :: string
  tun_host_cidr :: string
  tun_guest_address :: string
  tun_netmask :: string
  public_address :: string
  public_port :: u16
  backend_port :: u16

record tcp_shift_service_parse_state =
  have_version :: bool
  have_cc :: bool
  have_firewall_backend :: bool
  have_tun_name :: bool
  have_tun_host :: bool
  have_tun_guest :: bool
  have_forward :: bool
  have_listen :: bool
  have_backend :: bool
  in_forward :: bool
  state_listen :: string
  state_backend :: string

definition service_config_zero :: tcp_shift_service_config where
  "service_config_zero =
    \<lparr>config_version = 0, ip_version = 0, cc = [], firewall_backend = [], tun_name = [], tun_host_address = [],
     tun_host_cidr = [], tun_guest_address = [], tun_netmask = [], public_address = [], public_port = 0,
     backend_port = 0\<rparr>"

definition parse_state_zero :: tcp_shift_service_parse_state where
  "parse_state_zero =
    \<lparr>have_version = False, have_cc = False, have_firewall_backend = False, have_tun_name = False,
     have_tun_host = False, have_tun_guest = False, have_forward = False, have_listen = False,
     have_backend = False, in_forward = False, state_listen = [], state_backend = []\<rparr>"

datatype service_error =
    Path_Invalid | Opening_Failed | Exceeds_Limit | Nul_Byte nat | Second_Forward | Unsupported_Table nat
  | Expected_Assignment nat | Invalid_Assignment nat | Invalid_Listen nat | Invalid_Backend nat
  | Unknown_Forward_Key string nat | Invalid_Version nat | Invalid_Cc_Line nat | Invalid_Firewall nat
  | Invalid_Tun_Name_Line nat | Invalid_Tun_Host nat | Invalid_Tun_Guest nat | Unknown_Key string nat
  | Reading_Failed | Missing_Version | Unsupported_Version u32 | Missing_Cc | Firewall_Choice
  | Incomplete_Forward | Invalid_Cc_Name string | Invalid_Tun_Name | Listen_Syntax | Backend_Syntax
  | Host_Cidr int | Guest_Address int | Same_Address

definition TCP_SHIFT_SERVICE_CC_MAX :: nat where "TCP_SHIFT_SERVICE_CC_MAX = 16"
definition TCP_SHIFT_SERVICE_FIREWALL_BACKEND_MAX :: nat where "TCP_SHIFT_SERVICE_FIREWALL_BACKEND_MAX = 16"
definition TCP_SHIFT_SERVICE_TUN_NAME_MAX :: nat where "TCP_SHIFT_SERVICE_TUN_NAME_MAX = 16"
definition TCP_SHIFT_SERVICE_ADDRESS_MAX :: nat where "TCP_SHIFT_SERVICE_ADDRESS_MAX = 64"
definition TCP_SHIFT_SERVICE_CONFIG_VERSION :: u32 where "TCP_SHIFT_SERVICE_CONFIG_VERSION = 1"
definition TCP_SHIFT_SERVICE_CONFIG_MAX_BYTES :: nat where "TCP_SHIFT_SERVICE_CONFIG_MAX_BYTES = 1024 * 1024"

text \<open>The size of the buffers \<^verbatim>\<open>parsed\<close>, \<^verbatim>\<open>listen\<close> and \<^verbatim>\<open>backend\<close>.\<close>

definition VALUE_MAX :: nat where "VALUE_MAX = 128"

lemmas service_const_defs = TCP_SHIFT_SERVICE_CC_MAX_def TCP_SHIFT_SERVICE_FIREWALL_BACKEND_MAX_def
  TCP_SHIFT_SERVICE_TUN_NAME_MAX_def TCP_SHIFT_SERVICE_ADDRESS_MAX_def TCP_SHIFT_SERVICE_CONFIG_VERSION_def
  TCP_SHIFT_SERVICE_CONFIG_MAX_BYTES_def VALUE_MAX_def

section \<open>Text\<close>

definition trim :: "string \<Rightarrow> string" where
  "trim text = rev (dropWhile c_isspace (rev (dropWhile c_isspace text)))"

text \<open>The loop of \<^verbatim>\<open>strip_comment\<close> with its two flags.\<close>

fun strip_comment_from :: "bool \<Rightarrow> bool \<Rightarrow> string \<Rightarrow> string" where
  "strip_comment_from quoted escaped [] = []"
| "strip_comment_from quoted escaped (c # cs) =
    (if quoted then
       (if escaped then c # strip_comment_from True False cs
        else if c = CHR 0x5C then c # strip_comment_from True True cs
        else if c = CHR 0x22 then c # strip_comment_from False False cs
        else c # strip_comment_from True False cs)
     else if c = CHR 0x22 then c # strip_comment_from True escaped cs
     else if c = CHR ''#'' then []
     else c # strip_comment_from False escaped cs)"

definition strip_comment :: "string \<Rightarrow> string" where
  "strip_comment text = strip_comment_from False False text"

definition escape_byte :: "char \<Rightarrow> char option" where
  "escape_byte c =
    (if c = CHR 0x5C then Some (CHR 0x5C)
     else if c = CHR 0x22 then Some (CHR 0x22)
     else if c = CHR ''n'' then Some (CHR 0x0A)
     else if c = CHR ''r'' then Some (CHR 0x0D)
     else if c = CHR ''t'' then Some (CHR 0x09)
     else None)"

text \<open>The loop of \<^verbatim>\<open>parse_string\<close> over the text between the quotes; \<open>out\<close> bytes are written.\<close>

fun parse_string_loop :: "nat \<Rightarrow> nat \<Rightarrow> string \<Rightarrow> string option" where
  "parse_string_loop output_size out [] = Some []"
| "parse_string_loop output_size out (c # cs) =
    (if c = CHR 0x5C then
       (case cs of [] \<Rightarrow> None
        | e # rest \<Rightarrow>
            (case escape_byte e of None \<Rightarrow> None
             | Some byte \<Rightarrow>
                 if out + 1 \<ge> output_size then None
                 else map_option (Cons byte) (parse_string_loop output_size (out + 1) rest)))
     else if c = CHR 0x22 \<or> char_int c < 32 then None
     else if out + 1 \<ge> output_size then None
     else map_option (Cons c) (parse_string_loop output_size (out + 1) cs))"

definition parse_string :: "string \<Rightarrow> nat \<Rightarrow> string option" where
  "parse_string val output_size =
    (if length val < 2 \<or> hd val \<noteq> CHR 0x22 \<or> last val \<noteq> CHR 0x22 then None
     else parse_string_loop output_size 0 (butlast (tl val)))"

definition parse_unsigned :: "string \<Rightarrow> u64 \<Rightarrow> u64 option" where
  "parse_unsigned val maximum =
    (if val = [] \<or> \<not> c_isdigit (hd val) then None
     else
       let (parsed, end_text, range) = c_strtoull val
       in if range \<or> end_text \<noteq> [] \<or> parsed > maximum then None else Some parsed)"

definition char_at :: "string \<Rightarrow> nat \<Rightarrow> char" where
  "char_at s i = (if i < length s then s ! i else CHR 0x00)"

text \<open>The split of an endpoint into its version, address and port texts.\<close>

definition endpoint_parts :: "string \<Rightarrow> (int \<times> string \<times> string) option" where
  "endpoint_parts text =
    (if char_at text 0 = CHR ''['' then
       (case c_strchr text (CHR '']'') of None \<Rightarrow> None
        | Some (before, after) \<Rightarrow>
            if char_at after 0 \<noteq> CHR '':'' \<or> length after < 2 then None
            else
              let raw = tl before
              in if raw = [] \<or> length raw \<ge> TCP_SHIFT_SERVICE_ADDRESS_MAX then None
                 else Some (6, raw, tl after))
     else
       (case c_strrchr text (CHR '':'') of None \<Rightarrow> None
        | Some (raw, after) \<Rightarrow>
            if CHR '':'' \<in> set raw then None
            else if raw = [] \<or> length raw \<ge> TCP_SHIFT_SERVICE_ADDRESS_MAX then None
            else Some (4, raw, after)))"

definition parse_endpoint :: "pton \<Rightarrow> ntop \<Rightarrow> string \<Rightarrow> nat \<Rightarrow> (int \<times> string \<times> u16) option" where
  "parse_endpoint pton ntop text address_size =
    (case endpoint_parts text of None \<Rightarrow> None
     | Some (version, raw, port_text) \<Rightarrow>
         (case parse_unsigned port_text 65535 of None \<Rightarrow> None
          | Some parsed_port \<Rightarrow>
              if parsed_port = 0 then None
              else
                (case pton version raw of None \<Rightarrow> None
                 | Some packed \<Rightarrow>
                     if (version = 4 \<and> take 4 packed = replicate 4 0) \<or>
                        (version = 6 \<and> take 16 packed = replicate 16 0)
                     then None
                     else
                       (case ntop version packed address_size of None \<Rightarrow> None
                        | Some address \<Rightarrow> Some (version, address, ucast parsed_port)))))"

section \<open>Validation\<close>

definition cc_char :: "char \<Rightarrow> bool" where
  "cc_char c \<longleftrightarrow> 97 \<le> char_int c \<and> char_int c \<le> 122 \<or> c_isdigit c \<or> c = CHR ''_'' \<or> c = CHR ''-''"

definition valid_cc :: "string \<Rightarrow> bool" where
  "valid_cc name \<longleftrightarrow> name \<noteq> [] \<and> length name < TCP_SHIFT_SERVICE_CC_MAX \<and> (\<forall>c\<in>set name. cc_char c)"

definition valid_firewall_backend :: "string \<Rightarrow> bool" where
  "valid_firewall_backend name \<longleftrightarrow>
    name = ''auto'' \<or> name = ''nftables'' \<or> name = ''iptables'' \<or> name = ''none''"

definition tun_char :: "char \<Rightarrow> bool" where
  "tun_char c \<longleftrightarrow> 97 \<le> char_int c \<and> char_int c \<le> 122 \<or> 65 \<le> char_int c \<and> char_int c \<le> 90 \<or> c_isdigit c \<or>
    c = CHR ''_'' \<or> c = CHR ''-'' \<or> c = CHR ''.''"

definition valid_tun_name :: "string \<Rightarrow> bool" where
  "valid_tun_name name \<longleftrightarrow> length name < TCP_SHIFT_SERVICE_TUN_NAME_MAX \<and> (\<forall>c\<in>set name. tun_char c)"

definition netmask_of :: "u64 \<Rightarrow> u32" where
  "netmask_of prefix = (if prefix = 0 then 0 else push_bit (32 - unat prefix) 0xffffffff)"

text \<open>The bytes of a 32-bit number in network order.\<close>

definition htonl_bytes :: "u32 \<Rightarrow> u8 list" where
  "htonl_bytes w = [ucast (drop_bit 24 w), ucast (drop_bit 16 w), ucast (drop_bit 8 w), ucast w]"

text \<open>The address, the canonical CIDR text and the netmask.\<close>

definition parse_cidr ::
    "pton \<Rightarrow> ntop \<Rightarrow> string \<Rightarrow> int \<Rightarrow> nat \<Rightarrow> nat \<Rightarrow> nat \<Rightarrow> (string \<times> string \<times> string) option" where
  "parse_cidr pton ntop text version address_size cidr_size netmask_size =
    (if length text \<ge> TCP_SHIFT_SERVICE_ADDRESS_MAX then None
     else
       (case c_strrchr text (CHR ''/'') of None \<Rightarrow> None
        | Some (raw, prefix_text) \<Rightarrow>
            if raw = [] \<or> prefix_text = [] then None
            else
              (case parse_unsigned prefix_text (if version = 4 then 32 else 128) of None \<Rightarrow> None
               | Some prefix \<Rightarrow>
                   (case pton (if version = 4 then 4 else 6) raw of None \<Rightarrow> None
                    | Some packed \<Rightarrow>
                        (case ntop (if version = 4 then 4 else 6) packed address_size of None \<Rightarrow> None
                         | Some address \<Rightarrow>
                             let cidr = address @ ''/'' @ show_int (uint prefix)
                             in if length cidr \<ge> cidr_size then None
                                else if version = 4 then
                                  (case ntop 4 (htonl_bytes (netmask_of prefix)) netmask_size of None \<Rightarrow> None
                                   | Some netmask \<Rightarrow> Some (address, cidr, netmask))
                                else Some (address, cidr, []))))))"

definition canonical_ip :: "pton \<Rightarrow> ntop \<Rightarrow> string \<Rightarrow> int \<Rightarrow> nat \<Rightarrow> string option" where
  "canonical_ip pton ntop text version output_size =
    (case pton (if version = 4 then 4 else 6) text of None \<Rightarrow> None
     | Some packed \<Rightarrow> ntop (if version = 4 then 4 else 6) packed output_size)"

definition same_ip :: "pton \<Rightarrow> string \<Rightarrow> string \<Rightarrow> int \<Rightarrow> bool" where
  "same_ip pton left right version =
    (let family = (if version = 4 then 4 else 6);
         len = (if version = 4 then 4 else 16)
     in case (pton family left, pton family right) of
          (Some a, Some b) \<Rightarrow> take len a = take len b
        | _ \<Rightarrow> False)"

definition default_host :: "int \<Rightarrow> string" where
  "default_host version = (if version = 4 then ''198.18.0.1/30'' else ''fd00:198:18::1/126'')"

definition default_guest :: "int \<Rightarrow> string" where
  "default_guest version = (if version = 4 then ''198.18.0.2'' else ''fd00:198:18::2'')"

text \<open>The checks of \<^verbatim>\<open>finalize_config\<close> that come before the addresses.\<close>

definition finalize_checks ::
    "tcp_shift_service_config \<Rightarrow> tcp_shift_service_parse_state \<Rightarrow> service_error option" where
  "finalize_checks config state =
    (if \<not> have_version state then Some Missing_Version
     else if config_version config \<noteq> TCP_SHIFT_SERVICE_CONFIG_VERSION
     then Some (Unsupported_Version (config_version config))
     else if \<not> have_cc state then Some Missing_Cc
     else if \<not> valid_firewall_backend (firewall_backend config) then Some Firewall_Choice
     else if \<not> have_forward state \<or> \<not> have_listen state \<or> \<not> have_backend state then Some Incomplete_Forward
     else if \<not> valid_cc (cc config) then Some (Invalid_Cc_Name (cc config))
     else if \<not> valid_tun_name (tun_name config) then Some Invalid_Tun_Name
     else None)"

text \<open>The TUN addresses, once the listener's version is known.\<close>

definition finalize_tun ::
    "pton \<Rightarrow> ntop \<Rightarrow> tcp_shift_service_config \<Rightarrow> tcp_shift_service_parse_state \<Rightarrow> int \<Rightarrow>
     service_error + tcp_shift_service_config" where
  "finalize_tun pton ntop config state listen_version =
    (let config = (if have_tun_host state then config
           else config\<lparr>tun_host_cidr := default_host listen_version\<rparr>)
     in case parse_cidr pton ntop (tun_host_cidr config) listen_version TCP_SHIFT_SERVICE_ADDRESS_MAX
               TCP_SHIFT_SERVICE_ADDRESS_MAX TCP_SHIFT_SERVICE_ADDRESS_MAX of
          None \<Rightarrow> Inl (Host_Cidr listen_version)
        | Some (address, cidr, netmask) \<Rightarrow>
            let config = config\<lparr>tun_host_address := address, tun_host_cidr := cidr, tun_netmask := netmask\<rparr>;
                config = (if have_tun_guest state then config
                  else config\<lparr>tun_guest_address := default_guest listen_version\<rparr>)
            in case canonical_ip pton ntop (tun_guest_address config) listen_version TCP_SHIFT_SERVICE_ADDRESS_MAX of
                 None \<Rightarrow> Inl (Guest_Address listen_version)
               | Some guest \<Rightarrow>
                   let config = config\<lparr>tun_guest_address := guest\<rparr>
                   in if same_ip pton (tun_host_address config) (tun_guest_address config) listen_version
                      then Inl Same_Address else Inr config)"

definition finalize_config ::
    "pton \<Rightarrow> ntop \<Rightarrow> tcp_shift_service_config \<Rightarrow> tcp_shift_service_parse_state \<Rightarrow>
     service_error + tcp_shift_service_config" where
  "finalize_config pton ntop config state =
    (let config = (if have_firewall_backend state then config else config\<lparr>firewall_backend := ''auto''\<rparr>)
     in case finalize_checks config state of
          Some err \<Rightarrow> Inl err
        | None \<Rightarrow>
            (case parse_endpoint pton ntop (state_listen state) TCP_SHIFT_SERVICE_ADDRESS_MAX of
               None \<Rightarrow> Inl Listen_Syntax
             | Some (listen_version, address, port) \<Rightarrow>
                 let config = config\<lparr>public_address := address, public_port := port\<rparr>
                 in case parse_endpoint pton ntop (state_backend state) TCP_SHIFT_SERVICE_ADDRESS_MAX of
                      None \<Rightarrow> Inl Backend_Syntax
                    | Some (backend_version, backend_address, b_port) \<Rightarrow>
                        if backend_version \<noteq> 4 \<or> backend_address \<noteq> ''127.0.0.1'' then Inl Backend_Syntax
                        else
                          finalize_tun pton ntop (config\<lparr>backend_port := b_port, ip_version := listen_version\<rparr>)
                            state listen_version))"

section \<open>The reader\<close>

text \<open>What one line is, after its comment and surrounding white space are gone.\<close>

datatype config_item = Item_Blank | Item_Forward | Item_Table | Item_No_Separator | Item_Invalid
  | Item_Assign string string

definition config_item_of :: "string \<Rightarrow> config_item" where
  "config_item_of line =
    (let text = trim (strip_comment line)
     in if text = [] then Item_Blank
        else if text = ''[[forward]]'' then Item_Forward
        else if hd text = CHR ''['' then Item_Table
        else
          case c_strchr text (CHR ''='') of None \<Rightarrow> Item_No_Separator
          | Some (before, after) \<Rightarrow>
              let key = trim before; val = trim after
              in if key = [] \<or> val = [] then Item_Invalid else Item_Assign key val)"

text \<open>A string value that must also fit the field it is copied to.\<close>

definition parse_field :: "string \<Rightarrow> nat \<Rightarrow> string option" where
  "parse_field val size_max =
    (case parse_string val VALUE_MAX of None \<Rightarrow> None
     | Some parsed \<Rightarrow> if length parsed \<ge> size_max then None else Some parsed)"

definition assign_forward ::
    "tcp_shift_service_parse_state \<Rightarrow> nat \<Rightarrow> string \<Rightarrow> string \<Rightarrow> service_error + tcp_shift_service_parse_state" where
  "assign_forward state n key val =
    (if key = ''listen'' then
       (case (if have_listen state then None else parse_string val VALUE_MAX) of
          None \<Rightarrow> Inl (Invalid_Listen n)
        | Some t \<Rightarrow> Inr (state\<lparr>state_listen := t, have_listen := True\<rparr>))
     else if key = ''backend'' then
       (case (if have_backend state then None else parse_string val VALUE_MAX) of
          None \<Rightarrow> Inl (Invalid_Backend n)
        | Some t \<Rightarrow> Inr (state\<lparr>state_backend := t, have_backend := True\<rparr>))
     else Inl (Unknown_Forward_Key key n))"

definition assign_global ::
    "tcp_shift_service_config \<times> tcp_shift_service_parse_state \<Rightarrow> nat \<Rightarrow> string \<Rightarrow> string \<Rightarrow>
     service_error + tcp_shift_service_config \<times> tcp_shift_service_parse_state" where
  "assign_global cs n key val =
    (let (config, state) = cs in
     if key = ''version'' then
       (case (if have_version state then None else parse_unsigned val 0xffffffff) of
          None \<Rightarrow> Inl (Invalid_Version n)
        | Some number \<Rightarrow> Inr (config\<lparr>config_version := u32_of number\<rparr>, state\<lparr>have_version := True\<rparr>))
     else if key = ''cc'' then
       (case (if have_cc state then None else parse_field val TCP_SHIFT_SERVICE_CC_MAX) of
          None \<Rightarrow> Inl (Invalid_Cc_Line n)
        | Some t \<Rightarrow> Inr (config\<lparr>cc := t\<rparr>, state\<lparr>have_cc := True\<rparr>))
     else if key = ''firewall_backend'' then
       (case (if have_firewall_backend state then None else parse_field val TCP_SHIFT_SERVICE_FIREWALL_BACKEND_MAX) of
          None \<Rightarrow> Inl (Invalid_Firewall n)
        | Some t \<Rightarrow> if \<not> valid_firewall_backend t then Inl (Invalid_Firewall n)
                   else Inr (config\<lparr>firewall_backend := t\<rparr>, state\<lparr>have_firewall_backend := True\<rparr>))
     else if key = ''tun_name'' then
       (case (if have_tun_name state then None else parse_field val TCP_SHIFT_SERVICE_TUN_NAME_MAX) of
          None \<Rightarrow> Inl (Invalid_Tun_Name_Line n)
        | Some t \<Rightarrow> Inr (config\<lparr>tun_name := t\<rparr>, state\<lparr>have_tun_name := True\<rparr>))
     else if key = ''tun_host_address'' then
       (case (if have_tun_host state then None else parse_field val TCP_SHIFT_SERVICE_ADDRESS_MAX) of
          None \<Rightarrow> Inl (Invalid_Tun_Host n)
        | Some t \<Rightarrow> Inr (config\<lparr>tun_host_cidr := t\<rparr>, state\<lparr>have_tun_host := True\<rparr>))
     else if key = ''tun_guest_address'' then
       (case (if have_tun_guest state then None else parse_field val TCP_SHIFT_SERVICE_ADDRESS_MAX) of
          None \<Rightarrow> Inl (Invalid_Tun_Guest n)
        | Some t \<Rightarrow> Inr (config\<lparr>tun_guest_address := t\<rparr>, state\<lparr>have_tun_guest := True\<rparr>))
     else Inl (Unknown_Key key n))"

text \<open>One line of the file, after the size and zero-byte checks.\<close>

definition config_line ::
    "tcp_shift_service_config \<times> tcp_shift_service_parse_state \<Rightarrow> nat \<Rightarrow> string \<Rightarrow>
     service_error + tcp_shift_service_config \<times> tcp_shift_service_parse_state" where
  "config_line cs n line =
    (case config_item_of line of
       Item_Blank \<Rightarrow> Inr cs
     | Item_Forward \<Rightarrow>
         if have_forward (snd cs) then Inl Second_Forward
         else Inr (fst cs, (snd cs)\<lparr>have_forward := True, in_forward := True\<rparr>)
     | Item_Table \<Rightarrow> Inl (Unsupported_Table n)
     | Item_No_Separator \<Rightarrow> Inl (Expected_Assignment n)
     | Item_Invalid \<Rightarrow> Inl (Invalid_Assignment n)
     | Item_Assign key val \<Rightarrow>
         if in_forward (snd cs)
         then (case assign_forward (snd cs) n key val of Inl e \<Rightarrow> Inl e | Inr state \<Rightarrow> Inr (fst cs, state))
         else assign_global cs n key val)"

text \<open>The loop over the lines; \<open>n\<close> lines with \<open>used\<close> bytes have been read.\<close>

fun config_lines ::
    "tcp_shift_service_config \<times> tcp_shift_service_parse_state \<Rightarrow> nat \<Rightarrow> nat \<Rightarrow> string list \<Rightarrow>
     service_error + tcp_shift_service_config \<times> tcp_shift_service_parse_state" where
  "config_lines cs n used [] = Inr cs"
| "config_lines cs n used (line # lines) =
    (let n = n + 1; used = used + length line
     in if used > TCP_SHIFT_SERVICE_CONFIG_MAX_BYTES then Inl Exceeds_Limit
        else if CHR 0x00 \<in> set line then Inl (Nul_Byte n)
        else case config_line cs n line of Inl e \<Rightarrow> Inl e | Inr cs \<Rightarrow> config_lines cs n used lines)"

text \<open>The file: \<open>None\<close> when it cannot be opened, else its lines and whether a read error ended them. The result
  code, the configuration and the message.\<close>

definition tcp_shift_service_config_load ::
    "pton \<Rightarrow> ntop \<Rightarrow> string \<Rightarrow> (string list \<times> bool) option \<Rightarrow> tcp_shift_service_config \<Rightarrow>
     int \<times> tcp_shift_service_config \<times> service_error option" where
  "tcp_shift_service_config_load pton ntop path stream config =
    (if path = [] then (-1, config, Some Path_Invalid)
     else
       case stream of None \<Rightarrow> (-1, service_config_zero, Some Opening_Failed)
       | Some (lines, ferror) \<Rightarrow>
           (case (case config_lines (service_config_zero, parse_state_zero) 0 0 lines of
                    Inl e \<Rightarrow> Inl e
                  | Inr (config, state) \<Rightarrow>
                      if ferror then Inl Reading_Failed else finalize_config pton ntop config state) of
              Inl e \<Rightarrow> (-1, service_config_zero, Some e)
            | Inr config \<Rightarrow> (0, config, None)))"

section \<open>Printing\<close>

text \<open>The inverse of the string syntax, and a line that assigns a value.\<close>

definition escape_char :: "char \<Rightarrow> string" where
  "escape_char c =
    (if c = CHR 0x5C then [CHR 0x5C, CHR 0x5C]
     else if c = CHR 0x22 then [CHR 0x5C, CHR 0x22]
     else if c = CHR 0x0A then [CHR 0x5C, CHR ''n'']
     else if c = CHR 0x0D then [CHR 0x5C, CHR ''r'']
     else if c = CHR 0x09 then [CHR 0x5C, CHR ''t'']
     else [c])"

definition quote :: "string \<Rightarrow> string" where
  "quote v = CHR 0x22 # concat (map escape_char v) @ [CHR 0x22]"

definition assign_line :: "string \<Rightarrow> string \<Rightarrow> string" where
  "assign_line key val = key @ '' = '' @ val @ [CHR 0x0A]"

text \<open>The characters a string value can hold.\<close>

definition text_char :: "char \<Rightarrow> bool" where
  "text_char c \<longleftrightarrow> 32 \<le> char_int c \<or> c = CHR 0x0A \<or> c = CHR 0x0D \<or> c = CHR 0x09"

lemma parse_string_loop_escape:
  "\<forall>c\<in>set v. text_char c \<Longrightarrow> out + length v < output_size \<Longrightarrow>
    parse_string_loop output_size out (concat (map escape_char v)) = Some v"
proof (induction v arbitrary: out)
  case (Cons c v)
  have IH: "parse_string_loop output_size (out + 1) (concat (map escape_char v)) = Some v"
    using Cons by simp
  moreover have "text_char c" "out + 1 < output_size" using Cons.prems by simp_all
  ultimately show ?case
    by (cases "c = CHR 0x5C \<or> c = CHR 0x22 \<or> c = CHR 0x0A \<or> c = CHR 0x0D \<or> c = CHR 0x09")
      (auto simp: escape_char_def [of c] escape_char_def [of "CHR 0x5C"] escape_char_def [of "CHR 0x22"]
        escape_char_def [of "CHR 0x0A"] escape_char_def [of "CHR 0x0D"] escape_char_def [of "CHR 0x09"]
        escape_byte_def text_char_def)
qed simp

lemma quote_ends: "length (quote v) \<ge> 2" "hd (quote v) = CHR 0x22" "last (quote v) = CHR 0x22"
  "butlast (tl (quote v)) = concat (map escape_char v)"
  by (simp_all add: quote_def)

lemma parse_string_quote:
  "\<forall>c\<in>set v. text_char c \<Longrightarrow> length v < output_size \<Longrightarrow> parse_string (quote v) output_size = Some v"
  using quote_ends [of v] parse_string_loop_escape [of v 0 output_size] by (simp add: parse_string_def)

lemma strip_comment_escape:
  "strip_comment_from True False (concat (map escape_char v) @ CHR 0x22 # rest) =
    concat (map escape_char v) @ CHR 0x22 # strip_comment_from False False rest"
  by (induction v) (auto simp: escape_char_def)

text \<open>Text outside quotes that comment stripping passes over.\<close>

lemma strip_comment_plain:
  "CHR ''#'' \<notin> set a \<Longrightarrow> CHR 0x22 \<notin> set a \<Longrightarrow>
    strip_comment_from False False (a @ b) = a @ strip_comment_from False False b"
  by (induction a) auto

lemma trim_spaces:
  assumes "\<forall>c\<in>set a. c_isspace c" and "\<forall>c\<in>set b. c_isspace c" and "s \<noteq> []"
    and "\<not> c_isspace (hd s)" and "\<not> c_isspace (last s)"
  shows "trim (a @ s @ b) = s"
proof -
  have 1: "dropWhile c_isspace (a @ s @ b) = s @ b"
    using assms by (simp add: dropWhile_append) (cases s; simp)
  have "\<not> c_isspace (hd (rev s))" using assms(3,5) by (simp add: hd_rev)
  then have 2: "dropWhile c_isspace (rev b @ rev s) = rev s"
    using assms(2,3) by (simp add: dropWhile_append) (cases "rev s"; simp)
  show ?thesis by (simp add: trim_def 1 2)
qed

text \<open>The keys of the schema are such texts.\<close>

definition key_text :: "string \<Rightarrow> bool" where
  "key_text key \<longleftrightarrow> key \<noteq> [] \<and> (\<forall>c\<in>set key. \<not> c_isspace c \<and> c \<noteq> CHR ''='' \<and> c \<noteq> CHR ''#'' \<and> c \<noteq> CHR 0x22 \<and> c \<noteq> CHR ''['')"

lemma config_item_assign:
  assumes "key_text key" and "strip_comment_from False False (val @ [CHR 0x0A]) = val @ [CHR 0x0A]"
    and "val \<noteq> []" and "\<not> c_isspace (hd val)" and "\<not> c_isspace (last val)"
  shows "config_item_of (assign_line key val) = Item_Assign key val"
proof -
  obtain k ks where k: "key = k # ks" using assms(1) by (auto simp: key_text_def neq_Nil_conv)
  have ne: "CHR ''='' \<notin> set key" "CHR ''#'' \<notin> set (key @ '' = '')" "CHR 0x22 \<notin> set (key @ '' = '')"
    "\<not> c_isspace (hd key)" "\<not> c_isspace (last key)" "hd key \<noteq> CHR ''[''"
    using assms(1) by (auto simp: key_text_def)
  have sp: "c_isspace (CHR 0x0A)" "c_isspace (CHR 0x20)" by code_simp+
  have "strip_comment (assign_line key val) = (key @ '' = '') @ val @ [CHR 0x0A]"
    using strip_comment_plain [OF ne(2,3), of "val @ [CHR 0x0A]"] assms(2) by (simp add: strip_comment_def assign_line_def)
  moreover have "trim ([] @ (key @ '' = '' @ val) @ [CHR 0x0A]) = key @ '' = '' @ val"
    using assms ne sp k by (intro trim_spaces) auto
  ultimately have t: "trim (strip_comment (assign_line key val)) = key @ '' = '' @ val" by simp
  have "c_strchr ((key @ '' '') @ CHR ''='' # '' '' @ val) (CHR ''='') = Some (key @ '' '', '' '' @ val)"
    using ne(1) by (intro strchr_append) auto
  then have c: "c_strchr (key @ '' = '' @ val) (CHR ''='') = Some (key @ '' '', '' '' @ val)" by simp
  have tk: "trim (key @ '' '') = key" using trim_spaces [of "[]" "'' ''" key] ne(4,5) sp k by simp
  have tv: "trim ('' '' @ val) = val" using trim_spaces [of "'' ''" "[]" val] assms(3-5) sp by simp
  have "key @ '' = '' @ val \<noteq> ''[[forward]]''" "hd (key @ '' = '' @ val) \<noteq> CHR ''[''" using ne(6) k by auto
  moreover have "key \<noteq> []" using k by simp
  ultimately show ?thesis using assms(3) by (simp add: config_item_of_def t c tk tv Let_def del: append_Cons)
qed

lemma config_item_quote: "key_text key \<Longrightarrow> config_item_of (assign_line key (quote v)) = Item_Assign key (quote v)"
proof (rule config_item_assign)
  show "strip_comment_from False False (quote v @ [CHR 0x0A]) = quote v @ [CHR 0x0A]"
    using strip_comment_escape [of v "[CHR 0x0A]"] by (simp add: quote_def)
  show "\<not> c_isspace (hd (quote v))" "\<not> c_isspace (last (quote v))" unfolding quote_ends by code_simp+
qed (simp_all add: quote_def)

section \<open>A successful load\<close>

lemma load_cases:
  assumes "tcp_shift_service_config_load pton ntop path stream config = (0, c, e)"
  obtains lines config1 state where "stream = Some (lines, False)" and "e = None"
    and "config_lines (service_config_zero, parse_state_zero) 0 0 lines = Inr (config1, state)"
    and "finalize_config pton ntop config1 state = Inr c"
  using assms unfolding tcp_shift_service_config_load_def
  by (auto split: if_splits option.splits sum.splits prod.splits)

lemma finalize_success_flags:
  "finalize_config pton ntop config state = Inr c \<Longrightarrow>
    have_version state \<and> have_cc state \<and> have_forward state \<and> have_listen state \<and> have_backend state"
proof -
  let ?c = "if have_firewall_backend state then config else config\<lparr>firewall_backend := ''auto''\<rparr>"
  assume "finalize_config pton ntop config state = Inr c"
  then have "finalize_checks ?c state = None"
    unfolding finalize_config_def Let_def by (cases "finalize_checks ?c state") simp_all
  then show ?thesis unfolding finalize_checks_def by (simp split: if_split_asm)
qed

end
