(* ===== verification/Service_Schema.thy ===== *)
theory Service_Schema
  imports Service_Config
begin

text \<open>
  The strictness of the service configuration: which files \<^verbatim>\<open>tcp_shift_service_config_load\<close> accepts, in
  terms of the keys their lines assign.
\<close>

section \<open>The schema\<close>

definition key_if :: "string \<Rightarrow> bool \<Rightarrow> string set" where
  "key_if k seen = (if seen then {k} else {})"

definition global_keys :: "tcp_shift_service_parse_state \<Rightarrow> string set" where
  "global_keys state = key_if ''version'' (have_version state) \<union> key_if ''cc'' (have_cc state) \<union>
    key_if ''firewall_backend'' (have_firewall_backend state) \<union> key_if ''tun_name'' (have_tun_name state) \<union>
    key_if ''tun_host_address'' (have_tun_host state) \<union> key_if ''tun_guest_address'' (have_tun_guest state)"

definition forward_keys :: "tcp_shift_service_parse_state \<Rightarrow> string set" where
  "forward_keys state = key_if ''listen'' (have_listen state) \<union> key_if ''backend'' (have_backend state)"

lemma key_if_True: "\<not> b \<Longrightarrow> key_if k True = insert k (key_if k b)"
  by (simp add: key_if_def)

lemma key_if_mem [simp]: "k \<in> key_if k' b \<longleftrightarrow> k = k' \<and> b"
  by (simp add: key_if_def)

text \<open>The lines of a file that are not blank.\<close>

definition config_items :: "string list \<Rightarrow> config_item list" where
  "config_items lines = filter (\<lambda>i. i \<noteq> Item_Blank) (map config_item_of lines)"

lemma config_items_simps [simp]:
  "config_items [] = []"
  "config_items (l # ls) = (if config_item_of l = Item_Blank then config_items ls else config_item_of l # config_items ls)"
  by (simp_all add: config_items_def)

lemma keys_upd:
  "\<not> have_version s \<Longrightarrow> global_keys (s\<lparr>have_version := True\<rparr>) = insert ''version'' (global_keys s)"
  "forward_keys (s\<lparr>have_version := True\<rparr>) = forward_keys s"
  "\<not> have_cc s \<Longrightarrow> global_keys (s\<lparr>have_cc := True\<rparr>) = insert ''cc'' (global_keys s)"
  "forward_keys (s\<lparr>have_cc := True\<rparr>) = forward_keys s"
  "\<not> have_firewall_backend s \<Longrightarrow> global_keys (s\<lparr>have_firewall_backend := True\<rparr>) = insert ''firewall_backend'' (global_keys s)"
  "forward_keys (s\<lparr>have_firewall_backend := True\<rparr>) = forward_keys s"
  "\<not> have_tun_name s \<Longrightarrow> global_keys (s\<lparr>have_tun_name := True\<rparr>) = insert ''tun_name'' (global_keys s)"
  "forward_keys (s\<lparr>have_tun_name := True\<rparr>) = forward_keys s"
  "\<not> have_tun_host s \<Longrightarrow> global_keys (s\<lparr>have_tun_host := True\<rparr>) = insert ''tun_host_address'' (global_keys s)"
  "forward_keys (s\<lparr>have_tun_host := True\<rparr>) = forward_keys s"
  "\<not> have_tun_guest s \<Longrightarrow> global_keys (s\<lparr>have_tun_guest := True\<rparr>) = insert ''tun_guest_address'' (global_keys s)"
  "forward_keys (s\<lparr>have_tun_guest := True\<rparr>) = forward_keys s"
  "\<not> have_listen s \<Longrightarrow> forward_keys (s\<lparr>state_listen := t, have_listen := True\<rparr>) = insert ''listen'' (forward_keys s)"
  "global_keys (s\<lparr>state_listen := t, have_listen := True\<rparr>) = global_keys s"
  "\<not> have_backend s \<Longrightarrow> forward_keys (s\<lparr>state_backend := t, have_backend := True\<rparr>) = insert ''backend'' (forward_keys s)"
  "global_keys (s\<lparr>state_backend := t, have_backend := True\<rparr>) = global_keys s"
  by (simp_all add: global_keys_def forward_keys_def key_if_True)

lemma keys_mem:
  "''listen'' \<in> forward_keys s \<longleftrightarrow> have_listen s" "''backend'' \<in> forward_keys s \<longleftrightarrow> have_backend s"
  "''version'' \<in> global_keys s \<longleftrightarrow> have_version s" "''cc'' \<in> global_keys s \<longleftrightarrow> have_cc s"
  "''firewall_backend'' \<in> global_keys s \<longleftrightarrow> have_firewall_backend s" "''tun_name'' \<in> global_keys s \<longleftrightarrow> have_tun_name s"
  "''tun_host_address'' \<in> global_keys s \<longleftrightarrow> have_tun_host s" "''tun_guest_address'' \<in> global_keys s \<longleftrightarrow> have_tun_guest s"
  by (simp_all add: forward_keys_def global_keys_def)

lemma assign_forward_keys:
  assumes "assign_forward state n key val = Inr state'"
  shows "key \<notin> forward_keys state \<and> forward_keys state' = insert key (forward_keys state) \<and>
    global_keys state' = global_keys state \<and> in_forward state' = in_forward state \<and>
    have_forward state' = have_forward state"
proof -
  consider "key = ''listen''" | "key = ''backend''" "key \<noteq> ''listen''"
    using assms by (auto simp: assign_forward_def split: if_splits)
  then show ?thesis
  proof cases
    case 1
    then show ?thesis using assms unfolding assign_forward_def
      by (simp split: if_splits option.splits) (clarsimp simp: keys_upd keys_mem)
  next
    case 2
    then show ?thesis using assms unfolding assign_forward_def
      by (simp split: if_splits option.splits) (clarsimp simp: keys_upd keys_mem)
  qed
qed

text \<open>A successful assignment sets one flag that was clear.\<close>

lemma assign_global_flag:
  assumes "assign_global (config, state) n key val = Inr (config', state')"
  shows "key = ''version'' \<and> \<not> have_version state \<and> state' = state\<lparr>have_version := True\<rparr> \<or>
    key = ''cc'' \<and> \<not> have_cc state \<and> state' = state\<lparr>have_cc := True\<rparr> \<or>
    key = ''firewall_backend'' \<and> \<not> have_firewall_backend state \<and> state' = state\<lparr>have_firewall_backend := True\<rparr> \<or>
    key = ''tun_name'' \<and> \<not> have_tun_name state \<and> state' = state\<lparr>have_tun_name := True\<rparr> \<or>
    key = ''tun_host_address'' \<and> \<not> have_tun_host state \<and> state' = state\<lparr>have_tun_host := True\<rparr> \<or>
    key = ''tun_guest_address'' \<and> \<not> have_tun_guest state \<and> state' = state\<lparr>have_tun_guest := True\<rparr>"
  using assms unfolding assign_global_def prod.case Let_def
  by (simp split: if_split_asm option.split_asm)

lemma assign_global_keys:
  assumes "assign_global (config, state) n key val = Inr (config', state')"
  shows "key \<notin> global_keys state \<and> global_keys state' = insert key (global_keys state) \<and>
    forward_keys state' = forward_keys state \<and> in_forward state' = in_forward state \<and>
    have_forward state' = have_forward state"
  using assign_global_flag [OF assms] by (elim disjE) (simp_all add: keys_upd keys_mem)

lemma config_lines_step:
  assumes "config_lines cs n used (l # ls) = Inr cs'"
  obtains cs1 where "config_line cs (n + 1) l = Inr cs1" and "config_lines cs1 (n + 1) (used + length l) ls = Inr cs'"
  using assms by (auto simp: Let_def split: if_splits sum.splits)

text \<open>After the table header only the two forward keys come, each at most once.\<close>

lemma config_lines_forward:
  "config_lines (config, state) n used lines = Inr (config', state') \<Longrightarrow> in_forward state \<Longrightarrow> have_forward state \<Longrightarrow>
    \<exists>f. config_items lines = map (\<lambda>(k, v). Item_Assign k v) f \<and> distinct (map fst f) \<and>
      forward_keys state' = forward_keys state \<union> set (map fst f) \<and> forward_keys state \<inter> set (map fst f) = {} \<and>
      global_keys state' = global_keys state \<and> config' = config"
proof (induction lines arbitrary: config state n used)
  case (Cons l ls)
  obtain cs1 where step: "config_line (config, state) (n + 1) l = Inr cs1"
    and rest: "config_lines cs1 (n + 1) (used + length l) ls = Inr (config', state')"
    using config_lines_step [OF Cons.prems(1)] .
  show ?case
  proof (cases "config_item_of l")
    case Item_Blank
    then show ?thesis using Cons.IH [of config state] step rest Cons.prems(2,3) by (simp add: config_line_def)
  next
    case (Item_Assign k v)
    then obtain s1 where a: "assign_forward state (n + 1) k v = Inr s1" and cs1: "cs1 = (config, s1)"
      using step Cons.prems(2) by (auto simp: config_line_def split: sum.splits)
    note k = assign_forward_keys [OF a]
    obtain f where f: "config_items ls = map (\<lambda>(k, v). Item_Assign k v) f" "distinct (map fst f)"
      "forward_keys state' = forward_keys s1 \<union> set (map fst f)" "forward_keys s1 \<inter> set (map fst f) = {}"
      "global_keys state' = global_keys s1" "config' = config"
      using Cons.IH [of config s1] rest k Cons.prems(2,3) unfolding cs1 by blast
    then show ?thesis using k Item_Assign by (intro exI [of _ "(k, v) # f"]) auto
  qed (use step Cons.prems(2,3) in \<open>simp_all add: config_line_def\<close>)
qed simp

text \<open>A file that has a table header splits at it.\<close>

lemma config_lines_global:
  "config_lines (config, state) n used lines = Inr (config', state') \<Longrightarrow> \<not> in_forward state \<Longrightarrow>
    \<not> have_forward state \<Longrightarrow> have_forward state' \<Longrightarrow>
    \<exists>g f. config_items lines = map (\<lambda>(k, v). Item_Assign k v) g @ Item_Forward # map (\<lambda>(k, v). Item_Assign k v) f \<and>
      distinct (map fst g) \<and> distinct (map fst f) \<and>
      global_keys state' = global_keys state \<union> set (map fst g) \<and> global_keys state \<inter> set (map fst g) = {} \<and>
      forward_keys state' = forward_keys state \<union> set (map fst f) \<and> forward_keys state \<inter> set (map fst f) = {}"
proof (induction lines arbitrary: config state n used)
  case (Cons l ls)
  obtain cs1 where step: "config_line (config, state) (n + 1) l = Inr cs1"
    and rest: "config_lines cs1 (n + 1) (used + length l) ls = Inr (config', state')"
    using config_lines_step [OF Cons.prems(1)] .
  show ?case
  proof (cases "config_item_of l")
    case Item_Blank
    then show ?thesis using Cons.IH [of config state] step rest Cons.prems(2-4) by (simp add: config_line_def)
  next
    case Item_Forward
    define s1 where "s1 = state\<lparr>have_forward := True, in_forward := True\<rparr>"
    have keys: "global_keys s1 = global_keys state" "forward_keys s1 = forward_keys state"
      by (simp_all add: s1_def global_keys_def forward_keys_def)
    have cs1: "cs1 = (config, s1)" using step Item_Forward Cons.prems(3) by (simp add: config_line_def s1_def)
    obtain f where "config_items ls = map (\<lambda>(k, v). Item_Assign k v) f" "distinct (map fst f)"
      "forward_keys state' = forward_keys s1 \<union> set (map fst f)" "forward_keys s1 \<inter> set (map fst f) = {}"
      "global_keys state' = global_keys s1"
      using config_lines_forward [OF rest [unfolded cs1]] by (auto simp: s1_def)
    then show ?thesis using Item_Forward keys by (intro exI [of _ "[]"] exI [of _ f]) simp
  next
    case (Item_Assign k v)
    obtain c1 s1 where cs1: "cs1 = (c1, s1)" by (cases cs1)
    have a: "assign_global (config, state) (n + 1) k v = Inr (c1, s1)"
      using step Cons.prems(2) Item_Assign cs1 by (simp add: config_line_def)
    note k = assign_global_keys [OF a]
    have s1: "\<not> in_forward s1" "\<not> have_forward s1" using k Cons.prems(2,3) by simp_all
    obtain g f where gf: "config_items ls =
        map (\<lambda>(k, v). Item_Assign k v) g @ Item_Forward # map (\<lambda>(k, v). Item_Assign k v) f"
      "distinct (map fst g)" "distinct (map fst f)"
      "global_keys state' = global_keys (s1) \<union> set (map fst g)" "global_keys (s1) \<inter> set (map fst g) = {}"
      "forward_keys state' = forward_keys (s1) \<union> set (map fst f)"
      "forward_keys (s1) \<inter> set (map fst f) = {}"
      using Cons.IH [OF rest [unfolded cs1] s1 Cons.prems(4)] by blast
    then show ?thesis using k Item_Assign by (intro exI [of _ "(k, v) # g"] exI [of _ f]) auto
  qed (use step Cons.prems(2,3) in \<open>simp_all add: config_line_def\<close>)
qed simp

section \<open>A concrete file\<close>

text \<open>The reader without its size and zero-byte checks.\<close>

fun plain_lines ::
    "tcp_shift_service_config \<times> tcp_shift_service_parse_state \<Rightarrow> nat \<Rightarrow> string list \<Rightarrow>
     service_error + tcp_shift_service_config \<times> tcp_shift_service_parse_state" where
  "plain_lines cs n [] = Inr cs"
| "plain_lines cs n (l # ls) = (case config_line cs (n + 1) l of Inl e \<Rightarrow> Inl e | Inr cs \<Rightarrow> plain_lines cs (n + 1) ls)"

lemma config_lines_plain:
  "used + (\<Sum>l\<leftarrow>ls. length l) \<le> TCP_SHIFT_SERVICE_CONFIG_MAX_BYTES \<Longrightarrow> \<forall>l\<in>set ls. CHR 0x00 \<notin> set l \<Longrightarrow>
    config_lines cs n used ls = plain_lines cs n ls"
  by (induction ls arbitrary: cs n used) (auto split: sum.split)

text \<open>The address conversions on a few IPv4 addresses.\<close>

definition demo_table :: "(string \<times> u8 list) list" where
  "demo_table = [(''127.0.0.1'', [127, 0, 0, 1]), (''203.0.113.10'', [203, 0, 113, 10]),
    (''198.18.0.1'', [198, 18, 0, 1]), (''198.18.0.2'', [198, 18, 0, 2]), (''255.255.255.252'', [255, 255, 255, 252])]"

definition demo_pton :: pton where
  "demo_pton v s = (if v = 4 then map_of demo_table s else None)"

definition demo_ntop :: ntop where
  "demo_ntop v p n =
    (if v \<noteq> 4 then None
     else case map_of (map (\<lambda>(a, b). (b, a)) demo_table) p of None \<Rightarrow> None
          | Some a \<Rightarrow> if length a < n then Some a else None)"

definition demo_lines :: "string list" where
  "demo_lines =
    [assign_line ''version'' ''1 # schema'', assign_line ''cc'' (quote ''bbr''), [CHR 0x0A],
     ''[[forward]]'' @ [CHR 0x0A], assign_line ''listen'' (quote ''203.0.113.10:443''),
     assign_line ''backend'' (quote ''127.0.0.1:8080'')]"

definition demo_service_config :: tcp_shift_service_config where
  "demo_service_config =
    \<lparr>config_version = 1, ip_version = 4, cc = ''bbr'', firewall_backend = ''auto'', tun_name = [],
     tun_host_address = ''198.18.0.1'', tun_host_cidr = ''198.18.0.1/30'', tun_guest_address = ''198.18.0.2'',
     tun_netmask = ''255.255.255.252'', public_address = ''203.0.113.10'', public_port = 443, backend_port = 8080\<rparr>"

lemma demo_load:
  "tcp_shift_service_config_load demo_pton demo_ntop ''f'' (Some (demo_lines, False)) service_config_zero =
    (0, demo_service_config, None)"
proof -
  have small: "(\<Sum>l\<leftarrow>demo_lines. length l) \<le> 1000 \<and> (\<forall>l\<in>set demo_lines. CHR 0x00 \<notin> set l)" by code_simp
  have "config_lines (service_config_zero, parse_state_zero) 0 0 demo_lines =
      plain_lines (service_config_zero, parse_state_zero) 0 demo_lines"
    using small by (intro config_lines_plain) (simp_all add: service_const_defs)
  moreover have "(case plain_lines (service_config_zero, parse_state_zero) 0 demo_lines of Inl e \<Rightarrow> Inl e
      | Inr (config, state) \<Rightarrow> finalize_config demo_pton demo_ntop config state) = Inr demo_service_config"
    by code_simp
  ultimately show ?thesis
    unfolding tcp_shift_service_config_load_def by (auto split: sum.split_asm)
qed

text \<open>The schema is strict: a file that loads consists, up to blank lines and comments, of assignments to
  distinct global keys out of the six known ones, with \<^verbatim>\<open>version\<close> and \<^verbatim>\<open>cc\<close> among them, one \<^verbatim>\<open>[[forward]]\<close>
  header, and exactly one assignment each to \<^verbatim>\<open>listen\<close> and \<^verbatim>\<open>backend\<close>. Anything else is refused.\<close>

theorem service_config_schema_strict:
  assumes "tcp_shift_service_config_load pton ntop path (Some (lines, ferror)) config0 = (0, c, e)"
  shows "\<exists>g f. config_items lines =
      map (\<lambda>(k, v). Item_Assign k v) g @ Item_Forward # map (\<lambda>(k, v). Item_Assign k v) f \<and>
    distinct (map fst g) \<and> {''version'', ''cc''} \<subseteq> set (map fst g) \<and>
    set (map fst g) \<subseteq> {''version'', ''cc'', ''firewall_backend'', ''tun_name'', ''tun_host_address'', ''tun_guest_address''} \<and>
    distinct (map fst f) \<and> set (map fst f) = {''listen'', ''backend''}"
proof -
  obtain config1 state where r: "config_lines (service_config_zero, parse_state_zero) 0 0 lines = Inr (config1, state)"
    and fin: "finalize_config pton ntop config1 state = Inr c"
  proof (rule load_cases [OF assms])
    fix l c1 s1
    assume "Some (lines, ferror) = Some (l, False)" "config_lines (service_config_zero, parse_state_zero) 0 0 l = Inr (c1, s1)"
      "finalize_config pton ntop c1 s1 = Inr c"
    then show thesis by (intro that [of c1 s1]) simp_all
  qed
  then have fl: "have_version state" "have_cc state" "have_forward state" "have_listen state" "have_backend state"
    using finalize_success_flags [OF fin] by simp_all
  have z: "global_keys parse_state_zero = {}" "forward_keys parse_state_zero = {}" "\<not> in_forward parse_state_zero"
    "\<not> have_forward parse_state_zero"
    by (simp_all add: parse_state_zero_def global_keys_def forward_keys_def key_if_def)
  have known: "global_keys state \<subseteq>
      {''version'', ''cc'', ''firewall_backend'', ''tun_name'', ''tun_host_address'', ''tun_guest_address''}"
    "{''version'', ''cc''} \<subseteq> global_keys state" "forward_keys state = {''listen'', ''backend''}"
    using fl by (auto simp: global_keys_def forward_keys_def)
  obtain g f where "config_items lines =
      map (\<lambda>(k, v). Item_Assign k v) g @ Item_Forward # map (\<lambda>(k, v). Item_Assign k v) f"
    "distinct (map fst g)" "distinct (map fst f)" "global_keys state = {} \<union> set (map fst g)"
    "forward_keys state = {} \<union> set (map fst f)"
    using config_lines_global [OF r z(3,4) fl(3)] unfolding z by blast
  then show ?thesis using known
    by (intro exI [of _ g] exI [of _ f] conjI) (simp_all only: Un_empty_left)
qed

theorem service_config_schema_strict_witness:
  "\<exists>g f. config_items demo_lines =
      map (\<lambda>(k, v). Item_Assign k v) g @ Item_Forward # map (\<lambda>(k, v). Item_Assign k v) f \<and>
    distinct (map fst g) \<and> set (map fst f) = {''listen'', ''backend''}"
proof -
  obtain g f where "config_items demo_lines =
      map (\<lambda>(k, v). Item_Assign k v) g @ Item_Forward # map (\<lambda>(k, v). Item_Assign k v) f"
    "distinct (map fst g)" "set (map fst f) = {''listen'', ''backend''}"
    using service_config_schema_strict [OF demo_load] by (elim exE conjE)
  then show ?thesis by (intro exI conjI)
qed

end
