(* ===== verification/Service_Roundtrip.thy ===== *)
theory Service_Roundtrip
  imports Service_Schema
begin

text \<open>
  What a configuration that \<^verbatim>\<open>tcp_shift_service_config_load\<close> returns satisfies, and that printing it gives a
  file that loads to the same configuration. The address conversions are arguments; what is used
  of their documented behaviour is \<open>address_laws\<close>.
\<close>

section \<open>What a loaded configuration satisfies\<close>

text \<open>Documented behaviour of the address conversions: the printed address fits the buffer, and printing what was
  read gives an address of the family's characters that reads back to the same bytes.\<close>

definition address_char :: "int \<Rightarrow> char \<Rightarrow> bool" where
  "address_char v c \<longleftrightarrow> c_isdigit c \<or> c = CHR ''.'' \<or> v \<noteq> 4 \<and> (c = CHR '':'' \<or> 97 \<le> char_int c \<and> char_int c \<le> 102)"

definition address_laws :: "pton \<Rightarrow> ntop \<Rightarrow> bool" where
  "address_laws pton ntop \<longleftrightarrow>
    (\<forall>v p n a. ntop v p n = Some a \<longrightarrow> length a < n) \<and>
    (\<forall>v s p n a. pton v s = Some p \<and> ntop v p n = Some a \<longrightarrow>
       pton v a = Some p \<and> a \<noteq> [] \<and> (\<forall>c\<in>set a. address_char v c))"

definition canonical_address :: "pton \<Rightarrow> ntop \<Rightarrow> int \<Rightarrow> string \<Rightarrow> bool" where
  "canonical_address pton ntop v a \<longleftrightarrow>
    (case pton v a of None \<Rightarrow> False | Some p \<Rightarrow> ntop v p TCP_SHIFT_SERVICE_ADDRESS_MAX = Some a)"

definition wildcard_address :: "pton \<Rightarrow> int \<Rightarrow> string \<Rightarrow> bool" where
  "wildcard_address pton v a \<longleftrightarrow>
    (case pton v a of None \<Rightarrow> False
     | Some p \<Rightarrow> v = 4 \<and> take 4 p = replicate 4 0 \<or> v = 6 \<and> take 16 p = replicate 16 0)"

text \<open>The text of an endpoint.\<close>

definition endpoint_text :: "int \<Rightarrow> string \<Rightarrow> u16 \<Rightarrow> string" where
  "endpoint_text v a port =
    (if v = 4 then a @ '':'' @ show_int (uint port) else ''['' @ a @ '']:'' @ show_int (uint port))"

definition service_config_ok :: "pton \<Rightarrow> ntop \<Rightarrow> tcp_shift_service_config \<Rightarrow> bool" where
  "service_config_ok pton ntop c \<longleftrightarrow>
    config_version c = 1 \<and> valid_cc (cc c) \<and> valid_firewall_backend (firewall_backend c) \<and> valid_tun_name (tun_name c) \<and>
    (ip_version c = 4 \<or> ip_version c = 6) \<and> public_port c \<noteq> 0 \<and> backend_port c \<noteq> 0 \<and>
    canonical_address pton ntop (ip_version c) (public_address c) \<and>
    \<not> wildcard_address pton (ip_version c) (public_address c) \<and>
    canonical_address pton ntop 4 ''127.0.0.1'' \<and> \<not> wildcard_address pton 4 ''127.0.0.1'' \<and>
    length (tun_host_cidr c) < TCP_SHIFT_SERVICE_ADDRESS_MAX \<and> length (tun_netmask c) < TCP_SHIFT_SERVICE_ADDRESS_MAX \<and>
    parse_cidr pton ntop (tun_host_cidr c) (ip_version c) TCP_SHIFT_SERVICE_ADDRESS_MAX
      TCP_SHIFT_SERVICE_ADDRESS_MAX TCP_SHIFT_SERVICE_ADDRESS_MAX =
      Some (tun_host_address c, tun_host_cidr c, tun_netmask c) \<and>
    canonical_address pton ntop (ip_version c) (tun_host_address c) \<and>
    canonical_address pton ntop (ip_version c) (tun_guest_address c) \<and>
    \<not> same_ip pton (tun_host_address c) (tun_guest_address c) (ip_version c)"

lemma laws_length:
  assumes "address_laws pton ntop" and "ntop v p n = Some a"
  shows "length a < n"
  by (rule assms(1) [unfolded address_laws_def, THEN conjunct1, rule_format, OF assms(2)])

lemma laws_canonical:
  assumes "address_laws pton ntop" and "pton v s = Some p" and "ntop v p n = Some a"
  shows "pton v a = Some p \<and> a \<noteq> [] \<and> (\<forall>c\<in>set a. address_char v c)"
  by (rule assms(1) [unfolded address_laws_def, THEN conjunct2, THEN spec, THEN spec, THEN spec, THEN spec, THEN spec,
    THEN mp, OF conjI, OF assms(2,3)])

lemma canonical_of_read:
  assumes "address_laws pton ntop" and "pton v s = Some p" and "ntop v p TCP_SHIFT_SERVICE_ADDRESS_MAX = Some a"
  shows "canonical_address pton ntop v a" and "pton v a = Some p"
  using laws_canonical [OF assms] assms(3) by (simp_all add: canonical_address_def)

lemma canonicalD:
  assumes "address_laws pton ntop" and "canonical_address pton ntop v a"
  obtains p where "pton v a = Some p" and "ntop v p TCP_SHIFT_SERVICE_ADDRESS_MAX = Some a"
    and "length a < TCP_SHIFT_SERVICE_ADDRESS_MAX" and "a \<noteq> []" and "\<forall>c\<in>set a. address_char v c"
proof (cases "pton v a")
  case None
  then show thesis using assms(2) by (simp add: canonical_address_def)
next
  case (Some p)
  then have p: "ntop v p TCP_SHIFT_SERVICE_ADDRESS_MAX = Some a" using assms(2) by (simp add: canonical_address_def)
  show thesis using laws_length [OF assms(1) p] laws_canonical [OF assms(1) Some p] Some p by (intro that) simp_all
qed

lemma parse_unsigned_show:
  assumes "n \<le> maximum"
  shows "parse_unsigned (show_int (uint n)) maximum = Some n"
proof -
  have r: "0 \<le> uint n" "uint n \<le> 18446744073709551615" using uint_lt2p [of n] by simp_all
  obtain d ds where d: "show_int (uint n) = d # ds" "c_isdigit d"
    using show_int_digits [OF r(1)] by (cases "show_int (uint n)") auto
  have "c_strtoull (show_int (uint n)) = (n, [], False)"
    using strtoull_show [OF r, of "[]"] by simp
  then show ?thesis using d assms by (simp add: parse_unsigned_def not_less)
qed

lemma parse_unsigned_SomeD: "parse_unsigned t maximum = Some n \<Longrightarrow> n \<le> maximum"
  by (auto simp: parse_unsigned_def Let_def not_less split: if_splits prod.splits)

lemma show_no_special:
  fixes w :: "'a::len word"
  shows "CHR '':'' \<notin> set (show_int (uint w))" "CHR ''/'' \<notin> set (show_int (uint w))" "show_int (uint w) \<noteq> []"
  using show_int_digits [of "uint w"] by (auto simp: c_isdigit_def char_int_def)

lemma address_char_special:
  "\<forall>c\<in>set a. address_char v c \<Longrightarrow> CHR '']'' \<notin> set a \<and> (v = 4 \<longrightarrow> CHR '':'' \<notin> set a \<and> hd (a @ [CHR '':'']) \<noteq> CHR ''['')"
  by (cases a) (auto simp: address_char_def c_isdigit_def char_int_def)

lemma endpoint_parts_text:
  assumes "v = 4 \<or> v = 6" and "a \<noteq> []" and "length a < TCP_SHIFT_SERVICE_ADDRESS_MAX" and "\<forall>c\<in>set a. address_char v c"
  shows "endpoint_parts (endpoint_text v a port) = Some (v, a, show_int (uint port))"
proof (cases "v = 4")
  case True
  then have s: "CHR '':'' \<notin> set a" "hd a \<noteq> CHR ''[''" using address_char_special [OF assms(4)] assms(2) by simp_all
  have "c_strrchr (a @ CHR '':'' # show_int (uint port)) (CHR '':'') = Some (a, show_int (uint port))"
    using show_no_special(1) by (intro strrchr_append)
  moreover have "char_at (a @ CHR '':'' # show_int (uint port)) 0 = hd a"
    using assms(2) by (cases a) (simp_all add: char_at_def)
  ultimately show ?thesis using True s assms(2,3) by (simp add: endpoint_parts_def endpoint_text_def)
next
  case False
  have "c_strchr ((CHR ''['' # a) @ CHR '']'' # CHR '':'' # show_int (uint port)) (CHR '']'') =
      Some (CHR ''['' # a, CHR '':'' # show_int (uint port))"
    using address_char_special [OF assms(4)] by (intro strchr_append) simp
  moreover have "length (show_int (uint port)) \<noteq> 0" using show_no_special(3) by simp
  ultimately show ?thesis using False assms(1-3) by (simp add: endpoint_parts_def endpoint_text_def char_at_def Let_def)
qed

lemma parse_endpoint_text:
  assumes "address_laws pton ntop" and "v = 4 \<or> v = 6" and "canonical_address pton ntop v a"
    and "\<not> wildcard_address pton v a" and "port \<noteq> 0"
  shows "parse_endpoint pton ntop (endpoint_text v a port) TCP_SHIFT_SERVICE_ADDRESS_MAX = Some (v, a, port)"
proof -
  obtain p where p: "pton v a = Some p" "ntop v p TCP_SHIFT_SERVICE_ADDRESS_MAX = Some a"
    and e: "endpoint_parts (endpoint_text v a port) = Some (v, a, show_int (uint port))"
    using canonicalD [OF assms(1,3)] endpoint_parts_text [OF assms(2)] by metis
  let ?w = "ucast port :: u64"
  have u: "uint ?w = uint port" using uint_lt2p [of port] by (simp add: unsigned_ucast_eq take_bit_int_eq_self)
  have le: "?w \<le> 65535" using uint_lt2p [of port] unfolding word_le_def u by simp
  have "parse_unsigned (show_int (uint port)) 65535 = Some ?w" using parse_unsigned_show [OF le] u by simp
  moreover have "?w \<noteq> 0" using assms(5) u by (metis uint_0_iff)
  moreover have "ucast ?w = port" using uint_lt2p [of port] u
    by (simp add: word_uint_eq_iff unsigned_ucast_eq take_bit_int_eq_self take_bit_word_eq_self)
  moreover have "\<not> (v = 4 \<and> take 4 p = replicate 4 0 \<or> v = 6 \<and> take 16 p = replicate 16 0)"
    using assms(4) p(1) by (simp add: wildcard_address_def)
  ultimately show ?thesis unfolding parse_endpoint_def e using p by (simp del: replicate.simps)
qed

lemma parse_endpoint_success:
  assumes "address_laws pton ntop"
    and "parse_endpoint pton ntop text TCP_SHIFT_SERVICE_ADDRESS_MAX = Some (v, a, port)"
  shows "(v = 4 \<or> v = 6) \<and> port \<noteq> 0 \<and> canonical_address pton ntop v a \<and> \<not> wildcard_address pton v a"
proof -
  obtain raw t n p where parts: "endpoint_parts text = Some (v, raw, t)" and n: "parse_unsigned t 65535 = Some n" "n \<noteq> 0"
    and p: "pton v raw = Some p" "ntop v p TCP_SHIFT_SERVICE_ADDRESS_MAX = Some a"
    and w: "\<not> (v = 4 \<and> take 4 p = replicate 4 0 \<or> v = 6 \<and> take 16 p = replicate 16 0)" and port: "port = ucast n"
    using assms(2) unfolding parse_endpoint_def
    by (auto split: option.split_asm prod.split_asm if_split_asm simp del: replicate.simps)
  have "v = 4 \<or> v = 6"
    using parts by (auto simp: endpoint_parts_def Let_def split: if_split_asm option.split_asm prod.split_asm)
  moreover have "port \<noteq> 0"
  proof -
    have "unat n < 2 ^ 16" using parse_unsigned_SomeD [OF n(1)] by (simp add: word_le_nat_alt)
    then have "unat port = unat n" unfolding port by (simp add: unsigned_ucast_eq take_bit_nat_eq_self)
    then show ?thesis using n(2) by (metis unat_eq_zero)
  qed
  moreover note canonical_of_read [OF assms(1) p]
  ultimately show ?thesis using w by (simp add: wildcard_address_def)
qed

lemma parse_cidr_success:
  assumes "address_laws pton ntop" and "v = 4 \<or> v = 6"
    and "parse_cidr pton ntop text v TCP_SHIFT_SERVICE_ADDRESS_MAX TCP_SHIFT_SERVICE_ADDRESS_MAX
      TCP_SHIFT_SERVICE_ADDRESS_MAX = Some (a, cidr, nm)"
  shows "canonical_address pton ntop v a \<and> length cidr < TCP_SHIFT_SERVICE_ADDRESS_MAX \<and>
    length nm < TCP_SHIFT_SERVICE_ADDRESS_MAX \<and>
    parse_cidr pton ntop cidr v TCP_SHIFT_SERVICE_ADDRESS_MAX TCP_SHIFT_SERVICE_ADDRESS_MAX
      TCP_SHIFT_SERVICE_ADDRESS_MAX = Some (a, cidr, nm)"
proof -
  have fam: "(if v = 4 then 4 else 6) = v" using assms(2) by auto
  obtain raw t n p where n: "parse_unsigned t (if v = 4 then 32 else 128) = Some n"
    and p: "pton v raw = Some p" "ntop v p TCP_SHIFT_SERVICE_ADDRESS_MAX = Some a"
    and cidr: "cidr = a @ ''/'' @ show_int (uint n)" and len: "length cidr < TCP_SHIFT_SERVICE_ADDRESS_MAX"
    and nm: "if v = 4 then ntop 4 (htonl_bytes (netmask_of n)) TCP_SHIFT_SERVICE_ADDRESS_MAX = Some nm else nm = []"
    using assms(3) unfolding parse_cidr_def fam Let_def
    by (auto split: option.split_asm prod.split_asm if_split_asm)
  note can = canonical_of_read [OF assms(1) p]
  have rd: "c_strrchr cidr (CHR ''/'') = Some (a, show_int (uint n))"
    unfolding cidr using strrchr_append [OF show_no_special(2)] by simp
  have nn: "parse_unsigned (show_int (uint n)) (if v = 4 then 32 else 128) = Some n"
    by (rule parse_unsigned_show [OF parse_unsigned_SomeD [OF n]])
  have ne: "a \<noteq> []" "show_int (uint n) \<noteq> []" using laws_canonical [OF assms(1) p] show_no_special(3) by simp_all
  have ml: "length nm < TCP_SHIFT_SERVICE_ADDRESS_MAX"
    using nm laws_length [OF assms(1)] by (cases "v = 4") (simp_all add: service_const_defs)
  have "parse_cidr pton ntop cidr v TCP_SHIFT_SERVICE_ADDRESS_MAX TCP_SHIFT_SERVICE_ADDRESS_MAX
      TCP_SHIFT_SERVICE_ADDRESS_MAX = Some (a, cidr, nm)"
    unfolding parse_cidr_def fam Let_def rd using len ne nn can(2) p(2) nm
    by (simp add: cidr [symmetric, simplified])
  with can(1) len ml show ?thesis by blast
qed

lemma finalize_tun_success:
  assumes "address_laws pton ntop" and "v = 4 \<or> v = 6" and "finalize_tun pton ntop config state v = Inr c"
  shows "\<exists>a cidr nm guest. c = config\<lparr>tun_host_address := a, tun_host_cidr := cidr, tun_netmask := nm,
      tun_guest_address := guest\<rparr> \<and>
    parse_cidr pton ntop cidr v TCP_SHIFT_SERVICE_ADDRESS_MAX TCP_SHIFT_SERVICE_ADDRESS_MAX
      TCP_SHIFT_SERVICE_ADDRESS_MAX = Some (a, cidr, nm) \<and> canonical_address pton ntop v a \<and>
    length cidr < TCP_SHIFT_SERVICE_ADDRESS_MAX \<and> length nm < TCP_SHIFT_SERVICE_ADDRESS_MAX \<and>
    canonical_address pton ntop v guest \<and> \<not> same_ip pton a guest v"
proof -
  define host where "host = (if have_tun_host state then tun_host_cidr config else default_host v)"
  define g where "g = (if have_tun_guest state then tun_guest_address config else default_guest v)"
  have fam: "(if v = 4 then 4 else 6) = v" using assms(2) by auto
  obtain a cidr nm where pc: "parse_cidr pton ntop host v TCP_SHIFT_SERVICE_ADDRESS_MAX TCP_SHIFT_SERVICE_ADDRESS_MAX
      TCP_SHIFT_SERVICE_ADDRESS_MAX = Some (a, cidr, nm)"
    using assms(3) by (cases "have_tun_host state")
      (auto simp: finalize_tun_def host_def Let_def split: option.split_asm)
  obtain guest where cg: "canonical_ip pton ntop g v TCP_SHIFT_SERVICE_ADDRESS_MAX = Some guest"
    and ns: "\<not> same_ip pton a guest v"
    and c: "c = config\<lparr>tun_host_address := a, tun_host_cidr := cidr, tun_netmask := nm, tun_guest_address := guest\<rparr>"
    using assms(3) pc by (cases "have_tun_host state"; cases "have_tun_guest state")
      (auto simp: finalize_tun_def host_def g_def Let_def split: option.split_asm if_split_asm)
  obtain p where "pton v g = Some p" "ntop v p TCP_SHIFT_SERVICE_ADDRESS_MAX = Some guest"
    using cg unfolding canonical_ip_def fam by (auto split: option.split_asm)
  then have "canonical_address pton ntop v guest" by (rule canonical_of_read [OF assms(1)])
  with parse_cidr_success [OF assms(1,2) pc] ns c show ?thesis by blast
qed

lemma finalize_checks_none:
  "finalize_checks config state = None \<Longrightarrow> config_version config = 1 \<and> valid_cc (cc config) \<and>
    valid_firewall_backend (firewall_backend config) \<and> valid_tun_name (tun_name config)"
  unfolding finalize_checks_def service_const_defs by (simp split: if_split_asm)

lemma finalize_config_ok:
  assumes laws: "address_laws pton ntop" and fin: "finalize_config pton ntop config0 state = Inr c"
  shows "service_config_ok pton ntop c"
proof -
  define config where "config = (if have_firewall_backend state then config0 else config0\<lparr>firewall_backend := ''auto''\<rparr>)"
  obtain v a port v' b bp where checks: "finalize_checks config state = None"
    and l: "parse_endpoint pton ntop (state_listen state) TCP_SHIFT_SERVICE_ADDRESS_MAX = Some (v, a, port)"
    and b: "parse_endpoint pton ntop (state_backend state) TCP_SHIFT_SERVICE_ADDRESS_MAX = Some (v', b, bp)"
    and vb: "v' = 4" "b = ''127.0.0.1''"
    and t: "finalize_tun pton ntop (config\<lparr>public_address := a, public_port := port, backend_port := bp, ip_version := v\<rparr>)
      state v = Inr c"
    using fin unfolding finalize_config_def Let_def config_def [symmetric]
    by (auto split: option.split_asm prod.split_asm if_split_asm)
  note lv = parse_endpoint_success [OF laws l]
  note bv = parse_endpoint_success [OF laws b, unfolded vb]
  note cv = finalize_checks_none [OF checks]
  have "v = 4 \<or> v = 6" using lv by simp
  from finalize_tun_success [OF laws this t] show ?thesis
    unfolding service_config_ok_def using lv bv cv by (elim exE conjE) simp
qed

text \<open>C13. A load has exactly two outcomes: either it succeeds with no message and a configuration that satisfies every
  rule of the service (version 1, valid names, canonical non-wildcard listener and loopback backend with nonzero
  ports, a canonical TUN network of the listener's family, distinct host and guest, every string within its
  buffer), or it fails with a message and a zeroed configuration.\<close>

theorem service_config_load_valid:
  assumes "address_laws pton ntop" and "path \<noteq> []"
    and "tcp_shift_service_config_load pton ntop path stream config0 = (rc, c, e)"
  shows "(rc = 0 \<and> e = None \<and> service_config_ok pton ntop c) \<or> (rc = -1 \<and> e \<noteq> None \<and> c = service_config_zero)"
proof (cases "rc = 0")
  case True
  then show ?thesis using assms(3) finalize_config_ok [OF assms(1)] by (auto elim: load_cases)
next
  case False
  then show ?thesis using assms(2,3) unfolding tcp_shift_service_config_load_def
    by (auto split: option.split_asm sum.split_asm prod.split_asm if_split_asm)
qed

lemma demo_laws: "address_laws demo_pton demo_ntop"
proof -
  have rev_row: "map_of demo_table a = Some p \<and> a \<noteq> [] \<and> (\<forall>c\<in>set a. address_char 4 c)"
    if m: "map_of (map (\<lambda>(a, b). (b, a)) demo_table) p = Some a" for a p
  proof -
    have "\<forall>(a, p)\<in>set demo_table. map_of demo_table a = Some p \<and> a \<noteq> [] \<and> (\<forall>c\<in>set a. address_char 4 c)"
      by code_simp
    moreover have "(a, p) \<in> set demo_table" using map_of_SomeD [OF m] by auto
    ultimately show ?thesis by blast
  qed
  show ?thesis unfolding address_laws_def demo_pton_def demo_ntop_def
    using rev_row by (fastforce split: option.split_asm if_split_asm)
qed

theorem service_config_load_valid_witness:
  "tcp_shift_service_config_load demo_pton demo_ntop ''f'' (Some (demo_lines, False)) service_config_zero =
     (0, demo_service_config, None) \<and> service_config_ok demo_pton demo_ntop demo_service_config"
  using service_config_load_valid [OF demo_laws _ demo_load] demo_load by simp

section \<open>Printing a configuration\<close>

definition forward_header :: string where
  "forward_header = ''[[forward]]'' @ [CHR 0x0A]"

definition service_config_lines :: "tcp_shift_service_config \<Rightarrow> string list" where
  "service_config_lines c =
    [assign_line ''version'' ''1'', assign_line ''cc'' (quote (cc c)),
     assign_line ''firewall_backend'' (quote (firewall_backend c)), assign_line ''tun_name'' (quote (tun_name c)),
     assign_line ''tun_host_address'' (quote (tun_host_cidr c)),
     assign_line ''tun_guest_address'' (quote (tun_guest_address c)), forward_header,
     assign_line ''listen'' (quote (endpoint_text (ip_version c) (public_address c) (public_port c))),
     assign_line ''backend'' (quote (endpoint_text 4 ''127.0.0.1'' (backend_port c)))]"

lemma escape_no_nul: "\<forall>c\<in>set v. text_char c \<Longrightarrow> CHR 0x00 \<notin> set (quote v)"
  by (auto simp: quote_def escape_char_def text_char_def char_int_def split: if_split_asm)

lemma quote_length: "length (quote v) \<le> 2 * length v + 2"
  by (induction v) (auto simp: quote_def escape_char_def)

text \<open>A value of at most 127 text characters makes a short line without a zero byte.\<close>

lemma assign_line_short:
  assumes "\<forall>c\<in>set v. text_char c" and "length v < VALUE_MAX" and "length key < 20" and "CHR 0x00 \<notin> set key"
  shows "length (assign_line key (quote v)) \<le> 300" and "CHR 0x00 \<notin> set (assign_line key (quote v))"
  using quote_length [of v] escape_no_nul [OF assms(1)] assms(2-4) by (auto simp: assign_line_def VALUE_MAX_def)

lemma char_text:
  "cc_char c \<Longrightarrow> text_char c" "tun_char c \<Longrightarrow> text_char c" "address_char v c \<Longrightarrow> text_char c" "c_isdigit c \<Longrightarrow> text_char c"
  by (auto simp: cc_char_def tun_char_def address_char_def c_isdigit_def text_char_def char_int_def)

lemma endpoint_text_short:
  assumes "length a < TCP_SHIFT_SERVICE_ADDRESS_MAX" and "\<forall>c\<in>set a. address_char v c"
  shows "length (endpoint_text v a port) < VALUE_MAX \<and> (\<forall>c\<in>set (endpoint_text v a port). text_char c)"
proof -
  have "uint port < 10 ^ 5" using uint_lt2p [of port] by simp
  then have "length (show_int (uint port)) \<le> 5" by (intro show_int_length) simp_all
  moreover have "\<forall>c\<in>set (show_int (uint port)). text_char c"
    using show_int_digits [of "uint port"] char_text(4) by auto
  moreover have "text_char (CHR '':'')" "text_char (CHR ''['')" "text_char (CHR '']'')" by code_simp+
  ultimately show ?thesis using assms char_text(3) by (auto simp: endpoint_text_def service_const_defs)
qed

lemma line_global:
  "key_text key \<Longrightarrow> \<not> in_forward state \<Longrightarrow>
    config_line (config, state) n (assign_line key (quote v)) = assign_global (config, state) n key (quote v)"
  by (simp add: config_line_def config_item_quote)

lemma line_forward:
  "key_text key \<Longrightarrow> in_forward state \<Longrightarrow> config_line (config, state) n (assign_line key (quote v)) =
    (case assign_forward state n key (quote v) of Inl e \<Rightarrow> Inl e | Inr state \<Rightarrow> Inr (config, state))"
  by (simp add: config_line_def config_item_quote split: sum.split)

lemma parse_field_quote:
  "\<forall>c\<in>set v. text_char c \<Longrightarrow> length v < size_max \<Longrightarrow> size_max \<le> VALUE_MAX \<Longrightarrow> parse_field (quote v) size_max = Some v"
  by (simp add: parse_field_def parse_string_quote)

lemma line_version:
  "\<not> have_version state \<Longrightarrow> \<not> in_forward state \<Longrightarrow> config_line (config, state) n (assign_line ''version'' ''1'') =
    Inr (config\<lparr>config_version := 1\<rparr>, state\<lparr>have_version := True\<rparr>)"
proof -
  have "config_item_of (assign_line ''version'' ''1'') = Item_Assign ''version'' ''1''" by code_simp
  moreover have "parse_unsigned ''1'' 0xffffffff = Some 1" by code_simp
  ultimately show "\<not> have_version state \<Longrightarrow> \<not> in_forward state \<Longrightarrow> ?thesis"
    by (simp add: config_line_def assign_global_def)
qed

lemma line_header:
  "\<not> have_forward state \<Longrightarrow> config_line (config, state) n forward_header =
    Inr (config, state\<lparr>have_forward := True, in_forward := True\<rparr>)"
proof -
  have "config_item_of forward_header = Item_Forward" by code_simp
  then show "\<not> have_forward state \<Longrightarrow> ?thesis" by (simp add: config_line_def)
qed

lemma key_texts:
  "key_text ''cc''" "key_text ''firewall_backend''" "key_text ''tun_name''" "key_text ''tun_host_address''"
  "key_text ''tun_guest_address''" "key_text ''listen''" "key_text ''backend''"
  by code_simp+

text \<open>The texts of a configuration that is in order.\<close>

definition texts_ok :: "tcp_shift_service_config \<Rightarrow> string \<Rightarrow> string \<Rightarrow> bool" where
  "texts_ok c listen backend \<longleftrightarrow>
    (\<forall>v\<in>{cc c, firewall_backend c, tun_name c, tun_host_cidr c, tun_guest_address c, listen, backend}. \<forall>x\<in>set v. text_char x) \<and>
    length (cc c) < 16 \<and> length (firewall_backend c) < 16 \<and> valid_firewall_backend (firewall_backend c) \<and>
    length (tun_name c) < 16 \<and> length (tun_host_cidr c) < 64 \<and> length (tun_guest_address c) < 64 \<and>
    length listen < 128 \<and> length backend < 128"

definition read_config :: "tcp_shift_service_config \<Rightarrow> tcp_shift_service_config" where
  "read_config c = service_config_zero\<lparr>config_version := 1, cc := cc c, firewall_backend := firewall_backend c,
    tun_name := tun_name c, tun_host_cidr := tun_host_cidr c, tun_guest_address := tun_guest_address c\<rparr>"

definition read_state :: "string \<Rightarrow> string \<Rightarrow> tcp_shift_service_parse_state" where
  "read_state listen backend =
    \<lparr>have_version = True, have_cc = True, have_firewall_backend = True, have_tun_name = True, have_tun_host = True,
     have_tun_guest = True, have_forward = True, have_listen = True, have_backend = True, in_forward = True,
     state_listen = listen, state_backend = backend\<rparr>"

lemma plain_lines_read:
  assumes "texts_ok c listen backend"
  shows "plain_lines (service_config_zero, parse_state_zero) 0
    [assign_line ''version'' ''1'', assign_line ''cc'' (quote (cc c)),
     assign_line ''firewall_backend'' (quote (firewall_backend c)), assign_line ''tun_name'' (quote (tun_name c)),
     assign_line ''tun_host_address'' (quote (tun_host_cidr c)),
     assign_line ''tun_guest_address'' (quote (tun_guest_address c)), forward_header,
     assign_line ''listen'' (quote listen), assign_line ''backend'' (quote backend)] =
    Inr (read_config c, read_state listen backend)"
proof -
  have f: "parse_field (quote (cc c)) 16 = Some (cc c)" "parse_field (quote (firewall_backend c)) 16 = Some (firewall_backend c)"
    "parse_field (quote (tun_name c)) 16 = Some (tun_name c)" "parse_field (quote (tun_host_cidr c)) 64 = Some (tun_host_cidr c)"
    "parse_field (quote (tun_guest_address c)) 64 = Some (tun_guest_address c)"
    "parse_string (quote listen) 128 = Some listen" "parse_string (quote backend) 128 = Some backend"
    "valid_firewall_backend (firewall_backend c)"
    using assms by (simp_all add: texts_ok_def parse_field_quote parse_string_quote VALUE_MAX_def)
  show ?thesis
    by (simp add: line_version line_global line_header line_forward key_texts assign_global_def assign_forward_def f
        parse_state_zero_def service_const_defs read_config_def read_state_def service_config_zero_def)
qed

lemma parse_cidr_text:
  "parse_cidr pton ntop text v n m k = Some (a, cidr, nm) \<Longrightarrow> \<exists>w. cidr = a @ ''/'' @ show_int (uint (w :: u64))"
  by (auto simp: parse_cidr_def Let_def split: option.split_asm prod.split_asm if_split_asm)

lemma service_config_texts:
  assumes laws: "address_laws pton ntop" and ok: "service_config_ok pton ntop c"
  shows "texts_ok c (endpoint_text (ip_version c) (public_address c) (public_port c))
    (endpoint_text 4 ''127.0.0.1'' (backend_port c))"
proof -
  note o = ok [unfolded service_config_ok_def]
  have can: "canonical_address pton ntop (ip_version c) (public_address c)"
    "canonical_address pton ntop 4 ''127.0.0.1''" "canonical_address pton ntop (ip_version c) (tun_guest_address c)"
    using o by simp_all
  have l: "length (endpoint_text (ip_version c) (public_address c) (public_port c)) < VALUE_MAX \<and>
      (\<forall>x\<in>set (endpoint_text (ip_version c) (public_address c) (public_port c)). text_char x)"
    by (rule canonicalD [OF laws can(1)]) (rule endpoint_text_short)
  have b: "length (endpoint_text 4 ''127.0.0.1'' (backend_port c)) < VALUE_MAX \<and>
      (\<forall>x\<in>set (endpoint_text 4 ''127.0.0.1'' (backend_port c)). text_char x)"
    by (rule canonicalD [OF laws can(2)]) (rule endpoint_text_short)
  have g: "length (tun_guest_address c) < 64 \<and> (\<forall>x\<in>set (tun_guest_address c). text_char x)"
    by (rule canonicalD [OF laws can(3)]) (auto simp: service_const_defs char_text(3))
  have f: "length (firewall_backend c) < 16 \<and> (\<forall>x\<in>set (firewall_backend c). text_char x)"
  proof -
    have "\<forall>w\<in>{''auto'', ''nftables'', ''iptables'', ''none''}. length w < 16 \<and> (\<forall>x\<in>set w. text_char x)" by code_simp
    then show ?thesis using o unfolding valid_firewall_backend_def by (elim conjE disjE) simp_all
  qed
  have n: "length (cc c) < 16" "\<forall>x\<in>set (cc c). text_char x" "length (tun_name c) < 16" "\<forall>x\<in>set (tun_name c). text_char x"
    using o char_text(1,2) by (simp_all add: valid_cc_def valid_tun_name_def service_const_defs)
  have h: "length (tun_host_cidr c) < 64" "\<forall>x\<in>set (tun_host_cidr c). text_char x"
  proof -
    show "length (tun_host_cidr c) < 64" using o by (simp add: service_const_defs)
    obtain w where "tun_host_cidr c = tun_host_address c @ ''/'' @ show_int (uint (w :: u64))"
      using o parse_cidr_text by blast
    moreover have "\<forall>x\<in>set (tun_host_address c). text_char x"
      using o by (auto intro: canonicalD [OF laws, of "ip_version c" "tun_host_address c"] char_text(3))
    moreover have "\<forall>x\<in>set (show_int (uint w)). text_char x" using show_int_digits [of "uint w"] char_text(4) by auto
    moreover have "text_char (CHR ''/'')" by code_simp
    ultimately show "\<forall>x\<in>set (tun_host_cidr c). text_char x" by auto
  qed
  show ?thesis using l b g f n h o unfolding texts_ok_def VALUE_MAX_def by simp
qed

lemma service_lines_short:
  assumes "texts_ok c (endpoint_text (ip_version c) (public_address c) (public_port c))
    (endpoint_text 4 ''127.0.0.1'' (backend_port c))"
  shows "\<forall>l\<in>set (service_config_lines c). length l \<le> 300 \<and> CHR 0x00 \<notin> set l"
proof -
  have k: "length (assign_line ''version'' ''1'') \<le> 300 \<and> CHR 0x00 \<notin> set (assign_line ''version'' ''1'')"
    "length forward_header \<le> 300 \<and> CHR 0x00 \<notin> set forward_header"
    by code_simp+
  show ?thesis using assms k unfolding service_config_lines_def texts_ok_def
    by (simp add: assign_line_short VALUE_MAX_def)
qed

lemma finalize_read:
  assumes laws: "address_laws pton ntop" and ok: "service_config_ok pton ntop c"
  shows "finalize_config pton ntop (read_config c) (read_state (endpoint_text (ip_version c) (public_address c) (public_port c))
    (endpoint_text 4 ''127.0.0.1'' (backend_port c))) = Inr c"
proof -
  let ?s = "read_state (endpoint_text (ip_version c) (public_address c) (public_port c))
    (endpoint_text 4 ''127.0.0.1'' (backend_port c))"
  note o = ok [unfolded service_config_ok_def]
  have v: "ip_version c = 4 \<or> ip_version c = 6" using o by simp
  have l: "parse_endpoint pton ntop (state_listen ?s) TCP_SHIFT_SERVICE_ADDRESS_MAX =
      Some (ip_version c, public_address c, public_port c)"
    using parse_endpoint_text [OF laws v] o by (simp add: read_state_def)
  have b: "parse_endpoint pton ntop (state_backend ?s) TCP_SHIFT_SERVICE_ADDRESS_MAX = Some (4, ''127.0.0.1'', backend_port c)"
    using parse_endpoint_text [OF laws, of 4 "''127.0.0.1''" "backend_port c"] o by (simp add: read_state_def)
  have ch: "finalize_checks (read_config c) ?s = None"
    using o by (simp add: finalize_checks_def read_config_def read_state_def service_const_defs)
  have fam: "(if ip_version c = 4 then 4 else 6) = ip_version c" using v by auto
  have g: "canonical_ip pton ntop (tun_guest_address c) (ip_version c) TCP_SHIFT_SERVICE_ADDRESS_MAX = Some (tun_guest_address c)"
    unfolding canonical_ip_def fam using o by (auto simp: canonical_address_def split: option.splits)
  have fw: "have_firewall_backend ?s" "have_tun_host ?s" "have_tun_guest ?s" by (simp_all add: read_state_def)
  let ?c1 = "(read_config c)\<lparr>public_address := public_address c, public_port := public_port c,
    backend_port := backend_port c, ip_version := ip_version c\<rparr>"
  have t: "finalize_tun pton ntop ?c1 ?s (ip_version c) = Inr c"
    using fw o g by (simp add: finalize_tun_def read_config_def service_config_zero_def Let_def)
  show ?thesis unfolding finalize_config_def Let_def using fw ch l b t by simp
qed

text \<open>C18. Printing a valid configuration and loading the file gives the configuration back, field by field, for
  both address families.\<close>

theorem service_config_roundtrip:
  assumes "address_laws pton ntop" and "service_config_ok pton ntop c" and "path \<noteq> []"
  shows "tcp_shift_service_config_load pton ntop path (Some (service_config_lines c, False)) config0 = (0, c, None)"
proof -
  note texts = service_config_texts [OF assms(1,2)]
  note short = service_lines_short [OF texts]
  have "(\<Sum>l\<leftarrow>service_config_lines c. length l) \<le> (\<Sum>l\<leftarrow>service_config_lines c. 300)"
    using short by (intro sum_list_mono) simp
  also have "\<dots> \<le> TCP_SHIFT_SERVICE_CONFIG_MAX_BYTES" by (simp add: service_config_lines_def service_const_defs)
  finally have "config_lines (service_config_zero, parse_state_zero) 0 0 (service_config_lines c) =
      plain_lines (service_config_zero, parse_state_zero) 0 (service_config_lines c)"
    using short by (intro config_lines_plain) simp_all
  also have "\<dots> = Inr (read_config c, read_state (endpoint_text (ip_version c) (public_address c) (public_port c))
      (endpoint_text 4 ''127.0.0.1'' (backend_port c)))"
    unfolding service_config_lines_def by (rule plain_lines_read [OF texts])
  finally show ?thesis using finalize_read [OF assms(1,2)] assms(3) by (simp add: tcp_shift_service_config_load_def)
qed

theorem service_config_roundtrip_witness:
  "tcp_shift_service_config_load demo_pton demo_ntop ''f'' (Some (service_config_lines demo_service_config, False))
     service_config_zero = (0, demo_service_config, None)"
proof -
  have "service_config_ok demo_pton demo_ntop demo_service_config" by code_simp
  from service_config_roundtrip [OF demo_laws this] show ?thesis by simp
qed

end
