(* ===== verification/L3_Tun.thy ===== *)
theory L3_Tun
  imports Lwip_Io
begin

unbundle bit_operations_syntax

text \<open>
  The packet adapter of \<^verbatim>\<open>src/lwip/l3_tun.c\<close> between lwIP and the TUN device: the bounded transmit
  ring, the direct write with its fallback to the ring, the receive path, attach and detach, and the
  seeding of lwIP's IPv6 destination cache. A \<^verbatim>\<open>pbuf\<close> is its chain of payloads and its \<^verbatim>\<open>tot_len\<close>; the
  reference the ring holds is the slot itself. The replies of the kernel are a list (theory
  \<open>Lwip_Io\<close>); lwIP's \<^verbatim>\<open>ip4_input\<close> and \<^verbatim>\<open>ip6_input\<close> are arguments that say whether the packet was taken
  and which packets the stack sends in answer. Reading a \<^verbatim>\<open>NULL\<close> slot would be a crash: it is \<open>None\<close>, and
  shown not to happen.
\<close>

section \<open>State\<close>

record pbuf =
  segments :: "u8 list list"
  tot_len :: u16

record netif =
  netif_name :: string
  netif_mtu :: u16
  netif_output_set :: bool
  netif_is_default :: bool
  netif_is_up :: bool
  netif_link_up :: bool

record tcp_shift_l3_tun =
  l3_netif :: netif
  tun_fd :: int
  attached :: bool
  tx_queue :: "pbuf option list"
  tx_queue_head :: u32
  tx_queue_count :: u32
  tx_queue_bytes :: u32
  tx_queue_peak_bytes :: u32
  rx_packets :: u64
  rx_bytes :: u64
  rx_drops :: u64
  rx_errors :: u64
  tx_packets :: u64
  tx_bytes :: u64
  tx_would_block :: u64
  tx_queue_drops :: u64
  tx_errors :: u64
  tx_log :: "pbuf list"

text \<open>The last field is not in the code: it lists the packets the device has taken, oldest first.\<close>

definition TCP_SHIFT_L3_TUN_MTU :: u16 where "TCP_SHIFT_L3_TUN_MTU = 1500"
definition TCP_SHIFT_L3_TUN_TX_QUEUE_PACKETS :: u32 where "TCP_SHIFT_L3_TUN_TX_QUEUE_PACKETS = 64"
definition TCP_SHIFT_L3_TUN_TX_QUEUE_BYTES :: u32 where "TCP_SHIFT_L3_TUN_TX_QUEUE_BYTES = 96 * 1024"
definition TCP_SHIFT_L3_TUN_MAX_IOV :: nat where "TCP_SHIFT_L3_TUN_MAX_IOV = 64"
definition TCP_SHIFT_L3_TUN_RX_BUFFER :: nat where "TCP_SHIFT_L3_TUN_RX_BUFFER = 2048"
definition TCP_SHIFT_IP_VERSION_SHIFT :: nat where "TCP_SHIFT_IP_VERSION_SHIFT = 4"

lemmas l3_const_defs = TCP_SHIFT_L3_TUN_MTU_def TCP_SHIFT_L3_TUN_TX_QUEUE_PACKETS_def
  TCP_SHIFT_L3_TUN_TX_QUEUE_BYTES_def TCP_SHIFT_L3_TUN_MAX_IOV_def TCP_SHIFT_L3_TUN_RX_BUFFER_def
  TCP_SHIFT_IP_VERSION_SHIFT_def

definition l3_zero :: tcp_shift_l3_tun where
  "l3_zero = \<lparr>l3_netif = \<lparr>netif_name = [], netif_mtu = 0, netif_output_set = False, netif_is_default = False,
      netif_is_up = False, netif_link_up = False\<rparr>, tun_fd = 0, attached = False, tx_queue = replicate 64 None,
    tx_queue_head = 0, tx_queue_count = 0, tx_queue_bytes = 0, tx_queue_peak_bytes = 0, rx_packets = 0, rx_bytes = 0,
    rx_drops = 0, rx_errors = 0, tx_packets = 0, tx_bytes = 0, tx_would_block = 0, tx_queue_drops = 0, tx_errors = 0,
    tx_log = []\<rparr>"

section \<open>The IPv6 destination cache\<close>

text \<open>The entries of lwIP's \<^verbatim>\<open>destination_cache\<close>; addresses are of a type of their own, with the tests for the
  unspecified and the multicast addresses as arguments.\<close>

record 'a nd6_destination_cache_entry =
  destination_addr :: 'a
  next_hop_addr :: 'a
  entry_pmtu :: u16
  entry_age :: u32

text \<open>The first loop: the index of the entry that has the address, or of the first empty one.\<close>

datatype cache_slot = Cached nat | Empty nat | Full

fun cache_find :: "('a \<Rightarrow> bool) \<Rightarrow> 'a \<Rightarrow> nat \<Rightarrow> 'a nd6_destination_cache_entry list \<Rightarrow> cache_slot" where
  "cache_find isany d i [] = Full"
| "cache_find isany d i (e # es) =
    (if destination_addr e = d then Cached i
     else if isany (destination_addr e) then Empty i
     else cache_find isany d (Suc i) es)"

text \<open>The second loop: the oldest entry, the first of them when several are.\<close>

fun cache_oldest :: "nat \<Rightarrow> u32 \<Rightarrow> nat \<Rightarrow> 'a nd6_destination_cache_entry list \<Rightarrow> nat" where
  "cache_oldest selected oldest_age i [] = selected"
| "cache_oldest selected oldest_age i (e # es) =
    (if entry_age e > oldest_age then cache_oldest i (entry_age e) (Suc i) es
     else cache_oldest selected oldest_age (Suc i) es)"

definition tcp_shift_l3_tun_track_ipv6_destination ::
    "('a \<Rightarrow> bool) \<Rightarrow> ('a \<Rightarrow> bool) \<Rightarrow> netif \<Rightarrow> 'a nd6_destination_cache_entry list \<Rightarrow> 'a \<Rightarrow>
     'a nd6_destination_cache_entry list" where
  "tcp_shift_l3_tun_track_ipv6_destination isany ismulticast netif cache d =
    (if isany d \<or> ismulticast d then cache
     else
       case cache_find isany d 0 cache of
         Cached i \<Rightarrow> cache[i := (cache ! i)\<lparr>entry_age := 0\<rparr>]
       | slot \<Rightarrow>
           let selected = (case slot of Empty i \<Rightarrow> i | _ \<Rightarrow> cache_oldest 0 (entry_age (cache ! 0)) 1 (tl cache))
           in cache[selected := \<lparr>destination_addr = d, next_hop_addr = d, entry_pmtu = netif_mtu netif,
                                 entry_age = 0\<rparr>])"

section \<open>Transmission\<close>

text \<open>The result of an operation: its code, the new state and the replies not used.\<close>

type_synonym 'r l3_result = "('r \<times> tcp_shift_l3_tun \<times> sys_reply list) option"

definition packet_iov :: "pbuf \<Rightarrow> u8 list list" where
  "packet_iov p = filter (\<lambda>q. q \<noteq> []) (segments p)"

definition tcp_shift_l3_tun_write_packet ::
    "tcp_shift_l3_tun \<Rightarrow> pbuf \<Rightarrow> sys_reply list \<Rightarrow> int l3_result" where
  "tcp_shift_l3_tun_write_packet l3 p rs =
    (if length (packet_iov p) > TCP_SHIFT_L3_TUN_MAX_IOV then Some (-1, l3\<lparr>tx_errors := tx_errors l3 + 1\<rparr>, rs)
     else if packet_iov p = [] then Some (1, l3\<lparr>tx_log := tx_log l3 @ [p]\<rparr>, rs)
     else
       case sys_retry rs of None \<Rightarrow> None
       | Some (reply, rs) \<Rightarrow>
           (case reply of
              Would_Block \<Rightarrow> Some (0, l3\<lparr>tx_would_block := tx_would_block l3 + 1\<rparr>, rs)
            | Bytes written \<Rightarrow>
                if (word_of_nat written :: u16) \<noteq> tot_len p
                then Some (-1, l3\<lparr>tx_errors := tx_errors l3 + 1\<rparr>, rs)
                else Some (1, l3\<lparr>tx_packets := tx_packets l3 + 1, tx_bytes := tx_bytes l3 + word_of_nat written,
                                 tx_log := tx_log l3 @ [p]\<rparr>, rs)
            | _ \<Rightarrow> Some (-1, l3\<lparr>tx_errors := tx_errors l3 + 1\<rparr>, rs)))"

definition tcp_shift_l3_tun_enqueue :: "tcp_shift_l3_tun \<Rightarrow> pbuf \<Rightarrow> err_t \<times> tcp_shift_l3_tun" where
  "tcp_shift_l3_tun_enqueue l3 p =
    (let packet_bytes = ucast (tot_len p) :: u32
     in if tx_queue_count l3 = TCP_SHIFT_L3_TUN_TX_QUEUE_PACKETS \<or>
           packet_bytes > TCP_SHIFT_L3_TUN_TX_QUEUE_BYTES - tx_queue_bytes l3
        then (ERR_MEM, l3\<lparr>tx_queue_drops := tx_queue_drops l3 + 1\<rparr>)
        else
          let tail = (tx_queue_head l3 + tx_queue_count l3) mod TCP_SHIFT_L3_TUN_TX_QUEUE_PACKETS;
              l3 = l3\<lparr>tx_queue := (tx_queue l3)[unat tail := Some p], tx_queue_count := tx_queue_count l3 + 1,
                      tx_queue_bytes := tx_queue_bytes l3 + packet_bytes\<rparr>
          in (ERR_OK, if tx_queue_bytes l3 > tx_queue_peak_bytes l3
                      then l3\<lparr>tx_queue_peak_bytes := tx_queue_bytes l3\<rparr> else l3))"

definition tcp_shift_l3_tun_pop_tx :: "tcp_shift_l3_tun \<Rightarrow> tcp_shift_l3_tun option" where
  "tcp_shift_l3_tun_pop_tx l3 =
    (case tx_queue l3 ! unat (tx_queue_head l3) of None \<Rightarrow> None
     | Some p \<Rightarrow>
         Some (l3\<lparr>tx_queue := (tx_queue l3)[unat (tx_queue_head l3) := None],
                  tx_queue_head := (tx_queue_head l3 + 1) mod TCP_SHIFT_L3_TUN_TX_QUEUE_PACKETS,
                  tx_queue_count := tx_queue_count l3 - 1,
                  tx_queue_bytes := tx_queue_bytes l3 - ucast (tot_len p)\<rparr>))"

definition tcp_shift_l3_tun_output_packet :: "tcp_shift_l3_tun \<Rightarrow> pbuf \<Rightarrow> sys_reply list \<Rightarrow> err_t l3_result" where
  "tcp_shift_l3_tun_output_packet l3 p rs =
    (if tun_fd l3 < 0 then Some (ERR_IF, l3, rs)
     else if tx_queue_count l3 \<noteq> 0 then (case tcp_shift_l3_tun_enqueue l3 p of (e, l3) \<Rightarrow> Some (e, l3, rs))
     else
       case tcp_shift_l3_tun_write_packet l3 p rs of None \<Rightarrow> None
       | Some (result, l3, rs) \<Rightarrow>
           if result > 0 then Some (ERR_OK, l3, rs)
           else if result = 0 then (case tcp_shift_l3_tun_enqueue l3 p of (e, l3) \<Rightarrow> Some (e, l3, rs))
           else Some (ERR_IF, l3, rs))"

definition tcp_shift_l3_tun_output_ipv4 :: "tcp_shift_l3_tun \<Rightarrow> pbuf \<Rightarrow> sys_reply list \<Rightarrow> err_t l3_result" where
  "tcp_shift_l3_tun_output_ipv4 l3 p rs = tcp_shift_l3_tun_output_packet l3 p rs"

definition tcp_shift_l3_tun_output_ipv6 ::
    "('a \<Rightarrow> bool) \<Rightarrow> ('a \<Rightarrow> bool) \<Rightarrow> tcp_shift_l3_tun \<Rightarrow> 'a nd6_destination_cache_entry list \<Rightarrow> pbuf \<Rightarrow> 'a \<Rightarrow>
     sys_reply list \<Rightarrow> err_t l3_result \<times> 'a nd6_destination_cache_entry list" where
  "tcp_shift_l3_tun_output_ipv6 isany ismulticast l3 cache p d rs =
    (tcp_shift_l3_tun_output_packet l3 p rs,
     tcp_shift_l3_tun_track_ipv6_destination isany ismulticast (l3_netif l3) cache d)"

lemma write_packet_frame:
  "tcp_shift_l3_tun_write_packet l3 p rs = Some (r, l3', rs') \<Longrightarrow>
    tx_queue l3' = tx_queue l3 \<and> tx_queue_head l3' = tx_queue_head l3 \<and> tx_queue_count l3' = tx_queue_count l3 \<and>
    tx_queue_bytes l3' = tx_queue_bytes l3 \<and> tx_queue_peak_bytes l3' = tx_queue_peak_bytes l3 \<and>
    attached l3' = attached l3 \<and> tun_fd l3' = tun_fd l3 \<and> l3_netif l3' = l3_netif l3 \<and>
    tx_log l3' = (if r = 1 then tx_log l3 @ [p] else tx_log l3)"
  by (auto simp: tcp_shift_l3_tun_write_packet_def split: if_splits option.splits prod.splits sys_reply.splits)

text \<open>The loop of \<^verbatim>\<open>tcp_shift_l3_tun_flush_tx\<close>.\<close>

function flush_loop :: "tcp_shift_l3_tun \<Rightarrow> int \<Rightarrow> sys_reply list \<Rightarrow> int l3_result" where
  "flush_loop l3 flushed rs =
    (if tx_queue_count l3 = 0 then Some (flushed, l3, rs)
     else
       case tx_queue l3 ! unat (tx_queue_head l3) of None \<Rightarrow> None
       | Some p \<Rightarrow>
           (case tcp_shift_l3_tun_write_packet l3 p rs of None \<Rightarrow> None
            | Some (result, l3, rs) \<Rightarrow>
                if result < 0 then Some (-1, l3, rs)
                else if result = 0 then Some (flushed, l3, rs)
                else (case tcp_shift_l3_tun_pop_tx l3 of None \<Rightarrow> None
                      | Some l3 \<Rightarrow> flush_loop l3 (flushed + 1) rs)))"
  by pat_completeness auto

lemma pop_tx_count: "tcp_shift_l3_tun_pop_tx l3 = Some l3' \<Longrightarrow> tx_queue_count l3' = tx_queue_count l3 - 1"
  by (auto simp: tcp_shift_l3_tun_pop_tx_def split: option.splits)

lemma unat_dec: "(x :: u32) \<noteq> 0 \<Longrightarrow> unat (x - 1) < unat x"
  by (metis measure_unat)

termination flush_loop
  by (relation "measure (\<lambda>(l3, _, _). unat (tx_queue_count l3))")
    (auto dest!: write_packet_frame pop_tx_count simp: unat_dec)

declare flush_loop.simps [simp del]

definition tcp_shift_l3_tun_flush_tx :: "tcp_shift_l3_tun \<Rightarrow> sys_reply list \<Rightarrow> int l3_result" where
  "tcp_shift_l3_tun_flush_tx l3 rs =
    (if \<not> attached l3 \<or> tun_fd l3 < 0 then Some (-1, l3, rs) else flush_loop l3 0 rs)"

definition tcp_shift_l3_tun_wants_write :: "tcp_shift_l3_tun \<Rightarrow> bool" where
  "tcp_shift_l3_tun_wants_write l3 \<longleftrightarrow> tx_queue_count l3 \<noteq> 0"

section \<open>Reception\<close>

text \<open>What lwIP does with a packet: its error code, and the packets it sends through the adapter meanwhile.\<close>

type_synonym ip_input = "u8 list \<Rightarrow> err_t \<times> pbuf list"

definition tcp_shift_l3_tun_input :: "ip_input \<Rightarrow> ip_input \<Rightarrow> u8 list \<Rightarrow> err_t \<times> pbuf list" where
  "tcp_shift_l3_tun_input ip4_input ip6_input packet =
    (case packet of [] \<Rightarrow> (ERR_ARG, [])
     | first_byte # _ \<Rightarrow>
         let version = drop_bit TCP_SHIFT_IP_VERSION_SHIFT first_byte
         in if version = 4 then ip4_input packet
            else if version = 6 then ip6_input packet
            else (ERR_VAL, []))"

text \<open>The packets the stack sends, in order, with the ones the adapter accepts.\<close>

fun output_all :: "tcp_shift_l3_tun \<Rightarrow> pbuf list \<Rightarrow> sys_reply list \<Rightarrow> pbuf list l3_result" where
  "output_all l3 [] rs = Some ([], l3, rs)"
| "output_all l3 (p # ps) rs =
    (case tcp_shift_l3_tun_output_packet l3 p rs of None \<Rightarrow> None
     | Some (e, l3, rs) \<Rightarrow>
         (case output_all l3 ps rs of None \<Rightarrow> None
          | Some (accepted, l3, rs) \<Rightarrow> Some (if e = ERR_OK then p # accepted else accepted, l3, rs)))"

text \<open>One read: \<open>buffer\<close> is what the kernel fills, \<open>alloc_ok\<close> and \<open>take_ok\<close> the outcomes of \<^verbatim>\<open>pbuf_alloc\<close> and
  \<^verbatim>\<open>pbuf_take\<close>. The result also has the packets accepted for transmission.\<close>

definition tcp_shift_l3_tun_rx_once ::
    "ip_input \<Rightarrow> ip_input \<Rightarrow> bool \<Rightarrow> bool \<Rightarrow> u8 list \<Rightarrow> tcp_shift_l3_tun \<Rightarrow> sys_reply list \<Rightarrow>
     (int \<times> pbuf list) l3_result" where
  "tcp_shift_l3_tun_rx_once ip4_input ip6_input alloc_ok take_ok buffer l3 rs =
    (if \<not> attached l3 \<or> tun_fd l3 < 0 then Some ((-1, []), l3, rs)
     else
       case sys_retry rs of None \<Rightarrow> None
       | Some (reply, rs) \<Rightarrow>
           (case reply of
              Would_Block \<Rightarrow> Some ((0, []), l3, rs)
            | Bytes n \<Rightarrow>
                if n = 0 then Some ((0, []), l3, rs)
                else if n > unat (netif_mtu (l3_netif l3)) \<or> \<not> alloc_ok \<or> \<not> take_ok
                then Some ((1, []), l3\<lparr>rx_drops := rx_drops l3 + 1\<rparr>, rs)
                else
                  let (err, answers) = tcp_shift_l3_tun_input ip4_input ip6_input (take n buffer)
                  in (case output_all l3 answers rs of None \<Rightarrow> None
                      | Some (accepted, l3, rs) \<Rightarrow>
                          if err \<noteq> ERR_OK then Some ((1, accepted), l3\<lparr>rx_drops := rx_drops l3 + 1\<rparr>, rs)
                          else Some ((1, accepted), l3\<lparr>rx_packets := rx_packets l3 + 1,
                                                        rx_bytes := rx_bytes l3 + word_of_nat n\<rparr>, rs))
            | _ \<Rightarrow> Some ((-1, []), l3\<lparr>rx_errors := rx_errors l3 + 1\<rparr>, rs)))"

section \<open>Attach and detach\<close>

definition tcp_shift_l3_tun_netif_init :: "netif \<Rightarrow> netif" where
  "tcp_shift_l3_tun_netif_init netif =
    netif\<lparr>netif_name := ''ts'', netif_mtu := TCP_SHIFT_L3_TUN_MTU, netif_output_set := True\<rparr>"

definition tcp_shift_l3_tun_finish_attach :: "tcp_shift_l3_tun \<Rightarrow> tcp_shift_l3_tun" where
  "tcp_shift_l3_tun_finish_attach l3 =
    l3\<lparr>attached := True, l3_netif := (l3_netif l3)\<lparr>netif_is_default := True, netif_is_up := True,
       netif_link_up := True\<rparr>\<rparr>"

text \<open>\<open>added\<close> is the outcome of \<^verbatim>\<open>netif_add\<close>, which runs the initialisation callback when it succeeds; the
  addresses are lwIP's.\<close>

definition tcp_shift_l3_tun_attach :: "tcp_shift_l3_tun \<Rightarrow> int \<Rightarrow> bool \<Rightarrow> int \<times> tcp_shift_l3_tun" where
  "tcp_shift_l3_tun_attach l3 fd added =
    (if fd < 0 then (-1, l3)
     else
       let l3 = l3_zero\<lparr>tun_fd := fd\<rparr>
       in if \<not> added then (-1, l3\<lparr>tun_fd := -1\<rparr>)
          else (0, tcp_shift_l3_tun_finish_attach (l3\<lparr>l3_netif := tcp_shift_l3_tun_netif_init (l3_netif l3)\<rparr>)))"

definition tcp_shift_l3_tun_attach_ipv4 :: "tcp_shift_l3_tun \<Rightarrow> int \<Rightarrow> bool \<Rightarrow> int \<times> tcp_shift_l3_tun" where
  "tcp_shift_l3_tun_attach_ipv4 l3 fd added = tcp_shift_l3_tun_attach l3 fd added"

definition tcp_shift_l3_tun_attach_ipv6 :: "tcp_shift_l3_tun \<Rightarrow> int \<Rightarrow> bool \<Rightarrow> int \<times> tcp_shift_l3_tun" where
  "tcp_shift_l3_tun_attach_ipv6 l3 fd added = tcp_shift_l3_tun_attach l3 fd added"

function pop_all :: "tcp_shift_l3_tun \<Rightarrow> tcp_shift_l3_tun option" where
  "pop_all l3 =
    (if tx_queue_count l3 = 0 then Some l3
     else case tcp_shift_l3_tun_pop_tx l3 of None \<Rightarrow> None | Some l3 \<Rightarrow> pop_all l3)"
  by pat_completeness auto
termination pop_all
  by (relation "measure (\<lambda>l3. unat (tx_queue_count l3))") (auto dest!: pop_tx_count simp: unat_dec)

declare pop_all.simps [simp del]

definition tcp_shift_l3_tun_detach :: "tcp_shift_l3_tun \<Rightarrow> tcp_shift_l3_tun option" where
  "tcp_shift_l3_tun_detach l3 =
    (case pop_all l3 of None \<Rightarrow> None
     | Some l3 \<Rightarrow>
         let l3 = (if attached l3
                   then l3\<lparr>l3_netif := (l3_netif l3)\<lparr>netif_is_default := False, netif_link_up := False,
                                                     netif_is_up := False\<rparr>\<rparr> else l3)
         in Some (l3\<lparr>attached := False, tun_fd := -1\<rparr>))"

section \<open>The ring is a bounded queue\<close>

text \<open>The contract of a bounded queue: \<open>content\<close> lists the elements, oldest first; \<open>put\<close> either appends or
  refuses and changes nothing, \<open>first\<close> and \<open>drop\<close> read and remove the oldest.\<close>

locale bounded_queue =
  fixes ok :: "'s \<Rightarrow> bool" and content :: "'s \<Rightarrow> 'e list" and room :: "'s \<Rightarrow> 'e \<Rightarrow> bool"
    and put :: "'s \<Rightarrow> 'e \<Rightarrow> bool \<times> 's" and first :: "'s \<Rightarrow> 'e option" and drop_first :: "'s \<Rightarrow> 's option"
  assumes put_ok: "ok s \<Longrightarrow> room s e \<Longrightarrow> put s e = (b, s') \<Longrightarrow> b \<and> ok s' \<and> content s' = content s @ [e]"
    and put_full: "ok s \<Longrightarrow> \<not> room s e \<Longrightarrow> put s e = (b, s') \<Longrightarrow> \<not> b \<and> ok s' \<and> content s' = content s"
    and first_law: "ok s \<Longrightarrow> content s \<noteq> [] \<Longrightarrow> first s = Some (hd (content s))"
    and drop_law: "ok s \<Longrightarrow> content s \<noteq> [] \<Longrightarrow> \<exists>s'. drop_first s = Some s' \<and> ok s' \<and> content s' = tl (content s)"
begin

lemma put_keeps: "ok s \<Longrightarrow> put s e = (b, s') \<Longrightarrow> ok s' \<and> content s' = content s @ (if b then [e] else [])"
proof (cases "room s e")
  case True
  assume "ok s" "put s e = (b, s')"
  from put_ok [OF this(1) True this(2)] show ?thesis by simp
next
  case False
  assume "ok s" "put s e = (b, s')"
  from put_full [OF this(1) False this(2)] show ?thesis by simp
qed

end

definition ring_slot :: "tcp_shift_l3_tun \<Rightarrow> nat \<Rightarrow> nat" where
  "ring_slot l3 i = (unat (tx_queue_head l3) + i) mod 64"

definition queue_of :: "tcp_shift_l3_tun \<Rightarrow> pbuf list" where
  "queue_of l3 = map (\<lambda>i. the (tx_queue l3 ! ring_slot l3 i)) [0..<unat (tx_queue_count l3)]"

definition queue_bytes :: "pbuf list \<Rightarrow> nat" where
  "queue_bytes ps = (\<Sum>p\<leftarrow>ps. unat (tot_len p))"

definition tx_ring_ok :: "tcp_shift_l3_tun \<Rightarrow> bool" where
  "tx_ring_ok l3 \<longleftrightarrow> length (tx_queue l3) = 64 \<and> unat (tx_queue_head l3) < 64 \<and> unat (tx_queue_count l3) \<le> 64 \<and>
    (\<forall>i<64. (i < unat (tx_queue_count l3)) = (tx_queue l3 ! ring_slot l3 i \<noteq> None)) \<and>
    unat (tx_queue_bytes l3) = queue_bytes (queue_of l3) \<and> unat (tx_queue_bytes l3) \<le> 98304 \<and>
    tx_queue_bytes l3 \<le> tx_queue_peak_bytes l3 \<and> unat (tx_queue_peak_bytes l3) \<le> 98304"

lemma unat_u16_u32 [simp]: "unat (ucast (x :: u16) :: u32) = unat x"
  using unat_lt2p [of x] by (simp add: unsigned_ucast_eq take_bit_nat_eq_self)

lemma ring_slot_eq: "unat (tx_queue_head l3) < 64 \<Longrightarrow> i < 64 \<Longrightarrow>
    ring_slot l3 i = (if unat (tx_queue_head l3) + i < 64 then unat (tx_queue_head l3) + i
      else unat (tx_queue_head l3) + i - 64)"
  by (simp add: ring_slot_def mod_if)

lemma ring_slot_inj: "unat (tx_queue_head l3) < 64 \<Longrightarrow> i < 64 \<Longrightarrow> j < 64 \<Longrightarrow> ring_slot l3 i = ring_slot l3 j \<longleftrightarrow> i = j"
  by (auto simp: ring_slot_eq split: if_splits)

lemma ring_slot_less [simp]: "ring_slot l3 i < 64"
  by (simp add: ring_slot_def)

definition tx_room :: "tcp_shift_l3_tun \<Rightarrow> pbuf \<Rightarrow> bool" where
  "tx_room l3 p \<longleftrightarrow> unat (tx_queue_count l3) < 64 \<and> unat (tx_queue_bytes l3) + unat (tot_len p) \<le> 98304"

lemma enqueue_guard:
  assumes "tx_ring_ok l3"
  shows "(tx_queue_count l3 = TCP_SHIFT_L3_TUN_TX_QUEUE_PACKETS \<or>
    (ucast (tot_len p) :: u32) > TCP_SHIFT_L3_TUN_TX_QUEUE_BYTES - tx_queue_bytes l3) \<longleftrightarrow> \<not> tx_room l3 p"
proof -
  have b: "unat (TCP_SHIFT_L3_TUN_TX_QUEUE_BYTES - tx_queue_bytes l3) = 98304 - unat (tx_queue_bytes l3)"
    using assms by (subst unat_diff_exact) (simp_all add: tx_ring_ok_def l3_const_defs word_le_nat_alt)
  have t: "unat (ucast (tot_len p) :: u32) = unat (tot_len p)"
    by simp
  have c: "tx_queue_count l3 = TCP_SHIFT_L3_TUN_TX_QUEUE_PACKETS \<longleftrightarrow> unat (tx_queue_count l3) = 64"
    by (simp add: word_eq_nat l3_const_defs)
  show ?thesis using assms unfolding tx_room_def word_less_nat_alt b t c by (auto simp: tx_ring_ok_def)
qed

lemma queue_of_append:
  assumes "unat (tx_queue_head l3) < 64" and "unat (tx_queue_count l3) < 64" and "length (tx_queue l3) = 64"
    and "tx_queue_head l3' = tx_queue_head l3" and "unat (tx_queue_count l3') = Suc (unat (tx_queue_count l3))"
    and "tx_queue l3' = (tx_queue l3)[ring_slot l3 (unat (tx_queue_count l3)) := Some p]"
  shows "queue_of l3' = queue_of l3 @ [p]"
proof -
  have s: "ring_slot l3' = ring_slot l3" using assms(4) by (simp add: ring_slot_def fun_eq_iff)
  have "tx_queue l3' ! ring_slot l3 i = tx_queue l3 ! ring_slot l3 i" if "i < unat (tx_queue_count l3)" for i
    using that assms(1,2) unfolding assms(6)
    by (subst nth_list_update_neq) (auto simp: ring_slot_inj)
  then show ?thesis unfolding queue_of_def s assms(5) by (simp add: assms(3,6))
qed

lemma enqueue_ok:
  assumes ok: "tx_ring_ok l3" and room: "tx_room l3 p" and r: "tcp_shift_l3_tun_enqueue l3 p = (e, l3')"
  shows "e = ERR_OK \<and> tx_ring_ok l3' \<and> queue_of l3' = queue_of l3 @ [p]"
proof -
  note o = ok [unfolded tx_ring_ok_def] and g = room [unfolded tx_room_def]
  define tail where "tail = (tx_queue_head l3 + tx_queue_count l3) mod TCP_SHIFT_L3_TUN_TX_QUEUE_PACKETS"
  define l1 where "l1 = l3\<lparr>tx_queue := (tx_queue l3)[unat tail := Some p], tx_queue_count := tx_queue_count l3 + 1,
    tx_queue_bytes := tx_queue_bytes l3 + ucast (tot_len p)\<rparr>"
  have l3': "e = ERR_OK" "l3' = (if tx_queue_bytes l1 > tx_queue_peak_bytes l1
      then l1\<lparr>tx_queue_peak_bytes := tx_queue_bytes l1\<rparr> else l1)"
    using r unfolding tcp_shift_l3_tun_enqueue_def Let_def tail_def [symmetric] l1_def [symmetric]
    using enqueue_guard [OF ok, of p] room by auto
  have "unat (tx_queue_head l3 + tx_queue_count l3) = unat (tx_queue_head l3) + unat (tx_queue_count l3)"
    using o by (intro unat_add_exact) simp
  then have tail: "unat tail = ring_slot l3 (unat (tx_queue_count l3))"
    by (simp add: tail_def ring_slot_def unat_mod l3_const_defs)
  have c: "unat (tx_queue_count l3 + 1) = Suc (unat (tx_queue_count l3))"
    using g by (subst unat_add_exact) simp_all
  have t: "unat (ucast (tot_len p) :: u32) = unat (tot_len p)" by simp
  have b: "unat (tx_queue_bytes l1) = unat (tx_queue_bytes l3) + unat (tot_len p)"
    using g unfolding l1_def by (simp add: t unat_add_exact)
  have f: "tx_queue l3' = (tx_queue l3)[ring_slot l3 (unat (tx_queue_count l3)) := Some p]"
    "tx_queue_head l3' = tx_queue_head l3" "unat (tx_queue_count l3') = Suc (unat (tx_queue_count l3))"
    "tx_queue_bytes l3' = tx_queue_bytes l1"
    using l3'(2) tail c by (simp_all add: l1_def)
  have s: "ring_slot l3' = ring_slot l3" using f(2) by (simp add: ring_slot_def fun_eq_iff)
  have q: "queue_of l3' = queue_of l3 @ [p]"
    using o g f by (intro queue_of_append) simp_all
  have slots: "\<forall>i<64. (i < unat (tx_queue_count l3')) = (tx_queue l3' ! ring_slot l3' i \<noteq> None)"
    unfolding s f(1,3) using o g by (auto simp: nth_list_update ring_slot_inj less_Suc_eq)
  have peak: "tx_queue_bytes l3' \<le> tx_queue_peak_bytes l3'" "unat (tx_queue_peak_bytes l3') \<le> 98304"
    using l3'(2) o b g by (auto simp: l1_def not_less)
  show ?thesis unfolding tx_ring_ok_def
    using l3'(1) o g f q b slots peak by (simp add: queue_bytes_def)
qed

lemma enqueue_full:
  assumes "tx_ring_ok l3" and "\<not> tx_room l3 p" and "tcp_shift_l3_tun_enqueue l3 p = (e, l3')"
  shows "e = ERR_MEM \<and> tx_ring_ok l3' \<and> queue_of l3' = queue_of l3 \<and> tx_log l3' = tx_log l3"
proof -
  have "e = ERR_MEM" "l3' = l3\<lparr>tx_queue_drops := tx_queue_drops l3 + 1\<rparr>"
    using assms enqueue_guard [OF assms(1), of p] by (auto simp: tcp_shift_l3_tun_enqueue_def Let_def)
  then show ?thesis using assms(1) by (simp add: tx_ring_ok_def queue_of_def ring_slot_def cong: map_cong)
qed

lemma queue_nonempty: "queue_of l3 \<noteq> [] \<longleftrightarrow> tx_queue_count l3 \<noteq> 0"
  by (simp add: queue_of_def unat_eq_zero)

lemma head_slot:
  assumes "tx_ring_ok l3" and "queue_of l3 \<noteq> []"
  shows "ring_slot l3 0 = unat (tx_queue_head l3)" and "tx_queue l3 ! unat (tx_queue_head l3) = Some (hd (queue_of l3))"
proof -
  have c: "0 < unat (tx_queue_count l3)" using assms(2) by (simp add: queue_nonempty unat_gt_0)
  show h: "ring_slot l3 0 = unat (tx_queue_head l3)" using assms(1) by (simp add: ring_slot_def tx_ring_ok_def)
  have "tx_queue l3 ! ring_slot l3 0 \<noteq> None" using assms(1) c by (simp add: tx_ring_ok_def)
  then show "tx_queue l3 ! unat (tx_queue_head l3) = Some (hd (queue_of l3))"
    using c unfolding queue_of_def h [symmetric] by (auto simp: upt_conv_Cons)
qed

lemma pop_ok:
  assumes ok: "tx_ring_ok l3" and ne: "queue_of l3 \<noteq> []"
  shows "\<exists>l3'. tcp_shift_l3_tun_pop_tx l3 = Some l3' \<and> tx_ring_ok l3' \<and> queue_of l3' = tl (queue_of l3)"
proof -
  note o = ok [unfolded tx_ring_ok_def] and h = head_slot [OF ok ne]
  define p where "p = hd (queue_of l3)"
  define l3' where "l3' = l3\<lparr>tx_queue := (tx_queue l3)[unat (tx_queue_head l3) := None],
    tx_queue_head := (tx_queue_head l3 + 1) mod TCP_SHIFT_L3_TUN_TX_QUEUE_PACKETS,
    tx_queue_count := tx_queue_count l3 - 1, tx_queue_bytes := tx_queue_bytes l3 - ucast (tot_len p)\<rparr>"
  have pop: "tcp_shift_l3_tun_pop_tx l3 = Some l3'" unfolding tcp_shift_l3_tun_pop_tx_def h(2) by (simp add: l3'_def p_def)
  have c1: "1 \<le> unat (tx_queue_count l3)" using ne by (simp add: queue_nonempty Suc_le_eq unat_gt_0)
  have c: "unat (tx_queue_count l3') = unat (tx_queue_count l3) - 1"
    using c1 by (simp add: l3'_def unat_diff_exact)
  have hd': "unat (tx_queue_head l3') = (unat (tx_queue_head l3) + 1) mod 64"
    using o by (simp add: l3'_def unat_mod l3_const_defs unat_add_exact)
  have slot: "ring_slot l3' i = ring_slot l3 (Suc i)" for i
    unfolding ring_slot_def hd' by (simp add: mod_add_left_eq)
  have same: "tx_queue l3' ! ring_slot l3 (Suc i) = tx_queue l3 ! ring_slot l3 (Suc i)" if "Suc i < 64" for i
    using that o unfolding h(1) [symmetric] by (simp add: l3'_def h(1) [symmetric] ring_slot_inj)
  have q: "queue_of l3' = tl (queue_of l3)"
  proof -
    have "queue_of l3' = map (\<lambda>i. the (tx_queue l3 ! ring_slot l3 (Suc i))) [0..<unat (tx_queue_count l3) - 1]"
      unfolding queue_of_def c slot using o same by (intro map_cong) auto
    also have "\<dots> = map (\<lambda>i. the (tx_queue l3 ! ring_slot l3 i)) [1..<unat (tx_queue_count l3)]"
      using c1 by (intro nth_equalityI) auto
    finally show ?thesis using c1 by (simp add: queue_of_def map_tl [symmetric] upt_conv_Cons)
  qed
  have slots: "\<forall>i<64. (i < unat (tx_queue_count l3')) = (tx_queue l3' ! ring_slot l3' i \<noteq> None)"
  proof (intro allI impI)
    fix i :: nat
    assume i: "i < 64"
    show "(i < unat (tx_queue_count l3')) = (tx_queue l3' ! ring_slot l3' i \<noteq> None)"
    proof (cases "Suc i < 64")
      case True
      have "(Suc i < unat (tx_queue_count l3)) = (tx_queue l3 ! ring_slot l3 (Suc i) \<noteq> None)"
        using o True by blast
      then show ?thesis using same [OF True] c c1 unfolding slot by (simp add: less_diff_conv)
    next
      case False
      then have "Suc i = 64" using i by simp
      then have "ring_slot l3 (Suc i) = unat (tx_queue_head l3)" using o by (simp add: ring_slot_def)
      moreover have "\<not> i < unat (tx_queue_count l3')" using o c False by linarith
      ultimately show ?thesis using o unfolding slot by (simp add: l3'_def)
    qed
  qed
  have qb: "queue_bytes (queue_of l3) = unat (tot_len p) + queue_bytes (tl (queue_of l3))"
    using ne by (cases "queue_of l3") (simp_all add: queue_bytes_def p_def)
  have b: "unat (tx_queue_bytes l3') = queue_bytes (tl (queue_of l3))"
    using o qb by (simp add: l3'_def unat_diff_exact)
  have "tx_ring_ok l3'" unfolding tx_ring_ok_def q b using o slots c hd' qb b
    by (auto simp: l3'_def word_le_nat_alt)
  then show ?thesis using pop q by blast
qed

interpretation tx_ring: bounded_queue tx_ring_ok queue_of tx_room
  "\<lambda>l3 p. (fst (tcp_shift_l3_tun_enqueue l3 p) = ERR_OK, snd (tcp_shift_l3_tun_enqueue l3 p))"
  "\<lambda>l3. tx_queue l3 ! unat (tx_queue_head l3)" tcp_shift_l3_tun_pop_tx
proof unfold_locales
  fix l3 p b l3'
  assume "tx_ring_ok l3" "tx_room l3 p"
    "(fst (tcp_shift_l3_tun_enqueue l3 p) = ERR_OK, snd (tcp_shift_l3_tun_enqueue l3 p)) = (b, l3')"
  then show "b \<and> tx_ring_ok l3' \<and> queue_of l3' = queue_of l3 @ [p]"
    using enqueue_ok [OF _ _ prod.collapse [symmetric], of l3 p] by auto
next
  fix l3 p b l3'
  assume "tx_ring_ok l3" "\<not> tx_room l3 p"
    "(fst (tcp_shift_l3_tun_enqueue l3 p) = ERR_OK, snd (tcp_shift_l3_tun_enqueue l3 p)) = (b, l3')"
  then show "\<not> b \<and> tx_ring_ok l3' \<and> queue_of l3' = queue_of l3"
    using enqueue_full [OF _ _ prod.collapse [symmetric], of l3 p] by auto
qed (use head_slot pop_ok in auto)

section \<open>Runs of the adapter\<close>

text \<open>A run with the packets whose output was answered with \<^verbatim>\<open>ERR_OK\<close>, oldest first.\<close>

inductive l3_run :: "tcp_shift_l3_tun \<Rightarrow> pbuf list \<Rightarrow> bool" where
  attach: "tcp_shift_l3_tun_attach l3 fd added = (0, l3') \<Longrightarrow> l3_run l3' []"
| send: "l3_run l3 acc \<Longrightarrow> tcp_shift_l3_tun_output_packet l3 p rs = Some (e, l3', rs') \<Longrightarrow>
    l3_run l3' (acc @ (if e = ERR_OK then [p] else []))"
| receive: "l3_run l3 acc \<Longrightarrow>
    tcp_shift_l3_tun_rx_once ip4 ip6 alloc_ok take_ok buffer l3 rs = Some ((r, sent), l3', rs') \<Longrightarrow> l3_run l3' (acc @ sent)"
| flush: "l3_run l3 acc \<Longrightarrow> tcp_shift_l3_tun_flush_tx l3 rs = Some (n, l3', rs') \<Longrightarrow> l3_run l3' acc"

definition l3_inv :: "tcp_shift_l3_tun \<Rightarrow> pbuf list \<Rightarrow> bool" where
  "l3_inv l3 acc \<longleftrightarrow> tx_ring_ok l3 \<and> tx_log l3 @ queue_of l3 = acc"

lemma ring_frame:
  assumes "tx_queue l3' = tx_queue l3" and "tx_queue_head l3' = tx_queue_head l3"
    and "tx_queue_count l3' = tx_queue_count l3" and "tx_queue_bytes l3' = tx_queue_bytes l3"
    and "tx_queue_peak_bytes l3' = tx_queue_peak_bytes l3"
  shows "tx_ring_ok l3' = tx_ring_ok l3" and "queue_of l3' = queue_of l3"
proof -
  have s: "ring_slot l3' = ring_slot l3" using assms(2) by (simp add: ring_slot_def fun_eq_iff)
  show q: "queue_of l3' = queue_of l3" unfolding queue_of_def s assms ..
  show "tx_ring_ok l3' = tx_ring_ok l3" unfolding tx_ring_ok_def q s assms ..
qed

lemma write_packet_inv:
  assumes "l3_inv l3 acc" and "tcp_shift_l3_tun_write_packet l3 p rs = Some (r, l3', rs')"
  shows "tx_ring_ok l3'" and "queue_of l3' = queue_of l3" and "tx_log l3' = (if r = 1 then tx_log l3 @ [p] else tx_log l3)"
    and "tx_queue_count l3' = tx_queue_count l3"
  using write_packet_frame [OF assms(2)] assms(1) ring_frame [of l3' l3] by (simp_all add: l3_inv_def)

lemma write_packet_result:
  "tcp_shift_l3_tun_write_packet l3 p rs = Some (r, l3', rs') \<Longrightarrow> r = -1 \<or> r = 0 \<or> r = 1"
  by (auto simp: tcp_shift_l3_tun_write_packet_def split: if_splits option.splits prod.splits sys_reply.splits)

lemma enqueue_log: "tx_log (snd (tcp_shift_l3_tun_enqueue l3 p)) = tx_log l3"
  by (simp add: tcp_shift_l3_tun_enqueue_def Let_def)

lemma enqueue_inv:
  assumes "l3_inv l3 acc" and "tcp_shift_l3_tun_enqueue l3 p = (e, l3')"
  shows "l3_inv l3' (acc @ (if e = ERR_OK then [p] else []))"
proof -
  have "tx_ring_ok l3' \<and> queue_of l3' = queue_of l3 @ (if e = ERR_OK then [p] else [])"
    using tx_ring.put_keeps [of l3 p "e = ERR_OK" l3'] assms by (simp add: l3_inv_def)
  moreover have "tx_log l3' = tx_log l3" using enqueue_log [of l3 p] assms(2) by simp
  ultimately show ?thesis using assms(1) by (auto simp: l3_inv_def)
qed

lemma output_packet_inv:
  assumes inv: "l3_inv l3 acc" and r: "tcp_shift_l3_tun_output_packet l3 p rs = Some (e, l3', rs')"
  shows "l3_inv l3' (acc @ (if e = ERR_OK then [p] else []))"
proof -
  consider "e = ERR_IF" "l3' = l3" | "tcp_shift_l3_tun_enqueue l3 p = (e, l3')"
    | r1 l1 where "tx_queue_count l3 = 0" "tcp_shift_l3_tun_write_packet l3 p rs = Some (r1, l1, rs')"
        "if r1 > 0 then e = ERR_OK \<and> l3' = l1
         else if r1 = 0 then tcp_shift_l3_tun_enqueue l1 p = (e, l3') else e = ERR_IF \<and> l3' = l1"
    using r by (auto simp: tcp_shift_l3_tun_output_packet_def split: if_splits option.splits prod.splits)
  then show ?thesis
  proof cases
    case 3
    note w = write_packet_inv [OF inv 3(2)] and res = write_packet_result [OF 3(2)]
    have "queue_of l3 = []" using 3(1) queue_nonempty by blast
    then show ?thesis using w res 3(3) inv enqueue_inv [of l1 acc p e l3']
      by (auto simp: l3_inv_def split: if_splits)
  qed (use inv enqueue_inv in auto)
qed

lemma output_all_inv:
  "l3_inv l3 acc \<Longrightarrow> output_all l3 ps rs = Some (sent, l3', rs') \<Longrightarrow> l3_inv l3' (acc @ sent)"
proof (induction ps arbitrary: l3 acc rs sent)
  case (Cons p ps)
  obtain e l1 rs1 sent1 where 1: "tcp_shift_l3_tun_output_packet l3 p rs = Some (e, l1, rs1)"
    and 2: "output_all l1 ps rs1 = Some (sent1, l3', rs')" and s: "sent = (if e = ERR_OK then p # sent1 else sent1)"
    using Cons.prems(2) by (auto split: option.splits prod.splits)
  show ?case using Cons.IH [OF output_packet_inv [OF Cons.prems(1) 1] 2] s by (auto split: if_splits)
qed simp

lemma l3_inv_counters:
  "l3_inv l3 acc \<Longrightarrow> l3_inv (l3\<lparr>rx_drops := a\<rparr>) acc" "l3_inv l3 acc \<Longrightarrow> l3_inv (l3\<lparr>rx_errors := b\<rparr>) acc"
  "l3_inv l3 acc \<Longrightarrow> l3_inv (l3\<lparr>rx_packets := c, rx_bytes := d\<rparr>) acc"
  using ring_frame [of "l3\<lparr>rx_drops := a\<rparr>" l3] ring_frame [of "l3\<lparr>rx_errors := b\<rparr>" l3]
    ring_frame [of "l3\<lparr>rx_packets := c, rx_bytes := d\<rparr>" l3]
  by (simp_all add: l3_inv_def)

lemma rx_once_inv:
  assumes "l3_inv l3 acc"
    and "tcp_shift_l3_tun_rx_once ip4 ip6 alloc_ok take_ok buffer l3 rs = Some ((r, sent), l3', rs')"
  shows "l3_inv l3' (acc @ sent)"
proof -
  have "sent = [] \<and> (l3' = l3 \<or> (\<exists>a. l3' = l3\<lparr>rx_drops := a\<rparr>) \<or> (\<exists>a. l3' = l3\<lparr>rx_errors := a\<rparr>)) \<or>
    (\<exists>ps rs1 l1. output_all l3 ps rs1 = Some (sent, l1, rs') \<and>
       ((\<exists>a. l3' = l1\<lparr>rx_drops := a\<rparr>) \<or> (\<exists>a b. l3' = l1\<lparr>rx_packets := a, rx_bytes := b\<rparr>)))"
    using assms(2) unfolding tcp_shift_l3_tun_rx_once_def Let_def
    by (auto split: if_splits option.splits prod.splits sys_reply.splits) blast+
  then show ?thesis using assms(1) output_all_inv [OF assms(1)] l3_inv_counters by auto
qed

lemma flush_loop_inv:
  "l3_inv l3 acc \<Longrightarrow> flush_loop l3 k rs = Some (n, l3', rs') \<Longrightarrow> l3_inv l3' acc"
proof (induction l3 k rs rule: flush_loop.induct)
  case (1 l3 k rs)
  show ?case
  proof (cases "tx_queue_count l3 = 0")
    case True
    then show ?thesis using "1.prems" by (simp add: flush_loop.simps [of l3])
  next
    case False
    define p where "p = hd (queue_of l3)"
    have ne: "queue_of l3 \<noteq> []" using False queue_nonempty by blast
    have ok: "tx_ring_ok l3" using "1.prems"(1) by (simp add: l3_inv_def)
    have hd: "tx_queue l3 ! unat (tx_queue_head l3) = Some p" using head_slot(2) [OF ok ne] by (simp add: p_def)
    obtain r1 l1 rs1 where w: "tcp_shift_l3_tun_write_packet l3 p rs = Some (r1, l1, rs1)"
      using "1.prems"(2) False hd by (auto simp: flush_loop.simps [of l3] split: option.splits)
    note wi = write_packet_inv [OF "1.prems"(1) w] and res = write_packet_result [OF w]
    obtain l2 where pop: "tcp_shift_l3_tun_pop_tx l1 = Some l2" "tx_ring_ok l2" "queue_of l2 = tl (queue_of l1)"
      using pop_ok [OF wi(1)] ne wi(2) by auto
    have log2: "tx_log l2 = tx_log l1" using pop(1) by (auto simp: tcp_shift_l3_tun_pop_tx_def split: option.splits)
    consider "r1 \<noteq> 1" "l3' = l1" | "r1 = 1" "flush_loop l2 (k + 1) rs1 = Some (n, l3', rs')"
      using "1.prems"(2) False hd w pop(1) res by (auto simp: flush_loop.simps [of l3])
    then show ?thesis
    proof cases
      case 1
      then show ?thesis using wi "1.prems"(1) by (simp add: l3_inv_def)
    next
      case 2
      have "l3_inv l2 acc" using wi(2,3) pop(2,3) log2 2(1) ne "1.prems"(1)
        by (cases "queue_of l3") (auto simp: l3_inv_def p_def)
      then show ?thesis using "1.IH" [OF False hd w _ _ _ _ pop(1)] 2 by simp
    qed
  qed
qed

lemma l3_run_inv: "l3_run l3 acc \<Longrightarrow> l3_inv l3 acc"
proof (induction rule: l3_run.induct)
  case (attach l3 fd added l3')
  then have "tx_queue l3' = replicate 64 None" "tx_queue_head l3' = 0" "tx_queue_count l3' = 0"
    "tx_queue_bytes l3' = 0" "tx_queue_peak_bytes l3' = 0" "tx_log l3' = []"
    by (auto simp: tcp_shift_l3_tun_attach_def tcp_shift_l3_tun_finish_attach_def l3_zero_def Let_def split: if_splits)
  moreover from this have "queue_of l3' = []" by (simp add: queue_of_def)
  ultimately show ?case by (simp add: l3_inv_def tx_ring_ok_def queue_bytes_def)
next
  case (send l3 acc p rs e l3' rs')
  then show ?case using output_packet_inv by blast
next
  case (receive l3 acc ip4 ip6 alloc_ok take_ok buffer rs r sent l3' rs')
  then show ?case using rx_once_inv by blast
next
  case (flush l3 acc rs n l3' rs')
  then show ?case using flush_loop_inv by (auto simp: tcp_shift_l3_tun_flush_tx_def split: if_splits)
qed

section \<open>Properties\<close>

text \<open>A run for the witnesses: the device blocks on the first packet, so that the second waits behind it.\<close>

definition demo_packet :: "u8 \<Rightarrow> pbuf" where
  "demo_packet b = \<lparr>segments = [[0x45, b]], tot_len = 2\<rparr>"

definition demo_l3 :: tcp_shift_l3_tun where
  "demo_l3 = snd (tcp_shift_l3_tun_attach l3_zero 5 True)"

definition demo_l3_queued :: tcp_shift_l3_tun where
  "demo_l3_queued = demo_l3\<lparr>tx_queue := (tx_queue demo_l3)[0 := Some (demo_packet 1), 1 := Some (demo_packet 2)],
    tx_queue_count := 2, tx_queue_bytes := 4, tx_queue_peak_bytes := 4, tx_would_block := 1\<rparr>"

lemma demo_l3_run: "l3_run demo_l3_queued [demo_packet 1, demo_packet 2]"
proof -
  have "tcp_shift_l3_tun_attach l3_zero 5 True = (0, demo_l3)" by code_simp
  then have r0: "l3_run demo_l3 []" by (rule l3_run.attach)
  obtain l1 where l1: "tcp_shift_l3_tun_output_packet demo_l3 (demo_packet 1) [Would_Block] = Some (ERR_OK, l1, [])"
    "tcp_shift_l3_tun_output_packet l1 (demo_packet 2) [] = Some (ERR_OK, demo_l3_queued, [])"
  proof
    let ?l1 = "fst (snd (the (tcp_shift_l3_tun_output_packet demo_l3 (demo_packet 1) [Would_Block])))"
    show "tcp_shift_l3_tun_output_packet demo_l3 (demo_packet 1) [Would_Block] = Some (ERR_OK, ?l1, [])" by code_simp
    show "tcp_shift_l3_tun_output_packet ?l1 (demo_packet 2) [] = Some (ERR_OK, demo_l3_queued, [])" by code_simp
  qed
  show ?thesis using l3_run.send [OF l3_run.send [OF r0 l1(1)] l1(2)] by simp
qed

text \<open>C8. The transmit path is a bounded first-in first-out queue: along every run of outputs, receptions (with the
  stack's answers) and flushes, the packets the device has taken followed by the packets waiting in the ring are
  exactly the packets answered with \<^verbatim>\<open>ERR_OK\<close>, in order, and the ring never holds more than 64 packets or 96 KiB.\<close>

theorem l3_tun_output_in_order:
  assumes "l3_run l3 acc"
  shows "tx_log l3 @ queue_of l3 = acc \<and> length (queue_of l3) \<le> 64 \<and> queue_bytes (queue_of l3) \<le> 98304 \<and>
    unat (tx_queue_bytes l3) = queue_bytes (queue_of l3)"
  using l3_run_inv [OF assms] by (simp add: l3_inv_def tx_ring_ok_def queue_of_def [of l3])

theorem l3_tun_output_in_order_witness:
  "tx_log demo_l3_queued @ queue_of demo_l3_queued = [demo_packet 1, demo_packet 2] \<and> length (queue_of demo_l3_queued) \<le> 64"
  using l3_tun_output_in_order [OF demo_l3_run] by simp

text \<open>A packet the device can take in one write.\<close>

definition packet_sendable :: "pbuf \<Rightarrow> bool" where
  "packet_sendable p \<longleftrightarrow> 0 < length (packet_iov p) \<and> length (packet_iov p) \<le> 64"

lemma write_packet_taken:
  "packet_sendable p \<Longrightarrow> \<exists>l3'. tcp_shift_l3_tun_write_packet l3 p (Bytes (unat (tot_len p)) # rs) = Some (1, l3', rs)"
  by (auto simp: tcp_shift_l3_tun_write_packet_def packet_sendable_def l3_const_defs)

lemma flush_loop_drains:
  "tx_ring_ok l3 \<Longrightarrow> queue_of l3 = ps \<Longrightarrow> \<forall>p\<in>set ps. packet_sendable p \<Longrightarrow>
    \<exists>l3'. flush_loop l3 k (map (\<lambda>p. Bytes (unat (tot_len p))) ps @ rs) = Some (k + int (length ps), l3', rs) \<and>
      queue_of l3' = [] \<and> tx_log l3' = tx_log l3 @ ps"
proof (induction ps arbitrary: l3 k)
  case Nil
  then show ?case using queue_nonempty [of l3] by (simp add: flush_loop.simps [of l3])
next
  case (Cons p ps)
  have ne: "queue_of l3 \<noteq> []" using Cons.prems(2) by simp
  have c: "tx_queue_count l3 \<noteq> 0" using ne queue_nonempty by blast
  have hd: "tx_queue l3 ! unat (tx_queue_head l3) = Some p"
    using head_slot(2) [OF Cons.prems(1) ne] Cons.prems(2) by simp
  obtain l1 where w: "tcp_shift_l3_tun_write_packet l3 p
      (Bytes (unat (tot_len p)) # map (\<lambda>p. Bytes (unat (tot_len p))) ps @ rs) =
      Some (1, l1, map (\<lambda>p. Bytes (unat (tot_len p))) ps @ rs)"
    using write_packet_taken Cons.prems(3) by (metis list.set_intros(1))
  have inv: "l3_inv l3 (tx_log l3 @ queue_of l3)" using Cons.prems(1) by (simp add: l3_inv_def)
  note wi = write_packet_inv [OF inv w]
  obtain l2 where pop: "tcp_shift_l3_tun_pop_tx l1 = Some l2" "tx_ring_ok l2" "queue_of l2 = tl (queue_of l1)"
    using pop_ok [OF wi(1)] ne wi(2) by auto
  have log2: "tx_log l2 = tx_log l1" using pop(1) by (auto simp: tcp_shift_l3_tun_pop_tx_def split: option.splits)
  obtain l3' where l: "flush_loop l2 (k + 1) (map (\<lambda>p. Bytes (unat (tot_len p))) ps @ rs) =
      Some (k + 1 + int (length ps), l3', rs)" "queue_of l3' = []" "tx_log l3' = tx_log l2 @ ps"
    using Cons.IH [OF pop(2), of "k + 1"] pop(3) wi(2) Cons.prems(2,3) by auto
  show ?case using l c hd w pop(1) log2 wi(3) by (simp add: flush_loop.simps [of l3])
qed

text \<open>C31. A flush makes progress: once the device is writable and takes whole packets, one flush returns, empties
  the ring and leaves every accepted packet with the device, so that writability is no longer asked for.\<close>

theorem l3_tun_flush_drains:
  assumes "l3_run l3 acc" and "attached l3" and "0 \<le> tun_fd l3" and "\<forall>p\<in>set (queue_of l3). packet_sendable p"
  shows "\<exists>l3'. tcp_shift_l3_tun_flush_tx l3 (map (\<lambda>p. Bytes (unat (tot_len p))) (queue_of l3)) =
      Some (int (length (queue_of l3)), l3', []) \<and> tx_log l3' = acc \<and> \<not> tcp_shift_l3_tun_wants_write l3'"
proof -
  have inv: "tx_ring_ok l3" "tx_log l3 @ queue_of l3 = acc" using l3_run_inv [OF assms(1)] by (simp_all add: l3_inv_def)
  obtain l3' where "flush_loop l3 0 (map (\<lambda>p. Bytes (unat (tot_len p))) (queue_of l3) @ []) =
      Some (0 + int (length (queue_of l3)), l3', [])" "queue_of l3' = []" "tx_log l3' = tx_log l3 @ queue_of l3"
    using flush_loop_drains [OF inv(1) refl assms(4)] by blast
  then show ?thesis using assms(2,3) inv(2) queue_nonempty [of l3']
    by (auto simp: tcp_shift_l3_tun_flush_tx_def tcp_shift_l3_tun_wants_write_def)
qed

theorem l3_tun_flush_drains_witness:
  "\<exists>l3'. tcp_shift_l3_tun_flush_tx demo_l3_queued [Bytes 2, Bytes 2] = Some (2, l3', []) \<and>
    tx_log l3' = [demo_packet 1, demo_packet 2]"
proof -
  have q: "queue_of demo_l3_queued = [demo_packet 1, demo_packet 2]" by code_simp
  have "attached demo_l3_queued" "0 \<le> tun_fd demo_l3_queued" "\<forall>p\<in>set (queue_of demo_l3_queued). packet_sendable p"
    by code_simp+
  from l3_tun_flush_drains [OF demo_l3_run this] show ?thesis
    unfolding q by (auto simp: demo_packet_def)
qed

lemma cache_find_cases:
  "cache_find isany d k es = slot \<Longrightarrow> (case slot of
      Cached i \<Rightarrow> k \<le> i \<and> i - k < length es \<and> destination_addr (es ! (i - k)) = d
    | Empty i \<Rightarrow> k \<le> i \<and> i - k < length es \<and> isany (destination_addr (es ! (i - k))) \<and>
        (\<forall>j<i - k. destination_addr (es ! j) \<noteq> d \<and> \<not> isany (destination_addr (es ! j)))
    | Full \<Rightarrow> \<forall>e\<in>set es. destination_addr e \<noteq> d \<and> \<not> isany (destination_addr e))"
proof (induction es arbitrary: k)
  case (Cons e es)
  show ?case
  proof (cases "destination_addr e = d \<or> isany (destination_addr e)")
    case False
    then have "cache_find isany d (Suc k) es = slot" using Cons.prems by simp
    note IH = Cons.IH [OF this]
    show ?thesis
    proof (cases slot)
      case (Cached i)
      then have "i - k = Suc (i - Suc k)" using IH by (simp add: Suc_diff_Suc)
      then show ?thesis using IH Cached by auto
    next
      case (Empty i)
      then have "i - k = Suc (i - Suc k)" using IH by (simp add: Suc_diff_Suc)
      then show ?thesis using IH Empty False by (auto simp: nth_Cons split: nat.split)
    next
      case Full
      then show ?thesis using IH False by auto
    qed
  qed (use Cons.prems in \<open>auto split: if_splits\<close>)
qed auto

lemma cache_oldest_max:
  "sel < k \<Longrightarrow> cache_oldest sel age k es = i \<Longrightarrow>
    (i = sel \<and> (\<forall>e\<in>set es. entry_age e \<le> age)) \<or>
    (\<exists>j<length es. i = k + j \<and> age < entry_age (es ! j) \<and> (\<forall>e\<in>set es. entry_age e \<le> entry_age (es ! j)))"
proof (induction es arbitrary: sel age k)
  case (Cons e es)
  show ?case
  proof (cases "entry_age e > age")
    case True
    then have "cache_oldest k (entry_age e) (Suc k) es = i" using Cons.prems by simp
    from Cons.IH [OF _ this] consider "i = k" "\<forall>x\<in>set es. entry_age x \<le> entry_age e"
      | j where "j < length es" "i = Suc k + j" "entry_age e < entry_age (es ! j)"
          "\<forall>x\<in>set es. entry_age x \<le> entry_age (es ! j)"
      by blast
    then show ?thesis
    proof cases
      case 1
      then show ?thesis using True by (intro disjI2 exI [of _ 0]) simp
    next
      case 2
      then show ?thesis using True by (intro disjI2 exI [of _ "Suc j"]) (auto intro: less_imp_le less_trans)
    qed
  next
    case False
    then have "cache_oldest sel age (Suc k) es = i" using Cons.prems by simp
    from Cons.IH [OF _ this] Cons.prems(1) consider "i = sel" "\<forall>x\<in>set es. entry_age x \<le> age"
      | j where "j < length es" "i = Suc k + j" "age < entry_age (es ! j)"
          "\<forall>x\<in>set es. entry_age x \<le> entry_age (es ! j)"
      by (meson less_SucI)
    then show ?thesis
    proof cases
      case 1
      then show ?thesis using False by (simp add: not_less)
    next
      case 2
      then show ?thesis using False by (intro disjI2 exI [of _ "Suc j"]) (auto simp: not_less intro: order_trans less_imp_le)
    qed
  qed
qed simp

text \<open>Tracking an IPv6 destination keeps what path-MTU discovery has learnt: exactly one cache entry changes, it
  is for the destination and fresh. If the entry already was for the destination its path MTU is kept; otherwise it
  gets the interface's MTU and was the first empty entry, or, in a full cache that does not know the destination, an
  oldest one.\<close>

theorem l3_tun_destination_cache_policy:
  assumes "\<not> isany d" and "\<not> ismulticast d" and "cache \<noteq> []"
  shows "\<exists>i e. i < length cache \<and> destination_addr e = d \<and> entry_age e = 0 \<and>
    tcp_shift_l3_tun_track_ipv6_destination isany ismulticast netif cache d = cache[i := e] \<and>
    (destination_addr (cache ! i) = d \<and> entry_pmtu e = entry_pmtu (cache ! i) \<or>
     entry_pmtu e = netif_mtu netif \<and> isany (destination_addr (cache ! i)) \<and>
       (\<forall>j<i. destination_addr (cache ! j) \<noteq> d \<and> \<not> isany (destination_addr (cache ! j))) \<or>
     entry_pmtu e = netif_mtu netif \<and> (\<forall>x\<in>set cache. destination_addr x \<noteq> d \<and> \<not> isany (destination_addr x)) \<and>
       (\<forall>x\<in>set cache. entry_age x \<le> entry_age (cache ! i)))"
proof -
  let ?new = "\<lparr>destination_addr = d, next_hop_addr = d, entry_pmtu = netif_mtu netif, entry_age = 0\<rparr>"
  note find = cache_find_cases [of isany d 0 cache, OF refl]
  show ?thesis
  proof (cases "cache_find isany d 0 cache")
    case (Cached i)
    then show ?thesis using assms(1,2) find
      by (intro exI [of _ i] exI [of _ "(cache ! i)\<lparr>entry_age := 0\<rparr>"])
        (simp add: tcp_shift_l3_tun_track_ipv6_destination_def)
  next
    case (Empty i)
    then show ?thesis using assms(1,2) find
      by (intro exI [of _ i] exI [of _ ?new]) (simp add: tcp_shift_l3_tun_track_ipv6_destination_def)
  next
    case Full
    define i where "i = cache_oldest 0 (entry_age (cache ! 0)) 1 (tl cache)"
    have old: "i < length cache \<and> (\<forall>x\<in>set cache. entry_age x \<le> entry_age (cache ! i))"
      using cache_oldest_max [of 0 1 "entry_age (cache ! 0)" "tl cache" i] assms(3)
      by (cases cache) (auto simp: i_def intro: less_imp_le)
    then show ?thesis using assms(1,2) find Full
      by (intro exI [of _ i] exI [of _ ?new]) (simp add: tcp_shift_l3_tun_track_ipv6_destination_def i_def)
  qed
qed

definition demo_cache :: "nat nd6_destination_cache_entry list" where
  "demo_cache = [\<lparr>destination_addr = 7, next_hop_addr = 7, entry_pmtu = 1280, entry_age = 3\<rparr>]"

theorem l3_tun_destination_cache_policy_witness:
  "\<exists>i e. i < length demo_cache \<and> destination_addr e = 7 \<and> entry_age e = 0 \<and>
     tcp_shift_l3_tun_track_ipv6_destination (\<lambda>a. a = 0) (\<lambda>a. a = 255) (l3_netif demo_l3) demo_cache 7 = demo_cache[i := e]"
proof -
  have "demo_cache \<noteq> []" by (simp add: demo_cache_def)
  then show ?thesis
    using l3_tun_destination_cache_policy [of "\<lambda>a. a = 0" 7 "\<lambda>a. a = 255" demo_cache "l3_netif demo_l3"] by auto
qed

end

