(* ===== verification/Lwip_Loop.thy ===== *)
theory Lwip_Loop
  imports Pacer L3_Tun
begin

text \<open>
  The event loop of \<^verbatim>\<open>src/runtime/lwip_loop.c\<close> around the scheduler (theory \<open>Pacer\<close>) and the TUN
  adapter (theory \<open>L3_Tun\<close>): the watches, initialisation with its clean-up, the TUN handler, the two timers and
  one iteration of the loop. The kernel's interest list is part of the state, so that what the loop believes and what
  the kernel does can be compared; \<open>ctl_ok\<close> says whether an \<^verbatim>\<open>epoll_ctl\<close> succeeds. The callback pointer of a watch
  is a name; what a call through it does is an argument of the iteration, as are lwIP's timers.
\<close>

section \<open>State\<close>

datatype loop_callback = Tun_Ready | Pacer_Ready | Recovery_Ready | Client_Ready nat

record tcp_shift_lwip_loop_watch =
  watch_fd :: int
  watch_events :: u32
  watch_callback :: "loop_callback option"
  watch_registered :: bool

record event_loop = tcp_shift_lwip_loop +
  epoll_fd :: int
  epoll_interest :: "int \<rightharpoonup> u32"
  loop_l3 :: "tcp_shift_l3_tun option"
  tun_watch :: tcp_shift_lwip_loop_watch
  tun_events :: u32
  pacer_watch :: tcp_shift_lwip_loop_watch
  pacer_release_set :: bool
  recovery_timer :: tcp_shift_pacer
  recovery_watch :: tcp_shift_lwip_loop_watch
  recovery_release_set :: bool
  wait_calls :: u64
  ready_wakeups :: u64
  timeout_wakeups :: u64
  eintr_wakeups :: u64
  tun_readable_wakeups :: u64
  tun_writable_wakeups :: u64
  recovery_timer_wakeups :: u64
  recovery_release_callbacks :: u64
  recovery_callback_errors :: u64

record tcp_shift_lwip_loop_recovery_event =
  rec_deadline_ns :: u64
  rec_flow_id :: u64
  rec_generation :: u32
  rec_kind :: u32

definition TCP_SHIFT_TUN_RX_BUDGET :: nat where "TCP_SHIFT_TUN_RX_BUDGET = 64"
definition TCP_SHIFT_LWIP_LOOP_PACER_MAX_EVENTS :: nat where "TCP_SHIFT_LWIP_LOOP_PACER_MAX_EVENTS = 4096"
definition SYS_TIMEOUTS_SLEEPTIME_INFINITE :: u32 where "SYS_TIMEOUTS_SLEEPTIME_INFINITE = 0xFFFFFFFF"
definition INT_MAX :: int where "INT_MAX = 2147483647"

definition watch_zero :: tcp_shift_lwip_loop_watch where
  "watch_zero = \<lparr>watch_fd = -1, watch_events = 0, watch_callback = None, watch_registered = False\<rparr>"

section \<open>Watches\<close>

definition tcp_shift_lwip_loop_tun_events :: "tcp_shift_l3_tun \<Rightarrow> u32" where
  "tcp_shift_lwip_loop_tun_events l3 =
    (if tcp_shift_l3_tun_wants_write l3 then EPOLLIN OR EPOLLOUT else EPOLLIN)"

definition tcp_shift_lwip_loop_watch_add ::
    "bool \<Rightarrow> event_loop \<Rightarrow> tcp_shift_lwip_loop_watch \<Rightarrow> int \<Rightarrow> u32 \<Rightarrow> loop_callback option \<Rightarrow>
     int \<times> event_loop \<times> tcp_shift_lwip_loop_watch" where
  "tcp_shift_lwip_loop_watch_add ctl_ok loop watch fd events callback =
    (if epoll_fd loop < 0 \<or> fd < 0 \<or> callback = None \<or> watch_registered watch then (-1, loop, watch)
     else if \<not> ctl_ok then (-1, loop, watch)
     else (0, loop\<lparr>epoll_interest := (epoll_interest loop)(fd \<mapsto> events)\<rparr>,
           watch\<lparr>watch_fd := fd, watch_events := events, watch_callback := callback, watch_registered := True\<rparr>))"

definition tcp_shift_lwip_loop_watch_mod ::
    "bool \<Rightarrow> event_loop \<Rightarrow> tcp_shift_lwip_loop_watch \<Rightarrow> u32 \<Rightarrow> int \<times> event_loop \<times> tcp_shift_lwip_loop_watch" where
  "tcp_shift_lwip_loop_watch_mod ctl_ok loop watch events =
    (if epoll_fd loop < 0 \<or> \<not> watch_registered watch \<or> watch_fd watch < 0 \<or> watch_callback watch = None
     then (-1, loop, watch)
     else if watch_events watch = events then (0, loop, watch)
     else if \<not> ctl_ok then (-1, loop, watch)
     else (0, loop\<lparr>epoll_interest := (epoll_interest loop)(watch_fd watch \<mapsto> events)\<rparr>,
           watch\<lparr>watch_events := events\<rparr>))"

definition tcp_shift_lwip_loop_watch_remove ::
    "bool \<Rightarrow> event_loop \<Rightarrow> tcp_shift_lwip_loop_watch \<Rightarrow> int \<times> event_loop \<times> tcp_shift_lwip_loop_watch" where
  "tcp_shift_lwip_loop_watch_remove ctl_ok loop watch =
    (if epoll_fd loop < 0 \<or> \<not> watch_registered watch then (-1, loop, watch)
     else if \<not> ctl_ok then (-1, loop, watch)
     else (0, loop\<lparr>epoll_interest := (epoll_interest loop)(watch_fd watch := None)\<rparr>,
           watch\<lparr>watch_fd := -1, watch_events := 0, watch_callback := None, watch_registered := False\<rparr>))"

section \<open>Handlers\<close>

text \<open>What one read of the device meets: the outcomes of \<^verbatim>\<open>pbuf_alloc\<close> and \<^verbatim>\<open>pbuf_take\<close>, and the bytes.\<close>

type_synonym rx_env = "bool \<times> bool \<times> u8 list"

fun tun_rx_loop ::
    "ip_input \<Rightarrow> ip_input \<Rightarrow> nat \<Rightarrow> rx_env list \<Rightarrow> tcp_shift_l3_tun \<Rightarrow> sys_reply list \<Rightarrow> int l3_result" where
  "tun_rx_loop ip4 ip6 0 envs l3 rs = Some (0, l3, rs)"
| "tun_rx_loop ip4 ip6 (Suc budget) [] l3 rs = None"
| "tun_rx_loop ip4 ip6 (Suc budget) ((alloc_ok, take_ok, buffer) # envs) l3 rs =
    (case tcp_shift_l3_tun_rx_once ip4 ip6 alloc_ok take_ok buffer l3 rs of None \<Rightarrow> None
     | Some ((result, _), l3, rs) \<Rightarrow>
         if result < 0 then Some (-1, l3, rs)
         else if result = 0 then Some (0, l3, rs)
         else tun_rx_loop ip4 ip6 budget envs l3 rs)"

definition tcp_shift_lwip_loop_tun_ready ::
    "ip_input \<Rightarrow> ip_input \<Rightarrow> rx_env list \<Rightarrow> event_loop \<Rightarrow> u32 \<Rightarrow> sys_reply list \<Rightarrow>
     (int \<times> event_loop \<times> sys_reply list) option" where
  "tcp_shift_lwip_loop_tun_ready ip4 ip6 envs loop events rs =
    (if events AND (EPOLLERR OR EPOLLHUP) \<noteq> 0 then Some (-1, loop, rs)
     else
       case loop_l3 loop of None \<Rightarrow> None
       | Some l3 \<Rightarrow>
           (case (if events AND EPOLLIN \<noteq> 0
                  then map_option (\<lambda>(r, l3, rs). (r, l3, rs, loop\<lparr>tun_readable_wakeups := tun_readable_wakeups loop + 1\<rparr>))
                         (tun_rx_loop ip4 ip6 TCP_SHIFT_TUN_RX_BUDGET envs l3 rs)
                  else Some (0, l3, rs, loop)) of None \<Rightarrow> None
            | Some (r, l3, rs, loop) \<Rightarrow>
                if r < 0 then Some (-1, loop\<lparr>loop_l3 := Some l3\<rparr>, rs)
                else if events AND EPOLLOUT = 0 then Some (0, loop\<lparr>loop_l3 := Some l3\<rparr>, rs)
                else
                  let loop = loop\<lparr>tun_writable_wakeups := tun_writable_wakeups loop + 1\<rparr>
                  in (case tcp_shift_l3_tun_flush_tx l3 rs of None \<Rightarrow> None
                      | Some (n, l3, rs) \<Rightarrow> Some (if n < 0 then -1 else 0, loop\<lparr>loop_l3 := Some l3\<rparr>, rs))))"

text \<open>The recovery timer's handler: the events it releases carry their kind in the byte count.\<close>

type_synonym recovery_callback =
  "tcp_shift_lwip_loop_recovery_event \<Rightarrow> u64 \<Rightarrow> event_loop \<Rightarrow> int \<times> event_loop"

definition recovery_event_of :: "tcp_shift_pacer_event \<Rightarrow> tcp_shift_lwip_loop_recovery_event" where
  "recovery_event_of raw = \<lparr>rec_deadline_ns = deadline_ns raw, rec_flow_id = flow_id raw,
    rec_generation = generation raw, rec_kind = event_bytes raw\<rparr>"

partial_function (option) recovery_ready_loop ::
    "settime \<Rightarrow> recovery_callback option \<Rightarrow> u64 \<Rightarrow> event_loop \<Rightarrow> (int \<times> event_loop) option" where
  "recovery_ready_loop settime release now_ns loop =
    (case tcp_shift_pacer_pop_due settime (recovery_timer loop) now_ns of (r, timer, slot) \<Rightarrow>
       if r < 0 then Some (-1, loop\<lparr>recovery_timer := timer\<rparr>)
       else if r = 0 then Some (0, loop\<lparr>recovery_timer := timer\<rparr>)
       else case release of
         None \<Rightarrow> Some (-1, loop\<lparr>recovery_timer := timer\<rparr>)
       | Some callback \<Rightarrow>
           (case callback (recovery_event_of (the slot)) now_ns
                   (loop\<lparr>recovery_timer := timer,
                         recovery_release_callbacks := recovery_release_callbacks loop + 1\<rparr>) of
              (c, loop) \<Rightarrow>
                if c < 0 then Some (-1, loop\<lparr>recovery_callback_errors := recovery_callback_errors loop + 1\<rparr>)
                else recovery_ready_loop settime release now_ns loop))"

definition tcp_shift_lwip_loop_recovery_ready ::
    "settime \<Rightarrow> timer_read \<Rightarrow> u64 option \<Rightarrow> recovery_callback option \<Rightarrow> event_loop \<Rightarrow> u32 \<Rightarrow>
     (int \<times> event_loop) option" where
  "tcp_shift_lwip_loop_recovery_ready settime rd clock release loop events =
    (if events AND (EPOLLERR OR EPOLLHUP) \<noteq> 0 then Some (-1, loop)
     else if events AND EPOLLIN = 0 then Some (0, loop)
     else
       let (r, timer, expirations) = tcp_shift_pacer_consume_timer rd (recovery_timer loop) 0;
           loop = loop\<lparr>recovery_timer := timer, recovery_timer_wakeups := recovery_timer_wakeups loop + 1\<rparr>
       in if r < 0 then Some (-1, loop)
          else if r = 0 \<or> expirations = 0 then Some (0, loop)
          else case clock of
            None \<Rightarrow> Some (-1, loop)
          | Some now_ns \<Rightarrow> recovery_ready_loop settime release now_ns loop)"

definition tcp_shift_lwip_loop_sync_interest :: "bool \<Rightarrow> event_loop \<Rightarrow> (int \<times> event_loop) option" where
  "tcp_shift_lwip_loop_sync_interest ctl_ok loop =
    (case loop_l3 loop of None \<Rightarrow> None
     | Some l3 \<Rightarrow>
         let wanted = tcp_shift_lwip_loop_tun_events l3
         in if wanted = tun_events loop then Some (0, loop)
            else
              let (r, loop, watch) = tcp_shift_lwip_loop_watch_mod ctl_ok loop (tun_watch loop) wanted;
                  loop = loop\<lparr>tun_watch := watch\<rparr>
              in if r < 0 then Some (-1, loop) else Some (0, loop\<lparr>tun_events := wanted\<rparr>))"

definition tcp_shift_lwip_loop_timeout_ms :: "u32 \<Rightarrow> int" where
  "tcp_shift_lwip_loop_timeout_ms sleep_ms =
    (if sleep_ms = SYS_TIMEOUTS_SLEEPTIME_INFINITE then -1
     else if uint sleep_ms > INT_MAX then INT_MAX
     else uint sleep_ms)"

section \<open>Lifecycle\<close>

text \<open>What initialisation meets: the descriptors the kernel creates (negative when it fails) and the outcomes of the
  three registrations.\<close>

record loop_init_env =
  init_epoll :: int
  init_pacer_fd :: int
  init_recovery_fd :: int
  init_tun_ok :: bool
  init_pacer_ok :: bool
  init_recovery_ok :: bool

definition loop_zero :: event_loop where
  "loop_zero =
    \<lparr>loop_pacer = pacer_zero\<lparr>timer_fd := -1\<rparr>, pacing_wakeups = 0, pacing_release_callbacks = 0,
     pacing_callback_errors = 0, epoll_fd = -1, epoll_interest = Map.empty, loop_l3 = None, tun_watch = watch_zero,
     tun_events = 0, pacer_watch = watch_zero, pacer_release_set = False,
     recovery_timer = pacer_zero\<lparr>timer_fd := -1\<rparr>, recovery_watch = watch_zero, recovery_release_set = False,
     wait_calls = 0, ready_wakeups = 0, timeout_wakeups = 0, eintr_wakeups = 0, tun_readable_wakeups = 0,
     tun_writable_wakeups = 0, recovery_timer_wakeups = 0, recovery_release_callbacks = 0,
     recovery_callback_errors = 0\<rparr>"

definition close_timers :: "event_loop \<Rightarrow> event_loop" where
  "close_timers loop =
    (let loop = (if timer_fd (recovery_timer loop) \<ge> 0
                 then loop\<lparr>recovery_timer := tcp_shift_pacer_close (recovery_timer loop)\<rparr> else loop)
     in if timer_fd (loop_pacer loop) \<ge> 0
        then loop\<lparr>loop_pacer := tcp_shift_pacer_close (loop_pacer loop)\<rparr> else loop)"

text \<open>The label \<^verbatim>\<open>fail\<close>; closing the epoll descriptor drops its interest list.\<close>

definition init_fail :: "event_loop \<Rightarrow> int \<times> event_loop" where
  "init_fail loop = (-1, (close_timers loop)\<lparr>epoll_fd := -1, epoll_interest := Map.empty, loop_l3 := None\<rparr>)"

text \<open>Creating a timer and watching it.\<close>

definition init_pacer_watch :: "loop_init_env \<Rightarrow> event_loop \<Rightarrow> int \<times> event_loop" where
  "init_pacer_watch env loop =
    (let (r, pacer) = tcp_shift_pacer_init (init_pacer_fd env) (loop_pacer loop) TCP_SHIFT_LWIP_LOOP_PACER_MAX_EVENTS;
         loop = loop\<lparr>loop_pacer := pacer\<rparr>
     in if r < 0 then (-1, loop)
        else
          let (r, loop, watch) = tcp_shift_lwip_loop_watch_add (init_pacer_ok env) loop (pacer_watch loop)
                (tcp_shift_pacer_fd pacer) EPOLLIN (Some Pacer_Ready)
          in (r, loop\<lparr>pacer_watch := watch\<rparr>))"

definition init_recovery_watch :: "loop_init_env \<Rightarrow> event_loop \<Rightarrow> int \<times> event_loop" where
  "init_recovery_watch env loop =
    (let (r, timer) = tcp_shift_pacer_init (init_recovery_fd env) (recovery_timer loop) TCP_SHIFT_LWIP_LOOP_PACER_MAX_EVENTS;
         loop = loop\<lparr>recovery_timer := timer\<rparr>
     in if r < 0 then (-1, loop)
        else
          let (r, loop, watch) = tcp_shift_lwip_loop_watch_add (init_recovery_ok env) loop (recovery_watch loop)
                (tcp_shift_pacer_fd timer) EPOLLIN (Some Recovery_Ready)
          in (r, loop\<lparr>recovery_watch := watch\<rparr>))"

definition tcp_shift_lwip_loop_init ::
    "loop_init_env \<Rightarrow> event_loop \<Rightarrow> tcp_shift_l3_tun \<Rightarrow> int \<times> event_loop" where
  "tcp_shift_lwip_loop_init env loop l3 =
    (if \<not> attached l3 \<or> tun_fd l3 < 0 then (-1, loop)
     else
       let loop = loop_zero\<lparr>epoll_fd := init_epoll env\<rparr>
       in if epoll_fd loop < 0 then (-1, loop)
          else
            let loop = loop\<lparr>loop_l3 := Some l3, tun_events := tcp_shift_lwip_loop_tun_events l3\<rparr>;
                (r, loop, watch) = tcp_shift_lwip_loop_watch_add (init_tun_ok env) loop (tun_watch loop) (tun_fd l3)
                  (tun_events loop) (Some Tun_Ready);
                loop = loop\<lparr>tun_watch := watch\<rparr>
            in if r < 0 then init_fail loop
               else
                 let (r, loop) = init_pacer_watch env loop
                 in if r < 0 then init_fail loop
                    else
                      let (r, loop) = init_recovery_watch env loop
                      in if r < 0 then init_fail loop else (0, loop))"

definition tcp_shift_lwip_loop_close :: "event_loop \<Rightarrow> event_loop" where
  "tcp_shift_lwip_loop_close loop =
    (close_timers loop)\<lparr>epoll_fd := -1, epoll_interest := Map.empty, loop_l3 := None, tun_events := 0, tun_watch := watch_zero,
       pacer_watch := watch_zero, pacer_release_set := False, recovery_watch := watch_zero,
       recovery_release_set := False\<rparr>"

definition tcp_shift_lwip_loop_set_pacer_release :: "event_loop \<Rightarrow> bool \<Rightarrow> int \<times> event_loop" where
  "tcp_shift_lwip_loop_set_pacer_release loop callback =
    (if epoll_fd loop < 0 \<or> timer_fd (loop_pacer loop) < 0 \<or> \<not> callback \<or> heap_current (stats (loop_pacer loop)) \<noteq> 0
     then (-1, loop) else (0, loop\<lparr>pacer_release_set := True\<rparr>))"

definition tcp_shift_lwip_loop_pacer_schedule ::
    "(nat \<Rightarrow> bool) \<Rightarrow> settime \<Rightarrow> event_loop \<Rightarrow> tcp_shift_pacer_event \<Rightarrow> int \<times> event_loop" where
  "tcp_shift_lwip_loop_pacer_schedule realloc_ok settime loop event =
    (if epoll_fd loop < 0 \<or> timer_fd (loop_pacer loop) < 0 \<or> \<not> pacer_release_set loop then (-1, loop)
     else case tcp_shift_pacer_schedule realloc_ok settime (loop_pacer loop) event of
            (r, pacer) \<Rightarrow> (r, loop\<lparr>loop_pacer := pacer\<rparr>))"

definition tcp_shift_lwip_loop_pacer_cancel ::
    "settime \<Rightarrow> event_loop \<Rightarrow> u64 \<Rightarrow> u32 \<Rightarrow> nat \<Rightarrow> int \<times> event_loop \<times> nat" where
  "tcp_shift_lwip_loop_pacer_cancel settime loop fid gen cancelled =
    (if epoll_fd loop < 0 \<or> timer_fd (loop_pacer loop) < 0 then (-1, loop, cancelled)
     else case tcp_shift_pacer_cancel settime (loop_pacer loop) fid gen cancelled of
            (r, pacer, n) \<Rightarrow> (r, loop\<lparr>loop_pacer := pacer\<rparr>, n))"

definition tcp_shift_lwip_loop_pacer_stats :: "event_loop \<Rightarrow> tcp_shift_pacer_stats option" where
  "tcp_shift_lwip_loop_pacer_stats loop =
    (if epoll_fd loop < 0 \<or> timer_fd (loop_pacer loop) < 0 then None
     else Some (tcp_shift_pacer_get_stats (loop_pacer loop)))"

definition tcp_shift_lwip_loop_set_recovery_release :: "event_loop \<Rightarrow> bool \<Rightarrow> int \<times> event_loop" where
  "tcp_shift_lwip_loop_set_recovery_release loop callback =
    (if epoll_fd loop < 0 \<or> timer_fd (recovery_timer loop) < 0 \<or> \<not> callback \<or>
        heap_current (stats (recovery_timer loop)) \<noteq> 0
     then (-1, loop) else (0, loop\<lparr>recovery_release_set := True\<rparr>))"

definition tcp_shift_lwip_loop_recovery_schedule ::
    "(nat \<Rightarrow> bool) \<Rightarrow> settime \<Rightarrow> event_loop \<Rightarrow> tcp_shift_lwip_loop_recovery_event \<Rightarrow> int \<times> event_loop" where
  "tcp_shift_lwip_loop_recovery_schedule realloc_ok settime loop event =
    (if epoll_fd loop < 0 \<or> timer_fd (recovery_timer loop) < 0 \<or> \<not> recovery_release_set loop \<or> rec_kind event = 0
     then (-1, loop)
     else
       case tcp_shift_pacer_schedule realloc_ok settime (recovery_timer loop)
              \<lparr>deadline_ns = rec_deadline_ns event, flow_id = rec_flow_id event, generation = rec_generation event,
               event_bytes = rec_kind event\<rparr> of
         (r, timer) \<Rightarrow> (r, loop\<lparr>recovery_timer := timer\<rparr>))"

definition tcp_shift_lwip_loop_recovery_cancel ::
    "settime \<Rightarrow> event_loop \<Rightarrow> u64 \<Rightarrow> u32 \<Rightarrow> nat \<Rightarrow> int \<times> event_loop \<times> nat" where
  "tcp_shift_lwip_loop_recovery_cancel settime loop fid gen cancelled =
    (if epoll_fd loop < 0 \<or> timer_fd (recovery_timer loop) < 0 then (-1, loop, cancelled)
     else case tcp_shift_pacer_cancel settime (recovery_timer loop) fid gen cancelled of
            (r, timer, n) \<Rightarrow> (r, loop\<lparr>recovery_timer := timer\<rparr>, n))"

definition tcp_shift_lwip_loop_recovery_stats :: "event_loop \<Rightarrow> tcp_shift_pacer_stats option" where
  "tcp_shift_lwip_loop_recovery_stats loop =
    (if epoll_fd loop < 0 \<or> timer_fd (recovery_timer loop) < 0 then None
     else Some (tcp_shift_pacer_get_stats (recovery_timer loop)))"

section \<open>One iteration\<close>

text \<open>The outcome of \<^verbatim>\<open>epoll_wait\<close>: the watch the event carries and its readiness bits.\<close>

datatype wait_reply = Wait_Error | Wait_Interrupted | Wait_Timeout | Wait_Ready "tcp_shift_lwip_loop_watch option" u32

text \<open>\<open>call\<close> is what a call through the watch's pointer does, \<open>timeouts\<close> is lwIP's \<^verbatim>\<open>sys_check_timeouts\<close>.\<close>

definition tcp_shift_lwip_loop_run_once ::
    "(loop_callback \<Rightarrow> u32 \<Rightarrow> event_loop \<Rightarrow> (int \<times> event_loop) option) \<Rightarrow> (event_loop \<Rightarrow> event_loop) \<Rightarrow> wait_reply \<Rightarrow> bool \<Rightarrow>
     event_loop \<Rightarrow> (int \<times> event_loop) option" where
  "tcp_shift_lwip_loop_run_once call timeouts reply ctl_ok loop =
    (if epoll_fd loop < 0 \<or> loop_l3 loop = None then Some (-1, loop)
     else
       let loop = loop\<lparr>wait_calls := wait_calls loop + 1\<rparr>
       in case reply of
            Wait_Error \<Rightarrow> Some (-1, loop)
          | Wait_Interrupted \<Rightarrow> Some (0, loop\<lparr>eintr_wakeups := eintr_wakeups loop + 1\<rparr>)
          | Wait_Timeout \<Rightarrow>
              tcp_shift_lwip_loop_sync_interest ctl_ok (timeouts (loop\<lparr>timeout_wakeups := timeout_wakeups loop + 1\<rparr>))
          | Wait_Ready watch events \<Rightarrow>
              let loop = loop\<lparr>ready_wakeups := ready_wakeups loop + 1\<rparr>
              in case watch of None \<Rightarrow> Some (-1, loop)
                 | Some w \<Rightarrow>
                     (case (watch_registered w, watch_callback w) of
                        (True, Some callback) \<Rightarrow>
                          (case call callback events loop of None \<Rightarrow> None
                           | Some (result, loop) \<Rightarrow>
                               let loop = timeouts loop
                               in if result < 0 then Some (-1, loop)
                                  else tcp_shift_lwip_loop_sync_interest ctl_ok loop)
                      | _ \<Rightarrow> Some (-1, loop)))"

section \<open>Interest and pending packets\<close>

text \<open>The loop's record of the TUN watch agrees with the kernel's interest list.\<close>

definition tun_watched :: "event_loop \<Rightarrow> bool" where
  "tun_watched L \<longleftrightarrow> 0 \<le> epoll_fd L \<and> loop_l3 L \<noteq> None \<and> watch_registered (tun_watch L) \<and> 0 \<le> watch_fd (tun_watch L) \<and>
    watch_callback (tun_watch L) = Some Tun_Ready \<and> watch_events (tun_watch L) = tun_events L \<and>
    epoll_interest L (watch_fd (tun_watch L)) = Some (tun_events L)"

definition tun_synced :: "event_loop \<Rightarrow> bool" where
  "tun_synced L \<longleftrightarrow> tun_watched L \<and> tun_events L = tcp_shift_lwip_loop_tun_events (the (loop_l3 L))"

text \<open>What a callback may do to the loop: anything but touch the TUN watch.\<close>

definition tun_side_kept :: "event_loop \<Rightarrow> event_loop \<Rightarrow> bool" where
  "tun_side_kept L L' \<longleftrightarrow> epoll_fd L' = epoll_fd L \<and> (loop_l3 L' = None) = (loop_l3 L = None) \<and> tun_watch L' = tun_watch L \<and>
    tun_events L' = tun_events L \<and> epoll_interest L' (watch_fd (tun_watch L)) = epoll_interest L (watch_fd (tun_watch L))"

lemma tun_side_kept_watched: "tun_side_kept L L' \<Longrightarrow> tun_watched L \<Longrightarrow> tun_watched L'"
  by (auto simp: tun_side_kept_def tun_watched_def)

lemma sync_interest_synced:
  "tun_watched L \<Longrightarrow> tcp_shift_lwip_loop_sync_interest ctl_ok L = Some (0, L') \<Longrightarrow> tun_synced L'"
  by (auto simp: tcp_shift_lwip_loop_sync_interest_def tcp_shift_lwip_loop_watch_mod_def tun_synced_def tun_watched_def
      Let_def split: if_splits option.splits)

text \<open>The TUN handler itself is such a callback.\<close>

lemma tun_ready_keeps:
  "tcp_shift_lwip_loop_tun_ready ip4 ip6 envs L events rs = Some (r, L', rs') \<Longrightarrow> tun_side_kept L L'"
  by (auto simp: tcp_shift_lwip_loop_tun_ready_def tun_side_kept_def Let_def
      split: if_splits option.splits prod.splits)

definition client_ok :: "(loop_callback \<Rightarrow> u32 \<Rightarrow> event_loop \<Rightarrow> (int \<times> event_loop) option) \<Rightarrow> (event_loop \<Rightarrow> event_loop) \<Rightarrow> bool" where
  "client_ok call timeouts \<longleftrightarrow> (\<forall>c events L r L'. call c events L = Some (r, L') \<longrightarrow> tun_side_kept L L') \<and>
    (\<forall>L. tun_side_kept L (timeouts L))"

lemma run_once_synced:
  assumes sync: "tun_synced L" and client: "client_ok call timeouts"
    and run: "tcp_shift_lwip_loop_run_once call timeouts reply ctl_ok L = Some (0, L')"
  shows "tun_synced L'"
proof -
  define W where "W = L\<lparr>wait_calls := wait_calls L + 1\<rparr>"
  have W: "tun_watched W" using sync by (simp add: W_def tun_synced_def tun_watched_def)
  have t: "tun_watched M \<Longrightarrow> tun_watched (timeouts M)" for M
    using client tun_side_kept_watched [of M "timeouts M"] by (simp add: client_ok_def)
  have ne: "\<not> (epoll_fd L < 0 \<or> loop_l3 L = None)" using sync by (auto simp: tun_synced_def tun_watched_def)
  note run' = run [unfolded tcp_shift_lwip_loop_run_once_def if_not_P [OF ne] Let_def, folded W_def]
  show ?thesis
  proof (cases reply)
    case Wait_Interrupted
    then show ?thesis using run' sync by (auto simp: W_def tun_synced_def tun_watched_def)
  next
    case Wait_Timeout
    then have "tcp_shift_lwip_loop_sync_interest ctl_ok (timeouts (W\<lparr>timeout_wakeups := timeout_wakeups W + 1\<rparr>)) = Some (0, L')"
      using run' by simp
    moreover have "tun_watched (W\<lparr>timeout_wakeups := timeout_wakeups W + 1\<rparr>)" using W by (simp add: tun_watched_def)
    ultimately show ?thesis using t sync_interest_synced by blast
  next
    case (Wait_Ready w events)
    let ?R = "W\<lparr>ready_wakeups := ready_wakeups W + 1\<rparr>"
    obtain c r M where "call c events ?R = Some (r, M)" and M: "tcp_shift_lwip_loop_sync_interest ctl_ok (timeouts M) = Some (0, L')"
      using run' Wait_Ready by (auto split: option.splits bool.splits if_splits)
    then have "tun_side_kept ?R M" using client by (auto simp: client_ok_def)
    moreover have "tun_watched ?R" using W by (simp add: tun_watched_def)
    ultimately have "tun_watched (timeouts M)" using t tun_side_kept_watched by blast
    then show ?thesis using M by (rule sync_interest_synced)
  qed (use run' in simp)
qed

text \<open>Initialisation, with descriptors that the kernel keeps apart.\<close>

definition init_env_ok :: "loop_init_env \<Rightarrow> tcp_shift_l3_tun \<Rightarrow> bool" where
  "init_env_ok env l3 \<longleftrightarrow> distinct [tun_fd l3, init_pacer_fd env, init_recovery_fd env]"

lemma init_pacer_watch_keeps:
  assumes "init_pacer_watch env L = (r, L')" and "init_pacer_fd env \<noteq> watch_fd (tun_watch L)"
  shows "tun_side_kept L L' \<and> (r = 0 \<or> r = -1) \<and> recovery_timer L' = recovery_timer L \<and> recovery_watch L' = recovery_watch L \<and>
    (r = 0 \<longrightarrow> epoll_interest L' (init_pacer_fd env) = Some EPOLLIN)"
  using assms by (auto simp: init_pacer_watch_def tcp_shift_pacer_init_def tcp_shift_lwip_loop_watch_add_def
      tcp_shift_pacer_fd_def tun_side_kept_def Let_def split: if_splits prod.splits)

lemma init_recovery_watch_keeps:
  assumes "init_recovery_watch env L = (r, L')" and "init_recovery_fd env \<noteq> watch_fd (tun_watch L)"
    and "init_recovery_fd env \<noteq> fd"
  shows "tun_side_kept L L' \<and> (r = 0 \<or> r = -1) \<and> epoll_interest L' fd = epoll_interest L fd \<and>
    (r = 0 \<longrightarrow> epoll_interest L' (init_recovery_fd env) = Some EPOLLIN)"
  using assms by (auto simp: init_recovery_watch_def tcp_shift_pacer_init_def tcp_shift_lwip_loop_watch_add_def
      tcp_shift_pacer_fd_def tun_side_kept_def Let_def split: if_splits prod.splits)

definition loop_down :: "event_loop \<Rightarrow> bool" where
  "loop_down L \<longleftrightarrow> epoll_fd L < 0 \<and> timer_fd (loop_pacer L) < 0 \<and> timer_fd (recovery_timer L) < 0 \<and> loop_l3 L = None \<and>
    epoll_interest L = Map.empty"

lemma close_timers_fds: "timer_fd (loop_pacer (close_timers L)) < 0 \<and> timer_fd (recovery_timer (close_timers L)) < 0"
  by (simp add: close_timers_def tcp_shift_pacer_close_def Let_def not_le)

lemma init_fail_down: "init_fail L = (r, L') \<Longrightarrow> r = -1 \<and> loop_down L'"
  using close_timers_fds [of L] by (auto simp: init_fail_def loop_down_def)

lemma init_outcome:
  assumes env: "init_env_ok env l3" and l3: "attached l3" "0 \<le> tun_fd l3"
    and init: "tcp_shift_lwip_loop_init env loop l3 = (r, L)"
  shows "r = 0 \<and> tun_synced L \<and> loop_l3 L = Some l3 \<and> epoll_interest L (tun_fd l3) = Some (tun_events L) \<and>
      epoll_interest L (init_pacer_fd env) = Some EPOLLIN \<and> epoll_interest L (init_recovery_fd env) = Some EPOLLIN \<or>
    r = -1 \<and> loop_down L"
proof -
  define L0 where "L0 = loop_zero\<lparr>epoll_fd := init_epoll env\<rparr>"
  define L1 where "L1 = L0\<lparr>loop_l3 := Some l3, tun_events := tcp_shift_lwip_loop_tun_events l3\<rparr>"
  obtain r1 M1 w where add: "tcp_shift_lwip_loop_watch_add (init_tun_ok env) L1 (tun_watch L1) (tun_fd l3) (tun_events L1)
      (Some Tun_Ready) = (r1, M1, w)" by (metis surj_pair)
  define L2 where "L2 = M1\<lparr>tun_watch := w\<rparr>"
  obtain r2 L3 where pacer: "init_pacer_watch env L2 = (r2, L3)" by (metis surj_pair)
  obtain r3 L4 where rec: "init_recovery_watch env L3 = (r3, L4)" by (metis surj_pair)
  have g: "\<not> (\<not> attached l3 \<or> tun_fd l3 < 0)" using l3 by simp
  have out: "(r, L) = (if init_epoll env < 0 then (-1, L0) else if r1 < 0 then init_fail L2 else if r2 < 0 then init_fail L3
      else if r3 < 0 then init_fail L4 else (0, L4))"
    using init unfolding tcp_shift_lwip_loop_init_def if_not_P [OF g] Let_def L0_def [symmetric] L1_def [symmetric] add
      prod.case L2_def [symmetric] pacer rec
    by (simp add: L0_def)
  show ?thesis
  proof (cases "init_epoll env < 0 \<or> r1 < 0 \<or> r2 < 0 \<or> r3 < 0")
    case True
    have "loop_down L0" if "init_epoll env < 0" using that by (simp add: loop_down_def L0_def loop_zero_def)
    moreover consider "init_epoll env < 0" | "\<not> init_epoll env < 0" "r1 < 0" | "\<not> init_epoll env < 0" "\<not> r1 < 0" "r2 < 0"
      | "\<not> init_epoll env < 0" "\<not> r1 < 0" "\<not> r2 < 0" "r3 < 0"
      using True by blast
    then have "(r, L) = (-1, L0) \<and> init_epoll env < 0 \<or> (\<exists>M. init_fail M = (r, L))"
      by cases (simp_all only: out if_True if_False simp_thms, metis+)
    ultimately show ?thesis using init_fail_down by blast
  next
    case False
    then have L: "r = 0" "L = L4" using out by simp_all
    have L1: "\<not> (epoll_fd L1 < 0 \<or> tun_fd l3 < 0 \<or> Some Tun_Ready = None \<or> watch_registered (tun_watch L1))"
      using False l3 by (simp add: L1_def L0_def loop_zero_def watch_zero_def)
    have w2: "tun_synced L2" "watch_fd (tun_watch L2) = tun_fd l3" "loop_l3 L2 = Some l3"
      using add False l3 unfolding tcp_shift_lwip_loop_watch_add_def if_not_P [OF L1]
      by (auto simp: L2_def L1_def L0_def loop_zero_def watch_zero_def tun_synced_def tun_watched_def split: if_splits)
    have d: "init_pacer_fd env \<noteq> tun_fd l3" "init_recovery_fd env \<noteq> tun_fd l3" "init_recovery_fd env \<noteq> init_pacer_fd env"
      using env by (auto simp: init_env_ok_def)
    have p: "tun_side_kept L2 L3" "epoll_interest L3 (init_pacer_fd env) = Some EPOLLIN" "r2 = 0"
      using init_pacer_watch_keeps [OF pacer] d w2(2) False by auto
    have w3: "watch_fd (tun_watch L3) = tun_fd l3" using p(1) w2(2) by (simp add: tun_side_kept_def)
    have q: "tun_side_kept L3 L4" "epoll_interest L4 (init_pacer_fd env) = Some EPOLLIN"
      "epoll_interest L4 (init_recovery_fd env) = Some EPOLLIN"
      using init_recovery_watch_keeps [OF rec _ d(3)] d w3 False p(2) by auto
    have l3s: "loop_l3 L3 = loop_l3 L2" "loop_l3 L4 = loop_l3 L3"
      using pacer rec by (auto simp: init_pacer_watch_def init_recovery_watch_def tcp_shift_lwip_loop_watch_add_def Let_def
          split: if_splits prod.splits)
    have "tun_watched L4" using tun_side_kept_watched p(1) q(1) w2(1) by (auto simp: tun_synced_def)
    moreover have "tun_events L4 = tun_events L2" using p(1) q(1) by (simp add: tun_side_kept_def)
    ultimately have "tun_synced L4" using w2 l3s by (simp add: tun_synced_def)
    moreover have "epoll_interest L4 (tun_fd l3) = Some (tun_events L4)"
      using \<open>tun_watched L4\<close> q(1) w3 by (simp add: tun_watched_def tun_side_kept_def)
    ultimately show ?thesis using L q l3s w2(3) by simp
  qed
qed

section \<open>Properties\<close>

text \<open>The states between iterations.\<close>

inductive loop_run :: "event_loop \<Rightarrow> bool" where
  init: "init_env_ok env l3 \<Longrightarrow> attached l3 \<Longrightarrow> 0 \<le> tun_fd l3 \<Longrightarrow> tcp_shift_lwip_loop_init env loop l3 = (0, L) \<Longrightarrow> loop_run L"
| iterate: "loop_run L \<Longrightarrow> client_ok call timeouts \<Longrightarrow>
    tcp_shift_lwip_loop_run_once call timeouts reply ctl_ok L = Some (0, L') \<Longrightarrow> loop_run L'"

lemma loop_run_synced: "loop_run L \<Longrightarrow> tun_synced L"
proof (induction rule: loop_run.induct)
  case (init env l3 loop L)
  from init_outcome [OF this] show ?case by simp
next
  case (iterate L call timeouts reply ctl_ok L')
  show ?case by (rule run_once_synced [OF iterate.IH iterate.hyps(2,3)])
qed

text \<open>C32. No lost wakeup on the device: in every state between two iterations of the loop the kernel watches the TUN
  descriptor for writability exactly while packets wait in the transmit ring, and always for readability, whatever the
  callbacks and lwIP's timers sent during the iteration.\<close>

theorem loop_watches_pending_packets:
  assumes "loop_run L"
  shows "\<exists>l3. loop_l3 L = Some l3 \<and> epoll_interest L (watch_fd (tun_watch L)) =
    Some (if queue_of l3 = [] then EPOLLIN else EPOLLIN OR EPOLLOUT)"
proof -
  have "tun_synced L" by (rule loop_run_synced [OF assms])
  then obtain l3 where "loop_l3 L = Some l3" "epoll_interest L (watch_fd (tun_watch L)) = Some (tcp_shift_lwip_loop_tun_events l3)"
    by (auto simp: tun_synced_def tun_watched_def)
  then show ?thesis using queue_nonempty [of l3]
    by (simp add: tcp_shift_lwip_loop_tun_events_def tcp_shift_l3_tun_wants_write_def)
qed

text \<open>Initialisation is all or nothing: either the loop is up with the device and both timers registered in the
  kernel's interest list, or it returns \<open>-1\<close> with the epoll descriptor and both timers closed and no device.\<close>

theorem loop_init_all_or_nothing:
  assumes "init_env_ok env l3" and "attached l3" and "0 \<le> tun_fd l3"
    and "tcp_shift_lwip_loop_init env loop l3 = (r, L)"
  shows "r = 0 \<and> loop_l3 L = Some l3 \<and> epoll_interest L (tun_fd l3) = Some (tcp_shift_lwip_loop_tun_events l3) \<and>
      epoll_interest L (init_pacer_fd env) = Some EPOLLIN \<and> epoll_interest L (init_recovery_fd env) = Some EPOLLIN \<or>
    r = -1 \<and> loop_down L"
  using init_outcome [OF assms] by (auto simp: tun_synced_def)

definition demo_init_env :: "bool \<Rightarrow> loop_init_env" where
  "demo_init_env ok = \<lparr>init_epoll = 3, init_pacer_fd = 6, init_recovery_fd = 7, init_tun_ok = True, init_pacer_ok = ok,
    init_recovery_ok = True\<rparr>"

definition demo_loop :: event_loop where
  "demo_loop = snd (tcp_shift_lwip_loop_init (demo_init_env True) loop_zero demo_l3_queued)"

lemma demo_init_ok: "init_env_ok (demo_init_env b) demo_l3_queued" "attached demo_l3_queued" "0 \<le> tun_fd demo_l3_queued"
  by code_simp+

lemma demo_pacer_init:
  "0 \<le> fd \<Longrightarrow> tcp_shift_pacer_init fd pacer TCP_SHIFT_LWIP_LOOP_PACER_MAX_EVENTS =
    (0, pacer_zero\<lparr>timer_fd := fd, heap_max := 4096, stats := pacer_stats_zero\<lparr>timerfd_creates := 1\<rparr>\<rparr>)"
  by (simp add: tcp_shift_pacer_init_def TCP_SHIFT_LWIP_LOOP_PACER_MAX_EVENTS_def SIZE_MAX_def sizeof_event_def pacer_zero_def)

lemma demo_init_result:
  "fst (tcp_shift_lwip_loop_init (demo_init_env ok) loop_zero demo_l3_queued) = (if ok then 0 else -1)"
  using demo_init_ok(2,3)
  by (simp add: tcp_shift_lwip_loop_init_def tcp_shift_lwip_loop_watch_add_def init_pacer_watch_def init_recovery_watch_def
      demo_pacer_init demo_init_env_def tcp_shift_pacer_fd_def loop_zero_def watch_zero_def pacer_zero_def init_fail_def Let_def)

lemma demo_loop_run: "loop_run demo_loop"
proof (rule loop_run.init [OF demo_init_ok])
  show "tcp_shift_lwip_loop_init (demo_init_env True) loop_zero demo_l3_queued = (0, demo_loop)"
    unfolding demo_loop_def by (rule prod_eqI) (simp_all add: demo_init_result)
qed

theorem loop_watches_pending_packets_witness:
  "\<exists>l3. loop_l3 demo_loop = Some l3 \<and> epoll_interest demo_loop (watch_fd (tun_watch demo_loop)) =
    Some (if queue_of l3 = [] then EPOLLIN else EPOLLIN OR EPOLLOUT)"
  using loop_watches_pending_packets [OF demo_loop_run] .

theorem loop_init_all_or_nothing_witness:
  "loop_down (snd (tcp_shift_lwip_loop_init (demo_init_env False) loop_zero demo_l3_queued))"
proof -
  obtain r L where i: "tcp_shift_lwip_loop_init (demo_init_env False) loop_zero demo_l3_queued = (r, L)" by fastforce
  then have "r = -1" using demo_init_result [of False] by simp
  then show ?thesis using loop_init_all_or_nothing [OF demo_init_ok i] i by simp
qed

end
