(* ===== verification/Bridge.thy ===== *)
theory Bridge
  imports Lwip_Loop
begin

text \<open>
  The byte-stream bridge of \<^verbatim>\<open>src/bridge/bridge.c\<close> between a public connection terminated in lwIP and a
  loopback socket: the flows with their pending public data, the two pumps, half-close in both
  directions, the readiness the bridge asks the event loop for, and the lwIP callbacks. A flow lives
  in a heap under its number; the list of the bridge holds the numbers. Every call that leaves the
  program takes its answer from a list of replies, in the order of the calls (a reply of the wrong kind, or
  one the kernel or lwIP would not give, is \<open>None\<close>). The bytes that cross the boundary are recorded in the
  flow: \<open>from_public\<close> what lwIP delivered, \<open>to_backend\<close> what the socket took, \<open>recved\<close> how much was returned
  to lwIP's window, \<open>to_public\<close> what lwIP took, \<open>consumed\<close> what was read from the socket and \<open>stream\<close> what the
  backend sends, up to the end of its stream, that is still to be read.
\<close>

section \<open>State\<close>

record tcp_shift_bridge_flow =
  flow_pcb :: bool
  backend_fd :: int
  backend_watch :: tcp_shift_lwip_loop_watch
  public_rx :: "u8 list list option"
  backend_connecting :: bool
  backend_connected :: bool
  backend_eof :: bool
  public_eof :: bool
  backend_write_shutdown :: bool
  public_write_shutdown :: bool
  backend_read_blocked :: bool
  from_public :: "u8 list"
  to_backend :: "u8 list"
  recved :: nat
  to_public :: "u8 list"
  consumed :: "u8 list"
  stream :: "u8 list"

record tcp_shift_bridge =
  bridge_loop :: event_loop
  loop_attached :: bool
  listener :: bool
  flows :: "nat list"
  public_port :: u16
  backend_port :: u16
  accepts :: u64
  backend_connects :: u64
  public_to_backend_bytes :: u64
  backend_to_public_bytes :: u64
  active_flows :: u64
  peak_active_flows :: u64
  pending_public_bytes :: u64
  peak_pending_public_bytes :: u64
  backend_write_blocked_events :: u64
  backend_read_blocked_events :: u64
  backend_failures :: u64
  public_errors :: u64
  backend_socket_sndbuf_bytes :: u32
  backend_socket_rcvbuf_bytes :: u32
  flow_heap :: "nat \<rightharpoonup> tcp_shift_bridge_flow"

definition TCP_SHIFT_BRIDGE_BACKEND_READ_CHUNK :: nat where "TCP_SHIFT_BRIDGE_BACKEND_READ_CHUNK = 4096"
definition TCP_SHIFT_BRIDGE_BACKEND_READ_BUDGET :: nat where "TCP_SHIFT_BRIDGE_BACKEND_READ_BUDGET = 16"
definition TCP_SHIFT_BRIDGE_BACKEND_WRITE_IOV :: nat where "TCP_SHIFT_BRIDGE_BACKEND_WRITE_IOV = 64"
definition TCP_SHIFT_BRIDGE_BACKEND_SOCKET_BUFFER :: int where "TCP_SHIFT_BRIDGE_BACKEND_SOCKET_BUFFER = 16384"

text \<open>The answers of the kernel and of lwIP: to a transfer of bytes, to \<^verbatim>\<open>tcp_sndbuf\<close>, to an lwIP call with an error
  code, to a call that succeeds or fails, and to a call that yields a number.\<close>

datatype bridge_reply = Sys sys_reply | Sndbuf u32 | Lwip err_t | Rc bool | Val int

fun next_sys :: "bridge_reply list \<Rightarrow> (sys_reply \<times> bridge_reply list) option" where
  "next_sys (Sys Interrupted # rs) = next_sys rs"
| "next_sys (Sys r # rs) = Some (r, rs)"
| "next_sys _ = None"

fun next_sndbuf :: "bridge_reply list \<Rightarrow> (u32 \<times> bridge_reply list) option" where
  "next_sndbuf (Sndbuf s # rs) = Some (s, rs)"
| "next_sndbuf _ = None"

fun next_err :: "bridge_reply list \<Rightarrow> (err_t \<times> bridge_reply list) option" where
  "next_err (Lwip e # rs) = Some (e, rs)"
| "next_err _ = None"

fun next_rc :: "bridge_reply list \<Rightarrow> (bool \<times> bridge_reply list) option" where
  "next_rc (Rc b # rs) = Some (b, rs)"
| "next_rc _ = None"

fun next_val :: "bridge_reply list \<Rightarrow> (int \<times> bridge_reply list) option" where
  "next_val (Val v # rs) = Some (v, rs)"
| "next_val _ = None"

text \<open>The length lwIP keeps for a chain, and lwIP's \<^verbatim>\<open>pbuf_free_header\<close> and \<^verbatim>\<open>pbuf_cat\<close>.\<close>

definition chain_len :: "u8 list list \<Rightarrow> u16" where
  "chain_len segs = word_of_nat (length (concat segs))"

fun pbuf_free_header :: "u8 list list \<Rightarrow> nat \<Rightarrow> u8 list list option" where
  "pbuf_free_header [] n = None"
| "pbuf_free_header (s # ss) n =
    (if n = 0 then Some (s # ss)
     else if n \<ge> length s then pbuf_free_header ss (n - length s)
     else Some (drop n s # ss))"

definition rx_bytes_of :: "tcp_shift_bridge_flow \<Rightarrow> u8 list" where
  "rx_bytes_of flow = (case public_rx flow of None \<Rightarrow> [] | Some segs \<Rightarrow> concat segs)"

section \<open>Flows\<close>

definition tcp_shift_bridge_flow_unlink :: "tcp_shift_bridge \<Rightarrow> nat \<Rightarrow> tcp_shift_bridge" where
  "tcp_shift_bridge_flow_unlink bridge fid =
    (if fid \<in> set (flows bridge)
     then bridge\<lparr>flows := remove1 fid (flows bridge),
                 active_flows := (if active_flows bridge \<noteq> 0 then active_flows bridge - 1 else active_flows bridge)\<rparr>
     else bridge)"

definition sub_pending :: "tcp_shift_bridge \<Rightarrow> u64 \<Rightarrow> tcp_shift_bridge" where
  "sub_pending bridge n = bridge\<lparr>pending_public_bytes :=
    (if pending_public_bytes bridge \<ge> n then pending_public_bytes bridge - n else 0)\<rparr>"

definition tcp_shift_bridge_release_pending_public ::
    "tcp_shift_bridge \<Rightarrow> tcp_shift_bridge_flow \<Rightarrow> tcp_shift_bridge \<times> tcp_shift_bridge_flow" where
  "tcp_shift_bridge_release_pending_public bridge flow =
    (case public_rx flow of None \<Rightarrow> (bridge, flow)
     | Some segs \<Rightarrow> (sub_pending bridge (ucast (chain_len segs)), flow\<lparr>public_rx := None\<rparr>))"

text \<open>Closing a descriptor takes it out of the kernel's interest list. Releasing a flow frees it: its number leaves
  the heap.\<close>

definition close_backend :: "tcp_shift_bridge \<Rightarrow> int \<Rightarrow> tcp_shift_bridge" where
  "close_backend bridge fd = bridge\<lparr>bridge_loop :=
    (bridge_loop bridge)\<lparr>epoll_interest := (epoll_interest (bridge_loop bridge))(fd := None)\<rparr>\<rparr>"

definition tcp_shift_bridge_flow_release ::
    "tcp_shift_bridge \<Rightarrow> nat \<Rightarrow> tcp_shift_bridge_flow \<Rightarrow> bridge_reply list \<Rightarrow>
     (tcp_shift_bridge \<times> bridge_reply list) option" where
  "tcp_shift_bridge_flow_release bridge fid flow rs =
    (case (if watch_registered (backend_watch flow)
           then (case next_rc rs of None \<Rightarrow> None
                 | Some (ok, rs) \<Rightarrow>
                     (case tcp_shift_lwip_loop_watch_remove ok (bridge_loop bridge) (backend_watch flow) of
                        (_, L, w) \<Rightarrow> Some (bridge\<lparr>bridge_loop := L\<rparr>, rs)))
           else Some (bridge, rs)) of None \<Rightarrow> None
     | Some (bridge, rs) \<Rightarrow>
         let bridge = (if backend_fd flow \<ge> 0 then close_backend bridge (backend_fd flow) else bridge);
             (bridge, flow) = tcp_shift_bridge_release_pending_public bridge flow;
             bridge = tcp_shift_bridge_flow_unlink bridge fid
         in Some (bridge\<lparr>flow_heap := (flow_heap bridge)(fid := None)\<rparr>, rs))"

definition tcp_shift_bridge_flow_abort ::
    "tcp_shift_bridge \<Rightarrow> nat \<Rightarrow> tcp_shift_bridge_flow \<Rightarrow> bridge_reply list \<Rightarrow>
     (tcp_shift_bridge \<times> bridge_reply list) option" where
  "tcp_shift_bridge_flow_abort bridge fid flow rs =
    tcp_shift_bridge_flow_release bridge fid (flow\<lparr>flow_pcb := False\<rparr>) rs"

definition tcp_shift_bridge_mark_backend_read_blocked ::
    "tcp_shift_bridge \<Rightarrow> tcp_shift_bridge_flow \<Rightarrow> tcp_shift_bridge \<times> tcp_shift_bridge_flow" where
  "tcp_shift_bridge_mark_backend_read_blocked bridge flow =
    (if backend_read_blocked flow then (bridge, flow)
     else (bridge\<lparr>backend_read_blocked_events := backend_read_blocked_events bridge + 1\<rparr>,
           flow\<lparr>backend_read_blocked := True\<rparr>))"

definition tcp_shift_bridge_track_public_rx :: "tcp_shift_bridge \<Rightarrow> u8 list list \<Rightarrow> tcp_shift_bridge" where
  "tcp_shift_bridge_track_public_rx bridge p =
    (let bridge = bridge\<lparr>pending_public_bytes := pending_public_bytes bridge + ucast (chain_len p)\<rparr>
     in if pending_public_bytes bridge > peak_pending_public_bytes bridge
        then bridge\<lparr>peak_pending_public_bytes := pending_public_bytes bridge\<rparr> else bridge)"

text \<open>Each of the four socket-option calls succeeds or fails; the last two also yield the size the kernel chose.\<close>

definition tcp_shift_bridge_configure_backend_socket ::
    "tcp_shift_bridge \<Rightarrow> bridge_reply list \<Rightarrow> (int \<times> tcp_shift_bridge \<times> bridge_reply list) option" where
  "tcp_shift_bridge_configure_backend_socket bridge rs = do {
     (ok, rs) \<leftarrow> next_rc rs;
     if \<not> ok then Some (-1, bridge, rs) else do {
     (ok, rs) \<leftarrow> next_rc rs;
     if \<not> ok then Some (-1, bridge, rs) else do {
     (ok, rs) \<leftarrow> next_rc rs;
     if \<not> ok then Some (-1, bridge, rs) else do {
     (actual, rs) \<leftarrow> next_val rs;
     let bridge = (if actual > 0 \<and> actual > uint (backend_socket_sndbuf_bytes bridge)
       then bridge\<lparr>backend_socket_sndbuf_bytes := of_int actual\<rparr> else bridge);
     (ok, rs) \<leftarrow> next_rc rs;
     if \<not> ok then Some (-1, bridge, rs) else do {
     (actual, rs) \<leftarrow> next_val rs;
     let bridge = (if actual > 0 \<and> actual > uint (backend_socket_rcvbuf_bytes bridge)
       then bridge\<lparr>backend_socket_rcvbuf_bytes := of_int actual\<rparr> else bridge);
     Some (0, bridge, rs) }}}}}"

definition tcp_shift_bridge_backend_events :: "tcp_shift_bridge_flow \<Rightarrow> u32" where
  "tcp_shift_bridge_backend_events flow =
    (if backend_connecting flow then EPOLLOUT
     else
       let events = (if \<not> backend_eof flow \<and> \<not> backend_read_blocked flow then EPOLLIN OR EPOLLRDHUP else 0)
       in if public_rx flow \<noteq> None then events OR EPOLLOUT else events)"

definition tcp_shift_bridge_sync_backend_watch ::
    "tcp_shift_bridge \<Rightarrow> nat \<Rightarrow> tcp_shift_bridge_flow \<Rightarrow> bool \<Rightarrow> int \<times> tcp_shift_bridge \<times> tcp_shift_bridge_flow" where
  "tcp_shift_bridge_sync_backend_watch bridge fid flow ctl_ok =
    (let events = tcp_shift_bridge_backend_events flow;
         w = backend_watch flow;
         L = bridge_loop bridge;
         (r, L, w) =
           (if events = 0
            then (if watch_registered w then tcp_shift_lwip_loop_watch_remove ctl_ok L w else (0, L, w))
            else if \<not> watch_registered w
            then tcp_shift_lwip_loop_watch_add ctl_ok L w (backend_fd flow) events (Some (Client_Ready fid))
            else tcp_shift_lwip_loop_watch_mod ctl_ok L w events)
     in (r, bridge\<lparr>bridge_loop := L\<rparr>, flow\<lparr>backend_watch := w\<rparr>))"

section \<open>The pumps\<close>

text \<open>The result of a step of a flow: its code, the bridge, the flow and the replies not used.\<close>

type_synonym flow_result = "(int \<times> tcp_shift_bridge \<times> tcp_shift_bridge_flow \<times> bridge_reply list) option"

definition write_iov :: "u8 list list \<Rightarrow> u8 list list" where
  "write_iov segs = take TCP_SHIFT_BRIDGE_BACKEND_WRITE_IOV (filter (\<lambda>q. q \<noteq> []) segs)"

text \<open>A write that took \<open>written\<close> bytes; lwIP's window and the chain get the count as a \<^verbatim>\<open>u16_t\<close>.\<close>

definition flush_written :: "tcp_shift_bridge \<Rightarrow> tcp_shift_bridge_flow \<Rightarrow> u8 list list \<Rightarrow> nat \<Rightarrow> tcp_shift_bridge \<times> tcp_shift_bridge_flow" where
  "flush_written bridge flow segs written =
    (let bridge = bridge\<lparr>public_to_backend_bytes := public_to_backend_bytes bridge + word_of_nat written\<rparr>;
         bridge = sub_pending bridge (word_of_nat written);
         count = unat (word_of_nat written :: u16)
     in (bridge, flow\<lparr>to_backend := to_backend flow @ take written (concat (write_iov segs)),
                      recved := recved flow + count, public_rx := pbuf_free_header segs count\<rparr>))"

lemma next_sys_length: "next_sys rs = Some (r, rs') \<Longrightarrow> length rs' < length rs"
  by (induction rs rule: next_sys.induct) auto

function tcp_shift_bridge_flush_public_to_backend ::
    "tcp_shift_bridge \<Rightarrow> tcp_shift_bridge_flow \<Rightarrow> bridge_reply list \<Rightarrow> flow_result" where
  "tcp_shift_bridge_flush_public_to_backend bridge flow rs =
    (if \<not> backend_connected flow then Some (0, bridge, flow, rs)
     else case public_rx flow of None \<Rightarrow> Some (0, bridge, flow, rs)
     | Some segs \<Rightarrow>
         if write_iov segs = []
         then (case tcp_shift_bridge_release_pending_public bridge flow of (bridge, flow) \<Rightarrow> Some (0, bridge, flow, rs))
         else
           (case next_sys rs of None \<Rightarrow> None
            | Some (reply, rs) \<Rightarrow>
                (case reply of
                   Would_Block \<Rightarrow> Some (0, bridge\<lparr>backend_write_blocked_events := backend_write_blocked_events bridge + 1\<rparr>, flow, rs)
                 | Bytes written \<Rightarrow>
                     if written > length (concat (write_iov segs)) then None
                     else if written = 0 then Some (-1, bridge, flow, rs)
                     else (case flush_written bridge flow segs written of (bridge, flow) \<Rightarrow>
                             tcp_shift_bridge_flush_public_to_backend bridge flow rs)
                 | _ \<Rightarrow> Some (-1, bridge, flow, rs))))"
  by pat_completeness auto
termination by (relation "measure (\<lambda>(_, _, rs). length rs)") (auto dest: next_sys_length)

declare tcp_shift_bridge_flush_public_to_backend.simps [simp del]

text \<open>Reading away the bytes that were peeked; \<open>n\<close> of them are left.\<close>

function tcp_shift_bridge_consume_backend ::
    "tcp_shift_bridge_flow \<Rightarrow> nat \<Rightarrow> bridge_reply list \<Rightarrow> (int \<times> tcp_shift_bridge_flow \<times> bridge_reply list) option" where
  "tcp_shift_bridge_consume_backend flow n rs =
    (if n = 0 then Some (0, flow, rs)
     else
       case next_sys rs of None \<Rightarrow> None
       | Some (reply, rs) \<Rightarrow>
           (case reply of
              Bytes k \<Rightarrow>
                if k > n \<or> k > length (stream flow) then None
                else if k = 0 then Some (-1, flow, rs)
                else tcp_shift_bridge_consume_backend
                       (flow\<lparr>consumed := consumed flow @ take k (stream flow), stream := drop k (stream flow)\<rparr>) (n - k) rs
            | _ \<Rightarrow> Some (-1, flow, rs)))"
  by pat_completeness auto
termination by (relation "measure (\<lambda>(_, _, rs). length rs)") (auto dest: next_sys_length)

declare tcp_shift_bridge_consume_backend.simps [simp del]

text \<open>The loop of \<^verbatim>\<open>tcp_shift_bridge_pump_backend_to_public\<close>; the space in lwIP's buffer is read as a \<^verbatim>\<open>u16_t\<close>.\<close>

fun pump_loop :: "nat \<Rightarrow> tcp_shift_bridge \<Rightarrow> tcp_shift_bridge_flow \<Rightarrow> bridge_reply list \<Rightarrow> flow_result" where
  "pump_loop 0 bridge flow rs = Some (0, bridge, flow, rs)"
| "pump_loop (Suc budget) bridge flow rs =
    (case next_sndbuf rs of None \<Rightarrow> None
     | Some (space, rs) \<Rightarrow>
         let sndbuf = ucast space :: u16
         in if sndbuf = 0
            then (case tcp_shift_bridge_mark_backend_read_blocked bridge flow of (bridge, flow) \<Rightarrow> Some (0, bridge, flow, rs))
            else
              let wanted = (if TCP_SHIFT_BRIDGE_BACKEND_READ_CHUNK > unat sndbuf then unat sndbuf
                            else TCP_SHIFT_BRIDGE_BACKEND_READ_CHUNK)
              in (case next_sys rs of None \<Rightarrow> None
                  | Some (reply, rs) \<Rightarrow>
                      (case reply of
                         Would_Block \<Rightarrow> Some (0, bridge, flow, rs)
                       | Bytes available \<Rightarrow>
                           if available > wanted \<or> available > length (stream flow) \<or> available = 0 \<and> stream flow \<noteq> [] then None
                           else if available = 0 then Some (0, bridge, flow\<lparr>backend_eof := True\<rparr>, rs)
                           else
                             (case next_err rs of None \<Rightarrow> None
                              | Some (err, rs) \<Rightarrow>
                                  if err = ERR_MEM
                                  then (case tcp_shift_bridge_mark_backend_read_blocked bridge flow of
                                          (bridge, flow) \<Rightarrow> Some (0, bridge, flow, rs))
                                  else if err \<noteq> ERR_OK then Some (-1, bridge, flow, rs)
                                  else
                                    let flow = flow\<lparr>to_public := to_public flow @ take available (stream flow)\<rparr>
                                    in (case tcp_shift_bridge_consume_backend flow available rs of None \<Rightarrow> None
                                        | Some (r, flow, rs) \<Rightarrow>
                                            if r < 0 then Some (-1, bridge, flow, rs)
                                            else pump_loop budget
                                                   (bridge\<lparr>backend_to_public_bytes :=
                                                      backend_to_public_bytes bridge + word_of_nat available\<rparr>) flow rs))
                       | _ \<Rightarrow> Some (-1, bridge, flow, rs))))"

definition tcp_shift_bridge_pump_backend_to_public ::
    "tcp_shift_bridge \<Rightarrow> tcp_shift_bridge_flow \<Rightarrow> bridge_reply list \<Rightarrow> flow_result" where
  "tcp_shift_bridge_pump_backend_to_public bridge flow rs =
    (if \<not> backend_connected flow \<or> backend_eof flow \<or> \<not> flow_pcb flow then Some (0, bridge, flow, rs)
     else pump_loop TCP_SHIFT_BRIDGE_BACKEND_READ_BUDGET bridge flow rs)"

section \<open>Half-close and completion\<close>

text \<open>The reply to \<^verbatim>\<open>shutdown\<close> is whether it succeeded or failed with \<^verbatim>\<open>ENOTCONN\<close>.\<close>

definition tcp_shift_bridge_shutdown_backend_write :: "tcp_shift_bridge_flow \<Rightarrow> bridge_reply list \<Rightarrow>
    (int \<times> tcp_shift_bridge_flow \<times> bridge_reply list) option" where
  "tcp_shift_bridge_shutdown_backend_write flow rs =
    (if \<not> public_eof flow \<or> public_rx flow \<noteq> None \<or> \<not> backend_connected flow \<or> backend_write_shutdown flow
     then Some (0, flow, rs)
     else case next_rc rs of None \<Rightarrow> None
       | Some (ok, rs) \<Rightarrow> if \<not> ok then Some (-1, flow, rs) else Some (0, flow\<lparr>backend_write_shutdown := True\<rparr>, rs))"

definition tcp_shift_bridge_shutdown_public_write :: "tcp_shift_bridge_flow \<Rightarrow> bridge_reply list \<Rightarrow>
    (int \<times> tcp_shift_bridge_flow \<times> bridge_reply list) option" where
  "tcp_shift_bridge_shutdown_public_write flow rs =
    (if \<not> backend_eof flow \<or> public_write_shutdown flow \<or> \<not> flow_pcb flow then Some (0, flow, rs)
     else case next_err rs of None \<Rightarrow> None
       | Some (err, rs) \<Rightarrow>
           if err = ERR_MEM then Some (0, flow, rs)
           else if err \<noteq> ERR_OK then Some (-1, flow, rs)
           else Some (0, flow\<lparr>public_write_shutdown := True\<rparr>, rs))"

text \<open>From here on the flow may be freed: then the result has no flow.\<close>

type_synonym end_result = "(int \<times> tcp_shift_bridge \<times> tcp_shift_bridge_flow option \<times> bridge_reply list) option"

definition flow_finished :: "tcp_shift_bridge_flow \<Rightarrow> bool" where
  "flow_finished flow \<longleftrightarrow> \<not> (\<not> public_eof flow \<or> \<not> backend_eof flow \<or> public_rx flow \<noteq> None \<or>
    \<not> backend_write_shutdown flow \<or> \<not> public_write_shutdown flow \<or> \<not> flow_pcb flow)"

definition tcp_shift_bridge_finish_if_done ::
    "tcp_shift_bridge \<Rightarrow> nat \<Rightarrow> tcp_shift_bridge_flow \<Rightarrow> bridge_reply list \<Rightarrow> end_result" where
  "tcp_shift_bridge_finish_if_done bridge fid flow rs = do {
     (r, flow, rs) \<leftarrow> tcp_shift_bridge_shutdown_backend_write flow rs;
     if r < 0 then Some (-1, bridge, Some flow, rs) else do {
     (r, flow, rs) \<leftarrow> tcp_shift_bridge_shutdown_public_write flow rs;
     if r < 0 then Some (-1, bridge, Some flow, rs)
     else if \<not> flow_finished flow then Some (0, bridge, Some flow, rs) else do {
     (err, rs) \<leftarrow> next_err rs;
     if err \<noteq> ERR_OK then Some (0, bridge, Some flow, rs) else do {
     (bridge, rs) \<leftarrow> tcp_shift_bridge_flow_release bridge fid (flow\<lparr>flow_pcb := False\<rparr>) rs;
     Some (1, bridge, None, rs) }}}}"

definition tcp_shift_bridge_progress ::
    "tcp_shift_bridge \<Rightarrow> nat \<Rightarrow> tcp_shift_bridge_flow \<Rightarrow> bridge_reply list \<Rightarrow> end_result" where
  "tcp_shift_bridge_progress bridge fid flow rs = do {
     (r, bridge, flow, rs) \<leftarrow> tcp_shift_bridge_flush_public_to_backend bridge flow rs;
     if r < 0 then Some (-1, bridge, Some flow, rs) else do {
     (r, bridge, flow, rs) \<leftarrow> tcp_shift_bridge_pump_backend_to_public bridge flow rs;
     if r < 0 then Some (-1, bridge, Some flow, rs) else do {
     (finished, bridge, flow, rs) \<leftarrow> tcp_shift_bridge_finish_if_done bridge fid flow rs;
     if finished \<noteq> 0 then Some (finished, bridge, flow, rs) else do {
     flow \<leftarrow> flow;
     (ok, rs) \<leftarrow> next_rc rs;
     let (r, bridge, flow) = tcp_shift_bridge_sync_backend_watch bridge fid flow ok;
     Some (if r < 0 then -1 else 0, bridge, Some flow, rs) }}}}"

section \<open>Callbacks\<close>

text \<open>After progress a handler keeps the flow, or aborts it when progress failed; a freed flow stays freed.\<close>

definition keep_or_abort ::
    "nat \<Rightarrow> int \<times> tcp_shift_bridge \<times> tcp_shift_bridge_flow option \<times> bridge_reply list \<Rightarrow>
     (bool \<times> tcp_shift_bridge \<times> bridge_reply list) option" where
  "keep_or_abort fid result =
    (case result of
       (r, bridge, None, rs) \<Rightarrow> Some (True, bridge, rs)
     | (r, bridge, Some flow, rs) \<Rightarrow>
         if r < 0
         then map_option (\<lambda>(bridge, rs). (False, bridge, rs))
                (tcp_shift_bridge_flow_abort (bridge\<lparr>backend_failures := backend_failures bridge + 1\<rparr>) fid flow rs)
         else Some (True, bridge\<lparr>flow_heap := (flow_heap bridge)(fid \<mapsto> flow)\<rparr>, rs))"

definition tcp_shift_bridge_complete_backend_connect ::
    "tcp_shift_bridge \<Rightarrow> tcp_shift_bridge_flow \<Rightarrow> bridge_reply list \<Rightarrow> flow_result" where
  "tcp_shift_bridge_complete_backend_connect bridge flow rs = do {
     (ok, rs) \<leftarrow> next_rc rs;
     if \<not> ok then Some (-1, bridge, flow, rs) else do {
     (sockerr, rs) \<leftarrow> next_val rs;
     if sockerr \<noteq> 0 then Some (-1, bridge, flow, rs)
     else Some (0, bridge\<lparr>backend_connects := backend_connects bridge + 1\<rparr>,
                flow\<lparr>backend_connecting := False, backend_connected := True\<rparr>, rs) }}"

text \<open>The reply to the check of \<^verbatim>\<open>SO_ERROR\<close> on an established connection: whether the call and the socket are in order.\<close>

definition tcp_shift_bridge_backend_ready ::
    "tcp_shift_bridge \<Rightarrow> nat \<Rightarrow> u32 \<Rightarrow> bridge_reply list \<Rightarrow> (int \<times> tcp_shift_bridge \<times> bridge_reply list) option" where
  "tcp_shift_bridge_backend_ready bridge fid events rs = do {
     flow \<leftarrow> flow_heap bridge fid;
     (failed, bridge, flow, rs) \<leftarrow>
       (if backend_connecting flow
        then map_option (\<lambda>(r, b, f, rs). (r < 0, b, f, rs)) (tcp_shift_bridge_complete_backend_connect bridge flow rs)
        else if events AND EPOLLERR \<noteq> 0
        then map_option (\<lambda>(ok, rs). (\<not> ok, bridge, flow, rs)) (next_rc rs)
        else Some (False, bridge, flow, rs));
     if failed
     then map_option (\<lambda>(bridge, rs). (0, bridge, rs))
            (tcp_shift_bridge_flow_abort (bridge\<lparr>backend_failures := backend_failures bridge + 1\<rparr>) fid flow rs)
     else if events AND (EPOLLIN OR EPOLLOUT OR EPOLLRDHUP OR EPOLLHUP) \<noteq> 0
     then do {
       result \<leftarrow> tcp_shift_bridge_progress bridge fid flow rs;
       (_, bridge, rs) \<leftarrow> keep_or_abort fid result;
       Some (0, bridge, rs) }
     else Some (0, bridge\<lparr>flow_heap := (flow_heap bridge)(fid \<mapsto> flow)\<rparr>, rs) }"

text \<open>Progress in an lwIP callback.\<close>

definition public_progress ::
    "tcp_shift_bridge \<Rightarrow> nat \<Rightarrow> tcp_shift_bridge_flow \<Rightarrow> bridge_reply list \<Rightarrow>
     (err_t \<times> tcp_shift_bridge \<times> bridge_reply list) option" where
  "public_progress bridge fid flow rs = do {
     result \<leftarrow> tcp_shift_bridge_progress bridge fid flow rs;
     (kept, bridge, rs) \<leftarrow> keep_or_abort fid result;
     Some (if kept then ERR_OK else ERR_ABRT, bridge, rs) }"

definition tcp_shift_bridge_public_recv ::
    "tcp_shift_bridge \<Rightarrow> nat option \<Rightarrow> u8 list list option \<Rightarrow> err_t \<Rightarrow> bridge_reply list \<Rightarrow>
     (err_t \<times> tcp_shift_bridge \<times> bridge_reply list) option" where
  "tcp_shift_bridge_public_recv bridge arg p err rs =
    (case arg of None \<Rightarrow> Some (ERR_VAL, bridge, rs)
     | Some fid \<Rightarrow> do {
         flow \<leftarrow> flow_heap bridge fid;
         if err \<noteq> ERR_OK
         then map_option (\<lambda>(bridge, rs). (ERR_ABRT, bridge, rs))
                (tcp_shift_bridge_flow_abort (bridge\<lparr>public_errors := public_errors bridge + 1\<rparr>) fid flow rs)
         else
           let (bridge, flow) =
             (case p of None \<Rightarrow> (bridge, flow\<lparr>public_eof := True\<rparr>)
              | Some q \<Rightarrow> (tcp_shift_bridge_track_public_rx bridge q,
                          flow\<lparr>public_rx := Some (case public_rx flow of None \<Rightarrow> q | Some segs \<Rightarrow> segs @ q),
                               from_public := from_public flow @ concat q\<rparr>))
           in public_progress bridge fid flow rs })"

definition tcp_shift_bridge_public_sent ::
    "tcp_shift_bridge \<Rightarrow> nat option \<Rightarrow> bridge_reply list \<Rightarrow> (err_t \<times> tcp_shift_bridge \<times> bridge_reply list) option" where
  "tcp_shift_bridge_public_sent bridge arg rs =
    (case arg of None \<Rightarrow> Some (ERR_OK, bridge, rs)
     | Some fid \<Rightarrow> do {
         flow \<leftarrow> flow_heap bridge fid;
         public_progress bridge fid (flow\<lparr>backend_read_blocked := False\<rparr>) rs })"

definition tcp_shift_bridge_public_poll ::
    "tcp_shift_bridge \<Rightarrow> nat option \<Rightarrow> bridge_reply list \<Rightarrow> (err_t \<times> tcp_shift_bridge \<times> bridge_reply list) option" where
  "tcp_shift_bridge_public_poll bridge arg rs =
    (case arg of None \<Rightarrow> Some (ERR_OK, bridge, rs)
     | Some fid \<Rightarrow> do {
         flow \<leftarrow> flow_heap bridge fid;
         public_progress bridge fid (flow\<lparr>backend_read_blocked := False\<rparr>) rs })"

definition tcp_shift_bridge_public_error ::
    "tcp_shift_bridge \<Rightarrow> nat option \<Rightarrow> bridge_reply list \<Rightarrow> (tcp_shift_bridge \<times> bridge_reply list) option" where
  "tcp_shift_bridge_public_error bridge arg rs =
    (case arg of None \<Rightarrow> Some (bridge, rs)
     | Some fid \<Rightarrow> do {
         flow \<leftarrow> flow_heap bridge fid;
         tcp_shift_bridge_flow_release (bridge\<lparr>public_errors := public_errors bridge + 1\<rparr>) fid
           (flow\<lparr>flow_pcb := False\<rparr>) rs })"

text \<open>A new flow: \<open>fid\<close> is the number of its allocation, \<open>data\<close> what the backend will send. \<^verbatim>\<open>connect\<close> answers
  with 0, with 1 for \<^verbatim>\<open>EINPROGRESS\<close>, or with another number.\<close>

definition flow_new :: "int \<Rightarrow> u8 list \<Rightarrow> tcp_shift_bridge_flow" where
  "flow_new fd data =
    \<lparr>flow_pcb = True, backend_fd = fd, backend_watch = watch_zero, public_rx = None, backend_connecting = False,
     backend_connected = False, backend_eof = False, public_eof = False, backend_write_shutdown = False,
     public_write_shutdown = False, backend_read_blocked = False, from_public = [], to_backend = [], recved = 0,
     to_public = [], consumed = [], stream = data\<rparr>"

text \<open>Linking the connected or connecting flow, its callbacks and its watch.\<close>

definition accept_flow ::
    "tcp_shift_bridge \<Rightarrow> nat \<Rightarrow> tcp_shift_bridge_flow \<Rightarrow> bridge_reply list \<Rightarrow>
     (err_t \<times> tcp_shift_bridge \<times> bridge_reply list) option" where
  "accept_flow bridge fid flow rs = do {
     let bridge = bridge\<lparr>flows := fid # flows bridge, active_flows := active_flows bridge + 1\<rparr>;
     let bridge = (if active_flows bridge > peak_active_flows bridge
                   then bridge\<lparr>peak_active_flows := active_flows bridge\<rparr> else bridge);
     (ok, rs) \<leftarrow> next_rc rs;
     let (r, L, w) = tcp_shift_lwip_loop_watch_add ok (bridge_loop bridge) (backend_watch flow) (backend_fd flow)
           (tcp_shift_bridge_backend_events flow) (Some (Client_Ready fid));
     let bridge = bridge\<lparr>bridge_loop := L\<rparr>;
     if r < 0
     then map_option (\<lambda>(bridge, rs). (ERR_ABRT, bridge, rs))
            (tcp_shift_bridge_flow_abort (bridge\<lparr>backend_failures := backend_failures bridge + 1\<rparr>) fid flow rs)
     else Some (ERR_OK, bridge\<lparr>flow_heap := (flow_heap bridge)(fid \<mapsto> flow\<lparr>backend_watch := w\<rparr>)\<rparr>, rs) }"

definition tcp_shift_bridge_accept ::
    "tcp_shift_bridge \<Rightarrow> bool \<Rightarrow> err_t \<Rightarrow> nat \<Rightarrow> u8 list \<Rightarrow> bridge_reply list \<Rightarrow>
     (err_t \<times> tcp_shift_bridge \<times> bridge_reply list) option" where
  "tcp_shift_bridge_accept bridge newpcb err fid data rs =
    (if \<not> newpcb \<or> err \<noteq> ERR_OK then Some (ERR_VAL, bridge, rs)
     else do {
       let bridge = bridge\<lparr>accepts := accepts bridge + 1\<rparr>;
       (alloc_ok, rs) \<leftarrow> next_rc rs;
       if \<not> alloc_ok then Some (ERR_ABRT, bridge, rs) else do {
       (fd, rs) \<leftarrow> next_val rs;
       if fd < 0 then Some (ERR_ABRT, bridge\<lparr>backend_failures := backend_failures bridge + 1\<rparr>, rs) else do {
       (r, bridge, rs) \<leftarrow> tcp_shift_bridge_configure_backend_socket bridge rs;
       if r < 0 then Some (ERR_ABRT, bridge\<lparr>backend_failures := backend_failures bridge + 1\<rparr>, rs) else do {
       (connect_result, rs) \<leftarrow> next_val rs;
       if connect_result = 0
       then accept_flow (bridge\<lparr>backend_connects := backend_connects bridge + 1\<rparr>) fid
              ((flow_new fd data)\<lparr>backend_connected := True\<rparr>) rs
       else if connect_result = 1
       then accept_flow bridge fid ((flow_new fd data)\<lparr>backend_connecting := True\<rparr>) rs
       else Some (ERR_ABRT, bridge\<lparr>backend_failures := backend_failures bridge + 1\<rparr>, rs) }}}})"

section \<open>Starting and stopping\<close>

datatype ip_type = IPADDR_TYPE_V4 | IPADDR_TYPE_V6

text \<open>The bridge as \<^verbatim>\<open>memset\<close> leaves it, with its loop and ports. The answers of lwIP are, in order, whether the block
  of the new connection was allocated, the result of the bind, whether there is a listener and its error.\<close>

definition bridge_init :: "event_loop \<Rightarrow> u16 \<Rightarrow> u16 \<Rightarrow> tcp_shift_bridge" where
  "bridge_init loop pport bport =
    \<lparr>bridge_loop = loop, loop_attached = True, listener = False, flows = [], public_port = pport, backend_port = bport,
     accepts = 0, backend_connects = 0, public_to_backend_bytes = 0, backend_to_public_bytes = 0, active_flows = 0,
     peak_active_flows = 0, pending_public_bytes = 0, peak_pending_public_bytes = 0, backend_write_blocked_events = 0,
     backend_read_blocked_events = 0, backend_failures = 0, public_errors = 0, backend_socket_sndbuf_bytes = 0,
     backend_socket_rcvbuf_bytes = 0, flow_heap = Map.empty\<rparr>"

definition tcp_shift_bridge_start_type ::
    "tcp_shift_bridge \<Rightarrow> event_loop \<Rightarrow> u16 \<Rightarrow> u16 \<Rightarrow> ip_type \<Rightarrow> bridge_reply list \<Rightarrow>
     (int \<times> tcp_shift_bridge \<times> bridge_reply list) option" where
  "tcp_shift_bridge_start_type bridge loop pport bport type rs =
    (if epoll_fd loop < 0 \<or> pport = 0 \<or> bport = 0 then Some (-1, bridge, rs)
     else do {
       let bridge = bridge_init loop pport bport;
       (new_ok, rs) \<leftarrow> next_rc rs;
       if \<not> new_ok then Some (-1, bridge, rs) else do {
       (err, rs) \<leftarrow> next_err rs;
       if err \<noteq> ERR_OK then Some (-1, bridge, rs) else do {
       (listen_ok, rs) \<leftarrow> next_rc rs;
       (err, rs) \<leftarrow> next_err rs;
       if \<not> listen_ok \<or> err \<noteq> ERR_OK then Some (-1, bridge, rs)
       else Some (0, bridge\<lparr>listener := True\<rparr>, rs) }}})"

definition tcp_shift_bridge_start_ipv4 ::
    "tcp_shift_bridge \<Rightarrow> event_loop \<Rightarrow> u16 \<Rightarrow> u16 \<Rightarrow> bridge_reply list \<Rightarrow>
     (int \<times> tcp_shift_bridge \<times> bridge_reply list) option" where
  "tcp_shift_bridge_start_ipv4 bridge loop pport bport rs =
    tcp_shift_bridge_start_type bridge loop pport bport IPADDR_TYPE_V4 rs"

definition tcp_shift_bridge_start_ipv6 ::
    "tcp_shift_bridge \<Rightarrow> event_loop \<Rightarrow> u16 \<Rightarrow> u16 \<Rightarrow> bridge_reply list \<Rightarrow>
     (int \<times> tcp_shift_bridge \<times> bridge_reply list) option" where
  "tcp_shift_bridge_start_ipv6 bridge loop pport bport rs =
    tcp_shift_bridge_start_type bridge loop pport bport IPADDR_TYPE_V6 rs"

lemma release_flows:
  "tcp_shift_bridge_flow_release bridge fid flow rs = Some (bridge', rs') \<Longrightarrow> flows bridge' = remove1 fid (flows bridge)"
  by (auto simp: tcp_shift_bridge_flow_release_def tcp_shift_bridge_release_pending_public_def sub_pending_def
      tcp_shift_bridge_flow_unlink_def close_backend_def Let_def remove1_idem split: if_splits option.splits prod.splits)

lemma abort_flows:
  "tcp_shift_bridge_flow_abort bridge fid flow rs = Some (bridge', rs') \<Longrightarrow> flows bridge' = remove1 fid (flows bridge)"
  unfolding tcp_shift_bridge_flow_abort_def by (rule release_flows)

text \<open>The loop of \<^verbatim>\<open>tcp_shift_bridge_stop\<close> aborts the first flow until none is left.\<close>

function abort_all_flows :: "tcp_shift_bridge \<Rightarrow> bridge_reply list \<Rightarrow> (tcp_shift_bridge \<times> bridge_reply list) option" where
  "abort_all_flows bridge rs =
    (case flows bridge of [] \<Rightarrow> Some (bridge, rs)
     | fid # _ \<Rightarrow>
         (case flow_heap bridge fid of None \<Rightarrow> None
          | Some flow \<Rightarrow>
              (case tcp_shift_bridge_flow_abort bridge fid flow rs of None \<Rightarrow> None
               | Some (bridge, rs) \<Rightarrow> abort_all_flows bridge rs)))"
  by pat_completeness auto
termination by (relation "measure (\<lambda>(bridge, _). length (flows bridge))") (auto dest: abort_flows)

declare abort_all_flows.simps [simp del]

definition tcp_shift_bridge_stop :: "tcp_shift_bridge \<Rightarrow> bridge_reply list \<Rightarrow> (tcp_shift_bridge \<times> bridge_reply list) option" where
  "tcp_shift_bridge_stop bridge rs = do {
     rs \<leftarrow> (if listener bridge then map_option snd (next_err rs) else Some rs);
     (bridge, rs) \<leftarrow> abort_all_flows (bridge\<lparr>listener := False\<rparr>) rs;
     Some (bridge\<lparr>loop_attached := False\<rparr>, rs) }"

end
