(* ===== verification/Bridge_Flow.thy ===== *)
theory Bridge_Flow
  imports Bridge
begin

text \<open>
  What the bridge of theory \<open>Bridge\<close> guarantees: no byte is lost, repeated or reordered in either direction, a
  direction is shut down only after everything before the end of its stream has been handed on, the account of the
  bytes that wait is exact, and stopping releases everything. The runs are those of a bridge that lwIP and the event loop
  call in any order.
\<close>

section \<open>Chains of buffers\<close>

lemma unat_word_of_nat_small: "n < 2 ^ LENGTH('a) \<Longrightarrow> unat (word_of_nat n :: 'a::len word) = n"
  by (simp add: unsigned_of_nat take_bit_nat_eq_self)

lemma concat_filter_nonempty: "concat (filter (\<lambda>q. q \<noteq> []) segs) = concat segs"
  by (induction segs) auto

lemma write_iov_prefix:
  assumes "written \<le> length (concat (write_iov segs))"
  shows "take written (concat (write_iov segs)) = take written (concat segs)" "written \<le> length (concat segs)"
proof -
  let ?k = TCP_SHIFT_BRIDGE_BACKEND_WRITE_IOV and ?xs = "filter (\<lambda>q. q \<noteq> []) segs"
  have "concat segs = concat (take ?k ?xs) @ concat (drop ?k ?xs)"
    by (metis append_take_drop_id concat_append concat_filter_nonempty)
  then have split: "concat segs = concat (write_iov segs) @ concat (drop ?k ?xs)" by (simp add: write_iov_def)
  show "take written (concat (write_iov segs)) = take written (concat segs)" using assms by (subst split) simp
  show "written \<le> length (concat segs)" using assms by (subst split) simp
qed

lemma write_iov_Nil: "write_iov segs = [] \<longleftrightarrow> concat segs = []"
  by (auto simp: write_iov_def TCP_SHIFT_BRIDGE_BACKEND_WRITE_IOV_def filter_empty_conv)

lemma pbuf_free_header_bytes:
  "n \<le> length (concat segs) \<Longrightarrow>
   (case pbuf_free_header segs n of None \<Rightarrow> [] | Some ss \<Rightarrow> concat ss) = drop n (concat segs)"
  by (induction segs n rule: pbuf_free_header.induct) auto

section \<open>What a flow keeps\<close>

text \<open>The window lwIP advertises bounds what can wait in a flow.\<close>

definition TCP_WND :: nat where "TCP_WND = 32768"

definition pending :: "tcp_shift_bridge_flow \<Rightarrow> nat" where
  "pending flow = length (rx_bytes_of flow)"

definition public_side_ok :: "tcp_shift_bridge_flow \<Rightarrow> bool" where
  "public_side_ok flow \<longleftrightarrow> from_public flow = to_backend flow @ rx_bytes_of flow \<and> recved flow = length (to_backend flow) \<and>
     pending flow \<le> TCP_WND \<and> (backend_write_shutdown flow \<longrightarrow> public_eof flow \<and> public_rx flow = None)"

definition backend_side_ok :: "u8 list \<Rightarrow> tcp_shift_bridge_flow \<Rightarrow> bool" where
  "backend_side_ok data flow \<longleftrightarrow> to_public flow = consumed flow \<and> consumed flow @ stream flow = data \<and>
     (backend_eof flow \<longrightarrow> stream flow = []) \<and> (public_write_shutdown flow \<longrightarrow> backend_eof flow)"

definition flow_holds :: "u8 list \<Rightarrow> tcp_shift_bridge_flow \<Rightarrow> bool" where
  "flow_holds data flow \<longleftrightarrow> public_side_ok flow \<and> backend_side_ok data flow"

text \<open>A step of a flow leaves the list and the heap alone and takes from the account what leaves the flow.\<close>

definition same_flows :: "tcp_shift_bridge \<Rightarrow> tcp_shift_bridge \<Rightarrow> bool" where
  "same_flows b b' \<longleftrightarrow> flows b' = flows b \<and> active_flows b' = active_flows b \<and> flow_heap b' = flow_heap b"

definition account_step :: "tcp_shift_bridge \<Rightarrow> tcp_shift_bridge_flow \<Rightarrow> tcp_shift_bridge \<Rightarrow> tcp_shift_bridge_flow \<Rightarrow> bool" where
  "account_step b f b' f' \<longleftrightarrow> same_flows b b' \<and> 
     (pending f \<le> unat (pending_public_bytes b) \<longrightarrow>
        pending f' \<le> unat (pending_public_bytes b') \<and>
        unat (pending_public_bytes b') + pending f = unat (pending_public_bytes b) + pending f')"

lemmas flow_ok_defs = flow_holds_def public_side_ok_def backend_side_ok_def

lemma account_step_refl: "account_step b f b f"
  by (simp add: account_step_def same_flows_def)

lemma account_step_trans: "account_step b f b' f' \<Longrightarrow> account_step b' f' b'' f'' \<Longrightarrow> account_step b f b'' f''"
  by (auto simp: account_step_def same_flows_def)

lemma account_step_same:
  "same_flows b b' \<Longrightarrow> pending_public_bytes b' = pending_public_bytes b \<Longrightarrow> pending f' = pending f \<Longrightarrow> account_step b f b' f'"
  by (simp add: account_step_def)

lemma sub_pending_account:
  assumes "n \<le> unat (pending_public_bytes b)" "n < 2 ^ 64"
  shows "unat (pending_public_bytes (sub_pending b (word_of_nat n))) = unat (pending_public_bytes b) - n"
proof -
  have n: "unat (word_of_nat n :: u64) = n" using assms(2) by (simp add: unat_word_of_nat_small)
  then have "(word_of_nat n :: u64) \<le> pending_public_bytes b" using assms(1) by (simp add: word_le_nat_alt)
  then show ?thesis using n by (simp add: sub_pending_def unat_sub)
qed

lemma sub_pending_same_flows: "same_flows b (sub_pending b n)"
  by (simp add: same_flows_def sub_pending_def)

subsection \<open>The pump towards the backend\<close>

lemma flush_written_step:
  assumes rx: "public_rx f = Some segs" and w: "written \<le> length (concat (write_iov segs))" and ok: "public_side_ok f"
    and r: "flush_written b f segs written = (b', f')"
  shows "public_side_ok f'" "account_step b f b' f'" "backend_side_ok data f' = backend_side_ok data f"
    "public_eof f' = public_eof f"
proof -
  have le: "written \<le> length (concat segs)" using write_iov_prefix(2) [OF w] .
  have len: "length (concat segs) \<le> TCP_WND" using ok rx by (simp add: public_side_ok_def pending_def rx_bytes_of_def)
  then have small: "written < 2 ^ 16" using le by (simp add: TCP_WND_def)
  then have c: "unat (word_of_nat written :: u16) = written" by (simp add: unat_word_of_nat_small)
  let ?rx = "pbuf_free_header segs written"
  have bytes: "(case ?rx of None \<Rightarrow> [] | Some ss \<Rightarrow> concat ss) = drop written (concat segs)"
    by (rule pbuf_free_header_bytes [OF le])
  have f': "f' = f\<lparr>to_backend := to_backend f @ take written (concat segs), recved := recved f + written, public_rx := ?rx\<rparr>"
    using r c write_iov_prefix(1) [OF w] by (simp add: flush_written_def Let_def)
  show "public_eof f' = public_eof f" "backend_side_ok data f' = backend_side_ok data f" 
    by (simp_all add: f' backend_side_ok_def)
  have rx': "rx_bytes_of f' = drop written (concat segs)" using bytes by (simp add: f' rx_bytes_of_def)
  show "public_side_ok f'" using ok rx le len by (auto simp: public_side_ok_def pending_def rx_bytes_of_def f' bytes)
  define b1 where "b1 = b\<lparr>public_to_backend_bytes := public_to_backend_bytes b + word_of_nat written\<rparr>"
  have b': "b' = sub_pending b1 (word_of_nat written)" using r by (simp add: flush_written_def Let_def b1_def)
  have "same_flows b b'" by (simp add: b' b1_def same_flows_def sub_pending_def)
  moreover have "unat (pending_public_bytes b') = unat (pending_public_bytes b) - written" 
    if "written \<le> unat (pending_public_bytes b)"
    using sub_pending_account [of written b1] that small by (simp add: b' b1_def)
  moreover have "pending f = length (concat segs)" "pending f' = length (concat segs) - written"
    using rx rx' by (simp_all add: pending_def, simp add: rx_bytes_of_def)
  ultimately show "account_step b f b' f'" using le by (auto simp: account_step_def)
qed

lemma release_pending_step:
  assumes "tcp_shift_bridge_release_pending_public b f = (b', f')" and ok: "public_side_ok f"
  shows "account_step b f b' f'" "pending f' = 0" "public_rx f' = None" "f' = f\<lparr>public_rx := None\<rparr>"
proof -
  show "public_rx f' = None" "f' = f\<lparr>public_rx := None\<rparr>" 
    using assms(1) by (auto simp: tcp_shift_bridge_release_pending_public_def split: option.splits)
  then show p: "pending f' = 0" by (simp add: pending_def rx_bytes_of_def)
  show "account_step b f b' f'"
  proof (cases "public_rx f")
    case None
    then show ?thesis using assms(1) by (simp add: tcp_shift_bridge_release_pending_public_def account_step_refl)
  next
    case (Some segs)
    then have "length (concat segs) \<le> TCP_WND" using ok by (simp add: public_side_ok_def pending_def rx_bytes_of_def)
    then have "(ucast (chain_len segs) :: u64) = word_of_nat (length (concat segs))"
      by (simp add: chain_len_def TCP_WND_def unsigned_of_nat take_bit_nat_eq_self)
    then have b': "b' = sub_pending b (word_of_nat (length (concat segs)))"
      using assms(1) Some by (simp add: tcp_shift_bridge_release_pending_public_def)
    have "length (concat segs) < 2 ^ 64" using \<open>_ \<le> TCP_WND\<close> by (simp add: TCP_WND_def)
    then show ?thesis using Some p sub_pending_account [of "length (concat segs)" b]
      by (auto simp: account_step_def b' sub_pending_same_flows pending_def rx_bytes_of_def)
  qed
qed

lemma flush_step:
  "tcp_shift_bridge_flush_public_to_backend b f rs = Some (r, b', f', rs') \<Longrightarrow> public_side_ok f \<Longrightarrow>
   public_side_ok f' \<and> account_step b f b' f' \<and> backend_side_ok data f' = backend_side_ok data f \<and> public_eof f' = public_eof f"
proof (induction b f rs arbitrary: r b' f' rs' rule: tcp_shift_bridge_flush_public_to_backend.induct)
  case (1 b f rs)
  show ?case
  proof (cases "backend_connected f \<and> public_rx f \<noteq> None")
    case False
    then show ?thesis using "1.prems" 
      by (subst (asm) tcp_shift_bridge_flush_public_to_backend.simps) (auto simp: account_step_refl split: if_splits)
  next
    case True
    then obtain segs where rx: "backend_connected f" "public_rx f = Some segs" by auto
    note res = "1.prems"(1) [unfolded tcp_shift_bridge_flush_public_to_backend.simps [of b f rs] rx(2) option.simps
        if_not_P [OF iffD2 [OF not_not rx(1)]]]
    show ?thesis
    proof (cases "write_iov segs = []")
      case True
      then have "tcp_shift_bridge_release_pending_public b f = (b', f')" using res by (auto split: prod.splits)
      note rel = release_pending_step [OF this "1.prems"(2)]
      have "concat segs = []" using True write_iov_Nil by blast
      then show ?thesis using rel "1.prems"(2) rx
        by (auto simp: public_side_ok_def backend_side_ok_def pending_def rx_bytes_of_def)
    next
      case False
      then obtain reply rs1 where n: "next_sys rs = Some (reply, rs1)" using res by (auto split: option.splits)
      show ?thesis
      proof (cases "\<exists>w. reply = Bytes w \<and> w \<noteq> 0")
        case True
        then obtain w where w: "reply = Bytes w" "w \<noteq> 0" by blast
        then have le: "w \<le> length (concat (write_iov segs))" using res False n by (auto split: if_splits)
        obtain b1 f1 where fw: "flush_written b f segs w = (b1, f1)" by fastforce
        have step: "tcp_shift_bridge_flush_public_to_backend b1 f1 rs1 = Some (r, b', f', rs')"
          using res False n w le fw by auto
        note s1 = flush_written_step [OF rx(2) le "1.prems"(2) fw]
        have "public_side_ok f' \<and> account_step b1 f1 b' f' \<and> backend_side_ok data f' = backend_side_ok data f1 \<and>
            public_eof f' = public_eof f1"
          using "1.IH" [OF _ rx(2) False n refl w(1) _ w(2) fw [symmetric] step s1(1)] rx(1) le by simp
        then show ?thesis using s1 account_step_trans by blast
      next
        case False
        then have "f' = f \<and> same_flows b b' \<and> pending_public_bytes b' = pending_public_bytes b"
          using res \<open>write_iov segs \<noteq> []\<close> n by (auto simp: same_flows_def split: sys_reply.splits if_splits)
        then show ?thesis using "1.prems"(2) account_step_same by blast
      qed
    qed
  qed
qed

subsection \<open>The pump towards the client\<close>

text \<open>Reading away what was peeked either takes it all or fails.\<close>

lemma consume_step:
  "tcp_shift_bridge_consume_backend f n rs = Some (r, f', rs') \<Longrightarrow>
   \<exists>k. f' = f\<lparr>consumed := consumed f @ take k (stream f), stream := drop k (stream f)\<rparr> \<and> (r \<ge> 0 \<longrightarrow> k = n \<and> n \<le> length (stream f))"
proof (induction f n rs arbitrary: r f' rs' rule: tcp_shift_bridge_consume_backend.induct)
  case (1 f n rs)
  note res = "1.prems" [unfolded tcp_shift_bridge_consume_backend.simps [of f n rs]]
  show ?case
  proof (cases "n = 0")
    case True
    then show ?thesis using res by (auto intro!: exI [of _ 0])
  next
    case False
    then obtain reply rs1 where n: "next_sys rs = Some (reply, rs1)" using res by (auto split: option.splits)
    show ?thesis
    proof (cases "\<exists>k. reply = Bytes k \<and> k \<noteq> 0")
      case True
      then obtain k where k: "reply = Bytes k" "k \<noteq> 0" by blast
      then have le: "k \<le> n" "k \<le> length (stream f)" using res False n by (auto split: if_splits)
      let ?f1 = "f\<lparr>consumed := consumed f @ take k (stream f), stream := drop k (stream f)\<rparr>"
      have step: "tcp_shift_bridge_consume_backend ?f1 (n - k) rs1 = Some (r, f', rs')"
        using res False n k le by auto
      obtain j where j: "f' = ?f1\<lparr>consumed := consumed ?f1 @ take j (stream ?f1), stream := drop j (stream ?f1)\<rparr>"
          "r \<ge> 0 \<longrightarrow> j = n - k \<and> n - k \<le> length (stream ?f1)"
        using "1.IH" [OF False n refl k(1) _ k(2) step] le by auto
      have "f' = f\<lparr>consumed := consumed f @ take (k + j) (stream f), stream := drop (k + j) (stream f)\<rparr>"
        using j(1) by (simp add: take_add, simp add: add.commute)
      moreover have "r \<ge> 0 \<longrightarrow> k + j = n \<and> n \<le> length (stream f)" using j(2) le by auto
      ultimately show ?thesis by blast
    next
      case False
      then have "f' = f \<and> r = -1" using res \<open>n \<noteq> 0\<close> n by (cases reply) (simp_all split: if_splits)
      then show ?thesis by (intro exI [of _ 0]) simp
    qed
  qed
qed

lemma mark_blocked_step:
  "tcp_shift_bridge_mark_backend_read_blocked b f = (b', f') \<Longrightarrow>
   same_flows b b' \<and> pending_public_bytes b' = pending_public_bytes b \<and>
   (\<exists>v. f' = f\<lparr>backend_read_blocked := v\<rparr>)"
  by (auto simp: tcp_shift_bridge_mark_backend_read_blocked_def same_flows_def split: if_splits
      intro: exI [of _ True])

text \<open>A pump towards the client changes nothing on the public side; without an error it keeps the other side in order.\<close>

definition pump_step :: "u8 list \<Rightarrow> int \<Rightarrow> tcp_shift_bridge \<Rightarrow> tcp_shift_bridge_flow \<Rightarrow> tcp_shift_bridge \<Rightarrow> tcp_shift_bridge_flow \<Rightarrow> bool" where
  "pump_step data r b f b' f' \<longleftrightarrow> same_flows b b' \<and> pending_public_bytes b' = pending_public_bytes b \<and>
     public_rx f' = public_rx f \<and> public_side_ok f' = public_side_ok f \<and> public_eof f' = public_eof f \<and>
     (r \<ge> 0 \<longrightarrow> backend_side_ok data f \<longrightarrow> backend_side_ok data f')"

lemma pump_step_trans:
  "pump_step data 0 b f b' f' \<Longrightarrow> pump_step data r b' f' b'' f'' \<Longrightarrow> pump_step data r b f b'' f''"
  by (simp add: pump_step_def same_flows_def)

lemma pump_step_refl: "pump_step data r b f b f"
  by (simp add: pump_step_def same_flows_def)

lemma pump_step_blocked:
  "tcp_shift_bridge_mark_backend_read_blocked b f = (b', f') \<Longrightarrow> pump_step data r b f b' f'"
  by (drule mark_blocked_step) (auto simp: pump_step_def public_side_ok_def backend_side_ok_def pending_def rx_bytes_of_def)

lemma pump_step_chunk:
  assumes c: "tcp_shift_bridge_consume_backend (f\<lparr>to_public := to_public f @ take n (stream f)\<rparr>) n rs = Some (r, f', rs')"
    and live: "\<not> backend_eof f" and b': "same_flows b b'" "pending_public_bytes b' = pending_public_bytes b"
  shows "pump_step data r b f b' f'"
proof -
  obtain k where k: "f' = f\<lparr>to_public := to_public f @ take n (stream f), consumed := consumed f @ take k (stream f),
      stream := drop k (stream f)\<rparr>" "r \<ge> 0 \<longrightarrow> k = n"
    using consume_step [OF c] by auto
  have "r \<ge> 0 \<longrightarrow> backend_side_ok data f \<longrightarrow> backend_side_ok data f'" using k live by (auto simp: backend_side_ok_def)
  moreover have "public_rx f' = public_rx f \<and> public_side_ok f' = public_side_ok f \<and> public_eof f' = public_eof f"
    by (simp add: k(1) public_side_ok_def pending_def rx_bytes_of_def)
  ultimately show ?thesis using b' by (simp add: pump_step_def)
qed

lemma consume_keeps_eof:
  "tcp_shift_bridge_consume_backend f n rs = Some (r, f', rs') \<Longrightarrow> backend_eof f' = backend_eof f"
  by (drule consume_step) auto

lemma pump_step_eof: "stream f = [] \<Longrightarrow> pump_step data r b f b (f\<lparr>backend_eof := True\<rparr>)"
  by (simp add: pump_step_def same_flows_def public_side_ok_def backend_side_ok_def pending_def rx_bytes_of_def)

lemma pump_loop_step:
  "pump_loop n b f rs = Some (r, b', f', rs') \<Longrightarrow> \<not> backend_eof f \<Longrightarrow> pump_step data r b f b' f'"
proof (induction n arbitrary: b f rs)
  case 0
  then show ?case by (simp add: pump_step_refl)
next
  case (Suc n)
  note res = Suc.prems(1) [unfolded pump_loop.simps Let_def]
  obtain space rs1 where 1: "next_sndbuf rs = Some (space, rs1)" using res by (auto split: option.splits)
  show ?case
  proof (cases "(ucast space :: u16) = 0")
    case True
    then show ?thesis using res 1 by (auto split: prod.splits intro: pump_step_blocked)
  next
    case False
    note res2 = res [unfolded 1 option.case prod.case if_not_P [OF False]]
    obtain reply rs2 where 2: "next_sys rs1 = Some (reply, rs2)" using res2 by (auto split: option.splits)
    note res3 = res2 [unfolded 2 option.case prod.case]
    show ?thesis
    proof (cases "\<exists>k. reply = Bytes k \<and> k \<noteq> 0")
      case False
      then have "b' = b \<and> (f' = f \<or> stream f = [] \<and> f' = f\<lparr>backend_eof := True\<rparr>)"
        using res3 by (cases reply) (auto split: if_splits)
      then show ?thesis using pump_step_refl pump_step_eof by blast
    next
      case True
      then obtain k where k: "reply = Bytes k" "k \<noteq> 0" by blast
      obtain err rs3 where 3: "next_err rs2 = Some (err, rs3)"
        using res3 k by (auto split: if_splits option.splits)
      note res4 = res3 [unfolded k(1) sys_reply.case 3 option.case prod.case]
      show ?thesis
      proof (cases "err = ERR_OK")
        case False
        then show ?thesis using res4 k(2)
          by (auto split: if_splits prod.splits intro: pump_step_blocked pump_step_refl)
      next
        case True
        let ?f1 = "f\<lparr>to_public := to_public f @ take k (stream f)\<rparr>"
        obtain r1 f2 rs4 where c: "tcp_shift_bridge_consume_backend ?f1 k rs3 = Some (r1, f2, rs4)"
          using res4 k(2) True by (auto split: if_splits option.splits)
        let ?b1 = "b\<lparr>backend_to_public_bytes := backend_to_public_bytes b + word_of_nat k\<rparr>"
        have chunk: "pump_step data r1 b f b1 f2" if "same_flows b b1" "pending_public_bytes b1 = pending_public_bytes b" for b1
          by (rule pump_step_chunk [OF c Suc.prems(2) that])
        show ?thesis
        proof (cases "r1 < 0")
          case True
          then have "r = -1 \<and> b' = b \<and> f' = f2" using res4 k(2) \<open>err = ERR_OK\<close> c by (auto split: if_splits)
          then show ?thesis using chunk [of b] True by (simp add: pump_step_def same_flows_def)
        next
          case False
          then have "pump_loop n ?b1 f2 rs4 = Some (r, b', f', rs')"
            using res4 k(2) \<open>err = ERR_OK\<close> c by (auto split: if_splits)
          moreover have "\<not> backend_eof f2" using consume_keeps_eof [OF c] Suc.prems(2) by simp
          ultimately have "pump_step data r ?b1 f2 b' f'" using Suc.IH by blast
          moreover have "pump_step data 0 b f ?b1 f2" using chunk [of ?b1] False by (simp add: pump_step_def same_flows_def)
          ultimately show ?thesis using pump_step_trans by blast
        qed
      qed
    qed
  qed
qed

lemma pump_backend_step:
  "tcp_shift_bridge_pump_backend_to_public b f rs = Some (r, b', f', rs') \<Longrightarrow> pump_step data r b f b' f'"
  by (auto simp: tcp_shift_bridge_pump_backend_to_public_def pump_step_refl pump_loop_step split: if_splits)

lemma pump_step_account: "pump_step data r b f b' f' \<Longrightarrow> account_step b f b' f'"
  by (rule account_step_same) (auto simp: pump_step_def pending_def rx_bytes_of_def)

subsection \<open>Half-close\<close>

lemma shutdown_backend_step:
  "tcp_shift_bridge_shutdown_backend_write f rs = Some (r, f', rs') \<Longrightarrow>
   public_rx f' = public_rx f \<and> (public_side_ok f \<longrightarrow> public_side_ok f') \<and> backend_side_ok data f' = backend_side_ok data f"
  by (auto simp: tcp_shift_bridge_shutdown_backend_write_def public_side_ok_def backend_side_ok_def pending_def rx_bytes_of_def
      split: if_splits option.splits)

lemma shutdown_public_step:
  "tcp_shift_bridge_shutdown_public_write f rs = Some (r, f', rs') \<Longrightarrow>
   public_rx f' = public_rx f \<and> public_side_ok f' = public_side_ok f \<and> (backend_side_ok data f \<longrightarrow> backend_side_ok data f')"
  by (auto simp: tcp_shift_bridge_shutdown_public_write_def public_side_ok_def backend_side_ok_def pending_def rx_bytes_of_def
      split: if_splits option.splits)

section \<open>Releasing\<close>

text \<open>The account of the bridge: the flows of the list are the ones in the heap, and the totals count them.\<close>

definition waiting :: "(nat \<rightharpoonup> tcp_shift_bridge_flow) \<Rightarrow> nat \<Rightarrow> nat" where
  "waiting h fid = (case h fid of None \<Rightarrow> 0 | Some flow \<Rightarrow> pending flow)"

definition total_waiting :: "tcp_shift_bridge \<Rightarrow> nat" where
  "total_waiting b = (\<Sum>fid\<in>set (flows b). waiting (flow_heap b) fid)"

definition MAX_FLOWS :: nat where "MAX_FLOWS = 2 ^ 48"

definition account_ok :: "tcp_shift_bridge \<Rightarrow> bool" where
  "account_ok b \<longleftrightarrow> distinct (flows b) \<and> set (flows b) = dom (flow_heap b) \<and> length (flows b) \<le> MAX_FLOWS \<and>
     unat (active_flows b) = length (flows b) \<and> unat (pending_public_bytes b) = total_waiting b"

text \<open>A callback works on its flow; \<open>commit\<close> is the bridge with the flow as it stands.\<close>

definition commit :: "tcp_shift_bridge \<Rightarrow> nat \<Rightarrow> tcp_shift_bridge_flow \<Rightarrow> tcp_shift_bridge" where
  "commit b fid f = b\<lparr>flow_heap := (flow_heap b)(fid \<mapsto> f)\<rparr>"

lemma commit_same: "flow_heap b fid = Some f \<Longrightarrow> commit b fid f = b"
  by (simp add: commit_def fun_upd_idem)

lemma total_waiting_commit:
  assumes "fid \<in> set (flows b)"
  shows "total_waiting (commit b fid f) = (\<Sum>g\<in>set (flows b) - {fid}. waiting (flow_heap b) g) + pending f"
proof -
  have "total_waiting (commit b fid f) =
      waiting ((flow_heap b)(fid \<mapsto> f)) fid + (\<Sum>g\<in>set (flows b) - {fid}. waiting ((flow_heap b)(fid \<mapsto> f)) g)"
    using assms by (simp add: total_waiting_def commit_def sum.remove)
  moreover have "(\<Sum>g\<in>set (flows b) - {fid}. waiting ((flow_heap b)(fid \<mapsto> f)) g) =
      (\<Sum>g\<in>set (flows b) - {fid}. waiting (flow_heap b) g)"
    by (rule sum.cong) (auto simp: waiting_def)
  ultimately show ?thesis by (simp add: waiting_def)
qed

lemma account_ok_step:
  assumes ok: "account_ok (commit b fid f)" and fid: "fid \<in> set (flows b)" and st: "account_step b f b' f'"
  shows "account_ok (commit b' fid f')"
proof -
  let ?rest = "\<Sum>g\<in>set (flows b) - {fid}. waiting (flow_heap b) g"
  have sf: "flows b' = flows b" "active_flows b' = active_flows b" "flow_heap b' = flow_heap b"
    using st by (auto simp: account_step_def same_flows_def)
  have "unat (pending_public_bytes b) = ?rest + pending f"
    using ok total_waiting_commit [OF fid, of f] by (simp add: account_ok_def commit_def)
  then have "unat (pending_public_bytes b') = ?rest + pending f'" using st by (auto simp: account_step_def)
  moreover have "total_waiting (commit b' fid f') = ?rest + pending f'"
    using total_waiting_commit [of fid b' f'] fid by (simp add: sf)
  ultimately show ?thesis using ok by (simp add: account_ok_def commit_def sf)
qed

text \<open>Unlinking a flow with nothing waiting.\<close>

lemma account_ok_unlink:
  assumes ok: "account_ok (commit b fid f)" and fid: "fid \<in> set (flows b)" and z: "pending f = 0"
  shows "account_ok ((tcp_shift_bridge_flow_unlink b fid)\<lparr>flow_heap := (flow_heap b)(fid := None)\<rparr>)"
proof -
  define h where "h = (flow_heap b)(fid := None)"
  have d: "distinct (flows b)" "set (flows b) = insert fid (dom (flow_heap b))" and len: "length (flows b) \<le> MAX_FLOWS"
    and act: "unat (active_flows b) = length (flows b)" 
    and pend: "unat (pending_public_bytes b) = total_waiting (commit b fid f)"
    using ok by (simp_all add: account_ok_def commit_def)
  have "active_flows b \<noteq> 0" using act fid by (metis length_pos_if_in_set less_irrefl unat_0)
  then have act': "unat (active_flows b - 1) = length (flows b) - 1" using act by (simp add: unat_minus_one)
  have set: "set (remove1 fid (flows b)) = set (flows b) - {fid}" using d(1) by simp
  have sum: "(\<Sum>g\<in>set (flows b) - {fid}. waiting h g) = total_waiting (commit b fid f)"
    unfolding total_waiting_commit [OF fid] z add_0_right by (rule sum.cong) (auto simp: waiting_def h_def)
  have "set (flows b) - {fid} = dom h" using d(2) fid by (auto simp: h_def)
  then show ?thesis using d(1) len act' fid pend \<open>active_flows b \<noteq> 0\<close> set sum
    by (simp add: account_ok_def tcp_shift_bridge_flow_unlink_def total_waiting_def length_remove1 flip: h_def)
qed

lemma release_step:
  assumes r: "tcp_shift_bridge_flow_release b fid f rs = Some (b', rs')"
    and ok: "account_ok (commit b fid f)" and fid: "fid \<in> set (flows b)" and f: "public_side_ok f"
  shows "account_ok b' \<and> flow_heap b' = (flow_heap b)(fid := None)"
proof -
  obtain L b2 f2 where b2: "tcp_shift_bridge_release_pending_public (b\<lparr>bridge_loop := L\<rparr>) f = (b2, f2)"
      and b': "b' = (tcp_shift_bridge_flow_unlink b2 fid)\<lparr>flow_heap := (flow_heap (tcp_shift_bridge_flow_unlink b2 fid))(fid := None)\<rparr>"
  proof -
    obtain b1 rs1 where b1: "(if watch_registered (backend_watch f)
           then (case next_rc rs of None \<Rightarrow> None
                 | Some (ok, rs) \<Rightarrow>
                     (case tcp_shift_lwip_loop_watch_remove ok (bridge_loop b) (backend_watch f) of
                        (_, L, w) \<Rightarrow> Some (b\<lparr>bridge_loop := L\<rparr>, rs)))
           else Some (b, rs)) = Some (b1, rs1)"
      using r by (auto simp: tcp_shift_bridge_flow_release_def simp del: split_paired_Ex split: option.splits)
    have "\<exists>L. b1 = b\<lparr>bridge_loop := L\<rparr>"
      using b1 by (auto split: if_splits option.splits prod.splits intro: exI [of _ "bridge_loop b"])
    then obtain L1 where L1: "b1 = b\<lparr>bridge_loop := L1\<rparr>" by blast
    have "\<exists>L. (if backend_fd f \<ge> 0 then close_backend b1 (backend_fd f) else b1) = b\<lparr>bridge_loop := L\<rparr>"
      by (auto simp: L1 close_backend_def)
    then obtain L where L: "(if backend_fd f \<ge> 0 then close_backend b1 (backend_fd f) else b1) = b\<lparr>bridge_loop := L\<rparr>" by blast
    obtain b2 f2 where b2: "tcp_shift_bridge_release_pending_public (b\<lparr>bridge_loop := L\<rparr>) f = (b2, f2)" by fastforce
    show thesis using that [OF b2] r unfolding tcp_shift_bridge_flow_release_def b1 by (simp add: L b2 Let_def)
  qed
  define bL where "bL = b\<lparr>bridge_loop := L\<rparr>"
  have okL: "account_ok (commit bL fid f)" "fid \<in> set (flows bL)" using ok fid
    by (simp_all add: account_ok_def commit_def bL_def total_waiting_def)
  note rel = release_pending_step [OF b2 [folded bL_def] f]
  have ok2: "account_ok (commit b2 fid f2)" by (rule account_ok_step [OF okL rel(1)])
  have sf: "flows b2 = flows b" "flow_heap b2 = flow_heap b" using rel(1) by (simp_all add: account_step_def same_flows_def bL_def)
  have u: "flow_heap (tcp_shift_bridge_flow_unlink b2 fid) = flow_heap b" by (simp add: tcp_shift_bridge_flow_unlink_def sf)
  have "account_ok b'" using account_ok_unlink [OF ok2 _ rel(2)] fid unfolding b' u sf by (simp add: sf)
  then show ?thesis by (simp add: b' u)
qed

section \<open>Progress\<close>

text \<open>What a step that may free its flow does: either the flow is gone and the account is settled, or it is there,
  in order unless the step failed.\<close>

fun end_ok :: "u8 list \<Rightarrow> tcp_shift_bridge \<Rightarrow> nat \<Rightarrow> tcp_shift_bridge_flow \<Rightarrow>
    int \<times> tcp_shift_bridge \<times> tcp_shift_bridge_flow option \<times> bridge_reply list \<Rightarrow> bool" where
  "end_ok data b fid f (r, b', None, rs) \<longleftrightarrow> account_ok b' \<and> flow_heap b' = (flow_heap b)(fid := None)"
| "end_ok data b fid f (r, b', Some f', rs) \<longleftrightarrow>
    account_step b f b' f' \<and> public_side_ok f' \<and> (r \<ge> 0 \<longrightarrow> backend_side_ok data f')"

lemma end_ok_trans:
  "account_step b f b' f' \<Longrightarrow> end_ok data b' fid f' res \<Longrightarrow> end_ok data b fid f res"
  by (cases res; cases "fst (snd (snd res))") (auto simp: account_step_def same_flows_def)

lemma end_ok_flow:
  "account_step b f b' f' \<Longrightarrow> public_side_ok f' \<Longrightarrow> r < 0 \<or> backend_side_ok data f' \<Longrightarrow> end_ok data b fid f (r, b', Some f', rs)"
  by auto

lemma finish_step:
  assumes r: "tcp_shift_bridge_finish_if_done b fid f rs = Some res"
    and ok: "account_ok (commit b fid f)" "fid \<in> set (flows b)" "public_side_ok f" "backend_side_ok data f"
  shows "end_ok data b fid f res"
proof -
  obtain r1 f1 rs1 where 1: "tcp_shift_bridge_shutdown_backend_write f rs = Some (r1, f1, rs1)"
    using r by (auto simp: tcp_shift_bridge_finish_if_done_def simp del: split_paired_Ex split: bind_splits)
  note s1 = shutdown_backend_step [OF 1, of data]
  have a1: "account_step b f b f1" using s1 by (intro account_step_same) (auto simp: same_flows_def pending_def rx_bytes_of_def)
  show ?thesis
  proof (cases "r1 < 0")
    case True
    then have "res = (-1, b, Some f1, rs1)" using r 1 by (simp add: tcp_shift_bridge_finish_if_done_def)
    then show ?thesis using a1 s1 ok by simp
  next
    case False
    obtain r2 f2 rs2 where 2: "tcp_shift_bridge_shutdown_public_write f1 rs1 = Some (r2, f2, rs2)"
      using r 1 False by (auto simp: tcp_shift_bridge_finish_if_done_def simp del: split_paired_Ex split: bind_splits)
    note s2 = shutdown_public_step [OF 2, of data]
    have a2: "account_step b f b f2" using s1 s2 by (intro account_step_same) (auto simp: same_flows_def pending_def rx_bytes_of_def)
    have f2: "public_side_ok f2" "backend_side_ok data f2" using s1 s2 ok by auto
    note res = r [unfolded tcp_shift_bridge_finish_if_done_def 1 2 bind.bind_lunit prod.case if_not_P [OF False]]
    have keep: "end_ok data b fid f (c, b, Some f2, q)" for c q using a2 f2 by simp
    have rel: "end_ok data b fid f (1, b', None, q)"
      if "tcp_shift_bridge_flow_release b fid (f2\<lparr>flow_pcb := False\<rparr>) rs3 = Some (b', q)" for b' rs3 q
    proof -
      have "account_ok (commit b fid (f2\<lparr>flow_pcb := False\<rparr>))"
        by (rule account_ok_step [OF ok(1,2) account_step_trans [OF a2 account_step_same]])
          (simp_all add: same_flows_def pending_def rx_bytes_of_def)
      moreover have "public_side_ok (f2\<lparr>flow_pcb := False\<rparr>)" using f2(1) by (simp add: public_side_ok_def pending_def rx_bytes_of_def)
      ultimately show ?thesis using release_step [OF that] ok(2) by simp
    qed
    show ?thesis
    proof (cases "r2 < 0 \<or> \<not> flow_finished f2")
      case True
      then have "\<exists>c. res = (c, b, Some f2, rs2)" using res by (auto split: if_splits)
      then show ?thesis using keep by blast
    next
      case False
      note res2 = res [unfolded if_not_P [OF conjunct1 [OF False [unfolded de_Morgan_disj]]] if_not_P [OF conjunct2 [OF False [unfolded de_Morgan_disj]]]]
      obtain err rs3 where 3: "next_err rs2 = Some (err, rs3)" using res2 by (cases "next_err rs2") auto
      note res3 = res2 [unfolded 3 bind.bind_lunit prod.case]
      show ?thesis
      proof (cases "err = ERR_OK")
        case True
        note res4 = res3 [unfolded True HOL.simp_thms if_False]
        obtain b' q where 4: "tcp_shift_bridge_flow_release b fid (f2\<lparr>flow_pcb := False\<rparr>) rs3 = Some (b', q)"
          using res4 by (cases "tcp_shift_bridge_flow_release b fid (f2\<lparr>flow_pcb := False\<rparr>) rs3") auto
        then show ?thesis using res4 rel [OF 4] by simp
      next
        case False
        then have "res = (0, b, Some f2, rs3)" using res3 by simp
        then show ?thesis using keep by blast
      qed
    qed
  qed
qed

lemma sync_watch_step:
  "tcp_shift_bridge_sync_backend_watch b fid f ok = (r, b', f') \<Longrightarrow>
   account_step b f b' f' \<and> public_side_ok f' = public_side_ok f \<and> backend_side_ok data f' = backend_side_ok data f"
  by (auto simp: tcp_shift_bridge_sync_backend_watch_def Let_def public_side_ok_def backend_side_ok_def pending_def rx_bytes_of_def
      account_step_def same_flows_def split: prod.splits)

lemma progress_step:
  assumes r: "tcp_shift_bridge_progress b fid f rs = Some res"
    and ok: "account_ok (commit b fid f)" "fid \<in> set (flows b)" "public_side_ok f" "backend_side_ok data f"
  shows "end_ok data b fid f res"
proof -
  obtain r1 b1 f1 rs1 where 1: "tcp_shift_bridge_flush_public_to_backend b f rs = Some (r1, b1, f1, rs1)"
    using r by (auto simp: tcp_shift_bridge_progress_def simp del: split_paired_Ex split: bind_splits)
  note s1 = flush_step [OF 1 ok(3), of data]
  have a1: "account_step b f b1 f1" using s1 by blast
  show ?thesis
  proof (cases "r1 < 0")
    case True
    then have "res = (-1, b1, Some f1, rs1)" using r 1 by (simp add: tcp_shift_bridge_progress_def)
    then show ?thesis using a1 s1 by simp
  next
    case False
    obtain r2 b2 f2 rs2 where 2: "tcp_shift_bridge_pump_backend_to_public b1 f1 rs1 = Some (r2, b2, f2, rs2)"
      using r 1 False by (auto simp: tcp_shift_bridge_progress_def simp del: split_paired_Ex split: bind_splits)
    note s2 = pump_backend_step [OF 2, of data]
    have a2: "account_step b f b2 f2" using account_step_trans [OF a1 pump_step_account [OF s2]] .
    show ?thesis
    proof (cases "r2 < 0")
      case True
      then have "res = (-1, b2, Some f2, rs2)" using r 1 2 False by (simp add: tcp_shift_bridge_progress_def)
      then show ?thesis using a2 s1 s2 by (simp add: pump_step_def)
    next
      case nneg: False
      have f2: "public_side_ok f2" "backend_side_ok data f2" using s1 s2 nneg ok(4) by (auto simp: pump_step_def)
      have ok2: "account_ok (commit b2 fid f2)" by (rule account_ok_step [OF ok(1,2) a2])
      have fid2: "fid \<in> set (flows b2)" using ok(2) a2 by (simp add: account_step_def same_flows_def)
      obtain r3 b3 fo rs3 where 3: "tcp_shift_bridge_finish_if_done b2 fid f2 rs2 = Some (r3, b3, fo, rs3)"
        using r 1 2 False nneg by (auto simp: tcp_shift_bridge_progress_def simp del: split_paired_Ex split: bind_splits)
      note s3 = finish_step [OF 3 ok2 fid2 f2]
      note res = r [unfolded tcp_shift_bridge_progress_def 1 2 3 bind.bind_lunit prod.case if_not_P [OF False] if_not_P [OF nneg]]
      have "end_ok data b2 fid f2 res"
      proof (cases "r3 = 0 \<and> fo \<noteq> None")
        case False
        then show ?thesis using res s3 by (auto split: if_splits)
      next
        case True
        then obtain f3 where f3: "r3 = 0" "fo = Some f3" by blast
        obtain okc rs4 where 4: "next_rc rs3 = Some (okc, rs4)" using res f3 by (auto split: bind_splits)
        obtain r5 b5 f5 where 5: "tcp_shift_bridge_sync_backend_watch b3 fid f3 okc = (r5, b5, f5)" by (metis prod_cases3)
        have "res = (if r5 < 0 then -1 else 0, b5, Some f5, rs4)" using res f3 4 5 by simp
        then show ?thesis using s3 f3 sync_watch_step [OF 5, of data] account_step_trans by auto
      qed
      then show ?thesis using end_ok_trans [OF a2] by blast
    qed
  qed
qed

section \<open>Callbacks\<close>

definition flows_ok :: "(nat \<Rightarrow> u8 list) \<Rightarrow> tcp_shift_bridge \<Rightarrow> bool" where
  "flows_ok data b \<longleftrightarrow> (\<forall>fid flow. flow_heap b fid = Some flow \<longrightarrow> flow_holds (data fid) flow)"

definition bridge_inv :: "(nat \<Rightarrow> u8 list) \<Rightarrow> tcp_shift_bridge \<Rightarrow> bool" where
  "bridge_inv data b \<longleftrightarrow> account_ok b \<and> flows_ok data b"

text \<open>A bridge in the middle of a callback: only the flow at work may be out of order.\<close>

definition bridge_mid :: "(nat \<Rightarrow> u8 list) \<Rightarrow> tcp_shift_bridge \<Rightarrow> nat \<Rightarrow> tcp_shift_bridge_flow \<Rightarrow> bool" where
  "bridge_mid data b fid f \<longleftrightarrow> account_ok (commit b fid f) \<and> fid \<in> set (flows b) \<and> public_side_ok f \<and>
     flows_ok data (b\<lparr>flow_heap := (flow_heap b)(fid := None)\<rparr>)"

lemma bridge_mid_fields:
  "same_flows b b' \<Longrightarrow> pending_public_bytes b' = pending_public_bytes b \<Longrightarrow> bridge_mid data b fid f \<Longrightarrow> bridge_mid data b' fid f"
  by (simp add: bridge_mid_def account_ok_def commit_def same_flows_def total_waiting_def flows_ok_def)

lemma bridge_mid_start: "bridge_inv data b \<Longrightarrow> flow_heap b fid = Some f \<Longrightarrow> bridge_mid data b fid f"
  by (auto simp: bridge_inv_def bridge_mid_def commit_same flows_ok_def flow_holds_def account_ok_def)

lemma bridge_mid_commit: "bridge_mid data b fid f \<Longrightarrow> backend_side_ok (data fid) f \<Longrightarrow> bridge_inv data (commit b fid f)"
  by (auto simp: bridge_mid_def bridge_inv_def flows_ok_def flow_holds_def commit_def split: if_splits)

lemma bridge_mid_release:
  assumes "bridge_mid data b fid f" "tcp_shift_bridge_flow_release b fid f rs = Some (b', rs')"
  shows "bridge_inv data b'"
  using release_step [OF assms(2)] assms(1) by (simp add: bridge_mid_def bridge_inv_def flows_ok_def)

lemma bridge_mid_flow:
  "bridge_mid data b fid f \<Longrightarrow> public_side_ok f' \<Longrightarrow> pending f' = pending f \<Longrightarrow> bridge_mid data b fid f'"
  by (auto simp: bridge_mid_def intro!: account_ok_step [of b fid f] account_step_same simp: same_flows_def)

lemma bridge_mid_abort:
  assumes "bridge_mid data b fid f" "tcp_shift_bridge_flow_abort b fid f rs = Some (b', rs')"
  shows "bridge_inv data b'"
proof -
  have "bridge_mid data b fid (f\<lparr>flow_pcb := False\<rparr>)"
    by (rule bridge_mid_flow [OF assms(1)])
      (use assms(1) in \<open>simp_all add: bridge_mid_def public_side_ok_def pending_def rx_bytes_of_def\<close>)
  then show ?thesis using bridge_mid_release assms(2) unfolding tcp_shift_bridge_flow_abort_def by blast
qed

lemma bridge_mid_step:
  "bridge_mid data b fid f \<Longrightarrow> account_step b f b' f' \<Longrightarrow> public_side_ok f' \<Longrightarrow> bridge_mid data b' fid f'"
  using account_ok_step [of b fid f b' f'] by (auto simp: bridge_mid_def account_step_def same_flows_def flows_ok_def)

lemma keep_or_abort_inv:
  assumes mid: "bridge_mid data b fid f" and ok: "end_ok (data fid) b fid f res" and r: "keep_or_abort fid res = Some (kept, b', rs')"
  shows "bridge_inv data b'"
proof -
  obtain c b1 fo q where res: "res = (c, b1, fo, q)" by (metis prod_cases4)
  show ?thesis
  proof (cases fo)
    case None
    then show ?thesis using r ok mid by (auto simp: res keep_or_abort_def bridge_inv_def bridge_mid_def flows_ok_def)
  next
    case (Some f1)
    then have mid1: "bridge_mid data b1 fid f1" using bridge_mid_step [OF mid] ok by (simp add: res)
    show ?thesis
    proof (cases "c < 0")
      case True
      let ?b2 = "b1\<lparr>backend_failures := backend_failures b1 + 1\<rparr>"
      have "bridge_mid data ?b2 fid f1" by (rule bridge_mid_fields [OF _ _ mid1]) (simp_all add: same_flows_def)
      then show ?thesis using bridge_mid_abort r True Some by (auto simp: res keep_or_abort_def)
    next
      case False
      then show ?thesis using bridge_mid_commit [OF mid1] r ok Some by (auto simp: res keep_or_abort_def commit_def)
    qed
  qed
qed

lemma public_progress_inv:
  assumes mid: "bridge_mid data b fid f" and f: "backend_side_ok (data fid) f"
    and r: "public_progress b fid f rs = Some (e, b', rs')"
  shows "bridge_inv data b'"
proof -
  obtain res kept where res: "tcp_shift_bridge_progress b fid f rs = Some res" "keep_or_abort fid res = Some (kept, b', rs')"
    using r by (auto simp: public_progress_def simp del: split_paired_Ex split: bind_splits)
  have "end_ok (data fid) b fid f res" using progress_step [OF res(1)] mid f by (simp add: bridge_mid_def)
  then show ?thesis using keep_or_abort_inv [OF mid _ res(2)] by blast
qed

lemma bridge_inv_fields:
  "same_flows b b' \<Longrightarrow> pending_public_bytes b' = pending_public_bytes b \<Longrightarrow> bridge_inv data b \<Longrightarrow> bridge_inv data b'"
  by (simp add: bridge_inv_def account_ok_def same_flows_def total_waiting_def flows_ok_def)

lemma backend_ready_inv:
  assumes "bridge_inv data b" and r: "tcp_shift_bridge_backend_ready b fid events rs = Some (c, b', rs')"
  shows "bridge_inv data b'"
proof -
  obtain f where f: "flow_heap b fid = Some f" using r by (auto simp: tcp_shift_bridge_backend_ready_def split: bind_splits)
  let ?first = "if backend_connecting f
        then map_option (\<lambda>(r, b, f, rs). (r < 0, b, f, rs)) (tcp_shift_bridge_complete_backend_connect b f rs)
        else if events AND EPOLLERR \<noteq> 0
        then map_option (\<lambda>(ok, rs). (\<not> ok, b, f, rs)) (next_rc rs)
        else Some (False, b, f, rs)"
  obtain failed b1 f1 rs1 where 1: "?first = Some (failed, b1, f1, rs1)"
    using r f by (cases ?first) (auto simp: tcp_shift_bridge_backend_ready_def)
  have 11: "same_flows b b1 \<and> pending_public_bytes b1 = pending_public_bytes b \<and> pending f1 = pending f \<and>
      public_side_ok f1 = public_side_ok f \<and> backend_side_ok (data fid) f1 = backend_side_ok (data fid) f"
    using 1 by (auto simp: tcp_shift_bridge_complete_backend_connect_def same_flows_def public_side_ok_def backend_side_ok_def
        pending_def rx_bytes_of_def split: if_splits bind_splits)
  have okf: "flow_holds (data fid) f" using assms(1) f by (simp add: bridge_inv_def flows_ok_def)
  have mid: "bridge_mid data b fid f" by (rule bridge_mid_start [OF assms(1) f])
  have mid1: "bridge_mid data b1 fid f1"
    using bridge_mid_step [OF mid, of b1 f1] account_step_same [of b b1 f1 f] 11 okf by (simp add: flow_holds_def)
  note res = r [unfolded tcp_shift_bridge_backend_ready_def f bind.bind_lunit 1 prod.case]
  show ?thesis
  proof (cases failed)
    case True
    have "bridge_mid data (b1\<lparr>backend_failures := backend_failures b1 + 1\<rparr>) fid f1"
      by (rule bridge_mid_fields [OF _ _ mid1]) (simp_all add: same_flows_def)
    then show ?thesis using res True bridge_mid_abort by auto
  next
    case nf: False
    show ?thesis
    proof (cases "events AND (EPOLLIN OR EPOLLOUT OR EPOLLRDHUP OR EPOLLHUP) \<noteq> 0")
      case False
      then show ?thesis using bridge_mid_commit [OF mid1] res nf 11 okf by (simp add: flow_holds_def commit_def)
    next
      case True
      have "public_progress b1 fid f1 rs1 = Some (e, b', rs')" if "keep_or_abort fid x = Some (k, b', rs')"
        "tcp_shift_bridge_progress b1 fid f1 rs1 = Some x" "e = (if k then ERR_OK else ERR_ABRT)" for x k e
        using that by (simp add: public_progress_def)
      moreover have "\<exists>x k. keep_or_abort fid x = Some (k, b', rs') \<and> tcp_shift_bridge_progress b1 fid f1 rs1 = Some x"
        using res nf True by (auto simp del: split_paired_Ex split: bind_splits)
      ultimately obtain e where "public_progress b1 fid f1 rs1 = Some (e, b', rs')" by blast
      then show ?thesis using public_progress_inv [OF mid1] 11 okf by (simp add: flow_holds_def)
    qed
  qed
qed

lemma unblock_inv:
  assumes "bridge_inv data b" "flow_heap b fid = Some f" "public_progress b fid (f\<lparr>backend_read_blocked := False\<rparr>) rs = Some (e, b', rs')"
  shows "bridge_inv data b'"
proof (rule public_progress_inv [OF _ _ assms(3)])
  have ok: "flow_holds (data fid) f" using assms(1,2) by (simp add: bridge_inv_def flows_ok_def)
  show "bridge_mid data b fid (f\<lparr>backend_read_blocked := False\<rparr>)"
    by (rule bridge_mid_flow [OF bridge_mid_start [OF assms(1,2)]])
      (use ok in \<open>simp_all add: flow_holds_def public_side_ok_def pending_def rx_bytes_of_def\<close>)
  show "backend_side_ok (data fid) (f\<lparr>backend_read_blocked := False\<rparr>)" using ok by (simp add: flow_holds_def backend_side_ok_def)
qed

lemma public_sent_inv:
  "bridge_inv data b \<Longrightarrow> tcp_shift_bridge_public_sent b arg rs = Some (e, b', rs') \<Longrightarrow> bridge_inv data b'"
  by (auto simp: tcp_shift_bridge_public_sent_def split: option.splits bind_splits dest: unblock_inv)

lemma public_poll_inv:
  "bridge_inv data b \<Longrightarrow> tcp_shift_bridge_public_poll b arg rs = Some (e, b', rs') \<Longrightarrow> bridge_inv data b'"
  by (auto simp: tcp_shift_bridge_public_poll_def split: option.splits bind_splits dest: unblock_inv)

lemma public_error_inv:
  assumes "bridge_inv data b" "tcp_shift_bridge_public_error b (Some fid) rs = Some (b', rs')"
  shows "bridge_inv data b'"
proof -
  let ?b = "b\<lparr>public_errors := public_errors b + 1\<rparr>"
  have inv: "bridge_inv data ?b" by (rule bridge_inv_fields [OF _ _ assms(1)]) (simp_all add: same_flows_def)
  obtain f where f: "flow_heap b fid = Some f" "tcp_shift_bridge_flow_abort ?b fid f rs = Some (b', rs')"
    using assms(2) by (auto simp: tcp_shift_bridge_public_error_def tcp_shift_bridge_flow_abort_def split: bind_splits)
  then show ?thesis using bridge_mid_abort bridge_mid_start [OF inv, of fid f] by simp
qed

subsection \<open>Data from the client\<close>

text \<open>What lwIP promises of a delivery: the data fits the window it was given back, and none follows the end of the stream.\<close>

definition delivery_ok :: "tcp_shift_bridge_flow \<Rightarrow> u8 list list option \<Rightarrow> bool" where
  "delivery_ok f p \<longleftrightarrow> (case p of None \<Rightarrow> True
     | Some q \<Rightarrow> \<not> public_eof f \<and> length (from_public f) + length (concat q) \<le> recved f + TCP_WND)"

lemma total_waiting_bound: "bridge_inv data b \<Longrightarrow> total_waiting b \<le> MAX_FLOWS * TCP_WND"
proof -
  assume inv: "bridge_inv data b"
  have "waiting (flow_heap b) g \<le> TCP_WND" for g
    using inv by (auto simp: bridge_inv_def flows_ok_def flow_holds_def public_side_ok_def waiting_def split: option.splits)
  then have "total_waiting b \<le> card (set (flows b)) * TCP_WND"
    unfolding total_waiting_def using sum_bounded_above [of "set (flows b)" "waiting (flow_heap b)" TCP_WND] by simp
  also have "card (set (flows b)) \<le> MAX_FLOWS" using inv by (metis account_ok_def bridge_inv_def distinct_card)
  finally show ?thesis by simp
qed

lemma track_step:
  assumes inv: "bridge_inv data b" and q: "length (concat q) \<le> TCP_WND"
  shows "same_flows b (tcp_shift_bridge_track_public_rx b q)"
    "unat (pending_public_bytes (tcp_shift_bridge_track_public_rx b q)) = unat (pending_public_bytes b) + length (concat q)"
proof -
  have len: "unat (ucast (chain_len q) :: u64) = length (concat q)"
    using q by (simp add: chain_len_def TCP_WND_def unsigned_of_nat take_bit_nat_eq_self)
  have "unat (pending_public_bytes b) \<le> MAX_FLOWS * TCP_WND"
    using inv total_waiting_bound [OF inv] by (simp add: bridge_inv_def account_ok_def)
  then have "unat (pending_public_bytes b) + length (concat q) < 2 ^ 64" using q by (simp add: MAX_FLOWS_def TCP_WND_def)
  then have "unat (pending_public_bytes b + ucast (chain_len q)) = unat (pending_public_bytes b) + length (concat q)"
    using len by (simp add: unat_plus_if')
  then show "unat (pending_public_bytes (tcp_shift_bridge_track_public_rx b q)) = unat (pending_public_bytes b) + length (concat q)"
    by (simp add: tcp_shift_bridge_track_public_rx_def Let_def)
  show "same_flows b (tcp_shift_bridge_track_public_rx b q)"
    by (simp add: tcp_shift_bridge_track_public_rx_def Let_def same_flows_def)
qed

text \<open>The flow with the delivered chain at its end.\<close>

definition deliver :: "tcp_shift_bridge_flow \<Rightarrow> u8 list list \<Rightarrow> tcp_shift_bridge_flow" where
  "deliver f q = f\<lparr>public_rx := Some (case public_rx f of None \<Rightarrow> q | Some segs \<Rightarrow> segs @ q),
                   from_public := from_public f @ concat q\<rparr>"

lemma deliver_step:
  assumes inv: "bridge_inv data b" and f: "flow_heap b fid = Some f" and d: "delivery_ok f (Some q)"
  shows "bridge_mid data (tcp_shift_bridge_track_public_rx b q) fid (deliver f q)" "backend_side_ok (data fid) (deliver f q)"
proof -
  have ok: "flow_holds (data fid) f" using inv f by (simp add: bridge_inv_def flows_ok_def)
  have rx: "rx_bytes_of (deliver f q) = rx_bytes_of f @ concat q"
    by (simp add: rx_bytes_of_def deliver_def split: option.splits)
  then have pd: "pending (deliver f q) = pending f + length (concat q)" by (simp add: pending_def)
  have len: "pending f + length (concat q) \<le> TCP_WND" using d ok
    by (simp add: delivery_ok_def flow_holds_def public_side_ok_def pending_def)
  have "public_side_ok (deliver f q)" using ok d len pd
    by (auto simp: flow_holds_def public_side_ok_def delivery_ok_def rx) (simp_all add: deliver_def)
  moreover have "account_step b f (tcp_shift_bridge_track_public_rx b q) (deliver f q)"
    using track_step [OF inv] len pd by (simp add: account_step_def)
  ultimately show "bridge_mid data (tcp_shift_bridge_track_public_rx b q) fid (deliver f q)"
    using bridge_mid_step [OF bridge_mid_start [OF inv f]] by blast
  show "backend_side_ok (data fid) (deliver f q)" using ok by (simp add: flow_holds_def backend_side_ok_def deliver_def)
qed

lemma eof_step:
  assumes inv: "bridge_inv data b" and f: "flow_heap b fid = Some f"
  shows "bridge_mid data b fid (f\<lparr>public_eof := True\<rparr>)" "backend_side_ok (data fid) (f\<lparr>public_eof := True\<rparr>)"
proof -
  have ok: "flow_holds (data fid) f" using inv f by (simp add: bridge_inv_def flows_ok_def)
  show "bridge_mid data b fid (f\<lparr>public_eof := True\<rparr>)"
    by (rule bridge_mid_flow [OF bridge_mid_start [OF inv f]])
      (use ok in \<open>simp_all add: flow_holds_def public_side_ok_def pending_def rx_bytes_of_def\<close>)
  show "backend_side_ok (data fid) (f\<lparr>public_eof := True\<rparr>)" using ok by (simp add: flow_holds_def backend_side_ok_def)
qed

lemma public_recv_inv:
  assumes inv: "bridge_inv data b" and f: "flow_heap b fid = Some f" and d: "delivery_ok f p"
    and r: "tcp_shift_bridge_public_recv b (Some fid) p err rs = Some (e, b', rs')"
  shows "bridge_inv data b'"
proof (cases "err = ERR_OK")
  case False
  let ?b = "b\<lparr>public_errors := public_errors b + 1\<rparr>"
  have "bridge_inv data ?b" by (rule bridge_inv_fields [OF _ _ inv]) (simp_all add: same_flows_def)
  then have "bridge_mid data ?b fid f" using bridge_mid_start [of data ?b fid f] f by simp
  then show ?thesis using r f False bridge_mid_abort by (auto simp: tcp_shift_bridge_public_recv_def)
next
  case True
  show ?thesis
  proof (cases p)
    case None
    then have "public_progress b fid (f\<lparr>public_eof := True\<rparr>) rs = Some (e, b', rs')"
      using r f True by (simp add: tcp_shift_bridge_public_recv_def)
    then show ?thesis using public_progress_inv eof_step [OF inv f] by blast
  next
    case (Some q)
    then have "public_progress (tcp_shift_bridge_track_public_rx b q) fid (deliver f q) rs = Some (e, b', rs')"
      using r f True by (simp add: tcp_shift_bridge_public_recv_def deliver_def)
    then show ?thesis using public_progress_inv deliver_step [OF inv f d [unfolded Some]] by blast
  qed
qed

end
