(* ===== verification/Bridge_Run.thy ===== *)
theory Bridge_Run
  imports Bridge_Flow
begin

text \<open>
  The runs of the bridge: the calls of lwIP and of the event loop in any order, on any flow, with any
  answers of the kernel and of lwIP. Every state of a run keeps the invariant of theory \<open>Bridge_Flow\<close>, from
  which the guarantees of the bridge follow.
\<close>

section \<open>A new connection\<close>

lemma link_account:
  assumes inv: "bridge_inv data b" and fid: "flow_heap b fid = None" and n: "length (flows b) < MAX_FLOWS"
    and b1: "flows b1 = fid # flows b" "active_flows b1 = active_flows b + 1" "flow_heap b1 = flow_heap b"
      "pending_public_bytes b1 = pending_public_bytes b" and f: "public_side_ok f" "pending f = 0"
  shows "bridge_mid data b1 fid f"
proof -
  have ok: "distinct (flows b)" "set (flows b) = dom (flow_heap b)" "unat (active_flows b) = length (flows b)"
      "unat (pending_public_bytes b) = total_waiting b" "flows_ok data b"
    using inv by (auto simp: bridge_inv_def account_ok_def)
  have new: "fid \<notin> set (flows b)" using fid ok(2) by auto
  have "unat (active_flows b + 1) = Suc (length (flows b))"
    using ok(3) n by (simp add: unat_plus_if' MAX_FLOWS_def)
  moreover have "total_waiting (commit b1 fid f) = total_waiting b"
    using total_waiting_commit [of fid b1 f] b1 new f(2) by (simp add: total_waiting_def)
  ultimately have "account_ok (commit b1 fid f)" using ok n b1 new by (auto simp: account_ok_def commit_def)
  then show ?thesis using f(1) b1 ok(5) by (simp add: bridge_mid_def flows_ok_def)
qed

lemma flow_new_ok:
  "flow_holds data ((flow_new fd data)\<lparr>backend_connected := c, backend_connecting := i, backend_watch := w\<rparr>)"
  "pending ((flow_new fd data)\<lparr>backend_connected := c, backend_connecting := i, backend_watch := w\<rparr>) = 0"
  by (simp_all add: flow_ok_defs flow_new_def pending_def rx_bytes_of_def)

lemma accept_flow_inv:
  assumes inv: "bridge_inv data b" and fid: "flow_heap b fid = None" and n: "length (flows b) < MAX_FLOWS"
    and f: "flow_holds (data fid) f" "pending f = 0" and r: "accept_flow b fid f rs = Some (e, b', rs')"
  shows "bridge_inv data b'"
proof -
  define b1 where "b1 = b\<lparr>flows := fid # flows b, active_flows := active_flows b + 1\<rparr>"
  define b2 where "b2 = (if active_flows b1 > peak_active_flows b1 then b1\<lparr>peak_active_flows := active_flows b1\<rparr> else b1)"
  obtain ok rs1 where 1: "next_rc rs = Some (ok, rs1)"
    using r by (cases "next_rc rs") (auto simp: accept_flow_def)
  obtain c L w where 2: "tcp_shift_lwip_loop_watch_add ok (bridge_loop b2) (backend_watch f) (backend_fd f)
      (tcp_shift_bridge_backend_events f) (Some (Client_Ready fid)) = (c, L, w)" by (metis prod_cases3)
  note res = r [unfolded accept_flow_def 1 bind.bind_lunit prod.case Let_def, folded b1_def, folded b2_def, unfolded 2 prod.case]
  have f': "public_side_ok f" using f(1) by (simp add: flow_holds_def)
  have mid: "bridge_mid data b3 fid f" if "b3 = b2\<lparr>bridge_loop := L\<rparr> \<or> b3 = b2\<lparr>bridge_loop := L, backend_failures := backend_failures b2 + 1\<rparr>" for b3
    by (rule link_account [OF inv fid n _ _ _ _ f' f(2)]) (use that in \<open>auto simp: b2_def b1_def\<close>)
  show ?thesis
  proof (cases "c < 0")
    case True
    then have "tcp_shift_bridge_flow_abort (b2\<lparr>bridge_loop := L, backend_failures := backend_failures b2 + 1\<rparr>) fid f rs1 =
        Some (b', rs')" using res by auto
    then show ?thesis by (rule bridge_mid_abort [OF mid [OF disjI2 [OF refl]]])
  next
    case False
    have "bridge_mid data (b2\<lparr>bridge_loop := L\<rparr>) fid (f\<lparr>backend_watch := w\<rparr>)"
      by (rule bridge_mid_flow [OF mid]) (use f' in \<open>auto simp: public_side_ok_def pending_def rx_bytes_of_def\<close>)
    moreover have "backend_side_ok (data fid) (f\<lparr>backend_watch := w\<rparr>)" using f(1) by (simp add: flow_holds_def backend_side_ok_def)
    ultimately show ?thesis using bridge_mid_commit res False by (fastforce simp: commit_def)
  qed
qed

lemma configure_inv:
  assumes "bridge_inv data b" "tcp_shift_bridge_configure_backend_socket b rs = Some (c, b', rs')"
  shows "bridge_inv data b' \<and> flow_heap b' = flow_heap b \<and> flows b' = flows b"
proof -
  have "same_flows b b' \<and> pending_public_bytes b' = pending_public_bytes b"
    using assms(2) by (auto simp: tcp_shift_bridge_configure_backend_socket_def same_flows_def Let_def split: bind_splits if_splits)
  then show ?thesis using bridge_inv_fields assms(1) by (auto simp: same_flows_def)
qed

lemma bridge_inv_counters:
  "bridge_inv data b \<Longrightarrow> bridge_inv data (b\<lparr>backend_failures := x\<rparr>)"
  "bridge_inv data b \<Longrightarrow> bridge_inv data (b\<lparr>backend_connects := x\<rparr>)"
  "bridge_inv data b \<Longrightarrow> bridge_inv data (b\<lparr>accepts := y\<rparr>)"
  by (erule bridge_inv_fields [rotated 2], simp_all add: same_flows_def)+

text \<open>What an accept does: it fails and only counts, or it links the connected or connecting flow.\<close>

definition linked_by :: "tcp_shift_bridge \<Rightarrow> nat \<Rightarrow> u8 list \<Rightarrow> (err_t \<times> tcp_shift_bridge \<times> bridge_reply list) \<Rightarrow> bool" where
  "linked_by b fid d result \<longleftrightarrow>
     (\<exists>fd x y rs. accept_flow b fid (flow_new fd d\<lparr>backend_connected := x, backend_connecting := y\<rparr>) rs = Some result)"

lemma linked_by_inv:
  assumes "bridge_inv data b" "flow_heap b fid = None" "length (flows b) < MAX_FLOWS" "linked_by b fid (data fid) (e, b', rs')"
  shows "bridge_inv data b'"
proof -
  obtain fd x y rs where
    "accept_flow b fid (flow_new fd (data fid)\<lparr>backend_connected := x, backend_connecting := y\<rparr>) rs = Some (e, b', rs')"
    using assms(4) by (auto simp: linked_by_def)
  then show ?thesis
    by (rule accept_flow_inv [OF assms(1-3), rotated 2]) (simp_all add: flow_ok_defs flow_new_def pending_def rx_bytes_of_def)
qed

lemma accept_connect_cases:
  assumes "(if v = 0
       then accept_flow (b\<lparr>backend_connects := backend_connects b + 1\<rparr>) fid ((flow_new fd d)\<lparr>backend_connected := True\<rparr>) rs
       else if v = (1 :: int)
       then accept_flow b fid ((flow_new fd d)\<lparr>backend_connecting := True\<rparr>) rs
       else Some (ERR_ABRT, b\<lparr>backend_failures := backend_failures b + 1\<rparr>, rs)) = Some result"
  shows "linked_by (b\<lparr>backend_connects := backend_connects b + 1\<rparr>) fid d result \<or> linked_by b fid d result \<or>
    fst (snd result) = b\<lparr>backend_failures := backend_failures b + 1\<rparr>"
proof -
  have "(flow_new fd d)\<lparr>backend_connected := True\<rparr> = flow_new fd d\<lparr>backend_connected := True, backend_connecting := False\<rparr>"
    "(flow_new fd d)\<lparr>backend_connecting := True\<rparr> = flow_new fd d\<lparr>backend_connected := False, backend_connecting := True\<rparr>"
    by (simp_all add: flow_new_def)
  then show ?thesis using assms unfolding linked_by_def by (metis fst_conv option.inject snd_conv)
qed

lemma accept_inv:
  assumes inv: "bridge_inv data b" and fid: "flow_heap b fid = None" and n: "length (flows b) < MAX_FLOWS"
    and r: "tcp_shift_bridge_accept b newpcb err fid (data fid) rs = Some (e, b', rs')"
  shows "bridge_inv data b'"
proof (cases "newpcb \<and> err = ERR_OK")
  case False
  then show ?thesis using r inv by (auto simp: tcp_shift_bridge_accept_def split: if_splits)
next
  case True
  define b1 where "b1 = b\<lparr>accepts := accepts b + 1\<rparr>"
  have 1: "bridge_inv data b1" "flow_heap b1 = flow_heap b" "flows b1 = flows b"
    using bridge_inv_counters(3) [OF inv] by (simp_all add: b1_def)
  have res: "tcp_shift_bridge_accept b True ERR_OK fid (data fid) rs = Some (e, b', rs')" using r True by simp
  note res = res [unfolded tcp_shift_bridge_accept_def Let_def, folded b1_def]
  obtain ok rs1 where a: "next_rc rs = Some (ok, rs1)" using res by (cases "next_rc rs") auto
  obtain fd rs2 where fd: "\<not> ok \<or> next_val rs1 = Some (fd, rs2)" using res a by (cases "next_val rs1") (auto split: if_splits)
  show ?thesis
  proof (cases "ok \<and> 0 \<le> fd")
    case False
    then show ?thesis using res a fd bridge_inv_counters(1) [OF 1(1)] 1(1) by (auto split: if_splits)
  next
    case opened: True
    obtain c b2 rs3 where c: "tcp_shift_bridge_configure_backend_socket b1 rs2 = Some (c, b2, rs3)"
      using res a fd opened by (cases "tcp_shift_bridge_configure_backend_socket b1 rs2") auto
    note 2 = configure_inv [OF 1(1) c]
    show ?thesis
    proof (cases "c < 0")
      case True
      then have "b' = b2\<lparr>backend_failures := backend_failures b2 + 1\<rparr>" using res a fd opened c by simp
      then show ?thesis using bridge_inv_counters(1) 2 by simp
    next
      case False
      obtain v rs4 where v: "next_val rs3 = Some (v, rs4)" using res a fd opened c False by (cases "next_val rs3") auto
      note cases = accept_connect_cases [of v b2 fid fd "data fid" rs4 "(e, b', rs')"]
      show ?thesis using cases res a fd opened c False v 2 1 fid n linked_by_inv [of data b2 fid e b' rs']
          linked_by_inv [of data "b2\<lparr>backend_connects := backend_connects b2 + 1\<rparr>" fid e b' rs'] bridge_inv_counters(2) [of data b2] bridge_inv_counters(1) [of data b2]
        by (simp split del: if_split) metis
    qed
  qed
qed

section \<open>Runs\<close>

text \<open>A run begins with a successful start and goes on with calls: a new connection, data or the end of the stream from the client,
  an acknowledgement, lwIP's poll, an error of the connection, and readiness of the backend's socket. The rest of
  the loop may change the loop between two calls.\<close>

inductive bridge_run :: "(nat \<Rightarrow> u8 list) \<Rightarrow> tcp_shift_bridge \<Rightarrow> bool" for data where
  start: "tcp_shift_bridge_start_type b0 loop pport bport type rs = Some (0, b, rs') \<Longrightarrow> bridge_run data b"
| loop: "bridge_run data b \<Longrightarrow> bridge_run data (b\<lparr>bridge_loop := L\<rparr>)"
| accept: "bridge_run data b \<Longrightarrow> flow_heap b fid = None \<Longrightarrow> length (flows b) < MAX_FLOWS \<Longrightarrow>
    tcp_shift_bridge_accept b newpcb err fid (data fid) rs = Some (e, b', rs') \<Longrightarrow> bridge_run data b'"
| recv: "bridge_run data b \<Longrightarrow> flow_heap b fid = Some f \<Longrightarrow> delivery_ok f p \<Longrightarrow>
    tcp_shift_bridge_public_recv b (Some fid) p err rs = Some (e, b', rs') \<Longrightarrow> bridge_run data b'"
| sent: "bridge_run data b \<Longrightarrow> tcp_shift_bridge_public_sent b (Some fid) rs = Some (e, b', rs') \<Longrightarrow> bridge_run data b'"
| poll: "bridge_run data b \<Longrightarrow> tcp_shift_bridge_public_poll b (Some fid) rs = Some (e, b', rs') \<Longrightarrow> bridge_run data b'"
| error: "bridge_run data b \<Longrightarrow> tcp_shift_bridge_public_error b (Some fid) rs = Some (b', rs') \<Longrightarrow> bridge_run data b'"
| ready: "bridge_run data b \<Longrightarrow> tcp_shift_bridge_backend_ready b fid events rs = Some (c, b', rs') \<Longrightarrow> bridge_run data b'"

lemma start_inv:
  assumes "tcp_shift_bridge_start_type b0 loop pport bport type rs = Some (0, b, rs')"
  shows "bridge_inv data b"
proof -
  have "b = (bridge_init loop pport bport)\<lparr>listener := True\<rparr>"
    using assms by (auto simp: tcp_shift_bridge_start_type_def Let_def split: if_splits bind_splits)
  then show ?thesis by (simp add: bridge_inv_def account_ok_def flows_ok_def total_waiting_def bridge_init_def)
qed

lemma bridge_run_inv: "bridge_run data b \<Longrightarrow> bridge_inv data b"
proof (induction rule: bridge_run.induct)
  case (loop b L)
  then show ?case using bridge_inv_fields [of b "b\<lparr>bridge_loop := L\<rparr>" data] by (simp add: same_flows_def)
qed (auto intro: start_inv accept_inv public_recv_inv public_sent_inv public_poll_inv public_error_inv backend_ready_inv)

lemma bridge_run_flow: "bridge_run data b \<Longrightarrow> flow_heap b fid = Some f \<Longrightarrow> flow_holds (data fid) f"
  by (drule bridge_run_inv) (simp add: bridge_inv_def flows_ok_def)

section \<open>Stopping\<close>

lemma abort_all_inv:
  "abort_all_flows b rs = Some (b', rs') \<Longrightarrow> bridge_inv data b \<Longrightarrow> bridge_inv data b' \<and> flows b' = []"
proof (induction b rs rule: abort_all_flows.induct)
  case (1 b rs)
  show ?case
  proof (cases "flows b")
    case Nil
    then show ?thesis using "1.prems" by (simp add: abort_all_flows.simps [of b])
  next
    case (Cons fid rest)
    then obtain f where f: "flow_heap b fid = Some f"
      using "1.prems"(1) by (auto simp: abort_all_flows.simps [of b] split: option.splits)
    obtain b1 rs1 where a: "tcp_shift_bridge_flow_abort b fid f rs = Some (b1, rs1)"
      using "1.prems"(1) Cons f by (auto simp: abort_all_flows.simps [of b] split: option.splits)
    have "bridge_inv data b1" by (rule bridge_mid_abort [OF bridge_mid_start [OF "1.prems"(2) f] a])
    then show ?thesis using "1.IH" [OF Cons f a refl] "1.prems"(1) Cons f a by (simp add: abort_all_flows.simps [of b])
  qed
qed

text \<open>With an answer for every flow the loop ends.\<close>

lemma release_returns:
  "\<exists>b' k. tcp_shift_bridge_flow_release b fid f (replicate (Suc n) (Rc ok)) = Some (b', replicate k (Rc ok)) \<and> n \<le> k"
  by (auto simp: tcp_shift_bridge_flow_release_def Let_def split: prod.splits intro: exI [of _ n] exI [of _ "Suc n"])

lemma abort_all_returns:
  "length (flows b) \<le> n \<Longrightarrow> bridge_inv data b \<Longrightarrow> \<exists>b' rs'. abort_all_flows b (replicate n (Rc ok)) = Some (b', rs')"
proof (induction "length (flows b)" arbitrary: b n)
  case 0
  then show ?case by (auto simp: abort_all_flows.simps [of b])
next
  case (Suc m)
  then obtain fid rest n1 where fid: "flows b = fid # rest" "n = Suc n1" by (cases "flows b"; cases n) auto
  then obtain f where f: "flow_heap b fid = Some f" using Suc.prems(2) by (fastforce simp: bridge_inv_def account_ok_def)
  obtain b1 k where a: "tcp_shift_bridge_flow_abort b fid f (replicate n (Rc ok)) = Some (b1, replicate k (Rc ok))" "n1 \<le> k"
    using release_returns [of b fid _ n1] unfolding tcp_shift_bridge_flow_abort_def fid(2) by blast
  have "bridge_inv data b1" by (rule bridge_mid_abort [OF bridge_mid_start [OF Suc.prems(2) f] a(1)])
  moreover have "flows b1 = rest" using abort_flows [OF a(1)] fid(1) by simp
  ultimately have "\<exists>b' rs'. abort_all_flows b1 (replicate k (Rc ok)) = Some (b', rs')"
    using Suc.hyps(1) [of b1 k] Suc.hyps(2) Suc.prems(1) fid a(2) by simp
  then show ?case using fid f a(1) by (simp add: abort_all_flows.simps [of b])
qed

lemma release_listener:
  "tcp_shift_bridge_flow_release b fid f rs = Some (b', rs') \<Longrightarrow> listener b' = listener b"
  by (auto simp: tcp_shift_bridge_flow_release_def tcp_shift_bridge_release_pending_public_def sub_pending_def
      tcp_shift_bridge_flow_unlink_def close_backend_def Let_def split: if_splits option.splits prod.splits)

lemma abort_listener: "tcp_shift_bridge_flow_abort b fid f rs = Some (b', rs') \<Longrightarrow> listener b' = listener b"
  unfolding tcp_shift_bridge_flow_abort_def by (rule release_listener)

lemma abort_all_listener: "abort_all_flows b rs = Some (b', rs') \<Longrightarrow> listener b' = listener b"
proof (induction b rs rule: abort_all_flows.induct)
  case (1 b rs)
  then show ?case
    by (auto simp: abort_all_flows.simps [of b] abort_listener split: list.splits option.splits prod.splits)
qed

lemma bridge_inv_empty:
  assumes "bridge_inv data b" "flows b = []"
  shows "flow_heap b = Map.empty \<and> active_flows b = 0 \<and> pending_public_bytes b = 0"
  using assms by (auto simp: bridge_inv_def account_ok_def total_waiting_def unat_eq_zero)

subsection \<open>A run on concrete data\<close>

text \<open>A connection whose client sends three bytes, of which the backend first takes two, and whose backend sends two; then both sides
  end their streams, and lwIP cannot close yet.\<close>

definition demo_data :: "nat \<Rightarrow> u8 list" where "demo_data fid = [7, 8]"

definition demo_started :: tcp_shift_bridge where
  "demo_started = fst (snd (the (tcp_shift_bridge_start_ipv4 (bridge_init loop_zero 0 0) (loop_zero\<lparr>epoll_fd := 3\<rparr>) 443 8080
     [Rc True, Lwip ERR_OK, Rc True, Lwip ERR_OK])))"

definition demo_accepted :: tcp_shift_bridge where
  "demo_accepted = fst (snd (the (tcp_shift_bridge_accept demo_started True ERR_OK 0 [7, 8]
     [Rc True, Val 5, Rc True, Rc True, Rc True, Val 16384, Rc True, Val 16384, Val 0, Rc True])))"

definition demo_received :: tcp_shift_bridge where
  "demo_received = fst (snd (the (tcp_shift_bridge_public_recv demo_accepted (Some 0) (Some [[1, 2, 3]]) ERR_OK
     [Sys (Bytes 2), Sys Interrupted, Sys Would_Block, Sndbuf 1000, Sys (Bytes 2), Lwip ERR_OK, Sys (Bytes 1), Sys (Bytes 1),
      Sndbuf 998, Sys Would_Block, Rc True])))"

definition demo_half_closed :: tcp_shift_bridge where
  "demo_half_closed = fst (snd (the (tcp_shift_bridge_public_recv demo_received (Some 0) None ERR_OK
     [Sys (Bytes 1), Sndbuf 998, Sys (Bytes 0), Rc True, Lwip ERR_OK, Lwip ERR_MEM, Rc True])))"

lemma result_of: "map_option (\<lambda>(e, b, rs). (e, rs)) x = Some (e, rs) \<Longrightarrow> x = Some (e, fst (snd (the x)), rs)"
  by (cases x) auto

lemma demo_start_result:
  "tcp_shift_bridge_start_type (bridge_init loop_zero 0 0) (loop_zero\<lparr>epoll_fd := 3\<rparr>) 443 8080 IPADDR_TYPE_V4
     [Rc True, Lwip ERR_OK, Rc True, Lwip ERR_OK] = Some (0, demo_started, [])"
  unfolding demo_started_def tcp_shift_bridge_start_ipv4_def by (rule result_of) code_simp

lemma demo_accept_result:
  "tcp_shift_bridge_accept demo_started True ERR_OK 0 (demo_data 0)
     [Rc True, Val 5, Rc True, Rc True, Rc True, Val 16384, Rc True, Val 16384, Val 0, Rc True] = Some (ERR_OK, demo_accepted, [])"
  unfolding demo_accepted_def demo_data_def by (rule result_of) code_simp

lemma demo_receive_result:
  "tcp_shift_bridge_public_recv demo_accepted (Some 0) (Some [[1, 2, 3]]) ERR_OK
     [Sys (Bytes 2), Sys Interrupted, Sys Would_Block, Sndbuf 1000, Sys (Bytes 2), Lwip ERR_OK, Sys (Bytes 1), Sys (Bytes 1),
      Sndbuf 998, Sys Would_Block, Rc True] = Some (ERR_OK, demo_received, [])"
  unfolding demo_received_def by (rule result_of) code_simp

lemma demo_close_result:
  "tcp_shift_bridge_public_recv demo_received (Some 0) None ERR_OK
     [Sys (Bytes 1), Sndbuf 998, Sys (Bytes 0), Rc True, Lwip ERR_OK, Lwip ERR_MEM, Rc True] = Some (ERR_OK, demo_half_closed, [])"
  unfolding demo_half_closed_def by (rule result_of) code_simp

definition demo_flow :: tcp_shift_bridge_flow where "demo_flow = the (flow_heap demo_received 0)"
definition demo_last :: tcp_shift_bridge_flow where "demo_last = the (flow_heap demo_half_closed 0)"

lemma demo_flow_live: "flow_heap demo_received 0 = Some demo_flow"
proof -
  have "flow_heap demo_received 0 \<noteq> None" by code_simp
  then show ?thesis by (simp add: demo_flow_def)
qed

lemma demo_last_live: "flow_heap demo_half_closed 0 = Some demo_last"
proof -
  have "flow_heap demo_half_closed 0 \<noteq> None" by code_simp
  then show ?thesis by (simp add: demo_last_def)
qed

lemma demo_accepted_flow: "\<exists>f. flow_heap demo_accepted 0 = Some f \<and> delivery_ok f (Some [[1, 2, 3]])"
proof -
  have "flow_heap demo_accepted 0 \<noteq> None" by code_simp
  then obtain f where f: "flow_heap demo_accepted 0 = Some f" by blast
  have "map_option (\<lambda>f. (public_eof f, from_public f)) (flow_heap demo_accepted 0) = Some (False, [])" by code_simp
  then show ?thesis using f by (simp add: delivery_ok_def TCP_WND_def)
qed

lemma demo_run: "bridge_run demo_data demo_started" "bridge_run demo_data demo_accepted"
    "bridge_run demo_data demo_received" "bridge_run demo_data demo_half_closed"
proof -
  show 1: "bridge_run demo_data demo_started" by (rule bridge_run.start [OF demo_start_result])
  have "flows demo_started = []" "flow_heap demo_started 0 = None" by code_simp+
  then show 2: "bridge_run demo_data demo_accepted" 
    using bridge_run.accept [OF 1 _ _ demo_accept_result] by (simp add: MAX_FLOWS_def)
  show 3: "bridge_run demo_data demo_received" using demo_accepted_flow bridge_run.recv [OF 2 _ _ demo_receive_result] by blast
  show "bridge_run demo_data demo_half_closed"
    by (rule bridge_run.recv [OF 3 demo_flow_live _ demo_close_result]) (simp add: delivery_ok_def)
qed

section \<open>The guarantees\<close>

text \<open>The space in lwIP's send buffer is a 32-bit number that the pump keeps in 16 bits: when the space is a
  multiple of 64 KiB the pump takes it for zero, reads nothing and stops asking for data. The poll repeats
  this with the same result as long as the space stays what it is.\<close>

lemma pump_blind_to_64k:
  "pump_loop (Suc budget) b f (Sndbuf (65536 * k) # rs) =
    (case tcp_shift_bridge_mark_backend_read_blocked b f of (b, f) \<Rightarrow> Some (0, b, f, rs))"
proof -
  have "(65536 :: u32) * k = push_bit 16 k" by (simp add: push_bit_eq_mult)
  then have "(ucast (65536 * k :: u32) :: u16) = 0" by (simp add: bit_eq_iff bit_unsigned_iff bit_push_bit_iff)
  then show ?thesis by simp
qed

text \<open>C1. In every state of a run, for every live flow, what the client sent is what the backend has taken followed by what
  waits, lwIP's window has been given back exactly what the backend has taken, and what lwIP has taken for the client
  followed by what is still to be read is what the backend sends: no byte is lost, repeated or reordered.\<close>

theorem bridge_streams_intact:
  assumes "bridge_run data b" and "flow_heap b fid = Some f"
  shows "from_public f = to_backend f @ rx_bytes_of f \<and> recved f = length (to_backend f) \<and> to_public f @ stream f = data fid"
  using bridge_run_flow [OF assms] by (simp add: flow_ok_defs)

text \<open>C16. A direction is closed only after its last byte: the bridge shuts down the backend's side only when the client's stream has ended and
  all of it has been written to the backend, and sends the end of the stream to the client only when all the
  backend sends has been handed to lwIP.\<close>

theorem bridge_half_close_in_order:
  assumes "bridge_run data b" and "flow_heap b fid = Some f"
  shows "(backend_write_shutdown f \<longrightarrow> public_eof f \<and> to_backend f = from_public f) \<and>
    (public_write_shutdown f \<longrightarrow> backend_eof f \<and> to_public f = data fid)"
  using bridge_run_flow [OF assms] by (auto simp: flow_ok_defs rx_bytes_of_def)

text \<open>C29. The bridge's account is exact in every state of a run: the list links each live flow once, the
  number of active flows is their number, the bytes pending are the sum of what waits in them, and no flow
  holds more than lwIP's window.\<close>

theorem bridge_account_exact:
  assumes "bridge_run data b"
  shows "distinct (flows b) \<and> set (flows b) = dom (flow_heap b) \<and> unat (active_flows b) = length (flows b) \<and>
    unat (pending_public_bytes b) = (\<Sum>fid\<in>set (flows b). waiting (flow_heap b) fid) \<and> waiting (flow_heap b) fid \<le> TCP_WND"
  using bridge_run_inv [OF assms]
  by (auto simp: bridge_inv_def account_ok_def total_waiting_def flows_ok_def flow_holds_def public_side_ok_def waiting_def
      split: option.splits)


text \<open>The theorems on the concrete run.\<close>

theorem bridge_streams_intact_witness:
  "to_backend demo_flow = [1, 2] \<and> from_public demo_flow = [1, 2] @ rx_bytes_of demo_flow \<and> recved demo_flow = length (to_backend demo_flow) \<and>
   to_public demo_flow @ stream demo_flow = demo_data 0"
proof -
  have "to_backend demo_flow = [1, 2]" by code_simp
  then show ?thesis using bridge_streams_intact [OF demo_run(3) demo_flow_live] by simp
qed

theorem bridge_half_close_in_order_witness:
  "backend_write_shutdown demo_last \<and> public_write_shutdown demo_last \<and> to_backend demo_last = from_public demo_last \<and>
   to_public demo_last = demo_data 0"
proof -
  have "backend_write_shutdown demo_last" "public_write_shutdown demo_last" by code_simp+
  then show ?thesis using bridge_half_close_in_order [OF demo_run(4) demo_last_live] by simp
qed

theorem bridge_account_exact_witness:
  "unat (pending_public_bytes demo_received) = (\<Sum>fid\<in>set (flows demo_received). waiting (flow_heap demo_received) fid) \<and>
   unat (active_flows demo_received) = length (flows demo_received) \<and> pending_public_bytes demo_received = 1"
proof -
  have "pending_public_bytes demo_received = 1" by code_simp
  then show ?thesis using bridge_account_exact [OF demo_run(3)] by blast
qed


end
