(* ===== verification/Bbr3_Model.thy ===== *)
theory Bbr3_Model
  imports Cc_Core Bbr_Math
begin

text \<open>
  The BBRv3 estimator of \<^verbatim>\<open>src/cc/bbr3_model.c\<close>: gains as rationals, the bandwidth filter over two probing
  cycles, the two RTT minima, packet-timed rounds, the detection of a full pipe and the headroom below the
  long-term bound. The static arithmetic helpers of the BBRv3 files are here too, with their exactness; the
  interfaces of saturating arithmetic of the prelude carry the proofs.
\<close>

section \<open>Arithmetic\<close>

text \<open>\<^verbatim>\<open>bbr3_model.c\<close>, \<^verbatim>\<open>bbr3_congestion.c\<close> and \<^verbatim>\<open>bbr3_probe.c\<close> have their own copies of these helpers.\<close>

definition max_u64 :: "u64 \<Rightarrow> u64 \<Rightarrow> u64" where
  "max_u64 left right = (if left > right then left else right)"

definition min_u64 :: "u64 \<Rightarrow> u64 \<Rightarrow> u64" where
  "min_u64 a b = (if a < b then a else b)"

definition sat_add :: "u64 \<Rightarrow> u64 \<Rightarrow> u64" where
  "sat_add a b = (if UINT64_MAX - a < b then UINT64_MAX else a + b)"

definition sat_mul :: "u64 \<Rightarrow> u64 \<Rightarrow> u64" where
  "sat_mul a b = (if a = 0 \<or> b = 0 then 0 else if a > UINT64_MAX div b then UINT64_MAX else a * b)"

definition mul64 :: "u64 \<Rightarrow> u64 \<Rightarrow> u64" where
  "mul64 a b = (if b \<noteq> 0 \<and> a > UINT64_MAX div b then UINT64_MAX else a * b)"

lemma max_u64_max [simp]: "max_u64 a b = max a b"
  by (auto simp: max_u64_def max_def)

lemma min_u64_min [simp]: "min_u64 a b = min a b"
  by (auto simp: min_u64_def min_def)

lemma mul64_sat_mul: "mul64 a b = sat_mul a b"
  by (auto simp: mul64_def sat_mul_def)

interpretation bbr3: rational_scale sat_add sat_mul
  by unfold_locales
    (simp_all add: sat_add_def sat_mul_def unat_add_guarded_u64 unat_mult_guarded_u64 del: not_less)

record tcp_shift_bbr3_gain =
  numerator :: u32
  denominator :: u32

definition tcp_shift_bbr3_scale :: "u64 \<Rightarrow> tcp_shift_bbr3_gain \<Rightarrow> u64" where
  "tcp_shift_bbr3_scale value gain =
    (if denominator gain = 0 then UINT64_MAX
     else
       let whole = value div u64_of (denominator gain)
       in if numerator gain \<noteq> 0 \<and> whole > UINT64_MAX div u64_of (numerator gain) then UINT64_MAX
          else
            let whole = whole * u64_of (numerator gain);
                fraction = (value mod u64_of (denominator gain)) * u64_of (numerator gain);
                fraction = fraction div u64_of (denominator gain)
            in if UINT64_MAX - whole < fraction then UINT64_MAX else whole + fraction)"

lemma sat_add_max: "sat_add UINT64_MAX f = UINT64_MAX"
  by (auto simp: sat_add_def word_le_nat_alt not_less word_zero_nat)

lemma bbr3_scale_is_floor_scale:
  "tcp_shift_bbr3_scale v g = scale_floor_with sat_add sat_mul v (numerator g) (denominator g)"
proof -
  have n: "u64_of (numerator g) = 0 \<longleftrightarrow> numerator g = 0" by (simp add: word_zero_nat)
  let ?w = "v div u64_of (denominator g)"
  have "(if numerator g \<noteq> 0 \<and> ?w > UINT64_MAX div u64_of (numerator g) then UINT64_MAX else ?w * u64_of (numerator g)) =
      sat_mul ?w (u64_of (numerator g))"
    using n by (auto simp: sat_mul_def)
  then show ?thesis using sat_add_max unfolding tcp_shift_bbr3_scale_def scale_floor_with_def Let_def sat_add_def
    by (auto simp: word_gt_0 split: if_splits)
qed

text \<open>The scaling is the exact quotient, saturated, whenever the gain has a denominator.\<close>

lemma unat_bbr3_scale:
  "denominator g \<noteq> 0 \<Longrightarrow>
   unat (tcp_shift_bbr3_scale v g) = min 18446744073709551615 (unat v * unat (numerator g) div unat (denominator g))"
  unfolding bbr3_scale_is_floor_scale by (rule bbr3.unat_scale_floor)

section \<open>The model\<close>

datatype tcp_shift_bbr3_phase =
    TCP_SHIFT_BBR3_STARTUP | TCP_SHIFT_BBR3_DRAIN | TCP_SHIFT_BBR3_PROBE_BW_DOWN | TCP_SHIFT_BBR3_PROBE_BW_CRUISE
  | TCP_SHIFT_BBR3_PROBE_BW_REFILL | TCP_SHIFT_BBR3_PROBE_BW_UP | TCP_SHIFT_BBR3_PROBE_RTT

definition TCP_SHIFT_BBR3_MAX_BW_CYCLES :: u32 where "TCP_SHIFT_BBR3_MAX_BW_CYCLES = 2"
definition TCP_SHIFT_BBR3_MIN_RTT_WINDOW_NS :: u64 where "TCP_SHIFT_BBR3_MIN_RTT_WINDOW_NS = 10000000000"
definition TCP_SHIFT_BBR3_PROBE_RTT_INTERVAL_NS :: u64 where "TCP_SHIFT_BBR3_PROBE_RTT_INTERVAL_NS = 5000000000"
definition TCP_SHIFT_BBR3_FULL_BW_ROUNDS :: u32 where "TCP_SHIFT_BBR3_FULL_BW_ROUNDS = 3"

record tcp_shift_bbr3_model =
  max_bw_bytes_per_sec :: u64
  max_bw_filter :: "u64 list"
  min_rtt_ns :: u64
  min_rtt_stamp_ns :: u64
  probe_rtt_min_delay_ns :: u64
  probe_rtt_min_stamp_ns :: u64
  last_update_ns :: u64
  next_round_delivered :: u64
  full_bw_bytes_per_sec :: u64
  round_count :: u32
  cycle_count :: u32
  full_bw_count :: u32
  has_bw :: bool
  has_min_rtt :: bool
  has_probe_rtt_min :: bool
  has_update_time :: bool
  round_start :: bool
  full_bw_reached :: bool
  probe_rtt_expired :: bool
  phase :: tcp_shift_bbr3_phase

definition tcp_shift_bbr3_model_init :: tcp_shift_bbr3_model where
  "tcp_shift_bbr3_model_init =
    \<lparr>max_bw_bytes_per_sec = 0, max_bw_filter = [0, 0], min_rtt_ns = 0, min_rtt_stamp_ns = 0, probe_rtt_min_delay_ns = 0,
     probe_rtt_min_stamp_ns = 0, last_update_ns = 0, next_round_delivered = 0, full_bw_bytes_per_sec = 0, round_count = 0,
     cycle_count = 0, full_bw_count = 0, has_bw = False, has_min_rtt = False, has_probe_rtt_min = False,
     has_update_time = False, round_start = False, full_bw_reached = False, probe_rtt_expired = False,
     phase = TCP_SHIFT_BBR3_STARTUP\<rparr>"

definition expired :: "u64 \<Rightarrow> u64 \<Rightarrow> u64 \<Rightarrow> bool" where
  "expired now_ns timestamp age_ns \<longleftrightarrow> now_ns > timestamp \<and> now_ns - timestamp > age_ns"

definition update_rtt :: "tcp_shift_bbr3_model \<Rightarrow> tcp_shift_cc_rate_sample \<Rightarrow> u64 \<Rightarrow> tcp_shift_bbr3_model" where
  "update_rtt model sample now_ns =
    (let probe_expired = has_probe_rtt_min model \<and>
           expired now_ns (probe_rtt_min_stamp_ns model) TCP_SHIFT_BBR3_PROBE_RTT_INTERVAL_NS;
         min_expired = has_min_rtt model \<and> expired now_ns (min_rtt_stamp_ns model) TCP_SHIFT_BBR3_MIN_RTT_WINDOW_NS;
         model = model\<lparr>probe_rtt_expired := probe_expired\<rparr>;
         model = (if has_flag sample TCP_SHIFT_CC_RATE_SAMPLE_RTT_VALID \<and> rtt_ns sample \<noteq> 0 \<and>
                     (\<not> has_probe_rtt_min model \<or> rtt_ns sample < probe_rtt_min_delay_ns model \<or> probe_expired)
                  then model\<lparr>probe_rtt_min_delay_ns := rtt_ns sample, probe_rtt_min_stamp_ns := now_ns, has_probe_rtt_min := True\<rparr>
                  else model)
     in if has_probe_rtt_min model \<and>
           (\<not> has_min_rtt model \<or> probe_rtt_min_delay_ns model < min_rtt_ns model \<or> min_expired)
        then model\<lparr>min_rtt_ns := probe_rtt_min_delay_ns model, min_rtt_stamp_ns := probe_rtt_min_stamp_ns model, has_min_rtt := True\<rparr>
        else model)"

definition update_round :: "tcp_shift_bbr3_model \<Rightarrow> tcp_shift_cc_rate_sample \<Rightarrow> tcp_shift_bbr3_model" where
  "update_round model sample =
    (let model = model\<lparr>round_start := False\<rparr>
     in if delivered_total_bytes sample = 0 \<or> prior_delivered_bytes sample < next_round_delivered model then model
        else model\<lparr>next_round_delivered := delivered_total_bytes sample, round_count := round_count model + 1,
                   round_start := True\<rparr>)"

text \<open>The guards of \<^verbatim>\<open>update_full_bw\<close>, and a quarter more than the reference rate, rounded up and saturated.\<close>

definition full_bw_judged :: "tcp_shift_bbr3_model \<Rightarrow> tcp_shift_cc_rate_sample \<Rightarrow> bool" where
  "full_bw_judged model sample \<longleftrightarrow> \<not> (full_bw_reached model \<or> \<not> round_start model \<or>
     \<not> has_flag sample TCP_SHIFT_CC_RATE_SAMPLE_VALID \<or> has_flag sample TCP_SHIFT_CC_RATE_SAMPLE_APP_LIMITED \<or>
     max_bw_bytes_per_sec model = 0)"

definition quarter_more :: "u64 \<Rightarrow> u64" where
  "quarter_more bw =
    (let quarter = bw div 4;
         quarter = (if bw mod 4 \<noteq> 0 then quarter + 1 else quarter)
     in if UINT64_MAX - bw < quarter then UINT64_MAX else bw + quarter)"

definition update_full_bw :: "tcp_shift_bbr3_model \<Rightarrow> tcp_shift_cc_rate_sample \<Rightarrow> tcp_shift_bbr3_model" where
  "update_full_bw model sample =
    (if \<not> full_bw_judged model sample then model
     else if full_bw_bytes_per_sec model = 0 \<or> max_bw_bytes_per_sec model \<ge> quarter_more (full_bw_bytes_per_sec model)
     then model\<lparr>full_bw_bytes_per_sec := max_bw_bytes_per_sec model, full_bw_count := 0\<rparr>
     else
       let model = model\<lparr>full_bw_count := full_bw_count model + 1\<rparr>
       in if full_bw_count model \<ge> TCP_SHIFT_BBR3_FULL_BW_ROUNDS then model\<lparr>full_bw_reached := True\<rparr> else model)"

text \<open>The part of \<^verbatim>\<open>tcp_shift_bbr3_model_on_ack\<close> that puts a rate into the slot of the current cycle.\<close>

definition admit_bw :: "tcp_shift_bbr3_model \<Rightarrow> tcp_shift_cc_rate_sample \<Rightarrow> tcp_shift_bbr3_model" where
  "admit_bw model sample =
    (let rate_bps = delivery_rate_bytes_per_sec sample
     in if has_flag sample TCP_SHIFT_CC_RATE_SAMPLE_VALID \<and> rate_bps \<noteq> 0 \<and>
           (rate_bps \<ge> max_bw_bytes_per_sec model \<or> \<not> has_flag sample TCP_SHIFT_CC_RATE_SAMPLE_APP_LIMITED)
        then
          let slot = unat (cycle_count model mod TCP_SHIFT_BBR3_MAX_BW_CYCLES);
              filter' = (max_bw_filter model)[slot := max_u64 rate_bps (max_bw_filter model ! slot)]
          in model\<lparr>max_bw_filter := filter', max_bw_bytes_per_sec := max_u64 (filter' ! 0) (filter' ! 1), has_bw := True\<rparr>
        else model)"

definition tcp_shift_bbr3_model_on_ack ::
    "tcp_shift_bbr3_model \<Rightarrow> tcp_shift_cc_rate_sample \<Rightarrow> u64 \<Rightarrow> int \<times> tcp_shift_bbr3_model" where
  "tcp_shift_bbr3_model_on_ack model sample now_ns =
    (if now_ns = 0 \<or> has_update_time model \<and> now_ns < last_update_ns model \<or>
        prior_delivered_bytes sample > delivered_total_bytes sample
     then (-1, model)
     else
       let model = model\<lparr>last_update_ns := now_ns, has_update_time := True\<rparr>;
           model = update_round model sample;
           model = update_rtt model sample now_ns;
           model = admit_bw model sample
       in (0, update_full_bw model sample))"

definition tcp_shift_bbr3_model_advance_bw_cycle :: "tcp_shift_bbr3_model \<Rightarrow> int \<times> tcp_shift_bbr3_model" where
  "tcp_shift_bbr3_model_advance_bw_cycle model =
    (if cycle_count model = UINT32_MAX then (-1, model)
     else
       let model = model\<lparr>cycle_count := cycle_count model + 1\<rparr>;
           slot = unat (cycle_count model mod TCP_SHIFT_BBR3_MAX_BW_CYCLES);
           filter' = (max_bw_filter model)[slot := 0];
           model = model\<lparr>max_bw_filter := filter', max_bw_bytes_per_sec := max_u64 (filter' ! 0) (filter' ! 1)\<rparr>
       in (0, model\<lparr>has_bw := max_bw_bytes_per_sec model \<noteq> 0\<rparr>))"

fun tcp_shift_bbr3_pacing_gain :: "tcp_shift_bbr3_phase \<Rightarrow> tcp_shift_bbr3_gain" where
  "tcp_shift_bbr3_pacing_gain TCP_SHIFT_BBR3_STARTUP = \<lparr>numerator = 277, denominator = 100\<rparr>"
| "tcp_shift_bbr3_pacing_gain TCP_SHIFT_BBR3_DRAIN = \<lparr>numerator = 1, denominator = 2\<rparr>"
| "tcp_shift_bbr3_pacing_gain TCP_SHIFT_BBR3_PROBE_BW_DOWN = \<lparr>numerator = 9, denominator = 10\<rparr>"
| "tcp_shift_bbr3_pacing_gain TCP_SHIFT_BBR3_PROBE_BW_UP = \<lparr>numerator = 5, denominator = 4\<rparr>"
| "tcp_shift_bbr3_pacing_gain TCP_SHIFT_BBR3_PROBE_BW_CRUISE = \<lparr>numerator = 1, denominator = 1\<rparr>"
| "tcp_shift_bbr3_pacing_gain TCP_SHIFT_BBR3_PROBE_BW_REFILL = \<lparr>numerator = 1, denominator = 1\<rparr>"
| "tcp_shift_bbr3_pacing_gain TCP_SHIFT_BBR3_PROBE_RTT = \<lparr>numerator = 1, denominator = 1\<rparr>"

definition tcp_shift_bbr3_cwnd_gain :: "tcp_shift_bbr3_phase \<Rightarrow> tcp_shift_bbr3_gain" where
  "tcp_shift_bbr3_cwnd_gain ph =
    (if ph = TCP_SHIFT_BBR3_PROBE_BW_UP then \<lparr>numerator = 9, denominator = 4\<rparr>
     else if ph = TCP_SHIFT_BBR3_PROBE_RTT then \<lparr>numerator = 1, denominator = 2\<rparr>
     else \<lparr>numerator = 2, denominator = 1\<rparr>)"

definition tcp_shift_bbr3_inflight_with_headroom :: "u64 \<Rightarrow> u32 \<Rightarrow> u64" where
  "tcp_shift_bbr3_inflight_with_headroom inflight_longterm mss =
    (let min_pipe = u64_of mss * 4
     in if mss = 0 then 0
        else if inflight_longterm = UINT64_MAX then UINT64_MAX
        else
          let headroom = tcp_shift_bbr3_scale inflight_longterm \<lparr>numerator = 15, denominator = 100\<rparr>;
              headroom = (if headroom < u64_of mss then u64_of mss else headroom);
              result = (if inflight_longterm > headroom then inflight_longterm - headroom else 0)
          in if result < min_pipe then min_pipe else result)"

end
