(* ===== verification/Bbr3_Probe.thy ===== *)
theory Bbr3_Probe
  imports Bbr3_Model
begin

text \<open>
  The BBRv3 bandwidth-probing scheduler of \<^verbatim>\<open>src/cc/bbr3_probe.c\<close>: the phases DOWN, CRUISE, REFILL and UP, the
  randomised wait, the wait in rounds that matches Reno, and the ageing of the bandwidth filter after feedback.
\<close>

section \<open>Definitions\<close>

definition NS_PER_SECOND :: u64 where "NS_PER_SECOND = 1000000000"
definition TCP_SHIFT_BBR3_PROBE_WAIT_BASE_NS :: u64 where "TCP_SHIFT_BBR3_PROBE_WAIT_BASE_NS = 2000000000"
definition TCP_SHIFT_BBR3_PROBE_WAIT_JITTER_NS :: u32 where "TCP_SHIFT_BBR3_PROBE_WAIT_JITTER_NS = 1000000000"
definition TCP_SHIFT_BBR3_RENO_MAX_ROUNDS :: u64 where "TCP_SHIFT_BBR3_RENO_MAX_ROUNDS = 63"

definition bdp_bytes :: "u64 \<Rightarrow> u64 \<Rightarrow> u64" where
  "bdp_bytes bw rtt =
    (if bw = 0 \<or> rtt = 0 then 0
     else
       let result = sat_add (sat_mul bw (rtt div NS_PER_SECOND))
             (sat_mul (bw div NS_PER_SECOND) (rtt mod NS_PER_SECOND));
           cross = (bw mod NS_PER_SECOND) * (rtt mod NS_PER_SECOND);
           result = sat_add result (cross div NS_PER_SECOND)
       in sat_add result (if cross mod NS_PER_SECOND \<noteq> 0 then 1 else 0))"

datatype tcp_shift_bbr3_ack_phase =
    TCP_SHIFT_BBR3_ACKS_INIT | TCP_SHIFT_BBR3_ACKS_REFILLING | TCP_SHIFT_BBR3_ACKS_PROBE_STARTING
  | TCP_SHIFT_BBR3_ACKS_PROBE_FEEDBACK | TCP_SHIFT_BBR3_ACKS_PROBE_STOPPING

record tcp_shift_bbr3_probe =
  cycle_stamp_ns :: u64
  probe_next_round_delivered :: u64
  up_full_bw_bytes_per_sec :: u64
  wait_ns :: u64
  random_state :: u32
  rounds_since_probe :: u32
  up_stagnant_rounds :: u32
  probe_up_rounds :: u32
  ack_phase :: tcp_shift_bbr3_ack_phase
  initialized :: bool
  previous_probe_too_high :: bool
  previous_probe_precautionary :: bool
  probe_bw_sample :: bool
  pending_probe_feedback :: bool

record tcp_shift_bbr3_probe_ack =
  pa_rate :: tcp_shift_cc_rate_sample
  pa_now_ns :: u64
  pa_inflight_longterm_bytes :: u64
  pa_inflight_bytes :: u32
  pa_cwnd_bytes :: u32
  pa_mss_bytes :: u32
  pa_cwnd_limited :: bool
  qualified_loss_too_high :: bool

definition random_next :: "tcp_shift_bbr3_probe \<Rightarrow> u32 \<times> tcp_shift_bbr3_probe" where
  "random_next probe =
    (let v = random_state probe;
         v = v XOR push_bit 13 v;
         v = v XOR drop_bit 17 v;
         v = v XOR push_bit 5 v
     in (v, probe\<lparr>random_state := v\<rparr>))"

definition begin_round :: "tcp_shift_bbr3_probe \<Rightarrow> u64 \<Rightarrow> tcp_shift_bbr3_probe" where
  "begin_round probe delivered_total = probe\<lparr>probe_next_round_delivered := delivered_total\<rparr>"

definition pick_wait :: "tcp_shift_bbr3_probe \<Rightarrow> tcp_shift_bbr3_probe" where
  "pick_wait probe =
    (let (v, probe) = random_next probe;
         probe = probe\<lparr>rounds_since_probe := v AND 1\<rparr>;
         (v, probe) = random_next probe
     in probe\<lparr>wait_ns := TCP_SHIFT_BBR3_PROBE_WAIT_BASE_NS + u64_of (v mod TCP_SHIFT_BBR3_PROBE_WAIT_JITTER_NS)\<rparr>)"

definition enter_down ::
    "tcp_shift_bbr3_probe \<Rightarrow> tcp_shift_bbr3_model \<Rightarrow> u64 \<Rightarrow> u64 \<Rightarrow> tcp_shift_bbr3_probe \<times> tcp_shift_bbr3_model" where
  "enter_down probe model now_ns delivered_total =
    (let probe = pick_wait probe;
         probe = probe\<lparr>cycle_stamp_ns := now_ns, ack_phase := TCP_SHIFT_BBR3_ACKS_PROBE_STOPPING, probe_bw_sample := False\<rparr>
     in (begin_round probe delivered_total, model\<lparr>phase := TCP_SHIFT_BBR3_PROBE_BW_DOWN\<rparr>))"

definition enter_refill ::
    "tcp_shift_bbr3_probe \<Rightarrow> tcp_shift_bbr3_model \<Rightarrow> u64 \<Rightarrow> tcp_shift_bbr3_probe \<times> tcp_shift_bbr3_model" where
  "enter_refill probe model delivered_total =
    (begin_round (probe\<lparr>probe_up_rounds := 0, up_stagnant_rounds := 0, previous_probe_precautionary := False,
                        ack_phase := TCP_SHIFT_BBR3_ACKS_REFILLING\<rparr>) delivered_total,
     model\<lparr>phase := TCP_SHIFT_BBR3_PROBE_BW_REFILL\<rparr>)"

definition enter_up ::
    "tcp_shift_bbr3_probe \<Rightarrow> tcp_shift_bbr3_model \<Rightarrow> tcp_shift_bbr3_probe_ack \<Rightarrow> tcp_shift_bbr3_probe \<times> tcp_shift_bbr3_model" where
  "enter_up probe model ack =
    (begin_round (probe\<lparr>ack_phase := TCP_SHIFT_BBR3_ACKS_PROBE_STARTING, up_stagnant_rounds := 0,
                        up_full_bw_bytes_per_sec := delivery_rate_bytes_per_sec (pa_rate ack), probe_up_rounds := 1,
                        probe_bw_sample := True\<rparr>) (delivered_total_bytes (pa_rate ack)),
     model\<lparr>phase := TCP_SHIFT_BBR3_PROBE_BW_UP\<rparr>)"

definition tcp_shift_bbr3_probe_enter ::
    "tcp_shift_bbr3_probe \<Rightarrow> tcp_shift_bbr3_model \<Rightarrow> u64 \<Rightarrow> u64 \<Rightarrow> u32 \<Rightarrow>
     int \<times> tcp_shift_bbr3_probe \<times> tcp_shift_bbr3_model" where
  "tcp_shift_bbr3_probe_enter probe model now_ns delivered_total flow_seed =
    (if now_ns = 0 \<or> flow_seed = 0 \<or> \<not> full_bw_reached model \<or> max_bw_bytes_per_sec model = 0 \<or> \<not> has_min_rtt model \<or>
        min_rtt_ns model = 0 \<or> initialized probe
     then (-1, probe, model)
     else
       let probe = \<lparr>cycle_stamp_ns = 0, probe_next_round_delivered = 0, up_full_bw_bytes_per_sec = 0, wait_ns = 0,
             random_state = flow_seed, rounds_since_probe = 0, up_stagnant_rounds = 0, probe_up_rounds = 0,
             ack_phase = TCP_SHIFT_BBR3_ACKS_INIT, initialized = True, previous_probe_too_high = False,
             previous_probe_precautionary = False, probe_bw_sample = False, pending_probe_feedback = False\<rparr>;
           (probe, model) = enter_down probe model now_ns delivered_total
       in (0, probe, model))"

definition probe_round_start :: "tcp_shift_bbr3_probe \<Rightarrow> tcp_shift_cc_rate_sample \<Rightarrow> bool \<times> tcp_shift_bbr3_probe" where
  "probe_round_start probe sample =
    (if delivered_total_bytes sample = 0 \<or> prior_delivered_bytes sample < probe_next_round_delivered probe
     then (False, probe)
     else
       let probe = begin_round probe (delivered_total_bytes sample)
       in (True, if rounds_since_probe probe < UINT32_MAX
                 then probe\<lparr>rounds_since_probe := rounds_since_probe probe + 1\<rparr> else probe))"

definition reno_wait_rounds :: "tcp_shift_bbr3_model \<Rightarrow> tcp_shift_bbr3_probe_ack \<Rightarrow> u32" where
  "reno_wait_rounds model ack =
    (let bdp = bdp_bytes (max_bw_bytes_per_sec model) (min_rtt_ns model);
         target = (if bdp < u64_of (pa_cwnd_bytes ack) then bdp else u64_of (pa_cwnd_bytes ack));
         packets = target div u64_of (pa_mss_bytes ack);
         packets = (if target mod u64_of (pa_mss_bytes ack) \<noteq> 0 then packets + 1 else packets);
         packets = (if packets > TCP_SHIFT_BBR3_RENO_MAX_ROUNDS then TCP_SHIFT_BBR3_RENO_MAX_ROUNDS else packets)
     in u32_of packets)"

definition time_to_probe ::
    "tcp_shift_bbr3_probe \<Rightarrow> tcp_shift_bbr3_model \<Rightarrow> tcp_shift_bbr3_probe_ack \<Rightarrow>
     bool \<times> tcp_shift_bbr3_probe \<times> tcp_shift_bbr3_model" where
  "time_to_probe probe model ack =
    (if pa_now_ns ack > cycle_stamp_ns probe \<and> pa_now_ns ack - cycle_stamp_ns probe > wait_ns probe \<or>
        rounds_since_probe probe \<ge> reno_wait_rounds model ack
     then (True, enter_refill probe model (delivered_total_bytes (pa_rate ack)))
     else (False, probe, model))"

definition time_to_cruise :: "tcp_shift_bbr3_model \<Rightarrow> tcp_shift_bbr3_probe_ack \<Rightarrow> bool" where
  "time_to_cruise model ack \<longleftrightarrow>
     u64_of (pa_inflight_bytes ack) \<le> bdp_bytes (max_bw_bytes_per_sec model) (min_rtt_ns model) \<and>
     u64_of (pa_inflight_bytes ack) \<le> tcp_shift_bbr3_inflight_with_headroom (pa_inflight_longterm_bytes ack) (pa_mss_bytes ack)"

definition up_plateau :: "tcp_shift_bbr3_probe \<Rightarrow> tcp_shift_bbr3_probe_ack \<Rightarrow> bool \<Rightarrow> bool \<times> tcp_shift_bbr3_probe" where
  "up_plateau probe ack new_round =
    (let rate_bps = delivery_rate_bytes_per_sec (pa_rate ack)
     in if \<not> has_flag (pa_rate ack) TCP_SHIFT_CC_RATE_SAMPLE_VALID \<or>
           has_flag (pa_rate ack) TCP_SHIFT_CC_RATE_SAMPLE_APP_LIMITED \<or> rate_bps = 0
        then (False, probe)
        else
          let increment = up_full_bw_bytes_per_sec probe div 4;
              increment = (if up_full_bw_bytes_per_sec probe mod 4 \<noteq> 0 then increment + 1 else increment);
              threshold = sat_add (up_full_bw_bytes_per_sec probe) increment;
              probe =
                (if up_full_bw_bytes_per_sec probe = 0 \<or> rate_bps \<ge> threshold
                 then probe\<lparr>up_full_bw_bytes_per_sec := rate_bps, up_stagnant_rounds := 0\<rparr>
                 else if new_round \<and> up_stagnant_rounds probe < UINT32_MAX
                 then probe\<lparr>up_stagnant_rounds := up_stagnant_rounds probe + 1\<rparr>
                 else probe)
          in (up_stagnant_rounds probe \<ge> TCP_SHIFT_BBR3_FULL_BW_ROUNDS, probe))"

text \<open>The end of the round after a probe, in phase DOWN: the filter ages after feedback from a sample that counts, and a probe
  stopped as a precaution is resumed. The first component is the code to return with, if any.\<close>

definition probe_stopping ::
    "tcp_shift_bbr3_probe \<Rightarrow> tcp_shift_bbr3_model \<Rightarrow> tcp_shift_bbr3_probe_ack \<Rightarrow>
     int option \<times> tcp_shift_bbr3_probe \<times> tcp_shift_bbr3_model" where
  "probe_stopping probe model ack =
    (let probe = probe\<lparr>ack_phase := TCP_SHIFT_BBR3_ACKS_INIT\<rparr>;
         (r, model) =
           (if pending_probe_feedback probe \<and> \<not> has_flag (pa_rate ack) TCP_SHIFT_CC_RATE_SAMPLE_APP_LIMITED \<and>
               has_flag (pa_rate ack) TCP_SHIFT_CC_RATE_SAMPLE_VALID
            then tcp_shift_bbr3_model_advance_bw_cycle model else (0, model))
     in if r \<noteq> 0 then (Some (-1), probe, model)
        else
          let probe = probe\<lparr>pending_probe_feedback := False\<rparr>
          in if previous_probe_precautionary probe \<and> \<not> previous_probe_too_high probe
             then (Some 0, enter_refill probe model (delivered_total_bytes (pa_rate ack)))
             else (None, probe, model))"

text \<open>Phase UP: too much loss, a precaution below the long-term bound, growth at the bound, or a plateau.\<close>

definition probe_up_phase ::
    "tcp_shift_bbr3_probe \<Rightarrow> tcp_shift_bbr3_model \<Rightarrow> tcp_shift_bbr3_probe_ack \<Rightarrow> bool \<Rightarrow>
     tcp_shift_bbr3_probe \<times> tcp_shift_bbr3_model" where
  "probe_up_phase probe model ack new_round =
    (let probe = (if new_round \<and> ack_phase probe = TCP_SHIFT_BBR3_ACKS_PROBE_STARTING
                  then probe\<lparr>ack_phase := TCP_SHIFT_BBR3_ACKS_PROBE_FEEDBACK\<rparr> else probe);
         down = (\<lambda>probe. enter_down probe model (pa_now_ns ack) (delivered_total_bytes (pa_rate ack)))
     in if qualified_loss_too_high ack
        then down (probe\<lparr>previous_probe_too_high := True, pending_probe_feedback := True\<rparr>)
        else if previous_probe_too_high probe \<and> pa_inflight_longterm_bytes ack \<noteq> UINT64_MAX \<and>
                u64_of (pa_inflight_bytes ack) \<ge> pa_inflight_longterm_bytes ack
        then down (probe\<lparr>previous_probe_precautionary := True, previous_probe_too_high := False, pending_probe_feedback := True\<rparr>)
        else if pa_cwnd_limited ack \<and> pa_inflight_longterm_bytes ack \<noteq> UINT64_MAX \<and>
                u64_of (pa_cwnd_bytes ack) \<ge> pa_inflight_longterm_bytes ack
        then (probe\<lparr>up_full_bw_bytes_per_sec := delivery_rate_bytes_per_sec (pa_rate ack), up_stagnant_rounds := 0\<rparr>, model)
        else
          let (plateau, probe) = up_plateau probe ack new_round
          in if plateau then down (probe\<lparr>previous_probe_too_high := False, pending_probe_feedback := True\<rparr>)
             else (probe, model))"

definition probe_phase ::
    "tcp_shift_bbr3_probe \<Rightarrow> tcp_shift_bbr3_model \<Rightarrow> tcp_shift_bbr3_probe_ack \<Rightarrow> bool \<Rightarrow>
     int \<times> tcp_shift_bbr3_probe \<times> tcp_shift_bbr3_model" where
  "probe_phase probe model ack new_round =
    (case phase model of
       TCP_SHIFT_BBR3_PROBE_BW_DOWN \<Rightarrow>
         (let (go, probe, model) = time_to_probe probe model ack
          in (0, probe, if \<not> go \<and> time_to_cruise model ack then model\<lparr>phase := TCP_SHIFT_BBR3_PROBE_BW_CRUISE\<rparr> else model))
     | TCP_SHIFT_BBR3_PROBE_BW_CRUISE \<Rightarrow> (let (_, probe, model) = time_to_probe probe model ack in (0, probe, model))
     | TCP_SHIFT_BBR3_PROBE_BW_REFILL \<Rightarrow> if new_round then (0, enter_up probe model ack) else (0, probe, model)
     | TCP_SHIFT_BBR3_PROBE_BW_UP \<Rightarrow> (0, probe_up_phase probe model ack new_round)
     | _ \<Rightarrow> (-1, probe, model))"

fun in_probe_bw :: "tcp_shift_bbr3_phase \<Rightarrow> bool" where
  "in_probe_bw TCP_SHIFT_BBR3_STARTUP = False"
| "in_probe_bw TCP_SHIFT_BBR3_DRAIN = False"
| "in_probe_bw TCP_SHIFT_BBR3_PROBE_RTT = False"
| "in_probe_bw _ = True"

definition tcp_shift_bbr3_probe_on_ack ::
    "tcp_shift_bbr3_probe \<Rightarrow> tcp_shift_bbr3_model \<Rightarrow> tcp_shift_bbr3_probe_ack \<Rightarrow>
     int \<times> tcp_shift_bbr3_probe \<times> tcp_shift_bbr3_model" where
  "tcp_shift_bbr3_probe_on_ack probe model ack =
    (if \<not> initialized probe \<or> \<not> full_bw_reached model \<or> pa_now_ns ack = 0 \<or> pa_now_ns ack < cycle_stamp_ns probe \<or>
        pa_mss_bytes ack = 0 \<or> pa_cwnd_bytes ack = 0 \<or>
        prior_delivered_bytes (pa_rate ack) > delivered_total_bytes (pa_rate ack) \<or> \<not> in_probe_bw (phase model)
     then (-1, probe, model)
     else if delivered_total_bytes (pa_rate ack) = prior_delivered_bytes (pa_rate ack) then (0, probe, model)
     else
       let (new_round, probe) = probe_round_start probe (pa_rate ack)
       in if phase model = TCP_SHIFT_BBR3_PROBE_BW_DOWN \<and> new_round \<and> ack_phase probe = TCP_SHIFT_BBR3_ACKS_PROBE_STOPPING
          then (case probe_stopping probe model ack of
                  (Some r, probe, model) \<Rightarrow> (r, probe, model)
                | (None, probe, model) \<Rightarrow> probe_phase probe model ack new_round)
          else probe_phase probe model ack new_round)"

end
