(* ===== verification/Bbr3_Congestion.thy ===== *)
theory Bbr3_Congestion
  imports Bbr3_Model
begin

text \<open>
  The BBRv3 congestion model of \<^verbatim>\<open>src/cc/bbr3_congestion.c\<close>: the short-term and long-term bounds, the response to
  loss and to ECN marks at the end of a loss round, the judgement of a bandwidth probe, the growth of the
  long-term bound, and undo of a spurious recovery.
\<close>

section \<open>Definitions\<close>

definition ratio :: "u64 \<Rightarrow> u32 \<Rightarrow> u32 \<Rightarrow> u64" where
  "ratio v num den =
    (if den = 0 then UINT64_MAX
     else
       let quotient = v div u64_of den; remainder = v mod u64_of den
       in if num \<noteq> 0 \<and> quotient > UINT64_MAX div u64_of num then UINT64_MAX
          else sat_add (quotient * u64_of num) (remainder * u64_of num div u64_of den))"

definition greater_than_percent :: "u64 \<Rightarrow> u64 \<Rightarrow> u32 \<Rightarrow> bool" where
  "greater_than_percent num den percent \<longleftrightarrow> \<not> (den = 0 \<or> num = 0) \<and> num > ratio den percent 100"

definition TCP_SHIFT_BBR3_UNBOUNDED :: u64 where "TCP_SHIFT_BBR3_UNBOUNDED = UINT64_MAX"
definition TCP_SHIFT_BBR3_LOSS_BETA_NUM :: u32 where "TCP_SHIFT_BBR3_LOSS_BETA_NUM = 7"
definition TCP_SHIFT_BBR3_LOSS_BETA_DEN :: u32 where "TCP_SHIFT_BBR3_LOSS_BETA_DEN = 10"
definition TCP_SHIFT_BBR3_EXCESS_LOSS_PERCENT :: u32 where "TCP_SHIFT_BBR3_EXCESS_LOSS_PERCENT = 2"
definition TCP_SHIFT_BBR3_ECN_ALPHA_SCALE :: u32 where "TCP_SHIFT_BBR3_ECN_ALPHA_SCALE = 256"
definition TCP_SHIFT_BBR3_ECN_ALPHA_GAIN_DEN :: u32 where "TCP_SHIFT_BBR3_ECN_ALPHA_GAIN_DEN = 16"
definition TCP_SHIFT_BBR3_ECN_FACTOR_Q8 :: u32 where "TCP_SHIFT_BBR3_ECN_FACTOR_Q8 = 85"
definition TCP_SHIFT_BBR3_ECN_EXCESS_PERCENT :: u32 where "TCP_SHIFT_BBR3_ECN_EXCESS_PERCENT = 50"

lemmas bbr3_congestion_consts = TCP_SHIFT_BBR3_UNBOUNDED_def TCP_SHIFT_BBR3_LOSS_BETA_NUM_def
  TCP_SHIFT_BBR3_LOSS_BETA_DEN_def TCP_SHIFT_BBR3_EXCESS_LOSS_PERCENT_def TCP_SHIFT_BBR3_ECN_ALPHA_SCALE_def
  TCP_SHIFT_BBR3_ECN_ALPHA_GAIN_DEN_def TCP_SHIFT_BBR3_ECN_FACTOR_Q8_def TCP_SHIFT_BBR3_ECN_EXCESS_PERCENT_def

definition TCP_SHIFT_BBR3_SIGNAL_EXCESS_LOSS :: u32 where "TCP_SHIFT_BBR3_SIGNAL_EXCESS_LOSS = 1"
definition TCP_SHIFT_BBR3_SIGNAL_EXCESS_ECN :: u32 where "TCP_SHIFT_BBR3_SIGNAL_EXCESS_ECN = 2"

record tcp_shift_bbr3_congestion =
  bw_shortterm_bytes_per_sec :: u64
  inflight_shortterm_bytes :: u64
  inflight_longterm_bytes :: u64
  bw_latest_bytes_per_sec :: u64
  inflight_latest_bytes :: u64
  ecn_round_delivered_bytes :: u64
  ecn_round_ce_bytes :: u64
  probe_up_acked_bytes :: u64
  probe_up_acked_per_inc_bytes :: u64
  undo_bw_shortterm :: u64
  undo_inflight_shortterm :: u64
  undo_inflight_longterm :: u64
  ecn_alpha_q8 :: u32
  cong_probe_up_rounds :: u32
  loss_in_round :: bool
  ecn_in_round :: bool
  probe_feedback_consumed :: bool
  undo_valid :: bool

record tcp_shift_bbr3_congestion_ack =
  ca_delivery_rate_bytes_per_sec :: u64
  ca_max_bw_bytes_per_sec :: u64
  newly_delivered_bytes :: u64
  rate_sample_delivered_bytes :: u64
  newly_lost_bytes :: u64
  newly_ce_bytes :: u64
  tx_inflight_bytes :: u64
  ca_cwnd_bytes :: u64
  target_inflight_bytes :: u64
  newly_acked_bytes :: u64
  ca_mss_bytes :: u32
  rate_valid :: bool
  app_limited :: bool
  ecn_eligible :: bool
  probing_bandwidth :: bool
  probe_sample :: bool
  probe_up :: bool
  cwnd_limited :: bool
  loss_round_end :: bool
  ca_round_start :: bool

definition tcp_shift_bbr3_congestion_init :: tcp_shift_bbr3_congestion where
  "tcp_shift_bbr3_congestion_init =
    \<lparr>bw_shortterm_bytes_per_sec = TCP_SHIFT_BBR3_UNBOUNDED, inflight_shortterm_bytes = TCP_SHIFT_BBR3_UNBOUNDED,
     inflight_longterm_bytes = TCP_SHIFT_BBR3_UNBOUNDED, bw_latest_bytes_per_sec = 0, inflight_latest_bytes = 0,
     ecn_round_delivered_bytes = 0, ecn_round_ce_bytes = 0, probe_up_acked_bytes = 0, probe_up_acked_per_inc_bytes = 0,
     undo_bw_shortterm = 0, undo_inflight_shortterm = 0, undo_inflight_longterm = 0,
     ecn_alpha_q8 = TCP_SHIFT_BBR3_ECN_ALPHA_SCALE, cong_probe_up_rounds = 0, loss_in_round = False, ecn_in_round = False,
     probe_feedback_consumed = False, undo_valid = False\<rparr>"

definition tcp_shift_bbr3_congestion_reset_shortterm :: "tcp_shift_bbr3_congestion \<Rightarrow> tcp_shift_bbr3_congestion" where
  "tcp_shift_bbr3_congestion_reset_shortterm s =
    s\<lparr>bw_shortterm_bytes_per_sec := TCP_SHIFT_BBR3_UNBOUNDED, inflight_shortterm_bytes := TCP_SHIFT_BBR3_UNBOUNDED\<rparr>"

definition tcp_shift_bbr3_congestion_begin_probe :: "tcp_shift_bbr3_congestion \<Rightarrow> tcp_shift_bbr3_congestion" where
  "tcp_shift_bbr3_congestion_begin_probe s =
    tcp_shift_bbr3_congestion_reset_shortterm
      (s\<lparr>probe_feedback_consumed := False, probe_up_acked_bytes := 0, probe_up_acked_per_inc_bytes := 0,
         cong_probe_up_rounds := 0\<rparr>)"

definition tcp_shift_bbr3_congestion_save_recovery :: "tcp_shift_bbr3_congestion \<Rightarrow> int \<times> tcp_shift_bbr3_congestion" where
  "tcp_shift_bbr3_congestion_save_recovery s =
    (0, s\<lparr>undo_bw_shortterm := bw_shortterm_bytes_per_sec s, undo_inflight_shortterm := inflight_shortterm_bytes s,
          undo_inflight_longterm := inflight_longterm_bytes s, undo_valid := True\<rparr>)"

definition tcp_shift_bbr3_congestion_undo_spurious :: "tcp_shift_bbr3_congestion \<Rightarrow> int \<times> tcp_shift_bbr3_congestion" where
  "tcp_shift_bbr3_congestion_undo_spurious s =
    (if \<not> undo_valid s then (-1, s)
     else (0, s\<lparr>bw_shortterm_bytes_per_sec := max_u64 (bw_shortterm_bytes_per_sec s) (undo_bw_shortterm s),
                inflight_shortterm_bytes := max_u64 (inflight_shortterm_bytes s) (undo_inflight_shortterm s),
                inflight_longterm_bytes := max_u64 (inflight_longterm_bytes s) (undo_inflight_longterm s),
                loss_in_round := False, ecn_in_round := False, ecn_round_delivered_bytes := 0, ecn_round_ce_bytes := 0,
                bw_latest_bytes_per_sec := 0, inflight_latest_bytes := 0, undo_valid := False\<rparr>))"

definition finish_ecn_round :: "tcp_shift_bbr3_congestion \<Rightarrow> tcp_shift_bbr3_congestion" where
  "finish_ecn_round s =
    (if ecn_round_delivered_bytes s = 0 then s
     else
       let measured = ratio (ecn_round_ce_bytes s) TCP_SHIFT_BBR3_ECN_ALPHA_SCALE
             (u32_of (min_u64 (ecn_round_delivered_bytes s) (u64_of UINT32_MAX)));
           measured =
             (if ecn_round_delivered_bytes s > u64_of UINT32_MAX
              then
                let coarse = ecn_round_delivered_bytes s div u64_of TCP_SHIFT_BBR3_ECN_ALPHA_SCALE
                in if coarse \<noteq> 0 then ecn_round_ce_bytes s div coarse else 0
              else measured);
           measured = min_u64 measured (u64_of TCP_SHIFT_BBR3_ECN_ALPHA_SCALE);
           blended = u64_of (ecn_alpha_q8 s) * u64_of (TCP_SHIFT_BBR3_ECN_ALPHA_GAIN_DEN - 1) + measured
       in s\<lparr>ecn_alpha_q8 := u32_of (blended div u64_of TCP_SHIFT_BBR3_ECN_ALPHA_GAIN_DEN)\<rparr>)"

text \<open>The two cuts of \<^verbatim>\<open>finish_loss_round\<close>.\<close>

definition loss_cut :: "tcp_shift_bbr3_congestion \<Rightarrow> tcp_shift_bbr3_congestion_ack \<Rightarrow> tcp_shift_bbr3_congestion" where
  "loss_cut s ack =
    (let s = (if bw_shortterm_bytes_per_sec s = TCP_SHIFT_BBR3_UNBOUNDED
              then s\<lparr>bw_shortterm_bytes_per_sec := ca_max_bw_bytes_per_sec ack\<rparr> else s);
         s = (if inflight_shortterm_bytes s = TCP_SHIFT_BBR3_UNBOUNDED
              then s\<lparr>inflight_shortterm_bytes := ca_cwnd_bytes ack\<rparr> else s);
         s = s\<lparr>bw_shortterm_bytes_per_sec := max_u64 (bw_latest_bytes_per_sec s)
                 (ratio (bw_shortterm_bytes_per_sec s) TCP_SHIFT_BBR3_LOSS_BETA_NUM TCP_SHIFT_BBR3_LOSS_BETA_DEN)\<rparr>;
         s = s\<lparr>inflight_shortterm_bytes := max_u64 (inflight_latest_bytes s)
                 (ratio (inflight_shortterm_bytes s) TCP_SHIFT_BBR3_LOSS_BETA_NUM TCP_SHIFT_BBR3_LOSS_BETA_DEN)\<rparr>
     in s\<lparr>bw_shortterm_bytes_per_sec := max_u64 1 (bw_shortterm_bytes_per_sec s)\<rparr>)"

definition ecn_cut :: "tcp_shift_bbr3_congestion \<Rightarrow> tcp_shift_bbr3_congestion_ack \<Rightarrow> tcp_shift_bbr3_congestion" where
  "ecn_cut s ack =
    (let s = (if inflight_shortterm_bytes s = TCP_SHIFT_BBR3_UNBOUNDED
              then s\<lparr>inflight_shortterm_bytes := ca_cwnd_bytes ack\<rparr> else s);
         ecn_cut_q8 = u32_of (u64_of (ecn_alpha_q8 s) * u64_of TCP_SHIFT_BBR3_ECN_FACTOR_Q8 div
                              u64_of TCP_SHIFT_BBR3_ECN_ALPHA_SCALE);
         ecn_candidate = ratio (inflight_shortterm_bytes s) (TCP_SHIFT_BBR3_ECN_ALPHA_SCALE - ecn_cut_q8)
           TCP_SHIFT_BBR3_ECN_ALPHA_SCALE
     in s\<lparr>inflight_shortterm_bytes := min_u64 (inflight_shortterm_bytes s) ecn_candidate\<rparr>)"

definition finish_loss_round ::
    "tcp_shift_bbr3_congestion \<Rightarrow> tcp_shift_bbr3_congestion_ack \<Rightarrow> tcp_shift_bbr3_congestion" where
  "finish_loss_round s ack =
    (let s = finish_ecn_round s;
         s = (if probing_bandwidth ack then s
              else
                let s = (if loss_in_round s then loss_cut s ack else s)
                in if ecn_in_round s \<and> ecn_eligible ack then ecn_cut s ack else s)
     in s\<lparr>loss_in_round := False, ecn_in_round := False, ecn_round_delivered_bytes := 0, ecn_round_ce_bytes := 0,
          bw_latest_bytes_per_sec := (if rate_valid ack then ca_delivery_rate_bytes_per_sec ack else 0),
          inflight_latest_bytes := rate_sample_delivered_bytes ack\<rparr>)"

definition probe_up_growth ::
    "tcp_shift_bbr3_congestion \<Rightarrow> tcp_shift_bbr3_congestion_ack \<Rightarrow> tcp_shift_bbr3_congestion" where
  "probe_up_growth s ack =
    (if \<not> probe_up ack \<or> \<not> cwnd_limited ack \<or> inflight_longterm_bytes s = TCP_SHIFT_BBR3_UNBOUNDED \<or>
        ca_cwnd_bytes ack < inflight_longterm_bytes s
     then s
     else
       let s = (if probe_up_acked_per_inc_bytes s = 0
                then s\<lparr>probe_up_acked_per_inc_bytes := max_u64 (u64_of (ca_mss_bytes ack)) (ca_cwnd_bytes ack)\<rparr> else s);
           s = s\<lparr>probe_up_acked_bytes := sat_add (probe_up_acked_bytes s) (newly_acked_bytes ack)\<rparr>;
           units = probe_up_acked_bytes s div probe_up_acked_per_inc_bytes s;
           s = s\<lparr>probe_up_acked_bytes := probe_up_acked_bytes s mod probe_up_acked_per_inc_bytes s\<rparr>;
           s = s\<lparr>inflight_longterm_bytes := sat_add (inflight_longterm_bytes s)
                   (if units > UINT64_MAX div u64_of (ca_mss_bytes ack) then UINT64_MAX
                    else units * u64_of (ca_mss_bytes ack))\<rparr>
       in if ca_round_start ack
          then
            let rounds = (if cong_probe_up_rounds s > 30 then 30 else cong_probe_up_rounds s);
                s = s\<lparr>probe_up_acked_per_inc_bytes :=
                        max_u64 (u64_of (ca_mss_bytes ack)) (ca_cwnd_bytes ack div push_bit (unat rounds) 1)\<rparr>
            in if cong_probe_up_rounds s < 30 then s\<lparr>cong_probe_up_rounds := cong_probe_up_rounds s + 1\<rparr> else s
          else s)"

text \<open>The accumulation of one acknowledgement, and the judgement of a probe: the signal and the new bounds.\<close>

definition ack_rejected :: "tcp_shift_bbr3_congestion_ack \<Rightarrow> bool" where
  "ack_rejected ack \<longleftrightarrow> ca_mss_bytes ack = 0 \<or> ca_cwnd_bytes ack = 0 \<or> newly_ce_bytes ack > newly_delivered_bytes ack \<or>
     \<not> rate_valid ack \<and> ca_delivery_rate_bytes_per_sec ack \<noteq> 0 \<or> \<not> ecn_eligible ack \<and> newly_ce_bytes ack \<noteq> 0 \<or>
     probe_up ack \<and> \<not> probing_bandwidth ack"

definition accumulate_ack ::
    "tcp_shift_bbr3_congestion \<Rightarrow> tcp_shift_bbr3_congestion_ack \<Rightarrow> tcp_shift_bbr3_congestion" where
  "accumulate_ack s ack =
    (let s = (if rate_valid ack
              then s\<lparr>bw_latest_bytes_per_sec := max_u64 (bw_latest_bytes_per_sec s) (ca_delivery_rate_bytes_per_sec ack)\<rparr>
              else s);
         s = s\<lparr>inflight_latest_bytes := max_u64 (inflight_latest_bytes s) (rate_sample_delivered_bytes ack)\<rparr>;
         s = (if newly_lost_bytes ack \<noteq> 0 then s\<lparr>loss_in_round := True\<rparr> else s);
         s = (if newly_ce_bytes ack \<noteq> 0 then s\<lparr>ecn_in_round := True\<rparr> else s)
     in if ecn_eligible ack
        then s\<lparr>ecn_round_delivered_bytes := sat_add (ecn_round_delivered_bytes s) (newly_delivered_bytes ack),
               ecn_round_ce_bytes := sat_add (ecn_round_ce_bytes s) (newly_ce_bytes ack)\<rparr>
        else s)"

definition probe_signal :: "tcp_shift_bbr3_congestion_ack \<Rightarrow> u32" where
  "probe_signal ack =
    (if greater_than_percent (newly_lost_bytes ack) (tx_inflight_bytes ack) TCP_SHIFT_BBR3_EXCESS_LOSS_PERCENT
     then TCP_SHIFT_BBR3_SIGNAL_EXCESS_LOSS else 0) OR
    (if ecn_eligible ack \<and>
        greater_than_percent (newly_ce_bytes ack) (newly_delivered_bytes ack) TCP_SHIFT_BBR3_ECN_EXCESS_PERCENT
     then TCP_SHIFT_BBR3_SIGNAL_EXCESS_ECN else 0)"

definition judge_probe ::
    "tcp_shift_bbr3_congestion \<Rightarrow> tcp_shift_bbr3_congestion_ack \<Rightarrow> u32 \<times> tcp_shift_bbr3_congestion" where
  "judge_probe s ack =
    (if \<not> probe_sample ack \<or> probe_feedback_consumed s then (0, s)
     else
       let signal = probe_signal ack
       in if signal \<noteq> 0
          then
            let s = s\<lparr>probe_feedback_consumed := True\<rparr>
            in (signal, if \<not> app_limited ack
                        then s\<lparr>inflight_longterm_bytes := max_u64 (tx_inflight_bytes ack)
                               (ratio (target_inflight_bytes ack) TCP_SHIFT_BBR3_LOSS_BETA_NUM TCP_SHIFT_BBR3_LOSS_BETA_DEN)\<rparr>
                        else s)
          else if inflight_longterm_bytes s \<noteq> TCP_SHIFT_BBR3_UNBOUNDED
          then (signal, probe_up_growth
                  (s\<lparr>inflight_longterm_bytes := max_u64 (inflight_longterm_bytes s) (tx_inflight_bytes ack)\<rparr>) ack)
          else (signal, s))"

definition tcp_shift_bbr3_congestion_on_ack ::
    "tcp_shift_bbr3_congestion \<Rightarrow> tcp_shift_bbr3_congestion_ack \<Rightarrow> int \<times> tcp_shift_bbr3_congestion" where
  "tcp_shift_bbr3_congestion_on_ack s ack =
    (if ack_rejected ack then (-1, s)
     else
       let (signal, s) = judge_probe (accumulate_ack s ack) ack
       in (int (unat signal), if loss_round_end ack then finish_loss_round s ack else s))"

fun bounded_phase :: "tcp_shift_bbr3_phase \<Rightarrow> bool" where
  "bounded_phase TCP_SHIFT_BBR3_DRAIN = True"
| "bounded_phase TCP_SHIFT_BBR3_PROBE_BW_DOWN = True"
| "bounded_phase TCP_SHIFT_BBR3_PROBE_BW_CRUISE = True"
| "bounded_phase TCP_SHIFT_BBR3_PROBE_RTT = True"
| "bounded_phase _ = False"

definition tcp_shift_bbr3_congestion_rate_cap ::
    "tcp_shift_bbr3_congestion \<Rightarrow> tcp_shift_bbr3_phase \<Rightarrow> u64 \<Rightarrow> u64" where
  "tcp_shift_bbr3_congestion_rate_cap s ph max_bw =
    (if bounded_phase ph then min_u64 max_bw (bw_shortterm_bytes_per_sec s) else max_bw)"

definition tcp_shift_bbr3_congestion_cwnd_cap ::
    "tcp_shift_bbr3_congestion \<Rightarrow> tcp_shift_bbr3_phase \<Rightarrow> u32 \<Rightarrow> u64" where
  "tcp_shift_bbr3_congestion_cwnd_cap s ph mss =
    (if mss = 0 then 0
     else
       let floor_bytes = u64_of mss * 4
       in if ph = TCP_SHIFT_BBR3_STARTUP then UINT64_MAX
          else
            let cap = (if ph = TCP_SHIFT_BBR3_PROBE_BW_CRUISE \<or> ph = TCP_SHIFT_BBR3_PROBE_RTT
                       then tcp_shift_bbr3_inflight_with_headroom (inflight_longterm_bytes s) mss
                       else inflight_longterm_bytes s);
                cap = (if bounded_phase ph then min_u64 cap (inflight_shortterm_bytes s) else cap)
            in max_u64 cap floor_bytes)"

end
