(* ===== verification/Bbr3_Controller.thy ===== *)
theory Bbr3_Controller
  imports Bbr3_Probe Bbr3_Congestion
begin

text \<open>
  The BBRv3 controller of \<^verbatim>\<open>src/cc/bbr3_controller.c\<close>, which puts the estimator (theory \<open>Bbr3_Model\<close>), the probing
  scheduler (\<open>Bbr3_Probe\<close>) and the congestion model (\<open>Bbr3_Congestion\<close>) together: acknowledgement aggregation, the
  phase machine with DRAIN and ProbeRTT, and the published window, rate and quantum.
\<close>

section \<open>Definitions\<close>

definition TCP_SHIFT_BBR3_EXTRA_ACKED_ROUNDS :: u32 where "TCP_SHIFT_BBR3_EXTRA_ACKED_ROUNDS = 10"
definition TCP_SHIFT_BBR3_PROBE_RTT_DURATION_NS :: u64 where "TCP_SHIFT_BBR3_PROBE_RTT_DURATION_NS = 200000000"
definition TCP_SHIFT_BBR3_PACING_MARGIN_NUM :: u32 where "TCP_SHIFT_BBR3_PACING_MARGIN_NUM = 99"
definition TCP_SHIFT_BBR3_NS_PER_SECOND :: u64 where "TCP_SHIFT_BBR3_NS_PER_SECOND = 1000000000"

definition cap32 :: "u64 \<Rightarrow> u32" where
  "cap32 v = (if v > u64_of UINT32_MAX then UINT32_MAX else u32_of v)"

definition bdp :: "u64 \<Rightarrow> u64 \<Rightarrow> u64" where
  "bdp bw rtt =
    (let seconds = rtt div TCP_SHIFT_BBR3_NS_PER_SECOND;
         nanos = rtt mod TCP_SHIFT_BBR3_NS_PER_SECOND;
         whole = mul64 bw seconds;
         partial = mul64 (bw div TCP_SHIFT_BBR3_NS_PER_SECOND) nanos;
         cross = (bw mod TCP_SHIFT_BBR3_NS_PER_SECOND) * nanos
     in sat_add (sat_add whole partial) (cross div TCP_SHIFT_BBR3_NS_PER_SECOND))"

record tcp_shift_bbr3_controller_ack =
  ct_rate :: tcp_shift_cc_rate_sample
  ct_now_ns :: u64
  ct_lost_bytes :: u64
  ct_ce_bytes :: u64
  ct_tx_inflight_bytes :: u64
  ct_acked_bytes :: u32
  ct_inflight_bytes :: u32
  validated_loss :: bool
  ct_ecn_eligible :: bool
  ct_loss_round_end :: bool
  ct_probe_sample :: bool
  ct_cwnd_limited :: bool
  idle_restart :: bool

record tcp_shift_bbr3_controller_policy =
  po_pacing_rate_bytes_per_sec :: u64
  po_max_inflight_bytes :: u64
  po_extra_acked_bytes :: u64
  po_cwnd_bytes :: u32
  po_send_quantum_bytes :: u32
  po_mark_app_limited :: bool
  po_phase :: tcp_shift_bbr3_phase

record tcp_shift_bbr3_controller =
  bc_model :: tcp_shift_bbr3_model
  bc_probe :: tcp_shift_bbr3_probe
  bc_congestion :: tcp_shift_bbr3_congestion
  extra_acked_values :: "u64 list"
  extra_acked_rounds :: "u32 list"
  extra_acked_interval_stamp_ns :: u64
  extra_acked_delivered_bytes :: u64
  extra_acked_bytes :: u64
  probe_rtt_done_stamp_ns :: u64
  probe_rtt_round_delivered :: u64
  bc_pacing_rate_bytes_per_sec :: u64
  bc_initial_cwnd_bytes :: u32
  bc_cwnd_bytes :: u32
  prior_cwnd_bytes :: u32
  bc_mss_bytes :: u32
  bc_flow_seed :: u32
  drain_start_round :: u32
  probe_rtt_round_done :: bool
  probe_rtt_started :: bool

definition tcp_shift_bbr3_controller_init ::
    "tcp_shift_bbr3_controller \<Rightarrow> u32 \<Rightarrow> u32 \<Rightarrow> u32 \<Rightarrow> u64 \<Rightarrow> int \<times> tcp_shift_bbr3_controller" where
  "tcp_shift_bbr3_controller_init s initial_cwnd mss seed now_ns =
    (if mss = 0 \<or> seed = 0 \<or> now_ns = 0 \<or> mss > UINT32_MAX div 4 \<or> u64_of initial_cwnd < 4 * u64_of mss then (-1, s)
     else (0, \<lparr>bc_model = tcp_shift_bbr3_model_init, bc_probe = (bc_probe s)\<lparr>initialized := False\<rparr>,
               bc_congestion = tcp_shift_bbr3_congestion_init,
               extra_acked_values = replicate (unat TCP_SHIFT_BBR3_EXTRA_ACKED_ROUNDS) 0,
               extra_acked_rounds = replicate (unat TCP_SHIFT_BBR3_EXTRA_ACKED_ROUNDS) 0,
               extra_acked_interval_stamp_ns = now_ns, extra_acked_delivered_bytes = 0, extra_acked_bytes = 0,
               probe_rtt_done_stamp_ns = 0, probe_rtt_round_delivered = 0,
               bc_pacing_rate_bytes_per_sec = tcp_shift_bbr3_scale (mul64 (u64_of initial_cwnd) 1000)
                 \<lparr>numerator = 277, denominator = 100\<rparr>,
               bc_initial_cwnd_bytes = initial_cwnd, bc_cwnd_bytes = initial_cwnd, prior_cwnd_bytes = 0,
               bc_mss_bytes = mss, bc_flow_seed = seed, drain_start_round = 0, probe_rtt_round_done = False,
               probe_rtt_started = False\<rparr>))"

definition capped_bw :: "tcp_shift_bbr3_controller \<Rightarrow> u64" where
  "capped_bw s = tcp_shift_bbr3_congestion_rate_cap (bc_congestion s) (phase (bc_model s)) (max_bw_bytes_per_sec (bc_model s))"

text \<open>The last loop of \<^verbatim>\<open>update_ack_aggregation\<close>: the largest value of a round at most \<open>len\<close> back.\<close>

fun extra_acked_scan :: "u32 \<Rightarrow> u32 \<Rightarrow> u64 \<Rightarrow> (u32 \<times> u64) list \<Rightarrow> u64" where
  "extra_acked_scan round len best [] = best"
| "extra_acked_scan round len best ((r, v) # rest) =
    extra_acked_scan round len (if round \<ge> r \<and> round - r < len then max_u64 best v else best) rest"

text \<open>The parts of \<^verbatim>\<open>update_ack_aggregation\<close>: the interval over which more than expected was acknowledged, and the slot of
  the round.\<close>

definition aggregation_interval ::
    "tcp_shift_bbr3_controller \<Rightarrow> tcp_shift_bbr3_controller_ack \<Rightarrow> tcp_shift_bbr3_controller \<times> u64" where
  "aggregation_interval s a =
    (let expected = bdp (capped_bw s) (ct_now_ns a - extra_acked_interval_stamp_ns s)
     in if extra_acked_delivered_bytes s \<le> expected
        then (s\<lparr>extra_acked_delivered_bytes := 0, extra_acked_interval_stamp_ns := ct_now_ns a\<rparr>, 0)
        else (s, expected))"

definition record_extra :: "tcp_shift_bbr3_controller \<Rightarrow> u32 \<Rightarrow> u64 \<Rightarrow> tcp_shift_bbr3_controller" where
  "record_extra s round extra =
    (let index = unat (round mod TCP_SHIFT_BBR3_EXTRA_ACKED_ROUNDS);
         s = (if extra_acked_rounds s ! index \<noteq> round
              then s\<lparr>extra_acked_rounds := (extra_acked_rounds s)[index := round],
                     extra_acked_values := (extra_acked_values s)[index := 0]\<rparr> else s)
     in s\<lparr>extra_acked_values := (extra_acked_values s)[index := max_u64 (extra_acked_values s ! index) extra]\<rparr>)"

definition update_ack_aggregation ::
    "tcp_shift_bbr3_controller \<Rightarrow> tcp_shift_bbr3_controller_ack \<Rightarrow> tcp_shift_bbr3_controller" where
  "update_ack_aggregation s a =
    (let round = round_count (bc_model s);
         (s, expected) = aggregation_interval s a;
         s = s\<lparr>extra_acked_delivered_bytes := sat_add (extra_acked_delivered_bytes s) (u64_of (ct_acked_bytes a))\<rparr>;
         extra = (if extra_acked_delivered_bytes s > expected then extra_acked_delivered_bytes s - expected else 0);
         s = record_extra s round (min_u64 extra (u64_of (bc_cwnd_bytes s)));
         len = (if full_bw_reached (bc_model s) then TCP_SHIFT_BBR3_EXTRA_ACKED_ROUNDS else 1)
     in s\<lparr>extra_acked_bytes := extra_acked_scan round len 0 (zip (extra_acked_rounds s) (extra_acked_values s))\<rparr>)"

definition model_inflight :: "tcp_shift_bbr3_controller \<Rightarrow> u64" where
  "model_inflight s =
    (let bw = capped_bw s
     in if \<not> has_min_rtt (bc_model s) \<or> bw = 0 then u64_of (bc_initial_cwnd_bytes s)
        else
          let base = bdp bw (min_rtt_ns (bc_model s));
              inflight = tcp_shift_bbr3_scale base (tcp_shift_bbr3_cwnd_gain (phase (bc_model s)));
              inflight = sat_add inflight (extra_acked_bytes s);
              inflight = max_u64 inflight (u64_of (bc_mss_bytes s) * 4)
          in if phase (bc_model s) = TCP_SHIFT_BBR3_PROBE_BW_UP then sat_add inflight (u64_of (bc_mss_bytes s) * 2)
             else inflight)"

definition probe_rtt_target :: "tcp_shift_bbr3_controller \<Rightarrow> u64" where
  "probe_rtt_target s =
    max_u64 (bdp (max_bw_bytes_per_sec (bc_model s)) (min_rtt_ns (bc_model s)) div 2) (u64_of (bc_mss_bytes s) * 4)"

text \<open>The three parts of \<^verbatim>\<open>update_probe_rtt\<close>: entry, the dwell, and the exit.\<close>

definition probe_rtt_entry ::
    "tcp_shift_bbr3_controller \<Rightarrow> tcp_shift_bbr3_controller_ack \<Rightarrow> tcp_shift_bbr3_controller" where
  "probe_rtt_entry s a =
    (if phase (bc_model s) \<noteq> TCP_SHIFT_BBR3_PROBE_RTT \<and> probe_rtt_expired (bc_model s) \<and> \<not> idle_restart a \<and>
        has_min_rtt (bc_model s)
     then s\<lparr>prior_cwnd_bytes := bc_cwnd_bytes s, bc_model := (bc_model s)\<lparr>phase := TCP_SHIFT_BBR3_PROBE_RTT\<rparr>,
            probe_rtt_started := True, probe_rtt_round_done := False, probe_rtt_done_stamp_ns := 0,
            probe_rtt_round_delivered := delivered_total_bytes (ct_rate a)\<rparr>
     else s)"

definition probe_rtt_exit ::
    "tcp_shift_bbr3_controller \<Rightarrow> tcp_shift_bbr3_controller_ack \<Rightarrow> tcp_shift_bbr3_controller" where
  "probe_rtt_exit s a =
    (let s = s\<lparr>bc_model := (bc_model s)\<lparr>probe_rtt_min_stamp_ns := ct_now_ns a, probe_rtt_expired := False\<rparr>,
               probe_rtt_started := False, bc_congestion := tcp_shift_bbr3_congestion_reset_shortterm (bc_congestion s),
               bc_cwnd_bytes := u32_of (max_u64 (u64_of (bc_cwnd_bytes s)) (u64_of (prior_cwnd_bytes s)))\<rparr>
     in if full_bw_reached (bc_model s)
        then
          (case tcp_shift_bbr3_probe_enter ((bc_probe s)\<lparr>initialized := False\<rparr>) (bc_model s) (ct_now_ns a)
                  (delivered_total_bytes (ct_rate a)) (bc_flow_seed s) of
             (r, probe, model) \<Rightarrow>
               s\<lparr>bc_probe := probe,
                 bc_model := (if r = 0 then model\<lparr>phase := TCP_SHIFT_BBR3_PROBE_BW_CRUISE\<rparr> else model)\<rparr>)
        else s\<lparr>bc_model := (bc_model s)\<lparr>phase := TCP_SHIFT_BBR3_STARTUP\<rparr>\<rparr>)"

definition update_probe_rtt ::
    "tcp_shift_bbr3_controller \<Rightarrow> tcp_shift_bbr3_controller_ack \<Rightarrow> tcp_shift_bbr3_controller" where
  "update_probe_rtt s a =
    (let s = probe_rtt_entry s a
     in if phase (bc_model s) \<noteq> TCP_SHIFT_BBR3_PROBE_RTT then s
        else if probe_rtt_done_stamp_ns s = 0
        then (if u64_of (ct_inflight_bytes a) \<le> probe_rtt_target s
              then s\<lparr>probe_rtt_done_stamp_ns := sat_add (ct_now_ns a) TCP_SHIFT_BBR3_PROBE_RTT_DURATION_NS,
                     probe_rtt_round_delivered := delivered_total_bytes (ct_rate a), probe_rtt_round_done := False\<rparr>
              else s)
        else
          let s = (if prior_delivered_bytes (ct_rate a) \<ge> probe_rtt_round_delivered s \<and>
                      delivered_total_bytes (ct_rate a) > prior_delivered_bytes (ct_rate a)
                   then s\<lparr>probe_rtt_round_done := True\<rparr> else s)
          in if \<not> probe_rtt_round_done s \<or> ct_now_ns a \<le> probe_rtt_done_stamp_ns s then s
             else probe_rtt_exit s a)"

text \<open>The two parts of \<^verbatim>\<open>advance_phase\<close> before ProbeRTT.\<close>

definition leave_startup ::
    "tcp_shift_bbr3_controller \<Rightarrow> tcp_shift_bbr3_controller_ack \<Rightarrow> tcp_shift_bbr3_controller" where
  "leave_startup s a =
    (let s = (if phase (bc_model s) = TCP_SHIFT_BBR3_STARTUP \<and> full_bw_reached (bc_model s)
              then s\<lparr>bc_model := (bc_model s)\<lparr>phase := TCP_SHIFT_BBR3_DRAIN\<rparr>, drain_start_round := round_count (bc_model s)\<rparr>
              else s)
     in if phase (bc_model s) = TCP_SHIFT_BBR3_DRAIN
        then
          let target = bdp (max_bw_bytes_per_sec (bc_model s)) (min_rtt_ns (bc_model s))
          in if has_min_rtt (bc_model s) \<and>
                (u64_of (ct_inflight_bytes a) \<le> target \<or> round_count (bc_model s) > drain_start_round s + 3)
             then
               (case tcp_shift_bbr3_probe_enter (bc_probe s) (bc_model s) (ct_now_ns a)
                       (delivered_total_bytes (ct_rate a)) (bc_flow_seed s) of
                  (_, probe, model) \<Rightarrow> s\<lparr>bc_probe := probe, bc_model := model\<rparr>)
             else s
        else s)"

definition probe_ack_of ::
    "tcp_shift_bbr3_controller \<Rightarrow> tcp_shift_bbr3_controller_ack \<Rightarrow> int \<Rightarrow> tcp_shift_bbr3_probe_ack" where
  "probe_ack_of s a signal =
    \<lparr>pa_rate = ct_rate a, pa_now_ns = ct_now_ns a, pa_inflight_longterm_bytes = inflight_longterm_bytes (bc_congestion s),
     pa_inflight_bytes = ct_inflight_bytes a, pa_cwnd_bytes = bc_cwnd_bytes s, pa_mss_bytes = bc_mss_bytes s,
     pa_cwnd_limited = ct_cwnd_limited a, qualified_loss_too_high = (signal \<noteq> 0)\<rparr>"

definition run_probe ::
    "tcp_shift_bbr3_controller \<Rightarrow> tcp_shift_bbr3_controller_ack \<Rightarrow> int \<Rightarrow> tcp_shift_bbr3_phase \<Rightarrow> tcp_shift_bbr3_controller" where
  "run_probe s a signal was =
    (if in_probe_bw was
     then
       (case tcp_shift_bbr3_probe_on_ack (bc_probe s) (bc_model s) (probe_ack_of s a signal) of
          (_, probe, model) \<Rightarrow>
            let s = s\<lparr>bc_probe := probe, bc_model := model\<rparr>
            in if was \<noteq> TCP_SHIFT_BBR3_PROBE_BW_REFILL \<and> phase (bc_model s) = TCP_SHIFT_BBR3_PROBE_BW_REFILL
               then s\<lparr>bc_congestion := tcp_shift_bbr3_congestion_begin_probe (bc_congestion s)\<rparr> else s)
     else s)"

definition advance_phase ::
    "tcp_shift_bbr3_controller \<Rightarrow> tcp_shift_bbr3_controller_ack \<Rightarrow> int \<Rightarrow> tcp_shift_bbr3_controller" where
  "advance_phase s a signal =
    update_probe_rtt (run_probe (leave_startup s a) a signal (phase (bc_model s))) a"

definition desired_rate :: "tcp_shift_bbr3_controller \<Rightarrow> u64" where
  "desired_rate s =
    tcp_shift_bbr3_scale (tcp_shift_bbr3_scale (capped_bw s) (tcp_shift_bbr3_pacing_gain (phase (bc_model s))))
      \<lparr>numerator = TCP_SHIFT_BBR3_PACING_MARGIN_NUM, denominator = 100\<rparr>"

definition next_cwnd :: "tcp_shift_bbr3_controller \<Rightarrow> tcp_shift_bbr3_controller_ack \<Rightarrow> u64 \<Rightarrow> u64" where
  "next_cwnd s a inflight =
    (let cwnd =
           (if full_bw_reached (bc_model s)
            then min_u64 (sat_add (u64_of (bc_cwnd_bytes s)) (u64_of (ct_acked_bytes a))) inflight
            else if u64_of (bc_cwnd_bytes s) < inflight \<or>
                    delivered_total_bytes (ct_rate a) < u64_of (bc_initial_cwnd_bytes s)
            then sat_add (u64_of (bc_cwnd_bytes s)) (u64_of (ct_acked_bytes a))
            else u64_of (bc_cwnd_bytes s));
         cwnd = max_u64 cwnd (u64_of (bc_mss_bytes s) * 4);
         cwnd = (if phase (bc_model s) = TCP_SHIFT_BBR3_PROBE_RTT then min_u64 cwnd (probe_rtt_target s) else cwnd);
         bound = tcp_shift_bbr3_congestion_cwnd_cap (bc_congestion s) (phase (bc_model s)) (bc_mss_bytes s);
         cwnd = min_u64 cwnd bound
     in max_u64 cwnd (u64_of (bc_mss_bytes s) * 4))"

definition update_policy ::
    "tcp_shift_bbr3_controller \<Rightarrow> tcp_shift_bbr3_controller_ack \<Rightarrow>
     tcp_shift_bbr3_controller \<times> tcp_shift_bbr3_controller_policy" where
  "update_policy s a =
    (let inflight = model_inflight s;
         desired = desired_rate s;
         s = (if desired \<noteq> 0 \<and> (full_bw_reached (bc_model s) \<or> desired > bc_pacing_rate_bytes_per_sec s)
              then s\<lparr>bc_pacing_rate_bytes_per_sec := desired\<rparr> else s);
         s = s\<lparr>bc_cwnd_bytes := cap32 (next_cwnd s a inflight)\<rparr>;
         quantum = bc_pacing_rate_bytes_per_sec s div 1000;
         quantum = min_u64 quantum 65536;
         quantum = max_u64 quantum (u64_of (bc_mss_bytes s) * 2)
     in (s, \<lparr>po_pacing_rate_bytes_per_sec = bc_pacing_rate_bytes_per_sec s, po_max_inflight_bytes = inflight,
             po_extra_acked_bytes = extra_acked_bytes s, po_cwnd_bytes = bc_cwnd_bytes s,
             po_send_quantum_bytes = cap32 quantum,
             po_mark_app_limited = (phase (bc_model s) = TCP_SHIFT_BBR3_PROBE_RTT), po_phase = phase (bc_model s)\<rparr>))"

definition congestion_ack_of ::
    "tcp_shift_bbr3_controller \<Rightarrow> tcp_shift_bbr3_controller_ack \<Rightarrow> tcp_shift_bbr3_phase \<Rightarrow> tcp_shift_bbr3_congestion_ack" where
  "congestion_ack_of s a ph =
    \<lparr>ca_delivery_rate_bytes_per_sec = delivery_rate_bytes_per_sec (ct_rate a),
     ca_max_bw_bytes_per_sec = max_bw_bytes_per_sec (bc_model s), newly_delivered_bytes = u64_of (ct_acked_bytes a),
     rate_sample_delivered_bytes = u64_of (delivered_bytes (ct_rate a)), newly_lost_bytes = ct_lost_bytes a,
     newly_ce_bytes = ct_ce_bytes a, tx_inflight_bytes = ct_tx_inflight_bytes a, ca_cwnd_bytes = u64_of (bc_cwnd_bytes s),
     target_inflight_bytes = model_inflight s, newly_acked_bytes = u64_of (ct_acked_bytes a),
     ca_mss_bytes = bc_mss_bytes s, rate_valid = True,
     app_limited = has_flag (ct_rate a) TCP_SHIFT_CC_RATE_SAMPLE_APP_LIMITED, ecn_eligible = ct_ecn_eligible a,
     probing_bandwidth = (ph = TCP_SHIFT_BBR3_STARTUP \<or> ph = TCP_SHIFT_BBR3_PROBE_BW_REFILL \<or> ph = TCP_SHIFT_BBR3_PROBE_BW_UP),
     probe_sample = ct_probe_sample a, probe_up = (ph = TCP_SHIFT_BBR3_PROBE_BW_UP), cwnd_limited = ct_cwnd_limited a,
     loss_round_end = ct_loss_round_end a, ca_round_start = round_start (bc_model s)\<rparr>"

definition controller_ack_rejected :: "tcp_shift_bbr3_controller \<Rightarrow> tcp_shift_bbr3_controller_ack \<Rightarrow> bool" where
  "controller_ack_rejected s a \<longleftrightarrow> ct_now_ns a = 0 \<or> ct_now_ns a < extra_acked_interval_stamp_ns s \<or>
     ct_now_ns a < last_update_ns (bc_model s) \<or> ct_lost_bytes a \<noteq> 0 \<and> \<not> validated_loss a \<or>
     ct_ce_bytes a \<noteq> 0 \<and> \<not> ct_ecn_eligible a \<or> ct_ce_bytes a > u64_of (ct_acked_bytes a) \<or>
     prior_delivered_bytes (ct_rate a) > delivered_total_bytes (ct_rate a) \<or>
     \<not> has_flag (ct_rate a) TCP_SHIFT_CC_RATE_SAMPLE_VALID"

definition tcp_shift_bbr3_controller_on_ack ::
    "tcp_shift_bbr3_controller \<Rightarrow> tcp_shift_bbr3_controller_ack \<Rightarrow> tcp_shift_bbr3_controller_policy \<Rightarrow>
     int \<times> tcp_shift_bbr3_controller \<times> tcp_shift_bbr3_controller_policy" where
  "tcp_shift_bbr3_controller_on_ack s a p =
    (if controller_ack_rejected s a then (-1, s, p)
     else
       let ph = phase (bc_model s);
           (r, model) = tcp_shift_bbr3_model_on_ack (bc_model s) (ct_rate a) (ct_now_ns a);
           s = s\<lparr>bc_model := model\<rparr>
       in if r \<noteq> 0 then (-1, s, p)
          else
            let (signal, congestion) = tcp_shift_bbr3_congestion_on_ack (bc_congestion s) (congestion_ack_of s a ph);
                s = s\<lparr>bc_congestion := congestion\<rparr>
            in if signal < 0 then (-1, s, p)
               else
                 let s = update_ack_aggregation s a;
                     s = advance_phase s a signal;
                     (s, p) = update_policy s a
                 in (0, s, p))"

end
