(* ===== verification/Bbr3_Invariants.thy ===== *)
theory Bbr3_Invariants
  imports Bbr3_Controller
begin

text \<open>
  What the BBRv3 controller of theory \<open>Bbr3_Controller\<close> guarantees: its bandwidth-delay products are exact, every
  acknowledgement it is given is refused without a trace or answered with a usable policy, and its phases follow
  the order of the protocol.
\<close>

section \<open>Exact arithmetic\<close>

lemma saturated_sum3:
  fixes x y z :: nat
  shows "min m (min m (min m x + min m y) + z) = min m (x + y + z)"
  by (simp add: min_def)

lemma saturated_sum4:
  fixes x y z k :: nat
  shows "min m (min m (min m (min m x + min m y) + z) + k) = min m (x + y + (z + k))"
  unfolding saturated_sum3 by (simp add: min_def)

lemma bdp_split:
  fixes b r d :: nat
  assumes "0 < d"
  shows "b * r = (b * (r div d) + b div d * (r mod d)) * d + b mod d * (r mod d)"
proof -
  have "b * r = b * (r div d) * d + b * (r mod d)" using mult_split_div [of r b d] by (simp add: mult.commute)
  also have "b * (r mod d) = b div d * (r mod d) * d + b mod d * (r mod d)" by (rule mult_split_div)
  finally show ?thesis by (simp add: distrib_right)
qed

lemma bdp_floor_split:
  fixes b r d :: nat
  assumes "0 < d"
  shows "b * r div d = b * (r div d) + b div d * (r mod d) + b mod d * (r mod d) div d"
proof -
  have "(x * d + y) div d = x + y div d" for x y using assms by simp
  then show ?thesis by (metis bdp_split [OF assms])
qed

lemma bdp_ceil_split:
  fixes b r d :: nat
  assumes "0 < d"
  shows "ceil_div (b * r) d = b * (r div d) + b div d * (r mod d) + ceil_div (b mod d * (r mod d)) d"
  by (metis assms bdp_split ceil_div_add_mult)

lemma unat_cross:
  "unat ((bw mod 1000000000) * (rtt mod 1000000000) :: u64) = unat bw mod 1000000000 * (unat rtt mod 1000000000)"
proof -
  have "unat bw mod 1000000000 * (unat rtt mod 1000000000) \<le> 999999999 * 999999999" by (intro mult_le_mono) linarith+
  then show ?thesis by (subst unat_mult_exact) (simp_all add: unat_mod_distrib)
qed

lemma unat_bdp_floor: "unat (bdp bw rtt) = min 18446744073709551615 (unat bw * unat rtt div 1000000000)"
proof -
  let ?D = "1000000000 :: nat"
  have "unat bw * unat rtt div ?D =
      unat bw * (unat rtt div ?D) + unat bw div ?D * (unat rtt mod ?D) + unat bw mod ?D * (unat rtt mod ?D) div ?D"
    by (rule bdp_floor_split) simp
  then show ?thesis
    by (simp add: bdp_def Let_def TCP_SHIFT_BBR3_NS_PER_SECOND_def mul64_sat_mul bbr3.unat_add bbr3.unat_mul unat_div_distrib
        unat_mod_distrib unat_cross saturated_sum3)
qed

lemma unat_bdp_ceil: "unat (bdp_bytes bw rtt) = min 18446744073709551615 (ceil_div (unat bw * unat rtt) 1000000000)"
proof (cases "bw = 0 \<or> rtt = 0")
  case True
  then show ?thesis by (auto simp: bdp_bytes_def ceil_div_def)
next
  case False
  let ?D = "1000000000 :: nat"
  let ?c = "unat bw mod ?D * (unat rtt mod ?D)"
  have "ceil_div (unat bw * unat rtt) ?D =
      unat bw * (unat rtt div ?D) + unat bw div ?D * (unat rtt mod ?D) + (?c div ?D + (if ?c mod ?D = 0 then 0 else 1))"
    by (subst bdp_ceil_split) (simp_all add: ceil_div_def)
  moreover have "(bw mod 1000000000) * (rtt mod 1000000000) mod 1000000000 = 0 \<longleftrightarrow> ?c mod ?D = 0"
    by (simp add: word_zero_nat unat_mod_distrib unat_cross)
  ultimately show ?thesis using False
    by (simp add: bdp_bytes_def Let_def NS_PER_SECOND_def bbr3.unat_add bbr3.unat_mul unat_div_distrib
        unat_mod_distrib unat_cross saturated_sum4)
qed

lemma ratio_is_scale: "ratio v n d = tcp_shift_bbr3_scale v \<lparr>numerator = n, denominator = d\<rparr>"
  by (simp add: ratio_def tcp_shift_bbr3_scale_def sat_add_def Let_def)

lemma unat_ratio: "d \<noteq> 0 \<Longrightarrow> unat (ratio v n d) = min 18446744073709551615 (unat v * unat n div unat d)"
  unfolding ratio_is_scale using unat_bbr3_scale [of "\<lparr>numerator = n, denominator = d\<rparr>"] by simp

text \<open>C34. The two bandwidth-delay products, computed without a wider type from the quotients and remainders of both operands,
  are the exact floor (controller) and the exact ceiling (scheduler) of the product, saturated at the largest
  64-bit number; and scaling by a gain is the exact floor of the rational product, saturated.\<close>

theorem bbr3_arithmetic_exact:
  "unat (bdp bw rtt) = min (2 ^ 64 - 1) (unat bw * unat rtt div 10 ^ 9) \<and>
   unat (bdp_bytes bw rtt) = min (2 ^ 64 - 1) (ceil_div (unat bw * unat rtt) (10 ^ 9)) \<and>
   unat (tcp_shift_bbr3_scale v (tcp_shift_bbr3_pacing_gain ph)) =
     min (2 ^ 64 - 1) (unat v * unat (numerator (tcp_shift_bbr3_pacing_gain ph)) div
       unat (denominator (tcp_shift_bbr3_pacing_gain ph)))"
proof -
  have "denominator (tcp_shift_bbr3_pacing_gain ph) \<noteq> 0" by (cases ph) simp_all
  then show ?thesis by (simp add: unat_bdp_floor unat_bdp_ceil unat_bbr3_scale)
qed

section \<open>The invariant\<close>

definition model3_ok :: "tcp_shift_bbr3_model \<Rightarrow> bool" where
  "model3_ok m \<longleftrightarrow> length (max_bw_filter m) = 2 \<and> (has_min_rtt m \<longrightarrow> min_rtt_ns m \<noteq> 0) \<and>
     (has_probe_rtt_min m \<longrightarrow> probe_rtt_min_delay_ns m \<noteq> 0) \<and> (\<not> has_update_time m \<longrightarrow> last_update_ns m = 0)"

text \<open>The phase agrees with what is known of the path and with the state of the scheduler.\<close>

definition phase3_ok :: "tcp_shift_bbr3_model \<Rightarrow> tcp_shift_bbr3_probe \<Rightarrow> bool" where
  "phase3_ok m p \<longleftrightarrow>
     (phase m = TCP_SHIFT_BBR3_DRAIN \<or> in_probe_bw (phase m) \<longrightarrow> full_bw_reached m) \<and>
     (phase m = TCP_SHIFT_BBR3_PROBE_RTT \<or> in_probe_bw (phase m) \<longrightarrow> has_min_rtt m) \<and>
     (in_probe_bw (phase m) \<longrightarrow> initialized p) \<and>
     (initialized p \<longrightarrow> full_bw_reached m \<and> phase m \<noteq> TCP_SHIFT_BBR3_STARTUP \<and> phase m \<noteq> TCP_SHIFT_BBR3_DRAIN) \<and>
     (initialized p \<longrightarrow> cycle_stamp_ns p \<le> last_update_ns m)"

text \<open>The numbers of the controller.\<close>

definition sizes3_ok :: "tcp_shift_bbr3_controller \<Rightarrow> bool" where
  "sizes3_ok s \<longleftrightarrow> bc_mss_bytes s \<noteq> 0 \<and> 4 * unat (bc_mss_bytes s) \<le> 4294967295 \<and>
     4 * unat (bc_mss_bytes s) \<le> unat (bc_cwnd_bytes s) \<and> 4 * unat (bc_mss_bytes s) \<le> unat (bc_initial_cwnd_bytes s) \<and>
     bc_pacing_rate_bytes_per_sec s \<noteq> 0 \<and> bc_flow_seed s \<noteq> 0 \<and>
     length (extra_acked_values s) = 10 \<and> length (extra_acked_rounds s) = 10"

definition bbr3_ok :: "tcp_shift_bbr3_controller \<Rightarrow> bool" where
  "bbr3_ok s \<longleftrightarrow> sizes3_ok s \<and> model3_ok (bc_model s) \<and> phase3_ok (bc_model s) (bc_probe s) \<and>
     ecn_alpha_q8 (bc_congestion s) \<le> 256"

section \<open>The parts of an acknowledgement\<close>

lemma update_round_frame:
  "phase (update_round m r) = phase m" "full_bw_reached (update_round m r) = full_bw_reached m"
  "has_min_rtt (update_round m r) = has_min_rtt m" "min_rtt_ns (update_round m r) = min_rtt_ns m"
  "has_probe_rtt_min (update_round m r) = has_probe_rtt_min m"
  "probe_rtt_min_delay_ns (update_round m r) = probe_rtt_min_delay_ns m"
  "max_bw_filter (update_round m r) = max_bw_filter m" "has_update_time (update_round m r) = has_update_time m"
  "last_update_ns (update_round m r) = last_update_ns m"
  by (simp_all add: update_round_def Let_def)

lemma update_rtt_frame:
  "phase (update_rtt m r t) = phase m" "full_bw_reached (update_rtt m r t) = full_bw_reached m"
  "max_bw_filter (update_rtt m r t) = max_bw_filter m" "has_update_time (update_rtt m r t) = has_update_time m"
  "last_update_ns (update_rtt m r t) = last_update_ns m"
  by (simp_all add: update_rtt_def Let_def)

lemma update_rtt_ok:
  assumes "has_min_rtt m \<longrightarrow> min_rtt_ns m \<noteq> 0" "has_probe_rtt_min m \<longrightarrow> probe_rtt_min_delay_ns m \<noteq> 0"
  shows "has_min_rtt (update_rtt m r t) \<longrightarrow> min_rtt_ns (update_rtt m r t) \<noteq> 0"
    "has_probe_rtt_min (update_rtt m r t) \<longrightarrow> probe_rtt_min_delay_ns (update_rtt m r t) \<noteq> 0"
    "has_min_rtt m \<longrightarrow> has_min_rtt (update_rtt m r t)"
  using assms by (simp_all add: update_rtt_def Let_def)

lemma update_full_bw_frame:
  "phase (update_full_bw m r) = phase m" "full_bw_reached m \<longrightarrow> full_bw_reached (update_full_bw m r)"
  "has_min_rtt (update_full_bw m r) = has_min_rtt m" "min_rtt_ns (update_full_bw m r) = min_rtt_ns m"
  "has_probe_rtt_min (update_full_bw m r) = has_probe_rtt_min m"
  "probe_rtt_min_delay_ns (update_full_bw m r) = probe_rtt_min_delay_ns m"
  "max_bw_filter (update_full_bw m r) = max_bw_filter m" "has_update_time (update_full_bw m r) = has_update_time m"
  "last_update_ns (update_full_bw m r) = last_update_ns m"
  by (simp_all add: update_full_bw_def full_bw_judged_def Let_def)

lemma admit_bw_frame:
  "phase (admit_bw m r) = phase m" "full_bw_reached (admit_bw m r) = full_bw_reached m"
  "has_min_rtt (admit_bw m r) = has_min_rtt m" "min_rtt_ns (admit_bw m r) = min_rtt_ns m"
  "has_probe_rtt_min (admit_bw m r) = has_probe_rtt_min m"
  "probe_rtt_min_delay_ns (admit_bw m r) = probe_rtt_min_delay_ns m"
  "length (max_bw_filter (admit_bw m r)) = length (max_bw_filter m)" "has_update_time (admit_bw m r) = has_update_time m"
  "last_update_ns (admit_bw m r) = last_update_ns m"
  by (simp_all add: admit_bw_def Let_def)

lemmas bbr3_model_frames = update_round_frame update_rtt_frame admit_bw_frame update_full_bw_frame

text \<open>The estimator accepts what the controller lets through, keeps its invariant, and never forgets.\<close>

lemma model_on_ack_step:
  assumes ok: "model3_ok m" and t: "t \<noteq> 0" "last_update_ns m \<le> t" "prior_delivered_bytes r \<le> delivered_total_bytes r"
  shows "\<exists>m'. tcp_shift_bbr3_model_on_ack m r t = (0, m') \<and> model3_ok m' \<and> phase m' = phase m \<and> last_update_ns m' = t \<and>
    (full_bw_reached m \<longrightarrow> full_bw_reached m') \<and> (has_min_rtt m \<longrightarrow> has_min_rtt m')"
proof -
  define m1 where "m1 = update_round (m\<lparr>last_update_ns := t, has_update_time := True\<rparr>) r"
  define m2 where "m2 = update_rtt m1 r t"
  have m1: "has_min_rtt m1 \<longrightarrow> min_rtt_ns m1 \<noteq> 0" "has_probe_rtt_min m1 \<longrightarrow> probe_rtt_min_delay_ns m1 \<noteq> 0"
    using ok by (simp_all add: m1_def update_round_frame model3_ok_def)
  note m2 = update_rtt_ok [OF m1, of r t, folded m2_def]
  have m2f: "phase m2 = phase m" "last_update_ns m2 = t" "has_update_time m2" "length (max_bw_filter m2) = 2"
    "full_bw_reached m2 = full_bw_reached m" "has_min_rtt m \<longrightarrow> has_min_rtt m2"
    using ok m2(3) by (simp_all add: m2_def m1_def update_rtt_frame update_round_frame model3_ok_def)
  have "tcp_shift_bbr3_model_on_ack m r t = (0, update_full_bw (admit_bw m2 r) r)"
    using t by (simp add: m2_def m1_def tcp_shift_bbr3_model_on_ack_def Let_def linorder_not_less)
  then show ?thesis using m2 m2f by (simp add: model3_ok_def update_full_bw_frame admit_bw_frame)
qed

subsection \<open>The congestion model\<close>

lemma ecn_round_alpha: "ecn_alpha_q8 s \<le> 256 \<Longrightarrow> ecn_alpha_q8 (finish_ecn_round s) \<le> 256"
proof -
  assume a: "ecn_alpha_q8 s \<le> 256"
  have "ecn_alpha_q8 (finish_ecn_round s) \<le> 256" if "ecn_alpha_q8 (finish_ecn_round s) =
      u32_of ((u64_of (ecn_alpha_q8 s) * u64_of 15 + min x 256) div 16)" for x
  proof -
    have al: "unat (ecn_alpha_q8 s) \<le> 256" using a by (simp add: word_le_nat_alt)
    have x: "unat (min x 256) \<le> 256" by (simp add: unat_min)
    have m: "unat (u64_of (ecn_alpha_q8 s) * u64_of 15) = unat (ecn_alpha_q8 s) * 15" by (simp only: unat_mult_u64_of) simp
    then have "unat (u64_of (ecn_alpha_q8 s) * u64_of 15 + min x 256) = unat (ecn_alpha_q8 s) * 15 + unat (min x 256)"
      using al x by (subst unat_add_exact) simp_all
    then have "unat ((u64_of (ecn_alpha_q8 s) * u64_of 15 + min x 256) div 16) \<le> 256"
      using al x by (simp only: unat_div_distrib) (simp add: div_le_mono2)
    then show ?thesis using that by (simp add: word_le_nat_alt unat_u32_of_small)
  qed
  then show ?thesis using a
    by (cases "ecn_round_delivered_bytes s = 0") (simp_all add: finish_ecn_round_def Let_def bbr3_congestion_consts)
qed

lemma congestion_alpha:
  "ecn_alpha_q8 (accumulate_ack s a) = ecn_alpha_q8 s" "ecn_alpha_q8 (probe_up_growth s a) = ecn_alpha_q8 s"
  "ecn_alpha_q8 (loss_cut s a) = ecn_alpha_q8 s" "ecn_alpha_q8 (ecn_cut s a) = ecn_alpha_q8 s"
  "ecn_alpha_q8 (finish_loss_round s a) = ecn_alpha_q8 (finish_ecn_round s)"
  "ecn_alpha_q8 (tcp_shift_bbr3_congestion_begin_probe s) = ecn_alpha_q8 s"
  "ecn_alpha_q8 (tcp_shift_bbr3_congestion_reset_shortterm s) = ecn_alpha_q8 s"
proof -
  show cuts: "ecn_alpha_q8 (loss_cut s a) = ecn_alpha_q8 s" "ecn_alpha_q8 (ecn_cut s a) = ecn_alpha_q8 s" for s
    by (simp_all add: loss_cut_def ecn_cut_def Let_def)
  show "ecn_alpha_q8 (accumulate_ack s a) = ecn_alpha_q8 s" by (simp add: accumulate_ack_def Let_def)
  show "ecn_alpha_q8 (probe_up_growth s a) = ecn_alpha_q8 s" by (simp add: probe_up_growth_def Let_def)
  show "ecn_alpha_q8 (finish_loss_round s a) = ecn_alpha_q8 (finish_ecn_round s)"
    by (simp add: finish_loss_round_def Let_def cuts)
qed (simp_all add: tcp_shift_bbr3_congestion_begin_probe_def tcp_shift_bbr3_congestion_reset_shortterm_def)

lemma judge_alpha: "ecn_alpha_q8 (snd (judge_probe s a)) = ecn_alpha_q8 s"
  by (simp add: judge_probe_def Let_def congestion_alpha)

lemma congestion_on_ack_step:
  assumes "\<not> ack_rejected a" "ecn_alpha_q8 s \<le> 256"
  shows "\<exists>g s'. tcp_shift_bbr3_congestion_on_ack s a = (g, s') \<and> 0 \<le> g \<and> ecn_alpha_q8 s' \<le> 256"
proof -
  obtain g s1 where j: "judge_probe (accumulate_ack s a) a = (g, s1)" by fastforce
  have "ecn_alpha_q8 s1 \<le> 256" using judge_alpha [of "accumulate_ack s a" a] j assms(2) by (simp add: congestion_alpha)
  then show ?thesis using assms(1) j ecn_round_alpha [of s1]
    by (simp add: tcp_shift_bbr3_congestion_on_ack_def congestion_alpha)
qed

text \<open>The controller never gives the congestion model an acknowledgement it refuses.\<close>

lemma congestion_ack_accepted:
  assumes "sizes3_ok s" "\<not> controller_ack_rejected s0 a"
  shows "\<not> ack_rejected (congestion_ack_of s a ph)"
proof -
  have "u64_of (bc_cwnd_bytes s) \<noteq> 0" using assms(1) by (simp add: sizes3_ok_def word_zero_nat)
  then show ?thesis using assms by (auto simp: ack_rejected_def congestion_ack_of_def controller_ack_rejected_def sizes3_ok_def)
qed

subsection \<open>Aggregation\<close>

lemma aggregation_frame:
  assumes "s' = update_ack_aggregation s a"
  shows "bc_model s' = bc_model s" "bc_probe s' = bc_probe s" "bc_congestion s' = bc_congestion s" "bc_mss_bytes s' = bc_mss_bytes s"
    "bc_cwnd_bytes s' = bc_cwnd_bytes s" "bc_initial_cwnd_bytes s' = bc_initial_cwnd_bytes s" "bc_flow_seed s' = bc_flow_seed s"
    "bc_pacing_rate_bytes_per_sec s' = bc_pacing_rate_bytes_per_sec s"
    "length (extra_acked_values s') = length (extra_acked_values s)"
    "length (extra_acked_rounds s') = length (extra_acked_rounds s)"
proof -
  obtain s1 e where 1: "aggregation_interval s a = (s1, e)" by fastforce
  have s1: "bc_model s1 = bc_model s" "bc_probe s1 = bc_probe s" "bc_congestion s1 = bc_congestion s"
      "bc_mss_bytes s1 = bc_mss_bytes s" "bc_cwnd_bytes s1 = bc_cwnd_bytes s"
      "bc_initial_cwnd_bytes s1 = bc_initial_cwnd_bytes s" "bc_flow_seed s1 = bc_flow_seed s"
      "bc_pacing_rate_bytes_per_sec s1 = bc_pacing_rate_bytes_per_sec s"
      "extra_acked_values s1 = extra_acked_values s" "extra_acked_rounds s1 = extra_acked_rounds s"
    using 1 by (auto simp: aggregation_interval_def Let_def split: if_splits)
  show "bc_model s' = bc_model s" "bc_probe s' = bc_probe s" "bc_congestion s' = bc_congestion s" "bc_mss_bytes s' = bc_mss_bytes s"
    "bc_cwnd_bytes s' = bc_cwnd_bytes s" "bc_initial_cwnd_bytes s' = bc_initial_cwnd_bytes s" "bc_flow_seed s' = bc_flow_seed s"
    "bc_pacing_rate_bytes_per_sec s' = bc_pacing_rate_bytes_per_sec s"
    "length (extra_acked_values s') = length (extra_acked_values s)"
    "length (extra_acked_rounds s') = length (extra_acked_rounds s)"
    unfolding assms update_ack_aggregation_def 1 by (simp_all add: s1 record_extra_def Let_def)
qed

lemma aggregation_ok: "bbr3_ok s \<Longrightarrow> bbr3_ok (update_ack_aggregation s a)"
  by (simp add: bbr3_ok_def sizes3_ok_def aggregation_frame [OF refl])

subsection \<open>The scheduler\<close>

text \<open>What the scheduler leaves of the estimator: everything but the phase and the ageing of the bandwidth filter.\<close>

definition model_kept :: "tcp_shift_bbr3_model \<Rightarrow> tcp_shift_bbr3_model \<Rightarrow> bool" where
  "model_kept m m' \<longleftrightarrow> full_bw_reached m' = full_bw_reached m \<and> has_min_rtt m' = has_min_rtt m \<and> min_rtt_ns m' = min_rtt_ns m \<and>
     has_probe_rtt_min m' = has_probe_rtt_min m \<and> probe_rtt_min_delay_ns m' = probe_rtt_min_delay_ns m \<and>
     length (max_bw_filter m') = length (max_bw_filter m) \<and> has_update_time m' = has_update_time m \<and>
     last_update_ns m' = last_update_ns m"

lemma model_kept_ok: "model_kept m m' \<Longrightarrow> model3_ok m \<Longrightarrow> model3_ok m'"
  by (simp add: model_kept_def model3_ok_def)

lemma model_kept_phase: "model_kept m (m\<lparr>phase := ph\<rparr>)"
  by (simp add: model_kept_def)

lemma enter_down_frame:
  "enter_down p m t d = (p', m') \<Longrightarrow> m' = m\<lparr>phase := TCP_SHIFT_BBR3_PROBE_BW_DOWN\<rparr> \<and> initialized p' = initialized p \<and> cycle_stamp_ns p' = t"
  by (auto simp: enter_down_def pick_wait_def random_next_def begin_round_def Let_def)

lemma enter_refill_frame:
  "enter_refill p m d = (p', m') \<Longrightarrow>
   m' = m\<lparr>phase := TCP_SHIFT_BBR3_PROBE_BW_REFILL\<rparr> \<and> initialized p' = initialized p \<and> cycle_stamp_ns p' = cycle_stamp_ns p"
  by (auto simp: enter_refill_def begin_round_def)

lemma enter_up_frame:
  "enter_up p m a = (p', m') \<Longrightarrow>
   m' = m\<lparr>phase := TCP_SHIFT_BBR3_PROBE_BW_UP\<rparr> \<and> initialized p' = initialized p \<and> cycle_stamp_ns p' = cycle_stamp_ns p"
  by (auto simp: enter_up_def begin_round_def)

lemma probe_enter_outcome:
  assumes "tcp_shift_bbr3_probe_enter p m t d seed = (r, p', m')"
  shows "r = -1 \<and> p' = p \<and> m' = m \<or>
    r = 0 \<and> m' = m\<lparr>phase := TCP_SHIFT_BBR3_PROBE_BW_DOWN\<rparr> \<and> initialized p' \<and> cycle_stamp_ns p' = t \<and> full_bw_reached m \<and> has_min_rtt m"
  using assms by (auto simp: tcp_shift_bbr3_probe_enter_def Let_def dest!: enter_down_frame split: if_splits prod.splits)

text \<open>The order of the phases, one acknowledgement at a time.\<close>

fun bbr3_next :: "tcp_shift_bbr3_phase \<Rightarrow> tcp_shift_bbr3_phase list" where
  "bbr3_next TCP_SHIFT_BBR3_STARTUP =
    [TCP_SHIFT_BBR3_STARTUP, TCP_SHIFT_BBR3_DRAIN, TCP_SHIFT_BBR3_PROBE_BW_DOWN, TCP_SHIFT_BBR3_PROBE_RTT]"
| "bbr3_next TCP_SHIFT_BBR3_DRAIN = [TCP_SHIFT_BBR3_DRAIN, TCP_SHIFT_BBR3_PROBE_BW_DOWN, TCP_SHIFT_BBR3_PROBE_RTT]"
| "bbr3_next TCP_SHIFT_BBR3_PROBE_BW_DOWN =
    [TCP_SHIFT_BBR3_PROBE_BW_DOWN, TCP_SHIFT_BBR3_PROBE_BW_CRUISE, TCP_SHIFT_BBR3_PROBE_BW_REFILL, TCP_SHIFT_BBR3_PROBE_RTT]"
| "bbr3_next TCP_SHIFT_BBR3_PROBE_BW_CRUISE =
    [TCP_SHIFT_BBR3_PROBE_BW_CRUISE, TCP_SHIFT_BBR3_PROBE_BW_REFILL, TCP_SHIFT_BBR3_PROBE_RTT]"
| "bbr3_next TCP_SHIFT_BBR3_PROBE_BW_REFILL =
    [TCP_SHIFT_BBR3_PROBE_BW_REFILL, TCP_SHIFT_BBR3_PROBE_BW_UP, TCP_SHIFT_BBR3_PROBE_RTT]"
| "bbr3_next TCP_SHIFT_BBR3_PROBE_BW_UP =
    [TCP_SHIFT_BBR3_PROBE_BW_UP, TCP_SHIFT_BBR3_PROBE_BW_DOWN, TCP_SHIFT_BBR3_PROBE_RTT]"
| "bbr3_next TCP_SHIFT_BBR3_PROBE_RTT =
    [TCP_SHIFT_BBR3_PROBE_RTT, TCP_SHIFT_BBR3_PROBE_BW_CRUISE, TCP_SHIFT_BBR3_STARTUP]"

text \<open>A step of the scheduler.\<close>

definition probe_step ::
    "u64 \<Rightarrow> tcp_shift_bbr3_probe \<Rightarrow> tcp_shift_bbr3_model \<Rightarrow> tcp_shift_bbr3_probe \<Rightarrow> tcp_shift_bbr3_model \<Rightarrow> bool" where
  "probe_step t p m p' m' \<longleftrightarrow> model_kept m m' \<and> in_probe_bw (phase m') \<and> phase m' \<in> set (bbr3_next (phase m)) \<and>
     initialized p' = initialized p \<and> (cycle_stamp_ns p' = cycle_stamp_ns p \<or> cycle_stamp_ns p' = t)"

lemma advance_cycle_frame: "tcp_shift_bbr3_model_advance_bw_cycle m = (r, m') \<Longrightarrow> model_kept m m' \<and> phase m' = phase m"
  by (auto simp: tcp_shift_bbr3_model_advance_bw_cycle_def model_kept_def Let_def split: if_splits)

lemma up_plateau_frame:
  "up_plateau p a n = (b, p') \<Longrightarrow> initialized p' = initialized p \<and> cycle_stamp_ns p' = cycle_stamp_ns p"
  by (auto simp: up_plateau_def Let_def split: if_splits)

text \<open>The same of a pair, so that a case distinction of the code splits the goal.\<close>

definition steps_to :: "u64 \<Rightarrow> tcp_shift_bbr3_probe \<Rightarrow> tcp_shift_bbr3_model \<Rightarrow> tcp_shift_bbr3_probe \<times> tcp_shift_bbr3_model \<Rightarrow> bool" where
  "steps_to t p m r \<longleftrightarrow> probe_step t p m (fst r) (snd r)"

lemma steps_to_down:
  assumes "phase m = TCP_SHIFT_BBR3_PROBE_BW_UP" "initialized q = initialized p"
  shows "steps_to t p m (enter_down q m t d)"
proof -
  obtain p' m' where r: "enter_down q m t d = (p', m')" by fastforce
  show ?thesis using enter_down_frame [OF r] assms by (simp add: r steps_to_def probe_step_def model_kept_def)
qed

lemma steps_to_refill:
  assumes "phase m = TCP_SHIFT_BBR3_PROBE_BW_DOWN \<or> phase m = TCP_SHIFT_BBR3_PROBE_BW_CRUISE" "model_kept m m1"
    "initialized q = initialized p" "cycle_stamp_ns q = cycle_stamp_ns p"
  shows "steps_to t p m (enter_refill q m1 d)"
proof -
  obtain p' m' where r: "enter_refill q m1 d = (p', m')" by fastforce
  show ?thesis using enter_refill_frame [OF r] assms by (auto simp: r steps_to_def probe_step_def model_kept_def)
qed

lemma steps_to_up:
  assumes "phase m = TCP_SHIFT_BBR3_PROBE_BW_REFILL" "initialized q = initialized p" "cycle_stamp_ns q = cycle_stamp_ns p"
  shows "steps_to t p m (enter_up q m a)"
proof -
  obtain p' m' where r: "enter_up q m a = (p', m')" by fastforce
  show ?thesis using enter_up_frame [OF r] assms by (simp add: r steps_to_def probe_step_def model_kept_def)
qed

lemma steps_to_stay:
  assumes "in_probe_bw (phase m)" "model_kept m m1" "phase m1 = phase m"
    "initialized q = initialized p" "cycle_stamp_ns q = cycle_stamp_ns p"
  shows "steps_to t p m (q, m1)"
  using assms by (cases "phase m") (simp_all add: steps_to_def probe_step_def)

lemma steps_to_up_phase:
  assumes "phase m = TCP_SHIFT_BBR3_PROBE_BW_UP"
  shows "steps_to (pa_now_ns a) p m (probe_up_phase p m a n)"
proof -
  define p1 where "p1 = (if n \<and> ack_phase p = TCP_SHIFT_BBR3_ACKS_PROBE_STARTING
                  then p\<lparr>ack_phase := TCP_SHIFT_BBR3_ACKS_PROBE_FEEDBACK\<rparr> else p)"
  have p1: "initialized p1 = initialized p" "cycle_stamp_ns p1 = cycle_stamp_ns p" by (simp_all add: p1_def)
  obtain pl p2 where up: "up_plateau p1 a n = (pl, p2)" by fastforce
  note fr = up_plateau_frame [OF up]
  have stay: "steps_to (pa_now_ns a) p m (q, m)" if "initialized q = initialized p" "cycle_stamp_ns q = cycle_stamp_ns p" for q
    using that assms by (simp add: steps_to_def probe_step_def model_kept_def)
  show ?thesis unfolding probe_up_phase_def Let_def p1_def [symmetric] up prod.case
    using p1 fr by (simp add: steps_to_down [OF assms] stay)
qed

lemma steps_to_trans_keep:
  assumes "model_kept m m1" "phase m1 = phase m" "initialized q = initialized p" "cycle_stamp_ns q = cycle_stamp_ns p" "steps_to t q m1 r"
  shows "steps_to t p m r"
  using assms by (auto simp: steps_to_def probe_step_def model_kept_def)

lemma steps_to_phase:
  assumes "in_probe_bw (phase m)"
  shows "steps_to (pa_now_ns a) p m (snd (probe_phase p m a n))"
proof -
  have kept: "model_kept m m" "model_kept m (m\<lparr>phase := ph\<rparr>)" for ph by (simp_all add: model_kept_def)
  have cruise: "steps_to (pa_now_ns a) p m (p, m\<lparr>phase := TCP_SHIFT_BBR3_PROBE_BW_CRUISE\<rparr>)"
    if "phase m = TCP_SHIFT_BBR3_PROBE_BW_DOWN"
    using that kept by (simp add: steps_to_def probe_step_def)
  have refill: "steps_to (pa_now_ns a) p m (enter_refill p m d)"
    if "phase m = TCP_SHIFT_BBR3_PROBE_BW_DOWN \<or> phase m = TCP_SHIFT_BBR3_PROBE_BW_CRUISE" for d
    using that kept(1) by (intro steps_to_refill) simp_all
  show ?thesis
  proof (cases "phase m")
    case TCP_SHIFT_BBR3_PROBE_BW_DOWN
    then show ?thesis using cruise kept refill by (auto simp: probe_phase_def time_to_probe_def Let_def steps_to_stay)
  next
    case TCP_SHIFT_BBR3_PROBE_BW_CRUISE
    then show ?thesis using kept refill by (auto simp: probe_phase_def time_to_probe_def Let_def steps_to_stay)
  next
    case TCP_SHIFT_BBR3_PROBE_BW_REFILL
    then show ?thesis using kept by (simp add: probe_phase_def steps_to_up steps_to_stay)
  next
    case TCP_SHIFT_BBR3_PROBE_BW_UP
    then show ?thesis by (simp add: probe_phase_def steps_to_up_phase)
  qed (use assms in simp_all)
qed

lemma round_start_frame:
  "probe_round_start p r = (n, p') \<Longrightarrow> initialized p' = initialized p \<and> cycle_stamp_ns p' = cycle_stamp_ns p"
  by (auto simp: probe_round_start_def begin_round_def Let_def split: if_splits)

lemma probe_stopping_step:
  assumes ph: "phase m = TCP_SHIFT_BBR3_PROBE_BW_DOWN" and r: "probe_stopping p m a = (c, p', m')"
  shows "(case c of Some _ \<Rightarrow> steps_to t p m (p', m')
    | None \<Rightarrow> model_kept m m' \<and> phase m' = phase m \<and> initialized p' = initialized p \<and> cycle_stamp_ns p' = cycle_stamp_ns p)"
proof -
  let ?adv = "if pending_probe_feedback p \<and> \<not> has_flag (pa_rate a) TCP_SHIFT_CC_RATE_SAMPLE_APP_LIMITED \<and>
               has_flag (pa_rate a) TCP_SHIFT_CC_RATE_SAMPLE_VALID
            then tcp_shift_bbr3_model_advance_bw_cycle m else (0, m)"
  obtain d m1 where adv: "?adv = (d, m1)" by fastforce
  then have m1: "model_kept m m1" "phase m1 = phase m"
    using advance_cycle_frame by (auto simp: model_kept_def split: if_splits)
  have res: "probe_stopping p m a = (if d \<noteq> 0 then (Some (-1), p\<lparr>ack_phase := TCP_SHIFT_BBR3_ACKS_INIT\<rparr>, m1)
     else if previous_probe_precautionary p \<and> \<not> previous_probe_too_high p
     then (Some 0, enter_refill (p\<lparr>ack_phase := TCP_SHIFT_BBR3_ACKS_INIT, pending_probe_feedback := False\<rparr>) m1
             (delivered_total_bytes (pa_rate a)))
     else (None, p\<lparr>ack_phase := TCP_SHIFT_BBR3_ACKS_INIT, pending_probe_feedback := False\<rparr>, m1))"
    using adv by (simp add: probe_stopping_def Let_def)
  show ?thesis
  proof (cases "d \<noteq> 0 \<or> \<not> (previous_probe_precautionary p \<and> \<not> previous_probe_too_high p)")
    case True
    then show ?thesis using res r m1 ph by (auto split: if_splits intro!: steps_to_stay)
  next
    case False
    then have "c = Some 0" "(p', m') = enter_refill (p\<lparr>ack_phase := TCP_SHIFT_BBR3_ACKS_INIT, pending_probe_feedback := False\<rparr>) m1
             (delivered_total_bytes (pa_rate a))" using res r by auto
    then show ?thesis using steps_to_refill [OF _ m1(1)] ph by simp
  qed
qed

lemma probe_on_ack_step:
  assumes "in_probe_bw (phase m)" "tcp_shift_bbr3_probe_on_ack p m a = (r, p', m')"
  shows "probe_step (pa_now_ns a) p m p' m'"
proof -
  have stay: "steps_to (pa_now_ns a) p m (p, m)" using assms(1) by (auto intro!: steps_to_stay simp: model_kept_def)
  obtain n p1 where rs: "probe_round_start p (pa_rate a) = (n, p1)" by fastforce
  note fr = round_start_frame [OF rs]
  have ph: "steps_to (pa_now_ns a) p m (snd (probe_phase q m1 a n))"
    if "model_kept m m1" "phase m1 = phase m" "initialized q = initialized p" "cycle_stamp_ns q = cycle_stamp_ns p" for q m1
    using steps_to_trans_keep [OF that] steps_to_phase [of m1 a q n] that(2) assms(1) by simp
  obtain c p2 m2 where st: "probe_stopping p1 m a = (c, p2, m2)" by (metis prod_cases3)
  have stop: "steps_to (pa_now_ns a) p m (snd (case probe_stopping p1 m a of (Some r, probe, model) \<Rightarrow> (r, probe, model)
                | (None, probe, model) \<Rightarrow> probe_phase probe model a n))" if "phase m = TCP_SHIFT_BBR3_PROBE_BW_DOWN"
    using probe_stopping_step [OF that st, of "pa_now_ns a"] ph fr steps_to_trans_keep [of m m p1 p]
    by (auto simp: st model_kept_def split: option.splits)
  have "steps_to (pa_now_ns a) p m (snd (tcp_shift_bbr3_probe_on_ack p m a))"
    unfolding tcp_shift_bbr3_probe_on_ack_def Let_def rs prod.case
    using stay stop ph [of m p1] fr by (simp add: model_kept_def)
  then show ?thesis using assms(2) by (simp add: steps_to_def)
qed

subsection \<open>The phases of the controller\<close>

definition at_ack :: "tcp_shift_bbr3_controller \<Rightarrow> tcp_shift_bbr3_controller_ack \<Rightarrow> bool" where
  "at_ack s a \<longleftrightarrow> bbr3_ok s \<and> last_update_ns (bc_model s) = ct_now_ns a"

lemma ok_frames [simp]:
  "model3_ok (m\<lparr>phase := ph\<rparr>) = model3_ok m" "sizes3_ok (s\<lparr>bc_model := m\<rparr>) = sizes3_ok s"
  "sizes3_ok (s\<lparr>bc_probe := q\<rparr>) = sizes3_ok s" "sizes3_ok (s\<lparr>drain_start_round := d\<rparr>) = sizes3_ok s"
  "sizes3_ok (s\<lparr>bc_congestion := c\<rparr>) = sizes3_ok s" "sizes3_ok (s\<lparr>probe_rtt_started := st\<rparr>) = sizes3_ok s"
  "sizes3_ok (s\<lparr>probe_rtt_round_done := st\<rparr>) = sizes3_ok s" "sizes3_ok (s\<lparr>probe_rtt_done_stamp_ns := t\<rparr>) = sizes3_ok s"
  "sizes3_ok (s\<lparr>probe_rtt_round_delivered := t\<rparr>) = sizes3_ok s" "sizes3_ok (s\<lparr>prior_cwnd_bytes := w\<rparr>) = sizes3_ok s"
  by (simp_all add: model3_ok_def sizes3_ok_def)

lemma phase3_keep:
  assumes "phase3_ok m p" "model_kept m m'" "initialized p' = initialized p" "cycle_stamp_ns p' = cycle_stamp_ns p \<or> cycle_stamp_ns p' = last_update_ns m"
    "in_probe_bw (phase m)" "in_probe_bw (phase m')"
  shows "phase3_ok m' p'"
  using assms by (auto simp: phase3_ok_def model_kept_def)

lemma leave_startup_id: "in_probe_bw (phase (bc_model s)) \<or> phase (bc_model s) = TCP_SHIFT_BBR3_PROBE_RTT \<Longrightarrow> leave_startup s a = s"
  by (cases "phase (bc_model s)") (simp_all add: leave_startup_def)

lemma drain_step:
  assumes ok: "at_ack s a" and ph: "phase (bc_model s) = TCP_SHIFT_BBR3_DRAIN"
    and r: "tcp_shift_bbr3_probe_enter (bc_probe s) (bc_model s) (ct_now_ns a) d seed = (c, p', m')"
  shows "at_ack (s\<lparr>bc_probe := p', bc_model := m'\<rparr>) a \<and>
    (phase m' = TCP_SHIFT_BBR3_DRAIN \<or> phase m' = TCP_SHIFT_BBR3_PROBE_BW_DOWN)"
proof -
  have "c = -1 \<and> p' = bc_probe s \<and> m' = bc_model s \<or>
    c = 0 \<and> m' = (bc_model s)\<lparr>phase := TCP_SHIFT_BBR3_PROBE_BW_DOWN\<rparr> \<and> initialized p' \<and> cycle_stamp_ns p' = ct_now_ns a \<and>
      full_bw_reached (bc_model s) \<and> has_min_rtt (bc_model s)"
    by (rule probe_enter_outcome [OF r])
  then show ?thesis using ok ph by (elim disjE) (simp_all add: at_ack_def bbr3_ok_def phase3_ok_def)
qed

lemma leave_startup_step:
  assumes ok: "at_ack s a"
  shows "at_ack (leave_startup s a) a \<and> phase (bc_model (leave_startup s a)) \<in> set (bbr3_next (phase (bc_model s))) \<and>
    (phase (bc_model (leave_startup s a)) = TCP_SHIFT_BBR3_PROBE_RTT \<longleftrightarrow> phase (bc_model s) = TCP_SHIFT_BBR3_PROBE_RTT)"
proof (cases "phase (bc_model s) = TCP_SHIFT_BBR3_STARTUP \<or> phase (bc_model s) = TCP_SHIFT_BBR3_DRAIN")
  case False
  then have "leave_startup s a = s" by (intro leave_startup_id) (cases "phase (bc_model s)"; simp)
  then show ?thesis using ok by (cases "phase (bc_model s)") simp_all
next
  case True
  define s1 where "s1 = (if phase (bc_model s) = TCP_SHIFT_BBR3_STARTUP \<and> full_bw_reached (bc_model s)
              then s\<lparr>bc_model := (bc_model s)\<lparr>phase := TCP_SHIFT_BBR3_DRAIN\<rparr>, drain_start_round := round_count (bc_model s)\<rparr>
              else s)"
  have s1: "at_ack s1 a" "phase (bc_model s1) = phase (bc_model s) \<or> phase (bc_model s1) = TCP_SHIFT_BBR3_DRAIN"
    using ok by (auto simp: s1_def at_ack_def bbr3_ok_def phase3_ok_def)
  obtain c p' m' where e: "tcp_shift_bbr3_probe_enter (bc_probe s1) (bc_model s1) (ct_now_ns a)
      (delivered_total_bytes (ct_rate a)) (bc_flow_seed s1) = (c, p', m')" by (metis prod_cases3)
  have "leave_startup s a = s1 \<or>
      phase (bc_model s1) = TCP_SHIFT_BBR3_DRAIN \<and> leave_startup s a = s1\<lparr>bc_probe := p', bc_model := m'\<rparr>"
    unfolding leave_startup_def Let_def s1_def [symmetric] e prod.case by simp
  then show ?thesis
  proof
    assume "leave_startup s a = s1"
    then show ?thesis using s1 True by auto
  next
    assume d: "phase (bc_model s1) = TCP_SHIFT_BBR3_DRAIN \<and> leave_startup s a = s1\<lparr>bc_probe := p', bc_model := m'\<rparr>"
    then show ?thesis using drain_step [OF s1(1) _ e] True by auto
  qed
qed

lemma run_probe_step:
  assumes ok: "at_ack s a" and ph: "in_probe_bw (phase (bc_model s))"
  shows "at_ack (run_probe s a g (phase (bc_model s))) a \<and>
    phase (bc_model (run_probe s a g (phase (bc_model s)))) \<in> set (bbr3_next (phase (bc_model s))) \<and>
    in_probe_bw (phase (bc_model (run_probe s a g (phase (bc_model s)))))"
proof -
  obtain c p' m' where r: "tcp_shift_bbr3_probe_on_ack (bc_probe s) (bc_model s) (probe_ack_of s a g) = (c, p', m')"
    by (metis prod_cases3)
  have st: "probe_step (ct_now_ns a) (bc_probe s) (bc_model s) p' m'"
    using probe_on_ack_step [OF ph r] by (simp add: probe_ack_of_def)
  have "phase3_ok m' p'" using phase3_keep [of "bc_model s" "bc_probe s" m' p'] st ok ph
    by (auto simp: probe_step_def at_ack_def bbr3_ok_def)
  moreover have "model3_ok m'" using st ok model_kept_ok by (auto simp: probe_step_def at_ack_def bbr3_ok_def)
  moreover have "last_update_ns m' = ct_now_ns a" using st ok by (simp add: probe_step_def model_kept_def at_ack_def)
  ultimately show ?thesis using ok ph st
    by (auto simp: run_probe_def r Let_def at_ack_def bbr3_ok_def congestion_alpha probe_step_def)
qed

lemma probe_rtt_entry_step:
  assumes "at_ack s a"
  shows "at_ack (probe_rtt_entry s a) a \<and>
    (phase (bc_model (probe_rtt_entry s a)) = phase (bc_model s) \<or> phase (bc_model (probe_rtt_entry s a)) = TCP_SHIFT_BBR3_PROBE_RTT \<and>
       probe_rtt_done_stamp_ns (probe_rtt_entry s a) = 0)"
  using assms by (auto simp: probe_rtt_entry_def at_ack_def bbr3_ok_def phase3_ok_def)

lemma unat_max_u64_of: "unat (u32_of (max (u64_of x) (u64_of y))) = max (unat x) (unat y)"
  by (simp add: max_def word_le_nat_alt)

lemma probe_rtt_exit_step:
  assumes ok: "at_ack s a" and ph: "phase (bc_model s) = TCP_SHIFT_BBR3_PROBE_RTT"
  shows "at_ack (probe_rtt_exit s a) a \<and> phase (bc_model (probe_rtt_exit s a)) \<in> set (bbr3_next TCP_SHIFT_BBR3_PROBE_RTT)"
proof -
  define m1 where "m1 = (bc_model s)\<lparr>probe_rtt_min_stamp_ns := ct_now_ns a, probe_rtt_expired := False\<rparr>"
  define s1 where "s1 = s\<lparr>bc_model := m1, probe_rtt_started := False,
     bc_congestion := tcp_shift_bbr3_congestion_reset_shortterm (bc_congestion s),
     bc_cwnd_bytes := u32_of (max_u64 (u64_of (bc_cwnd_bytes s)) (u64_of (prior_cwnd_bytes s)))\<rparr>"
  have m1: "model3_ok m1" "phase m1 = TCP_SHIFT_BBR3_PROBE_RTT" "last_update_ns m1 = ct_now_ns a" "has_min_rtt m1"
      "full_bw_reached m1 = full_bw_reached (bc_model s)"
    using ok ph by (auto simp: m1_def at_ack_def bbr3_ok_def model3_ok_def phase3_ok_def)
  have sz: "sizes3_ok s1" using ok by (auto simp: s1_def at_ack_def bbr3_ok_def sizes3_ok_def unat_max_u64_of le_max_iff_disj)
  have al: "ecn_alpha_q8 (bc_congestion s1) \<le> 256" using ok by (simp add: s1_def at_ack_def bbr3_ok_def congestion_alpha)
  have s1: "bc_model s1 = m1" "bc_probe s1 = bc_probe s" by (simp_all add: s1_def)
  obtain c p' m' where e: "tcp_shift_bbr3_probe_enter ((bc_probe s1)\<lparr>initialized := False\<rparr>) m1 (ct_now_ns a)
      (delivered_total_bytes (ct_rate a)) (bc_flow_seed s1) = (c, p', m')" by (metis prod_cases3)
  have def: "probe_rtt_exit s a = (if full_bw_reached m1
      then s1\<lparr>bc_probe := p', bc_model := (if c = 0 then m'\<lparr>phase := TCP_SHIFT_BBR3_PROBE_BW_CRUISE\<rparr> else m')\<rparr>
      else s1\<lparr>bc_model := m1\<lparr>phase := TCP_SHIFT_BBR3_STARTUP\<rparr>\<rparr>)"
    using e by (simp add: probe_rtt_exit_def Let_def m1_def s1_def)
  show ?thesis
  proof (cases "full_bw_reached m1")
    case False
    then show ?thesis using def sz al m1 ok s1 by (auto simp: at_ack_def bbr3_ok_def phase3_ok_def)
  next
    case True
    have "c = -1 \<and> p' = (bc_probe s1)\<lparr>initialized := False\<rparr> \<and> m' = m1 \<or>
      c = 0 \<and> m' = m1\<lparr>phase := TCP_SHIFT_BBR3_PROBE_BW_DOWN\<rparr> \<and> initialized p' \<and> cycle_stamp_ns p' = ct_now_ns a"
      using probe_enter_outcome [OF e] by auto
    then show ?thesis using def True sz al m1 by (elim disjE) (simp_all add: at_ack_def bbr3_ok_def phase3_ok_def)
  qed
qed

lemma update_probe_rtt_step:
  assumes ok: "at_ack s a"
  shows "at_ack (update_probe_rtt s a) a \<and>
    (phase (bc_model (update_probe_rtt s a)) = phase (bc_model s) \<or> phase (bc_model (update_probe_rtt s a)) = TCP_SHIFT_BBR3_PROBE_RTT \<or>
     phase (bc_model s) = TCP_SHIFT_BBR3_PROBE_RTT \<and>
       phase (bc_model (update_probe_rtt s a)) \<in> set (bbr3_next TCP_SHIFT_BBR3_PROBE_RTT))"
proof -
  define s1 where "s1 = probe_rtt_entry s a"
  note en = probe_rtt_entry_step [OF ok, folded s1_def]
  have fields: "at_ack (s1\<lparr>probe_rtt_done_stamp_ns := t, probe_rtt_round_delivered := d, probe_rtt_round_done := v\<rparr>) a"
      "at_ack (s1\<lparr>probe_rtt_round_done := v\<rparr>) a" for t d v
    using en by (simp_all add: at_ack_def bbr3_ok_def)
  define s2 where "s2 = (if prior_delivered_bytes (ct_rate a) \<ge> probe_rtt_round_delivered s1 \<and>
      delivered_total_bytes (ct_rate a) > prior_delivered_bytes (ct_rate a) then s1\<lparr>probe_rtt_round_done := True\<rparr> else s1)"
  have s2: "at_ack s2 a" "phase (bc_model s2) = phase (bc_model s1)" using en fields by (simp_all add: s2_def)
  have ex: "at_ack (probe_rtt_exit s2 a) a" "phase (bc_model (probe_rtt_exit s2 a)) \<in> set (bbr3_next TCP_SHIFT_BBR3_PROBE_RTT)"
    if "phase (bc_model s1) = TCP_SHIFT_BBR3_PROBE_RTT" using probe_rtt_exit_step [OF s2(1)] s2(2) that by simp_all
  show ?thesis unfolding update_probe_rtt_def Let_def s1_def [symmetric] s2_def [symmetric]
    using en fields s2 ex by auto
qed

lemma advance_phase_step:
  assumes ok: "at_ack s a"
  shows "at_ack (advance_phase s a g) a \<and> phase (bc_model (advance_phase s a g)) \<in> set (bbr3_next (phase (bc_model s)))"
proof -
  define s2 where "s2 = run_probe (leave_startup s a) a g (phase (bc_model s))"
  have "at_ack s2 a \<and> phase (bc_model s2) \<in> set (bbr3_next (phase (bc_model s))) \<and>
      (phase (bc_model s2) = TCP_SHIFT_BBR3_PROBE_RTT \<longrightarrow> phase (bc_model s) = TCP_SHIFT_BBR3_PROBE_RTT)"
  proof (cases "in_probe_bw (phase (bc_model s))")
    case True
    then show ?thesis using run_probe_step [OF ok True, of g] leave_startup_id [of s a]
      by (auto simp: s2_def elim: in_probe_bw.elims)
  next
    case False
    then show ?thesis using leave_startup_step [OF ok] by (simp add: s2_def run_probe_def)
  qed
  moreover have "TCP_SHIFT_BBR3_PROBE_RTT \<in> set (bbr3_next ph)" for ph by (cases ph) simp_all
  moreover have "advance_phase s a g = update_probe_rtt s2 a" by (simp add: advance_phase_def s2_def)
  ultimately show ?thesis using update_probe_rtt_step [of s2 a] by auto
qed

subsection \<open>The policy\<close>

lemma cap32_ge: "unat x \<le> 4294967295 \<Longrightarrow> x \<le> y \<Longrightarrow> unat x \<le> unat (cap32 y)"
  by (simp add: cap32_def word_le_nat_alt word_less_nat_alt unat_u32_of_small)

lemma four_mss:
  assumes "sizes3_ok s"
  shows "unat (u64_of (bc_mss_bytes s) * 4) = 4 * unat (bc_mss_bytes s)" "unat (u64_of (bc_mss_bytes s) * 2) = 2 * unat (bc_mss_bytes s)"
  using unat_mult_u64_of [of "bc_mss_bytes s" 4] unat_mult_u64_of [of "bc_mss_bytes s" 2] by simp_all

text \<open>What a policy is worth: the window holds four segments, the rate is positive, the quantum is at least two
  segments, at most 64 KiB or two segments, and the phase is the one of the controller.\<close>

definition policy3_ok :: "tcp_shift_bbr3_controller \<Rightarrow> tcp_shift_bbr3_controller_policy \<Rightarrow> bool" where
  "policy3_ok s p \<longleftrightarrow> po_cwnd_bytes p = bc_cwnd_bytes s \<and> 4 * unat (bc_mss_bytes s) \<le> unat (po_cwnd_bytes p) \<and>
     po_pacing_rate_bytes_per_sec p \<noteq> 0 \<and> 2 * unat (bc_mss_bytes s) \<le> unat (po_send_quantum_bytes p) \<and>
     unat (po_send_quantum_bytes p) \<le> max 65536 (2 * unat (bc_mss_bytes s)) \<and> po_phase p = phase (bc_model s) \<and>
     (po_mark_app_limited p \<longleftrightarrow> po_phase p = TCP_SHIFT_BBR3_PROBE_RTT)"

lemma next_cwnd_floor: "u64_of (bc_mss_bytes s) * 4 \<le> next_cwnd s a i"
  by (simp add: next_cwnd_def Let_def)

lemma update_policy_step:
  assumes ok: "at_ack s a" and r: "update_policy s a = (s', p)"
  shows "at_ack s' a \<and> policy3_ok s' p \<and> bc_model s' = bc_model s"
proof -
  define s1 where "s1 = (if desired_rate s \<noteq> 0 \<and> (full_bw_reached (bc_model s) \<or> desired_rate s > bc_pacing_rate_bytes_per_sec s)
              then s\<lparr>bc_pacing_rate_bytes_per_sec := desired_rate s\<rparr> else s)"
  define w where "w = cap32 (next_cwnd s1 a (model_inflight s))"
  define q where "q = max_u64 (min_u64 (bc_pacing_rate_bytes_per_sec s1 div 1000) 65536) (u64_of (bc_mss_bytes s) * 2)"
  have s1: "bc_model s1 = bc_model s" "bc_probe s1 = bc_probe s" "bc_congestion s1 = bc_congestion s" "bc_mss_bytes s1 = bc_mss_bytes s"
      "sizes3_ok s1"
    using ok by (simp_all add: s1_def at_ack_def bbr3_ok_def sizes3_ok_def)
  have res: "s' = s1\<lparr>bc_cwnd_bytes := w\<rparr>" "po_cwnd_bytes p = w" "po_send_quantum_bytes p = cap32 q" "po_phase p = phase (bc_model s)"
      "po_pacing_rate_bytes_per_sec p = bc_pacing_rate_bytes_per_sec s1"
      "po_mark_app_limited p \<longleftrightarrow> phase (bc_model s) = TCP_SHIFT_BBR3_PROBE_RTT"
    using r s1(1,4) unfolding update_policy_def Let_def s1_def [symmetric] w_def q_def by auto
  have mss: "4 * unat (bc_mss_bytes s) \<le> 4294967295" using s1 by (simp add: sizes3_ok_def)
  have four: "unat (u64_of (bc_mss_bytes s) * 4) = 4 * unat (bc_mss_bytes s)" "unat (u64_of (bc_mss_bytes s) * 2) = 2 * unat (bc_mss_bytes s)"
    using four_mss [OF s1(5)] s1(4) by simp_all
  have "4 * unat (bc_mss_bytes s) \<le> unat w"
    using cap32_ge [of "u64_of (bc_mss_bytes s) * 4"] next_cwnd_floor [of s1] mss four by (simp add: w_def s1(4))
  moreover have "unat q = max (min (unat (bc_pacing_rate_bytes_per_sec s1) div 1000) 65536) (2 * unat (bc_mss_bytes s))"
    by (simp add: q_def unat_max unat_min unat_div_distrib four)
  moreover from this have "unat (cap32 q) = unat q"
    using mss by (auto simp: cap32_def word_less_nat_alt unat_u32_of_small)
  ultimately show ?thesis using ok s1 res
    by (auto simp: at_ack_def bbr3_ok_def policy3_ok_def sizes3_ok_def)
qed

section \<open>Runs\<close>

inductive bbr3_run :: "tcp_shift_bbr3_controller \<Rightarrow> bool" where
  init: "tcp_shift_bbr3_controller_init s0 w mss seed t = (0, s) \<Longrightarrow> bbr3_run s"
| ack: "bbr3_run s \<Longrightarrow> tcp_shift_bbr3_controller_on_ack s a p = (r, s', p') \<Longrightarrow> bbr3_run s'"

lemma init_ok:
  assumes "tcp_shift_bbr3_controller_init s0 w mss seed t = (0, s)"
  shows "bbr3_ok s"
proof -
  have g: "mss \<noteq> 0" "seed \<noteq> 0" "\<not> mss > UINT32_MAX div 4" "\<not> u64_of w < 4 * u64_of mss"
    using assms by (auto simp: tcp_shift_bbr3_controller_init_def split: if_splits)
  have four: "unat (4 * u64_of mss) = 4 * unat mss" using unat_mult_u64_of [of 4 mss] by simp
  have m: "4 * unat mss \<le> unat w" using g(4) by (simp add: word_less_nat_alt four)
  have big: "4 * unat mss \<le> 4294967295" using m unat_lt_u32 [of w] by linarith
  have "1 \<le> unat w" using g(1) m by (simp add: word_zero_nat)
  then have "unat (mul64 (u64_of w) 1000) = unat w * 1000"
    using unat_lt_u32 [of w] by (simp add: mul64_sat_mul bbr3.unat_mul min_def)
  then have "unat (tcp_shift_bbr3_scale (mul64 (u64_of w) 1000) \<lparr>numerator = 277, denominator = 100\<rparr>) \<noteq> 0"
    using \<open>1 \<le> unat w\<close> by (subst unat_bbr3_scale) simp_all
  then have "tcp_shift_bbr3_scale (mul64 (u64_of w) 1000) \<lparr>numerator = 277, denominator = 100\<rparr> \<noteq> 0" by auto
  then show ?thesis using assms g m big
    by (auto simp: tcp_shift_bbr3_controller_init_def bbr3_ok_def sizes3_ok_def model3_ok_def phase3_ok_def
        tcp_shift_bbr3_model_init_def tcp_shift_bbr3_congestion_init_def bbr3_congestion_consts
        TCP_SHIFT_BBR3_EXTRA_ACKED_ROUNDS_def split: if_splits)
qed

lemma on_ack_step:
  assumes ok: "bbr3_ok s" and r: "tcp_shift_bbr3_controller_on_ack s a p = (c, s', p')"
  shows "controller_ack_rejected s a \<and> c = -1 \<and> s' = s \<and> p' = p \<or>
    \<not> controller_ack_rejected s a \<and> c = 0 \<and> bbr3_ok s' \<and> policy3_ok s' p' \<and> phase (bc_model s') \<in> set (bbr3_next (phase (bc_model s)))"
proof (cases "controller_ack_rejected s a")
  case True
  then show ?thesis using r by (simp add: tcp_shift_bbr3_controller_on_ack_def)
next
  case False
  have stamp: "ct_now_ns a \<noteq> 0" "last_update_ns (bc_model s) \<le> ct_now_ns a"
      "prior_delivered_bytes (ct_rate a) \<le> delivered_total_bytes (ct_rate a)"
    using False by (auto simp: controller_ack_rejected_def linorder_not_less)
  have "model3_ok (bc_model s)" using ok by (simp add: bbr3_ok_def)
  then obtain m where m: "tcp_shift_bbr3_model_on_ack (bc_model s) (ct_rate a) (ct_now_ns a) = (0, m)" "model3_ok m"
      "phase m = phase (bc_model s)" "last_update_ns m = ct_now_ns a" "full_bw_reached (bc_model s) \<longrightarrow> full_bw_reached m"
      "has_min_rtt (bc_model s) \<longrightarrow> has_min_rtt m"
    using model_on_ack_step [OF _ stamp] by blast
  define s1 where "s1 = s\<lparr>bc_model := m\<rparr>"
  have s1: "at_ack s1 a" using ok m stamp by (auto simp: s1_def at_ack_def bbr3_ok_def phase3_ok_def)
  have sz: "sizes3_ok s1" "ecn_alpha_q8 (bc_congestion s1) \<le> 256" using s1 by (simp_all add: at_ack_def bbr3_ok_def)
  obtain g cg where g: "tcp_shift_bbr3_congestion_on_ack (bc_congestion s1) (congestion_ack_of s1 a (phase (bc_model s))) = (g, cg)"
      "0 \<le> g" "ecn_alpha_q8 cg \<le> 256"
    using congestion_on_ack_step [OF congestion_ack_accepted [OF sz(1) False] sz(2)] by blast
  define s2 where "s2 = s1\<lparr>bc_congestion := cg\<rparr>"
  have s2: "at_ack (update_ack_aggregation s2 a) a" "phase (bc_model (update_ack_aggregation s2 a)) = phase (bc_model s)"
    unfolding at_ack_def aggregation_frame(1) [OF refl] using s1 g(3) m(3,4) aggregation_ok [of s2 a]
    by (simp_all add: s2_def at_ack_def bbr3_ok_def, simp_all add: s1_def)
  define s3 where "s3 = advance_phase (update_ack_aggregation s2 a) a g"
  note s3 = advance_phase_step [OF s2(1), of g, folded s3_def, unfolded s2(2)]
  have eq: "bc_congestion s1 = bc_congestion s" by (simp add: s1_def)
  have "c = 0 \<and> update_policy s3 a = (s', p')"
    using r False m(1) g(1) [unfolded eq] g(2) unfolding tcp_shift_bbr3_controller_on_ack_def Let_def
    by (simp add: s1_def [symmetric] s2_def [symmetric] s3_def [symmetric] split: prod.splits)
  then show ?thesis using False update_policy_step [of s3 a s' p'] s3 by (auto simp: at_ack_def)
qed

lemma bbr3_run_ok: "bbr3_run s \<Longrightarrow> bbr3_ok s"
proof (induction rule: bbr3_run.induct)
  case (init s0 w mss seed t s)
  then show ?case by (rule init_ok)
next
  case (ack s a p r s' p')
  then show ?case using on_ack_step [OF ack.IH ack.hyps(2)] by auto
qed

text \<open>C10. After a successful initialisation, along every sequence of acknowledgements: an acknowledgement is refused exactly when
  it is malformed, and then neither the controller nor the policy changes; otherwise the controller publishes a policy with a
  window of at least four segments, a positive rate and a send quantum between two segments and 64 KiB (or two
  segments, when they are larger).\<close>

theorem bbr3_policy_usable:
  assumes "bbr3_run s" and "tcp_shift_bbr3_controller_on_ack s a p = (r, s', p')"
  shows "if controller_ack_rejected s a then r = -1 \<and> s' = s \<and> p' = p else r = 0 \<and> policy3_ok s' p'"
  using on_ack_step [OF bbr3_run_ok [OF assms(1)] assms(2)] by auto

text \<open>C11. The phases follow the protocol along every run: DRAIN is entered only from STARTUP, REFILL only from DOWN or CRUISE,
  UP only from REFILL, DOWN only from UP or when the initial drain ends, and ProbeRTT returns to CRUISE or, before the pipe
  was ever full, to STARTUP; bandwidth is probed only once the pipe is known to be full and a minimum RTT is known.\<close>

theorem bbr3_phases_in_order:
  assumes "bbr3_run s" and "tcp_shift_bbr3_controller_on_ack s a p = (r, s', p')"
  shows "phase (bc_model s') \<in> set (bbr3_next (phase (bc_model s))) \<and>
    (in_probe_bw (phase (bc_model s')) \<longrightarrow> full_bw_reached (bc_model s') \<and> has_min_rtt (bc_model s') \<and> min_rtt_ns (bc_model s') \<noteq> 0)"
proof -
  have ok: "bbr3_ok s'" using bbr3_run_ok bbr3_run.ack assms by blast
  have "phase (bc_model s) \<in> set (bbr3_next (phase (bc_model s)))" by (cases "phase (bc_model s)") simp_all
  then show ?thesis using on_ack_step [OF bbr3_run_ok [OF assms(1)] assms(2)] ok
    by (auto simp: bbr3_ok_def phase3_ok_def model3_ok_def)
qed

subsection \<open>A run on concrete data\<close>

text \<open>A connection with segments of 1000 bytes and a window of ten, and its first acknowledgement.\<close>

definition demo3_probe :: tcp_shift_bbr3_probe where
  "demo3_probe = \<lparr>cycle_stamp_ns = 0, probe_next_round_delivered = 0, up_full_bw_bytes_per_sec = 0, wait_ns = 0,
     random_state = 0, rounds_since_probe = 0, up_stagnant_rounds = 0, probe_up_rounds = 0,
     ack_phase = TCP_SHIFT_BBR3_ACKS_INIT, initialized = False, previous_probe_too_high = False,
     previous_probe_precautionary = False, probe_bw_sample = False, pending_probe_feedback = False\<rparr>"

definition demo3_blank :: tcp_shift_bbr3_controller where
  "demo3_blank = \<lparr>bc_model = tcp_shift_bbr3_model_init, bc_probe = demo3_probe, bc_congestion = tcp_shift_bbr3_congestion_init,
     extra_acked_values = [], extra_acked_rounds = [], extra_acked_interval_stamp_ns = 0, extra_acked_delivered_bytes = 0,
     extra_acked_bytes = 0, probe_rtt_done_stamp_ns = 0, probe_rtt_round_delivered = 0, bc_pacing_rate_bytes_per_sec = 0,
     bc_initial_cwnd_bytes = 0, bc_cwnd_bytes = 0, prior_cwnd_bytes = 0, bc_mss_bytes = 0, bc_flow_seed = 0,
     drain_start_round = 0, probe_rtt_round_done = False, probe_rtt_started = False\<rparr>"

definition demo3 :: tcp_shift_bbr3_controller where
  "demo3 = snd (tcp_shift_bbr3_controller_init demo3_blank 10000 1000 7 1)"

definition demo3_ack :: tcp_shift_bbr3_controller_ack where
  "demo3_ack = \<lparr>ct_rate = \<lparr>delivery_rate_bytes_per_sec = 100000, interval_ns = 10, send_interval_ns = 10, ack_interval_ns = 10,
       rtt_ns = 10000000, prior_delivered_bytes = 0, delivered_total_bytes = 1000, delivered_bytes = 1000,
       prior_inflight_bytes = 10000, flags = 9\<rparr>,
     ct_now_ns = 20000000, ct_lost_bytes = 0, ct_ce_bytes = 0, ct_tx_inflight_bytes = 10000, ct_acked_bytes = 1000,
     ct_inflight_bytes = 9000, validated_loss = False, ct_ecn_eligible = False, ct_loss_round_end = False,
     ct_probe_sample = False, ct_cwnd_limited = False, idle_restart = False\<rparr>"

definition demo3_policy :: tcp_shift_bbr3_controller_policy where
  "demo3_policy = \<lparr>po_pacing_rate_bytes_per_sec = 0, po_max_inflight_bytes = 0, po_extra_acked_bytes = 0, po_cwnd_bytes = 0,
     po_send_quantum_bytes = 0, po_mark_app_limited = False, po_phase = TCP_SHIFT_BBR3_STARTUP\<rparr>"

lemma demo3_run: "bbr3_run demo3"
proof (rule bbr3_run.init)
  have "fst (tcp_shift_bbr3_controller_init demo3_blank 10000 1000 7 1) = 0"
    by (simp add: tcp_shift_bbr3_controller_init_def)
  then show "tcp_shift_bbr3_controller_init demo3_blank 10000 1000 7 1 = (0, demo3)"
    unfolding demo3_def by (simp add: prod_eq_iff)
qed

lemma demo3_accepted: "\<not> controller_ack_rejected demo3 demo3_ack"
  by (simp add: controller_ack_rejected_def demo3_def demo3_ack_def tcp_shift_bbr3_controller_init_def has_flag_def
      tcp_shift_bbr3_model_init_def rate_sample_flag_defs)

theorem bbr3_policy_usable_witness:
  "\<exists>s' p'. tcp_shift_bbr3_controller_on_ack demo3 demo3_ack demo3_policy = (0, s', p') \<and> policy3_ok s' p'"
proof -
  obtain r s' p' where o: "tcp_shift_bbr3_controller_on_ack demo3 demo3_ack demo3_policy = (r, s', p')" by (metis prod_cases3)
  show ?thesis using bbr3_policy_usable [OF demo3_run o] demo3_accepted o by auto
qed

theorem bbr3_phases_in_order_witness:
  "\<exists>r s' p'. tcp_shift_bbr3_controller_on_ack demo3 demo3_ack demo3_policy = (r, s', p') \<and>
     phase (bc_model s') \<in> set (bbr3_next TCP_SHIFT_BBR3_STARTUP)"
proof -
  obtain r s' p' where o: "tcp_shift_bbr3_controller_on_ack demo3 demo3_ack demo3_policy = (r, s', p')" by (metis prod_cases3)
  have "phase (bc_model demo3) = TCP_SHIFT_BBR3_STARTUP"
    by (simp add: demo3_def tcp_shift_bbr3_controller_init_def tcp_shift_bbr3_model_init_def)
  then show ?thesis using bbr3_phases_in_order [OF demo3_run o] o by auto
qed

end
