(* ===== verification/Bbr3_Filter.thy ===== *)
theory Bbr3_Filter
  imports Bbr3_Model
begin

text \<open>
  The bandwidth filter of BBRv3 (theory \<open>Bbr3_Model\<close>) against its specification: the largest rate among the
  samples admitted in the current and in the previous probing cycle.
\<close>

section \<open>Specification\<close>

text \<open>The samples are logged with the number of their cycle; the specification looks back one cycle.\<close>

definition cycle_max :: "(nat \<times> nat) list \<Rightarrow> nat \<Rightarrow> nat" where
  "cycle_max samples c = fold max (map snd (filter (\<lambda>(k, _). k = c) samples)) 0"

definition window_max :: "(nat \<times> nat) list \<Rightarrow> nat \<Rightarrow> nat" where
  "window_max samples c = max (cycle_max samples c) (if c = 0 then 0 else cycle_max samples (c - 1))"

definition spec_admits :: "(nat \<times> nat) list \<Rightarrow> nat \<Rightarrow> tcp_shift_cc_rate_sample \<Rightarrow> bool" where
  "spec_admits samples c sample \<longleftrightarrow> has_flag sample TCP_SHIFT_CC_RATE_SAMPLE_VALID \<and> delivery_rate_bytes_per_sec sample \<noteq> 0 \<and>
     (unat (delivery_rate_bytes_per_sec sample) \<ge> window_max samples c \<or> \<not> has_flag sample TCP_SHIFT_CC_RATE_SAMPLE_APP_LIMITED)"

text \<open>A run of the estimator with its log: acknowledgements, ends of probing cycles, and whatever else leaves the filter alone.\<close>

inductive bw_run :: "tcp_shift_bbr3_model \<Rightarrow> nat \<Rightarrow> (nat \<times> nat) list \<Rightarrow> bool" where
  init: "bw_run tcp_shift_bbr3_model_init 0 []"
| ack: "bw_run m c samples \<Longrightarrow> tcp_shift_bbr3_model_on_ack m sample now_ns = (0, m') \<Longrightarrow>
    bw_run m' c (if spec_admits samples c sample then (c, unat (delivery_rate_bytes_per_sec sample)) # samples else samples)"
| advance: "bw_run m c samples \<Longrightarrow> tcp_shift_bbr3_model_advance_bw_cycle m = (0, m') \<Longrightarrow> bw_run m' (Suc c) samples"
| phase: "bw_run m c samples \<Longrightarrow> bw_run (m\<lparr>phase := ph\<rparr>) c samples"

section \<open>Refinement\<close>

lemma fold_max_start: "fold max xs (x :: nat) = max x (fold max xs 0)"
proof (induction xs arbitrary: x)
  case (Cons a xs)
  have "fold max (a # xs) x = max (max a x) (fold max xs 0)" using Cons.IH [of "max a x"] by simp
  moreover have "fold max (a # xs) 0 = max a (fold max xs 0)" using Cons.IH [of a] by simp
  ultimately show ?case by (simp add: max.commute max.left_commute)
qed simp

lemma cycle_max_Cons: "cycle_max ((k, r) # samples) c = (if k = c then max r (cycle_max samples c) else cycle_max samples c)"
  using fold_max_start [of _ r] by (simp add: cycle_max_def)

lemma cycle_max_future: "\<forall>(k, _) \<in> set samples. k < c \<Longrightarrow> cycle_max samples c = 0"
  by (induction samples) (auto simp: cycle_max_Cons, simp add: cycle_max_def)

text \<open>The slots hold the maxima of the two cycles.\<close>

definition filter3_ok :: "tcp_shift_bbr3_model \<Rightarrow> nat \<Rightarrow> (nat \<times> nat) list \<Rightarrow> bool" where
  "filter3_ok m c samples \<longleftrightarrow> length (max_bw_filter m) = 2 \<and> unat (cycle_count m) = c \<and> (\<forall>(k, _) \<in> set samples. k \<le> c) \<and>
     unat (max_bw_filter m ! (c mod 2)) = cycle_max samples c \<and>
     unat (max_bw_filter m ! (Suc c mod 2)) = (if c = 0 then 0 else cycle_max samples (c - 1)) \<and>
     max_bw_bytes_per_sec m = max (max_bw_filter m ! 0) (max_bw_filter m ! 1)"

lemma slots_max:
  fixes f :: "u64 list"
  shows "max (f ! 0) (f ! 1) = max (f ! (c mod 2)) (f ! (Suc c mod 2))"
proof -
  have "c mod 2 = 0 \<and> Suc c mod 2 = 1 \<or> c mod 2 = 1 \<and> Suc c mod 2 = 0" by presburger
  then show ?thesis by (auto simp: max.commute)
qed

lemma filter_ok_max: "filter3_ok m c samples \<Longrightarrow> unat (max_bw_bytes_per_sec m) = window_max samples c"
  using slots_max [of "max_bw_filter m" c] by (auto simp: filter3_ok_def window_max_def unat_max)

lemma filter_ok_same:
  "max_bw_filter m' = max_bw_filter m \<Longrightarrow> cycle_count m' = cycle_count m \<Longrightarrow> max_bw_bytes_per_sec m' = max_bw_bytes_per_sec m \<Longrightarrow>
   filter3_ok m c samples \<Longrightarrow> filter3_ok m' c samples"
  by (simp add: filter3_ok_def)

lemma slot_of: "unat (cycle_count m mod TCP_SHIFT_BBR3_MAX_BW_CYCLES) = unat (cycle_count m) mod 2"
  by (simp add: TCP_SHIFT_BBR3_MAX_BW_CYCLES_def unat_mod_distrib)

lemma other_slot: "c mod 2 \<noteq> Suc c mod 2" "c mod 2 < 2" "Suc c mod 2 < 2"
  by (simp_all add: mod_Suc)

lemma admit_bw_refines:
  assumes ok: "filter3_ok m c samples"
  shows "filter3_ok (admit_bw m sample) c
    (if spec_admits samples c sample then (c, unat (delivery_rate_bytes_per_sec sample)) # samples else samples)"
proof (cases "spec_admits samples c sample")
  case False
  then have "admit_bw m sample = m"
    using filter_ok_max [OF ok] by (auto simp: admit_bw_def spec_admits_def Let_def word_le_nat_alt)
  then show ?thesis using False ok by simp
next
  case True
  let ?r = "delivery_rate_bytes_per_sec sample" and ?f = "max_bw_filter m"
  have c: "unat (cycle_count m) = c" "length ?f = 2" using ok by (simp_all add: filter3_ok_def)
  define f' where "f' = ?f[c mod 2 := max ?r (?f ! (c mod 2))]"
  have m': "admit_bw m sample = m\<lparr>max_bw_filter := f', max_bw_bytes_per_sec := max (f' ! 0) (f' ! 1), has_bw := True\<rparr>"
    using True filter_ok_max [OF ok] c
    by (auto simp: admit_bw_def spec_admits_def Let_def word_le_nat_alt slot_of f'_def)
  have f': "f' ! (c mod 2) = max ?r (?f ! (c mod 2))" "f' ! (Suc c mod 2) = ?f ! (Suc c mod 2)" "length f' = 2"
    using c(2) other_slot [of c] by (simp_all add: f'_def)
  show ?thesis using True ok f' by (auto simp: filter3_ok_def m' cycle_max_Cons unat_max)
qed

lemma model_on_ack_refines:
  assumes ok: "filter3_ok m c samples" and r: "tcp_shift_bbr3_model_on_ack m sample now_ns = (0, m')"
  shows "filter3_ok m' c
    (if spec_admits samples c sample then (c, unat (delivery_rate_bytes_per_sec sample)) # samples else samples)"
proof -
  define m2 where "m2 = update_rtt (update_round (m\<lparr>last_update_ns := now_ns, has_update_time := True\<rparr>) sample) sample now_ns"
  have m': "m' = update_full_bw (admit_bw m2 sample) sample"
    using r by (auto simp: tcp_shift_bbr3_model_on_ack_def Let_def m2_def split: if_splits)
  have "filter3_ok m2 c samples"
    by (rule filter_ok_same [OF _ _ _ ok]) (simp_all add: m2_def update_rtt_def update_round_def Let_def)
  from admit_bw_refines [OF this, of sample] show ?thesis
    by (rule filter_ok_same [rotated 3]) (simp_all add: m' update_full_bw_def Let_def)
qed

lemma advance_refines:
  assumes ok: "filter3_ok m c samples" and r: "tcp_shift_bbr3_model_advance_bw_cycle m = (0, m')"
  shows "filter3_ok m' (Suc c) samples"
proof -
  let ?f = "max_bw_filter m"
  have c: "unat (cycle_count m) = c" "length ?f = 2" using ok by (simp_all add: filter3_ok_def)
  have "cycle_count m \<noteq> UINT32_MAX" using r by (auto simp: tcp_shift_bbr3_model_advance_bw_cycle_def)
  then have inc: "unat (cycle_count m + 1) = Suc c" using c unat_inc_neq_max [of "cycle_count m", folded UINT32_MAX_eq] by simp
  define f' where "f' = ?f[Suc c mod 2 := 0]"
  have m': "max_bw_filter m' = f'" "cycle_count m' = cycle_count m + 1" "max_bw_bytes_per_sec m' = max (f' ! 0) (f' ! 1)"
    using r inc by (auto simp: tcp_shift_bbr3_model_advance_bw_cycle_def Let_def f'_def TCP_SHIFT_BBR3_MAX_BW_CYCLES_def
        unat_mod_distrib split: if_splits)
  have f': "f' ! (Suc c mod 2) = 0" "f' ! (c mod 2) = ?f ! (c mod 2)" "length f' = 2"
    using c(2) other_slot [of c] by (simp_all add: f'_def)
  have "cycle_max samples (Suc c) = 0" using ok by (intro cycle_max_future) (auto simp: filter3_ok_def)
  then show ?thesis using ok f' inc by (auto simp: filter3_ok_def m')
qed

lemma bw_run_ok: "bw_run m c samples \<Longrightarrow> filter3_ok m c samples"
proof (induction rule: bw_run.induct)
  case init
  show ?case by (simp add: filter3_ok_def tcp_shift_bbr3_model_init_def cycle_max_def)
next
  case (phase m c samples ph)
  then show ?case by (simp add: filter3_ok_def)
next
  case (ack m c samples sample now_ns m')
  show ?case by (rule model_on_ack_refines [OF ack.IH ack.hyps(2)])
next
  case (advance m c samples m')
  show ?case by (rule advance_refines [OF advance.IH advance.hyps(2)])
qed

text \<open>C33. The two slots of the filter compute the specification: along every run the bandwidth estimate is the largest rate admitted in the
  current or the previous probing cycle, zero when there is none.\<close>

theorem bbr3_max_bw_is_two_cycle_maximum:
  assumes "bw_run m c samples"
  shows "unat (max_bw_bytes_per_sec m) = window_max samples c"
  using filter_ok_max [OF bw_run_ok [OF assms]] .

text \<open>Two samples in the first cycle, one in the next, and the estimate after the cycle of the first two has expired.\<close>

definition demo3_sample :: "u64 \<Rightarrow> tcp_shift_cc_rate_sample" where
  "demo3_sample bps = \<lparr>delivery_rate_bytes_per_sec = bps, interval_ns = 10, send_interval_ns = 10, ack_interval_ns = 10,
     rtt_ns = 10000000, prior_delivered_bytes = 0, delivered_total_bytes = 1000, delivered_bytes = 1000,
     prior_inflight_bytes = 10000, flags = 9\<rparr>"

definition demo_model :: tcp_shift_bbr3_model where
  "demo_model = snd (tcp_shift_bbr3_model_advance_bw_cycle (snd (tcp_shift_bbr3_model_on_ack
     (snd (tcp_shift_bbr3_model_advance_bw_cycle (snd (tcp_shift_bbr3_model_on_ack (snd (tcp_shift_bbr3_model_on_ack
        tcp_shift_bbr3_model_init (demo3_sample 900) 1)) (demo3_sample 700) 2)))) (demo3_sample 500) 3)))"

lemma demo_ack_run:
  assumes "bw_run m c samples" "fst (tcp_shift_bbr3_model_on_ack m (demo3_sample bps) t) = 0" "spec_admits samples c (demo3_sample bps)"
  shows "bw_run (snd (tcp_shift_bbr3_model_on_ack m (demo3_sample bps) t)) c ((c, unat bps) # samples)"
  using bw_run.ack [OF assms(1), of "demo3_sample bps" t "snd (tcp_shift_bbr3_model_on_ack m (demo3_sample bps) t)"] assms(2,3)
  by (simp add: prod_eq_iff demo3_sample_def)

lemma demo_advance_run:
  assumes "bw_run m c samples" "fst (tcp_shift_bbr3_model_advance_bw_cycle m) = 0"
  shows "bw_run (snd (tcp_shift_bbr3_model_advance_bw_cycle m)) (Suc c) samples"
  using bw_run.advance [OF assms(1), of "snd (tcp_shift_bbr3_model_advance_bw_cycle m)"] assms(2) by (simp add: prod_eq_iff)

lemma demo_model_run: "bw_run demo_model 2 [(1, 500), (0, 700), (0, 900)]"
proof -
  have "bw_run demo_model (Suc (Suc 0)) [(Suc 0, unat (500 :: u64)), (0, unat (700 :: u64)), (0, unat (900 :: u64))]"
    unfolding demo_model_def by (intro demo_advance_run demo_ack_run bw_run.init; code_simp)
  then have "bw_run demo_model (Suc (Suc 0)) [(Suc 0, 500), (0, 700), (0, 900)]" by simp
  then show ?thesis by (simp only: One_nat_def numeral_2_eq_2)
qed

theorem bbr3_max_bw_is_two_cycle_maximum_witness: "unat (max_bw_bytes_per_sec demo_model) = 500"
proof -
  have "window_max [(1, 500), (0, 700), (0, 900)] 2 = 500" by (simp add: window_max_def cycle_max_def)
  then show ?thesis using bbr3_max_bw_is_two_cycle_maximum [OF demo_model_run] by simp
qed

end
