(* ===== verification/Bbr3_Evidence.thy ===== *)
theory Bbr3_Evidence
  imports Rack_Tlp
begin

text \<open>
  The evidence of loss for BBRv3: \<^verbatim>\<open>src/lwip/bbr3_rack_evidence.c\<close>, which turns the RACK judgement of one transmission
  (theory \<open>Rack_Tlp\<close>) into at most one loss event, and \<^verbatim>\<open>src/lwip/bbr3_loss_round.c\<close>, which collects the events of a
  packet-timed round into a loss fraction.
\<close>

section \<open>Transmissions and their losses\<close>

record tcp_shift_bbr3_rack_attempt =
  at_generation :: u64
  at_tx_ns :: u64
  at_delivered_at_tx :: u64
  qualified_generation :: u64
  revoked_generation :: u64
  at_seq_start :: u32
  at_prior_inflight_bytes :: u32
  at_payload_bytes :: u16
  at_delivered_bytes :: u16
  at_retransmitted :: bool
  at_app_limited :: bool
  at_probe_sample :: bool

record tcp_shift_bbr3_rack_tx =
  tx_generation :: u64
  tx_tx_ns :: u64
  tx_delivered_at_tx :: u64
  tx_seq_start :: u32
  tx_prior_inflight_bytes :: u32
  tx_payload_bytes :: u16
  already_delivered_bytes :: u16
  tx_retransmitted :: bool
  tx_app_limited :: bool
  tx_probe_sample :: bool

record tcp_shift_bbr3_rack_loss =
  loss_generation :: u64
  loss_tx_ns :: u64
  loss_delivered_at_tx :: u64
  loss_seq_start :: u32
  loss_tx_inflight_bytes :: u32
  loss_newly_lost_bytes :: u16
  loss_retransmitted :: bool
  loss_app_limited :: bool
  loss_probe_sample :: bool

definition tcp_shift_bbr3_rack_attempt_init :: tcp_shift_bbr3_rack_attempt where
  "tcp_shift_bbr3_rack_attempt_init =
    \<lparr>at_generation = 0, at_tx_ns = 0, at_delivered_at_tx = 0, qualified_generation = 0, revoked_generation = 0, at_seq_start = 0,
     at_prior_inflight_bytes = 0, at_payload_bytes = 0, at_delivered_bytes = 0, at_retransmitted = False, at_app_limited = False,
     at_probe_sample = False\<rparr>"

definition tcp_shift_bbr3_rack_note_tx ::
    "tcp_shift_bbr3_rack_attempt \<Rightarrow> tcp_shift_bbr3_rack_tx \<Rightarrow> int \<times> tcp_shift_bbr3_rack_attempt" where
  "tcp_shift_bbr3_rack_note_tx a tx =
    (if tx_generation tx = 0 \<or> tx_generation tx \<le> at_generation a \<or> tx_tx_ns tx = 0 \<or> tx_payload_bytes tx = 0 \<or>
        already_delivered_bytes tx \<ge> tx_payload_bytes tx \<or> tx_prior_inflight_bytes tx < ucast (tx_payload_bytes tx) \<or>
        at_generation a \<noteq> 0 \<and> tx_tx_ns tx < at_tx_ns a
     then (-1, a)
     else (0, a\<lparr>at_generation := tx_generation tx, at_tx_ns := tx_tx_ns tx, at_delivered_at_tx := tx_delivered_at_tx tx,
                at_seq_start := tx_seq_start tx, at_prior_inflight_bytes := tx_prior_inflight_bytes tx,
                at_payload_bytes := tx_payload_bytes tx, at_delivered_bytes := already_delivered_bytes tx,
                at_retransmitted := tx_retransmitted tx, at_app_limited := tx_app_limited tx,
                at_probe_sample := tx_probe_sample tx\<rparr>))"

definition tcp_shift_bbr3_rack_note_delivery ::
    "tcp_shift_bbr3_rack_attempt \<Rightarrow> u16 \<Rightarrow> int \<times> tcp_shift_bbr3_rack_attempt" where
  "tcp_shift_bbr3_rack_note_delivery a delivered =
    (if at_generation a = 0 \<or> delivered < at_delivered_bytes a \<or> delivered > at_payload_bytes a then (-1, a)
     else (0, a\<lparr>at_delivered_bytes := delivered\<rparr>))"

definition segment_of :: "tcp_shift_bbr3_rack_attempt \<Rightarrow> tcp_shift_rack_segment" where
  "segment_of a = \<lparr>xmit_ts_ns = at_tx_ns a, seq_start = at_seq_start a, end_seq = at_seq_start a + ucast (at_payload_bytes a),
     retransmitted = at_retransmitted a, lost = False\<rparr>"

definition loss_of :: "tcp_shift_bbr3_rack_attempt \<Rightarrow> tcp_shift_bbr3_rack_loss" where
  "loss_of a = \<lparr>loss_generation = at_generation a, loss_tx_ns = at_tx_ns a, loss_delivered_at_tx = at_delivered_at_tx a,
     loss_seq_start = at_seq_start a, loss_tx_inflight_bytes = at_prior_inflight_bytes a,
     loss_newly_lost_bytes = at_payload_bytes a - at_delivered_bytes a, loss_retransmitted = at_retransmitted a,
     loss_app_limited = at_app_limited a, loss_probe_sample = at_probe_sample a\<rparr>"

text \<open>The result also has what is written through \<^verbatim>\<open>out\<close>: nothing, or the loss.\<close>

definition tcp_shift_bbr3_rack_qualify_loss ::
    "tcp_shift_bbr3_rack_attempt \<Rightarrow> tcp_shift_rack_tlp_state \<Rightarrow> u64 \<Rightarrow> u32 \<Rightarrow>
     int \<times> tcp_shift_bbr3_rack_attempt \<times> tcp_shift_rack_tlp_state \<times> tcp_shift_bbr3_rack_loss option" where
  "tcp_shift_bbr3_rack_qualify_loss a rack now_ns in_recovery =
    (if now_ns = 0 \<or> at_generation a = 0 \<or> now_ns < at_tx_ns a \<or> in_recovery > 1 then (-1, a, rack, None)
     else if qualified_generation a = at_generation a \<or> at_delivered_bytes a \<ge> at_payload_bytes a then (0, a, rack, None)
     else
       (case tcp_shift_rack_loss_remaining rack (segment_of a) now_ns (in_recovery \<noteq> 0) of
          (mature, rack, _) \<Rightarrow>
            if mature = 0 then (0, a, rack, None)
            else (1, a\<lparr>qualified_generation := at_generation a\<rparr>, rack, Some (loss_of a))))"

definition tcp_shift_bbr3_rack_undo_spurious ::
    "tcp_shift_bbr3_rack_attempt \<Rightarrow> u64 \<Rightarrow> int \<times> tcp_shift_bbr3_rack_attempt" where
  "tcp_shift_bbr3_rack_undo_spurious a gen =
    (if gen = 0 then (-1, a)
     else if gen \<noteq> qualified_generation a \<or> gen = revoked_generation a then (0, a)
     else (1, a\<lparr>revoked_generation := gen\<rparr>))"

section \<open>Loss rounds\<close>

record tcp_shift_bbr3_loss_round =
  delivered_start :: u64
  newly_lost_bytes :: u64
  snapshot_delivered_at_tx :: u64
  last_generation :: u64
  last_seq_start :: u32
  snapshot_tx_inflight_bytes :: u32
  event_count :: u32
  active :: bool
  context_consistent :: bool
  all_probe_samples :: bool

record tcp_shift_bbr3_loss_round_result =
  res_delivered_start :: u64
  res_delivered_end :: u64
  res_newly_lost_bytes :: u64
  res_events :: u32
  res_tx_inflight_bytes :: u32
  same_send_snapshot :: bool
  loss_fraction_valid :: bool
  qualified_probe_excess_loss :: bool

definition tcp_shift_bbr3_loss_round_start ::
    "tcp_shift_bbr3_loss_round \<Rightarrow> u64 \<Rightarrow> int \<times> tcp_shift_bbr3_loss_round" where
  "tcp_shift_bbr3_loss_round_start round start =
    (if active round then (-1, round)
     else (0, \<lparr>delivered_start = start, newly_lost_bytes = 0, snapshot_delivered_at_tx = 0, last_generation = 0, last_seq_start = 0,
               snapshot_tx_inflight_bytes = 0, event_count = 0, active = True, context_consistent = True,
               all_probe_samples = True\<rparr>))"

definition tcp_shift_bbr3_loss_round_add ::
    "tcp_shift_bbr3_loss_round \<Rightarrow> tcp_shift_bbr3_rack_loss \<Rightarrow> int \<times> tcp_shift_bbr3_loss_round" where
  "tcp_shift_bbr3_loss_round_add round event =
    (if \<not> active round \<or> loss_generation event = 0 \<or> loss_newly_lost_bytes event = 0 \<or> loss_tx_ns event = 0 \<or>
        loss_tx_inflight_bytes event < ucast (loss_newly_lost_bytes event) \<or>
        loss_generation event = last_generation round \<and> loss_seq_start event = last_seq_start round \<or>
        event_count round = UINT32_MAX \<or> UINT64_MAX - newly_lost_bytes round < ucast (loss_newly_lost_bytes event)
     then (-1, round)
     else
       let round =
             (if event_count round = 0
              then round\<lparr>snapshot_delivered_at_tx := loss_delivered_at_tx event,
                         snapshot_tx_inflight_bytes := loss_tx_inflight_bytes event\<rparr>
              else if snapshot_delivered_at_tx round \<noteq> loss_delivered_at_tx event \<or>
                      snapshot_tx_inflight_bytes round \<noteq> loss_tx_inflight_bytes event
              then round\<lparr>context_consistent := False\<rparr>
              else round);
           round = (if \<not> loss_probe_sample event then round\<lparr>all_probe_samples := False\<rparr> else round)
       in (0, round\<lparr>last_generation := loss_generation event, last_seq_start := loss_seq_start event,
                    event_count := event_count round + 1,
                    newly_lost_bytes := newly_lost_bytes round + ucast (loss_newly_lost_bytes event)\<rparr>))"

definition tcp_shift_bbr3_loss_round_finish ::
    "tcp_shift_bbr3_loss_round \<Rightarrow> u64 \<Rightarrow> u32 \<Rightarrow> tcp_shift_bbr3_loss_round_result \<Rightarrow>
     int \<times> tcp_shift_bbr3_loss_round \<times> tcp_shift_bbr3_loss_round_result" where
  "tcp_shift_bbr3_loss_round_finish round delivered_end complete result =
    (if \<not> active round \<or> complete \<noteq> 1 \<or> delivered_end \<le> delivered_start round then (-1, round, result)
     else
       let ratio_valid = (event_count round \<noteq> 0 \<and> context_consistent round \<and> snapshot_tx_inflight_bytes round \<noteq> 0)
       in (0, round\<lparr>active := False\<rparr>,
           \<lparr>res_delivered_start = delivered_start round, res_delivered_end = delivered_end,
            res_newly_lost_bytes = newly_lost_bytes round, res_events = event_count round,
            res_tx_inflight_bytes = (if ratio_valid then snapshot_tx_inflight_bytes round else 0),
            same_send_snapshot = (event_count round \<noteq> 0 \<and> context_consistent round), loss_fraction_valid = ratio_valid,
            qualified_probe_excess_loss = (ratio_valid \<and> all_probe_samples round \<and>
              (newly_lost_bytes round > u64_of UINT32_MAX \<or>
               newly_lost_bytes round * 100 > u64_of (snapshot_tx_inflight_bytes round) * 2))\<rparr>))"

section \<open>A transmission is counted once\<close>

text \<open>What happens to a delivery slot, with the losses it reported, latest first.\<close>

inductive slot_run :: "tcp_shift_bbr3_rack_attempt \<Rightarrow> tcp_shift_bbr3_rack_loss list \<Rightarrow> bool" where
  init: "slot_run tcp_shift_bbr3_rack_attempt_init []"
| tx: "slot_run a losses \<Longrightarrow> tcp_shift_bbr3_rack_note_tx a tx = (r, a') \<Longrightarrow> slot_run a' losses"
| delivery: "slot_run a losses \<Longrightarrow> tcp_shift_bbr3_rack_note_delivery a n = (r, a') \<Longrightarrow> slot_run a' losses"
| qualify: "slot_run a losses \<Longrightarrow> tcp_shift_bbr3_rack_qualify_loss a rack now_ns in_recovery = (r, a', rack', out) \<Longrightarrow>
    slot_run a' (case out of None \<Rightarrow> losses | Some loss \<Rightarrow> loss # losses)"
| undo: "slot_run a losses \<Longrightarrow> tcp_shift_bbr3_rack_undo_spurious a gen = (r, a') \<Longrightarrow> slot_run a' losses"

definition loss_ok :: "tcp_shift_bbr3_rack_loss \<Rightarrow> bool" where
  "loss_ok loss \<longleftrightarrow> loss_generation loss \<noteq> 0 \<and> loss_newly_lost_bytes loss \<noteq> 0 \<and> loss_tx_ns loss \<noteq> 0 \<and>
     unat (loss_newly_lost_bytes loss) \<le> unat (loss_tx_inflight_bytes loss)"

definition slot_ok :: "tcp_shift_bbr3_rack_attempt \<Rightarrow> tcp_shift_bbr3_rack_loss list \<Rightarrow> bool" where
  "slot_ok a losses \<longleftrightarrow> qualified_generation a \<le> at_generation a \<and>
     (at_generation a \<noteq> 0 \<longrightarrow> at_tx_ns a \<noteq> 0 \<and> unat (at_payload_bytes a) \<le> unat (at_prior_inflight_bytes a) \<and>
        at_delivered_bytes a \<le> at_payload_bytes a) \<and>
     (\<forall>loss\<in>set losses. loss_generation loss \<le> qualified_generation a \<and> loss_ok loss) \<and>
     sorted_wrt (\<lambda>x y. loss_generation x > loss_generation y) losses"

lemma unat_ucast_16_32 [simp]: "unat (ucast (x :: u16) :: u32) = unat x"
  by (simp add: unsigned_ucast_eq take_bit_nat_eq_self order.strict_trans [OF unsigned_less])

lemma slot_tx:
  assumes "slot_ok a losses" "tcp_shift_bbr3_rack_note_tx a tx = (r, a')"
  shows "slot_ok a' losses"
proof (cases "r = 0")
  case False
  then show ?thesis using assms by (auto simp: tcp_shift_bbr3_rack_note_tx_def split: if_splits)
next
  case True
  have g: "at_generation a < tx_generation tx" "tx_tx_ns tx \<noteq> 0" "already_delivered_bytes tx < tx_payload_bytes tx"
      "\<not> tx_prior_inflight_bytes tx < ucast (tx_payload_bytes tx)"
    using assms(2) True by (auto simp: tcp_shift_bbr3_rack_note_tx_def linorder_not_le split: if_splits)
  have "unat (tx_payload_bytes tx) \<le> unat (tx_prior_inflight_bytes tx)"
    using g(4) by (simp add: word_less_nat_alt)
  moreover have "a' = a\<lparr>at_generation := tx_generation tx, at_tx_ns := tx_tx_ns tx, at_delivered_at_tx := tx_delivered_at_tx tx,
                at_seq_start := tx_seq_start tx, at_prior_inflight_bytes := tx_prior_inflight_bytes tx,
                at_payload_bytes := tx_payload_bytes tx, at_delivered_bytes := already_delivered_bytes tx,
                at_retransmitted := tx_retransmitted tx, at_app_limited := tx_app_limited tx,
                at_probe_sample := tx_probe_sample tx\<rparr>"
    using assms(2) True by (auto simp: tcp_shift_bbr3_rack_note_tx_def split: if_splits)
  ultimately show ?thesis using assms(1) g by (auto simp: slot_ok_def)
qed

lemma slot_qualify:
  assumes ok: "slot_ok a losses" and r: "tcp_shift_bbr3_rack_qualify_loss a rack now_ns in_recovery = (r, a', rack', out)"
  shows "slot_ok a' (case out of None \<Rightarrow> losses | Some loss \<Rightarrow> loss # losses)"
proof (cases out)
  case None
  then show ?thesis using ok r by (auto simp: tcp_shift_bbr3_rack_qualify_loss_def split: if_splits prod.splits)
next
  case (Some loss)
  have g: "at_generation a \<noteq> 0" "qualified_generation a \<noteq> at_generation a" "at_delivered_bytes a < at_payload_bytes a"
      "a' = a\<lparr>qualified_generation := at_generation a\<rparr>" "loss = loss_of a"
    using r Some by (auto simp: tcp_shift_bbr3_rack_qualify_loss_def linorder_not_le split: if_splits prod.splits)
  have "loss_ok loss" using ok g unfolding slot_ok_def loss_ok_def g(5) loss_of_def
    by (simp add: word_less_nat_alt word_zero_nat unat_sub word_le_nat_alt diff_le_self [THEN order.trans])
  moreover have "qualified_generation a < at_generation a" using ok g(2) unfolding slot_ok_def by (metis order.not_eq_order_implies_strict)
  ultimately show ?thesis using ok g Some by (auto simp: slot_ok_def loss_of_def)
qed

lemma slot_run_ok: "slot_run a losses \<Longrightarrow> slot_ok a losses"
proof (induction rule: slot_run.induct)
  case init
  show ?case by (simp add: slot_ok_def tcp_shift_bbr3_rack_attempt_init_def)
next
  case (tx a losses tx r a')
  then show ?case using slot_tx by blast
next
  case (delivery a losses n r a')
  then show ?case by (auto simp: slot_ok_def tcp_shift_bbr3_rack_note_delivery_def linorder_not_less split: if_splits)
next
  case (qualify a losses rack now_ns in_recovery r a' rack' out)
  then show ?case using slot_qualify by blast
next
  case (undo a losses gen r a')
  then show ?case by (auto simp: slot_ok_def tcp_shift_bbr3_rack_undo_spurious_def split: if_splits)
qed

text \<open>C35. Every loss event names a real transmission with bytes still undelivered, and no transmission is reported lost twice:
  along any sequence of transmissions, deliveries, RACK judgements and spurious-loss undos of a delivery slot, the events of
  the slot have pairwise different generations (each later than the one before), a non-empty number of lost bytes and at
  most the bytes in flight when it was sent.\<close>

theorem bbr3_loss_counted_once:
  assumes "slot_run a losses"
  shows "distinct (map loss_generation losses) \<and> sorted_wrt (\<lambda>x y. loss_generation y < loss_generation x) losses \<and>
    list_all loss_ok losses"
proof -
  have ok: "sorted_wrt (\<lambda>x y. loss_generation y < loss_generation x) losses" "list_all loss_ok losses"
    using slot_run_ok [OF assms] by (auto simp: slot_ok_def list_all_iff)
  then have "sorted_wrt (\<lambda>x y. y < x) (map loss_generation losses)" by (simp add: sorted_wrt_map)
  then have "distinct (map loss_generation losses)"
    by (metis strict_sorted_iff sorted_wrt_rev distinct_rev)
  with ok show ?thesis by simp
qed

definition demo_tx :: tcp_shift_bbr3_rack_tx where
  "demo_tx = \<lparr>tx_generation = 1, tx_tx_ns = 890, tx_delivered_at_tx = 5000, tx_seq_start = 1000, tx_prior_inflight_bytes = 4000,
     tx_payload_bytes = 1000, already_delivered_bytes = 0, tx_retransmitted = False, tx_app_limited = False,
     tx_probe_sample = True\<rparr>"

definition demo_attempt :: tcp_shift_bbr3_rack_attempt where
  "demo_attempt = snd (tcp_shift_bbr3_rack_note_tx tcp_shift_bbr3_rack_attempt_init demo_tx)"

text \<open>The slot is judged twice at a time when its transmission counts as lost; only the first judgement reports it.\<close>

theorem bbr3_loss_counted_once_witness:
  "fst (tcp_shift_bbr3_rack_qualify_loss demo_attempt demo_rack 2000 0) = 1 \<and>
   fst (tcp_shift_bbr3_rack_qualify_loss (demo_attempt\<lparr>qualified_generation := 1\<rparr>) demo_rack 2000 0) = 0 \<and>
   loss_newly_lost_bytes (loss_of demo_attempt) = 1000 \<and> distinct (map loss_generation [loss_of demo_attempt]) \<and>
   sorted_wrt (\<lambda>x y. loss_generation y < loss_generation x) [loss_of demo_attempt] \<and> list_all loss_ok [loss_of demo_attempt]"
proof -
  have tx: "tcp_shift_bbr3_rack_note_tx tcp_shift_bbr3_rack_attempt_init demo_tx = (0, demo_attempt)"
    unfolding demo_attempt_def by code_simp
  obtain rack' where q: "tcp_shift_bbr3_rack_qualify_loss demo_attempt demo_rack 2000 0 =
      (1, demo_attempt\<lparr>qualified_generation := 1\<rparr>, rack', Some (loss_of demo_attempt))"
  proof -
    have "map_prod id (map_prod id snd) (tcp_shift_bbr3_rack_qualify_loss demo_attempt demo_rack 2000 0) =
      (1, demo_attempt\<lparr>qualified_generation := 1\<rparr>, Some (loss_of demo_attempt))" by code_simp
    then show ?thesis using that
      by (cases "tcp_shift_bbr3_rack_qualify_loss demo_attempt demo_rack 2000 0") auto
  qed
  have run: "slot_run (demo_attempt\<lparr>qualified_generation := 1\<rparr>) [loss_of demo_attempt]"
    using slot_run.qualify [OF slot_run.tx [OF slot_run.init tx] q] by simp
  have "fst (tcp_shift_bbr3_rack_qualify_loss (demo_attempt\<lparr>qualified_generation := 1\<rparr>) demo_rack 2000 0) = 0"
    "loss_newly_lost_bytes (loss_of demo_attempt) = 1000" by code_simp+
  with bbr3_loss_counted_once [OF run] q show ?thesis by simp
qed

section \<open>What a loss round measures\<close>

text \<open>The events of a round, in order; the round is over when one is refused.\<close>

fun round_adds :: "tcp_shift_bbr3_loss_round \<Rightarrow> tcp_shift_bbr3_rack_loss list \<Rightarrow> tcp_shift_bbr3_loss_round option" where
  "round_adds round [] = Some round"
| "round_adds round (e # es) =
    (case tcp_shift_bbr3_loss_round_add round e of (r, round) \<Rightarrow> if r = 0 then round_adds round es else None)"

definition lost_sum :: "tcp_shift_bbr3_rack_loss list \<Rightarrow> nat" where
  "lost_sum es = (\<Sum>e\<leftarrow>es. unat (loss_newly_lost_bytes e))"

text \<open>All events were sent under the same conditions.\<close>

definition one_snapshot :: "tcp_shift_bbr3_rack_loss list \<Rightarrow> bool" where
  "one_snapshot es \<longleftrightarrow> list_all (\<lambda>e. loss_delivered_at_tx e = loss_delivered_at_tx (hd es) \<and>
     loss_tx_inflight_bytes e = loss_tx_inflight_bytes (hd es)) es"

definition round_holds :: "u64 \<Rightarrow> tcp_shift_bbr3_rack_loss list \<Rightarrow> tcp_shift_bbr3_loss_round \<Rightarrow> bool" where
  "round_holds start es round \<longleftrightarrow> delivered_start round = start \<and> active round \<and>
     unat (newly_lost_bytes round) = lost_sum es \<and> unat (event_count round) = length es \<and>
     context_consistent round = one_snapshot es \<and> all_probe_samples round = list_all loss_probe_sample es \<and>
     (es \<noteq> [] \<longrightarrow> snapshot_delivered_at_tx round = loss_delivered_at_tx (hd es) \<and>
        snapshot_tx_inflight_bytes round = loss_tx_inflight_bytes (hd es) \<and> loss_tx_inflight_bytes (hd es) \<noteq> 0)"

lemma unat_ucast_16_64 [simp]: "unat (ucast (x :: u16) :: u64) = unat x"
  by (simp add: unsigned_ucast_eq take_bit_nat_eq_self order.strict_trans [OF unsigned_less])

lemma round_holds_start: "tcp_shift_bbr3_loss_round_start r0 start = (0, round) \<Longrightarrow> round_holds start [] round"
  by (auto simp: tcp_shift_bbr3_loss_round_start_def round_holds_def lost_sum_def one_snapshot_def split: if_splits)

lemma round_holds_add:
  assumes h: "round_holds start es round" and r: "tcp_shift_bbr3_loss_round_add round e = (0, round')"
  shows "round_holds start (es @ [e]) round'"
proof -
  have g: "\<not> loss_tx_inflight_bytes e < ucast (loss_newly_lost_bytes e)" "loss_newly_lost_bytes e \<noteq> 0" "event_count round \<noteq> UINT32_MAX"
      "\<not> UINT64_MAX - newly_lost_bytes round < ucast (loss_newly_lost_bytes e)"
    using r by (auto simp: tcp_shift_bbr3_loss_round_add_def split: if_splits)
  have infl: "loss_tx_inflight_bytes e \<noteq> 0" using g(1,2) by (simp add: word_less_nat_alt word_zero_nat)
  have "unat (event_count round + 1) = length es + 1"
    using h g(3) unat_inc_neq_max [of "event_count round", folded UINT32_MAX_eq] by (simp add: round_holds_def)
  moreover have "unat (newly_lost_bytes round + ucast (loss_newly_lost_bytes e)) = lost_sum (es @ [e])"
  proof (subst unat_add_exact)
    have "unat (UINT64_MAX - newly_lost_bytes round) = 18446744073709551615 - unat (newly_lost_bytes round)"
      by (subst unat_diff_exact) simp_all
    then show "unat (newly_lost_bytes round) + unat (ucast (loss_newly_lost_bytes e) :: u64) < 2 ^ LENGTH(64)"
      using g(4) unat_lt_u64 [of "newly_lost_bytes round"] by (simp add: word_less_nat_alt)
  qed (use h in \<open>simp add: round_holds_def lost_sum_def\<close>)
  moreover have "event_count round = 0 \<longleftrightarrow> es = []" using h by (simp add: round_holds_def word_zero_nat)
  moreover have "hd (es @ [e]) = hd es" if "es \<noteq> []" using that by simp
  moreover have f: "delivered_start round' = delivered_start round" "active round'"
      "event_count round' = event_count round + 1" "newly_lost_bytes round' = newly_lost_bytes round + ucast (loss_newly_lost_bytes e)"
      "all_probe_samples round' = (all_probe_samples round \<and> loss_probe_sample e)"
      "snapshot_delivered_at_tx round' = (if event_count round = 0 then loss_delivered_at_tx e else snapshot_delivered_at_tx round)"
      "snapshot_tx_inflight_bytes round' =
        (if event_count round = 0 then loss_tx_inflight_bytes e else snapshot_tx_inflight_bytes round)"
      "context_consistent round' = (context_consistent round \<and> (event_count round = 0 \<or>
        snapshot_delivered_at_tx round = loss_delivered_at_tx e \<and> snapshot_tx_inflight_bytes round = loss_tx_inflight_bytes e))"
    using r by (auto simp: tcp_shift_bbr3_loss_round_add_def Let_def split: if_split_asm)
  ultimately show ?thesis using h infl unfolding round_holds_def f one_snapshot_def
    by (cases "es = []") auto
qed

lemma round_holds_adds: "round_holds start es round \<Longrightarrow> round_adds round es' = Some round' \<Longrightarrow> round_holds start (es @ es') round'"
proof (induction es' arbitrary: es round)
  case (Cons e es')
  obtain r round1 where a: "tcp_shift_bbr3_loss_round_add round e = (r, round1)" by fastforce
  then have "r = 0" "round_adds round1 es' = Some round'" using Cons.prems(2) by (auto split: if_splits)
  then show ?case using Cons.IH round_holds_add [OF Cons.prems(1)] a by fastforce
qed simp

text \<open>The test of the 2\% threshold is exact: the product is only formed where it does not wrap.\<close>

lemma excess_exact:
  fixes n :: u64 and t :: u32
  shows "(n > u64_of UINT32_MAX \<or> n * 100 > u64_of t * 2) \<longleftrightarrow> 2 * unat t < 100 * unat n"
proof (cases "n > u64_of UINT32_MAX")
  case True
  then have "4294967295 < unat n" by (simp add: word_less_nat_alt)
  then show ?thesis using True unat_lt_u32 [of t] by simp
next
  case False
  then have "unat n \<le> 4294967295" by (simp add: word_less_nat_alt)
  then have "unat (n * 100) = unat n * 100" by (subst unat_mult_exact) simp_all
  moreover have "unat (u64_of t * 2) = unat t * 2" using unat_lt_u32 [of t] by (subst unat_mult_exact) simp_all
  ultimately show ?thesis using False by (simp add: word_less_nat_alt mult.commute)
qed

text \<open>C36. A finished loss round reports exactly what it was given. From a start, any accepted loss events and a finish, the
  result has the sum of the lost bytes and the number of events, neither having wrapped; it gives a loss fraction exactly when
  there was a loss and all events share one send-time snapshot; and it reports excess loss of a bandwidth probe exactly when,
  moreover, every event was of a probe and the lost bytes are more than 2\% of the snapshot's bytes in flight.\<close>

theorem bbr3_loss_round_exact:
  assumes "tcp_shift_bbr3_loss_round_start round0 start = (0, round1)" and "round_adds round1 es = Some round2"
    and "tcp_shift_bbr3_loss_round_finish round2 stop complete res0 = (0, round3, res)"
  shows "res_delivered_start res = start \<and> res_delivered_end res = stop \<and> start < stop \<and> \<not> active round3 \<and>
    unat (res_newly_lost_bytes res) = lost_sum es \<and> unat (res_events res) = length es \<and>
    (loss_fraction_valid res \<longleftrightarrow> es \<noteq> [] \<and> one_snapshot es) \<and>
    res_tx_inflight_bytes res = (if es \<noteq> [] \<and> one_snapshot es then loss_tx_inflight_bytes (hd es) else 0) \<and>
    (qualified_probe_excess_loss res \<longleftrightarrow> es \<noteq> [] \<and> one_snapshot es \<and> list_all loss_probe_sample es \<and>
       2 * unat (loss_tx_inflight_bytes (hd es)) < 100 * lost_sum es)"
proof -
  have h: "round_holds start es round2" using round_holds_adds [OF round_holds_start [OF assms(1)] assms(2)] by simp
  have v: "(event_count round2 \<noteq> 0 \<and> context_consistent round2 \<and> snapshot_tx_inflight_bytes round2 \<noteq> 0) = (es \<noteq> [] \<and> one_snapshot es)"
    using h by (auto simp: round_holds_def word_zero_nat)
  have g: "delivered_start round2 < stop"
    and f: "round3 = round2\<lparr>active := False\<rparr>"
      "res = \<lparr>res_delivered_start = delivered_start round2, res_delivered_end = stop, res_newly_lost_bytes = newly_lost_bytes round2,
        res_events = event_count round2,
        res_tx_inflight_bytes = (if es \<noteq> [] \<and> one_snapshot es then snapshot_tx_inflight_bytes round2 else 0),
        same_send_snapshot = (event_count round2 \<noteq> 0 \<and> context_consistent round2), loss_fraction_valid = (es \<noteq> [] \<and> one_snapshot es),
        qualified_probe_excess_loss = ((es \<noteq> [] \<and> one_snapshot es) \<and> all_probe_samples round2 \<and>
          2 * unat (snapshot_tx_inflight_bytes round2) < 100 * unat (newly_lost_bytes round2))\<rparr>"
    using assms(3) unfolding tcp_shift_bbr3_loss_round_finish_def Let_def v excess_exact by (auto simp: linorder_not_le split: if_splits)
  show ?thesis using g h unfolding f by (auto simp: round_holds_def)
qed

definition demo_round :: tcp_shift_bbr3_loss_round where
  "demo_round = \<lparr>delivered_start = 0, newly_lost_bytes = 0, snapshot_delivered_at_tx = 0, last_generation = 0, last_seq_start = 0,
     snapshot_tx_inflight_bytes = 0, event_count = 0, active = False, context_consistent = False, all_probe_samples = False\<rparr>"

definition demo_result :: tcp_shift_bbr3_loss_round_result where
  "demo_result = \<lparr>res_delivered_start = 0, res_delivered_end = 0, res_newly_lost_bytes = 0, res_events = 0, res_tx_inflight_bytes = 0,
     same_send_snapshot = False, loss_fraction_valid = False, qualified_probe_excess_loss = False\<rparr>"

definition demo_finished :: "int \<times> tcp_shift_bbr3_loss_round \<times> tcp_shift_bbr3_loss_round_result" where
  "demo_finished = tcp_shift_bbr3_loss_round_finish
     (the (round_adds (snd (tcp_shift_bbr3_loss_round_start demo_round 5000)) [loss_of demo_attempt])) 9000 1 demo_result"

theorem bbr3_loss_round_exact_witness:
  "fst demo_finished = 0 \<and> unat (res_newly_lost_bytes (snd (snd demo_finished))) = lost_sum [loss_of demo_attempt] \<and>
   qualified_probe_excess_loss (snd (snd demo_finished)) \<and> loss_tx_inflight_bytes (loss_of demo_attempt) = 4000"
proof -
  define round1 where "round1 = snd (tcp_shift_bbr3_loss_round_start demo_round 5000)"
  define round2 where "round2 = the (round_adds round1 [loss_of demo_attempt])"
  have s: "tcp_shift_bbr3_loss_round_start demo_round 5000 = (0, round1)" unfolding round1_def by code_simp
  have a: "round_adds round1 [loss_of demo_attempt] = Some round2" unfolding round2_def round1_def by code_simp
  have d: "demo_finished = tcp_shift_bbr3_loss_round_finish round2 9000 1 demo_result"
    by (simp add: demo_finished_def round1_def round2_def)
  have "fst demo_finished = 0" by code_simp
  then have f: "tcp_shift_bbr3_loss_round_finish round2 9000 1 demo_result = (0, fst (snd demo_finished), snd (snd demo_finished))"
    using d by (simp add: prod_eq_iff)
  have "qualified_probe_excess_loss (snd (snd demo_finished))" "loss_tx_inflight_bytes (loss_of demo_attempt) = 4000" by code_simp+
  with bbr3_loss_round_exact [OF s a f] show ?thesis using \<open>fst demo_finished = 0\<close> by simp
qed

end
