(* ===== verification/Adapter.thy ===== *)
theory Adapter
  imports Reno Observation Rack_Tlp Prr Flow_Pacer
begin

text \<open>
  The state of \<^verbatim>\<open>src/lwip/cc_adapter.c\<close>, which connects one lwIP connection to a congestion controller, with the hooks of
  \<^verbatim>\<open>src/lwip/cc_hooks.h\<close>: the adapter, the fields of lwIP's control block that it uses, the process-wide statistics and the
  pacing registry; then the clock, the registry, the two timer services and the policy. It is the configuration with
  \<^verbatim>\<open>TCP_SHIFT_EXPERIMENTAL_RACK_TLP\<close> and \<^verbatim>\<open>LWIP_WND_SCALE\<close>, without the tracing of the qualification builds.

  A state \<open>cc_sys\<close> has the adapter of one connection with everything it shares. What the process outside decides is
  in its \<open>env\<close>: the readings of the clock, whether an allocation succeeds and what the timer services answer, each a
  list in the order of the calls (an exhausted list answers with a failure); \<open>env_log\<close> records the calls made to
  the timer services, latest first, and \<open>env_slow_interval\<close> is lwIP's \<^verbatim>\<open>TCP_SLOW_INTERVAL\<close>. The statistics are a record of groups instead of one flat structure, and the pointer
  to them is whether there is one.
\<close>

section \<open>Data\<close>

text \<open>The fields of lwIP's \<^verbatim>\<open>struct tcp_pcb\<close> that the adapter reads or writes; of a queue, whether it has a segment.\<close>

record tcp_pcb =
  pcb_id :: nat
  pcb_mss :: u16
  pcb_cwnd :: u32
  pcb_ssthresh :: u32
  pcb_bytes_acked :: u32
  pcb_snd_nxt :: u32
  pcb_lastack :: u32
  pcb_snd_wnd :: u32
  pcb_snd_buf :: u32
  pcb_rto :: int
  pcb_rtime :: int
  pcb_sack :: bool
  pcb_infr :: bool
  pcb_unacked :: bool
  pcb_unsent :: bool
  pcb_established :: bool
  pcb_ext_arg :: "nat option"

record tcp_shift_lwip_cc_hook =
  hook_ops :: bool
  recovery_enter_events :: u32
  recovery_exit_events :: u32
  recovery_end_seq :: u32
  recovery_active :: bool
  recovery_exit_pending :: bool
  recovery_controller_owned :: bool

record tcp_shift_lwip_sack_range =
  sack_left :: u32
  sack_right :: u32

record tcp_shift_delivery_slot =
  sl_segment :: "nat option"
  sl_tx_ns :: u64
  sl_first_tx_mstamp_at_send_ns :: u64
  sl_delivered_at_send :: u64
  sl_delivered_mstamp_at_send_ns :: u64
  sl_seq_start :: u32
  sl_prior_inflight_bytes :: u32
  sl_payload_bytes :: u16
  sl_acked_payload_bytes :: u16
  sl_app_limited :: bool
  sl_retransmitted :: bool
  sl_rack_delivered :: u8
  sl_rack_lost :: bool

text \<open>\<^verbatim>\<open>memset(slot, 0, sizeof(*slot))\<close>.\<close>

definition slot_zero :: tcp_shift_delivery_slot where
  "slot_zero = \<lparr>sl_segment = None, sl_tx_ns = 0, sl_first_tx_mstamp_at_send_ns = 0, sl_delivered_at_send = 0,
     sl_delivered_mstamp_at_send_ns = 0, sl_seq_start = 0, sl_prior_inflight_bytes = 0, sl_payload_bytes = 0,
     sl_acked_payload_bytes = 0, sl_app_limited = False, sl_retransmitted = False, sl_rack_delivered = 0, sl_rack_lost = False\<rparr>"

text \<open>The adapter. The array of delivery slots is a list, and its capacity the length of the list.\<close>

record 's tcp_shift_lwip_cc_adapter =
  ad_id :: nat
  ad_hook :: tcp_shift_lwip_cc_hook
  ad_controller :: "'s tcp_shift_cc"
  ad_srtt :: tcp_shift_cc_srtt
  ad_rack_tlp :: tcp_shift_rack_tlp_state
  ad_prr :: tcp_shift_prr
  ad_stats :: bool
  ad_pcb :: "nat option"
  delivery_slots :: "tcp_shift_delivery_slot list"
  ad_delivered_bytes :: u64
  delivered_mstamp_ns :: u64
  delivery_last_event_ns :: u64
  delivery_last_clock_read_ns :: u64
  rate_first_tx_mstamp_ns :: u64
  app_limited_until_bytes :: u64
  ad_pacing_rate_bytes_per_sec :: u64
  pacing_next_send_ns :: u64
  pacing_flow_id :: u64
  recovery_timer_deadline_ns :: u64
  prr_ack_delivered_before :: u64
  prr_ack_loss_events_before :: u64
  pacing_generation :: u32
  recovery_timer_kind :: u32
  prr_recover_fs_hint :: u32
  prr_send_credit_bytes :: u32
  prr_trigger_delivered_bytes :: u32
  delivery_live :: u16
  pacing_scheduled :: bool
  recovery_timer_scheduled :: bool
  prr_recover_fs_hint_valid :: bool
  ad_bound :: bool
  heap_owned :: bool
  sack_delivery_policy :: bool

text \<open>The statistics, in groups.\<close>

record event_stats =
  bindings :: u64
  bind_failures :: u64
  ack_events :: u64
  loss_events :: u64
  ecn_events :: u64
  ecn_rto_wait_enters :: u64
  ecn_rto_wait_releases :: u64
  timeout_events :: u64
  policy_updates :: u64
  controller_errors :: u64
  ack_observation_events :: u64
  srtt_updates :: u64
  ack_last_time_ns :: u64
  ack_last_smoothed_rtt_ns :: u64
  ecn_min_cwnd_bytes :: u32
  last_cwnd_bytes :: u32
  last_ssthresh_bytes :: u32

record delivery_stats =
  delivery_first_tx_events :: u64
  delivery_retransmit_events :: u64
  delivery_unique_retransmit_events :: u64
  delivery_repeat_retransmit_events :: u64
  delivery_acked_segment_events :: u64
  delivery_sack_events :: u64
  delivery_sack_payload_bytes :: u64
  delivery_payload_bytes :: u64
  delivery_metadata_alloc_failures :: u64
  delivery_metadata_misses :: u64
  delivery_metadata_abandoned_slots :: u64
  delivery_clock_errors :: u64
  delivery_timestamp_regressions :: u64
  delivery_last_tx_ns :: u64
  delivery_last_ack_ns :: u64
  delivery_metadata_bytes_per_slot :: u32
  delivery_live_slots :: u32
  delivery_peak_live_slots :: u32
  delivery_peak_slots_per_flow :: u32
  delivery_peak_capacity_slots_per_flow :: u32

record rate_stats =
  rate_samples :: u64
  rate_valid_samples :: u64
  rate_invalid_samples :: u64
  rate_app_limited_samples :: u64
  rate_retransmitted_samples :: u64
  rate_partial_ack_events :: u64
  rate_multi_segment_ack_events :: u64
  rate_snapshot_samples :: u64
  rate_snapshot_errors :: u64
  app_limited_enters :: u64
  app_limited_exits :: u64
  rate_last_bytes_per_sec :: u64
  rate_max_bytes_per_sec :: u64
  rate_last_interval_ns :: u64
  rate_last_send_interval_ns :: u64
  rate_last_ack_interval_ns :: u64
  rate_last_rtt_ns :: u64
  rate_last_prior_delivered_bytes :: u64
  rate_last_delivered_total_bytes :: u64
  rate_last_delivered_bytes :: u32
  rate_last_prior_inflight_bytes :: u32
  rate_last_flags :: u32

record pacing_stats =
  pacing_deferrals :: u64
  pacing_resume_events :: u64
  pacing_stale_releases :: u64
  pacing_scheduler_errors :: u64
  pacing_tx_events :: u64
  pacing_tx_bytes :: u64
  pacing_max_tx_gap_ns :: u64
  pacing_last_rate_bytes_per_sec :: u64
  pacing_last_deadline_ns :: u64
  pacing_last_actual_release_ns :: u64

record recovery_stats =
  rack_dsack_events :: u64
  rack_reordering_events :: u64
  prr_recovery_enters :: u64
  prr_recovery_exits :: u64
  prr_ack_events :: u64
  prr_safe_ack_events :: u64
  prr_tx_events :: u64
  prr_tx_bytes :: u64
  prr_send_blocks :: u64
  rack_reo_wnd_mult :: u32
  rack_reo_wnd_mult_max :: u32
  rack_reo_wnd_persist :: u32
  prr_last_recover_fs_bytes :: u32
  prr_last_inflight_bytes :: u32
  prr_last_sndcnt_bytes :: u32

record tcp_shift_lwip_cc_stats =
  st_events :: event_stats
  st_delivery :: delivery_stats
  st_rate :: rate_stats
  st_pacing :: pacing_stats
  st_recovery :: recovery_stats

text \<open>The pacing service: whether it is configured, and the registry of adapters with their generations.\<close>

record tcp_shift_pacing_registry_entry =
  entry_adapter :: "nat option"
  entry_generation :: u32

record tcp_shift_pacing_service =
  sv_ops :: "nat option"
  sv_entries :: "tcp_shift_pacing_registry_entry list"
  sv_active :: nat

datatype service_call =
    Pacer_Schedule u64 u32 u64 u32
  | Pacer_Cancel u64 u32
  | Timer_Schedule u64 u32 u64 u32
  | Timer_Cancel u64 u32

record cc_env =
  env_clock :: "(u64 \<times> u64) option list"
  env_alloc :: "bool list"
  env_pacer :: "int list"
  env_timer :: "int list"
  env_slow_interval :: u64
  env_log :: "service_call list"

record 's cc_sys =
  ad :: "'s tcp_shift_lwip_cc_adapter"
  pcb :: tcp_pcb
  stats :: tcp_shift_lwip_cc_stats
  service :: tcp_shift_pacing_service
  recovery_ops :: "nat option"
  env :: cc_env

text \<open>\<^verbatim>\<open>if (adapter->stats != NULL) adapter->stats->...\<close>, for each group.\<close>

definition with_events :: "(event_stats \<Rightarrow> event_stats) \<Rightarrow> 's cc_sys \<Rightarrow> 's cc_sys" where
  "with_events f s = (if ad_stats (ad s) then s\<lparr>stats := (stats s)\<lparr>st_events := f (st_events (stats s))\<rparr>\<rparr> else s)"

definition with_delivery :: "(delivery_stats \<Rightarrow> delivery_stats) \<Rightarrow> 's cc_sys \<Rightarrow> 's cc_sys" where
  "with_delivery f s = (if ad_stats (ad s) then s\<lparr>stats := (stats s)\<lparr>st_delivery := f (st_delivery (stats s))\<rparr>\<rparr> else s)"

definition with_rate :: "(rate_stats \<Rightarrow> rate_stats) \<Rightarrow> 's cc_sys \<Rightarrow> 's cc_sys" where
  "with_rate f s = (if ad_stats (ad s) then s\<lparr>stats := (stats s)\<lparr>st_rate := f (st_rate (stats s))\<rparr>\<rparr> else s)"

definition with_pacing :: "(pacing_stats \<Rightarrow> pacing_stats) \<Rightarrow> 's cc_sys \<Rightarrow> 's cc_sys" where
  "with_pacing f s = (if ad_stats (ad s) then s\<lparr>stats := (stats s)\<lparr>st_pacing := f (st_pacing (stats s))\<rparr>\<rparr> else s)"

definition with_recovery :: "(recovery_stats \<Rightarrow> recovery_stats) \<Rightarrow> 's cc_sys \<Rightarrow> 's cc_sys" where
  "with_recovery f s = (if ad_stats (ad s) then s\<lparr>stats := (stats s)\<lparr>st_recovery := f (st_recovery (stats s))\<rparr>\<rparr> else s)"

section \<open>The environment\<close>

text \<open>The next answer of a list of replies, or \<open>d\<close> when there is none.\<close>

fun next_reply :: "'a \<Rightarrow> 'a list \<Rightarrow> 'a \<times> 'a list" where
  "next_reply d [] = (d, [])"
| "next_reply d (r # rs) = (r, rs)"

definition ask_clock :: "'s cc_sys \<Rightarrow> (u64 \<times> u64) option \<times> 's cc_sys" where
  "ask_clock s = (case next_reply None (env_clock (env s)) of (r, rs) \<Rightarrow> (r, s\<lparr>env := (env s)\<lparr>env_clock := rs\<rparr>\<rparr>))"

definition ask_alloc :: "'s cc_sys \<Rightarrow> bool \<times> 's cc_sys" where
  "ask_alloc s = (case next_reply False (env_alloc (env s)) of (r, rs) \<Rightarrow> (r, s\<lparr>env := (env s)\<lparr>env_alloc := rs\<rparr>\<rparr>))"

definition ask_pacer :: "service_call \<Rightarrow> 's cc_sys \<Rightarrow> int \<times> 's cc_sys" where
  "ask_pacer c s = (case next_reply (-1) (env_pacer (env s)) of
     (r, rs) \<Rightarrow> (r, s\<lparr>env := (env s)\<lparr>env_pacer := rs, env_log := c # env_log (env s)\<rparr>\<rparr>))"

definition ask_timer :: "service_call \<Rightarrow> 's cc_sys \<Rightarrow> int \<times> 's cc_sys" where
  "ask_timer c s = (case next_reply (-1) (env_timer (env s)) of
     (r, rs) \<Rightarrow> (r, s\<lparr>env := (env s)\<lparr>env_timer := rs, env_log := c # env_log (env s)\<rparr>\<rparr>))"

section \<open>Windows and the clock\<close>

definition TCP_SHIFT_NSEC_PER_SEC_adapter :: u64 where
  "TCP_SHIFT_NSEC_PER_SEC_adapter = 1000000000"

definition tcp_shift_lwip_cc_cwnd_limit :: u32 where
  "tcp_shift_lwip_cc_cwnd_limit = UINT32_MAX"

definition tcp_shift_initial_cwnd_rfc6928 :: "u32 \<Rightarrow> u32" where
  "tcp_shift_initial_cwnd_rfc6928 mss =
    (let twice_mss = 2 * mss; ten_mss = 10 * mss; ceiling = (if twice_mss > 14600 then twice_mss else 14600)
     in if ten_mss < ceiling then ten_mss else ceiling)"

definition tcp_shift_initial_cwnd_bytes :: "u32 \<Rightarrow> u32" where
  "tcp_shift_initial_cwnd_bytes mss = tcp_shift_initial_cwnd_rfc6928 mss"

definition tcp_shift_lwip_cc_initial_cwnd :: "u32 \<Rightarrow> u32" where
  "tcp_shift_lwip_cc_initial_cwnd mss = tcp_shift_initial_cwnd_bytes mss"

definition tcp_shift_lwip_cc_transport_from_pcb :: "tcp_pcb \<Rightarrow> tcp_shift_cc_transport" where
  "tcp_shift_lwip_cc_transport_from_pcb p =
    \<lparr>mss_bytes = ucast (pcb_mss p), inflight_bytes = pcb_snd_nxt p - pcb_lastack p, send_window_bytes = pcb_snd_wnd p,
     cwnd_limit_bytes = tcp_shift_lwip_cc_cwnd_limit\<rparr>"

definition tcp_shift_delivery_now_ns :: "'s cc_sys \<Rightarrow> u64 \<times> 's cc_sys" where
  "tcp_shift_delivery_now_ns s =
    (let s = s\<lparr>ad := (ad s)\<lparr>delivery_last_clock_read_ns := 0\<rparr>\<rparr>
     in case ask_clock s of
          (None, s) \<Rightarrow> (0, with_delivery (\<lambda>t. t\<lparr>delivery_clock_errors := delivery_clock_errors t + 1\<rparr>) s)
        | (Some (sec, nsec), s) \<Rightarrow>
            let value = sec * TCP_SHIFT_NSEC_PER_SEC_adapter + nsec;
                s = s\<lparr>ad := (ad s)\<lparr>delivery_last_clock_read_ns := value\<rparr>\<rparr>;
                s = (if delivery_last_event_ns (ad s) \<noteq> 0 \<and> value < delivery_last_event_ns (ad s)
                     then with_delivery (\<lambda>t. t\<lparr>delivery_timestamp_regressions := delivery_timestamp_regressions t + 1\<rparr>) s
                     else s)
            in (value, s\<lparr>ad := (ad s)\<lparr>delivery_last_event_ns := value\<rparr>\<rparr>))"

section \<open>The pacing registry and the timer services\<close>

definition TCP_SHIFT_PACING_INITIAL_REGISTRY :: nat where
  "TCP_SHIFT_PACING_INITIAL_REGISTRY = 32"

definition scheduler_error :: "'s cc_sys \<Rightarrow> 's cc_sys" where
  "scheduler_error s = with_pacing (\<lambda>t. t\<lparr>pacing_scheduler_errors := pacing_scheduler_errors t + 1\<rparr>) s"

definition tcp_shift_pacing_cancel :: "'s cc_sys \<Rightarrow> 's cc_sys" where
  "tcp_shift_pacing_cancel s =
    (if \<not> pacing_scheduled (ad s) then s
     else
       let s = (if sv_ops (service s) = None \<or> pacing_flow_id (ad s) = 0 then scheduler_error s
                else case ask_pacer (Pacer_Cancel (pacing_flow_id (ad s)) (pacing_generation (ad s))) s of
                       (r, s) \<Rightarrow> if r < 0 then scheduler_error s else s)
       in s\<lparr>ad := (ad s)\<lparr>pacing_scheduled := False\<rparr>\<rparr>)"

text \<open>The registry doubles; the sizes are far from \<^verbatim>\<open>SIZE_MAX\<close>, which the model leaves to the allocator.\<close>

definition entry_zero :: tcp_shift_pacing_registry_entry where
  "entry_zero = \<lparr>entry_adapter = None, entry_generation = 0\<rparr>"

definition tcp_shift_pacing_registry_grow :: "'s cc_sys \<Rightarrow> int \<times> 's cc_sys" where
  "tcp_shift_pacing_registry_grow s =
    (let entries = sv_entries (service s); capacity = length entries;
         next_capacity = (if capacity = 0 then TCP_SHIFT_PACING_INITIAL_REGISTRY else capacity * 2)
     in case ask_alloc s of
          (ok, s) \<Rightarrow>
            if \<not> ok then (-1, s)
            else (0, s\<lparr>service := (service s)\<lparr>sv_entries := entries @ replicate (next_capacity - capacity) entry_zero\<rparr>\<rparr>))"

text \<open>The first free entry.\<close>

fun free_index :: "tcp_shift_pacing_registry_entry list \<Rightarrow> nat option" where
  "free_index [] = None"
| "free_index (e # es) = (if entry_adapter e = None then Some 0 else map_option Suc (free_index es))"

definition take_entry :: "nat \<Rightarrow> 's cc_sys \<Rightarrow> 's cc_sys" where
  "take_entry index s =
    (let e = sv_entries (service s) ! index;
         gen = entry_generation e + 1;
         gen = (if gen = 0 then 1 else gen)
     in s\<lparr>service := (service s)\<lparr>sv_entries := (sv_entries (service s))[index := \<lparr>entry_adapter = Some (ad_id (ad s)),
            entry_generation = gen\<rparr>], sv_active := sv_active (service s) + 1\<rparr>,
          ad := (ad s)\<lparr>pacing_flow_id := of_nat index + 1, pacing_generation := gen\<rparr>\<rparr>)"

text \<open>The loop of \<^verbatim>\<open>tcp_shift_pacing_register\<close> runs at most twice: a registry that has just grown has a free entry.\<close>

definition tcp_shift_pacing_register :: "'s cc_sys \<Rightarrow> int \<times> 's cc_sys" where
  "tcp_shift_pacing_register s =
    (if sv_ops (service s) = None then (0, s)
     else case free_index (sv_entries (service s)) of
       Some index \<Rightarrow> (0, take_entry index s)
     | None \<Rightarrow>
         (case tcp_shift_pacing_registry_grow s of
            (r, s) \<Rightarrow>
              if r < 0 then (-1, s)
              else (case free_index (sv_entries (service s)) of
                      Some index \<Rightarrow> (0, take_entry index s) | None \<Rightarrow> (-1, s))))"

definition tcp_shift_recovery_timer_cancel :: "'s cc_sys \<Rightarrow> 's cc_sys" where
  "tcp_shift_recovery_timer_cancel s =
    (if \<not> recovery_timer_scheduled (ad s) then s
     else
       let s = (if recovery_ops s \<noteq> None \<and> pacing_flow_id (ad s) \<noteq> 0
                then snd (ask_timer (Timer_Cancel (pacing_flow_id (ad s)) (pacing_generation (ad s))) s) else s)
       in s\<lparr>ad := (ad s)\<lparr>recovery_timer_scheduled := False, recovery_timer_deadline_ns := 0, recovery_timer_kind := 0\<rparr>\<rparr>)"

definition tcp_shift_pacing_unregister :: "'s cc_sys \<Rightarrow> 's cc_sys" where
  "tcp_shift_pacing_unregister s =
    (if pacing_flow_id (ad s) = 0 then s
     else
       let s = tcp_shift_recovery_timer_cancel (tcp_shift_pacing_cancel s);
           index = unat (pacing_flow_id (ad s) - 1);
           entries = sv_entries (service s);
           s = (if index < length entries \<and> entry_adapter (entries ! index) = Some (ad_id (ad s)) \<and>
                   entry_generation (entries ! index) = pacing_generation (ad s)
                then s\<lparr>service := (service s)\<lparr>sv_entries := entries[index := (entries ! index)\<lparr>entry_adapter := None\<rparr>],
                       sv_active := sv_active (service s) - 1\<rparr>\<rparr>
                else s)
       in s\<lparr>ad := (ad s)\<lparr>pacing_flow_id := 0, pacing_generation := 0\<rparr>\<rparr>)"

text \<open>A table of operations with its argument is one identity; whether its two functions are given is the second component.\<close>

definition tcp_shift_lwip_cc_configure_pacer :: "(nat \<times> bool) option \<Rightarrow> 's cc_sys \<Rightarrow> int \<times> 's cc_sys" where
  "tcp_shift_lwip_cc_configure_pacer ops s =
    (case ops of
       None \<Rightarrow> (-1, s)
     | Some (k, complete) \<Rightarrow>
         if \<not> complete then (-1, s)
         else if sv_ops (service s) \<noteq> None then (if sv_ops (service s) = Some k then 0 else -1, s)
         else if sv_active (service s) \<noteq> 0 then (-1, s)
         else (0, s\<lparr>service := (service s)\<lparr>sv_ops := Some k\<rparr>\<rparr>))"

definition tcp_shift_lwip_cc_clear_pacer :: "'s cc_sys \<Rightarrow> int \<times> 's cc_sys" where
  "tcp_shift_lwip_cc_clear_pacer s =
    (if sv_active (service s) \<noteq> 0 then (-1, s) else (0, s\<lparr>service := (service s)\<lparr>sv_ops := None\<rparr>\<rparr>))"

definition tcp_shift_lwip_cc_configure_recovery_timer :: "(nat \<times> bool) option \<Rightarrow> 's cc_sys \<Rightarrow> int \<times> 's cc_sys" where
  "tcp_shift_lwip_cc_configure_recovery_timer ops s =
    (case ops of
       None \<Rightarrow> (-1, s)
     | Some (k, complete) \<Rightarrow>
         if \<not> complete then (-1, s)
         else if recovery_ops s \<noteq> None then (if recovery_ops s = Some k then 0 else -1, s)
         else if sv_active (service s) \<noteq> 0 then (-1, s)
         else (0, s\<lparr>recovery_ops := Some k\<rparr>))"

definition tcp_shift_lwip_cc_clear_recovery_timer :: "'s cc_sys \<Rightarrow> int \<times> 's cc_sys" where
  "tcp_shift_lwip_cc_clear_recovery_timer s =
    (if sv_active (service s) \<noteq> 0 then (-1, s) else (0, s\<lparr>recovery_ops := None\<rparr>))"

section \<open>Policy\<close>

definition tcp_shift_lwip_cc_apply_policy :: "tcp_shift_cc_policy \<Rightarrow> 's cc_sys \<Rightarrow> int \<times> 's cc_sys" where
  "tcp_shift_lwip_cc_apply_policy policy s =
    (if ad_pcb (ad s) = None \<or> cwnd_bytes policy = 0 \<or> ssthresh_bytes policy = 0 \<or>
        cwnd_bytes policy > tcp_shift_lwip_cc_cwnd_limit \<or> ssthresh_bytes policy > tcp_shift_lwip_cc_cwnd_limit
     then (-1, s)
     else
       let s = (if pacing_rate_bytes_per_sec policy = 0 \<and> ad_pacing_rate_bytes_per_sec (ad s) \<noteq> 0
                then let s = tcp_shift_pacing_cancel s in s\<lparr>ad := (ad s)\<lparr>pacing_next_send_ns := 0\<rparr>\<rparr> else s);
           s = s\<lparr>ad := (ad s)\<lparr>ad_pacing_rate_bytes_per_sec := pacing_rate_bytes_per_sec policy\<rparr>,
                 pcb := (pcb s)\<lparr>pcb_cwnd := cwnd_bytes policy, pcb_ssthresh := ssthresh_bytes policy, pcb_bytes_acked := 0\<rparr>\<rparr>;
           s = with_events (\<lambda>t. t\<lparr>last_cwnd_bytes := cwnd_bytes policy, last_ssthresh_bytes := ssthresh_bytes policy\<rparr>) s
       in (0, with_pacing (\<lambda>t. t\<lparr>pacing_last_rate_bytes_per_sec := pacing_rate_bytes_per_sec policy\<rparr>) s))"

definition tcp_shift_lwip_cc_disable_on_error :: "'s cc_sys \<Rightarrow> 's cc_sys" where
  "tcp_shift_lwip_cc_disable_on_error s =
    (let s = with_events (\<lambda>t. t\<lparr>controller_errors := controller_errors t + 1\<rparr>) s;
         s = tcp_shift_pacing_cancel s
     in s\<lparr>ad := (ad s)\<lparr>ad_pacing_rate_bytes_per_sec := 0, pacing_next_send_ns := 0, ad_bound := False\<rparr>\<rparr>)"

section \<open>Hooks: the recovery episode\<close>

definition tcp_shift_lwip_cc_hook_recovery_mark_enter :: "tcp_pcb \<Rightarrow> tcp_shift_lwip_cc_hook \<Rightarrow> tcp_shift_lwip_cc_hook" where
  "tcp_shift_lwip_cc_hook_recovery_mark_enter p hook =
    (if recovery_active hook then hook
     else hook\<lparr>recovery_end_seq := pcb_snd_nxt p, recovery_active := True, recovery_exit_pending := False,
               recovery_enter_events := recovery_enter_events hook + 1\<rparr>)"

definition tcp_shift_lwip_cc_hook_recovery_mark_exit :: "tcp_shift_lwip_cc_hook \<Rightarrow> tcp_shift_lwip_cc_hook" where
  "tcp_shift_lwip_cc_hook_recovery_mark_exit hook =
    (if \<not> recovery_active hook then hook
     else hook\<lparr>recovery_active := False, recovery_exit_pending := True, recovery_controller_owned := False,
               recovery_end_seq := 0, recovery_exit_events := recovery_exit_events hook + 1\<rparr>)"

definition tcp_shift_lwip_cc_hook_recovery_reset :: "tcp_shift_lwip_cc_hook \<Rightarrow> tcp_shift_lwip_cc_hook" where
  "tcp_shift_lwip_cc_hook_recovery_reset hook =
    hook\<lparr>recovery_active := False, recovery_exit_pending := False, recovery_controller_owned := False, recovery_end_seq := 0\<rparr>"

definition tcp_shift_lwip_cc_hook_recovery_is_active :: "tcp_shift_lwip_cc_hook \<Rightarrow> bool" where
  "tcp_shift_lwip_cc_hook_recovery_is_active hook = recovery_active hook"

definition tcp_shift_lwip_cc_hook_take_recovery_exit :: "tcp_shift_lwip_cc_hook \<Rightarrow> bool \<times> tcp_shift_lwip_cc_hook" where
  "tcp_shift_lwip_cc_hook_take_recovery_exit hook = (recovery_exit_pending hook, hook\<lparr>recovery_exit_pending := False\<rparr>)"

end
