(* ===== verification/Adapter_Delivery.thy ===== *)
theory Adapter_Delivery
  imports Adapter
begin

text \<open>
  The delivery accounting of \<^verbatim>\<open>src/lwip/cc_adapter.c\<close>: one slot per segment in flight, the payload that cumulative and selective
  acknowledgements credit to it, the delivery-rate sample of an acknowledgement, and the RACK passes over the newly
  delivered slots.
\<close>

section \<open>Slots\<close>

definition TCP_SHIFT_DELIVERY_INITIAL_SLOTS :: u32 where
  "TCP_SHIFT_DELIVERY_INITIAL_SLOTS = 8"

text \<open>The first slot with a given segment pointer; \<open>None\<close> as the pointer finds an empty slot.\<close>

fun slot_index :: "nat option \<Rightarrow> tcp_shift_delivery_slot list \<Rightarrow> nat option" where
  "slot_index seg [] = None"
| "slot_index seg (sl # sls) = (if sl_segment sl = seg then Some 0 else map_option Suc (slot_index seg sls))"

definition tcp_shift_delivery_find :: "'s tcp_shift_lwip_cc_adapter \<Rightarrow> nat \<Rightarrow> nat option" where
  "tcp_shift_delivery_find a seg = slot_index (Some seg) (delivery_slots a)"

definition tcp_shift_delivery_empty_slot :: "'s tcp_shift_lwip_cc_adapter \<Rightarrow> nat option" where
  "tcp_shift_delivery_empty_slot a = slot_index None (delivery_slots a)"

definition TCP_SND_QUEUELEN :: u32 where
  "TCP_SND_QUEUELEN = 65535 - 3"

definition next_slot_capacity :: "u32 \<Rightarrow> u32" where
  "next_slot_capacity capacity =
    (let configured_max = (if TCP_SND_QUEUELEN > 65535 then 65535 else TCP_SND_QUEUELEN)
     in if capacity \<ge> configured_max then 0
        else let next_capacity = (if capacity = 0 then TCP_SHIFT_DELIVERY_INITIAL_SLOTS else capacity * 2)
             in if next_capacity > configured_max then configured_max else next_capacity)"

definition tcp_shift_delivery_grow :: "'s cc_sys \<Rightarrow> int \<times> 's cc_sys" where
  "tcp_shift_delivery_grow s =
    (let slots = delivery_slots (ad s); next_capacity = next_slot_capacity (of_nat (length slots))
     in if next_capacity = 0 then (-1, s)
        else case ask_alloc s of
          (ok, s) \<Rightarrow>
            if \<not> ok
            then (-1, with_delivery (\<lambda>t. t\<lparr>delivery_metadata_alloc_failures := delivery_metadata_alloc_failures t + 1\<rparr>) s)
            else
              let s = s\<lparr>ad := (ad s)\<lparr>delivery_slots := slots @ replicate (unat next_capacity - length slots) slot_zero\<rparr>\<rparr>
              in (0, with_delivery (\<lambda>t. if next_capacity > delivery_peak_capacity_slots_per_flow t
                                        then t\<lparr>delivery_peak_capacity_slots_per_flow := next_capacity\<rparr> else t) s))"

definition note_live_slot :: "'s cc_sys \<Rightarrow> 's cc_sys" where
  "note_live_slot s = with_delivery (\<lambda>t.
     let t = t\<lparr>delivery_live_slots := delivery_live_slots t + 1\<rparr>;
         t = (if delivery_live_slots t > delivery_peak_live_slots t then t\<lparr>delivery_peak_live_slots := delivery_live_slots t\<rparr> else t)
     in if ucast (delivery_live (ad s)) > delivery_peak_slots_per_flow t
        then t\<lparr>delivery_peak_slots_per_flow := ucast (delivery_live (ad s))\<rparr> else t) s"

definition tcp_shift_delivery_create :: "nat \<Rightarrow> 's cc_sys \<Rightarrow> nat option \<times> 's cc_sys" where
  "tcp_shift_delivery_create seg s =
    (let (grown, s) = (if tcp_shift_delivery_empty_slot (ad s) = None then tcp_shift_delivery_grow s else (0, s))
     in if grown < 0 then (None, s)
        else case tcp_shift_delivery_empty_slot (ad s) of
          None \<Rightarrow> (None, with_delivery (\<lambda>t. t\<lparr>delivery_metadata_alloc_failures := delivery_metadata_alloc_failures t + 1\<rparr>) s)
        | Some index \<Rightarrow>
            let s = s\<lparr>ad := (ad s)\<lparr>delivery_slots := (delivery_slots (ad s))[index := slot_zero\<lparr>sl_segment := Some seg\<rparr>],
                                    delivery_live := delivery_live (ad s) + 1\<rparr>\<rparr>
            in (Some index, note_live_slot s))"

definition tcp_shift_delivery_release_slot :: "nat \<Rightarrow> 's cc_sys \<Rightarrow> 's cc_sys" where
  "tcp_shift_delivery_release_slot index s =
    (if sl_segment (delivery_slots (ad s) ! index) = None then s
     else
       let s = s\<lparr>ad := (ad s)\<lparr>delivery_slots := (delivery_slots (ad s))[index := slot_zero],
                               delivery_live := (if delivery_live (ad s) \<noteq> 0 then delivery_live (ad s) - 1 else 0)\<rparr>\<rparr>
       in with_delivery (\<lambda>t. if delivery_live_slots t \<noteq> 0 then t\<lparr>delivery_live_slots := delivery_live_slots t - 1\<rparr> else t) s)"

definition tcp_shift_delivery_release_all :: "'s cc_sys \<Rightarrow> 's cc_sys" where
  "tcp_shift_delivery_release_all s =
    (let live = ucast (delivery_live (ad s)) :: u32;
         s = (if live \<noteq> 0
              then with_delivery (\<lambda>t. t\<lparr>delivery_metadata_abandoned_slots := delivery_metadata_abandoned_slots t + ucast live,
                     delivery_live_slots := (if delivery_live_slots t \<ge> live then delivery_live_slots t - live else 0)\<rparr>) s
              else s)
     in s\<lparr>ad := (ad s)\<lparr>delivery_slots := [], delivery_live := 0\<rparr>\<rparr>)"

text \<open>What a slot still has in flight; the sum over the slots stops at the 32-bit maximum.\<close>

definition slot_outstanding :: "tcp_shift_delivery_slot \<Rightarrow> nat" where
  "slot_outstanding sl =
    (if sl_segment sl \<noteq> None \<and> sl_payload_bytes sl > sl_acked_payload_bytes sl
     then unat (sl_payload_bytes sl - sl_acked_payload_bytes sl) else 0)"

definition saturate_u32 :: "u64 \<Rightarrow> u32" where
  "saturate_u32 n = (if n > ucast UINT32_MAX then UINT32_MAX else ucast n)"

definition tcp_shift_delivery_outstanding_payload :: "'s tcp_shift_lwip_cc_adapter \<Rightarrow> u32" where
  "tcp_shift_delivery_outstanding_payload a = saturate_u32 (of_nat (sum_list (map slot_outstanding (delivery_slots a))))"

definition tcp_shift_delivery_acked_payload :: "tcp_shift_delivery_slot \<Rightarrow> u32 \<Rightarrow> u16" where
  "tcp_shift_delivery_acked_payload sl ack_seq =
    (let distance = ack_seq - sl_seq_start sl
     in if sint distance \<le> 0 then 0 else if distance \<ge> ucast (sl_payload_bytes sl) then sl_payload_bytes sl else ucast distance)"

definition tcp_shift_lwip_cc_transport_from_adapter :: "'s cc_sys \<Rightarrow> tcp_shift_cc_transport" where
  "tcp_shift_lwip_cc_transport_from_adapter s =
    (let t = tcp_shift_lwip_cc_transport_from_pcb (pcb s)
     in if sack_delivery_policy (ad s) then t\<lparr>inflight_bytes := tcp_shift_delivery_outstanding_payload (ad s)\<rparr> else t)"

section \<open>RACK over the delivered slots\<close>

definition tcp_shift_rack_seq_before_u32 :: "u32 \<Rightarrow> u32 \<Rightarrow> bool" where
  "tcp_shift_rack_seq_before_u32 left right \<longleftrightarrow> sint (left - right) < 0"

definition tcp_shift_rack_seq_after_eq_u32 :: "u32 \<Rightarrow> u32 \<Rightarrow> bool" where
  "tcp_shift_rack_seq_after_eq_u32 left right \<longleftrightarrow> sint (left - right) \<ge> 0"

definition tcp_shift_rack_sack_is_dsack :: "u32 \<Rightarrow> tcp_shift_lwip_sack_range list \<Rightarrow> bool" where
  "tcp_shift_rack_sack_is_dsack ack_seq ranges =
    (case ranges of
       [] \<Rightarrow> False
     | r # rest \<Rightarrow>
         if \<not> tcp_shift_rack_seq_before_u32 (sack_left r) (sack_right r) then False
         else if tcp_shift_rack_seq_after_eq_u32 ack_seq (sack_right r) then True
         else (case rest of
                 [] \<Rightarrow> False
               | r2 # _ \<Rightarrow> tcp_shift_rack_seq_after_eq_u32 (sack_left r) (sack_left r2) \<and>
                           tcp_shift_rack_seq_after_eq_u32 (sack_right r2) (sack_right r)))"

definition tcp_shift_rack_record_stats :: "'s cc_sys \<Rightarrow> 's cc_sys" where
  "tcp_shift_rack_record_stats s =
    (let rack = ad_rack_tlp (ad s)
     in with_recovery (\<lambda>t. t\<lparr>rack_reo_wnd_mult := reo_wnd_mult rack, rack_reo_wnd_persist := reo_wnd_persist rack,
          rack_reo_wnd_mult_max := (if reo_wnd_mult rack > rack_reo_wnd_mult_max t then reo_wnd_mult rack
                                    else rack_reo_wnd_mult_max t)\<rparr>) s)"

definition slot_end :: "tcp_shift_delivery_slot \<Rightarrow> u32" where
  "slot_end sl = sl_seq_start sl + ucast (sl_payload_bytes sl)"

definition tcp_shift_rack_slot_view :: "tcp_shift_delivery_slot \<Rightarrow> tcp_shift_rack_segment" where
  "tcp_shift_rack_slot_view sl = \<lparr>xmit_ts_ns = sl_tx_ns sl, seq_start = sl_seq_start sl, end_seq = slot_end sl,
     retransmitted = sl_retransmitted sl, lost = False\<rparr>"

text \<open>The inner loops of \<^verbatim>\<open>tcp_shift_rack_process_delivered_slots\<close>: the first slot in the order of the pass.\<close>

fun pick_slot :: "(tcp_shift_delivery_slot \<Rightarrow> bool) \<Rightarrow> (tcp_shift_delivery_slot \<Rightarrow> tcp_shift_delivery_slot \<Rightarrow> bool) \<Rightarrow> nat \<Rightarrow>
    (nat \<times> tcp_shift_delivery_slot) option \<Rightarrow> tcp_shift_delivery_slot list \<Rightarrow> (nat \<times> tcp_shift_delivery_slot) option" where
  "pick_slot ok before i best [] = best"
| "pick_slot ok before i best (sl # sls) =
    pick_slot ok before (Suc i)
      (if \<not> ok sl then best
       else case best of None \<Rightarrow> Some (i, sl) | Some (j, b) \<Rightarrow> if before sl b then Some (i, sl) else best) sls"

definition slot_delivered :: "u8 \<Rightarrow> tcp_shift_delivery_slot \<Rightarrow> bool" where
  "slot_delivered stage sl \<longleftrightarrow> sl_segment sl \<noteq> None \<and> sl_rack_delivered sl = stage \<and> sl_payload_bytes sl \<noteq> 0 \<and>
     \<not> sl_acked_payload_bytes sl < sl_payload_bytes sl"

definition set_slot :: "nat \<Rightarrow> tcp_shift_delivery_slot \<Rightarrow> 's cc_sys \<Rightarrow> 's cc_sys" where
  "set_slot i sl s = s\<lparr>ad := (ad s)\<lparr>delivery_slots := (delivery_slots (ad s))[i := sl]\<rparr>\<rparr>"

definition rack_time_slot :: "u64 \<Rightarrow> nat \<Rightarrow> tcp_shift_delivery_slot \<Rightarrow> 's cc_sys \<Rightarrow> 's cc_sys" where
  "rack_time_slot now_ns i sl s =
    (let rack = ad_rack_tlp (ad s);
         sample = now_ns - sl_tx_ns sl;
         rack = (if \<not> sl_retransmitted sl \<and> now_ns \<ge> sl_tx_ns sl \<and> sample \<noteq> 0 \<and>
                    (rack_min_rtt_ns rack = 0 \<or> sample < rack_min_rtt_ns rack)
                 then rack\<lparr>rack_min_rtt_ns := sample\<rparr> else rack);
         rack = tcp_shift_rack_set_rtt_estimates rack (rack_min_rtt_ns rack) (srtt_smoothed_rtt_ns (ad_srtt (ad s)));
         rack = snd (tcp_shift_rack_note_delivered rack (tcp_shift_rack_slot_view sl) now_ns)
     in set_slot i (sl\<lparr>sl_rack_delivered := 1\<rparr>) (s\<lparr>ad := (ad s)\<lparr>ad_rack_tlp := rack\<rparr>\<rparr>))"

fun rack_time_pass :: "nat \<Rightarrow> u64 \<Rightarrow> 's cc_sys \<Rightarrow> 's cc_sys" where
  "rack_time_pass 0 now_ns s = s"
| "rack_time_pass (Suc n) now_ns s =
    (case pick_slot (slot_delivered 0)
            (\<lambda>sl nxt. tcp_shift_rack_sent_after (sl_tx_ns nxt) (slot_end nxt) (sl_tx_ns sl) (slot_end sl))
            0 None (delivery_slots (ad s)) of
       None \<Rightarrow> s
     | Some (i, sl) \<Rightarrow> rack_time_pass n now_ns (rack_time_slot now_ns i sl s))"

definition rack_order_slot :: "nat \<Rightarrow> tcp_shift_delivery_slot \<Rightarrow> 's cc_sys \<Rightarrow> 's cc_sys" where
  "rack_order_slot i sl s =
    (let before = reordering_seen (ad_rack_tlp (ad s));
         rack = tcp_shift_rack_detect_reordering (ad_rack_tlp (ad s)) (tcp_shift_rack_slot_view sl);
         s = s\<lparr>ad := (ad s)\<lparr>ad_rack_tlp := rack\<rparr>\<rparr>;
         s = (if \<not> before \<and> reordering_seen rack
              then with_recovery (\<lambda>t. t\<lparr>rack_reordering_events := rack_reordering_events t + 1\<rparr>) s else s);
         s = tcp_shift_rack_record_stats s
     in set_slot i (sl\<lparr>sl_rack_delivered := 2\<rparr>) s)"

fun rack_order_pass :: "nat \<Rightarrow> 's cc_sys \<Rightarrow> 's cc_sys" where
  "rack_order_pass 0 s = s"
| "rack_order_pass (Suc n) s =
    (case pick_slot (slot_delivered 1) (\<lambda>sl nxt. tcp_shift_rack_seq_before_u32 (slot_end sl) (slot_end nxt))
            0 None (delivery_slots (ad s)) of
       None \<Rightarrow> s
     | Some (i, sl) \<Rightarrow> rack_order_pass n (rack_order_slot i sl s))"

text \<open>Each pass stops after as many slots as there are.\<close>

definition tcp_shift_rack_process_delivered_slots :: "u64 \<Rightarrow> 's cc_sys \<Rightarrow> 's cc_sys" where
  "tcp_shift_rack_process_delivered_slots now_ns s =
    (if now_ns = 0 then s
     else let n = length (delivery_slots (ad s)) in rack_order_pass n (rack_time_pass n now_ns s))"

definition tcp_shift_rack_count_sacked_slots :: "'s cc_sys \<Rightarrow> u32" where
  "tcp_shift_rack_count_sacked_slots s =
    of_nat (length (filter (\<lambda>sl. sl_segment sl \<noteq> None \<and> sl_payload_bytes sl \<noteq> 0 \<and>
        \<not> sl_acked_payload_bytes sl < sl_payload_bytes sl \<and> sint (slot_end sl - pcb_lastack (pcb s)) > 0) (delivery_slots (ad s))))"

section \<open>Rate samples\<close>

definition tcp_shift_rate_bytes_per_second :: "u32 \<Rightarrow> u64 \<Rightarrow> u64" where
  "tcp_shift_rate_bytes_per_second delivered interval =
    (if delivered = 0 \<or> interval = 0 then 0 else u64_of delivered * TCP_SHIFT_NSEC_PER_SEC_adapter div interval)"

definition rate_zero :: tcp_shift_cc_rate_sample where
  "rate_zero = \<lparr>delivery_rate_bytes_per_sec = 0, interval_ns = 0, send_interval_ns = 0, ack_interval_ns = 0, rtt_ns = 0,
     prior_delivered_bytes = 0, delivered_total_bytes = 0, delivered_bytes = 0, prior_inflight_bytes = 0, flags = 0\<rparr>"

definition rate_counters :: "tcp_shift_cc_rate_sample \<Rightarrow> rate_stats \<Rightarrow> rate_stats" where
  "rate_counters rate t =
    (let t = t\<lparr>rate_samples := rate_samples t + 1\<rparr>;
         t = (if has_flag rate TCP_SHIFT_CC_RATE_SAMPLE_VALID then t\<lparr>rate_valid_samples := rate_valid_samples t + 1\<rparr>
              else t\<lparr>rate_invalid_samples := rate_invalid_samples t + 1\<rparr>);
         t = (if has_flag rate TCP_SHIFT_CC_RATE_SAMPLE_APP_LIMITED
              then t\<lparr>rate_app_limited_samples := rate_app_limited_samples t + 1\<rparr> else t);
         t = (if has_flag rate TCP_SHIFT_CC_RATE_SAMPLE_RETRANSMITTED
              then t\<lparr>rate_retransmitted_samples := rate_retransmitted_samples t + 1\<rparr> else t)
     in if delivered_total_bytes rate \<noteq> 0
        then let t = t\<lparr>rate_snapshot_samples := rate_snapshot_samples t + 1\<rparr>
             in if delivered_total_bytes rate \<le> prior_delivered_bytes rate
                then t\<lparr>rate_snapshot_errors := rate_snapshot_errors t + 1\<rparr> else t
        else t)"

definition tcp_shift_rate_record_stats :: "tcp_shift_cc_rate_sample \<Rightarrow> 's cc_sys \<Rightarrow> 's cc_sys" where
  "tcp_shift_rate_record_stats rate = with_rate (\<lambda>t. (rate_counters rate t)
    \<lparr>rate_last_bytes_per_sec := delivery_rate_bytes_per_sec rate,
     rate_max_bytes_per_sec := (if delivery_rate_bytes_per_sec rate > rate_max_bytes_per_sec t then delivery_rate_bytes_per_sec rate
                                else rate_max_bytes_per_sec t),
     rate_last_interval_ns := interval_ns rate, rate_last_send_interval_ns := send_interval_ns rate,
     rate_last_ack_interval_ns := ack_interval_ns rate, rate_last_rtt_ns := rtt_ns rate,
     rate_last_prior_delivered_bytes := prior_delivered_bytes rate, rate_last_delivered_total_bytes := delivered_total_bytes rate,
     rate_last_delivered_bytes := delivered_bytes rate, rate_last_prior_inflight_bytes := prior_inflight_bytes rate,
     rate_last_flags := flags rate\<rparr>)"

definition tcp_shift_delivery_candidate_newer :: "tcp_shift_delivery_slot \<Rightarrow> tcp_shift_delivery_slot option \<Rightarrow> bool" where
  "tcp_shift_delivery_candidate_newer sl candidate =
    (case candidate of
       None \<Rightarrow> True
     | Some c \<Rightarrow> sl_tx_ns sl > sl_tx_ns c \<or> sl_tx_ns sl = sl_tx_ns c \<and> sint (slot_end sl - slot_end c) > 0)"

text \<open>The sample of the newest slot an acknowledgement touched, and the flags it gets; then the rate.\<close>

definition sample_base :: "u64 \<Rightarrow> u64 \<Rightarrow> tcp_shift_delivery_slot \<Rightarrow> tcp_shift_cc_rate_sample \<Rightarrow> tcp_shift_cc_rate_sample" where
  "sample_base delivered now_ns c rate =
    (let rate = rate\<lparr>prior_delivered_bytes := sl_delivered_at_send c, delivered_total_bytes := delivered,
           delivered_bytes := saturate_u32 (delivered - sl_delivered_at_send c), prior_inflight_bytes := sl_prior_inflight_bytes c\<rparr>;
         rate = (if sl_tx_ns c \<ge> sl_first_tx_mstamp_at_send_ns c
                 then rate\<lparr>send_interval_ns := sl_tx_ns c - sl_first_tx_mstamp_at_send_ns c\<rparr> else rate);
         rate = (if now_ns \<ge> sl_delivered_mstamp_at_send_ns c
                 then rate\<lparr>ack_interval_ns := now_ns - sl_delivered_mstamp_at_send_ns c\<rparr> else rate);
         rate = rate\<lparr>interval_ns := (if send_interval_ns rate > ack_interval_ns rate then send_interval_ns rate
                                     else ack_interval_ns rate)\<rparr>;
         rate = (if sl_app_limited c then rate\<lparr>flags := flags rate OR TCP_SHIFT_CC_RATE_SAMPLE_APP_LIMITED\<rparr> else rate)
     in if sl_retransmitted c then rate\<lparr>flags := flags rate OR TCP_SHIFT_CC_RATE_SAMPLE_RETRANSMITTED\<rparr>
        else if sl_tx_ns c \<noteq> 0 \<and> now_ns \<ge> sl_tx_ns c
        then rate\<lparr>rtt_ns := now_ns - sl_tx_ns c, flags := flags rate OR TCP_SHIFT_CC_RATE_SAMPLE_RTT_VALID\<rparr> else rate)"

definition sample_of :: "u64 \<Rightarrow> u64 \<Rightarrow> tcp_shift_delivery_slot \<Rightarrow> tcp_shift_cc_rate_sample \<Rightarrow> tcp_shift_cc_rate_sample" where
  "sample_of delivered now_ns c rate =
    (let rate = sample_base delivered now_ns c rate;
         rate = rate\<lparr>delivery_rate_bytes_per_sec := tcp_shift_rate_bytes_per_second (delivered_bytes rate) (interval_ns rate)\<rparr>
     in if delivered_bytes rate \<noteq> 0 \<and> interval_ns rate \<noteq> 0 \<and> delivery_rate_bytes_per_sec rate \<noteq> 0
        then rate\<lparr>flags := flags rate OR TCP_SHIFT_CC_RATE_SAMPLE_VALID\<rparr> else rate)"

definition note_progress :: "u64 \<Rightarrow> u64 \<Rightarrow> u16 \<Rightarrow> bool \<Rightarrow> 's cc_sys \<Rightarrow> 's cc_sys" where
  "note_progress delivered_added now_ns touched partial s =
    (let s = with_rate (\<lambda>t. t\<lparr>rate_partial_ack_events := rate_partial_ack_events t + (if partial then 1 else 0),
             rate_multi_segment_ack_events := rate_multi_segment_ack_events t + (if touched > 1 then 1 else 0)\<rparr>) s;
         s = s\<lparr>ad := (ad s)\<lparr>ad_delivered_bytes := ad_delivered_bytes (ad s) + delivered_added, delivered_mstamp_ns := now_ns\<rparr>\<rparr>;
         s = with_delivery (\<lambda>t. t\<lparr>delivery_payload_bytes := delivery_payload_bytes t + delivered_added,
               delivery_last_ack_ns := now_ns\<rparr>) s
     in if app_limited_until_bytes (ad s) \<noteq> 0 \<and> ad_delivered_bytes (ad s) > app_limited_until_bytes (ad s)
        then with_rate (\<lambda>t. t\<lparr>app_limited_exits := app_limited_exits t + 1\<rparr>)
               (s\<lparr>ad := (ad s)\<lparr>app_limited_until_bytes := 0\<rparr>\<rparr>)
        else s)"

definition tcp_shift_delivery_finalize_rate_sample ::
    "tcp_shift_delivery_slot option \<Rightarrow> u64 \<Rightarrow> u64 \<Rightarrow> u16 \<Rightarrow> bool \<Rightarrow> tcp_shift_cc_rate_sample \<Rightarrow> 's cc_sys \<Rightarrow>
     tcp_shift_cc_rate_sample \<times> 's cc_sys" where
  "tcp_shift_delivery_finalize_rate_sample candidate delivered_added now_ns touched partial rate s =
    (if delivered_added = 0 then (rate, s)
     else
       let s = note_progress delivered_added now_ns touched partial s
       in case candidate of
            None \<Rightarrow> (rate, tcp_shift_rate_record_stats rate s)
          | Some c \<Rightarrow>
              let rate = sample_of (ad_delivered_bytes (ad s)) now_ns c rate;
                  s = s\<lparr>ad := (ad s)\<lparr>rate_first_tx_mstamp_ns := sl_tx_ns c\<rparr>\<rparr>
              in (rate, tcp_shift_rate_record_stats rate s))"

text \<open>The loops over the slots. \<open>credit\<close> is what a slot has acknowledged in all, if that is more than before.\<close>

record delivery_acc =
  acc_added :: u64
  acc_touched :: u16
  acc_partial :: bool
  acc_candidate :: "tcp_shift_delivery_slot option"

definition acc_zero :: delivery_acc where
  "acc_zero = \<lparr>acc_added = 0, acc_touched = 0, acc_partial = False, acc_candidate = None\<rparr>"

fun credit_slots :: "(tcp_shift_delivery_slot \<Rightarrow> u16 option) \<Rightarrow> delivery_acc \<Rightarrow> tcp_shift_delivery_slot list \<Rightarrow>
    tcp_shift_delivery_slot list \<times> delivery_acc" where
  "credit_slots credit acc [] = ([], acc)"
| "credit_slots credit acc (sl # sls) =
    (case credit sl of
       None \<Rightarrow> (case credit_slots credit acc sls of (sls, acc) \<Rightarrow> (sl # sls, acc))
     | Some acked \<Rightarrow>
         let sl' = sl\<lparr>sl_acked_payload_bytes := acked\<rparr>;
             acc = \<lparr>acc_added = acc_added acc + ucast (acked - sl_acked_payload_bytes sl), acc_touched = acc_touched acc + 1,
                    acc_partial = (acc_partial acc \<or> acked < sl_payload_bytes sl),
                    acc_candidate = (if tcp_shift_delivery_candidate_newer sl' (acc_candidate acc) then Some sl'
                                     else acc_candidate acc)\<rparr>
         in (case credit_slots credit acc sls of (sls, acc) \<Rightarrow> (sl' # sls, acc)))"

definition ack_credit :: "u32 \<Rightarrow> tcp_shift_delivery_slot \<Rightarrow> u16 option" where
  "ack_credit ack_seq sl =
    (if sl_segment sl = None then None
     else let acked = tcp_shift_delivery_acked_payload sl ack_seq
          in if acked \<le> sl_acked_payload_bytes sl then None else Some acked)"

definition tcp_shift_delivery_slot_in_sack_range :: "tcp_shift_delivery_slot \<Rightarrow> tcp_shift_lwip_sack_range \<Rightarrow> bool" where
  "tcp_shift_delivery_slot_in_sack_range sl r \<longleftrightarrow> \<not> (sl_segment sl = None \<or> sl_payload_bytes sl = 0) \<and>
     sint (sl_seq_start sl - sack_left r) \<ge> 0 \<and> sint (sack_right r - slot_end sl) \<ge> 0"

definition sack_credit :: "tcp_shift_lwip_sack_range list \<Rightarrow> tcp_shift_delivery_slot \<Rightarrow> u16 option" where
  "sack_credit ranges sl =
    (if sl_segment sl = None \<or> sl_acked_payload_bytes sl \<ge> sl_payload_bytes sl then None
     else if list_ex (tcp_shift_delivery_slot_in_sack_range sl) ranges then Some (sl_payload_bytes sl) else None)"

definition credit_pass :: "(tcp_shift_delivery_slot \<Rightarrow> u16 option) \<Rightarrow> 's cc_sys \<Rightarrow> delivery_acc \<times> 's cc_sys" where
  "credit_pass credit s =
    (case credit_slots credit acc_zero (delivery_slots (ad s)) of (sls, acc) \<Rightarrow> (acc, s\<lparr>ad := (ad s)\<lparr>delivery_slots := sls\<rparr>\<rparr>))"

definition tcp_shift_delivery_build_rate_sample :: "'s cc_sys \<Rightarrow> u32 \<times> tcp_shift_cc_rate_sample \<times> 's cc_sys" where
  "tcp_shift_delivery_build_rate_sample s =
    (case tcp_shift_delivery_now_ns s of
       (now_ns, s) \<Rightarrow>
         if now_ns = 0 then (0, rate_zero, s)
         else
           let (acc, s) = credit_pass (ack_credit (pcb_lastack (pcb s))) s;
               s = tcp_shift_rack_process_delivered_slots now_ns s;
               (rate, s) = tcp_shift_delivery_finalize_rate_sample (acc_candidate acc) (acc_added acc) now_ns (acc_touched acc)
                             (acc_partial acc) rate_zero s
           in (saturate_u32 (acc_added acc), rate, s))"

definition tcp_shift_delivery_build_sack_rate_sample ::
    "tcp_shift_lwip_sack_range list \<Rightarrow> bool \<Rightarrow> 's cc_sys \<Rightarrow> u32 \<times> tcp_shift_cc_rate_sample \<times> 's cc_sys" where
  "tcp_shift_delivery_build_sack_rate_sample ranges process_rack s =
    (case tcp_shift_delivery_now_ns s of
       (now_ns, s) \<Rightarrow>
         if now_ns = 0 then (0, rate_zero, s)
         else
           let (acc, s) = credit_pass (sack_credit ranges) s;
               s = (if process_rack then tcp_shift_rack_process_delivered_slots now_ns s else s);
               (rate, s) = tcp_shift_delivery_finalize_rate_sample (acc_candidate acc) (acc_added acc) now_ns (acc_touched acc)
                             False rate_zero s
           in (saturate_u32 (acc_added acc), rate, s))"

definition tcp_shift_lwip_cc_on_segment_acked :: "nat \<Rightarrow> nat option \<Rightarrow> u16 \<Rightarrow> 's cc_sys \<Rightarrow> 's cc_sys" where
  "tcp_shift_lwip_cc_on_segment_acked p seg payload s =
    (if ad_pcb (ad s) \<noteq> Some p \<or> seg = None \<or> payload = 0 then s
     else
       let s = with_delivery (\<lambda>t. t\<lparr>delivery_acked_segment_events := delivery_acked_segment_events t + 1\<rparr>) s;
           miss = with_delivery (\<lambda>t. t\<lparr>delivery_metadata_misses := delivery_metadata_misses t + 1\<rparr>)
       in case tcp_shift_delivery_find (ad s) (the seg) of
            None \<Rightarrow> miss s
          | Some i \<Rightarrow>
              let sl = delivery_slots (ad s) ! i;
                  s = (if sl_payload_bytes sl \<noteq> payload \<or> sl_acked_payload_bytes sl \<noteq> sl_payload_bytes sl then miss s else s)
              in tcp_shift_delivery_release_slot i s)"

end
