(* ===== verification/Adapter_Recovery.thy ===== *)
theory Adapter_Recovery
  imports Adapter_Delivery
begin

text \<open>
  Loss recovery in \<^verbatim>\<open>src/lwip/cc_adapter.c\<close>: the live side of proportional rate reduction, the RACK reordering timer, the
  probe timer, and the gates of a send.
\<close>

section \<open>Proportional rate reduction\<close>

definition name_starts :: "nat \<Rightarrow> string \<Rightarrow> string \<Rightarrow> bool" where
  "name_starts n prefix name \<longleftrightarrow> take n name = prefix"

definition tcp_shift_lwip_cc_prr_capable :: "nat \<Rightarrow> 's cc_sys \<Rightarrow> bool" where
  "tcp_shift_lwip_cc_prr_capable p s \<longleftrightarrow> ad_bound (ad s) \<and> ad_pcb (ad s) = Some p \<and> pcb_sack (pcb s) \<and>
     \<not> sack_delivery_policy (ad s) \<and>
     (case cc_ops (ad_controller (ad s)) of
        None \<Rightarrow> False
      | Some ops \<Rightarrow> (case ops_name ops of
                       None \<Rightarrow> False
                     | Some name \<Rightarrow> name_starts 4 ''reno'' name \<or> name_starts 5 ''cubic'' name))"

definition slot_sacked_bytes :: "u32 \<Rightarrow> tcp_shift_delivery_slot \<Rightarrow> nat" where
  "slot_sacked_bytes snd_una sl =
    (if sl_segment sl = None \<or> sl_payload_bytes sl = 0 \<or> sl_acked_payload_bytes sl = 0 then 0
     else
       let offset = snd_una - sl_seq_start sl;
           cumulatively_acked = (if sint offset > 0
                                 then if offset \<ge> ucast (sl_payload_bytes sl) then ucast (sl_payload_bytes sl) else offset
                                 else 0) :: u32
       in if ucast (sl_acked_payload_bytes sl) > cumulatively_acked
          then unat (ucast (sl_acked_payload_bytes sl) - cumulatively_acked) else 0)"

definition tcp_shift_lwip_cc_prr_sacked_bytes :: "'s tcp_shift_lwip_cc_adapter \<Rightarrow> u32 \<Rightarrow> u32" where
  "tcp_shift_lwip_cc_prr_sacked_bytes a snd_una =
    saturate_u32 (of_nat (sum_list (map (slot_sacked_bytes snd_una) (delivery_slots a))))"

definition tcp_shift_lwip_cc_prr_recover_fs :: "'s cc_sys \<Rightarrow> u32" where
  "tcp_shift_lwip_cc_prr_recover_fs s =
    (let raw = pcb_snd_nxt (pcb s) - pcb_lastack (pcb s);
         sacked = tcp_shift_lwip_cc_prr_sacked_bytes (ad s) (pcb_lastack (pcb s))
     in if sacked \<ge> raw then 0 else raw - sacked)"

text \<open>The RACK judgement of every slot in flight, in the order of the slots: the slot, whether it is lost, and otherwise the
  time until it is.\<close>

fun rack_scan :: "u64 \<Rightarrow> bool \<Rightarrow> tcp_shift_rack_tlp_state \<Rightarrow> tcp_shift_delivery_slot list \<Rightarrow>
    (tcp_shift_delivery_slot \<times> bool \<times> u64) list \<times> tcp_shift_rack_tlp_state" where
  "rack_scan now_ns in_recovery rack [] = ([], rack)"
| "rack_scan now_ns in_recovery rack (sl # sls) =
    (if sl_segment sl = None \<or> sl_payload_bytes sl = 0 \<or> sl_acked_payload_bytes sl \<ge> sl_payload_bytes sl \<or> sl_tx_ns sl = 0
     then rack_scan now_ns in_recovery rack sls
     else case tcp_shift_rack_loss_remaining rack (tcp_shift_rack_slot_view sl) now_ns in_recovery of
            (mature, rack, remaining) \<Rightarrow>
              (case rack_scan now_ns in_recovery rack sls of (js, rack) \<Rightarrow> ((sl, mature \<noteq> 0, remaining) # js, rack)))"

definition in_recovery_of :: "'s cc_sys \<Rightarrow> bool" where
  "in_recovery_of s = tcp_shift_lwip_cc_hook_recovery_is_active (ad_hook (ad s))"

definition scan_slots :: "u64 \<Rightarrow> 's cc_sys \<Rightarrow> (tcp_shift_delivery_slot \<times> bool \<times> u64) list \<times> 's cc_sys" where
  "scan_slots now_ns s =
    (case rack_scan now_ns (in_recovery_of s) (ad_rack_tlp (ad s)) (delivery_slots (ad s)) of
       (js, rack) \<Rightarrow> (js, s\<lparr>ad := (ad s)\<lparr>ad_rack_tlp := rack\<rparr>\<rparr>))"

definition tcp_shift_lwip_cc_prr_inflight :: "'s cc_sys \<Rightarrow> u32 \<times> 's cc_sys" where
  "tcp_shift_lwip_cc_prr_inflight s =
    (if delivery_slots (ad s) = [] then (0, s)
     else case tcp_shift_delivery_now_ns s of
       (now_ns, s) \<Rightarrow>
         if now_ns = 0 then (tcp_shift_delivery_outstanding_payload (ad s), s)
         else case scan_slots now_ns s of
           (js, s) \<Rightarrow> (saturate_u32 (of_nat (\<Sum>(sl, mature, _)\<leftarrow>js. if mature then 0 else slot_outstanding sl)), s))"

definition tcp_shift_lwip_cc_prr_reset_live :: "'s cc_sys \<Rightarrow> 's cc_sys" where
  "tcp_shift_lwip_cc_prr_reset_live s =
    s\<lparr>ad := (ad s)\<lparr>ad_prr := tcp_shift_prr_reset (ad_prr (ad s)), prr_send_credit_bytes := 0, prr_recover_fs_hint := 0,
                    prr_recover_fs_hint_valid := False\<rparr>\<rparr>"

definition tcp_shift_lwip_cc_prr_note_delivery :: "'s cc_sys \<Rightarrow> 's cc_sys" where
  "tcp_shift_lwip_cc_prr_note_delivery s =
    (if ad_delivered_bytes (ad s) < prr_ack_delivered_before (ad s) then s
     else s\<lparr>ad := (ad s)\<lparr>prr_trigger_delivered_bytes :=
              saturate_u32 (ad_delivered_bytes (ad s) - prr_ack_delivered_before (ad s))\<rparr>\<rparr>)"

text \<open>The result structure is uninitialised in the code; \<^verbatim>\<open>tcp_shift_prr_on_ack\<close> writes it when it succeeds.\<close>

definition tcp_shift_lwip_cc_prr_apply_ack :: "u32 \<Rightarrow> bool \<Rightarrow> 's cc_sys \<Rightarrow> int \<times> 's cc_sys" where
  "tcp_shift_lwip_cc_prr_apply_ack delivered safe s =
    (if \<not> prr_active (ad_prr (ad s)) \<or> delivered = 0 then (0, s)
     else case tcp_shift_lwip_cc_prr_inflight s of
       (inflight, s) \<Rightarrow>
         let ack = \<lparr>delivered_data = delivered, prr_inflight = inflight, smss = ucast (pcb_mss (pcb s)), safe_ack = safe\<rparr>
         in case tcp_shift_prr_on_ack (ad_prr (ad s)) ack \<lparr>sndcnt = 0, prr_cwnd = 0\<rparr> of
              (r, prr, result) \<Rightarrow>
                let s = s\<lparr>ad := (ad s)\<lparr>ad_prr := prr\<rparr>\<rparr>
                in if r \<noteq> 0 then (-1, s)
                   else if prr_cwnd result = 0 \<or> prr_cwnd result > tcp_shift_lwip_cc_cwnd_limit then (-1, s)
                   else
                     let s = s\<lparr>pcb := (pcb s)\<lparr>pcb_cwnd := prr_cwnd result, pcb_bytes_acked := 0\<rparr>,
                               ad := (ad s)\<lparr>prr_send_credit_bytes := sndcnt result\<rparr>\<rparr>;
                         s = with_recovery (\<lambda>t. t\<lparr>prr_ack_events := prr_ack_events t + 1,
                               prr_safe_ack_events := prr_safe_ack_events t + (if safe then 1 else 0),
                               prr_last_inflight_bytes := inflight, prr_last_sndcnt_bytes := sndcnt result\<rparr>) s
                     in (1, with_events (\<lambda>t. t\<lparr>last_cwnd_bytes := prr_cwnd result\<rparr>) s))"

definition tcp_shift_lwip_cc_prr_begin :: "nat \<Rightarrow> 's cc_sys \<Rightarrow> int \<times> 's cc_sys" where
  "tcp_shift_lwip_cc_prr_begin p s =
    (if \<not> tcp_shift_lwip_cc_prr_capable p s \<or> prr_trigger_delivered_bytes (ad s) = 0 then (0, s)
     else
       let fs = (if prr_recover_fs_hint_valid (ad s) then prr_recover_fs_hint (ad s) else tcp_shift_lwip_cc_prr_recover_fs s)
       in if fs = 0 \<or> pcb_ssthresh (pcb s) = 0 then (0, s)
          else case tcp_shift_prr_init (ad_prr (ad s)) fs (pcb_ssthresh (pcb s)) of
            (r, prr) \<Rightarrow>
              let s = s\<lparr>ad := (ad s)\<lparr>ad_prr := prr\<rparr>\<rparr>
              in if r \<noteq> 0 then (0, s)
                 else
                   let s = s\<lparr>ad := (ad s)\<lparr>prr_send_credit_bytes := 0, prr_recover_fs_hint_valid := False\<rparr>\<rparr>;
                       s = with_recovery (\<lambda>t. t\<lparr>prr_recovery_enters := prr_recovery_enters t + 1,
                             prr_last_recover_fs_bytes := fs\<rparr>) s
                   in case tcp_shift_lwip_cc_prr_apply_ack (prr_trigger_delivered_bytes (ad s)) False s of
                        (r, s) \<Rightarrow> if r < 0 then (0, tcp_shift_lwip_cc_prr_reset_live s) else (1, s))"

definition tcp_shift_lwip_cc_prr_ack_begin :: "nat \<Rightarrow> 's cc_sys \<Rightarrow> 's cc_sys" where
  "tcp_shift_lwip_cc_prr_ack_begin p s =
    (if \<not> ad_bound (ad s) \<or> ad_pcb (ad s) \<noteq> Some p then s
     else
       let s = s\<lparr>ad := (ad s)\<lparr>prr_ack_delivered_before := ad_delivered_bytes (ad s), prr_trigger_delivered_bytes := 0,
                   prr_ack_loss_events_before := (if ad_stats (ad s) then loss_events (st_events (stats s)) else 0)\<rparr>\<rparr>
       in if \<not> prr_active (ad_prr (ad s)) \<and> tcp_shift_lwip_cc_prr_capable p s
          then let fs = tcp_shift_lwip_cc_prr_recover_fs s
               in s\<lparr>ad := (ad s)\<lparr>prr_recover_fs_hint := fs, prr_recover_fs_hint_valid := (fs \<noteq> 0)\<rparr>\<rparr>
          else s)"

definition tcp_shift_lwip_cc_prr_active :: "nat \<Rightarrow> 's cc_sys \<Rightarrow> bool" where
  "tcp_shift_lwip_cc_prr_active p s \<longleftrightarrow> ad_bound (ad s) \<and> ad_pcb (ad s) = Some p \<and> prr_active (ad_prr (ad s))"

section \<open>The recovery timer\<close>

definition TCP_SHIFT_LWIP_RECOVERY_TIMER_RACK :: u32 where
  "TCP_SHIFT_LWIP_RECOVERY_TIMER_RACK = 1"

definition TCP_SHIFT_LWIP_RECOVERY_TIMER_TLP :: u32 where
  "TCP_SHIFT_LWIP_RECOVERY_TIMER_TLP = 2"

definition tcp_shift_rack_add_sat_ns :: "u64 \<Rightarrow> u64 \<Rightarrow> u64" where
  "tcp_shift_rack_add_sat_ns left right = (if right > UINT64_MAX - left then UINT64_MAX else left + right)"

definition tcp_shift_rack_detection_deadline :: "u64 \<Rightarrow> 's cc_sys \<Rightarrow> u64 \<times> 's cc_sys" where
  "tcp_shift_rack_detection_deadline now_ns s =
    (if now_ns = 0 \<or> rack_xmit_ts_ns (ad_rack_tlp (ad s)) = 0 \<or> rack_rtt_ns (ad_rack_tlp (ad s)) = 0 then (0, s)
     else case scan_slots now_ns s of
       (js, s) \<Rightarrow>
         let max_remaining = foldl (\<lambda>m (_, mature, r). if \<not> mature \<and> r > m then r else m) 0 js
         in (if list_ex (\<lambda>(_, mature, _). mature) js then now_ns
             else if max_remaining \<noteq> 0 then tcp_shift_rack_add_sat_ns now_ns max_remaining else 0, s))"

text \<open>The common end of the two timers: a running timer is cancelled, then the new one is scheduled. The source clears the kind
  of the cancelled timer only in \<^verbatim>\<open>tcp_shift_tlp_arm_pto\<close>.\<close>

definition timer_forget :: "bool \<Rightarrow> 's cc_sys \<Rightarrow> 's cc_sys" where
  "timer_forget clear_kind s =
    s\<lparr>ad := (ad s)\<lparr>recovery_timer_scheduled := False, recovery_timer_deadline_ns := 0,
                    recovery_timer_kind := (if clear_kind then 0 else recovery_timer_kind (ad s))\<rparr>\<rparr>"

definition timer_replace :: "bool \<Rightarrow> 's cc_sys \<Rightarrow> bool \<times> 's cc_sys" where
  "timer_replace clear_kind s =
    (if \<not> recovery_timer_scheduled (ad s) then (True, s)
     else if recovery_ops s = None then (False, tcp_shift_recovery_timer_cancel s)
     else case ask_timer (Timer_Cancel (pacing_flow_id (ad s)) (pacing_generation (ad s))) s of
            (r, s) \<Rightarrow> if r < 0 then (False, tcp_shift_recovery_timer_cancel s) else (True, timer_forget clear_kind s))"

definition timer_start :: "u64 \<Rightarrow> u32 \<Rightarrow> 's cc_sys \<Rightarrow> 's cc_sys" where
  "timer_start deadline kind s =
    (if recovery_ops s = None \<or> pacing_flow_id (ad s) = 0 then s
     else case ask_timer (Timer_Schedule (pacing_flow_id (ad s)) (pacing_generation (ad s)) deadline kind) s of
            (r, s) \<Rightarrow>
              if r < 0 then s
              else s\<lparr>ad := (ad s)\<lparr>recovery_timer_scheduled := True, recovery_timer_deadline_ns := deadline,
                                   recovery_timer_kind := kind\<rparr>\<rparr>)"

definition tcp_shift_rack_arm_detection_timer :: "u64 \<Rightarrow> 's cc_sys \<Rightarrow> 's cc_sys" where
  "tcp_shift_rack_arm_detection_timer now_ns s =
    (case tcp_shift_rack_detection_deadline now_ns s of
       (deadline, s) \<Rightarrow>
         if deadline = 0 then tcp_shift_recovery_timer_cancel s
         else if recovery_timer_scheduled (ad s) \<and> recovery_timer_deadline_ns (ad s) = deadline then s
         else case timer_replace False s of
                (go, s) \<Rightarrow> if \<not> go then s else timer_start deadline TCP_SHIFT_LWIP_RECOVERY_TIMER_RACK s)"

definition tcp_shift_tlp_flight_segments :: "'s tcp_shift_lwip_cc_adapter \<Rightarrow> u32" where
  "tcp_shift_tlp_flight_segments a =
    of_nat (length (filter (\<lambda>sl. sl_segment sl \<noteq> None \<and> sl_payload_bytes sl \<noteq> 0 \<and> sl_acked_payload_bytes sl < sl_payload_bytes sl)
      (delivery_slots a)))"

definition tcp_shift_tlp_rto_expiration_ns :: "u64 \<Rightarrow> 's cc_sys \<Rightarrow> u64" where
  "tcp_shift_tlp_rto_expiration_ns now_ns s =
    (if now_ns = 0 \<or> pcb_rto (pcb s) \<le> 0 then 0
     else if pcb_rtime (pcb s) \<ge> pcb_rto (pcb s) then now_ns
     else
       let remaining_ticks = of_int (pcb_rto (pcb s) - pcb_rtime (pcb s)) :: u64;
           remaining = remaining_ticks * env_slow_interval (env s) * 1000000
       in if remaining > UINT64_MAX - now_ns then UINT64_MAX else now_ns + remaining)"

definition cancel_probe_timer :: "'s cc_sys \<Rightarrow> 's cc_sys" where
  "cancel_probe_timer s =
    (if recovery_timer_scheduled (ad s) \<and> recovery_timer_kind (ad s) = TCP_SHIFT_LWIP_RECOVERY_TIMER_TLP
     then tcp_shift_recovery_timer_cancel s else s)"

definition tcp_shift_tlp_arm_pto :: "u64 \<Rightarrow> 's cc_sys \<Rightarrow> 's cc_sys" where
  "tcp_shift_tlp_arm_pto now_ns s =
    (if now_ns = 0 then s
     else if in_recovery_of s \<or> segs_sacked (ad_rack_tlp (ad s)) \<noteq> 0 \<or> \<not> tcp_shift_tlp_probe_allowed (ad_rack_tlp (ad s))
     then cancel_probe_timer s
     else if tcp_shift_tlp_flight_segments (ad s) = 0 then cancel_probe_timer s
     else if recovery_timer_scheduled (ad s) \<and> recovery_timer_kind (ad s) = TCP_SHIFT_LWIP_RECOVERY_TIMER_RACK then s
     else
       let pto = tcp_shift_tlp_calc_pto_ns (ad_rack_tlp (ad s)) now_ns (tcp_shift_tlp_rto_expiration_ns now_ns s)
                   (tcp_shift_tlp_flight_segments (ad s)) 0
       in if pto = 0 then s
          else
            let deadline = (if pto > UINT64_MAX - now_ns then UINT64_MAX else now_ns + pto)
            in if recovery_timer_scheduled (ad s) \<and> recovery_timer_deadline_ns (ad s) = deadline \<and>
                  recovery_timer_kind (ad s) = TCP_SHIFT_LWIP_RECOVERY_TIMER_TLP
               then s
               else case timer_replace True s of
                      (go, s) \<Rightarrow> if \<not> go then s else timer_start deadline TCP_SHIFT_LWIP_RECOVERY_TIMER_TLP s)"

section \<open>Sending\<close>

text \<open>The pacing clock of the flow, made anew from the two fields of the adapter that mirror it.\<close>

definition flow_clock :: "'s tcp_shift_lwip_cc_adapter \<Rightarrow> tcp_shift_flow_pacer" where
  "flow_clock a = (tcp_shift_flow_pacer_set_rate (tcp_shift_flow_pacer_init flow_pacer_zero 0) (ad_pacing_rate_bytes_per_sec a))
     \<lparr>next_send_ns := pacing_next_send_ns a\<rparr>"

definition pacing_off :: "'s cc_sys \<Rightarrow> 's cc_sys" where
  "pacing_off s = (let s = scheduler_error s in s\<lparr>ad := (ad s)\<lparr>ad_pacing_rate_bytes_per_sec := 0, pacing_next_send_ns := 0\<rparr>\<rparr>)"

definition tcp_shift_pacing_note_tx :: "u16 \<Rightarrow> u64 \<Rightarrow> 's cc_sys \<Rightarrow> 's cc_sys" where
  "tcp_shift_pacing_note_tx payload now_ns s =
    (if payload = 0 \<or> ad_pacing_rate_bytes_per_sec (ad s) = 0 \<or> now_ns = 0 then s
     else case tcp_shift_flow_pacer_note_tx (flow_clock (ad s)) now_ns (ucast payload) of
       (r, flow) \<Rightarrow>
         if r < 0 then pacing_off s
         else
           let s = s\<lparr>ad := (ad s)\<lparr>pacing_next_send_ns := next_send_ns flow\<rparr>\<rparr>
           in with_pacing (\<lambda>t. t\<lparr>pacing_tx_events := pacing_tx_events t + 1, pacing_tx_bytes := pacing_tx_bytes t + ucast payload,
                pacing_last_rate_bytes_per_sec := ad_pacing_rate_bytes_per_sec (ad s),
                pacing_last_deadline_ns := pacing_next_send_ns (ad s)\<rparr>) s)"

definition tcp_shift_lwip_cc_effective_cwnd :: "nat \<Rightarrow> 's cc_sys \<Rightarrow> u32" where
  "tcp_shift_lwip_cc_effective_cwnd p s =
    (let cwnd = pcb_cwnd (pcb s); raw_inflight = pcb_snd_nxt (pcb s) - pcb_lastack (pcb s)
     in if \<not> ad_bound (ad s) \<or> ad_pcb (ad s) \<noteq> Some p then cwnd
        else if prr_active (ad_prr (ad s))
        then if raw_inflight > UINT32_MAX - prr_send_credit_bytes (ad s) then UINT32_MAX
             else raw_inflight + prr_send_credit_bytes (ad s)
        else if \<not> sack_delivery_policy (ad s) then cwnd
        else
          let actual_inflight = tcp_shift_delivery_outstanding_payload (ad s)
          in if actual_inflight \<ge> raw_inflight then cwnd
             else let credit = raw_inflight - actual_inflight
                  in if cwnd > UINT32_MAX - credit then UINT32_MAX else cwnd + credit)"

definition tcp_shift_lwip_cc_on_segment_send_eligible :: "nat \<Rightarrow> u16 \<Rightarrow> 's cc_sys \<Rightarrow> bool \<times> 's cc_sys" where
  "tcp_shift_lwip_cc_on_segment_send_eligible p payload s =
    (if \<not> ad_bound (ad s) \<or> ad_pcb (ad s) \<noteq> Some p \<or> payload = 0 then (True, s)
     else if prr_active (ad_prr (ad s)) \<and> ucast payload > prr_send_credit_bytes (ad s)
     then (False, with_recovery (\<lambda>t. t\<lparr>prr_send_blocks := prr_send_blocks t + 1\<rparr>) s)
     else if ad_pacing_rate_bytes_per_sec (ad s) = 0 then (True, s)
     else case tcp_shift_delivery_now_ns s of
       (now_ns, s) \<Rightarrow>
         if now_ns = 0 then (True, s)
         else
           let deadline = tcp_shift_flow_pacer_deadline (flow_clock (ad s)) now_ns
           in if deadline = 0 then (True, s)
              else if sv_ops (service s) = None \<or> pacing_flow_id (ad s) = 0 then (True, pacing_off s)
              else
                let (r, s) = (if \<not> pacing_scheduled (ad s)
                              then ask_pacer (Pacer_Schedule (pacing_flow_id (ad s)) (pacing_generation (ad s)) deadline (ucast payload)) s
                              else (0, s))
                in if r < 0 then (True, pacing_off s)
                   else
                     let s = s\<lparr>ad := (ad s)\<lparr>pacing_scheduled := True\<rparr>\<rparr>
                     in (False, with_pacing (\<lambda>t. t\<lparr>pacing_deferrals := pacing_deferrals t + 1,
                                  pacing_last_deadline_ns := deadline\<rparr>) s))"

end
