(* ===== verification/Adapter_Hooks.thy ===== *)
theory Adapter_Hooks
  imports Adapter_Recovery Bbr3_Evidence
begin

text \<open>
  The hooks that lwIP calls on a connection (\<^verbatim>\<open>src/lwip/cc_adapter.c\<close>), as they are installed in \<^verbatim>\<open>tcp_shift_lwip_cc_hook_ops\<close>:
  transmissions, acknowledgements, losses, ECN, timeouts and the end of recovery; then binding and releasing an
  adapter, and what the timers resume. A hook gets the identity of lwIP's control block; it acts only when that is the
  connection the adapter is bound to.
\<close>

section \<open>Transmissions\<close>

definition prr_note_tx :: "u16 \<Rightarrow> 's cc_sys \<Rightarrow> 's cc_sys" where
  "prr_note_tx payload s =
    (if \<not> prr_active (ad_prr (ad s)) then s
     else
       let (r, prr) = (if ucast payload > prr_send_credit_bytes (ad s) then (-1, ad_prr (ad s))
                       else tcp_shift_prr_on_send (ad_prr (ad s)) (ucast payload));
           s = s\<lparr>ad := (ad s)\<lparr>ad_prr := prr\<rparr>\<rparr>
       in if r \<noteq> 0
          then let s = with_events (\<lambda>t. t\<lparr>controller_errors := controller_errors t + 1\<rparr>) s
               in s\<lparr>ad := (ad s)\<lparr>prr_send_credit_bytes := 0\<rparr>\<rparr>
          else
            let s = s\<lparr>ad := (ad s)\<lparr>prr_send_credit_bytes := prr_send_credit_bytes (ad s) - ucast payload\<rparr>\<rparr>
            in with_recovery (\<lambda>t. t\<lparr>prr_tx_events := prr_tx_events t + 1, prr_tx_bytes := prr_tx_bytes t + ucast payload,
                 prr_last_sndcnt_bytes := prr_send_credit_bytes (ad s)\<rparr>) s)"

definition tx_gap_stats :: "u64 \<Rightarrow> 's cc_sys \<Rightarrow> 's cc_sys" where
  "tx_gap_stats now_ns s =
    (let last = delivery_last_tx_ns (st_delivery (stats s));
         s = (if last \<noteq> 0 \<and> now_ns \<ge> last
              then with_pacing (\<lambda>t. if now_ns - last > pacing_max_tx_gap_ns t then t\<lparr>pacing_max_tx_gap_ns := now_ns - last\<rparr> else t) s
              else s)
     in with_delivery (\<lambda>t. t\<lparr>delivery_last_tx_ns := now_ns\<rparr>) s)"

text \<open>The send-time snapshot of a slot, for a first transmission and for a retransmission.\<close>

definition stamp_slot :: "u64 \<Rightarrow> 's tcp_shift_lwip_cc_adapter \<Rightarrow> tcp_shift_delivery_slot \<Rightarrow> tcp_shift_delivery_slot" where
  "stamp_slot now_ns a sl =
    sl\<lparr>sl_tx_ns := now_ns,
       sl_first_tx_mstamp_at_send_ns := (if rate_first_tx_mstamp_ns a \<noteq> 0 then rate_first_tx_mstamp_ns a else now_ns),
       sl_delivered_at_send := ad_delivered_bytes a,
       sl_delivered_mstamp_at_send_ns := (if delivered_mstamp_ns a \<noteq> 0 then delivered_mstamp_ns a else now_ns),
       sl_app_limited := (app_limited_until_bytes a \<noteq> 0)\<rparr>"

definition retransmit_slot :: "u64 \<Rightarrow> nat \<Rightarrow> 's cc_sys \<Rightarrow> 's cc_sys" where
  "retransmit_slot now_ns i s =
    (let sl = delivery_slots (ad s) ! i;
         remainder = ucast (sl_payload_bytes sl - sl_acked_payload_bytes sl) :: u32;
         inflight = tcp_shift_delivery_outstanding_payload (ad s);
         inflight = (if inflight < remainder then remainder else inflight);
         sl' = (stamp_slot now_ns (ad s) sl)\<lparr>sl_prior_inflight_bytes := inflight, sl_rack_delivered := 0,
                 sl_rack_lost := (if now_ns > sl_tx_ns sl then False else sl_rack_lost sl), sl_retransmitted := True\<rparr>;
         s = with_delivery (\<lambda>t. (if sl_retransmitted sl
                  then t\<lparr>delivery_repeat_retransmit_events := delivery_repeat_retransmit_events t + 1\<rparr>
                  else t\<lparr>delivery_unique_retransmit_events := delivery_unique_retransmit_events t + 1\<rparr>)
                \<lparr>delivery_retransmit_events := delivery_retransmit_events t + 1\<rparr>) s
     in set_slot i sl' s)"

definition first_transmit :: "u64 \<Rightarrow> nat \<Rightarrow> u32 \<Rightarrow> u16 \<Rightarrow> 's cc_sys \<Rightarrow> 's cc_sys" where
  "first_transmit now_ns seg seq payload s =
    (case tcp_shift_delivery_create seg s of
       (None, s) \<Rightarrow> s
     | (Some i, s) \<Rightarrow>
         let inflight = pcb_snd_nxt (pcb s) - pcb_lastack (pcb s);
             inflight = (if UINT32_MAX - inflight < ucast payload then UINT32_MAX else inflight + ucast payload);
             sl = (stamp_slot now_ns (ad s) (delivery_slots (ad s) ! i))
                    \<lparr>sl_seq_start := seq, sl_prior_inflight_bytes := inflight, sl_payload_bytes := payload\<rparr>
         in with_delivery (\<lambda>t. t\<lparr>delivery_first_tx_events := delivery_first_tx_events t + 1\<rparr>) (set_slot i sl s))"

definition tcp_shift_lwip_cc_on_segment_tx :: "nat \<Rightarrow> nat option \<Rightarrow> u32 \<Rightarrow> u16 \<Rightarrow> 's cc_sys \<Rightarrow> 's cc_sys" where
  "tcp_shift_lwip_cc_on_segment_tx p seg seq payload s =
    (if ad_pcb (ad s) \<noteq> Some p \<or> seg = None \<or> payload = 0 then s
     else case tcp_shift_delivery_now_ns s of
       (now_ns, s) \<Rightarrow>
         if now_ns = 0 then s
         else
           let s = prr_note_tx payload s;
               s = tcp_shift_pacing_note_tx payload now_ns s;
               s = tx_gap_stats now_ns s;
               s = (if \<not> pcb_unacked (pcb s)
                    then s\<lparr>ad := (ad s)\<lparr>rate_first_tx_mstamp_ns := now_ns, delivered_mstamp_ns := now_ns\<rparr>\<rparr> else s)
           in case tcp_shift_delivery_find (ad s) (the seg) of
                Some i \<Rightarrow> retransmit_slot now_ns i s
              | None \<Rightarrow> first_transmit now_ns (the seg) seq payload s)"

text \<open>The observer of losses for BBRv3.\<close>

definition observed_loss :: "tcp_shift_delivery_slot \<Rightarrow> tcp_shift_bbr3_rack_loss" where
  "observed_loss sl = \<lparr>loss_generation = sl_tx_ns sl, loss_tx_ns = sl_tx_ns sl, loss_delivered_at_tx = sl_delivered_at_send sl,
     loss_seq_start = sl_seq_start sl, loss_tx_inflight_bytes = sl_prior_inflight_bytes sl,
     loss_newly_lost_bytes = sl_payload_bytes sl - sl_acked_payload_bytes sl, loss_retransmitted = sl_retransmitted sl,
     loss_app_limited = sl_app_limited sl, loss_probe_sample = False\<rparr>"

definition tcp_shift_lwip_cc_bbr3_observe_rack_loss ::
    "nat option \<Rightarrow> u64 \<Rightarrow> 's cc_sys \<Rightarrow> int \<times> tcp_shift_bbr3_rack_loss option \<times> 's cc_sys" where
  "tcp_shift_lwip_cc_bbr3_observe_rack_loss seg now_ns s =
    (if \<not> ad_bound (ad s) \<or> ad_pcb (ad s) = None \<or> \<not> sack_delivery_policy (ad s) \<or> \<not> pcb_sack (pcb s) \<or> seg = None \<or> now_ns = 0
     then (-1, None, s)
     else case tcp_shift_delivery_find (ad s) (the seg) of
       None \<Rightarrow> (0, None, s)
     | Some i \<Rightarrow>
         let sl = delivery_slots (ad s) ! i
         in if sl_rack_lost sl \<or> sl_acked_payload_bytes sl \<ge> sl_payload_bytes sl then (0, None, s)
            else if sl_tx_ns sl = 0 \<or> now_ns < sl_tx_ns sl then (-1, None, s)
            else case tcp_shift_rack_loss_remaining (ad_rack_tlp (ad s)) (tcp_shift_rack_slot_view sl) now_ns (in_recovery_of s) of
              (mature, rack, _) \<Rightarrow>
                let s = s\<lparr>ad := (ad s)\<lparr>ad_rack_tlp := rack\<rparr>\<rparr>
                in if mature = 0 then (0, None, s)
                   else (1, Some (observed_loss sl), set_slot i (sl\<lparr>sl_rack_lost := True\<rparr>) s))"

section \<open>Controller events\<close>

text \<open>A call to the controller and the application of its policy; a failure of either disables the adapter. The policy of
  the caller is uninitialised; the boundary overwrites it when the call succeeds.\<close>

definition policy_zero :: tcp_shift_cc_policy where
  "policy_zero = \<lparr>cwnd_bytes = 0, ssthresh_bytes = 0, pacing_rate_bytes_per_sec = 0\<rparr>"

definition apply_result :: "'s cc_call \<Rightarrow> 's cc_sys \<Rightarrow> bool \<times> tcp_shift_cc_policy \<times> 's cc_sys" where
  "apply_result call s =
    (case call of (r, cc, policy) \<Rightarrow>
       let s = s\<lparr>ad := (ad s)\<lparr>ad_controller := the cc\<rparr>\<rparr>
       in if r \<noteq> 0 then (False, the policy, tcp_shift_lwip_cc_disable_on_error s)
          else case tcp_shift_lwip_cc_apply_policy (the policy) s of
                 (r, s) \<Rightarrow> if r < 0 then (False, the policy, tcp_shift_lwip_cc_disable_on_error s) else (True, the policy, s))"

definition controller_ack :: "tcp_shift_cc_ack \<Rightarrow> 's cc_sys \<Rightarrow> bool \<times> tcp_shift_cc_policy \<times> 's cc_sys" where
  "controller_ack ack s = apply_result (tcp_shift_cc_on_ack (Some (ad_controller (ad s)))
     (Some (tcp_shift_lwip_cc_transport_from_adapter s)) (Some ack) (Some policy_zero)) s"

definition controller_loss :: "u32 \<Rightarrow> 's cc_sys \<Rightarrow> bool \<times> tcp_shift_cc_policy \<times> 's cc_sys" where
  "controller_loss n s = apply_result (tcp_shift_cc_on_loss (Some (ad_controller (ad s)))
     (Some (tcp_shift_lwip_cc_transport_from_adapter s)) (Some \<lparr>lost_bytes = n\<rparr>) (Some policy_zero)) s"

definition count_policy :: "(event_stats \<Rightarrow> event_stats) \<Rightarrow> 's cc_sys \<Rightarrow> 's cc_sys" where
  "count_policy f = with_events (\<lambda>t. (f t)\<lparr>policy_updates := policy_updates t + 1\<rparr>)"

definition tcp_shift_lwip_cc_on_tlp_loss :: "nat \<Rightarrow> u32 \<Rightarrow> 's cc_sys \<Rightarrow> int \<times> 's cc_sys" where
  "tcp_shift_lwip_cc_on_tlp_loss p n s =
    (if \<not> ad_bound (ad s) \<or> ad_pcb (ad s) \<noteq> Some p \<or> n = 0 then (0, s)
     else case controller_loss n s of
       (ok, _, s) \<Rightarrow> if \<not> ok then (0, s) else (1, count_policy (\<lambda>t. t\<lparr>loss_events := loss_events t + 1\<rparr>) s))"

text \<open>Whether lwIP finds the adapter's hooks at its control block.\<close>

definition hook_installed :: "'s cc_sys \<Rightarrow> bool" where
  "hook_installed s \<longleftrightarrow> pcb_ext_arg (pcb s) = Some (ad_id (ad s)) \<and> hook_ops (ad_hook (ad s))"

definition tcp_shift_lwip_cc_hook_tlp_loss :: "nat \<Rightarrow> u32 \<Rightarrow> 's cc_sys \<Rightarrow> int \<times> 's cc_sys" where
  "tcp_shift_lwip_cc_hook_tlp_loss p n s =
    (if \<not> hook_installed s \<or> n = 0 then (0, s) else tcp_shift_lwip_cc_on_tlp_loss p n s)"

definition srtt_of_sample :: "tcp_shift_cc_rate_sample \<Rightarrow> 's cc_sys \<Rightarrow> bool \<times> 's cc_sys" where
  "srtt_of_sample rate s =
    (if has_flag rate TCP_SHIFT_CC_RATE_SAMPLE_RTT_VALID \<and> rtt_ns rate \<noteq> 0
     then case tcp_shift_cc_srtt_update (ad_srtt (ad s)) (rtt_ns rate) of
            (r, srtt) \<Rightarrow>
              let s = s\<lparr>ad := (ad s)\<lparr>ad_srtt := srtt\<rparr>\<rparr>
              in if r \<noteq> 0 then (False, tcp_shift_lwip_cc_disable_on_error s)
                 else
                   let s = with_events (\<lambda>t. t\<lparr>srtt_updates := srtt_updates t + 1\<rparr>) s
                   in (True, s\<lparr>ad := (ad s)\<lparr>ad_rack_tlp := tcp_shift_tlp_note_rtt_sample (ad_rack_tlp (ad s))\<rparr>\<rparr>)
     else (True, s))"

definition rack_sync :: "'s cc_sys \<Rightarrow> 's cc_sys" where
  "rack_sync s = s\<lparr>ad := (ad s)\<lparr>ad_rack_tlp := tcp_shift_rack_set_rtt_estimates (ad_rack_tlp (ad s))
     (rack_min_rtt_ns (ad_rack_tlp (ad s))) (srtt_smoothed_rtt_ns (ad_srtt (ad s)))\<rparr>\<rparr>"

definition arm_timers :: "u64 \<Rightarrow> 's cc_sys \<Rightarrow> 's cc_sys" where
  "arm_timers now_ns s = tcp_shift_tlp_arm_pto now_ns (tcp_shift_rack_arm_detection_timer now_ns s)"

definition note_sacked :: "'s cc_sys \<Rightarrow> 's cc_sys" where
  "note_sacked s = s\<lparr>ad := (ad s)\<lparr>ad_rack_tlp :=
     tcp_shift_rack_note_sacked_segments (ad_rack_tlp (ad s)) (tcp_shift_rack_count_sacked_slots s)\<rparr>\<rparr>"

definition ack_observed :: "u64 \<Rightarrow> u64 \<Rightarrow> 's cc_sys \<Rightarrow> 's cc_sys" where
  "ack_observed now_ns srtt s = with_events (\<lambda>t. t\<lparr>ack_last_time_ns := now_ns, ack_last_smoothed_rtt_ns := srtt\<rparr>) s"

definition tlp_repair :: "nat \<Rightarrow> 's cc_sys \<Rightarrow> bool \<times> 's cc_sys" where
  "tlp_repair p s =
    (case tcp_shift_tlp_process_ack (ad_rack_tlp (ad s)) (pcb_lastack (pcb s)) False False of
       (result, rack) \<Rightarrow>
         let s = s\<lparr>ad := (ad s)\<lparr>ad_rack_tlp := rack\<rparr>\<rparr>
         in if result = TCP_SHIFT_TLP_ACK_LOSS_REPAIRED
            then case tcp_shift_lwip_cc_hook_tlp_loss p (ucast (pcb_mss (pcb s))) s of
                   (r, s) \<Rightarrow> if r = 0 then (False, tcp_shift_lwip_cc_disable_on_error s) else (True, s)
            else (True, s))"

definition tcp_shift_lwip_cc_prepare_ack :: "nat \<Rightarrow> u32 \<Rightarrow> 's cc_sys \<Rightarrow> tcp_shift_cc_ack option \<times> 's cc_sys" where
  "tcp_shift_lwip_cc_prepare_ack p acked s =
    (if \<not> ad_bound (ad s) \<or> ad_pcb (ad s) \<noteq> Some p \<or> acked = 0 then (None, s)
     else case tcp_shift_delivery_build_rate_sample s of
       (newly_delivered, rate, s) \<Rightarrow>
         let s = tcp_shift_lwip_cc_prr_note_delivery s;
             now_ns = delivery_last_clock_read_ns (ad s);
             s = note_sacked s;
             credited = (if sack_delivery_policy (ad s) then newly_delivered else acked)
         in case srtt_of_sample rate s of
              (ok, s) \<Rightarrow>
                if \<not> ok then (None, s)
                else
                  let srtt = srtt_smoothed_rtt_ns (ad_srtt (ad s))
                  in case tlp_repair p s of
                       (ok, s) \<Rightarrow>
                         if \<not> ok then (None, s)
                         else
                           let s = arm_timers now_ns (rack_sync s);
                               s = (if now_ns \<noteq> 0
                                    then with_events (\<lambda>t. t\<lparr>ack_observation_events := ack_observation_events t + 1\<rparr>) s else s)
                           in (Some \<lparr>acked_bytes = credited, ack_time_ns = now_ns, smoothed_rtt_ns = srtt, ack_rate = rate\<rparr>,
                               ack_observed now_ns srtt s))"

definition tcp_shift_lwip_cc_on_ack_observe :: "nat \<Rightarrow> u32 \<Rightarrow> 's cc_sys \<Rightarrow> int \<times> 's cc_sys" where
  "tcp_shift_lwip_cc_on_ack_observe p acked s =
    (case tcp_shift_lwip_cc_prepare_ack p acked s of
       (None, s) \<Rightarrow> (0, s)
     | (Some ack, s) \<Rightarrow>
         if prr_active (ad_prr (ad s))
         then let safe = (ad_stats (ad s) \<and> loss_events (st_events (stats s)) = prr_ack_loss_events_before (ad s))
              in case tcp_shift_lwip_cc_prr_apply_ack (prr_trigger_delivered_bytes (ad s)) safe s of
                   (r, s) \<Rightarrow> if r < 0 then (0, tcp_shift_lwip_cc_disable_on_error s) else (1, s)
         else (1, s))"

definition tcp_shift_lwip_cc_on_ack :: "nat \<Rightarrow> u32 \<Rightarrow> 's cc_sys \<Rightarrow> int \<times> 's cc_sys" where
  "tcp_shift_lwip_cc_on_ack p acked s =
    (case tcp_shift_lwip_cc_prepare_ack p acked s of
       (None, s) \<Rightarrow> (0, s)
     | (Some ack, s) \<Rightarrow>
         if sack_delivery_policy (ad s) \<and> acked_bytes ack = 0 then (1, s)
         else case controller_ack ack s of
                (ok, _, s) \<Rightarrow> if \<not> ok then (0, s) else (1, count_policy (\<lambda>t. t\<lparr>ack_events := ack_events t + 1\<rparr>) s))"

text \<open>A duplicate of an outstanding probe, seen in a D-SACK block.\<close>

definition dsack_of_probe :: "u32 \<Rightarrow> tcp_shift_lwip_sack_range list \<Rightarrow> 's cc_sys \<Rightarrow> 's cc_sys" where
  "dsack_of_probe ack_seq ranges s =
    (let rack = ad_rack_tlp (ad s)
     in if tlp_is_retrans rack \<and> tlp_end_seq rack \<noteq> 0 \<and>
           list_ex (\<lambda>r. sack_left r = tlp_start_seq rack \<and> sack_right r = tlp_end_seq rack \<and>
             sint (ack_seq - sack_right r) \<ge> 0) ranges
        then s\<lparr>ad := (ad s)\<lparr>ad_rack_tlp := snd (tcp_shift_tlp_process_ack rack ack_seq True False)\<rparr>\<rparr>
        else s)"

definition dsack_noted :: "u32 \<Rightarrow> tcp_shift_lwip_sack_range list \<Rightarrow> 's cc_sys \<Rightarrow> 's cc_sys" where
  "dsack_noted ack_seq ranges s =
    (if tcp_shift_rack_sack_is_dsack ack_seq ranges
     then let s = s\<lparr>ad := (ad s)\<lparr>ad_rack_tlp := tcp_shift_rack_note_dsack (ad_rack_tlp (ad s)) (pcb_snd_nxt (pcb s))\<rparr>\<rparr>
          in tcp_shift_rack_record_stats (with_recovery (\<lambda>t. t\<lparr>rack_dsack_events := rack_dsack_events t + 1\<rparr>) s)
     else s)"

definition sack_policy :: "tcp_shift_cc_ack \<Rightarrow> bool \<Rightarrow> 's cc_sys \<Rightarrow> int \<times> 's cc_sys" where
  "sack_policy ack defer_rack s =
    (case (if prr_active (ad_prr (ad s)) \<and> \<not> defer_rack
           then tcp_shift_lwip_cc_prr_apply_ack (prr_trigger_delivered_bytes (ad s)) False s else (0, s)) of
       (r, s) \<Rightarrow>
         if r < 0 then (0, tcp_shift_lwip_cc_disable_on_error s)
         else if \<not> sack_delivery_policy (ad s) then (1, s)
         else case controller_ack ack s of
                (ok, _, s) \<Rightarrow> if \<not> ok then (0, s) else (1, count_policy (\<lambda>t. t\<lparr>ack_events := ack_events t + 1\<rparr>) s))"

text \<open>What follows the accounting of the ranges.\<close>

definition sack_accounted :: "u32 \<Rightarrow> tcp_shift_lwip_sack_range list \<Rightarrow> bool \<Rightarrow> u32 \<Rightarrow> tcp_shift_cc_rate_sample \<Rightarrow> 's cc_sys \<Rightarrow> int \<times> 's cc_sys" where
  "sack_accounted ack_seq ranges defer_rack newly_delivered rate s =
    (let s = note_sacked (dsack_of_probe ack_seq ranges s);
         s = with_delivery (\<lambda>t. t\<lparr>delivery_sack_events := delivery_sack_events t + 1,
               delivery_sack_payload_bytes := delivery_sack_payload_bytes t + ucast newly_delivered\<rparr>) s;
         s = tcp_shift_lwip_cc_prr_note_delivery s
     in if newly_delivered = 0 then (1, s)
        else
          let now_ns = delivery_last_clock_read_ns (ad s)
          in case srtt_of_sample rate s of
               (ok, s) \<Rightarrow>
                 if \<not> ok then (0, s)
                 else
                   let srtt = srtt_smoothed_rtt_ns (ad_srtt (ad s));
                       s = rack_sync s;
                       s = (if \<not> defer_rack then arm_timers now_ns s else s);
                       s = with_events (\<lambda>t. t\<lparr>ack_observation_events := ack_observation_events t + 1\<rparr>) s;
                       s = ack_observed now_ns srtt s
                   in sack_policy \<lparr>acked_bytes = newly_delivered, ack_time_ns = now_ns, smoothed_rtt_ns = srtt,
                        ack_rate = rate\<rparr> defer_rack s)"

definition tcp_shift_lwip_cc_on_sack :: "nat \<Rightarrow> u32 \<Rightarrow> tcp_shift_lwip_sack_range list \<Rightarrow> 's cc_sys \<Rightarrow> int \<times> 's cc_sys" where
  "tcp_shift_lwip_cc_on_sack p ack_seq ranges s =
    (if \<not> ad_bound (ad s) \<or> ad_pcb (ad s) \<noteq> Some p \<or> ranges = [] then (0, s)
     else
       let s = dsack_noted ack_seq ranges s;
           defer_rack = (sint (ack_seq - pcb_lastack (pcb s)) > 0 \<and> sint (pcb_snd_nxt (pcb s) - ack_seq) \<ge> 0)
       in case tcp_shift_delivery_build_sack_rate_sample ranges (\<not> defer_rack) s of
            (newly_delivered, rate, s) \<Rightarrow> sack_accounted ack_seq ranges defer_rack newly_delivered rate s)"

definition tcp_shift_lwip_cc_on_tlp_dupack :: "nat \<Rightarrow> bool \<Rightarrow> 's cc_sys \<Rightarrow> 's cc_sys" where
  "tcp_shift_lwip_cc_on_tlp_dupack p sack_seen s =
    (if \<not> ad_bound (ad s) \<or> ad_pcb (ad s) \<noteq> Some p \<or> sack_seen then s
     else s\<lparr>ad := (ad s)\<lparr>ad_rack_tlp := snd (tcp_shift_tlp_process_ack (ad_rack_tlp (ad s)) (pcb_lastack (pcb s)) False True)\<rparr>\<rparr>)"

definition tcp_shift_lwip_cc_on_rack_retrans_loss :: "nat \<Rightarrow> u32 \<Rightarrow> 's cc_sys \<Rightarrow> int \<times> 's cc_sys" where
  "tcp_shift_lwip_cc_on_rack_retrans_loss p n s =
    (if \<not> ad_bound (ad s) \<or> ad_pcb (ad s) \<noteq> Some p \<or> n = 0 then (0, s)
     else case controller_loss n s of
       (ok, _, s) \<Rightarrow>
         if \<not> ok then (0, s)
         else let s = (if prr_active (ad_prr (ad s)) then snd (tcp_shift_lwip_cc_prr_begin p s) else s)
              in (1, count_policy (\<lambda>t. t\<lparr>loss_events := loss_events t + 1\<rparr>) s))"

definition tcp_shift_lwip_cc_on_loss :: "nat \<Rightarrow> u32 \<Rightarrow> 's cc_sys \<Rightarrow> int \<times> 's cc_sys" where
  "tcp_shift_lwip_cc_on_loss p n s =
    (if \<not> ad_bound (ad s) \<or> ad_pcb (ad s) \<noteq> Some p \<or> n = 0 then (0, s)
     else
       let s = s\<lparr>ad := (ad s)\<lparr>ad_rack_tlp := tcp_shift_tlp_reset (ad_rack_tlp (ad s))\<rparr>\<rparr>;
           s = cancel_probe_timer s
       in case controller_loss n s of
            (ok, _, s) \<Rightarrow>
              if \<not> ok then (0, s)
              else let s = snd (tcp_shift_lwip_cc_prr_begin p s)
                   in (1, count_policy (\<lambda>t. t\<lparr>loss_events := loss_events t + 1\<rparr>) s))"

definition tcp_shift_lwip_cc_on_ecn :: "nat \<Rightarrow> 's cc_sys \<Rightarrow> int \<times> 's cc_sys" where
  "tcp_shift_lwip_cc_on_ecn p s =
    (if \<not> ad_bound (ad s) \<or> ad_pcb (ad s) \<noteq> Some p then (0, s)
     else case apply_result (tcp_shift_cc_on_ecn (Some (ad_controller (ad s)))
                 (Some (tcp_shift_lwip_cc_transport_from_adapter s)) (Some policy_zero)) s of
       (ok, policy, s) \<Rightarrow>
         if \<not> ok then (0, s)
         else (1, count_policy (\<lambda>t. t\<lparr>ecn_events := ecn_events t + 1,
                 ecn_min_cwnd_bytes := (if ecn_min_cwnd_bytes t = 0 \<or> cwnd_bytes policy < ecn_min_cwnd_bytes t
                                        then cwnd_bytes policy else ecn_min_cwnd_bytes t)\<rparr>) s))"

definition tcp_shift_lwip_cc_on_ecn_rto_gate :: "nat \<Rightarrow> bool \<Rightarrow> 's cc_sys \<Rightarrow> 's cc_sys" where
  "tcp_shift_lwip_cc_on_ecn_rto_gate p entering s =
    (if \<not> ad_bound (ad s) \<or> ad_pcb (ad s) \<noteq> Some p then s
     else with_events (\<lambda>t. if entering then t\<lparr>ecn_rto_wait_enters := ecn_rto_wait_enters t + 1\<rparr>
                           else t\<lparr>ecn_rto_wait_releases := ecn_rto_wait_releases t + 1\<rparr>) s)"

definition tcp_shift_lwip_cc_rack_loss_status :: "nat \<Rightarrow> nat option \<Rightarrow> 's cc_sys \<Rightarrow> int \<times> u64 \<times> 's cc_sys" where
  "tcp_shift_lwip_cc_rack_loss_status p seg s =
    (if \<not> ad_bound (ad s) \<or> ad_pcb (ad s) \<noteq> Some p \<or> seg = None then (-1, 0, s)
     else case tcp_shift_delivery_find (ad s) (the seg) of
       None \<Rightarrow> (-1, 0, s)
     | Some i \<Rightarrow>
         let sl = delivery_slots (ad s) ! i
         in if sl_payload_bytes sl = 0 \<or> sl_acked_payload_bytes sl \<ge> sl_payload_bytes sl \<or> sl_tx_ns sl = 0 then (-1, 0, s)
            else case tcp_shift_delivery_now_ns s of
              (now_ns, s) \<Rightarrow>
                if now_ns = 0 then (-1, 0, s)
                else case tcp_shift_rack_loss_remaining (ad_rack_tlp (ad s)) (tcp_shift_rack_slot_view sl) now_ns (in_recovery_of s) of
                       (mature, rack, remaining) \<Rightarrow>
                         let s = s\<lparr>ad := (ad s)\<lparr>ad_rack_tlp := rack\<rparr>\<rparr>
                         in if mature \<noteq> 0 then (1, 0, s) else (0, remaining, s))"

definition prr_exit :: "'s cc_sys \<Rightarrow> int \<times> 's cc_sys" where
  "prr_exit s =
    (case tcp_shift_prr_complete (ad_prr (ad s)) 0 of
       (r, prr, cwnd) \<Rightarrow>
         let s = s\<lparr>ad := (ad s)\<lparr>ad_prr := prr\<rparr>\<rparr>
         in if r \<noteq> 0 \<or> cwnd = 0 \<or> cwnd > tcp_shift_lwip_cc_cwnd_limit then (-1, tcp_shift_lwip_cc_disable_on_error s)
            else
              let s = s\<lparr>pcb := (pcb s)\<lparr>pcb_cwnd := cwnd, pcb_bytes_acked := 0\<rparr>,
                        ad := (ad s)\<lparr>prr_send_credit_bytes := 0, prr_recover_fs_hint_valid := False\<rparr>\<rparr>;
                  s = with_recovery (\<lambda>t. t\<lparr>prr_recovery_exits := prr_recovery_exits t + 1\<rparr>) s
              in (1, with_events (\<lambda>t. t\<lparr>last_cwnd_bytes := cwnd\<rparr>) s))"

definition tcp_shift_lwip_cc_on_recovery_exit :: "nat \<Rightarrow> u32 \<Rightarrow> 's cc_sys \<Rightarrow> int \<times> 's cc_sys" where
  "tcp_shift_lwip_cc_on_recovery_exit p ack_seq s =
    (if \<not> ad_bound (ad s) \<or> ad_pcb (ad s) \<noteq> Some p then (0, s)
     else case (if prr_active (ad_prr (ad s)) then prr_exit s else (0, s)) of
       (r, s) \<Rightarrow>
         if r < 0 then (0, s)
         else let s = s\<lparr>ad := (ad s)\<lparr>ad_rack_tlp := tcp_shift_rack_note_recovery_exit (ad_rack_tlp (ad s)) ack_seq\<rparr>\<rparr>
              in (r, tcp_shift_rack_record_stats s))"

definition tcp_shift_lwip_cc_on_timeout :: "nat \<Rightarrow> 's cc_sys \<Rightarrow> int \<times> 's cc_sys" where
  "tcp_shift_lwip_cc_on_timeout p s =
    (if \<not> ad_bound (ad s) \<or> ad_pcb (ad s) \<noteq> Some p then (0, s)
     else
       let s = s\<lparr>ad := (ad s)\<lparr>ad_rack_tlp := tcp_shift_tlp_reset (ad_rack_tlp (ad s))\<rparr>\<rparr>;
           s = tcp_shift_lwip_cc_prr_reset_live (tcp_shift_recovery_timer_cancel s)
       in case apply_result (tcp_shift_cc_on_timeout (Some (ad_controller (ad s)))
                 (Some (tcp_shift_lwip_cc_transport_from_adapter s)) (Some policy_zero)) s of
            (ok, _, s) \<Rightarrow> if \<not> ok then (0, s) else (1, count_policy (\<lambda>t. t\<lparr>timeout_events := timeout_events t + 1\<rparr>) s))"

text \<open>The window is marked application limited when everything written is sent and the window is not full.\<close>

definition tcp_shift_lwip_cc_mark_app_limited :: "nat \<Rightarrow> 's cc_sys \<Rightarrow> 's cc_sys" where
  "tcp_shift_lwip_cc_mark_app_limited p s =
    (if pcb_ext_arg (pcb s) \<noteq> Some (ad_id (ad s)) \<or> \<not> ad_bound (ad s) \<or> ad_pcb (ad s) \<noteq> Some p \<or>
        app_limited_until_bytes (ad s) \<noteq> 0 \<or> pcb_unsent (pcb s) \<or> pcb_snd_buf (pcb s) = 0
     then s
     else
       let inflight = pcb_snd_nxt (pcb s) - pcb_lastack (pcb s);
           window = (if pcb_cwnd (pcb s) < pcb_snd_wnd (pcb s) then pcb_cwnd (pcb s) else pcb_snd_wnd (pcb s))
       in if window = 0 \<or> inflight \<ge> window then s
          else
            let marker = ad_delivered_bytes (ad s) + ucast (tcp_shift_delivery_outstanding_payload (ad s));
                s = s\<lparr>ad := (ad s)\<lparr>app_limited_until_bytes := (if marker = 0 then 1 else marker)\<rparr>\<rparr>;
                s = with_rate (\<lambda>t. t\<lparr>app_limited_enters := app_limited_enters t + 1\<rparr>) s
            in case tcp_shift_delivery_now_ns s of
                 (now_ns, s) \<Rightarrow> if now_ns \<noteq> 0 then tcp_shift_tlp_arm_pto now_ns s else s)"

section \<open>The entry points of lwIP\<close>

text \<open>The wrappers of \<^verbatim>\<open>cc_hooks.h\<close> that keep the recovery episode.\<close>

definition tcp_shift_lwip_cc_hook_loss :: "nat \<Rightarrow> u32 \<Rightarrow> 's cc_sys \<Rightarrow> bool \<times> 's cc_sys" where
  "tcp_shift_lwip_cc_hook_loss p n s =
    (if \<not> hook_installed s then (False, s)
     else case tcp_shift_lwip_cc_on_loss p n s of
       (r, s) \<Rightarrow> if r \<noteq> 0
                  then (True, s\<lparr>ad := (ad s)\<lparr>ad_hook := tcp_shift_lwip_cc_hook_recovery_mark_enter (pcb s) (ad_hook (ad s))\<rparr>\<rparr>)
                  else (False, s))"

definition tcp_shift_lwip_cc_hook_recovery_exit :: "nat \<Rightarrow> u32 \<Rightarrow> 's cc_sys \<Rightarrow> bool \<times> 's cc_sys" where
  "tcp_shift_lwip_cc_hook_recovery_exit p ack_seq s =
    (if pcb_ext_arg (pcb s) \<noteq> Some (ad_id (ad s)) then (False, s)
     else case (if recovery_active (ad_hook (ad s)) \<and> hook_ops (ad_hook (ad s))
                then tcp_shift_lwip_cc_on_recovery_exit p ack_seq s else (0, s)) of
       (r, s) \<Rightarrow> (r \<noteq> 0, s\<lparr>ad := (ad s)\<lparr>ad_hook := tcp_shift_lwip_cc_hook_recovery_mark_exit (ad_hook (ad s))\<rparr>\<rparr>))"

definition tcp_shift_lwip_cc_hook_timeout :: "nat \<Rightarrow> 's cc_sys \<Rightarrow> bool \<times> 's cc_sys" where
  "tcp_shift_lwip_cc_hook_timeout p s =
    (if \<not> hook_installed s then (False, s)
     else
       let owned = recovery_controller_owned (ad_hook (ad s))
       in case tcp_shift_lwip_cc_on_timeout p s of
            (r, s) \<Rightarrow>
              let handled = (r \<noteq> 0);
                  s = (if handled \<and> owned then s\<lparr>pcb := (pcb s)\<lparr>pcb_infr := False\<rparr>\<rparr> else s)
              in (handled, if handled \<or> recovery_active (ad_hook (ad s)) \<or> recovery_controller_owned (ad_hook (ad s))
                           then s\<lparr>ad := (ad s)\<lparr>ad_hook := tcp_shift_lwip_cc_hook_recovery_reset (ad_hook (ad s))\<rparr>\<rparr> else s))"

end
