(* ===== verification/Adapter_Life.thy ===== *)
theory Adapter_Life
  imports Adapter_Hooks Lwip_Io
begin

text \<open>
  The life of an adapter (\<^verbatim>\<open>src/lwip/cc_adapter.c\<close>): binding to a connection with the Reno controller, release, the listener that
  binds every accepted connection, and what the pacing and recovery timers resume. lwIP's own functions
  (\<^verbatim>\<open>tcp_output\<close>, the probe and the retransmission of its patches) are arguments, since they call the hooks again; so is
  the accept function of the application.
\<close>

section \<open>Binding\<close>

definition hook_zero :: tcp_shift_lwip_cc_hook where
  "hook_zero = \<lparr>hook_ops = False, recovery_enter_events = 0, recovery_exit_events = 0, recovery_end_seq = 0, recovery_active = False,
     recovery_exit_pending = False, recovery_controller_owned = False\<rparr>"

text \<open>\<^verbatim>\<open>memset(adapter, 0, sizeof(*adapter))\<close>; the identity of the object stays.\<close>

definition adapter_zero :: "nat \<Rightarrow> 's tcp_shift_lwip_cc_adapter" where
  "adapter_zero k = \<lparr>ad_id = k, ad_hook = hook_zero, ad_controller = \<lparr>cc_ops = None, cc_state = None\<rparr>,
     ad_srtt = \<lparr>srtt_smoothed_rtt_ns = 0, srtt_samples = 0\<rparr>, ad_rack_tlp = tcp_shift_rack_tlp_init\<lparr>reo_wnd_mult := 0\<rparr>,
     ad_prr = \<lparr>prr_delivered = 0, prr_out = 0, recover_fs = 0, prr_ssthresh = 0, prr_active = False\<rparr>,
     ad_stats = False, ad_pcb = None, delivery_slots = [], ad_delivered_bytes = 0, delivered_mstamp_ns = 0,
     delivery_last_event_ns = 0, delivery_last_clock_read_ns = 0, rate_first_tx_mstamp_ns = 0, app_limited_until_bytes = 0,
     ad_pacing_rate_bytes_per_sec = 0, pacing_next_send_ns = 0, pacing_flow_id = 0, recovery_timer_deadline_ns = 0,
     prr_ack_delivered_before = 0, prr_ack_loss_events_before = 0, pacing_generation = 0, recovery_timer_kind = 0,
     prr_recover_fs_hint = 0, prr_send_credit_bytes = 0, prr_trigger_delivered_bytes = 0, delivery_live = 0,
     pacing_scheduled = False, recovery_timer_scheduled = False, prr_recover_fs_hint_valid = False, ad_bound = False,
     heap_owned = False, sack_delivery_policy = False\<rparr>"

text \<open>The process-wide statistics are a static variable, zero at the start.\<close>

definition stats_zero :: tcp_shift_lwip_cc_stats where
  "stats_zero = \<lparr>st_events = \<lparr>bindings = 0, bind_failures = 0, ack_events = 0, loss_events = 0, ecn_events = 0, ecn_rto_wait_enters = 0,
       ecn_rto_wait_releases = 0, timeout_events = 0, policy_updates = 0, controller_errors = 0, ack_observation_events = 0,
       srtt_updates = 0, ack_last_time_ns = 0, ack_last_smoothed_rtt_ns = 0, ecn_min_cwnd_bytes = 0, last_cwnd_bytes = 0,
       last_ssthresh_bytes = 0\<rparr>,
     st_delivery = \<lparr>delivery_first_tx_events = 0, delivery_retransmit_events = 0, delivery_unique_retransmit_events = 0,
       delivery_repeat_retransmit_events = 0, delivery_acked_segment_events = 0, delivery_sack_events = 0,
       delivery_sack_payload_bytes = 0, delivery_payload_bytes = 0, delivery_metadata_alloc_failures = 0,
       delivery_metadata_misses = 0, delivery_metadata_abandoned_slots = 0, delivery_clock_errors = 0,
       delivery_timestamp_regressions = 0, delivery_last_tx_ns = 0, delivery_last_ack_ns = 0,
       delivery_metadata_bytes_per_slot = 0, delivery_live_slots = 0, delivery_peak_live_slots = 0,
       delivery_peak_slots_per_flow = 0, delivery_peak_capacity_slots_per_flow = 0\<rparr>,
     st_rate = \<lparr>rate_samples = 0, rate_valid_samples = 0, rate_invalid_samples = 0, rate_app_limited_samples = 0,
       rate_retransmitted_samples = 0, rate_partial_ack_events = 0, rate_multi_segment_ack_events = 0, rate_snapshot_samples = 0,
       rate_snapshot_errors = 0, app_limited_enters = 0, app_limited_exits = 0, rate_last_bytes_per_sec = 0,
       rate_max_bytes_per_sec = 0, rate_last_interval_ns = 0, rate_last_send_interval_ns = 0, rate_last_ack_interval_ns = 0,
       rate_last_rtt_ns = 0, rate_last_prior_delivered_bytes = 0, rate_last_delivered_total_bytes = 0,
       rate_last_delivered_bytes = 0, rate_last_prior_inflight_bytes = 0, rate_last_flags = 0\<rparr>,
     st_pacing = \<lparr>pacing_deferrals = 0, pacing_resume_events = 0, pacing_stale_releases = 0, pacing_scheduler_errors = 0,
       pacing_tx_events = 0, pacing_tx_bytes = 0, pacing_max_tx_gap_ns = 0, pacing_last_rate_bytes_per_sec = 0,
       pacing_last_deadline_ns = 0, pacing_last_actual_release_ns = 0\<rparr>,
     st_recovery = \<lparr>rack_dsack_events = 0, rack_reordering_events = 0, prr_recovery_enters = 0, prr_recovery_exits = 0,
       prr_ack_events = 0, prr_safe_ack_events = 0, prr_tx_events = 0, prr_tx_bytes = 0, prr_send_blocks = 0,
       rack_reo_wnd_mult = 0, rack_reo_wnd_mult_max = 0, rack_reo_wnd_persist = 0, prr_last_recover_fs_bytes = 0,
       prr_last_inflight_bytes = 0, prr_last_sndcnt_bytes = 0\<rparr>\<rparr>"

text \<open>The first part of \<^verbatim>\<open>tcp_shift_lwip_cc_adapter_bind\<close>: everything before the controller is initialised.\<close>

definition bind_prepare :: "bool \<Rightarrow> u32 \<Rightarrow> 's cc_sys \<Rightarrow> 's cc_sys" where
  "bind_prepare with_stats slot_bytes s =
    (let a = adapter_zero (ad_id (ad s));
         s = s\<lparr>ad := a\<lparr>ad_srtt := tcp_shift_cc_srtt_init (ad_srtt a), ad_rack_tlp := tcp_shift_rack_tlp_init,
                   ad_hook := (ad_hook a)\<lparr>hook_ops := True\<rparr>, ad_stats := with_stats, ad_pcb := Some (pcb_id (pcb s))\<rparr>\<rparr>
     in case tcp_shift_delivery_now_ns s of
          (now_ns, s) \<Rightarrow>
            let s = s\<lparr>ad := (ad s)\<lparr>delivered_mstamp_ns := now_ns\<rparr>\<rparr>
            in with_delivery (\<lambda>t. t\<lparr>delivery_metadata_bytes_per_slot := slot_bytes\<rparr>) s)"

definition bind_init_config :: "tcp_pcb \<Rightarrow> tcp_shift_cc_init_config" where
  "bind_init_config p =
    \<lparr>initial_cwnd_bytes = (if pcb_cwnd p < ucast (pcb_mss p) \<and> pcb_established p
                           then tcp_shift_lwip_cc_initial_cwnd (ucast (pcb_mss p)) else pcb_cwnd p),
     initial_ssthresh_bytes = pcb_ssthresh p, init_min_cwnd_bytes = ucast (pcb_mss p)\<rparr>"

definition bind_fail :: "'s cc_sys \<Rightarrow> int \<times> 's cc_sys" where
  "bind_fail s = (-1, s\<lparr>ad := (ad s)\<lparr>ad_pcb := None, ad_stats := False\<rparr>\<rparr>)"

definition bind_finish :: "'s cc_sys \<Rightarrow> int \<times> 's cc_sys" where
  "bind_finish s =
    (let s = s\<lparr>pcb := (pcb s)\<lparr>pcb_ext_arg := Some (ad_id (ad s))\<rparr>, ad := (ad s)\<lparr>ad_bound := True\<rparr>\<rparr>
     in (0, with_events (\<lambda>t. t\<lparr>bindings := bindings t + 1\<rparr>) s))"

text \<open>\<open>state\<close> is the memory of the controller, \<open>slot_bytes\<close> the size of a slot.\<close>

definition tcp_shift_lwip_cc_adapter_bind ::
    "bool \<Rightarrow> u32 \<Rightarrow> tcp_shift_reno_state \<Rightarrow> tcp_shift_reno_state cc_sys \<Rightarrow> int \<times> tcp_shift_reno_state cc_sys" where
  "tcp_shift_lwip_cc_adapter_bind with_stats slot_bytes state s =
    (if pcb_mss (pcb s) = 0 \<or> ad_pcb (ad s) \<noteq> None \<or> pcb_ext_arg (pcb s) \<noteq> None then (-1, s)
     else
       let s = bind_prepare with_stats slot_bytes s
       in case tcp_shift_cc_init (Some (ad_controller (ad s))) (Some tcp_shift_reno_ops) (Some state)
                 (ops_state_size tcp_shift_reno_ops) (Some (tcp_shift_lwip_cc_transport_from_adapter s))
                 (Some (bind_init_config (pcb s))) (Some policy_zero) of
            (r, cc, policy) \<Rightarrow>
              let s = s\<lparr>ad := (ad s)\<lparr>ad_controller := the cc\<rparr>\<rparr>
              in if r \<noteq> 0 then bind_fail s
                 else case tcp_shift_lwip_cc_apply_policy (the policy) s of
                   (r, s) \<Rightarrow>
                     if r < 0 then bind_fail s
                     else case tcp_shift_pacing_register s of
                            (r, s) \<Rightarrow> if r < 0 then bind_fail s else bind_finish s)"

definition tcp_shift_lwip_cc_adapter_unbind :: "'s cc_sys \<Rightarrow> 's cc_sys" where
  "tcp_shift_lwip_cc_adapter_unbind s =
    (if ad_pcb (ad s) = None then s
     else
       let s = (if pcb_ext_arg (pcb s) = Some (ad_id (ad s)) then s\<lparr>pcb := (pcb s)\<lparr>pcb_ext_arg := None\<rparr>\<rparr> else s);
           s = tcp_shift_delivery_release_all (tcp_shift_pacing_unregister s)
       in s\<lparr>ad := (ad s)\<lparr>ad_bound := False, ad_pcb := None\<rparr>\<rparr>)"

text \<open>lwIP destroys the connection; the adapter's memory is given back afterwards when it is its own.\<close>

definition tcp_shift_lwip_cc_pcb_destroyed :: "'s cc_sys \<Rightarrow> 's cc_sys" where
  "tcp_shift_lwip_cc_pcb_destroyed s =
    (if pcb_ext_arg (pcb s) \<noteq> Some (ad_id (ad s)) then s
     else let s = tcp_shift_delivery_release_all (tcp_shift_pacing_unregister s)
          in s\<lparr>ad := (ad s)\<lparr>ad_bound := False, ad_pcb := None\<rparr>\<rparr>)"

section \<open>Listeners\<close>

definition TCP_SHIFT_LWIP_CC_MAX_LISTENERS :: nat where
  "TCP_SHIFT_LWIP_CC_MAX_LISTENERS = 2"

record tcp_shift_lwip_cc_listener_binding =
  lb_listener :: "nat option"
  lb_accept :: "nat option"
  lb_callback_arg :: nat
  lb_used :: bool

definition listener_zero :: tcp_shift_lwip_cc_listener_binding where
  "listener_zero = \<lparr>lb_listener = None, lb_accept = None, lb_callback_arg = 0, lb_used = False\<rparr>"

text \<open>The memory of \<^verbatim>\<open>tcp_shift_lwip_cc_listeners\<close>, and the fields of a listening control block; an accept function is a number.\<close>

record lwip_listener =
  ls_id :: nat
  ls_listening :: bool
  ls_callback_arg :: nat
  ls_binding :: "nat option"
  ls_accept :: "nat option"

fun unused_listener :: "tcp_shift_lwip_cc_listener_binding list \<Rightarrow> nat option" where
  "unused_listener [] = None"
| "unused_listener (b # bs) = (if \<not> lb_used b then Some 0 else map_option Suc (unused_listener bs))"

text \<open>The listener's accept function becomes the dispatcher, whose number is \<open>dispatch\<close>; its callback argument
  the binding. With no binding left the listener accepts nothing, which the first result counts.\<close>

definition tcp_shift_lwip_cc_accept ::
    "nat \<Rightarrow> nat \<Rightarrow> tcp_shift_lwip_cc_listener_binding list \<Rightarrow> lwip_listener \<Rightarrow>
     u64 \<times> tcp_shift_lwip_cc_listener_binding list \<times> lwip_listener" where
  "tcp_shift_lwip_cc_accept dispatch accept listeners l =
    (if \<not> ls_listening l then (0, listeners, l\<lparr>ls_accept := Some accept\<rparr>)
     else case unused_listener listeners of
       None \<Rightarrow> (1, listeners, l\<lparr>ls_accept := None\<rparr>)
     | Some i \<Rightarrow>
         (0, listeners[i := \<lparr>lb_listener = Some (ls_id l), lb_accept = Some accept, lb_callback_arg = ls_callback_arg l, lb_used = True\<rparr>],
          l\<lparr>ls_binding := Some i, ls_accept := Some dispatch\<rparr>))"

definition tcp_shift_lwip_cc_listener_destroyed ::
    "nat option \<Rightarrow> tcp_shift_lwip_cc_listener_binding list \<Rightarrow> tcp_shift_lwip_cc_listener_binding list" where
  "tcp_shift_lwip_cc_listener_destroyed data listeners =
    (case data of None \<Rightarrow> listeners | Some i \<Rightarrow> listeners[i := listener_zero])"

text \<open>The dispatcher: \<open>arg\<close> the binding, \<open>newpcb\<close> whether lwIP gave a connection (the one of the state), \<open>allocated\<close> whether
  memory for an adapter was given. \<open>accept\<close> is the application's function. The last result is whether the connection
  was aborted.\<close>

definition tcp_shift_lwip_cc_accept_dispatch ::
    "(nat \<Rightarrow> bool \<Rightarrow> err_t \<Rightarrow> tcp_shift_reno_state cc_sys \<Rightarrow> err_t \<times> tcp_shift_reno_state cc_sys) \<Rightarrow> u32 \<Rightarrow> tcp_shift_reno_state \<Rightarrow>
     tcp_shift_lwip_cc_listener_binding option \<Rightarrow> bool \<Rightarrow> err_t \<Rightarrow> bool \<Rightarrow> tcp_shift_reno_state cc_sys \<Rightarrow>
     err_t \<times> tcp_shift_reno_state cc_sys \<times> bool" where
  "tcp_shift_lwip_cc_accept_dispatch accept slot_bytes state arg newpcb err allocated s =
    (let bind_failure = (\<lambda>s. s\<lparr>stats := (stats s)\<lparr>st_events := (st_events (stats s))
           \<lparr>bind_failures := bind_failures (st_events (stats s)) + 1\<rparr>\<rparr>\<rparr>)
     in case arg of
          None \<Rightarrow> if newpcb then (ERR_ABRT, s, True) else (ERR_VAL, s, False)
        | Some b \<Rightarrow>
            if \<not> lb_used b \<or> lb_accept b = None then (if newpcb then (ERR_ABRT, s, True) else (ERR_VAL, s, False))
            else if \<not> newpcb \<or> err \<noteq> ERR_OK
            then (case accept (lb_callback_arg b) newpcb err s of (r, s) \<Rightarrow> (r, s, False))
            else if \<not> allocated then (ERR_ABRT, bind_failure s, True)
            else
              let s = s\<lparr>ad := adapter_zero (ad_id (ad s))\<rparr>
              in case tcp_shift_lwip_cc_adapter_bind True slot_bytes state s of
                   (r, s) \<Rightarrow>
                     if r < 0 then (ERR_ABRT, bind_failure s, True)
                     else let s = s\<lparr>ad := (ad s)\<lparr>heap_owned := True\<rparr>\<rparr>
                          in case accept (lb_callback_arg b) newpcb err s of (r, s) \<Rightarrow> (r, s, False))"

section \<open>Resumption by the timers\<close>

text \<open>The adapter a timer event is for: the entry of its flow, if the generation is still the same. The state has one
  connection; an event for another one leaves it alone.\<close>

definition registry_find :: "tcp_shift_pacing_service \<Rightarrow> u64 \<Rightarrow> u32 \<Rightarrow> nat option" where
  "registry_find sv flow gen =
    (if flow = 0 \<or> unat flow > length (sv_entries sv) then None
     else let e = sv_entries sv ! unat (flow - 1)
          in if entry_adapter e = None \<or> entry_generation e \<noteq> gen then None else entry_adapter e)"

definition resume_output :: "('s cc_sys \<Rightarrow> err_t \<times> 's cc_sys) \<Rightarrow> u64 \<Rightarrow> 's cc_sys \<Rightarrow> 's cc_sys" where
  "resume_output output_fn release_ns s =
    (let s = s\<lparr>ad := (ad s)\<lparr>pacing_scheduled := False\<rparr>\<rparr>
     in if \<not> ad_bound (ad s) \<or> ad_pcb (ad s) = None
        then with_pacing (\<lambda>t. t\<lparr>pacing_stale_releases := pacing_stale_releases t + 1\<rparr>) s
        else
          let s = with_pacing (\<lambda>t. t\<lparr>pacing_resume_events := pacing_resume_events t + 1,
                    pacing_last_actual_release_ns := release_ns\<rparr>) s
          in case output_fn s of (err, s) \<Rightarrow> if err \<noteq> ERR_OK then scheduler_error s else s)"

definition tcp_shift_lwip_cc_resume_paced ::
    "('s cc_sys \<Rightarrow> err_t \<times> 's cc_sys) \<Rightarrow> u64 \<Rightarrow> u32 \<Rightarrow> u64 \<Rightarrow> 's cc_sys \<Rightarrow> 's cc_sys" where
  "tcp_shift_lwip_cc_resume_paced output_fn flow gen release_ns s =
    (case registry_find (service s) flow gen of
       None \<Rightarrow> s\<lparr>stats := (stats s)\<lparr>st_pacing := (st_pacing (stats s))
                  \<lparr>pacing_stale_releases := pacing_stale_releases (st_pacing (stats s)) + 1\<rparr>\<rparr>\<rparr>
     | Some k \<Rightarrow> if k = ad_id (ad s) then resume_output output_fn release_ns s else s)"

text \<open>\<open>probe\<close> gives lwIP's answer to a probe: its error and the first and last sequence number sent, and whether it was a
  retransmission.\<close>

definition restart_rto :: "'s cc_sys \<Rightarrow> 's cc_sys" where
  "restart_rto s = (if pcb_unacked (pcb s) then s\<lparr>pcb := (pcb s)\<lparr>pcb_rtime := 0\<rparr>\<rparr> else s)"

definition resume_probe ::
    "('s cc_sys \<Rightarrow> (err_t \<times> u32 \<times> u32 \<times> bool) \<times> 's cc_sys) \<Rightarrow> 's cc_sys \<Rightarrow> int \<times> 's cc_sys" where
  "resume_probe probe s =
    (if in_recovery_of s \<or> segs_sacked (ad_rack_tlp (ad s)) \<noteq> 0 then (0, s)
     else if \<not> tcp_shift_tlp_probe_allowed (ad_rack_tlp (ad s)) then (0, restart_rto s)
     else case probe s of
       ((err, start_seq, stop_seq, retrans), s) \<Rightarrow>
         let s = restart_rto s
         in if err \<noteq> ERR_OK then (if err = ERR_VAL then 0 else -1, s)
            else if stop_seq \<noteq> 0
            then (0, s\<lparr>ad := (ad s)\<lparr>ad_rack_tlp := tcp_shift_tlp_note_probe_sent (ad_rack_tlp (ad s)) start_seq stop_seq retrans\<rparr>\<rparr>)
            else (0, s))"

definition resume_rack :: "('s cc_sys \<Rightarrow> err_t \<times> 's cc_sys) \<Rightarrow> u64 \<Rightarrow> 's cc_sys \<Rightarrow> int \<times> 's cc_sys" where
  "resume_rack rexmit release_ns s =
    (case tcp_shift_rack_detection_deadline release_ns s of
       (deadline, s) \<Rightarrow>
         if deadline = 0 then (0, s)
         else if deadline > release_ns then (0, tcp_shift_rack_arm_detection_timer release_ns s)
         else case rexmit s of
           (err, s) \<Rightarrow>
             if err \<noteq> ERR_OK then (if err = ERR_VAL then 0 else -1, s)
             else case tcp_shift_delivery_now_ns s of
                    (now_ns, s) \<Rightarrow> (0, if now_ns \<noteq> 0 then tcp_shift_rack_arm_detection_timer now_ns s else s))"

definition tcp_shift_lwip_cc_resume_recovery_timer ::
    "('s cc_sys \<Rightarrow> (err_t \<times> u32 \<times> u32 \<times> bool) \<times> 's cc_sys) \<Rightarrow> ('s cc_sys \<Rightarrow> err_t \<times> 's cc_sys) \<Rightarrow>
     u64 \<Rightarrow> u32 \<Rightarrow> u32 \<Rightarrow> u64 \<Rightarrow> 's cc_sys \<Rightarrow> int \<times> 's cc_sys" where
  "tcp_shift_lwip_cc_resume_recovery_timer probe rexmit flow gen kind release_ns s =
    (case registry_find (service s) flow gen of
       None \<Rightarrow> (0, s)
     | Some k \<Rightarrow>
         if k \<noteq> ad_id (ad s) then (0, s)
         else
           let s = timer_forget True s
           in if \<not> ad_bound (ad s) \<or> ad_pcb (ad s) = None \<or> release_ns = 0 then (0, s)
              else if kind = TCP_SHIFT_LWIP_RECOVERY_TIMER_TLP then resume_probe probe s
              else if kind \<noteq> TCP_SHIFT_LWIP_RECOVERY_TIMER_RACK then (0, s)
              else resume_rack rexmit release_ns s)"

end
