(* ===== verification/Adapter_Entry.thy ===== *)
theory Adapter_Entry
  imports Adapter_Life
begin

text \<open>
  The entry points of \<^verbatim>\<open>src/lwip/cc_hooks.h\<close>, which lwIP's patched sources call: each one looks the hook up at the
  control block and passes the call on when the hook is there. Every function of the adapter's table is installed, so whether it has one
  is whether the adapter's table is. Then the calls as data, and what a sequence of them does to the state.
\<close>

section \<open>Entry points\<close>

definition tcp_shift_lwip_cc_hook_get :: "'s cc_sys \<Rightarrow> tcp_shift_lwip_cc_hook option" where
  "tcp_shift_lwip_cc_hook_get s = (if pcb_ext_arg (pcb s) = Some (ad_id (ad s)) then Some (ad_hook (ad s)) else None)"

definition tcp_shift_lwip_cc_hook_recovery_end_seq :: "'s cc_sys \<Rightarrow> u32 option" where
  "tcp_shift_lwip_cc_hook_recovery_end_seq s =
    (case tcp_shift_lwip_cc_hook_get s of
       None \<Rightarrow> None
     | Some hook \<Rightarrow> if \<not> recovery_active hook then None else Some (recovery_end_seq hook))"

definition tcp_shift_lwip_cc_hook_recovery_controller_owned :: "'s cc_sys \<Rightarrow> bool" where
  "tcp_shift_lwip_cc_hook_recovery_controller_owned s =
    (case tcp_shift_lwip_cc_hook_get s of None \<Rightarrow> False | Some hook \<Rightarrow> recovery_active hook \<and> recovery_controller_owned hook)"

definition tcp_shift_lwip_cc_hook_prr_active :: "nat \<Rightarrow> 's cc_sys \<Rightarrow> bool" where
  "tcp_shift_lwip_cc_hook_prr_active p s \<longleftrightarrow> hook_installed s \<and> tcp_shift_lwip_cc_prr_active p s"

definition tcp_shift_lwip_cc_hook_rack_loss_status :: "nat \<Rightarrow> nat option \<Rightarrow> 's cc_sys \<Rightarrow> int \<times> u64 \<times> 's cc_sys" where
  "tcp_shift_lwip_cc_hook_rack_loss_status p seg s =
    (if seg = None \<or> \<not> hook_installed s then (-1, 0, s) else tcp_shift_lwip_cc_rack_loss_status p seg s)"

definition tcp_shift_lwip_cc_hook_effective_cwnd :: "nat \<Rightarrow> u32 \<Rightarrow> 's cc_sys \<Rightarrow> u32" where
  "tcp_shift_lwip_cc_hook_effective_cwnd p native_cwnd s =
    (if \<not> hook_installed s then native_cwnd else tcp_shift_lwip_cc_effective_cwnd p s)"

definition tcp_shift_lwip_cc_hook_ack_begin :: "nat \<Rightarrow> 's cc_sys \<Rightarrow> 's cc_sys" where
  "tcp_shift_lwip_cc_hook_ack_begin p s = (if \<not> hook_installed s then s else tcp_shift_lwip_cc_prr_ack_begin p s)"

definition tcp_shift_lwip_cc_hook_ack :: "nat \<Rightarrow> u32 \<Rightarrow> 's cc_sys \<Rightarrow> bool \<times> 's cc_sys" where
  "tcp_shift_lwip_cc_hook_ack p acked s =
    (if \<not> hook_installed s then (False, s) else case tcp_shift_lwip_cc_on_ack p acked s of (r, s) \<Rightarrow> (r \<noteq> 0, s))"

definition tcp_shift_lwip_cc_hook_ack_observe :: "nat \<Rightarrow> u32 \<Rightarrow> 's cc_sys \<Rightarrow> bool \<times> 's cc_sys" where
  "tcp_shift_lwip_cc_hook_ack_observe p acked s =
    (if \<not> hook_installed s then (False, s) else case tcp_shift_lwip_cc_on_ack_observe p acked s of (r, s) \<Rightarrow> (r \<noteq> 0, s))"

definition tcp_shift_lwip_cc_hook_sack :: "nat \<Rightarrow> u32 \<Rightarrow> tcp_shift_lwip_sack_range list \<Rightarrow> 's cc_sys \<Rightarrow> bool \<times> 's cc_sys" where
  "tcp_shift_lwip_cc_hook_sack p ack_seq ranges s =
    (if \<not> hook_installed s \<or> ranges = [] then (False, s)
     else case tcp_shift_lwip_cc_on_sack p ack_seq ranges s of (r, s) \<Rightarrow> (r \<noteq> 0, s))"

definition tcp_shift_lwip_cc_hook_ecn :: "nat \<Rightarrow> 's cc_sys \<Rightarrow> bool \<times> 's cc_sys" where
  "tcp_shift_lwip_cc_hook_ecn p s =
    (if \<not> hook_installed s then (False, s) else case tcp_shift_lwip_cc_on_ecn p s of (r, s) \<Rightarrow> (r \<noteq> 0, s))"

definition tcp_shift_lwip_cc_hook_ecn_rto_gate :: "nat \<Rightarrow> bool \<Rightarrow> 's cc_sys \<Rightarrow> 's cc_sys" where
  "tcp_shift_lwip_cc_hook_ecn_rto_gate p entering s =
    (if \<not> hook_installed s then s else tcp_shift_lwip_cc_on_ecn_rto_gate p entering s)"

definition tcp_shift_lwip_cc_hook_rack_retrans_loss :: "nat \<Rightarrow> u32 \<Rightarrow> 's cc_sys \<Rightarrow> bool \<times> 's cc_sys" where
  "tcp_shift_lwip_cc_hook_rack_retrans_loss p n s =
    (if \<not> hook_installed s \<or> n = 0 then (False, s)
     else case tcp_shift_lwip_cc_on_rack_retrans_loss p n s of (r, s) \<Rightarrow> (r \<noteq> 0, s))"

definition tcp_shift_lwip_cc_hook_tlp_dupack :: "nat \<Rightarrow> bool \<Rightarrow> 's cc_sys \<Rightarrow> 's cc_sys" where
  "tcp_shift_lwip_cc_hook_tlp_dupack p sack_seen s =
    (if \<not> hook_installed s then s else tcp_shift_lwip_cc_on_tlp_dupack p sack_seen s)"

definition tcp_shift_lwip_cc_hook_segment_send_eligible :: "nat \<Rightarrow> u16 \<Rightarrow> 's cc_sys \<Rightarrow> bool \<times> 's cc_sys" where
  "tcp_shift_lwip_cc_hook_segment_send_eligible p payload s =
    (if \<not> hook_installed s then (True, s) else tcp_shift_lwip_cc_on_segment_send_eligible p payload s)"

definition tcp_shift_lwip_cc_hook_segment_tx :: "nat \<Rightarrow> nat option \<Rightarrow> u32 \<Rightarrow> u16 \<Rightarrow> 's cc_sys \<Rightarrow> 's cc_sys" where
  "tcp_shift_lwip_cc_hook_segment_tx p seg seq payload s =
    (if \<not> hook_installed s then s else tcp_shift_lwip_cc_on_segment_tx p seg seq payload s)"

definition tcp_shift_lwip_cc_hook_segment_acked :: "nat \<Rightarrow> nat option \<Rightarrow> u16 \<Rightarrow> 's cc_sys \<Rightarrow> 's cc_sys" where
  "tcp_shift_lwip_cc_hook_segment_acked p seg payload s =
    (if \<not> hook_installed s then s else tcp_shift_lwip_cc_on_segment_acked p seg payload s)"

section \<open>Sequences of calls\<close>

text \<open>The calls lwIP makes. \<open>Lwip_Moves\<close> is lwIP's own work between them: the fields of its control block change, but
  not the identity of the block nor the adapter installed there.\<close>

datatype hook_call =
    Ack_Begin
  | Ack u32
  | Ack_Observe u32
  | Sack u32 "tcp_shift_lwip_sack_range list"
  | Loss u32
  | Ecn
  | Ecn_Rto_Gate bool
  | Rack_Retrans_Loss u32
  | Tlp_Loss u32
  | Tlp_Dupack bool
  | Recovery_Exit u32
  | Timeout
  | Rack_Loss_Status "nat option"
  | Send_Eligible u16
  | Segment_Tx "nat option" u32 u16
  | Segment_Acked "nat option" u16
  | Mark_App_Limited
  | Lwip_Moves tcp_pcb

definition lwip_moves :: "tcp_pcb \<Rightarrow> 's cc_sys \<Rightarrow> 's cc_sys" where
  "lwip_moves p s = s\<lparr>pcb := p\<lparr>pcb_id := pcb_id (pcb s), pcb_ext_arg := pcb_ext_arg (pcb s)\<rparr>\<rparr>"

fun hook_step :: "hook_call \<Rightarrow> 's cc_sys \<Rightarrow> 's cc_sys" where
  "hook_step Ack_Begin s = tcp_shift_lwip_cc_hook_ack_begin (pcb_id (pcb s)) s"
| "hook_step (Ack n) s = snd (tcp_shift_lwip_cc_hook_ack (pcb_id (pcb s)) n s)"
| "hook_step (Ack_Observe n) s = snd (tcp_shift_lwip_cc_hook_ack_observe (pcb_id (pcb s)) n s)"
| "hook_step (Sack a rs) s = snd (tcp_shift_lwip_cc_hook_sack (pcb_id (pcb s)) a rs s)"
| "hook_step (Loss n) s = snd (tcp_shift_lwip_cc_hook_loss (pcb_id (pcb s)) n s)"
| "hook_step Ecn s = snd (tcp_shift_lwip_cc_hook_ecn (pcb_id (pcb s)) s)"
| "hook_step (Ecn_Rto_Gate b) s = tcp_shift_lwip_cc_hook_ecn_rto_gate (pcb_id (pcb s)) b s"
| "hook_step (Rack_Retrans_Loss n) s = snd (tcp_shift_lwip_cc_hook_rack_retrans_loss (pcb_id (pcb s)) n s)"
| "hook_step (Tlp_Loss n) s = snd (tcp_shift_lwip_cc_hook_tlp_loss (pcb_id (pcb s)) n s)"
| "hook_step (Tlp_Dupack b) s = tcp_shift_lwip_cc_hook_tlp_dupack (pcb_id (pcb s)) b s"
| "hook_step (Recovery_Exit a) s = snd (tcp_shift_lwip_cc_hook_recovery_exit (pcb_id (pcb s)) a s)"
| "hook_step Timeout s = snd (tcp_shift_lwip_cc_hook_timeout (pcb_id (pcb s)) s)"
| "hook_step (Rack_Loss_Status seg) s = snd (snd (tcp_shift_lwip_cc_hook_rack_loss_status (pcb_id (pcb s)) seg s))"
| "hook_step (Send_Eligible n) s = snd (tcp_shift_lwip_cc_hook_segment_send_eligible (pcb_id (pcb s)) n s)"
| "hook_step (Segment_Tx seg q n) s = tcp_shift_lwip_cc_hook_segment_tx (pcb_id (pcb s)) seg q n s"
| "hook_step (Segment_Acked seg n) s = tcp_shift_lwip_cc_hook_segment_acked (pcb_id (pcb s)) seg n s"
| "hook_step Mark_App_Limited s = tcp_shift_lwip_cc_mark_app_limited (pcb_id (pcb s)) s"
| "hook_step (Lwip_Moves p) s = lwip_moves p s"

section \<open>A connection to try things on\<close>

text \<open>A fresh connection with a clock that advances by a millisecond at each reading, and the adapter bound to it.\<close>

definition demo_pcb :: tcp_pcb where
  "demo_pcb = \<lparr>pcb_id = 5, pcb_mss = 1000, pcb_cwnd = 10000, pcb_ssthresh = 60000, pcb_bytes_acked = 0, pcb_snd_nxt = 1000,
     pcb_lastack = 1000, pcb_snd_wnd = 50000, pcb_snd_buf = 50000, pcb_rto = 6, pcb_rtime = 0, pcb_sack = True, pcb_infr = False,
     pcb_unacked = False, pcb_unsent = False, pcb_established = True, pcb_ext_arg = None\<rparr>"

definition demo_env :: cc_env where
  "demo_env = \<lparr>env_clock = map (\<lambda>k. Some (1, k * 1000000)) [1, 2, 3, 4, 5, 6, 7, 8, 9, 10, 11, 12], env_alloc = [True, True, True, True],
     env_pacer = [], env_timer = replicate 20 0, env_slow_interval = 500, env_log = []\<rparr>"

definition demo_unbound :: "tcp_shift_reno_state cc_sys" where
  "demo_unbound = \<lparr>ad = adapter_zero 3, pcb = demo_pcb, stats = stats_zero,
     service = \<lparr>sv_ops = Some 1, sv_entries = [], sv_active = 0\<rparr>, recovery_ops = Some 2, env = demo_env\<rparr>"

definition demo_bound :: "tcp_shift_reno_state cc_sys" where
  "demo_bound = snd (tcp_shift_lwip_cc_adapter_bind True 64
     \<lparr>reno_cwnd_bytes = 0, reno_ssthresh_bytes = 0, reno_ca_acked_bytes = 0, reno_min_cwnd_bytes = 0\<rparr> demo_unbound)"

end
