(* ===== verification/Adapter_Frame.thy ===== *)
theory Adapter_Frame
  imports Adapter_Entry
begin

text \<open>
  What the helpers of the adapter leave alone. The \<open>core\<close> of a state has what the guarantees are about: the
  \<open>bond\<close>, which is the binding, the controller, the recovery state and lwIP's control block; and the \<open>books\<close>, which are the
  segment, size and acknowledged part of every delivery slot, and the bytes delivered. Clocks, statistics, timers, the pacing registry and RACK do not touch it.
\<close>

type_synonym slot_key = "nat option \<times> u16 \<times> u16"

definition slot_key :: "tcp_shift_delivery_slot \<Rightarrow> slot_key" where
  "slot_key sl = (sl_segment sl, sl_payload_bytes sl, sl_acked_payload_bytes sl)"

definition books :: "'s cc_sys \<Rightarrow> slot_key list \<times> u64" where
  "books s = (map slot_key (delivery_slots (ad s)), ad_delivered_bytes (ad s))"

definition bond :: "'s cc_sys \<Rightarrow> nat \<times> bool \<times> nat option \<times> 's tcp_shift_cc \<times> tcp_shift_lwip_cc_hook \<times> tcp_shift_prr \<times> bool \<times> tcp_pcb" where
  "bond s = (ad_id (ad s), ad_bound (ad s), ad_pcb (ad s), ad_controller (ad s), ad_hook (ad s), ad_prr (ad s),
     sack_delivery_policy (ad s), pcb s)"

definition core :: "'s cc_sys \<Rightarrow> (nat \<times> bool \<times> nat option \<times> 's tcp_shift_cc \<times> tcp_shift_lwip_cc_hook \<times> tcp_shift_prr \<times> bool \<times> tcp_pcb) \<times>
    (slot_key list \<times> u64)" where
  "core s = (bond s, books s)"

lemmas core_defs = core_def bond_def books_def

lemma core_eq: "core s' = core s \<longleftrightarrow> bond s' = bond s \<and> books s' = books s"
  by (simp add: core_def)

lemma core_with [simp]:
  "core (with_events f1 s) = core s" "core (with_delivery f2 s) = core s" "core (with_rate f3 s) = core s"
  "core (with_pacing f4 s) = core s" "core (with_recovery f5 s) = core s"
  by (simp_all add: core_defs with_events_def with_delivery_def with_rate_def with_pacing_def with_recovery_def)

lemma core_ask [simp]:
  "core (snd (ask_clock s)) = core s" "core (snd (ask_alloc s)) = core s" "core (snd (ask_pacer c s)) = core s"
  "core (snd (ask_timer c s)) = core s"
  by (simp_all add: core_defs ask_clock_def ask_alloc_def ask_pacer_def ask_timer_def split: prod.split)

text \<open>An update of fields outside the core.\<close>

lemma core_ad [simp]:
  assumes "ad_id a = ad_id (ad s)" "ad_bound a = ad_bound (ad s)" "ad_pcb a = ad_pcb (ad s)"
    "ad_controller a = ad_controller (ad s)" "ad_hook a = ad_hook (ad s)" "ad_prr a = ad_prr (ad s)"
    "map slot_key (delivery_slots a) = map slot_key (delivery_slots (ad s))"
    "ad_delivered_bytes a = ad_delivered_bytes (ad s)" "sack_delivery_policy a = sack_delivery_policy (ad s)"
  shows "core (s\<lparr>ad := a\<rparr>) = core s"
  using assms by (simp add: core_defs)

lemma core_updates [simp]:
  "core (s\<lparr>stats := st\<rparr>) = core s" "core (s\<lparr>service := sv\<rparr>) = core s" "core (s\<lparr>env := e\<rparr>) = core s"
  "core (s\<lparr>recovery_ops := o'\<rparr>) = core s"
  by (simp_all add: core_defs)

lemma core_now [simp]: "core (snd (tcp_shift_delivery_now_ns s)) = core s"
proof -
  let ?s = "s\<lparr>ad := (ad s)\<lparr>delivery_last_clock_read_ns := 0\<rparr>\<rparr>"
  obtain r s1 where c: "ask_clock ?s = (r, s1)" by fastforce
  have "core s1 = core s" using core_ask(1) [of ?s] by (simp add: c)
  then show ?thesis by (cases r) (auto simp: tcp_shift_delivery_now_ns_def c Let_def)
qed

lemma core_scheduler_error [simp]: "core (scheduler_error s) = core s"
  by (simp add: scheduler_error_def)

lemma core_pacing_cancel [simp]: "core (tcp_shift_pacing_cancel s) = core s"
  by (simp add: tcp_shift_pacing_cancel_def case_prod_beta Let_def)

lemma core_timer_cancel [simp]: "core (tcp_shift_recovery_timer_cancel s) = core s"
  by (simp add: tcp_shift_recovery_timer_cancel_def Let_def)

lemma core_register [simp]: "core (snd (tcp_shift_pacing_register s)) = core s"
proof -
  have t: "core (take_entry i s) = core s" for i and s :: "'a cc_sys" by (simp add: take_entry_def core_defs Let_def)
  have g: "core (snd (tcp_shift_pacing_registry_grow s)) = core s" for s :: "'a cc_sys"
    by (simp add: tcp_shift_pacing_registry_grow_def case_prod_beta Let_def)
  show ?thesis by (simp add: tcp_shift_pacing_register_def case_prod_beta t g split: option.split)
qed

lemma core_unregister [simp]: "core (tcp_shift_pacing_unregister s) = core s"
  by (simp add: tcp_shift_pacing_unregister_def Let_def)

section \<open>RACK, timers and pacing\<close>

lemma pick_slot_in_range:
  assumes "pick_slot ok before i best sls = Some (j, sl)"
  shows "best = Some (j, sl) \<or> i \<le> j \<and> j < i + length sls \<and> sls ! (j - i) = sl"
  using assms
proof (induction sls arbitrary: i best)
  case (Cons x xs)
  from Cons.IH [OF Cons.prems [unfolded pick_slot.simps]] show ?case
    by (auto simp: Suc_diff_Suc nth_Cons' split: if_split_asm option.split_asm)
qed simp

lemma core_set_slot [simp]:
  assumes "i < length (delivery_slots (ad s))" "slot_key sl = slot_key (delivery_slots (ad s) ! i)"
  shows "core (set_slot i sl s) = core s"
  using assms by (simp add: set_slot_def map_update list_update_same_conv)

lemma core_record_stats [simp]: "core (tcp_shift_rack_record_stats s) = core s"
  by (simp add: tcp_shift_rack_record_stats_def Let_def)

lemma core_rack_time_pass [simp]: "core (rack_time_pass n now_ns s) = core s"
proof (induction n arbitrary: s)
  case (Suc n)
  have "core (rack_time_slot now_ns i sl s) = core s" if "pick_slot ok before 0 None (delivery_slots (ad s)) = Some (i, sl)"
    for i sl ok before
    using pick_slot_in_range [OF that] by (simp add: rack_time_slot_def Let_def slot_key_def)
  with Suc show ?case by (auto split: option.split)
qed simp

lemma slots_with [simp]: "delivery_slots (ad (with_recovery f s)) = delivery_slots (ad s)"
  "delivery_slots (ad (tcp_shift_rack_record_stats s)) = delivery_slots (ad s)"
  by (simp_all add: with_recovery_def tcp_shift_rack_record_stats_def Let_def)

lemma core_rack_order_pass [simp]: "core (rack_order_pass n s) = core s"
proof (induction n arbitrary: s)
  case (Suc n)
  have "core (rack_order_slot i sl s) = core s" if "pick_slot ok before 0 None (delivery_slots (ad s)) = Some (i, sl)"
    for i sl ok before
    using pick_slot_in_range [OF that] by (simp add: rack_order_slot_def Let_def slot_key_def)
  with Suc show ?case by (auto split: option.split)
qed simp

lemma core_rack_process [simp]: "core (tcp_shift_rack_process_delivered_slots now_ns s) = core s"
  by (simp add: tcp_shift_rack_process_delivered_slots_def Let_def)

lemma core_scan_slots [simp]: "core (snd (scan_slots now_ns s)) = core s"
  by (simp add: scan_slots_def case_prod_beta)

lemma core_detection_deadline [simp]: "core (snd (tcp_shift_rack_detection_deadline now_ns s)) = core s"
  by (simp add: tcp_shift_rack_detection_deadline_def case_prod_beta Let_def)

lemma core_timer [simp]: "core (timer_forget b s) = core s" "core (snd (timer_replace b s)) = core s"
  "core (timer_start t k s) = core s" "core (cancel_probe_timer s) = core s"
  by (simp_all add: timer_forget_def timer_replace_def timer_start_def cancel_probe_timer_def case_prod_beta)

text \<open>A branch keeps the core when both of its ends do.\<close>

lemma core_branch: "core (if b then s1 else s2) = (if b then core s1 else core s2)"
  "core (snd (if b then x1 else x2)) = (if b then core (snd x1) else core (snd x2))"
  by simp_all

lemma core_let: "core (Let x f) = (let y = x in core (f y))" "core (snd (Let x g)) = (let y = x in core (snd (g y)))"
  by (simp_all add: Let_def)

lemmas core_flow = core_branch core_let case_prod_beta

lemma core_arm_rack [simp]: "core (tcp_shift_rack_arm_detection_timer now_ns s) = core s"
  by (simp add: tcp_shift_rack_arm_detection_timer_def core_flow cong: if_cong split del: if_split)

lemma core_arm_pto [simp]: "core (tcp_shift_tlp_arm_pto now_ns s) = core s"
  by (simp add: tcp_shift_tlp_arm_pto_def core_flow cong: if_cong split del: if_split)

lemma core_arm [simp]: "core (arm_timers now_ns s) = core s"
  by (simp add: arm_timers_def)

lemma core_pacing [simp]: "core (pacing_off s) = core s" "core (tcp_shift_pacing_note_tx n now_ns s) = core s"
  "core (tx_gap_stats now_ns s) = core s"
  by (simp_all add: pacing_off_def tcp_shift_pacing_note_tx_def tx_gap_stats_def case_prod_beta Let_def)

lemma core_send_eligible [simp]: "core (snd (tcp_shift_lwip_cc_on_segment_send_eligible p n s)) = core s"
  by (simp add: tcp_shift_lwip_cc_on_segment_send_eligible_def case_prod_beta Let_def)

lemma core_prr [simp]: "core (tcp_shift_lwip_cc_prr_note_delivery s) = core s" "core (snd (tcp_shift_lwip_cc_prr_inflight s)) = core s"
  "core (tcp_shift_lwip_cc_prr_ack_begin p s) = core s"
  by (simp_all add: tcp_shift_lwip_cc_prr_note_delivery_def tcp_shift_lwip_cc_prr_inflight_def
    tcp_shift_lwip_cc_prr_ack_begin_def case_prod_beta Let_def)

lemma core_ack_steps [simp]: "core (rack_sync s) = core s" "core (note_sacked s) = core s" "core (ack_observed t r s) = core s"
  "core (dsack_of_probe a rs s) = core s" "core (dsack_noted a rs s) = core s" "core (count_policy f s) = core s"
  "core (tcp_shift_lwip_cc_on_tlp_dupack p b s) = core s" "core (tcp_shift_lwip_cc_on_ecn_rto_gate p b s) = core s"
  by (simp_all add: rack_sync_def note_sacked_def ack_observed_def dsack_of_probe_def dsack_noted_def count_policy_def
    tcp_shift_lwip_cc_on_tlp_dupack_def tcp_shift_lwip_cc_on_ecn_rto_gate_def Let_def)

lemma core_loss_status [simp]: "core (snd (snd (tcp_shift_lwip_cc_rack_loss_status p seg s))) = core s"
  by (simp add: tcp_shift_lwip_cc_rack_loss_status_def case_prod_beta Let_def split: option.split)

lemma core_mark_app_limited [simp]: "core (tcp_shift_lwip_cc_mark_app_limited p s) = core s"
  by (simp add: tcp_shift_lwip_cc_mark_app_limited_def case_prod_beta Let_def)

text \<open>The same facts for the two halves.\<close>

lemmas frames [simp] = core_with [unfolded core_eq] core_ask [unfolded core_eq] core_ad [unfolded core_eq]
  core_updates [unfolded core_eq] core_now [unfolded core_eq] core_scheduler_error [unfolded core_eq]
  core_pacing_cancel [unfolded core_eq] core_timer_cancel [unfolded core_eq] core_register [unfolded core_eq]
  core_unregister [unfolded core_eq] core_set_slot [unfolded core_eq] core_record_stats [unfolded core_eq]
  core_rack_process [unfolded core_eq] core_scan_slots [unfolded core_eq] core_detection_deadline [unfolded core_eq]
  core_timer [unfolded core_eq] core_arm_rack [unfolded core_eq] core_arm_pto [unfolded core_eq] core_arm [unfolded core_eq]
  core_pacing [unfolded core_eq] core_send_eligible [unfolded core_eq] core_prr [unfolded core_eq]
  core_ack_steps [unfolded core_eq] core_loss_status [unfolded core_eq] core_mark_app_limited [unfolded core_eq]

end
