(* ===== verification/Adapter_Ledger.thy ===== *)
theory Adapter_Ledger
  imports Adapter_Frame
begin

text \<open>
  The delivery ledger of \<^verbatim>\<open>src/lwip/cc_adapter.c\<close>: over any sequence of hook calls every payload byte of a tracked segment is
  credited at most once, and every byte is either delivered, still outstanding, or was given up with its segment.
\<close>

section \<open>Hooks that leave the books alone\<close>

lemma books_branch: "books (if b then s1 else s2) = (if b then books s1 else books s2)"
  "books (snd (if b then x1 else x2)) = (if b then books (snd x1) else books (snd x2))"
  "books (snd (snd (if b then y1 else y2))) = (if b then books (snd (snd y1)) else books (snd (snd y2)))"
  "books (Let x f) = (let y = x in books (f y))" "books (snd (Let x g)) = (let y = x in books (snd (g y)))"
  "books (snd (snd (Let x h))) = (let y = x in books (snd (snd (h y))))"
  by (simp_all add: Let_def)

lemmas books_flow = books_branch case_prod_beta

lemma books_pcb [simp]: "books (s\<lparr>pcb := p\<rparr>) = books s"
  by (simp add: books_def)

lemma books_ad [simp]:
  assumes "map slot_key (delivery_slots a) = map slot_key (delivery_slots (ad s))" "ad_delivered_bytes a = ad_delivered_bytes (ad s)"
  shows "books (s\<lparr>ad := a\<rparr>) = books s"
  using assms by (simp add: books_def)

lemma books_policy [simp]: "books (snd (tcp_shift_lwip_cc_apply_policy policy s)) = books s"
  "books (tcp_shift_lwip_cc_disable_on_error s) = books s"
  by (simp_all add: tcp_shift_lwip_cc_apply_policy_def tcp_shift_lwip_cc_disable_on_error_def Let_def)

lemma books_apply_result [simp]: "books (snd (snd (apply_result call s))) = books s"
  by (simp add: apply_result_def books_flow cong: if_cong split del: if_split)

lemma books_controller [simp]: "books (snd (snd (controller_ack ack s))) = books s" "books (snd (snd (controller_loss n s))) = books s"
  by (simp_all add: controller_ack_def controller_loss_def)

lemma books_prr [simp]: "books (tcp_shift_lwip_cc_prr_reset_live s) = books s" "books (prr_note_tx n s) = books s"
  "books (snd (prr_exit s)) = books s"
  by (simp_all add: tcp_shift_lwip_cc_prr_reset_live_def prr_note_tx_def prr_exit_def books_flow cong: if_cong split del: if_split)

lemma books_prr_apply_ack [simp]: "books (snd (tcp_shift_lwip_cc_prr_apply_ack n safe s)) = books s"
  by (simp add: tcp_shift_lwip_cc_prr_apply_ack_def books_flow cong: if_cong split del: if_split)

lemma books_prr_begin [simp]: "books (snd (tcp_shift_lwip_cc_prr_begin p s)) = books s"
  by (simp add: tcp_shift_lwip_cc_prr_begin_def books_flow cong: if_cong split del: if_split)

lemma books_losses [simp]: "books (snd (tcp_shift_lwip_cc_on_tlp_loss p n s)) = books s"
  "books (snd (tcp_shift_lwip_cc_hook_tlp_loss p n s)) = books s"
  "books (snd (tcp_shift_lwip_cc_on_rack_retrans_loss p n s)) = books s"
  "books (snd (tcp_shift_lwip_cc_on_loss p n s)) = books s"
  by (simp_all add: tcp_shift_lwip_cc_on_tlp_loss_def tcp_shift_lwip_cc_hook_tlp_loss_def tcp_shift_lwip_cc_on_rack_retrans_loss_def
    tcp_shift_lwip_cc_on_loss_def books_flow cong: if_cong split del: if_split)

lemma books_events [simp]: "books (snd (tcp_shift_lwip_cc_on_ecn p s)) = books s"
  "books (snd (tcp_shift_lwip_cc_on_timeout p s)) = books s" "books (snd (tcp_shift_lwip_cc_on_recovery_exit p a s)) = books s"
  by (simp_all add: tcp_shift_lwip_cc_on_ecn_def tcp_shift_lwip_cc_on_timeout_def tcp_shift_lwip_cc_on_recovery_exit_def
    books_flow cong: if_cong split del: if_split)

lemma books_ack_parts [simp]: "books (snd (srtt_of_sample rate s)) = books s" "books (snd (tlp_repair p s)) = books s"
  "books (snd (sack_policy ack d s)) = books s"
  by (simp_all add: srtt_of_sample_def tlp_repair_def sack_policy_def books_flow cong: if_cong split del: if_split)

section \<open>Crediting\<close>

fun key_left :: "slot_key \<Rightarrow> nat" where
  "key_left (seg, payload, acked) = (if seg \<noteq> None \<and> payload > acked then unat (payload - acked) else 0)"

fun key_ok :: "slot_key \<Rightarrow> bool" where
  "key_ok (seg, payload, acked) \<longleftrightarrow> acked \<le> payload"

fun key_segment :: "slot_key \<Rightarrow> nat option \<times> u16" where
  "key_segment (seg, payload, acked) = (seg, payload)"

definition left_of :: "slot_key list \<Rightarrow> nat" where
  "left_of ks = sum_list (map key_left ks)"

lemma slot_outstanding_key: "slot_outstanding sl = key_left (slot_key sl)"
  by (simp add: slot_outstanding_def slot_key_def)

text \<open>From the first books to the second, bytes of the same segments were credited, each of them once.\<close>

definition credited :: "slot_key list \<times> u64 \<Rightarrow> slot_key list \<times> u64 \<Rightarrow> bool" where
  "credited b b' \<longleftrightarrow> map key_segment (fst b') = map key_segment (fst b) \<and> (list_all key_ok (fst b) \<longrightarrow> list_all key_ok (fst b')) \<and>
     (\<exists>n. left_of (fst b) = left_of (fst b') + n \<and> snd b' = snd b + of_nat n)"

lemma credited_refl [simp]: "credited b b"
  unfolding credited_def by (intro conjI exI [of _ 0]) simp_all

definition valid_credit :: "(tcp_shift_delivery_slot \<Rightarrow> u16 option) \<Rightarrow> bool" where
  "valid_credit c \<longleftrightarrow> (\<forall>sl a. c sl = Some a \<longrightarrow> sl_segment sl \<noteq> None \<and> sl_acked_payload_bytes sl < a \<and> a \<le> sl_payload_bytes sl)"

lemma valid_ack_credit [simp]: "valid_credit (ack_credit ack_seq)"
proof -
  have "ucast d \<le> n" if "d < ucast n" for d :: u32 and n :: u16
  proof -
    have "unat (ucast d :: u16) \<le> unat d" by (simp add: unsigned_ucast_eq)
    then show ?thesis using that by (simp add: word_le_nat_alt word_less_nat_alt)
  qed
  then have "tcp_shift_delivery_acked_payload sl ack_seq \<le> sl_payload_bytes sl" for sl
    by (simp add: tcp_shift_delivery_acked_payload_def Let_def linorder_not_le)
  then show ?thesis by (auto simp: valid_credit_def ack_credit_def Let_def split: if_split_asm)
qed

lemma valid_sack_credit [simp]: "valid_credit (sack_credit ranges)"
  by (auto simp: valid_credit_def sack_credit_def split: if_split_asm)

lemma key_left_credit:
  assumes "seg \<noteq> None" "acked < a" "a \<le> payload"
  shows "key_left (seg, payload, acked) = key_left (seg, payload, a) + unat (a - acked)"
  using assms by (auto simp: unat_sub word_less_nat_alt word_le_nat_alt)

lemma credit_slots_exact:
  assumes "valid_credit c" "credit_slots c acc sls = (sls', acc')"
  shows "credited (map slot_key sls, acc_added acc) (map slot_key sls', acc_added acc')"
  using assms(2)
proof (induction sls arbitrary: acc sls')
  case Nil
  then show ?case by simp
next
  case (Cons sl sls)
  show ?case
  proof (cases "c sl")
    case None
    then obtain r where r: "credit_slots c acc sls = (r, acc')" "sls' = sl # r" using Cons.prems by (auto split: prod.split_asm)
    show ?thesis using Cons.IH [OF r(1)] by (auto simp: credited_def left_of_def r(2))
  next
    case (Some a)
    then obtain acc1 r where r: "credit_slots c acc1 sls = (r, acc')" "sls' = sl\<lparr>sl_acked_payload_bytes := a\<rparr> # r"
      "acc_added acc1 = acc_added acc + ucast (a - sl_acked_payload_bytes sl)"
      using Cons.prems by (auto simp: Let_def split: prod.split_asm)
    have v: "sl_segment sl \<noteq> None" "sl_acked_payload_bytes sl < a" "a \<le> sl_payload_bytes sl"
      using assms(1) Some unfolding valid_credit_def by blast+
    obtain n where n: "left_of (map slot_key sls) = left_of (map slot_key r) + n" "acc_added acc' = acc_added acc1 + of_nat n"
      using Cons.IH [OF r(1)] by (auto simp: credited_def)
    have k: "key_left (slot_key sl) = key_left (slot_key (sl\<lparr>sl_acked_payload_bytes := a\<rparr>)) + unat (a - sl_acked_payload_bytes sl)"
      using key_left_credit [OF v] by (simp add: slot_key_def)
    have "left_of (map slot_key (sl # sls)) = left_of (map slot_key sls') + (unat (a - sl_acked_payload_bytes sl) + n)"
      using k n(1) by (simp add: left_of_def r(2))
    moreover have "acc_added acc' = acc_added acc + of_nat (unat (a - sl_acked_payload_bytes sl) + n)"
      using n(2) by (simp add: r(3) unsigned_ucast_eq)
    moreover have "map key_segment (map slot_key sls') = map key_segment (map slot_key (sl # sls)) \<and>
        (list_all key_ok (map slot_key (sl # sls)) \<longrightarrow> list_all key_ok (map slot_key sls'))"
      using Cons.IH [OF r(1)] v(3) by (simp add: credited_def r(2) slot_key_def [of sl] slot_key_def [of "sl\<lparr>sl_acked_payload_bytes := a\<rparr>"])
    ultimately show ?thesis unfolding credited_def fst_conv snd_conv by blast
  qed
qed

lemma credit_pass_exact:
  assumes "valid_credit c" "credit_pass c s = (acc, s')"
  shows "credited (books s) (fst (books s'), snd (books s') + acc_added acc)" "snd (books s') = snd (books s)"
proof -
  obtain sls where c: "credit_slots c acc_zero (delivery_slots (ad s)) = (sls, acc)" "s' = s\<lparr>ad := (ad s)\<lparr>delivery_slots := sls\<rparr>\<rparr>"
    using assms(2) by (auto simp: credit_pass_def split: prod.split_asm)
  show "credited (books s) (fst (books s'), snd (books s') + acc_added acc)" "snd (books s') = snd (books s)"
    using credit_slots_exact [OF assms(1) c(1)] by (auto simp: credited_def books_def c(2) acc_zero_def)
qed

lemma books_progress:
  "books (snd (tcp_shift_delivery_finalize_rate_sample cand n now_ns touched partial rt s)) = (fst (books s), snd (books s) + n)"
proof -
  have p: "books (note_progress n now_ns touched partial s) = (fst (books s), snd (books s) + n)"
    by (simp add: note_progress_def Let_def books_def with_rate_def with_delivery_def)
  have r: "books (tcp_shift_rate_record_stats r s) = books s" for r and s :: "'a cc_sys"
    by (simp add: tcp_shift_rate_record_stats_def)
  show ?thesis by (cases "n = 0"; cases cand) (simp_all add: tcp_shift_delivery_finalize_rate_sample_def Let_def p r)
qed

lemma credited_sample:
  assumes "valid_credit c" "books s0 = books s" "credit_pass c s0 = (acc, s1)" "books s2 = books s1"
  shows "credited (books s) (books (snd (tcp_shift_delivery_finalize_rate_sample cand (acc_added acc) now_ns touched partial rt s2)))"
  using credit_pass_exact [OF assms(1,3)] by (simp add: books_progress assms(2,4))

lemma credited_build_rate_sample: "credited (books s) (books (snd (snd (tcp_shift_delivery_build_rate_sample s))))"
proof -
  obtain now_ns s0 where n: "tcp_shift_delivery_now_ns s = (now_ns, s0)" by fastforce
  obtain acc s1 where c: "credit_pass (ack_credit (pcb_lastack (pcb s0))) s0 = (acc, s1)" by fastforce
  have b: "books s0 = books s" using core_now [of s] by (simp add: n core_eq)
  show ?thesis
    using credited_sample [OF valid_ack_credit b c, of "tcp_shift_rack_process_delivered_slots now_ns s1"]
    by (simp add: tcp_shift_delivery_build_rate_sample_def n c b case_prod_beta)
qed

lemma credited_build_sack_rate_sample: "credited (books s) (books (snd (snd (tcp_shift_delivery_build_sack_rate_sample rs pr s))))"
proof -
  obtain now_ns s0 where n: "tcp_shift_delivery_now_ns s = (now_ns, s0)" by fastforce
  obtain acc s1 where c: "credit_pass (sack_credit rs) s0 = (acc, s1)" by fastforce
  have b: "books s0 = books s" using core_now [of s] by (simp add: n core_eq)
  have k: "credited (books s) (books (snd (tcp_shift_delivery_finalize_rate_sample cand (acc_added acc) now_ns touched False rt s2)))"
    if "books s2 = books s1" for cand touched rt s2
    by (rule credited_sample [OF valid_sack_credit b c that])
  show ?thesis by (simp add: tcp_shift_delivery_build_sack_rate_sample_def n c b case_prod_beta k)
qed

lemma credited_prepare_ack: "credited (books s) (books (snd (tcp_shift_lwip_cc_prepare_ack p n s)))"
proof -
  have "books (snd (tcp_shift_lwip_cc_prepare_ack p n s)) =
      (if \<not> ad_bound (ad s) \<or> ad_pcb (ad s) \<noteq> Some p \<or> n = 0 then books s else books (snd (snd (tcp_shift_delivery_build_rate_sample s))))"
    by (simp add: tcp_shift_lwip_cc_prepare_ack_def books_flow cong: if_cong split del: if_split)
  then show ?thesis using credited_build_rate_sample [of s] by simp
qed

lemma credited_on_ack: "credited (books s) (books (snd (tcp_shift_lwip_cc_on_ack p n s)))"
  "credited (books s) (books (snd (tcp_shift_lwip_cc_on_ack_observe p n s)))"
proof -
  have "books (snd (tcp_shift_lwip_cc_on_ack p n s)) = books (snd (tcp_shift_lwip_cc_prepare_ack p n s))"
    by (simp add: tcp_shift_lwip_cc_on_ack_def books_flow cong: if_cong split del: if_split split: option.split)
  then show "credited (books s) (books (snd (tcp_shift_lwip_cc_on_ack p n s)))" using credited_prepare_ack [of s] by simp
  have "books (snd (tcp_shift_lwip_cc_on_ack_observe p n s)) = books (snd (tcp_shift_lwip_cc_prepare_ack p n s))"
    by (simp add: tcp_shift_lwip_cc_on_ack_observe_def books_flow cong: if_cong split del: if_split split: option.split)
  then show "credited (books s) (books (snd (tcp_shift_lwip_cc_on_ack_observe p n s)))" using credited_prepare_ack [of s] by simp
qed

lemma credited_on_sack: "credited (books s) (books (snd (tcp_shift_lwip_cc_on_sack p a rs s)))"
proof (cases "\<not> ad_bound (ad s) \<or> ad_pcb (ad s) \<noteq> Some p \<or> rs = []")
  case True
  then show ?thesis by (auto simp: tcp_shift_lwip_cc_on_sack_def)
next
  case False
  have a: "books (snd (sack_accounted a rs d n r s)) = books s" for d n r and s :: "'a cc_sys"
    by (simp add: sack_accounted_def books_flow cong: if_cong split del: if_split)
  show ?thesis
    using False credited_build_sack_rate_sample [of "dsack_noted a rs s"]
    by (simp add: tcp_shift_lwip_cc_on_sack_def Let_def case_prod_beta a)
qed

section \<open>Tracking and giving up\<close>

text \<open>No segment has two slots, and no slot acknowledged more than it has.\<close>

definition single :: "slot_key list \<Rightarrow> bool" where
  "single ks \<longleftrightarrow> (\<forall>i < length ks. \<forall>j < length ks. fst (ks ! i) = fst (ks ! j) \<longrightarrow> fst (ks ! i) \<noteq> None \<longrightarrow> i = j)"

definition books_ok :: "slot_key list \<Rightarrow> bool" where
  "books_ok ks \<longleftrightarrow> list_all key_ok ks \<and> single ks"

definition is_tracked :: "'s cc_sys \<Rightarrow> nat \<Rightarrow> bool" where
  "is_tracked s seg \<longleftrightarrow> tcp_shift_delivery_find (ad s) seg \<noteq> None"

lemma slot_index_Some:
  assumes "slot_index g sls = Some i"
  shows "i < length sls" "sl_segment (sls ! i) = g"
  using assms by (induction sls arbitrary: i) (auto split: if_split_asm)

lemma slot_index_None: "slot_index g sls = None \<longleftrightarrow> g \<notin> sl_segment ` set sls"
  by (induction sls) auto

lemma fst_slot_key [simp]: "fst (slot_key sl) = sl_segment sl"
  by (simp add: slot_key_def)

lemma is_tracked_books: "is_tracked s seg \<longleftrightarrow> Some seg \<in> fst ` set (fst (books s))"
  by (auto simp: is_tracked_def tcp_shift_delivery_find_def slot_index_None books_def image_image)

lemma left_of_update:
  assumes "i < length ks"
  shows "left_of (ks[i := k]) + key_left (ks ! i) = left_of ks + key_left k"
proof -
  have "key_left (ks ! i) \<le> left_of ks" using elem_le_sum_list [of i "map key_left ks"] assms by (simp add: left_of_def)
  then show ?thesis using assms by (simp add: left_of_def map_update sum_list_update)
qed

lemma single_update:
  assumes "single ks" "fst k = None \<or> (\<forall>j < length ks. fst (ks ! j) \<noteq> fst k)"
  shows "single (ks[i := k])"
proof -
  have k: "fst (ks[i := k] ! j) = (if j = i then fst k else fst (ks ! j))" if "j < length ks" for j
    using that by (simp add: nth_list_update)
  have "m = j" if "m < length ks" "j < length ks" "fst (ks[i := k] ! m) = fst (ks[i := k] ! j)" "fst (ks[i := k] ! m) \<noteq> None" for m j
    using that assms unfolding single_def k [OF that(1)] k [OF that(2)] by (cases "m = i"; cases "j = i") auto
  then show ?thesis unfolding single_def by simp
qed

lemma list_all_update: "list_all P xs \<Longrightarrow> P x \<Longrightarrow> list_all P (xs[i := x])"
  using set_update_subset_insert [of xs i x] by (auto simp: list_all_iff)

text \<open>Empty slots at the end change nothing.\<close>

lemma grown_books:
  assumes "ks' = ks @ replicate n (None, 0, 0)"
  shows "left_of ks' = left_of ks" "books_ok ks \<Longrightarrow> books_ok ks'" "Some seg \<in> fst ` set ks' \<longleftrightarrow> Some seg \<in> fst ` set ks"
proof -
  show "left_of ks' = left_of ks" by (simp add: assms left_of_def sum_list_replicate)
  show "books_ok ks'" if "books_ok ks" using that unfolding books_ok_def single_def by (auto simp: assms nth_append list_all_iff)
  show "Some seg \<in> fst ` set ks' \<longleftrightarrow> Some seg \<in> fst ` set ks" by (auto simp: assms)
qed

lemma slot_key_zero [simp]: "slot_key slot_zero = (None, 0, 0)"
  by (simp add: slot_key_def slot_zero_def)

lemma books_grow: "\<exists>n. books (snd (tcp_shift_delivery_grow s)) = (fst (books s) @ replicate n (None, 0, 0), snd (books s))"
proof (cases "next_slot_capacity (of_nat (length (delivery_slots (ad s)))) = 0 \<or> \<not> fst (ask_alloc s)")
  case True
  then have "books (snd (tcp_shift_delivery_grow s)) = books s" by (auto simp: tcp_shift_delivery_grow_def case_prod_beta Let_def)
  then show ?thesis by (intro exI [of _ 0]) simp
next
  case False
  have "ad (snd (ask_alloc s)) = ad s" by (simp add: ask_alloc_def case_prod_beta)
  with False show ?thesis
    by (intro exI [of _ "unat (next_slot_capacity (of_nat (length (delivery_slots (ad s))))) - length (delivery_slots (ad s))"])
      (simp add: tcp_shift_delivery_grow_def case_prod_beta Let_def books_def with_delivery_def map_replicate_const)
qed

lemma create_books:
  assumes "tcp_shift_delivery_create seg s = (r, s')"
  shows "\<exists>n ks. ks = fst (books s) @ replicate n (None, 0, 0) \<and>
    (case r of None \<Rightarrow> books s' = (ks, snd (books s))
     | Some i \<Rightarrow> i < length ks \<and> fst (ks ! i) = None \<and> books s' = (ks[i := (Some seg, 0, 0)], snd (books s)))"
proof -
  obtain g s1 where g: "(if tcp_shift_delivery_empty_slot (ad s) = None then tcp_shift_delivery_grow s else (0, s)) = (g, s1)" by fastforce
  obtain n where n: "books s1 = (fst (books s) @ replicate n (None, 0, 0), snd (books s))"
  proof (cases "tcp_shift_delivery_empty_slot (ad s) = None")
    case True
    then show ?thesis using books_grow [of s] g that by auto
  next
    case False
    then show ?thesis using g that [of 0] by auto
  qed
  have w: "books (note_live_slot s) = books s" for s :: "'a cc_sys" by (simp add: note_live_slot_def Let_def)
  have u: "books (s\<lparr>ad := (ad s)\<lparr>delivery_slots := (delivery_slots (ad s))[i := sl], delivery_live := m\<rparr>\<rparr>) =
      ((fst (books s))[i := slot_key sl], snd (books s))" for s :: "'a cc_sys" and i sl m
    by (simp add: books_def map_update)
  have z: "slot_key (slot_zero\<lparr>sl_segment := Some seg\<rparr>) = (Some seg, 0, 0)" by (simp add: slot_key_def slot_zero_def)
  obtain e where e: "tcp_shift_delivery_empty_slot (ad s1) = e" by simp
  consider "r = None" "books s' = books s1"
    | i where "r = Some i" "tcp_shift_delivery_empty_slot (ad s1) = Some i"
        "books s' = ((fst (books s1))[i := (Some seg, 0, 0)], snd (books s1))"
    using assms unfolding tcp_shift_delivery_create_def g Let_def case_prod_conv e
    by (cases e) (auto simp: w u z split: if_split_asm)
  then show ?thesis
  proof cases
    case 1
    then show ?thesis using n by (intro exI [of _ n]) simp
  next
    case (2 i)
    have "i < length (delivery_slots (ad s1))" "sl_segment (delivery_slots (ad s1) ! i) = None"
      using 2(2) slot_index_Some unfolding tcp_shift_delivery_empty_slot_def by blast+
    then have "i < length (fst (books s1)) \<and> fst (fst (books s1) ! i) = None" by (simp add: books_def)
    then show ?thesis using 2(1,3) n by (intro exI [of _ n]) simp
  qed
qed

text \<open>One call: what it tracks anew, what it gives up and what it credits add up.\<close>

definition balanced :: "nat \<Rightarrow> nat \<Rightarrow> 's cc_sys \<Rightarrow> 's cc_sys \<Rightarrow> bool" where
  "balanced tracked dropped s s' \<longleftrightarrow> books_ok (fst (books s')) \<and>
     (\<exists>n. left_of (fst (books s)) + tracked = left_of (fst (books s')) + dropped + n \<and> snd (books s') = snd (books s) + of_nat n)"

lemma balanced_credited:
  assumes "books_ok (fst (books s))" "credited (books s) (books s')"
  shows "balanced 0 0 s s'"
proof -
  have k: "map key_segment (fst (books s')) = map key_segment (fst (books s))" using assms(2) by (simp add: credited_def)
  then have l: "length (fst (books s')) = length (fst (books s))" using map_eq_imp_length_eq by blast
  have "fst (fst (books s') ! i) = fst (fst (books s) ! i)" if "i < length (fst (books s))" for i
  proof -
    have "key_segment (fst (books s') ! i) = key_segment (fst (books s) ! i)" using k that l by (metis nth_map)
    then show ?thesis by (cases "fst (books s') ! i"; cases "fst (books s) ! i") simp
  qed
  then have "single (fst (books s'))" using assms(1) by (auto simp: books_ok_def single_def l)
  then show ?thesis using assms by (auto simp: balanced_def credited_def books_ok_def)
qed

lemma balanced_same: "books_ok (fst (books s)) \<Longrightarrow> books s' = books s \<Longrightarrow> balanced 0 0 s s'"
  by (rule balanced_credited) simp_all

lemma books_set_slot:
  "books (set_slot i sl s) = ((fst (books s))[i := slot_key sl], snd (books s))"
  by (simp add: set_slot_def books_def map_update)

lemma books_retransmit:
  assumes "tcp_shift_delivery_find (ad s) seg = Some i"
  shows "books (retransmit_slot now_ns i s) = books s"
proof -
  have "i < length (fst (books s))" "fst (books s) ! i = slot_key (delivery_slots (ad s) ! i)"
    using slot_index_Some [OF assms [unfolded tcp_shift_delivery_find_def]] by (simp_all add: books_def)
  then show ?thesis
    by (simp add: retransmit_slot_def Let_def books_set_slot stamp_slot_def slot_key_def prod_eq_iff list_update_same_conv)
qed

lemma first_transmit_balanced:
  assumes "books_ok (fst (books s))" "\<not> is_tracked s seg" "s' = first_transmit now_ns seg q n s"
  shows "balanced (if is_tracked s' seg then unat n else 0) 0 s s'"
proof -
  obtain r s1 where c: "tcp_shift_delivery_create seg s = (r, s1)" by fastforce
  obtain m ks where m: "ks = fst (books s) @ replicate m (None, 0, 0)" and
    r: "case r of None \<Rightarrow> books s1 = (ks, snd (books s))
     | Some i \<Rightarrow> i < length ks \<and> fst (ks ! i) = None \<and> books s1 = (ks[i := (Some seg, 0, 0)], snd (books s))"
    using create_books [OF c] by blast
  note g = grown_books [OF m]
  have t: "Some seg \<notin> fst ` set ks" using assms(2) g(3) by (simp add: is_tracked_books)
  show ?thesis
  proof (cases r)
    case None
    then have "books s' = (ks, snd (books s))" using r by (simp add: assms(3) first_transmit_def c)
    then show ?thesis using g(1) g(2) [OF assms(1)] t by (simp add: balanced_def is_tracked_books)
  next
    case (Some i)
    then have i: "i < length ks" "fst (ks ! i) = None" "books s1 = (ks[i := (Some seg, 0, 0)], snd (books s))" using r by simp_all
    have k: "slot_key (delivery_slots (ad s1) ! i) = (Some seg, 0, 0)"
    proof -
      have "map slot_key (delivery_slots (ad s1)) = ks[i := (Some seg, 0, 0)]" using i(3) by (simp add: books_def)
      then show ?thesis using i(1) by (metis length_list_update length_map nth_list_update_eq nth_map)
    qed
    have b: "books s' = (ks[i := (Some seg, n, 0)], snd (books s))"
      using k i(3) by (simp add: assms(3) first_transmit_def c Some Let_def books_set_slot slot_key_def stamp_slot_def)
    have "left_of (ks[i := (Some seg, n, 0)]) = left_of ks + unat n"
      using left_of_update [OF i(1), of "(Some seg, n, 0)"] i(2) by (cases "ks ! i") (auto simp: word_gt_0)
    moreover have "books_ok (ks[i := (Some seg, n, 0)])"
      using g(2) [OF assms(1)] t by (auto simp: books_ok_def image_iff intro!: single_update list_all_update) (metis nth_mem)
    moreover have "is_tracked s' seg" using b i(1) by (auto simp: is_tracked_books image_iff intro!: bexI [OF _ set_update_memI])
    ultimately show ?thesis using b g(1) by (simp add: balanced_def)
  qed
qed

section \<open>The ledger of a run\<close>

text \<open>The bytes a call tracks anew, and the undelivered bytes it gives up with a segment.\<close>

fun newly_tracked :: "hook_call \<Rightarrow> 's cc_sys \<Rightarrow> 's cc_sys \<Rightarrow> nat" where
  "newly_tracked (Segment_Tx (Some seg) q n) s s' = (if \<not> is_tracked s seg \<and> is_tracked s' seg then unat n else 0)"
| "newly_tracked _ s s' = 0"

fun given_up :: "hook_call \<Rightarrow> 's cc_sys \<Rightarrow> 's cc_sys \<Rightarrow> nat" where
  "given_up (Segment_Acked (Some seg) n) s s' =
    (case tcp_shift_delivery_find (ad s) seg of
       None \<Rightarrow> 0 | Some i \<Rightarrow> if is_tracked s' seg then 0 else slot_outstanding (delivery_slots (ad s) ! i))"
| "given_up _ s s' = 0"

fun run_tracked :: "hook_call list \<Rightarrow> 's cc_sys \<Rightarrow> nat" where
  "run_tracked [] s = 0"
| "run_tracked (c # cs) s = (let s' = hook_step c s in newly_tracked c s s' + run_tracked cs s')"

fun run_given_up :: "hook_call list \<Rightarrow> 's cc_sys \<Rightarrow> nat" where
  "run_given_up [] s = 0"
| "run_given_up (c # cs) s = (let s' = hook_step c s in given_up c s s' + run_given_up cs s')"

lemma tx_balanced:
  assumes "books_ok (fst (books s))"
  shows "balanced (newly_tracked (Segment_Tx seg q n) s (hook_step (Segment_Tx seg q n) s)) 0 s (hook_step (Segment_Tx seg q n) s)"
proof (cases "hook_installed s \<and> ad_pcb (ad s) = Some (pcb_id (pcb s)) \<and> seg \<noteq> None \<and> n \<noteq> 0 \<and> fst (tcp_shift_delivery_now_ns s) \<noteq> 0")
  case False
  then have "books (hook_step (Segment_Tx seg q n) s) = books s"
    by (auto simp: tcp_shift_lwip_cc_hook_segment_tx_def tcp_shift_lwip_cc_on_segment_tx_def case_prod_beta)
  then show ?thesis using balanced_same [OF assms] by (cases seg) (simp_all add: is_tracked_books)
next
  case True
  then obtain g where g: "seg = Some g" by blast
  obtain now_ns s0 where n: "tcp_shift_delivery_now_ns s = (now_ns, s0)" by fastforce
  define s1 where "s1 = (let s = tx_gap_stats now_ns (tcp_shift_pacing_note_tx n now_ns (prr_note_tx n s0))
     in if \<not> pcb_unacked (pcb s) then s\<lparr>ad := (ad s)\<lparr>rate_first_tx_mstamp_ns := now_ns, delivered_mstamp_ns := now_ns\<rparr>\<rparr> else s)"
  have b: "books s1 = books s" using core_now [of s] by (simp add: s1_def Let_def n core_eq)
  have st: "hook_step (Segment_Tx seg q n) s =
      (case tcp_shift_delivery_find (ad s1) g of Some i \<Rightarrow> retransmit_slot now_ns i s1 | None \<Rightarrow> first_transmit now_ns g q n s1)"
    using True by (simp add: tcp_shift_lwip_cc_hook_segment_tx_def tcp_shift_lwip_cc_on_segment_tx_def n g s1_def Let_def cong: option.case_cong)
  have t: "is_tracked s1 g = is_tracked s g" by (simp add: is_tracked_books b)
  show ?thesis
  proof (cases "tcp_shift_delivery_find (ad s1) g")
    case None
    then have u: "\<not> is_tracked s1 g" and e: "hook_step (Segment_Tx seg q n) s = first_transmit now_ns g q n s1"
      by (simp add: is_tracked_def) (simp only: st None option.case)
    then show ?thesis
      using first_transmit_balanced [of s1 g _ now_ns q n, OF _ u refl] assms t unfolding e g by (simp add: b balanced_def)
  next
    case (Some i)
    then have u: "is_tracked s g" and e: "hook_step (Segment_Tx seg q n) s = retransmit_slot now_ns i s1"
      using t by (simp add: is_tracked_def) (simp only: st Some option.case)
    then show ?thesis using balanced_same [OF assms] books_retransmit [OF Some] b unfolding e g by simp
  qed
qed

lemma acked_balanced:
  assumes "books_ok (fst (books s))"
  shows "balanced 0 (given_up (Segment_Acked seg n) s (hook_step (Segment_Acked seg n) s)) s (hook_step (Segment_Acked seg n) s)"
proof (cases "hook_installed s \<and> ad_pcb (ad s) = Some (pcb_id (pcb s)) \<and> n \<noteq> 0 \<and> (\<exists>g i. seg = Some g \<and> tcp_shift_delivery_find (ad s) g = Some i)")
  case False
  then have b: "books (hook_step (Segment_Acked seg n) s) = books s"
    by (auto simp: tcp_shift_lwip_cc_hook_segment_acked_def tcp_shift_lwip_cc_on_segment_acked_def Let_def with_delivery_def)
  have "is_tracked (hook_step (Segment_Acked seg n) s) g = is_tracked s g" for g by (simp only: is_tracked_books b)
  then have "given_up (Segment_Acked seg n) s (hook_step (Segment_Acked seg n) s) = 0"
    by (cases seg) (auto simp: is_tracked_def [of s] simp del: hook_step.simps split: option.split)
  then show ?thesis using balanced_same [OF assms b] by simp
next
  case True
  then obtain g i where g: "seg = Some g" "tcp_shift_delivery_find (ad s) g = Some i" by blast
  note i = slot_index_Some [OF g(2) [unfolded tcp_shift_delivery_find_def]]
  define ks where "ks = fst (books s)"
  have k: "i < length ks" "ks ! i = slot_key (delivery_slots (ad s) ! i)" using i(1) by (simp_all add: ks_def books_def)
  have a: "ad (with_delivery f s) = ad s" for f and s :: "'a cc_sys" by (simp add: with_delivery_def)
  have b: "books (hook_step (Segment_Acked seg n) s) = (ks[i := (None, 0, 0)], snd (books s))"
    using True g i by (simp add: tcp_shift_lwip_cc_hook_segment_acked_def tcp_shift_lwip_cc_on_segment_acked_def
      tcp_shift_delivery_release_slot_def Let_def a books_def ks_def map_update)
  have s: "single ks" "list_all key_ok ks" using assms by (simp_all add: books_ok_def ks_def)
  have "fst (ks[i := (None, 0, 0)] ! j) \<noteq> Some g" if "j < length ks" for j
    using s(1) k i(2) that by (cases "j = i") (auto simp: single_def nth_list_update)
  then have "\<not> is_tracked (hook_step (Segment_Acked seg n) s) g"
    unfolding is_tracked_books b fst_conv by (auto simp: in_set_conv_nth) (metis fst_conv)
  then have u: "given_up (Segment_Acked seg n) s (hook_step (Segment_Acked seg n) s) = key_left (ks ! i)"
    using g k(2) by (simp add: slot_outstanding_key)
  have "books_ok (ks[i := (None, 0, 0)])"
    using s by (simp add: books_ok_def single_update list_all_update)
  then show ?thesis using left_of_update [OF k(1), of "(None, 0, 0)"] unfolding u balanced_def b ks_def [symmetric] by (intro conjI exI [of _ 0]) simp_all
qed

lemma step_balanced:
  assumes "books_ok (fst (books s))"
  shows "balanced (newly_tracked c s (hook_step c s)) (given_up c s (hook_step c s)) s (hook_step c s)"
proof -
  note flow = books_flow balanced_same [OF assms] balanced_credited [OF assms]
  show ?thesis
  proof (cases c)
    case (Segment_Tx seg q n)
    then show ?thesis using tx_balanced [OF assms, of seg q n] by simp
  next
    case (Segment_Acked seg n)
    then show ?thesis using acked_balanced [OF assms, of seg n] by simp
  next
    case (Ack n)
    then show ?thesis
      by (simp add: tcp_shift_lwip_cc_hook_ack_def case_prod_beta flow credited_on_ack)
  next
    case (Ack_Observe n)
    then show ?thesis
      by (simp add: tcp_shift_lwip_cc_hook_ack_observe_def case_prod_beta flow credited_on_ack)
  next
    case (Sack a rs)
    then show ?thesis
      by (simp add: tcp_shift_lwip_cc_hook_sack_def case_prod_beta flow credited_on_sack)
  qed (simp_all add: tcp_shift_lwip_cc_hook_ack_begin_def tcp_shift_lwip_cc_hook_loss_def tcp_shift_lwip_cc_hook_ecn_def
    tcp_shift_lwip_cc_hook_ecn_rto_gate_def tcp_shift_lwip_cc_hook_rack_retrans_loss_def tcp_shift_lwip_cc_hook_tlp_dupack_def
    tcp_shift_lwip_cc_hook_recovery_exit_def tcp_shift_lwip_cc_hook_timeout_def tcp_shift_lwip_cc_hook_rack_loss_status_def
    tcp_shift_lwip_cc_hook_segment_send_eligible_def lwip_moves_def flow cong: if_cong split del: if_split)
qed

lemma run_balanced:
  assumes "books_ok (fst (books s))"
  shows "balanced (run_tracked cs s) (run_given_up cs s) s (fold hook_step cs s)"
  using assms
proof (induction cs arbitrary: s)
  case Nil
  then show ?case by (simp add: balanced_same)
next
  case (Cons c cs)
  have s: "balanced (newly_tracked c s (hook_step c s)) (given_up c s (hook_step c s)) s (hook_step c s)"
    by (rule step_balanced [OF Cons.prems])
  then have "balanced (run_tracked cs (hook_step c s)) (run_given_up cs (hook_step c s)) (hook_step c s) (fold hook_step cs (hook_step c s))"
    by (intro Cons.IH) (simp add: balanced_def)
  with s obtain n m where
    "left_of (fst (books s)) + newly_tracked c s (hook_step c s) = left_of (fst (books (hook_step c s))) + given_up c s (hook_step c s) + n"
    "snd (books (hook_step c s)) = snd (books s) + of_nat n"
    "left_of (fst (books (hook_step c s))) + run_tracked cs (hook_step c s) =
      left_of (fst (books (fold hook_step cs (hook_step c s)))) + run_given_up cs (hook_step c s) + m"
    "snd (books (fold hook_step cs (hook_step c s))) = snd (books (hook_step c s)) + of_nat m"
    "books_ok (fst (books (fold hook_step cs (hook_step c s))))"
    unfolding balanced_def by blast
  then show ?case unfolding balanced_def run_tracked.simps run_given_up.simps fold.simps comp_apply Let_def
    by (intro conjI exI [of _ "n + m"]) (simp_all del: hook_step.simps)
qed

text \<open>C2. The delivery ledger is exact. Start with an adapter that tracks nothing and let lwIP call the hooks in any order, with any
  acknowledgements and selective acknowledgements, retransmissions, lost metadata, clock failures and controller errors. As long as
  fewer than \<open>2\<^sup>6\<^sup>4\<close> bytes were tracked, the delivered bytes, the bytes still outstanding in the slots and the bytes given up when lwIP
  freed a segment that was not fully acknowledged are exactly the payload of the segments tracked: no byte is credited twice, by a
  repeated acknowledgement or by an acknowledgement after its selective acknowledgement, and none is lost. No slot ever has more acknowledged
  than it holds.\<close>

theorem delivery_ledger_exact:
  assumes "delivery_slots (ad s) = []" "ad_delivered_bytes (ad s) = 0" "run_tracked cs s < 2 ^ 64"
  shows "let s' = fold hook_step cs s
    in unat (ad_delivered_bytes (ad s')) + sum_list (map slot_outstanding (delivery_slots (ad s'))) + run_given_up cs s = run_tracked cs s \<and>
       list_all (\<lambda>sl. sl_acked_payload_bytes sl \<le> sl_payload_bytes sl) (delivery_slots (ad s'))"
proof -
  define s' where "s' = fold hook_step cs s"
  have b: "books s = ([], 0)" by (simp add: books_def assms(1,2))
  have "balanced (run_tracked cs s) (run_given_up cs s) s s'"
    unfolding s'_def by (rule run_balanced) (simp add: b books_ok_def single_def)
  then obtain n where n: "books_ok (fst (books s'))" "run_tracked cs s = left_of (fst (books s')) + run_given_up cs s + n"
      "snd (books s') = of_nat n"
    by (auto simp: balanced_def b left_of_def)
  have "unat (ad_delivered_bytes (ad s')) = n"
    using n(2,3) assms(3) by (simp add: books_def unsigned_of_nat take_bit_nat_eq_self)
  moreover have "left_of (fst (books s')) = sum_list (map slot_outstanding (delivery_slots (ad s')))"
    by (simp add: left_of_def books_def comp_def slot_outstanding_key [abs_def])
  moreover have "list_all (\<lambda>sl. sl_acked_payload_bytes sl \<le> sl_payload_bytes sl) (delivery_slots (ad s'))"
    using n(1) by (simp add: books_ok_def books_def list_all_iff slot_key_def)
  ultimately show ?thesis unfolding Let_def s'_def [symmetric] using n(2) by simp
qed

text \<open>Two segments; the second is selectively acknowledged, then a partial acknowledgement, twice; then lwIP frees the first one early.\<close>

definition demo_delivery :: "hook_call list" where
  "demo_delivery = [Segment_Tx (Some 7) 1000 10, Segment_Tx (Some 8) 1010 5, Lwip_Moves (demo_pcb\<lparr>pcb_snd_nxt := 1015, pcb_unacked := True\<rparr>),
     Sack 1000 [\<lparr>sack_left = 1010, sack_right = 1015\<rparr>], Lwip_Moves (demo_pcb\<lparr>pcb_snd_nxt := 1015, pcb_lastack := 1006, pcb_unacked := True\<rparr>),
     Ack 6, Ack 6, Segment_Acked (Some 7) 10]"

lemma demo_bound_starts:
  "delivery_slots (ad demo_bound) = []" "ad_delivered_bytes (ad demo_bound) = 0"
  by code_simp+

lemma run_tracked_bound: "run_tracked cs s \<le> sum_list (map (\<lambda>c. case c of Segment_Tx seg q n \<Rightarrow> unat n | _ \<Rightarrow> 0) cs)"
proof (induction cs arbitrary: s)
  case (Cons c cs)
  have "newly_tracked c s s' \<le> (case c of Segment_Tx seg q n \<Rightarrow> unat n | _ \<Rightarrow> 0)" for s' :: "'a cc_sys"
    by (induction c s s' rule: newly_tracked.induct) simp_all
  then show ?case using Cons [of "hook_step c s"] by (simp add: Let_def add_mono)
qed simp

theorem delivery_ledger_exact_witness:
  "run_tracked (take 2 demo_delivery) demo_bound = 15 \<and>
   (let s' = fold hook_step demo_delivery demo_bound
    in unat (ad_delivered_bytes (ad s')) + sum_list (map slot_outstanding (delivery_slots (ad s'))) + run_given_up demo_delivery demo_bound =
         run_tracked demo_delivery demo_bound \<and>
       list_all (\<lambda>sl. sl_acked_payload_bytes sl \<le> sl_payload_bytes sl) (delivery_slots (ad s')))"
proof -
  have "run_tracked demo_delivery demo_bound \<le> 15" using run_tracked_bound [of demo_delivery demo_bound] by (simp add: demo_delivery_def)
  then have "run_tracked demo_delivery demo_bound < 2 ^ 64" by simp
  note delivery_ledger_exact [OF demo_bound_starts this]
  moreover have "run_tracked (take 2 demo_delivery) demo_bound = 15" by code_simp
  ultimately show ?thesis by blast
qed

end
