(* ===== verification/Adapter_Safety.thy ===== *)
theory Adapter_Safety
  imports Adapter_Ledger
begin

text \<open>
  The adapter and its controller together. A controller whose handlers never refuse is never taken away from its connection:
  no sequence of hook calls reaches the path on which \<^verbatim>\<open>src/lwip/cc_adapter.c\<close> disables the adapter, and the windows that lwIP uses
  are never zero. Reno is such a controller.
\<close>

section \<open>The window of proportional rate reduction\<close>

text \<open>It is never zero: with nothing in flight the newly delivered bytes alone allow a send.\<close>

lemma prr_cwnd_pos:
  assumes "prr_ready prr ack" "delivered_data ack \<noteq> 0" "tcp_shift_prr_on_ack prr ack r = (rc, prr', r')"
  shows "prr_cwnd r' \<noteq> 0"
proof (cases "prr_inflight ack = 0")
  case False
  then show ?thesis
    using prr_on_ack_delivery(4) [OF assms] by (simp add: word_zero_nat unat_prr_add_sat_u32)
next
  case True
  have p: "prr_ssthresh prr' \<noteq> 0" using prr_on_ack_delivery(2) [OF assms] assms(1) by (simp add: prr_ready_def)
  have "unat (prr_credit prr' ack) \<noteq> 0"
    using unat_prr_credit_bounded [of ack prr'] True p assms(2) by (auto simp: word_zero_nat min_def max_def)
  then have "unat (prr_grant prr' ack) \<noteq> 0" by (auto simp: unat_prr_grant)
  then show ?thesis
    using prr_on_ack_delivery(3,4) [OF assms] by (simp add: word_zero_nat unat_prr_add_sat_u32)
qed

section \<open>Accounting keeps the bond\<close>

lemma bond_ad [simp]:
  assumes "ad_id a = ad_id (ad s)" "ad_bound a = ad_bound (ad s)" "ad_pcb a = ad_pcb (ad s)"
    "ad_controller a = ad_controller (ad s)" "ad_hook a = ad_hook (ad s)" "ad_prr a = ad_prr (ad s)"
    "sack_delivery_policy a = sack_delivery_policy (ad s)"
  shows "bond (s\<lparr>ad := a\<rparr>) = bond s"
  using assms by (simp add: bond_def)

lemma bond_branch: "bond (if b then s1 else s2) = (if b then bond s1 else bond s2)"
  "bond (snd (if b then x1 else x2)) = (if b then bond (snd x1) else bond (snd x2))"
  "bond (snd (snd (if b then y1 else y2))) = (if b then bond (snd (snd y1)) else bond (snd (snd y2)))"
  "bond (Let x f) = (let y = x in bond (f y))" "bond (snd (Let x g)) = (let y = x in bond (snd (g y)))"
  "bond (snd (snd (Let x h))) = (let y = x in bond (snd (snd (h y))))"
  by (simp_all add: Let_def)

lemmas bond_flow = bond_branch case_prod_beta

lemma bond_finalize [simp]: "bond (snd (tcp_shift_delivery_finalize_rate_sample cand n now_ns touched partial rt s)) = bond s"
proof -
  have p: "bond (note_progress n now_ns touched partial s) = bond s"
    by (simp add: note_progress_def bond_flow cong: if_cong split del: if_split)
  have r: "bond (tcp_shift_rate_record_stats r s) = bond s" for r and s :: "'a cc_sys"
    by (simp add: tcp_shift_rate_record_stats_def)
  show ?thesis by (cases cand) (simp_all add: tcp_shift_delivery_finalize_rate_sample_def Let_def p r)
qed

lemma bond_build [simp]: "bond (snd (snd (tcp_shift_delivery_build_rate_sample s))) = bond s"
  "bond (snd (snd (tcp_shift_delivery_build_sack_rate_sample rs pr s))) = bond s"
proof -
  have c: "bond (snd (credit_pass c s)) = bond s" for c and s :: "'a cc_sys" by (simp add: credit_pass_def case_prod_beta)
  show "bond (snd (snd (tcp_shift_delivery_build_rate_sample s))) = bond s"
    by (simp add: tcp_shift_delivery_build_rate_sample_def case_prod_beta c)
  show "bond (snd (snd (tcp_shift_delivery_build_sack_rate_sample rs pr s))) = bond s"
    by (simp add: tcp_shift_delivery_build_sack_rate_sample_def case_prod_beta c)
qed

lemma bond_slots [simp]: "bond (set_slot i sl s) = bond s" "bond (retransmit_slot now_ns i s) = bond s"
  "bond (first_transmit now_ns seg q n s) = bond s" "bond (tcp_shift_delivery_release_slot i s) = bond s"
proof -
  show u: "bond (set_slot i sl s) = bond s" for i sl and s :: "'a cc_sys" by (simp add: set_slot_def)
  show "bond (retransmit_slot now_ns i s) = bond s" by (simp add: retransmit_slot_def Let_def u)
  have g: "bond (snd (tcp_shift_delivery_grow s)) = bond s" for s :: "'a cc_sys"
    by (simp add: tcp_shift_delivery_grow_def bond_flow cong: if_cong split del: if_split)
  have c: "bond (snd (tcp_shift_delivery_create seg s)) = bond s"
    by (simp add: tcp_shift_delivery_create_def note_live_slot_def Let_def case_prod_beta g split: option.split)
  then show "bond (first_transmit now_ns seg q n s) = bond s"
    by (cases "tcp_shift_delivery_create seg s") (simp add: first_transmit_def Let_def u split: option.split)
  show "bond (tcp_shift_delivery_release_slot i s) = bond s" by (simp add: tcp_shift_delivery_release_slot_def Let_def)
qed

section \<open>Controllers that never refuse\<close>

text \<open>lwIP's own work keeps a segment size and windows that are not zero.\<close>

definition moves_ok :: "hook_call \<Rightarrow> bool" where
  "moves_ok c = (case c of Lwip_Moves p \<Rightarrow> pcb_mss p \<noteq> 0 \<and> pcb_cwnd p \<noteq> 0 \<and> pcb_ssthresh p \<noteq> 0 | _ \<Rightarrow> True)"

locale tireless_controller = cc_controller ops inv
  for ops :: "'s tcp_shift_cc_ops" and inv :: "u32 \<Rightarrow> 's \<Rightarrow> bool" +
  assumes ack_total: "valid_transport t \<Longrightarrow> inv (cwnd_limit_bytes t) s \<Longrightarrow> acked_bytes a \<noteq> 0 \<Longrightarrow> fst (the (ops_on_ack ops) s t a p) = 0"
    and loss_total: "valid_transport t \<Longrightarrow> inv (cwnd_limit_bytes t) s \<Longrightarrow> lost_bytes l \<noteq> 0 \<Longrightarrow> fst (the (ops_on_loss ops) s t l p) = 0"
    and ecn_total: "valid_transport t \<Longrightarrow> inv (cwnd_limit_bytes t) s \<Longrightarrow> ops_on_ecn ops \<noteq> None \<and> fst (the (ops_on_ecn ops) s t p) = 0"
    and timeout_total: "valid_transport t \<Longrightarrow> inv (cwnd_limit_bytes t) s \<Longrightarrow> fst (the (ops_on_timeout ops) s t p) = 0"
begin

definition good_call :: "'s cc_call \<Rightarrow> bool" where
  "good_call call \<longleftrightarrow> (\<exists>cc p. call = (0, Some cc, Some p) \<and> bound UINT32_MAX cc \<and> policy_in_range UINT32_MAX p)"

text \<open>The connection is bound, its controller is sound, and the windows of lwIP are usable.\<close>

fun lk :: "bool \<Rightarrow> nat \<times> bool \<times> nat option \<times> 's tcp_shift_cc \<times> tcp_shift_lwip_cc_hook \<times> tcp_shift_prr \<times> bool \<times> tcp_pcb \<Rightarrow> bool" where
  "lk sp (k, bnd, p, cc, hook, prr, sack, pc) \<longleftrightarrow> bnd \<and> p = Some (pcb_id pc) \<and> pcb_ext_arg pc = Some k \<and> hook_ops hook \<and>
     bound UINT32_MAX cc \<and> pcb_mss pc \<noteq> 0 \<and> pcb_cwnd pc \<noteq> 0 \<and> pcb_ssthresh pc \<noteq> 0 \<and> sack = sp \<and>
     (prr_active prr \<longrightarrow> recover_fs prr \<noteq> 0 \<and> prr_ssthresh prr \<noteq> 0)"

abbreviation linked :: "bool \<Rightarrow> 's cc_sys \<Rightarrow> bool" where
  "linked sp s \<equiv> lk sp (bond s)"

lemma linked_branch: "linked sp (if b then s1 else s2) \<longleftrightarrow> (if b then linked sp s1 else linked sp s2)"
  "linked sp (snd (if b then x1 else x2)) \<longleftrightarrow> (if b then linked sp (snd x1) else linked sp (snd x2))"
  "linked sp (snd (snd (if b then y1 else y2))) \<longleftrightarrow> (if b then linked sp (snd (snd y1)) else linked sp (snd (snd y2)))"
  "linked sp (Let x f) \<longleftrightarrow> (let y = x in linked sp (f y))" "linked sp (snd (Let x g)) \<longleftrightarrow> (let y = x in linked sp (snd (g y)))"
  "linked sp (snd (snd (Let x h))) \<longleftrightarrow> (let y = x in linked sp (snd (snd (h y))))"
  by (simp_all add: Let_def)

lemmas linked_flow = linked_branch case_prod_beta

lemma linked_transport:
  assumes "linked sp s"
  shows "valid_transport (tcp_shift_lwip_cc_transport_from_adapter s)"
    "cwnd_limit_bytes (tcp_shift_lwip_cc_transport_from_adapter s) = UINT32_MAX" "bound UINT32_MAX (ad_controller (ad s))"
  using assms unat_lt2p [of "pcb_mss (pcb s)"] by (auto simp: bond_def valid_transport_iff tcp_shift_lwip_cc_transport_from_adapter_def word_gt_0
    tcp_shift_lwip_cc_transport_from_pcb_def tcp_shift_lwip_cc_cwnd_limit_def word_le_nat_alt Let_def word_zero_nat)

lemma dispatch_good:
  assumes "bound UINT32_MAX h" "\<And>s. inv UINT32_MAX s \<Longrightarrow> cc_step_ok (inv UINT32_MAX) UINT32_MAX p (f s p) \<and> fst (f s p) = 0"
  shows "good_call (cc_dispatch h (Some p) f)"
  using assms by (fastforce simp: bound_def good_call_def cc_dispatch_def cc_step_ok_def split: prod.split)

lemma calls_good:
  assumes "linked sp s"
  defines "h \<equiv> ad_controller (ad s)" and "t \<equiv> tcp_shift_lwip_cc_transport_from_adapter s"
  shows "acked_bytes a \<noteq> 0 \<Longrightarrow> good_call (tcp_shift_cc_on_ack (Some h) (Some t) (Some a) (Some p))"
    "lost_bytes l \<noteq> 0 \<Longrightarrow> good_call (tcp_shift_cc_on_loss (Some h) (Some t) (Some l) (Some p))"
    "good_call (tcp_shift_cc_on_ecn (Some h) (Some t) (Some p))"
    "good_call (tcp_shift_cc_on_timeout (Some h) (Some t) (Some p))"
proof -
  note t = linked_transport [OF assms(1), folded t_def h_def]
  obtain st where h: "cc_ops h = Some ops" "cc_state h = Some st" "inv UINT32_MAX st" using t(3) by (auto simp: bound_def)
  have e: "ops_on_ecn ops \<noteq> None" using ecn_total [OF t(1)] h(3) t(2) by simp
  note boundary = tcp_shift_cc_on_ack_def tcp_shift_cc_on_loss_def tcp_shift_cc_on_ecn_def tcp_shift_cc_on_timeout_def
    tcp_shift_cc_valid_def h t
  show "good_call (tcp_shift_cc_on_ack (Some h) (Some t) (Some a) (Some p))" if "acked_bytes a \<noteq> 0"
    using that dispatch_good [OF t(3)] ack_law [OF t(1)] ack_total [OF t(1)] by (simp add: boundary)
  show "good_call (tcp_shift_cc_on_loss (Some h) (Some t) (Some l) (Some p))" if "lost_bytes l \<noteq> 0"
    using that dispatch_good [OF t(3)] loss_law [OF t(1)] loss_total [OF t(1)] by (simp add: boundary)
  show "good_call (tcp_shift_cc_on_ecn (Some h) (Some t) (Some p))"
    using e dispatch_good [OF t(3)] ecn_law [OF t(1)] ecn_total [OF t(1)] by (auto simp: boundary)
  show "good_call (tcp_shift_cc_on_timeout (Some h) (Some t) (Some p))"
    using dispatch_good [OF t(3)] timeout_law [OF t(1)] timeout_total [OF t(1)] by (simp add: boundary)
qed

lemma linked_keeps [simp]:
  assumes "linked sp s"
  shows "linked sp (s\<lparr>ad := (ad s)\<lparr>ad_hook := tcp_shift_lwip_cc_hook_recovery_mark_enter q (ad_hook (ad s))\<rparr>\<rparr>)"
    "linked sp (s\<lparr>ad := (ad s)\<lparr>ad_hook := tcp_shift_lwip_cc_hook_recovery_mark_exit (ad_hook (ad s))\<rparr>\<rparr>)"
    "linked sp (s\<lparr>ad := (ad s)\<lparr>ad_hook := tcp_shift_lwip_cc_hook_recovery_reset (ad_hook (ad s))\<rparr>\<rparr>)"
    "linked sp (s\<lparr>pcb := (pcb s)\<lparr>pcb_infr := b\<rparr>\<rparr>)" "linked sp (tcp_shift_lwip_cc_prr_reset_live s)"
  using assms by (auto simp: bond_def tcp_shift_lwip_cc_hook_recovery_mark_enter_def tcp_shift_lwip_cc_hook_recovery_mark_exit_def
    tcp_shift_lwip_cc_hook_recovery_reset_def tcp_shift_lwip_cc_prr_reset_live_def tcp_shift_prr_reset_def)

lemma linked_facts:
  assumes "linked sp s"
  shows "hook_installed s" "ad_bound (ad s)" "ad_pcb (ad s) = Some (pcb_id (pcb s))" "sack_delivery_policy (ad s) = sp"
    "pcb_ext_arg (pcb s) = Some (ad_id (ad s))" "pcb_mss (pcb s) \<noteq> 0"
  using assms by (auto simp: bond_def hook_installed_def)

lemma apply_policy_linked:
  assumes "linked sp s" "policy_in_range UINT32_MAX policy"
  shows "fst (tcp_shift_lwip_cc_apply_policy policy s) = 0" "linked sp (snd (tcp_shift_lwip_cc_apply_policy policy s))"
proof -
  have g: "ad_pcb (ad s) \<noteq> None" "cwnd_bytes policy \<noteq> 0" "ssthresh_bytes policy \<noteq> 0"
    "\<not> cwnd_bytes policy > tcp_shift_lwip_cc_cwnd_limit" "\<not> ssthresh_bytes policy > tcp_shift_lwip_cc_cwnd_limit"
    using linked_facts [OF assms(1)] assms(2) by (auto simp: policy_in_range_def tcp_shift_lwip_cc_cwnd_limit_def linorder_not_less)
  then show "fst (tcp_shift_lwip_cc_apply_policy policy s) = 0" by (simp add: tcp_shift_lwip_cc_apply_policy_def Let_def)
  have u: "linked sp (s\<lparr>ad := (ad s)\<lparr>ad_pacing_rate_bytes_per_sec := r\<rparr>,
      pcb := (pcb s)\<lparr>pcb_cwnd := cwnd_bytes policy, pcb_ssthresh := ssthresh_bytes policy, pcb_bytes_acked := 0\<rparr>\<rparr>)"
    if "linked sp s" for r s using that g by (simp add: bond_def)
  show "linked sp (snd (tcp_shift_lwip_cc_apply_policy policy s))"
    using g assms(1) by (simp add: tcp_shift_lwip_cc_apply_policy_def Let_def u)
qed

lemma apply_result_linked:
  assumes "linked sp s" "good_call call"
  shows "fst (apply_result call s)" "linked sp (snd (snd (apply_result call s)))"
proof -
  obtain cc p where c: "call = (0, Some cc, Some p)" "bound UINT32_MAX cc" "policy_in_range UINT32_MAX p"
    using assms(2) by (auto simp: good_call_def)
  have "linked sp (s\<lparr>ad := (ad s)\<lparr>ad_controller := cc\<rparr>\<rparr>)" using assms(1) c(2) by (simp add: bond_def)
  note k = apply_policy_linked [OF this c(3)]
  show "fst (apply_result call s)" "linked sp (snd (snd (apply_result call s)))"
    using k by (simp_all add: apply_result_def c(1) case_prod_beta)
qed

lemma controller_calls_linked [simp]:
  assumes "linked sp s"
  shows "acked_bytes a \<noteq> 0 \<Longrightarrow> fst (controller_ack a s)" "acked_bytes a \<noteq> 0 \<Longrightarrow> linked sp (snd (snd (controller_ack a s)))"
    "n \<noteq> 0 \<Longrightarrow> fst (controller_loss n s)" "n \<noteq> 0 \<Longrightarrow> linked sp (snd (snd (controller_loss n s)))"
  unfolding controller_ack_def controller_loss_def
  using apply_result_linked [OF assms calls_good(1) [OF assms]] apply_result_linked [OF assms calls_good(2) [OF assms]] by simp_all

lemma prr_apply_ack_linked [simp]:
  assumes "linked sp s"
  shows "\<not> fst (tcp_shift_lwip_cc_prr_apply_ack n safe s) < 0" "linked sp (snd (tcp_shift_lwip_cc_prr_apply_ack n safe s))"
proof -
  obtain inflight s1 where i: "tcp_shift_lwip_cc_prr_inflight s = (inflight, s1)" by fastforce
  have b: "linked sp s1" "ad_prr (ad s1) = ad_prr (ad s)"
    using core_prr(2) [of s] assms by (simp_all add: i core_eq) (simp add: bond_def)
  define ack where "ack = \<lparr>delivered_data = n, prr_inflight = inflight, smss = ucast (pcb_mss (pcb s1)), safe_ack = safe\<rparr>"
  obtain r prr res where o: "tcp_shift_prr_on_ack (ad_prr (ad s1)) ack \<lparr>sndcnt = 0, prr_cwnd = 0\<rparr> = (r, prr, res)" by (metis prod_cases3)
  have "\<not> fst (tcp_shift_lwip_cc_prr_apply_ack n safe s) < 0 \<and> linked sp (snd (tcp_shift_lwip_cc_prr_apply_ack n safe s))"
  proof (cases "\<not> prr_active (ad_prr (ad s)) \<or> n = 0")
    case True
    then show ?thesis using assms by (auto simp: tcp_shift_lwip_cc_prr_apply_ack_def)
  next
    case False
    have rd: "prr_ready (ad_prr (ad s1)) ack" "delivered_data ack \<noteq> 0"
      using False b linked_facts(6) [OF b(1)] by (auto simp: prr_ready_def ack_def bond_def word_zero_nat)
    note d = prr_on_ack_delivery [OF rd o]
    have c: "prr_cwnd res \<noteq> 0" "\<not> prr_cwnd res > tcp_shift_lwip_cc_cwnd_limit"
      using prr_cwnd_pos [OF rd o] by (simp_all add: tcp_shift_lwip_cc_cwnd_limit_def word_le_nat_alt linorder_not_less)
    have "linked sp (s1\<lparr>ad := (ad s1)\<lparr>ad_prr := prr\<rparr>, pcb := (pcb s1)\<lparr>pcb_cwnd := prr_cwnd res, pcb_bytes_acked := 0\<rparr>\<rparr>)"
      using b(1) c(1) d(2) rd(1) by (auto simp: bond_def prr_ready_def)
    then have "linked sp (s1\<lparr>pcb := (pcb s1)\<lparr>pcb_cwnd := prr_cwnd res, pcb_bytes_acked := 0\<rparr>,
        ad := (ad s1)\<lparr>ad_prr := prr, prr_send_credit_bytes := sndcnt res\<rparr>\<rparr>)"
      by (simp add: bond_def)
    then show ?thesis
      using False d(1) c by (simp add: tcp_shift_lwip_cc_prr_apply_ack_def i ack_def [symmetric] o Let_def)
  qed
  then show "\<not> fst (tcp_shift_lwip_cc_prr_apply_ack n safe s) < 0" "linked sp (snd (tcp_shift_lwip_cc_prr_apply_ack n safe s))" by simp_all
qed

lemma linked_prr:
  assumes "linked sp s" "prr_active prr \<Longrightarrow> recover_fs prr \<noteq> 0 \<and> prr_ssthresh prr \<noteq> 0"
  shows "linked sp (s\<lparr>ad := (ad s)\<lparr>ad_prr := prr\<rparr>\<rparr>)"
  using assms by (simp add: bond_def)

lemma prr_begin_linked [simp]:
  assumes "linked sp s"
  shows "linked sp (snd (tcp_shift_lwip_cc_prr_begin p s))"
proof -
  have i: "linked sp (s\<lparr>ad := (ad s)\<lparr>ad_prr := snd (tcp_shift_prr_init (ad_prr (ad s)) fs (pcb_ssthresh (pcb s)))\<rparr>\<rparr>)" for fs
    using assms by (intro linked_prr) (auto simp: tcp_shift_prr_init_def bond_def)
  then have "linked sp (s\<lparr>ad := (ad s)\<lparr>ad_prr := snd (tcp_shift_prr_init (ad_prr (ad s)) fs (pcb_ssthresh (pcb s))),
      prr_send_credit_bytes := 0, prr_recover_fs_hint_valid := False\<rparr>\<rparr>)" for fs by (simp add: bond_def)
  with i show ?thesis
    using assms by (simp add: tcp_shift_lwip_cc_prr_begin_def linked_flow Let_def cong: if_cong split del: if_split)
qed

lemma prr_exit_linked [simp]:
  assumes "linked sp s" "prr_active (ad_prr (ad s))"
  shows "\<not> fst (prr_exit s) < 0" "linked sp (snd (prr_exit s))"
proof -
  have p: "prr_ssthresh (ad_prr (ad s)) \<noteq> 0" using assms by (simp add: bond_def)
  have c: "tcp_shift_prr_complete (ad_prr (ad s)) 0 = (0, tcp_shift_prr_reset (ad_prr (ad s)), prr_ssthresh (ad_prr (ad s)))"
    using assms(2) p by (simp add: tcp_shift_prr_complete_def)
  have l: "\<not> prr_ssthresh (ad_prr (ad s)) > tcp_shift_lwip_cc_cwnd_limit"
    by (simp add: tcp_shift_lwip_cc_cwnd_limit_def word_le_nat_alt linorder_not_less)
  have "linked sp (s\<lparr>ad := (ad s)\<lparr>ad_prr := tcp_shift_prr_reset (ad_prr (ad s)), prr_send_credit_bytes := 0, prr_recover_fs_hint_valid := False\<rparr>,
      pcb := (pcb s)\<lparr>pcb_cwnd := prr_ssthresh (ad_prr (ad s)), pcb_bytes_acked := 0\<rparr>\<rparr>)"
    using assms(1) p by (simp add: bond_def tcp_shift_prr_reset_def)
  then have "linked sp (s\<lparr>pcb := (pcb s)\<lparr>pcb_cwnd := prr_ssthresh (ad_prr (ad s)), pcb_bytes_acked := 0\<rparr>,
      ad := (ad s)\<lparr>ad_prr := tcp_shift_prr_reset (ad_prr (ad s)), prr_send_credit_bytes := 0, prr_recover_fs_hint_valid := False\<rparr>\<rparr>)"
    by (simp add: bond_def)
  then show "\<not> fst (prr_exit s) < 0" "linked sp (snd (prr_exit s))" using p l by (simp_all add: prr_exit_def c Let_def)
qed

lemma prr_note_tx_linked [simp]:
  assumes "linked sp s"
  shows "linked sp (prr_note_tx n s)"
proof -
  have i: "linked sp (s\<lparr>ad := (ad s)\<lparr>ad_prr := snd (tcp_shift_prr_on_send (ad_prr (ad s)) m)\<rparr>\<rparr>)" for m
    using assms by (intro linked_prr) (auto simp: tcp_shift_prr_on_send_def bond_def)
  then have "linked sp (s\<lparr>ad := (ad s)\<lparr>ad_prr := snd (tcp_shift_prr_on_send (ad_prr (ad s)) m), prr_send_credit_bytes := k\<rparr>\<rparr>)" for m k
    by (simp add: bond_def)
  moreover have "linked sp (s\<lparr>ad := (ad s)\<lparr>ad_prr := ad_prr (ad s), prr_send_credit_bytes := k\<rparr>\<rparr>)" for k
    using assms by (simp add: bond_def)
  ultimately show ?thesis using assms by (auto simp: prr_note_tx_def Let_def case_prod_beta i)
qed

lemma loss_hooks_linked [simp]:
  assumes "linked sp s"
  shows "linked sp (snd (tcp_shift_lwip_cc_on_tlp_loss p n s))" "linked sp (snd (tcp_shift_lwip_cc_hook_tlp_loss p n s))"
    "linked sp (snd (tcp_shift_lwip_cc_on_rack_retrans_loss p n s))" "linked sp (snd (tcp_shift_lwip_cc_on_loss p n s))"
  using assms by (auto simp: tcp_shift_lwip_cc_on_tlp_loss_def tcp_shift_lwip_cc_hook_tlp_loss_def
    tcp_shift_lwip_cc_on_rack_retrans_loss_def tcp_shift_lwip_cc_on_loss_def case_prod_beta Let_def)

lemma event_hooks_linked [simp]:
  assumes "linked sp s"
  shows "linked sp (snd (tcp_shift_lwip_cc_on_ecn p s))" "linked sp (snd (tcp_shift_lwip_cc_on_timeout p s))"
    "linked sp (snd (tcp_shift_lwip_cc_on_recovery_exit p a s))"
proof -
  show "linked sp (snd (tcp_shift_lwip_cc_on_ecn p s))"
    using apply_result_linked [OF assms calls_good(3) [OF assms]] assms
    by (simp add: tcp_shift_lwip_cc_on_ecn_def linked_flow cong: if_cong split del: if_split)
  define s1 where "s1 = tcp_shift_lwip_cc_prr_reset_live (tcp_shift_recovery_timer_cancel (s\<lparr>ad := (ad s)\<lparr>ad_rack_tlp := tcp_shift_tlp_reset (ad_rack_tlp (ad s))\<rparr>\<rparr>))"
  have "linked sp s1" using assms by (simp add: s1_def)
  then show "linked sp (snd (tcp_shift_lwip_cc_on_timeout p s))"
    using apply_result_linked [OF _ calls_good(4), of sp s1 sp s1 policy_zero] assms
    by (simp add: tcp_shift_lwip_cc_on_timeout_def s1_def [symmetric] linked_flow Let_def cong: if_cong split del: if_split)
  show "linked sp (snd (tcp_shift_lwip_cc_on_recovery_exit p a s))"
    using assms by (simp add: tcp_shift_lwip_cc_on_recovery_exit_def linked_flow cong: if_cong split del: if_split)
qed

lemma srtt_of_sample_linked [simp]:
  assumes "linked sp s"
  shows "fst (srtt_of_sample rate s)" "linked sp (snd (srtt_of_sample rate s))"
  using assms by (auto simp: srtt_of_sample_def tcp_shift_cc_srtt_update_def case_prod_beta Let_def)

lemma tlp_repair_linked [simp]:
  assumes "linked sp s" "p = pcb_id (pcb s)"
  shows "fst (tlp_repair p s)" "linked sp (snd (tlp_repair p s))"
proof -
  define s1 where "s1 = s\<lparr>ad := (ad s)\<lparr>ad_rack_tlp := snd (tcp_shift_tlp_process_ack (ad_rack_tlp (ad s)) (pcb_lastack (pcb s)) False False)\<rparr>\<rparr>"
  have l: "linked sp s1" using assms(1) by (simp add: s1_def)
  have m: "(ucast (pcb_mss (pcb s1)) :: u32) \<noteq> 0" using linked_facts(6) [OF l] by (simp add: word_zero_nat)
  have "fst (tcp_shift_lwip_cc_hook_tlp_loss p (ucast (pcb_mss (pcb s1))) s1) = 1"
    using linked_facts [OF l] l m assms(2)
    by (auto simp: tcp_shift_lwip_cc_hook_tlp_loss_def tcp_shift_lwip_cc_on_tlp_loss_def case_prod_beta s1_def)
  then show "fst (tlp_repair p s)" "linked sp (snd (tlp_repair p s))"
    using l by (simp_all add: tlp_repair_def case_prod_beta s1_def [symmetric])
qed

lemma prepare_ack_linked:
  assumes "linked sp s" "tcp_shift_lwip_cc_prepare_ack (pcb_id (pcb s)) n s = (r, s')"
  shows "linked sp s'" "r = Some ack \<Longrightarrow> sp \<or> acked_bytes ack \<noteq> 0"
proof -
  obtain nd rate s1 where b: "tcp_shift_delivery_build_rate_sample s = (nd, rate, s1)" by (metis prod_cases3)
  define s2 where "s2 = note_sacked (tcp_shift_lwip_cc_prr_note_delivery s1)"
  have bs: "bond s2 = bond s" using bond_build(1) [of s] by (simp add: b s2_def)
  define s3 where "s3 = snd (srtt_of_sample rate s2)"
  have "pcb s3 = pcb s2" by (auto simp: s3_def srtt_of_sample_def tcp_shift_cc_srtt_update_def Let_def with_events_def)
  then have p: "pcb_id (pcb s) = pcb_id (pcb s3)" using bs by (simp add: bond_def)
  have l: "linked sp s2" "linked sp s3" using assms(1) bs by (simp_all add: s3_def)
  note k = tlp_repair_linked [OF l(2) p] srtt_of_sample_linked(1) [OF l(1)]
  have "linked sp s' \<and> (\<forall>ack. r = Some ack \<longrightarrow> sp \<or> acked_bytes ack \<noteq> 0)"
  proof (cases "n = 0")
    case True
    then show ?thesis using assms by (auto simp: tcp_shift_lwip_cc_prepare_ack_def)
  next
    case False
    then show ?thesis
      using assms(2) linked_facts(2,3) [OF assms(1)] linked_facts(4) [OF l(1)] k
      by (auto simp: tcp_shift_lwip_cc_prepare_ack_def b s2_def [symmetric] s3_def [symmetric] case_prod_beta Let_def)
  qed
  then show "linked sp s'" "r = Some ack \<Longrightarrow> sp \<or> acked_bytes ack \<noteq> 0" by simp_all
qed

lemma ack_hooks_linked [simp]:
  assumes "linked sp s" "p = pcb_id (pcb s)"
  shows "linked sp (snd (tcp_shift_lwip_cc_on_ack p n s))" "linked sp (snd (tcp_shift_lwip_cc_on_ack_observe p n s))"
proof -
  obtain r s1 where r: "tcp_shift_lwip_cc_prepare_ack p n s = (r, s1)" by fastforce
  note l = prepare_ack_linked [OF assms(1) r [unfolded assms(2)]]
  show "linked sp (snd (tcp_shift_lwip_cc_on_ack p n s))"
    using l linked_facts(4) [OF l(1)] by (auto simp: tcp_shift_lwip_cc_on_ack_def r case_prod_beta split: option.split)
  show "linked sp (snd (tcp_shift_lwip_cc_on_ack_observe p n s))"
    using l(1) by (auto simp: tcp_shift_lwip_cc_on_ack_observe_def r case_prod_beta Let_def split: option.split)
qed

lemma sack_policy_linked [simp]:
  assumes "linked sp s" "acked_bytes ack \<noteq> 0"
  shows "linked sp (snd (sack_policy ack d s))"
  using assms by (auto simp: sack_policy_def case_prod_beta)

lemma on_sack_linked [simp]:
  assumes "linked sp s"
  shows "linked sp (snd (tcp_shift_lwip_cc_on_sack p a rs s))"
proof -
  have "linked sp (snd (sack_accounted a rs d n r s))" if "linked sp s" for d n r and s
    using that by (auto simp: sack_accounted_def case_prod_beta Let_def)
  then show ?thesis using assms by (simp add: tcp_shift_lwip_cc_on_sack_def Let_def case_prod_beta)
qed

lemma step_linked:
  assumes "linked sp s" "moves_ok c"
  shows "linked sp (hook_step c s)"
proof (cases c)
  case (Segment_Tx seg q n)
  then show ?thesis using assms(1)
    by (auto simp: tcp_shift_lwip_cc_hook_segment_tx_def tcp_shift_lwip_cc_on_segment_tx_def case_prod_beta Let_def split: option.split)
next
  case (Segment_Acked seg n)
  then show ?thesis using assms(1)
    by (auto simp: tcp_shift_lwip_cc_hook_segment_acked_def tcp_shift_lwip_cc_on_segment_acked_def Let_def split: option.split)
next
  case (Lwip_Moves p)
  then show ?thesis using assms by (simp add: moves_ok_def lwip_moves_def bond_def)
qed (use assms(1) in \<open>auto simp: tcp_shift_lwip_cc_hook_ack_begin_def tcp_shift_lwip_cc_hook_loss_def tcp_shift_lwip_cc_hook_ecn_def
    tcp_shift_lwip_cc_hook_ecn_rto_gate_def tcp_shift_lwip_cc_hook_rack_retrans_loss_def tcp_shift_lwip_cc_hook_tlp_dupack_def
    tcp_shift_lwip_cc_hook_recovery_exit_def tcp_shift_lwip_cc_hook_timeout_def tcp_shift_lwip_cc_hook_rack_loss_status_def
    tcp_shift_lwip_cc_hook_segment_send_eligible_def tcp_shift_lwip_cc_hook_ack_def tcp_shift_lwip_cc_hook_ack_observe_def
    tcp_shift_lwip_cc_hook_sack_def case_prod_beta Let_def\<close>)

lemma run_linked: "linked sp s \<Longrightarrow> list_all moves_ok cs \<Longrightarrow> linked sp (fold hook_step cs s)"
  by (induction cs arbitrary: s) (simp_all add: step_linked)

end

interpretation reno_adapter: tireless_controller tcp_shift_reno_ops reno_inv
  by unfold_locales (auto simp: tcp_shift_reno_ops_def tcp_shift_reno_on_ack_def tcp_shift_reno_on_loss_def tcp_shift_reno_on_ecn_def
    tcp_shift_reno_on_timeout_def Let_def)

interpretation fixed_pacing_reno_adapter: tireless_controller tcp_shift_fixed_pacing_reno_ops reno_inv
  by unfold_locales (auto simp: tcp_shift_fixed_pacing_reno_ops_def tcp_shift_fixed_pacing_reno_on_ack_def
    tcp_shift_fixed_pacing_reno_on_loss_def tcp_shift_fixed_pacing_reno_on_ecn_def tcp_shift_fixed_pacing_reno_on_timeout_def
    tcp_shift_fixed_pacing_publish_def tcp_shift_reno_on_ack_def tcp_shift_reno_on_loss_def tcp_shift_reno_on_ecn_def
    tcp_shift_reno_on_timeout_def Let_def)

section \<open>Binding\<close>

lemma bond_prepare: "bond (bind_prepare ws n s) = (ad_id (ad s), False, Some (pcb_id (pcb s)), ad_controller (adapter_zero 0 :: 'a tcp_shift_lwip_cc_adapter),
    hook_zero\<lparr>hook_ops := True\<rparr>, ad_prr (adapter_zero 0 :: 'a tcp_shift_lwip_cc_adapter), False, pcb s)" for s :: "'a cc_sys"
  by (simp add: bind_prepare_def Let_def case_prod_beta) (simp add: bond_def adapter_zero_def)

lemma bond_apply_policy:
  assumes "\<not> fst (tcp_shift_lwip_cc_apply_policy policy s) < 0"
  shows "bond (snd (tcp_shift_lwip_cc_apply_policy policy s)) = bond (s\<lparr>pcb := (pcb s)\<lparr>pcb_cwnd := cwnd_bytes policy,
    pcb_ssthresh := ssthresh_bytes policy, pcb_bytes_acked := 0\<rparr>\<rparr>)"
proof -
  note c = core_pacing_cancel [of s, unfolded core_eq bond_def prod.inject]
  have w: "bond (with_pacing f x) = bond x" "bond (with_events g x) = bond x" for f g and x :: "'a cc_sys" by simp_all
  show ?thesis
    using assms unfolding tcp_shift_lwip_cc_apply_policy_def Let_def by (auto simp: w simp del: frames) (simp_all add: bond_def c)
qed

lemma bind_linked:
  assumes "tcp_shift_lwip_cc_adapter_bind ws n state s = (0, s')"
  shows "reno_adapter.linked False s'"
proof -
  define s1 where "s1 = bind_prepare ws n s"
  note b1 = bond_prepare [of ws n s, folded s1_def]
  obtain r cc p where i: "tcp_shift_cc_init (Some (ad_controller (ad s1))) (Some tcp_shift_reno_ops) (Some state)
      (ops_state_size tcp_shift_reno_ops) (Some (tcp_shift_lwip_cc_transport_from_adapter s1)) (Some (bind_init_config (pcb s1)))
      (Some policy_zero) = (r, cc, p)" by (metis prod_cases3)
  have m: "pcb_mss (pcb s) \<noteq> 0" using assms by (auto simp: tcp_shift_lwip_cc_adapter_bind_def split: if_split_asm)
  define s2 where "s2 = s1\<lparr>ad := (ad s1)\<lparr>ad_controller := the cc\<rparr>\<rparr>"
  obtain q s3 where ap: "tcp_shift_lwip_cc_apply_policy (the p) s2 = (q, s3)" by fastforce
  obtain g s4 where rg: "tcp_shift_pacing_register s3 = (g, s4)" by fastforce
  have f: "fst (bind_fail x) \<noteq> 0" for x :: "tcp_shift_reno_state cc_sys" by (simp add: bind_fail_def)
  have ok: "r = 0" "\<not> q < 0" "s' = snd (bind_finish s4)"
    using assms m f by (auto simp: tcp_shift_lwip_cc_adapter_bind_def s1_def [symmetric] s2_def [symmetric] i ap rg Let_def
      split: if_split_asm) (metis fst_conv)+
  have l: "cwnd_limit_bytes (tcp_shift_lwip_cc_transport_from_adapter s1) = UINT32_MAX"
    by (simp add: tcp_shift_lwip_cc_transport_from_adapter_def tcp_shift_lwip_cc_transport_from_pcb_def
      tcp_shift_lwip_cc_cwnd_limit_def Let_def)
  have c: "reno.bound UINT32_MAX (the cc)" "policy_in_range UINT32_MAX (the p)"
    using reno.init_bound [OF i [unfolded ok(1)]] l by auto
  have "bond s3 = bond (s2\<lparr>pcb := (pcb s2)\<lparr>pcb_cwnd := cwnd_bytes (the p), pcb_ssthresh := ssthresh_bytes (the p), pcb_bytes_acked := 0\<rparr>\<rparr>)"
    using bond_apply_policy [of "the p" s2] ok(2) by (simp add: ap)
  moreover have "bond s4 = bond s3" using core_register [of s3] by (simp add: rg core_eq)
  ultimately have b4: "bond s4 = (ad_id (ad s), False, Some (pcb_id (pcb s)), the cc, hook_zero\<lparr>hook_ops := True\<rparr>,
      ad_prr (adapter_zero 0 :: tcp_shift_reno_state tcp_shift_lwip_cc_adapter), False,
      (pcb s)\<lparr>pcb_cwnd := cwnd_bytes (the p), pcb_ssthresh := ssthresh_bytes (the p), pcb_bytes_acked := 0\<rparr>)"
    using b1 by (simp add: s2_def bond_def)
  have "bond s' = (ad_id (ad s4), True, ad_pcb (ad s4), ad_controller (ad s4), ad_hook (ad s4), ad_prr (ad s4),
      sack_delivery_policy (ad s4), (pcb s4)\<lparr>pcb_ext_arg := Some (ad_id (ad s4))\<rparr>)"
    by (simp add: ok(3) bind_finish_def Let_def) (simp add: bond_def)
  with b4 m c show ?thesis by (auto simp: bond_def policy_in_range_def adapter_zero_def)
qed

text \<open>C3. A connection bound with Reno keeps its controller. After a successful binding lwIP may call the hooks in any order and with any
  arguments, the clock, the allocator and the timer services may fail, and lwIP may change its control block as it likes as long as the segment
  size and its two windows are not zero: the adapter is never disabled (the \<^verbatim>\<open>disable_on_error\<close> path of a refusing controller, an unusable policy or a
  failed recovery step is not reached), the hooks stay installed, and neither the congestion window nor the threshold is ever
  zero, in proportional rate reduction as well.\<close>

theorem reno_adapter_never_falls_back:
  assumes "tcp_shift_lwip_cc_adapter_bind with_stats slot_bytes state s = (0, s')" "list_all moves_ok cs"
  shows "let t = fold hook_step cs s' in ad_bound (ad t) \<and> hook_installed t \<and> 0 < pcb_cwnd (pcb t) \<and> 0 < pcb_ssthresh (pcb t)"
proof -
  have "reno_adapter.linked False (fold hook_step cs s')" by (rule reno_adapter.run_linked [OF bind_linked [OF assms(1)] assms(2)])
  then show ?thesis by (auto simp: Let_def bond_def hook_installed_def word_gt_0)
qed

definition demo_recovery :: "hook_call list" where
  "demo_recovery = demo_delivery @ [Ack_Begin, Sack 1006 [\<lparr>sack_left = 1010, sack_right = 1015\<rparr>], Loss 1000, Send_Eligible 10, Segment_Tx (Some 9) 1015 10,
     Ack_Observe 4, Recovery_Exit 1015, Timeout, Ecn, Mark_App_Limited]"

theorem reno_adapter_never_falls_back_witness:
  "fst (tcp_shift_lwip_cc_adapter_bind True 64
     \<lparr>reno_cwnd_bytes = 0, reno_ssthresh_bytes = 0, reno_ca_acked_bytes = 0, reno_min_cwnd_bytes = 0\<rparr> demo_unbound) = 0 \<and>
   (let t = fold hook_step demo_recovery demo_bound in ad_bound (ad t) \<and> hook_installed t \<and> 0 < pcb_cwnd (pcb t) \<and> 0 < pcb_ssthresh (pcb t))"
proof -
  have f: "fst (tcp_shift_lwip_cc_adapter_bind True 64
     \<lparr>reno_cwnd_bytes = 0, reno_ssthresh_bytes = 0, reno_ca_acked_bytes = 0, reno_min_cwnd_bytes = 0\<rparr> demo_unbound) = 0" by code_simp
  then have "tcp_shift_lwip_cc_adapter_bind True 64
     \<lparr>reno_cwnd_bytes = 0, reno_ssthresh_bytes = 0, reno_ca_acked_bytes = 0, reno_min_cwnd_bytes = 0\<rparr> demo_unbound = (0, demo_bound)"
    by (simp add: demo_bound_def prod_eq_iff)
  moreover have "list_all moves_ok demo_recovery" by (simp add: demo_recovery_def demo_delivery_def moves_ok_def demo_pcb_def)
  ultimately show ?thesis using reno_adapter_never_falls_back f by blast
qed

end
