(* ===== verification/Adapter_Gates.thy ===== *)
theory Adapter_Gates
  imports Adapter_Entry
begin

text \<open>
  The decisions of \<^verbatim>\<open>src/lwip/cc_adapter.c\<close> about single calls: the window lwIP may fill, the gate of a send, the delivery-rate
  sample of an acknowledgement, and the registry that keeps a timer event from reaching the wrong connection.
\<close>

unbundle bit_operations_syntax

section \<open>The effective window\<close>

lemma unat_credit_window:
  fixes cwnd credit raw :: u32
  assumes "unat raw + n \<le> 4294967295" "unat credit \<le> unat raw"
  shows "unat raw + n \<le> unat (if cwnd > UINT32_MAX - credit then UINT32_MAX else cwnd + credit) \<longleftrightarrow>
    unat raw - unat credit + n \<le> unat cwnd"
proof (cases "cwnd > UINT32_MAX - credit")
  case True
  then have "unat cwnd > 4294967295 - unat credit" using unat_lt_u32 [of credit] by (simp add: word_less_nat_alt unat_diff_exact)
  then show ?thesis using True assms by simp
next
  case False
  then have "unat cwnd + unat credit \<le> 4294967295" using unat_lt_u32 [of credit] by (simp add: word_less_nat_alt unat_diff_exact)
  then have "unat (cwnd + credit) = unat cwnd + unat credit" by (subst unat_add_exact) simp_all
  then show ?thesis using False assms(2) by auto
qed

text \<open>C37. lwIP sends \<open>n\<close> more bytes when \<open>snd_nxt - lastack + n\<close> fits the effective window. That test means what the controller means: in proportional
  rate reduction the bytes fit the credit of the last acknowledgement; under a controller that counts selective acknowledgements the bytes in flight that
  are not yet selectively acknowledged (never more than the sequence range) and the new ones fit the congestion window; otherwise the
  sequence range and the new bytes do. No wrap-around of the 32-bit sums changes an answer.\<close>

theorem effective_cwnd_means_controller_window:
  assumes "ad_bound (ad s)" "ad_pcb (ad s) = Some p" "unat (pcb_snd_nxt (pcb s) - pcb_lastack (pcb s)) + n \<le> 4294967295"
  shows "let raw = unat (pcb_snd_nxt (pcb s) - pcb_lastack (pcb s)); cwnd = unat (pcb_cwnd (pcb s));
      unsacked = unat (tcp_shift_delivery_outstanding_payload (ad s))
    in raw + n \<le> unat (tcp_shift_lwip_cc_effective_cwnd p s) \<longleftrightarrow>
       (if prr_active (ad_prr (ad s)) then n \<le> unat (prr_send_credit_bytes (ad s))
        else if sack_delivery_policy (ad s) then min unsacked raw + n \<le> cwnd
        else raw + n \<le> cwnd)"
proof -
  define raw where "raw = pcb_snd_nxt (pcb s) - pcb_lastack (pcb s)"
  define act where "act = tcp_shift_delivery_outstanding_payload (ad s)"
  define cr where "cr = prr_send_credit_bytes (ad s)"
  note n = assms(3) [folded raw_def]
  have prr: "unat raw + n \<le> unat (if raw > UINT32_MAX - cr then UINT32_MAX else raw + cr) \<longleftrightarrow> n \<le> unat cr"
  proof (cases "raw > UINT32_MAX - cr")
    case True
    then have "unat raw > 4294967295 - unat cr" using unat_lt_u32 [of cr] by (simp add: word_less_nat_alt unat_diff_exact)
    then show ?thesis using True n by simp
  next
    case False
    then have "unat raw + unat cr \<le> 4294967295" using unat_lt_u32 [of cr] by (simp add: word_less_nat_alt unat_diff_exact)
    then have "unat (raw + cr) = unat raw + unat cr" by (subst unat_add_exact) simp_all
    then show ?thesis using False by auto
  qed
  have sack: "unat raw + n \<le> unat (if pcb_cwnd (pcb s) > UINT32_MAX - (raw - act) then UINT32_MAX else pcb_cwnd (pcb s) + (raw - act)) \<longleftrightarrow>
      unat act + n \<le> unat (pcb_cwnd (pcb s))" if "act < raw"
  proof -
    have "unat (raw - act) = unat raw - unat act" using that by (simp add: word_less_nat_alt unat_diff_exact)
    then show ?thesis using unat_credit_window [OF n, of "raw - act"] that by (simp add: word_less_nat_alt add.commute)
  qed
  have le: "act \<ge> raw \<longleftrightarrow> unat raw \<le> unat act" by (simp add: word_le_nat_alt)
  show ?thesis
    using assms(1,2) prr sack
    unfolding tcp_shift_lwip_cc_effective_cwnd_def Let_def raw_def [symmetric] act_def [symmetric] cr_def [symmetric]
    by (cases "act \<ge> raw") (simp_all add: le min_def linorder_not_le word_less_nat_alt)
qed

definition demo_window :: "tcp_shift_reno_state cc_sys" where
  "demo_window = demo_unbound\<lparr>ad := (ad demo_unbound)\<lparr>ad_bound := True, ad_pcb := Some 5, sack_delivery_policy := True, delivery_slots :=
     [slot_zero\<lparr>sl_segment := Some 1, sl_payload_bytes := 20, sl_acked_payload_bytes := 15\<rparr>]\<rparr>, pcb := demo_pcb\<lparr>pcb_snd_nxt := 1020, pcb_cwnd := 12\<rparr>\<rparr>"

theorem effective_cwnd_means_controller_window_witness:
  "20 + 7 \<le> unat (tcp_shift_lwip_cc_effective_cwnd 5 demo_window) \<longleftrightarrow> min 5 20 + 7 \<le> (12 :: nat)"
proof -
  have v: "unat (pcb_snd_nxt (pcb demo_window) - pcb_lastack (pcb demo_window)) = 20" "unat (pcb_cwnd (pcb demo_window)) = 12"
    "unat (tcp_shift_delivery_outstanding_payload (ad demo_window)) = 5"
    by code_simp+
  have b: "ad_bound (ad demo_window)" "ad_pcb (ad demo_window) = Some 5" "\<not> prr_active (ad_prr (ad demo_window))" "sack_delivery_policy (ad demo_window)"
    by (simp_all add: demo_window_def demo_unbound_def adapter_zero_def)
  show ?thesis using effective_cwnd_means_controller_window [OF b(1,2), of 7] b(3,4) unfolding Let_def v by simp
qed

section \<open>The gate of a send\<close>

lemma now_frame:
  assumes "tcp_shift_delivery_now_ns s = (now_ns, s0)"
  shows "pacing_next_send_ns (ad s0) = pacing_next_send_ns (ad s)" "ad_pacing_rate_bytes_per_sec (ad s0) = ad_pacing_rate_bytes_per_sec (ad s)"
    "pacing_flow_id (ad s0) = pacing_flow_id (ad s)" "pacing_generation (ad s0) = pacing_generation (ad s)"
    "pacing_scheduled (ad s0) = pacing_scheduled (ad s)" "env_log (env s0) = env_log (env s)" "service s0 = service s"
  using assms by (auto simp: tcp_shift_delivery_now_ns_def ask_clock_def with_delivery_def Let_def split: prod.split_asm option.split_asm if_split_asm)

lemma flow_clock_deadline:
  "tcp_shift_flow_pacer_deadline (flow_clock a) now_ns =
    (if ad_pacing_rate_bytes_per_sec a = 0 \<or> pacing_next_send_ns a \<le> now_ns then 0 else pacing_next_send_ns a)"
  by (auto simp: tcp_shift_flow_pacer_deadline_def flow_clock_def tcp_shift_flow_pacer_set_rate_def tcp_shift_flow_pacer_init_def Let_def)

lemma ask_pacer_frame:
  assumes "ask_pacer c s = (r, s1)"
  shows "ad s1 = ad s" "env_log (env s1) = c # env_log (env s)"
  using assms by (auto simp: ask_pacer_def split: prod.split_asm)

lemma with_pacing_frame [simp]: "ad (with_pacing f s) = ad s" "env (with_pacing f s) = env s"
  by (simp_all add: with_pacing_def)

lemma pacing_off_frame [simp]: "ad_pacing_rate_bytes_per_sec (ad (pacing_off s)) = 0"
  by (simp add: pacing_off_def Let_def)


definition demo_paced :: "tcp_shift_reno_state cc_sys" where
  "demo_paced = demo_unbound\<lparr>ad := (ad demo_unbound)\<lparr>ad_bound := True, ad_pcb := Some 5, ad_pacing_rate_bytes_per_sec := 1000, pacing_flow_id := 1,
     pacing_generation := 1, pacing_next_send_ns := 1500000000\<rparr>, env := demo_env\<lparr>env_pacer := [0]\<rparr>\<rparr>"


section \<open>Rate samples\<close>

text \<open>C39. The delivery-rate sample of an acknowledgement, from the newest segment \<open>c\<close> it touched. Its interval is the longer of the time the segment's flight took
  to send and to be acknowledged; the rate is the delivered bytes over that interval in bytes per second, rounded down, computed in 64 bits
  without overflow; the sample is valid exactly when this rate is not zero. A round-trip time is reported only for a segment that was
  never retransmitted and whose clock did not run backwards, and then it is the time since its transmission.\<close>

theorem rate_sample_exact:
  assumes "delivered_added \<noteq> 0" "tcp_shift_delivery_finalize_rate_sample (Some c) delivered_added now_ns touched partial rate_zero s = (r, s')"
  shows "let sent = unat (sl_tx_ns c) - unat (sl_first_tx_mstamp_at_send_ns c); acked = unat now_ns - unat (sl_delivered_mstamp_at_send_ns c)
    in unat (interval_ns r) = max sent acked \<and>
       delivered_total_bytes r = ad_delivered_bytes (ad s) + delivered_added \<and>
       unat (delivered_bytes r) = min 4294967295 (unat (delivered_total_bytes r - sl_delivered_at_send c)) \<and>
       unat (delivery_rate_bytes_per_sec r) = unat (delivered_bytes r) * 1000000000 div max sent acked \<and>
       (has_flag r TCP_SHIFT_CC_RATE_SAMPLE_VALID \<longleftrightarrow> delivery_rate_bytes_per_sec r \<noteq> 0) \<and>
       (has_flag r TCP_SHIFT_CC_RATE_SAMPLE_RTT_VALID \<longleftrightarrow> \<not> sl_retransmitted c \<and> sl_tx_ns c \<noteq> 0 \<and> sl_tx_ns c \<le> now_ns) \<and>
       (has_flag r TCP_SHIFT_CC_RATE_SAMPLE_RTT_VALID \<longrightarrow> unat (rtt_ns r) = unat now_ns - unat (sl_tx_ns c))"
proof -
  define d where "d = ad_delivered_bytes (ad s) + delivered_added"
  have p: "ad_delivered_bytes (ad (note_progress delivered_added now_ns touched partial s)) = d"
    by (simp add: note_progress_def Let_def with_rate_def with_delivery_def d_def)
  have r: "r = sample_of d now_ns c rate_zero"
    using assms by (simp add: tcp_shift_delivery_finalize_rate_sample_def Let_def p)
  define si where "si = (if sl_tx_ns c \<ge> sl_first_tx_mstamp_at_send_ns c then sl_tx_ns c - sl_first_tx_mstamp_at_send_ns c else 0)"
  define ai where "ai = (if now_ns \<ge> sl_delivered_mstamp_at_send_ns c then now_ns - sl_delivered_mstamp_at_send_ns c else 0)"
  define iv where "iv = (if si > ai then si else ai)"
  define db where "db = saturate_u32 (d - sl_delivered_at_send c)"
  define rt where "rt = tcp_shift_rate_bytes_per_second db iv"
  have u: "unat si = unat (sl_tx_ns c) - unat (sl_first_tx_mstamp_at_send_ns c)" "unat ai = unat now_ns - unat (sl_delivered_mstamp_at_send_ns c)"
    by (auto simp: si_def ai_def unat_diff_exact word_le_nat_alt)
  have i: "unat iv = max (unat si) (unat ai)" by (auto simp: iv_def word_less_nat_alt)
  have b: "unat db = min 4294967295 (unat (d - sl_delivered_at_send c))"
    by (auto simp: db_def saturate_u32_def word_less_nat_alt unsigned_ucast_eq take_bit_nat_eq_self)
  have "unat (u64_of db * 1000000000) = unat db * 1000000000" using unat_lt_u32 [of db] by (subst unat_mult_exact) simp_all
  then have t: "unat rt = unat db * 1000000000 div unat iv"
    by (auto simp: rt_def tcp_shift_rate_bytes_per_second_def TCP_SHIFT_NSEC_PER_SEC_adapter_def unat_div_distrib word_zero_nat)
  have v: "rt \<noteq> 0 \<Longrightarrow> db \<noteq> 0 \<and> iv \<noteq> 0" by (auto simp: rt_def tcp_shift_rate_bytes_per_second_def)
  define x where "x = sample_base d now_ns c rate_zero"
  have x: "interval_ns x = iv" "delivered_total_bytes x = d" "delivered_bytes x = db"
    by (simp_all add: x_def sample_base_def Let_def rate_zero_def iv_def si_def ai_def db_def)
  have xf: "flags x = (if sl_app_limited c then TCP_SHIFT_CC_RATE_SAMPLE_APP_LIMITED else 0) OR
      (if sl_retransmitted c then TCP_SHIFT_CC_RATE_SAMPLE_RETRANSMITTED
       else if sl_tx_ns c \<noteq> 0 \<and> now_ns \<ge> sl_tx_ns c then TCP_SHIFT_CC_RATE_SAMPLE_RTT_VALID else 0)"
    by (simp add: x_def sample_base_def Let_def rate_zero_def)
  have rx: "r = (if rt \<noteq> 0 then x\<lparr>delivery_rate_bytes_per_sec := rt, flags := flags x OR TCP_SHIFT_CC_RATE_SAMPLE_VALID\<rparr>
      else x\<lparr>delivery_rate_bytes_per_sec := rt\<rparr>)"
    using v by (simp add: r sample_of_def x_def [symmetric] Let_def x rt_def [symmetric])
  have f: "interval_ns r = iv" "delivered_total_bytes r = d" "delivered_bytes r = db" "delivery_rate_bytes_per_sec r = rt"
    by (simp_all add: rx x)
  have fl: "has_flag r TCP_SHIFT_CC_RATE_SAMPLE_VALID \<longleftrightarrow> rt \<noteq> 0"
    "has_flag r TCP_SHIFT_CC_RATE_SAMPLE_RTT_VALID \<longleftrightarrow> \<not> sl_retransmitted c \<and> sl_tx_ns c \<noteq> 0 \<and> sl_tx_ns c \<le> now_ns"
  proof -
    have w: "flags r = flags x OR (if rt \<noteq> 0 then TCP_SHIFT_CC_RATE_SAMPLE_VALID else 0)" by (simp add: rx)
    show "has_flag r TCP_SHIFT_CC_RATE_SAMPLE_VALID \<longleftrightarrow> rt \<noteq> 0"
      "has_flag r TCP_SHIFT_CC_RATE_SAMPLE_RTT_VALID \<longleftrightarrow> \<not> sl_retransmitted c \<and> sl_tx_ns c \<noteq> 0 \<and> sl_tx_ns c \<le> now_ns"
      unfolding has_flag_def w xf rate_sample_flag_defs by simp_all
  qed
  have "unat (rtt_ns r) = unat now_ns - unat (sl_tx_ns c)" if "\<not> sl_retransmitted c" "sl_tx_ns c \<noteq> 0" "sl_tx_ns c \<le> now_ns"
    using that by (simp add: rx x_def sample_base_def Let_def unat_diff_exact word_le_nat_alt)
  then show ?thesis unfolding Let_def u [symmetric] i [symmetric] f fl using b t by (auto simp: d_def)
qed

definition demo_slot :: tcp_shift_delivery_slot where
  "demo_slot = slot_zero\<lparr>sl_segment := Some 7, sl_tx_ns := 1003000000, sl_first_tx_mstamp_at_send_ns := 1002000000,
     sl_delivered_mstamp_at_send_ns := 1002000000, sl_payload_bytes := 5\<rparr>"

theorem rate_sample_exact_witness:
  "\<exists>r s'. tcp_shift_delivery_finalize_rate_sample (Some demo_slot) 5 1004000000 1 False rate_zero demo_unbound = (r, s') \<and>
     unat (interval_ns r) = 2000000 \<and> unat (delivered_bytes r) = 5 \<and> unat (delivery_rate_bytes_per_sec r) = 2500 \<and>
     has_flag r TCP_SHIFT_CC_RATE_SAMPLE_VALID \<and> unat (rtt_ns r) = 1000000"
proof -
  obtain r s' where g: "tcp_shift_delivery_finalize_rate_sample (Some demo_slot) 5 1004000000 1 False rate_zero demo_unbound = (r, s')" by fastforce
  have d: "ad_delivered_bytes (ad demo_unbound) = 0" by (simp add: demo_unbound_def adapter_zero_def)
  have f: "sl_tx_ns demo_slot = 1003000000" "sl_first_tx_mstamp_at_send_ns demo_slot = 1002000000"
    "sl_delivered_mstamp_at_send_ns demo_slot = 1002000000" "sl_delivered_at_send demo_slot = 0" "\<not> sl_retransmitted demo_slot"
    by (simp_all add: demo_slot_def slot_zero_def)
  show ?thesis using rate_sample_exact [OF _ g] by (intro exI [of _ r] exI [of _ s']) (auto simp: g d f word_zero_nat)
qed

section \<open>The registry of flows\<close>

lemma free_index_Some:
  assumes "free_index es = Some i"
  shows "i < length es" "entry_adapter (es ! i) = None"
  using assms by (induction es arbitrary: i) (auto split: if_split_asm)

text \<open>A lookup over the entries.\<close>

lemma registry_find_update:
  assumes "i < length (sv_entries sv)" "length (sv_entries sv) < 2 ^ 64"
  shows "registry_find (sv\<lparr>sv_entries := (sv_entries sv)[i := e], sv_active := n\<rparr>) flow gen =
    (if flow = of_nat i + 1 then if entry_generation e = gen then entry_adapter e else None else registry_find sv flow gen)"
proof -
  have u: "unat (of_nat i + 1 :: u64) = i + 1" using assms by (subst unat_add_exact) (simp_all add: unsigned_of_nat take_bit_nat_eq_self)
  show ?thesis
  proof (cases "flow = of_nat i + 1")
    case True
    moreover have "unat (of_nat i :: u64) = i" using assms by (simp add: unsigned_of_nat take_bit_nat_eq_self)
    ultimately show ?thesis using assms(1) u by (auto simp: registry_find_def word_zero_nat Let_def simp del: unsigned_of_nat)
  next
    case False
    have "of_nat (unat (flow - 1)) + 1 = flow" by simp
    then have "unat (flow - 1) \<noteq> i" using False by auto
    then show ?thesis using False by (auto simp: registry_find_def Let_def)
  qed
qed

lemma registry_find_grown:
  assumes "length es = length (sv_entries sv) + n"
    "\<And>i. i < length es \<Longrightarrow> es ! i = (if i < length (sv_entries sv) then sv_entries sv ! i else entry_zero)"
  shows "registry_find (sv\<lparr>sv_entries := es\<rparr>) flow gen = registry_find sv flow gen"
proof -
  have "unat flow = Suc (unat (flow - 1))" if "flow \<noteq> 0" using that by (simp add: unat_minus_one word_zero_nat)
  then show ?thesis using assms by (auto simp: registry_find_def Let_def entry_zero_def Suc_le_eq)
qed

text \<open>What registering does: the entry it takes, and which generation it gets.\<close>

lemma register_entry:
  assumes "sv_ops (service s) \<noteq> None" "tcp_shift_pacing_register s = (0, s')"
  shows "\<exists>i es. i < length es \<and> entry_adapter (es ! i) = None \<and>
    (\<forall>flow gen. registry_find ((service s)\<lparr>sv_entries := es\<rparr>) flow gen = registry_find (service s) flow gen) \<and>
    (\<forall>j < length (sv_entries (service s)). es ! j = sv_entries (service s) ! j) \<and> length (sv_entries (service s)) \<le> length es \<and>
    sv_entries (service s') = es[i := \<lparr>entry_adapter = Some (ad_id (ad s)), entry_generation = pacing_generation (ad s')\<rparr>] \<and>
    pacing_flow_id (ad s') = of_nat i + 1 \<and> pacing_generation (ad s') \<noteq> entry_generation (es ! i) \<and> ad_id (ad s') = ad_id (ad s)"
proof -
  have g: "(if g + 1 = 0 then 1 else g + 1) \<noteq> g" for g :: u32
    by (cases "g + 1 = 0") (auto simp: eq_neg_iff_add_eq_0 [symmetric])
  have t: "sv_entries (service (take_entry i x)) =
        (sv_entries (service x))[i := \<lparr>entry_adapter = Some (ad_id (ad x)), entry_generation = pacing_generation (ad (take_entry i x))\<rparr>]"
    "pacing_flow_id (ad (take_entry i x)) = of_nat i + 1" "ad_id (ad (take_entry i x)) = ad_id (ad x)"
    "pacing_generation (ad (take_entry i x)) \<noteq> entry_generation (sv_entries (service x) ! i)" for i and x :: "'a cc_sys"
    using g [of "entry_generation (sv_entries (service x) ! i)"] by (simp_all add: take_entry_def Let_def)
  show ?thesis
  proof (cases "free_index (sv_entries (service s))")
    case (Some i)
    then have "s' = take_entry i s" using assms by (auto simp: tcp_shift_pacing_register_def)
    then show ?thesis using free_index_Some [OF Some] t [of i s]
      by (intro exI [of _ i] exI [of _ "sv_entries (service s)"]) simp
  next
    case None
    obtain r s1 where r: "tcp_shift_pacing_registry_grow s = (r, s1)" by fastforce
    obtain n where e: "\<not> r < 0 \<Longrightarrow> sv_entries (service s1) = sv_entries (service s) @ replicate n entry_zero" "ad s1 = ad s"
      using r by (auto simp: tcp_shift_pacing_registry_grow_def ask_alloc_def Let_def split: prod.split_asm if_split_asm)
    obtain i where i: "\<not> r < 0" "free_index (sv_entries (service s1)) = Some i" "s' = take_entry i s1"
      using assms None r by (auto simp: tcp_shift_pacing_register_def split: if_split_asm option.split_asm)
    have "registry_find ((service s)\<lparr>sv_entries := sv_entries (service s1)\<rparr>) flow gen = registry_find (service s) flow gen" for flow gen
      by (rule registry_find_grown [of _ _ n]) (simp_all add: e(1) [OF i(1)] nth_append)
    then show ?thesis using free_index_Some [OF i(2)] t [of i s1] i(3) e
      by (intro exI [of _ i] exI [of _ "sv_entries (service s1)"]) (simp add: i(1) nth_append)
  qed
qed

lemma registry_find_entries: "sv_entries sv = sv_entries sv' \<Longrightarrow> registry_find sv flow gen = registry_find sv' flow gen"
  by (simp add: registry_find_def)

lemma register_find:
  assumes "sv_ops (service s) \<noteq> None" "tcp_shift_pacing_register s = (0, s')" "length (sv_entries (service s')) < 2 ^ 64"
  shows "registry_find (service s') flow gen =
    (if flow = pacing_flow_id (ad s') \<and> gen = pacing_generation (ad s') then Some (ad_id (ad s)) else registry_find (service s) flow gen)"
proof -
  obtain i es where r: "i < length es" "entry_adapter (es ! i) = None"
    "\<And>flow gen. registry_find ((service s)\<lparr>sv_entries := es\<rparr>) flow gen = registry_find (service s) flow gen"
    "sv_entries (service s') = es[i := \<lparr>entry_adapter = Some (ad_id (ad s)), entry_generation = pacing_generation (ad s')\<rparr>]"
    "pacing_flow_id (ad s') = of_nat i + 1"
    using register_entry [OF assms(1,2)] by blast
  define sv where "sv = (service s)\<lparr>sv_entries := es\<rparr>"
  have "length es < 2 ^ 64" using assms(3) r(4) by simp
  moreover have "registry_find (service s') flow gen = registry_find (sv\<lparr>sv_entries :=
      (sv_entries sv)[i := \<lparr>entry_adapter = Some (ad_id (ad s)), entry_generation = pacing_generation (ad s')\<rparr>], sv_active := 0\<rparr>) flow gen"
    by (rule registry_find_entries) (simp add: r(4) sv_def)
  moreover have "registry_find (service s) (of_nat i + 1) gen = None"
    using r(1,2) r(3) [of "of_nat i + 1" gen] calculation(1)
    by (auto simp: registry_find_def Let_def unsigned_of_nat take_bit_nat_eq_self split: if_split_asm)
  ultimately show ?thesis using registry_find_update [of i sv] r(1,3,5) by (auto simp: sv_def)
qed

lemma cancel_frame: "service (tcp_shift_pacing_cancel s) = service s" "service (tcp_shift_recovery_timer_cancel s) = service s"
  "pacing_flow_id (ad (tcp_shift_pacing_cancel s)) = pacing_flow_id (ad s)"
  "pacing_generation (ad (tcp_shift_pacing_cancel s)) = pacing_generation (ad s)" "ad_id (ad (tcp_shift_pacing_cancel s)) = ad_id (ad s)"
  "pacing_flow_id (ad (tcp_shift_recovery_timer_cancel s)) = pacing_flow_id (ad s)"
  "pacing_generation (ad (tcp_shift_recovery_timer_cancel s)) = pacing_generation (ad s)"
  "ad_id (ad (tcp_shift_recovery_timer_cancel s)) = ad_id (ad s)"
  by (simp_all add: tcp_shift_pacing_cancel_def tcp_shift_recovery_timer_cancel_def ask_pacer_def ask_timer_def scheduler_error_def
    with_pacing_def case_prod_beta Let_def)

lemma unregister_entries:
  assumes "i < length (sv_entries (service s))" "length (sv_entries (service s)) < 2 ^ 64"
    "pacing_flow_id (ad s) = of_nat i + 1" "sv_entries (service s) ! i = \<lparr>entry_adapter = Some (ad_id (ad s)), entry_generation = pacing_generation (ad s)\<rparr>"
  shows "sv_entries (service (tcp_shift_pacing_unregister s)) =
    (sv_entries (service s))[i := \<lparr>entry_adapter = None, entry_generation = pacing_generation (ad s)\<rparr>]"
proof -
  have u: "unat (of_nat i :: u64) = i" "unat (of_nat i + 1 :: u64) = i + 1"
    using assms(1,2) by (simp_all add: unsigned_of_nat take_bit_nat_eq_self unat_add_exact)
  then have "pacing_flow_id (ad s) \<noteq> 0" by (metis Suc_eq_plus1 assms(3) nat.distinct(1) unsigned_0)
  then show ?thesis using assms u by (simp add: tcp_shift_pacing_unregister_def Let_def cancel_frame del: unsigned_of_nat)
qed

lemma registry_find_at:
  assumes "i < length (sv_entries sv)" "length (sv_entries sv) < 2 ^ 64"
  shows "registry_find sv (of_nat i + 1) gen =
    (if entry_generation (sv_entries sv ! i) = gen then entry_adapter (sv_entries sv ! i) else None)"
proof -
  have "registry_find sv (of_nat i + 1) gen = registry_find (sv\<lparr>sv_entries := (sv_entries sv)[i := sv_entries sv ! i], sv_active := 0\<rparr>) (of_nat i + 1) gen"
    by (rule registry_find_entries) simp
  then show ?thesis using registry_find_update [OF assms, where e = "sv_entries sv ! i"] by simp
qed

text \<open>An entry that is taken again gets another generation.\<close>

lemma register_generation_fresh:
  assumes "sv_ops (service s) \<noteq> None" "tcp_shift_pacing_register s = (0, s')" "length (sv_entries (service s')) < 2 ^ 64"
    "i < length (sv_entries (service s))"
  shows "\<not> (pacing_flow_id (ad s') = of_nat i + 1 \<and> pacing_generation (ad s') = entry_generation (sv_entries (service s) ! i))"
proof
  assume a: "pacing_flow_id (ad s') = of_nat i + 1 \<and> pacing_generation (ad s') = entry_generation (sv_entries (service s) ! i)"
  obtain k es where k: "k < length es" "\<forall>j < length (sv_entries (service s)). es ! j = sv_entries (service s) ! j"
    "pacing_flow_id (ad s') = of_nat k + 1" "pacing_generation (ad s') \<noteq> entry_generation (es ! k)"
    "length (sv_entries (service s')) = length es" "length (sv_entries (service s)) \<le> length es"
    using register_entry [OF assms(1,2)] by auto
  have "(of_nat i :: u64) = of_nat k" using a k(3) by simp
  moreover have "i < 2 ^ 64" "k < 2 ^ 64" using assms(3,4) k(1,5,6) by linarith+
  ultimately have "i = k" by (simp add: word_of_nat_eq_iff take_bit_nat_eq_self)
  then show False using k(2,4) a assms(4) by simp
qed


definition demo_registered :: "tcp_shift_reno_state cc_sys" where
  "demo_registered = snd (tcp_shift_pacing_register demo_unbound)"

definition demo_taken_again :: "tcp_shift_reno_state cc_sys" where
  "demo_taken_again = snd (tcp_shift_pacing_register ((tcp_shift_pacing_unregister demo_registered)\<lparr>ad := adapter_zero 9\<rparr>))"


end
