(* ===== verification/Spec2Isabelle.thy ===== *)
theory Spec2Isabelle
  imports Registry Observation Transport_Pacing Prr Flow_Pacer Pacer Rack_Tlp Bbr_Invariants Tcp_Memory
    Service_Roundtrip Lwip_Loop Bridge_Run
    Bbr3_Invariants Bbr3_Filter Bbr3_Evidence Adapter_Safety Adapter_Gates
begin

text \<open>
  A verification development of \<^bold>\<open>tcp-shift\<close>, a userspace TCP endpoint: public TCP connections arrive as IP packets on a TUN
  device, are terminated in lwIP with a congestion controller of the program's own, and their byte streams are
  bridged to a backend over ordinary kernel sockets. All paths below are relative to the directory \<^verbatim>\<open>src\<close> of the
  repository, as in \<^verbatim>\<open>src/cc/reno.c\<close>.

  \<^bold>\<open>The parts and how they interact.\<close> \<^verbatim>\<open>service_config.c\<close> reads the configuration. The event loop
  (\<^verbatim>\<open>runtime/lwip_loop.c\<close>) waits on the TUN device, the pacing timer, the recovery timer and the backend sockets. Packets go
  through \<^verbatim>\<open>lwip/l3_tun.c\<close> into lwIP. The bridge (\<^verbatim>\<open>bridge/bridge.c\<close>) moves bytes between a lwIP connection and its backend, and
  \<^verbatim>\<open>lwip/tcp_memory.c\<close> bounds what the connections queue. Every connection has an adapter (\<^verbatim>\<open>lwip/cc_adapter.c\<close>) that lwIP's patched
  sources call through the hooks of \<^verbatim>\<open>lwip/cc_hooks.h\<close>; it keeps the delivery accounting, RACK and tail loss probes
  (\<^verbatim>\<open>lwip/rack_tlp.c\<close>), proportional rate reduction (\<^verbatim>\<open>lwip/prr.c\<close>) and the pacing of sends, and asks a controller behind the
  boundary \<^verbatim>\<open>cc/cc.c\<close> for its policy. The controllers are Reno, fixed-pacing Reno, CUBIC with HyStart++, a compact BBR and BBRv3.
  The pacing scheduler (\<^verbatim>\<open>runtime/pacer.c\<close>) wakes the connections whose send time has come.

  \<^bold>\<open>Theories.\<close>
  \<^item> \<open>Prelude\<close>: fixed-width integers, the limit macros, generic facts about words and lists, and the interfaces
    \<open>saturating_add\<close> and \<open>saturating_mul\<close>, which the five copies of the saturating helpers in the sources interpret.
  \<^item> \<open>Cc_Core\<close> (\<^verbatim>\<open>cc/cc.h\<close>, \<^verbatim>\<open>cc/cc.c\<close>): the operation table and the checked entry points. The interface \<open>cc_controller\<close>
    says what a controller promises; \<open>Reno\<close> and \<open>Cubic_Controller\<close> interpret it, and \<open>Registry\<close> looks controllers up by name.
  \<^item> \<open>Reno\<close> (\<^verbatim>\<open>cc/reno.c\<close>); \<open>Cubic_Math\<close>, \<open>Cubic\<close> and \<open>Cubic_Controller\<close> (\<^verbatim>\<open>cc/cubic.c\<close>, \<^verbatim>\<open>cc/cubic_hystart.c\<close>,
    \<^verbatim>\<open>cc/cubic_controller.c\<close>); \<open>Observation\<close> (\<^verbatim>\<open>cc/observation.c\<close>); \<open>Transport_Pacing\<close> (\<^verbatim>\<open>cc/transport_pacing.c\<close>).
  \<^item> \<open>Bbr_Math\<close>, \<open>Bbr_Model\<close>, \<open>Bbr_Filters\<close>, \<open>Bbr_Probe\<close>, \<open>Bbr_Recovery\<close>, \<open>Bbr_Controller\<close>, \<open>Bbr_Invariants\<close>
    (\<^verbatim>\<open>cc/bbr.c\<close>, \<^verbatim>\<open>cc/bbr_pacing.c\<close>, \<^verbatim>\<open>cc/bbr_drain.c\<close>, \<^verbatim>\<open>cc/bbr_probe.c\<close>, \<^verbatim>\<open>cc/bbr_recovery.c\<close>, \<^verbatim>\<open>cc/bbr_controller.c\<close>). The interface
    \<open>rational_scale\<close> holds the exactness of scaling by a rational gain for the three copies of that code and for BBRv3.
  \<^item> \<open>Bbr3_Model\<close>, \<open>Bbr3_Probe\<close>, \<open>Bbr3_Congestion\<close>, \<open>Bbr3_Controller\<close>, with \<open>Bbr3_Filter\<close> and \<open>Bbr3_Invariants\<close> for what they
    guarantee (\<^verbatim>\<open>cc/bbr3_model.c\<close>, \<^verbatim>\<open>cc/bbr3_probe.c\<close>, \<^verbatim>\<open>cc/bbr3_congestion.c\<close>, \<^verbatim>\<open>cc/bbr3_controller.c\<close>); \<open>Bbr3_Evidence\<close>
    (\<^verbatim>\<open>lwip/bbr3_rack_evidence.c\<close>, \<^verbatim>\<open>lwip/bbr3_loss_round.c\<close>).
  \<^item> \<open>Flow_Pacer\<close>, \<open>Event_Heap\<close>, \<open>Pacer\<close> (\<^verbatim>\<open>runtime/pacer.c\<close>): the virtual send clock of a flow, the array heap, the
    scheduler with its timer. The heap interprets the interface \<open>deadline_queue\<close>.
  \<^item> \<open>Prr\<close> (\<^verbatim>\<open>lwip/prr.c\<close>) and \<open>Rack_Tlp\<close> (\<^verbatim>\<open>lwip/rack_tlp.c\<close>).
  \<^item> \<open>Adapter\<close>, \<open>Adapter_Delivery\<close>, \<open>Adapter_Recovery\<close>, \<open>Adapter_Hooks\<close>, \<open>Adapter_Life\<close>, \<open>Adapter_Entry\<close>
    (\<^verbatim>\<open>lwip/cc_adapter.c\<close>, \<^verbatim>\<open>lwip/cc_hooks.h\<close>, \<^verbatim>\<open>lwip/initial_window.h\<close>): state and registry, delivery slots and rate samples, recovery and send gates, the hooks,
    the life cycle, and the entry points as the steps \<open>hook_step\<close> that lwIP may take in any order. \<open>Adapter_Frame\<close> holds what the helpers leave alone;
    \<open>Adapter_Ledger\<close>, \<open>Adapter_Safety\<close> and \<open>Adapter_Gates\<close> hold the guarantees. The interface \<open>tireless_controller\<close>
    extends \<open>cc_controller\<close> by handlers that never refuse.
  \<^item> \<open>Tcp_Memory_Config\<close> and \<open>Tcp_Memory\<close> (\<^verbatim>\<open>lwip/tcp_memory.c\<close>); the accounts interpret the interface \<open>byte_ledger\<close>.
  \<^item> \<open>C_Text\<close>, \<open>Service_Config\<close>, \<open>Service_Schema\<close>, \<open>Service_Roundtrip\<close> (\<^verbatim>\<open>service_config.c\<close>).
  \<^item> \<open>Lwip_Io\<close>, \<open>L3_Tun\<close> (\<^verbatim>\<open>lwip/l3_tun.c\<close>, whose ring interprets \<open>bounded_queue\<close>), \<open>Lwip_Loop\<close> (\<^verbatim>\<open>runtime/lwip_loop.c\<close>), \<open>Bridge\<close>,
    \<open>Bridge_Flow\<close> and \<open>Bridge_Run\<close> (\<^verbatim>\<open>bridge/bridge.c\<close>).

  \<^bold>\<open>Conventions.\<close> Structures are records and keep the names of the code, with a short prefix where two structures share a field
  name; \<^verbatim>\<open>uint8_t\<close> flags are booleans, other integers words of their width, so arithmetic wraps as in C; the return codes
  of the functions are integers. A pointer the code owns is the value behind it; a pointer that is only compared is an identity (a natural number); a pointer that may be \<^verbatim>\<open>NULL\<close> is an
  option. \<^verbatim>\<open>NULL\<close> arguments of internal functions that no caller passes are left out, except in the boundary of
  \<open>Cc_Core\<close>, where they are tested. The kernel, lwIP, the clock, the allocator and the callbacks of the
  application are arguments: functions, or lists of replies in the order of the calls. An exhausted list is \<open>None\<close> (input
  and output) or a failure (the adapter), so nothing is assumed of the outside. Ghost components, such as
  the streams of the bridge and the log of service calls, are only written.

  \<^bold>\<open>Loops and bounds.\<close> Loops over arrays are recursions over lists. The passes of RACK and of the delivery accounting visit each slot once;
  the registration loop of the adapter runs at most twice, since a registry that has grown has a free entry; the loops that
  depend on the outside (the flush of the packet ring, the pumps of the bridge, the release of due events) consume a
  reply or an element in every turn, which is their termination measure. The cube root of CUBIC and the bit loops have the fixed number of
  turns of the code. The slot and registry counts of the adapter stay below the width of their C types because memory is
  exhausted long before; the allocator may refuse at any time.

  \<^bold>\<open>What is shown.\<close> Per controller: the published windows are always usable and the state machines keep
  their order; the estimators compute what their specifications say (the maximum over the last ten rounds or two cycles, exact
  rational arithmetic). Pacing: the timer stands at the earliest deadline, a wake-up releases exactly the due events, a flow conforms to its
  rate. Recovery: RACK's timers are exact, probes are separated, the reduction sends no more than its share. The adapter: every payload byte is
  delivered once, outstanding or given up; a connection bound with Reno never falls back; the gates and samples are exact; a stale
  flow identity never resolves. The bridge: no byte is lost, repeated or reordered, half-closes are in order, the accounts are exact, and
  stopping ends. Configuration: printing and loading are inverse, and every loaded configuration is valid.

  \<^bold>\<open>Not modelled.\<close>
  \<^item> lwIP itself: a submodule whose sources are not in the tree; the patches in \<^verbatim>\<open>patches\<close> are differences against it.
  \<^item> The tracing of the qualification builds (\<^verbatim>\<open>TCP_SHIFT_P6_*\<close>), which only prints, and the test servers \<^verbatim>\<open>lwip/cc_pacing_qualification.c\<close> and
    \<^verbatim>\<open>lwip/probe_listener.c\<close>.
  \<^item> \<^verbatim>\<open>lwip/cc_selector.c\<close> and \<^verbatim>\<open>lwip/cc_bbr_internal.c\<close>, \<^verbatim>\<open>lwip/cc_bbr_accept.c\<close>, \<^verbatim>\<open>lwip/bbr3_binding.c\<close>, which connect other controllers to
    the adapter.
  \<^item> \<^verbatim>\<open>host/*\<close>, which is netlink messages, \<^verbatim>\<open>ioctl\<close> calls and started programs, and the main functions, which parse
    arguments, handle signals and connect the parts above.
\<close>

end
